(* ===== verification/AC_Prelude.thy ===== *)
theory AC_Prelude
  imports Main "HOL-Library.AList" "HOL-Library.Sublist"
begin

section \<open>Prelude: results, time, Go maps and slices\<close>

text \<open>
  Conventions shared by every component of the model.

  \<^item> A Go function that returns \<open>(T, error)\<close>, and a method that mutates its receiver and
    returns \<open>error\<close>, is a function into a sum: \<open>Err e\<close> for the error return and
    \<open>Ok x\<close> for the result or for the updated receiver.  Every error return of the modelled
    code happens before its receiver is written, so an error carries no state.
  \<^item> A Go function that returns just \<open>error\<close> and mutates nothing is a function into an
    option: \<open>None\<close> is nil.
  \<^item> \<open>time.Time\<close> is the number of nanoseconds since the zero time, so \<open>IsZero\<close> is
    equality with 0, \<open>UTC()\<close> is the identity on instants and \<open>Before\<close> is \<open><\<close>.
    A method that falls back to \<open>time.Now()\<close> takes that reading as an argument \<open>now\<close>.
  \<^item> Go's 64-bit \<open>int\<close> counters (versions, round counts) are \<open>int\<close>: they are
    incremented by one per call and never reach the wrap-around.
\<close>

named_theorems op_defs "definitions of the operations of the aggregates"
named_theorems adj_simps "lookup laws of adjacency maps"

abbreviation Ok :: "'a \<Rightarrow> 'e + 'a" where
  "Ok \<equiv> Inr"

abbreviation Err :: "'e \<Rightarrow> 'e + 'a" where
  "Err \<equiv> Inl"

type_synonym time = int
type_synonym duration = int

abbreviation zero_time :: time where
  "zero_time \<equiv> 0"

definition is_zero_time :: "time \<Rightarrow> bool" where
  "is_zero_time t \<longleftrightarrow> t = zero_time"

text \<open>The \<open>if at.IsZero() { at = time.Now() }\<close> of every \<open>touch\<close>.\<close>

definition stamp :: "time \<Rightarrow> time \<Rightarrow> time" where
  "stamp now at = (if is_zero_time at then now else at)"

text \<open>A nil or zero pointer to a time is dropped, any other is copied.\<close>

definition norm_time_ptr :: "time option \<Rightarrow> time option" where
  "norm_time_ptr p = (case p of None \<Rightarrow> None | Some t \<Rightarrow> if is_zero_time t then None else Some t)"

lemma norm_time_ptr_idem [simp]: "norm_time_ptr (norm_time_ptr p) = norm_time_ptr p"
  by (simp add: norm_time_ptr_def split: option.splits)

subsection \<open>Deduplication in first-seen order\<close>

text \<open>
  The \<open>seen\<close>-map loop that several normalisers share: keep the first occurrence of each
  element, in input order.
\<close>

fun dedup_acc :: "'a list \<Rightarrow> 'a list \<Rightarrow> 'a list" where
  "dedup_acc seen [] = []"
| "dedup_acc seen (x # xs) =
     (if x \<in> set seen then dedup_acc seen xs else x # dedup_acc (x # seen) xs)"

lemma set_dedup_acc: "set (dedup_acc seen xs) = set xs - set seen"
  by (induction seen xs rule: dedup_acc.induct) auto

lemma distinct_dedup_acc: "distinct (dedup_acc seen xs)"
  by (induction seen xs rule: dedup_acc.induct) (auto simp: set_dedup_acc)

lemma length_dedup_acc: "length (dedup_acc seen xs) \<le> length xs"
  by (induction seen xs rule: dedup_acc.induct) auto

lemma dedup_acc_id: "distinct xs \<Longrightarrow> set xs \<inter> set seen = {} \<Longrightarrow> dedup_acc seen xs = xs"
  by (induction seen xs rule: dedup_acc.induct) auto

lemma dedup_acc_subseq: "subseq (dedup_acc seen xs) xs"
  by (induction seen xs rule: dedup_acc.induct) auto

subsection \<open>Go maps from keys to slices\<close>

text \<open>
  \<open>map[K][]V\<close> as an association list: a missing key reads as the nil slice, and
  \<open>m[k] = append(m[k], v)\<close> extends the entry of \<open>k\<close>.
\<close>

type_synonym ('k, 'v) multimap = "('k \<times> 'v list) list"

definition mm_get :: "('k, 'v) multimap \<Rightarrow> 'k \<Rightarrow> 'v list" where
  "mm_get m k = (case map_of m k of None \<Rightarrow> [] | Some vs \<Rightarrow> vs)"

definition mm_append :: "('k, 'v) multimap \<Rightarrow> 'k \<Rightarrow> 'v \<Rightarrow> ('k, 'v) multimap" where
  "mm_append m k v = AList.update k (mm_get m k @ [v]) m"

lemma mm_get_Nil [simp, adj_simps]: "mm_get [] k = []"
  by (simp add: mm_get_def)

lemma mm_get_append [simp, adj_simps]:
  "mm_get (mm_append m k v) k' = (if k' = k then mm_get m k @ [v] else mm_get m k')"
  by (simp add: mm_append_def mm_get_def update_conv')

lemma mm_get_in_concat: "v \<in> set (mm_get m k) \<Longrightarrow> v \<in> set (concat (map snd m))"
  by (cases "map_of m k") (auto simp: mm_get_def dest!: map_of_SomeD intro!: bexI)

text \<open>The adjacency map that a loop over a list of edges builds.\<close>

definition build_adj :: "('k \<times> 'v) list \<Rightarrow> ('k, 'v) multimap" where
  "build_adj es = fold (\<lambda>(a, b) m. mm_append m a b) es []"

lemma mm_get_fold:
  "mm_get (fold (\<lambda>(a, b) m. mm_append m a b) es m) k = mm_get m k @ map snd (filter (\<lambda>e. fst e = k) es)"
  by (induction es arbitrary: m) auto

lemma mm_get_build_adj [simp, adj_simps]:
  "mm_get (build_adj es) k = map snd (filter (\<lambda>e. fst e = k) es)"
  by (simp add: build_adj_def mm_get_fold)

lemma set_build_adj: "v \<in> set (mm_get (build_adj es) k) \<longleftrightarrow> (k, v) \<in> set es"
  by force

lemma mm_append_keys:
  "distinct (map fst m) \<Longrightarrow> distinct (map fst (mm_append m k v))"
  "fst ` set (mm_append m k v) = insert k (fst ` set m)"
  by (simp_all add: mm_append_def distinct_update) (simp add: update_conv' dom_map_of_conv_image_fst [symmetric])

lemma fold_append_distinct:
  "distinct (map fst m) \<Longrightarrow> distinct (map fst (fold (\<lambda>(a, b) m. mm_append m a b) es m))"
  by (induction es arbitrary: m) (simp_all add: mm_append_keys split_beta)

lemma fold_append_keys:
  "fst ` set (fold (\<lambda>(a, b) m. mm_append m a b) es m) = fst ` set m \<union> fst ` set es"
  by (induction es arbitrary: m) (simp_all add: mm_append_keys split_beta)

lemma build_adj_keys:
  "distinct (map fst (build_adj es))" "fst ` set (build_adj es) = fst ` set es"
  by (simp_all add: build_adj_def fold_append_distinct fold_append_keys)

lemma build_adj_entries:
  "(k, vs) \<in> set (build_adj es) \<longleftrightarrow> k \<in> fst ` set es \<and> vs = map snd (filter (\<lambda>e. fst e = k) es)"
proof -
  have "(k, vs) \<in> set (build_adj es) \<longleftrightarrow> map_of (build_adj es) k = Some vs"
    by (simp add: build_adj_keys)
  also have "\<dots> \<longleftrightarrow> k \<in> fst ` set (build_adj es) \<and> vs = mm_get (build_adj es) k"
    by (auto simp: mm_get_def map_of_eq_None_iff [symmetric] split: option.splits intro: map_of_SomeD)
      (metis map_of_eq_None_iff option.distinct(1))
  finally show ?thesis by (simp add: build_adj_keys)
qed

end
