(* ===== verification/Go_Strings.thy ===== *)
theory Go_Strings
  imports AC_Prelude
begin

section \<open>Go strings: the functions of package strings that the code calls\<close>

text \<open>
  A Go string is its bytes, a \<open>char list\<close>; multi-byte runes are their UTF-8 bytes.
  The functions here compute what \<open>strings.TrimSpace\<close>, \<open>strings.HasPrefix\<close>,
  \<open>strings.Contains\<close>, \<open>strings.ToLower\<close>, \<open>strings.TrimPrefix\<close>, \<open>strings.Join\<close>
  and \<open>len([]rune(s))\<close> return on every byte string.  The one thing left open is the Unicode
  case table: \<open>ToLower\<close> is exact on ASCII strings and calls its parameter
  \<open>ulower\<close> on a string that holds a non-ASCII byte.
\<close>

type_synonym gostring = string

definition byte :: "char \<Rightarrow> nat" where
  "byte c = of_char c"

text \<open>The UTF-8 encoding of U+2014, which some messages hold.\<close>

definition em_dash :: gostring where
  "em_dash = [CHR 0xE2, CHR 0x80, CHR 0x94]"

subsection \<open>TrimSpace\<close>

text \<open>
  The UTF-8 encodings of the runes of \<open>unicode.IsSpace\<close>: the six ASCII spaces, U+0085,
  U+00A0, U+1680, U+2000 to U+200A, U+2028, U+2029, U+202F, U+205F and U+3000.
\<close>

definition space_encodings :: "gostring list" where
  "space_encodings =
     [[CHR 0x20], [CHR 0x09], [CHR 0x0A], [CHR 0x0B], [CHR 0x0C], [CHR 0x0D],
      [CHR 0xC2, CHR 0x85], [CHR 0xC2, CHR 0xA0], [CHR 0xE1, CHR 0x9A, CHR 0x80],
      [CHR 0xE2, CHR 0x80, CHR 0x80], [CHR 0xE2, CHR 0x80, CHR 0x81],
      [CHR 0xE2, CHR 0x80, CHR 0x82], [CHR 0xE2, CHR 0x80, CHR 0x83],
      [CHR 0xE2, CHR 0x80, CHR 0x84], [CHR 0xE2, CHR 0x80, CHR 0x85],
      [CHR 0xE2, CHR 0x80, CHR 0x86], [CHR 0xE2, CHR 0x80, CHR 0x87],
      [CHR 0xE2, CHR 0x80, CHR 0x88], [CHR 0xE2, CHR 0x80, CHR 0x89],
      [CHR 0xE2, CHR 0x80, CHR 0x8A], [CHR 0xE2, CHR 0x80, CHR 0xA8],
      [CHR 0xE2, CHR 0x80, CHR 0xA9], [CHR 0xE2, CHR 0x80, CHR 0xAF],
      [CHR 0xE2, CHR 0x81, CHR 0x9F], [CHR 0xE3, CHR 0x80, CHR 0x80]]"

definition strip_one :: "gostring list \<Rightarrow> gostring \<Rightarrow> gostring option" where
  "strip_one ps s =
     (case List.find (\<lambda>p. p \<noteq> [] \<and> prefix p s) ps of
        None \<Rightarrow> None
      | Some p \<Rightarrow> Some (drop (length p) s))"

lemma strip_one_shorter: "strip_one ps s = Some r \<Longrightarrow> length r < length s"
  by (auto simp: strip_one_def find_Some_iff prefix_def split: option.splits)

lemma strip_one_None:
  "strip_one ps s = None \<longleftrightarrow> (\<forall>p \<in> set ps. p \<noteq> [] \<longrightarrow> \<not> prefix p s)"
proof -
  have "strip_one ps s = None \<longleftrightarrow> List.find (\<lambda>p. p \<noteq> [] \<and> prefix p s) ps = None"
    by (simp add: strip_one_def split: option.splits)
  then show ?thesis by (auto simp: find_None_iff)
qed

function trim_with :: "gostring list \<Rightarrow> gostring \<Rightarrow> gostring" where
  "trim_with ps s = (case strip_one ps s of None \<Rightarrow> s | Some r \<Rightarrow> trim_with ps r)"
  by pat_completeness auto
termination
  by (relation "measure (\<lambda>(ps, s). length s)") (auto dest: strip_one_shorter)

declare trim_with.simps [simp del]

definition TrimLeft :: "gostring \<Rightarrow> gostring" where
  "TrimLeft s = trim_with space_encodings s"

definition TrimRight :: "gostring \<Rightarrow> gostring" where
  "TrimRight s = rev (trim_with (map rev space_encodings) (rev s))"

definition TrimSpace :: "gostring \<Rightarrow> gostring" where
  "TrimSpace s = TrimRight (TrimLeft s)"

lemma strip_one_trim_with: "strip_one ps (trim_with ps s) = None"
proof (induction ps s rule: trim_with.induct)
  case (1 ps s)
  then show ?case by (subst trim_with.simps) (simp split: option.splits)
qed

lemma trim_with_fixed: "strip_one ps s = None \<Longrightarrow> trim_with ps s = s"
  by (subst trim_with.simps) simp

lemma trim_with_suffix: "suffix (trim_with ps s) s"
proof (induction ps s rule: trim_with.induct)
  case (1 ps s)
  show ?case
  proof (cases "strip_one ps s")
    case None
    then show ?thesis by (simp add: trim_with_fixed)
  next
    case (Some r)
    from Some have "suffix r s"
      by (auto simp: strip_one_def suffix_drop split: option.splits)
    with "1.IH" [OF Some] Some show ?thesis
      by (subst trim_with.simps) (auto intro: suffix_order.trans)
  qed
qed

lemma strip_one_prefix: "strip_one ps s = None \<Longrightarrow> prefix r s \<Longrightarrow> strip_one ps r = None"
  by (meson strip_one_None prefix_order.trans)

lemma TrimRight_prefix: "prefix (TrimRight s) s"
  using trim_with_suffix [of "map rev space_encodings" "rev s"]
  by (simp add: TrimRight_def suffix_to_prefix)

lemma TrimSpace_idem [simp]: "TrimSpace (TrimSpace s) = TrimSpace s"
proof -
  have "strip_one space_encodings (TrimLeft s) = None"
    by (simp add: TrimLeft_def strip_one_trim_with)
  then have "strip_one space_encodings (TrimSpace s) = None"
    unfolding TrimSpace_def by (rule strip_one_prefix) (rule TrimRight_prefix)
  then have "TrimLeft (TrimSpace s) = TrimSpace s"
    by (simp add: TrimLeft_def trim_with_fixed)
  moreover have "TrimRight (TrimSpace s) = TrimSpace s"
    by (simp add: TrimSpace_def TrimRight_def trim_with_fixed strip_one_trim_with)
  ultimately show ?thesis by (simp add: TrimSpace_def)
qed

lemma TrimSpace_Nil [simp]: "TrimSpace [] = []"
  by (simp add: TrimSpace_def TrimLeft_def TrimRight_def trim_with_fixed strip_one_None)

definition blank :: "gostring \<Rightarrow> bool" where
  "blank s \<longleftrightarrow> TrimSpace s = []"

lemma blank_Nil [simp]: "blank []"
  by (simp add: blank_def)

lemma blank_TrimSpace [simp]: "blank (TrimSpace s) \<longleftrightarrow> blank s"
  by (simp add: blank_def)

lemma not_blank_nonempty: "\<not> blank s \<Longrightarrow> s \<noteq> []"
  by auto

subsection \<open>ToLower\<close>

definition ascii_lower :: "char \<Rightarrow> char" where
  "ascii_lower c = (if 65 \<le> byte c \<and> byte c \<le> 90 then char_of (byte c + 32) else c)"

definition is_ascii :: "gostring \<Rightarrow> bool" where
  "is_ascii s \<longleftrightarrow> list_all (\<lambda>c. byte c < 128) s"

definition ToLower :: "(gostring \<Rightarrow> gostring) \<Rightarrow> gostring \<Rightarrow> gostring" where
  "ToLower ulower s = (if is_ascii s then map ascii_lower s else ulower s)"

subsection \<open>HasPrefix, TrimPrefix, Contains, Join\<close>

definition HasPrefix :: "gostring \<Rightarrow> gostring \<Rightarrow> bool" where
  "HasPrefix s p \<longleftrightarrow> prefix p s"

definition TrimPrefix :: "gostring \<Rightarrow> gostring \<Rightarrow> gostring" where
  "TrimPrefix s p = (if prefix p s then drop (length p) s else s)"

fun Contains :: "gostring \<Rightarrow> gostring \<Rightarrow> bool" where
  "Contains [] p = (p = [])"
| "Contains (c # s) p = (prefix p (c # s) \<or> Contains s p)"

lemma Contains_iff: "Contains s p \<longleftrightarrow> (\<exists>a b. s = a @ p @ b)"
proof (induction s)
  case Nil
  show ?case by simp
next
  case (Cons c s)
  show ?case
  proof
    assume "Contains (c # s) p"
    then consider "prefix p (c # s)" | "Contains s p" by auto
    then show "\<exists>a b. c # s = a @ p @ b"
    proof cases
      case 1
      then show ?thesis by (metis append_Nil prefixE)
    next
      case 2
      with Cons.IH show ?thesis by (metis append_Cons)
    qed
  next
    assume "\<exists>a b. c # s = a @ p @ b"
    then obtain a b where ab: "c # s = a @ p @ b" by blast
    show "Contains (c # s) p"
    proof (cases a)
      case Nil
      with ab have "prefix p (c # s)" by (simp add: prefix_def)
      then show ?thesis by simp
    next
      case (Cons d a')
      with ab have "s = a' @ p @ b" by simp
      with Cons.IH show ?thesis by auto
    qed
  qed
qed

fun Join :: "gostring list \<Rightarrow> gostring \<Rightarrow> gostring" where
  "Join [] sep = []"
| "Join [s] sep = s"
| "Join (s # t # ss) sep = s @ sep @ Join (t # ss) sep"

subsection \<open>Rune counting\<close>

text \<open>
  \<open>len([]rune(s))\<close> decodes UTF-8; a byte that starts no valid encoding counts as one rune
  of one byte (\<open>utf8.RuneError\<close>).  The ranges are those of the decoder's acceptance table:
  no overlong encodings, no surrogates, nothing above U+10FFFF.
\<close>

definition cont :: "nat \<Rightarrow> nat \<Rightarrow> gostring \<Rightarrow> nat \<Rightarrow> bool" where
  "cont lo hi s i \<longleftrightarrow> i < length s \<and> lo \<le> byte (s ! i) \<and> byte (s ! i) \<le> hi"

definition rune_size :: "gostring \<Rightarrow> nat" where
  "rune_size s =
     (let b = byte (hd s); c = cont 128 191 s in
      if 194 \<le> b \<and> b \<le> 223 \<and> c 1 then 2
      else if b = 224 \<and> cont 160 191 s 1 \<and> c 2 then 3
      else if (225 \<le> b \<and> b \<le> 236 \<or> b = 238 \<or> b = 239) \<and> c 1 \<and> c 2 then 3
      else if b = 237 \<and> cont 128 159 s 1 \<and> c 2 then 3
      else if b = 240 \<and> cont 144 191 s 1 \<and> c 2 \<and> c 3 then 4
      else if 241 \<le> b \<and> b \<le> 243 \<and> c 1 \<and> c 2 \<and> c 3 then 4
      else if b = 244 \<and> cont 128 143 s 1 \<and> c 2 \<and> c 3 then 4
      else 1)"

lemma rune_size_pos: "0 < rune_size s"
  by (simp add: rune_size_def Let_def)

function rune_count :: "gostring \<Rightarrow> nat" where
  "rune_count [] = 0"
| "rune_count (c # s) = Suc (rune_count (drop (rune_size (c # s)) (c # s)))"
  by pat_completeness auto
termination
  by (relation "measure length") (auto simp: rune_size_pos)

lemma rune_count_le: "rune_count s \<le> length s"
proof (induction s rule: rune_count.induct)
  case 1
  show ?case by simp
next
  case (2 c s)
  have "length (drop (rune_size (c # s)) (c # s)) < length (c # s)"
    using rune_size_pos [of "c # s"] by simp
  with 2 show ?case by simp
qed

subsection \<open>Decimal digits\<close>

text \<open>The \<open>%d\<close> of \<open>fmt.Sprintf\<close> and \<open>strconv.Itoa\<close>.\<close>

fun nat_digits :: "nat \<Rightarrow> gostring" where
  "nat_digits n =
     (if n < 10 then [char_of (48 + n)] else nat_digits (n div 10) @ [char_of (48 + n mod 10)])"

declare nat_digits.simps [simp del]

definition Itoa :: "int \<Rightarrow> gostring" where
  "Itoa i = (if i < 0 then ''-'' @ nat_digits (nat (- i)) else nat_digits (nat i))"

definition digits_value :: "gostring \<Rightarrow> nat" where
  "digits_value s = foldl (\<lambda>a c. 10 * a + (byte c - 48)) 0 s"

lemma nat_digits_facts: "digits_value (nat_digits n) = n \<and> (\<forall>c \<in> set (nat_digits n). 48 \<le> byte c \<and> byte c \<le> 57)"
proof (induction n rule: nat_digits.induct)
  case (1 n)
  have b: "byte (char_of (48 + k)) = 48 + k" if "k < 10" for k :: nat
    using that by (simp add: byte_def)
  show ?case
  proof (cases "n < 10")
    case True
    then show ?thesis by (subst (1 2) nat_digits.simps) (simp add: digits_value_def b)
  next
    case False
    with 1 b [of "n mod 10"] show ?thesis
      by (subst (1 2) nat_digits.simps) (auto simp: digits_value_def)
  qed
qed

lemma nat_digits_inj: "nat_digits m = nat_digits n \<longleftrightarrow> m = n"
  by (metis nat_digits_facts)

lemma Itoa_no: "CHR '':'' \<notin> set (Itoa v)" "CHR ''|'' \<notin> set (Itoa v)"
proof -
  have "byte (CHR '':'') = 58" "byte (CHR ''|'') = 124" by (simp_all add: byte_def)
  then have "CHR '':'' \<notin> set (nat_digits n)" "CHR ''|'' \<notin> set (nat_digits n)" for n
    using nat_digits_facts [of n] by (auto dest!: bspec)
  then show "CHR '':'' \<notin> set (Itoa v)" "CHR ''|'' \<notin> set (Itoa v)" by (simp_all add: Itoa_def)
qed

lemma Itoa_inj: "Itoa v = Itoa v' \<longleftrightarrow> v = v'"
proof -
  have "byte (CHR ''-'') = 45" by (simp add: byte_def)
  then have "CHR ''-'' \<notin> set (nat_digits n)" for n
    using nat_digits_facts [of n] by (auto dest!: bspec)
  then have minus: "''-'' @ nat_digits m \<noteq> nat_digits n" for m n
    by (metis append_Cons list.set_intros(1))
  show ?thesis
    using nat_digits_inj minus by (auto simp: Itoa_def nat_eq_iff split: if_splits) (metis append_Cons append_Nil)+
qed

lemma split_first:
  "x \<notin> set a \<Longrightarrow> x \<notin> set b \<Longrightarrow> a @ x # c = b @ x # d \<Longrightarrow> a = b \<and> c = d"
proof (induction a arbitrary: b)
  case Nil
  then show ?case by (cases b) auto
next
  case (Cons y a)
  then show ?case by (cases b) auto
qed

end
