(* ===== verification/Lifecycle.thy ===== *)
theory Lifecycle
  imports AC_Prelude
begin

section \<open>Interfaces: status machines and versioned aggregates\<close>

text \<open>
  Every aggregate of the domain has the same two contracts.  Its status type comes with an
  adjacency table, a validity test and a terminal test (\<open>status_machine\<close>); its mutators
  come with an invariant and an optimistic-lock version (\<open>aggregate\<close>), and some states are
  sealed: no mutator changes a fact of theirs any more (\<open>sealed_aggregate\<close>).  The lemmas
  about histories of calls are proved here once; the theories of the aggregates interpret
  the locales on their own operations.
\<close>

definition step_rel :: "('s \<Rightarrow> 's list) \<Rightarrow> ('s \<times> 's) set" where
  "step_rel succs = {(s, t). t \<in> set (succs s)}"

locale status_machine =
  fixes valid :: "'s \<Rightarrow> bool"
    and succs :: "'s \<Rightarrow> 's list"
    and terminal :: "'s \<Rightarrow> bool"
  assumes succs_valid: "t \<in> set (succs s) \<Longrightarrow> valid t"
    and terminal_stuck: "terminal s \<Longrightarrow> succs s = []"
    and live_moves: "valid s \<Longrightarrow> \<not> terminal s \<Longrightarrow> succs s \<noteq> []"
begin

lemma path_valid: "(s, t) \<in> (step_rel succs)\<^sup>* \<Longrightarrow> valid s \<Longrightarrow> valid t"
  by (induction rule: rtrancl_induct) (auto simp: step_rel_def succs_valid)

lemma terminal_absorbing: "(s, t) \<in> (step_rel succs)\<^sup>* \<Longrightarrow> terminal s \<Longrightarrow> t = s"
  by (induction rule: rtrancl_induct) (auto simp: step_rel_def terminal_stuck)

lemma moves_iff: "valid s \<Longrightarrow> succs s \<noteq> [] \<longleftrightarrow> \<not> terminal s"
  using live_moves terminal_stuck by blast

end

subsection \<open>Histories of calls on one aggregate\<close>

text \<open>
  A client calls mutators one after the other; a call that returns an error leaves the
  aggregate as it was.
\<close>

fun run_ops :: "('op \<Rightarrow> 's \<Rightarrow> 'e + 's) \<Rightarrow> 'op list \<Rightarrow> 's \<Rightarrow> 's" where
  "run_ops exec [] s = s"
| "run_ops exec (op # ops) s =
     (case exec op s of Err e \<Rightarrow> run_ops exec ops s | Ok s' \<Rightarrow> run_ops exec ops s')"

lemma run_ops_append: "run_ops exec (xs @ ys) s = run_ops exec ys (run_ops exec xs s)"
  by (induction xs arbitrary: s) (auto split: sum.splits)

text \<open>
  A relation that every successful call keeps and that is a preorder relates the first state
  of a history to the last.
\<close>

locale history =
  fixes exec :: "'op \<Rightarrow> 's \<Rightarrow> 'e + 's"
    and rel :: "'s \<Rightarrow> 's \<Rightarrow> bool"
  assumes rel_refl: "rel s s"
    and rel_trans: "rel s s' \<Longrightarrow> rel s' s'' \<Longrightarrow> rel s s''"
    and exec_rel: "exec op s = Ok s' \<Longrightarrow> rel s s'"
begin

lemma run_rel: "rel s (run_ops exec ops s)"
proof (induction ops arbitrary: s)
  case Nil
  show ?case by (simp add: rel_refl)
next
  case (Cons op ops)
  then show ?case
    by (auto split: sum.splits dest!: exec_rel intro: rel_trans)
qed

lemma run_rel_split: "rel (run_ops exec xs s) (run_ops exec (xs @ ys) s)"
  by (simp add: run_ops_append run_rel)

end

locale aggregate =
  fixes exec :: "'op \<Rightarrow> 's \<Rightarrow> 'e + 's"
    and inv :: "'s \<Rightarrow> bool"
    and version :: "'s \<Rightarrow> int"
  assumes exec_inv: "exec op s = Ok s' \<Longrightarrow> inv s \<Longrightarrow> inv s'"
    and exec_version: "exec op s = Ok s' \<Longrightarrow> version s \<le> version s'"
begin

lemma run_inv: "inv s \<Longrightarrow> inv (run_ops exec ops s)"
  by (induction ops arbitrary: s) (auto split: sum.splits dest: exec_inv)

end

sublocale aggregate \<subseteq> versions: history exec "\<lambda>s s'. version s \<le> version s'"
  by unfold_locales (auto dest: exec_version)

locale sealed_aggregate = aggregate exec inv version
  for exec :: "'op \<Rightarrow> 's \<Rightarrow> 'e + 's" and inv :: "'s \<Rightarrow> bool" and version :: "'s \<Rightarrow> int" +
  fixes sealed :: "'s \<Rightarrow> bool"
    and fact :: "'s \<Rightarrow> 'f"
  assumes exec_sealed: "exec op s = Ok s' \<Longrightarrow> inv s \<Longrightarrow> sealed s \<Longrightarrow> sealed s' \<and> fact s' = fact s"
begin

lemma run_sealed:
  "inv s \<Longrightarrow> sealed s \<Longrightarrow> sealed (run_ops exec ops s) \<and> fact (run_ops exec ops s) = fact s"
proof (induction ops arbitrary: s)
  case Nil
  then show ?case by simp
next
  case (Cons op ops)
  show ?case
  proof (cases "exec op s")
    case (Inl e)
    with Cons show ?thesis by simp
  next
    case (Inr s')
    with Cons.prems have "inv s'" "sealed s'" "fact s' = fact s"
      using exec_inv [of op s s'] exec_sealed [of op s s'] by auto
    with Cons.IH [of s'] Inr show ?thesis by simp
  qed
qed

end

end
