(* ===== verification/PM_Types.thy ===== *)
theory PM_Types
  imports Go_Strings Lifecycle
begin

section \<open>Shared types of the project-management domain\<close>

text \<open>
  \<open>internal/projectmanager/types.go\<close>: identifiers (Go string types), the identity
  vocabulary and the sentinel errors; \<open>delivery.go\<close>: the git facts of an executor's last
  run.  The inline \<open>errors.New(...)\<close> values keep their text under \<open>ErrNew\<close>, without
  the package prefix.
\<close>

type_synonym task_id = gostring
type_synonym plan_id = gostring
type_synonym stage_id = gostring
type_synonym project_id = gostring
type_synonym issue_id = gostring
type_synonym verdict_id = gostring
type_synonym identity_ref = gostring

subsection \<open>Delivery facts\<close>

record delivery =
  d_Probed :: bool
  d_Pushed :: bool
  d_Branch :: gostring
  d_HeadSHA :: gostring
  d_Dirty :: bool
  d_DirtyPaths :: "gostring list"
  d_BaseRef :: gostring
  d_BaseKnown :: bool
  d_AheadOfBase :: int
  d_PushError :: gostring
  d_Source :: gostring
  d_ExecutorID :: gostring
  d_Worktree :: gostring
  d_Evidence :: gostring
  d_Reason :: gostring

record delivery_reason =
  dr_Code :: gostring
  dr_Message :: gostring

text \<open>The receiver of both methods is a pointer, so nil (\<open>None\<close>) is a case of each.\<close>

definition HasValidDelivery :: "delivery option \<Rightarrow> bool" where
  "HasValidDelivery od =
     (case od of
        None \<Rightarrow> False
      | Some d \<Rightarrow> d_Probed d \<and> d_Pushed d \<and> \<not> d_Dirty d \<and> d_BaseKnown d \<and>
          0 < d_AheadOfBase d \<and> d_Branch d \<noteq> [] \<and> d_HeadSHA d \<noteq> [])"

definition reason :: "gostring \<Rightarrow> gostring \<Rightarrow> delivery_reason" where
  "reason c m = \<lparr>dr_Code = c, dr_Message = m\<rparr>"

definition InvalidReasons :: "delivery option \<Rightarrow> delivery_reason list" where
  "InvalidReasons od =
     (case od of
        None \<Rightarrow> [reason ''delivery_missing'' ''no delivery has been reported for this task'']
      | Some d \<Rightarrow>
          (if \<not> d_Probed d
           then [reason ''git_not_probed'' ''executor/worktree git state was not probed''] else []) @
          (if \<not> d_Pushed d
           then [reason ''head_not_pushed''
                   (''delivery HEAD is not verified on a remote ref'' @
                    (if \<not> blank (d_PushError d) then '': '' @ d_PushError d else []))] else []) @
          (if d_Dirty d
           then [reason ''worktree_dirty''
                   (''worktree still has uncommitted changes'' @
                    (if d_DirtyPaths d \<noteq> [] then '': '' @ Join (d_DirtyPaths d) '', '' else []))]
           else []) @
          (if \<not> d_BaseKnown d
           then [reason ''base_unknown'' ''spawn/recovery base ref is unknown or unresolved''] else []) @
          (if d_AheadOfBase d \<le> 0
           then [reason ''no_commit_ahead_of_base'' ''HEAD is not ahead of the recorded base ref'']
           else []) @
          (if blank (d_Branch d)
           then [reason ''branch_missing'' ''delivery branch is missing''] else []) @
          (if blank (d_HeadSHA d)
           then [reason ''head_sha_missing'' ''delivery HEAD SHA is missing''] else []))"

text \<open>The gate is at least as permissive as its diagnostic twin: no reason means valid.\<close>

lemma no_reason_valid: "InvalidReasons od = [] \<Longrightarrow> HasValidDelivery od"
  by (auto simp: InvalidReasons_def HasValidDelivery_def split: option.splits if_splits)

text \<open>The converse needs a branch and a SHA that are not white space.\<close>

lemma valid_no_reason:
  "HasValidDelivery (Some d) \<Longrightarrow> \<not> blank (d_Branch d) \<Longrightarrow> \<not> blank (d_HeadSHA d) \<Longrightarrow>
   InvalidReasons (Some d) = []"
  by (simp add: InvalidReasons_def HasValidDelivery_def)

subsection \<open>Errors\<close>

datatype pm_error =
    ErrNew gostring
  | ErrEmptyProjectScope
  | ErrInvalidStatus
  | ErrIllegalTransition
  | ErrTaskNoValidDelivery "delivery_reason list"
  | ErrTaskArchived
  | ErrTaskNotArchived
  | ErrBlockReasonRequired
  | ErrFailReasonRequired
  | ErrNotTaskAssignee
  | ErrTaskBlocked
  | ErrLeaseStillLive
  | ErrTaskReopenRetired
  | ErrTaskRetryPlanBound
  | ErrTaskRetryNotApplicable
  | ErrEmptyPlanName
  | ErrPlanCycle
  | ErrSelfDependency
  | ErrInvalidLoopback
  | ErrConditionalNeedsWhen
  | ErrInvalidEdgeKind
  | ErrIllegalPlanTransition
  | ErrInvalidPlanStatus
  | ErrPlanNotTerminal
  | ErrPlanArchived
  | ErrBuiltinPlanImmutable
  | ErrEmptyStageName
  | ErrStageCycle
  | ErrStageSelfDependency
  | ErrStageCrossPlanDependency
  | ErrStageCrossEdge
  | ErrStageStagelessNode "task_id list"
  | ErrMissingGateAssignee
  | ErrMissingGateContract
  | ErrUnsupportedGateEvaluator
  | ErrInvalidGateRoute
  | ErrContinuationClosed
  | ErrRemediationBudgetExhausted
  | ErrRemediationProposalInvalid
  | ErrRemediationProposalStale
  | ErrPlanVersionConflict
  | ErrBuiltinPlanNoEdges
  | ErrPlanNotPending
  | ErrPlanProjectMismatch
  | ErrTaskInOtherPlan
  | ErrTaskNotFound

definition NewTaskNoValidDeliveryError :: "delivery option \<Rightarrow> pm_error" where
  "NewTaskNoValidDeliveryError d = ErrTaskNoValidDelivery (InvalidReasons d)"

subsection \<open>Identity references\<close>

text \<open>\<open>IdentityRef.Validate\<close>: \<open>system\<close>, or \<open>user:\<close> / \<open>agent:\<close> with a non-empty id.\<close>

definition IdentityRef_Validate :: "identity_ref \<Rightarrow> pm_error option" where
  "IdentityRef_Validate s =
     (if s = [] then Some (ErrNew ''identity ref required'')
      else if s = ''system'' then None
      else if list_ex (\<lambda>p. HasPrefix s p \<and> length p < length s) [''user:'', ''agent:''] then None
      else Some (ErrNew ''identity ref must be system, user:<id> or agent:<id>''))"

definition valid_ref :: "identity_ref \<Rightarrow> bool" where
  "valid_ref s \<longleftrightarrow> IdentityRef_Validate s = None"

lemma valid_ref_nonempty: "valid_ref s \<Longrightarrow> s \<noteq> []"
  by (auto simp: valid_ref_def IdentityRef_Validate_def)

lemma HasPrefix_longer: "HasPrefix s p \<and> length p < length s \<longleftrightarrow> (\<exists>i. i \<noteq> [] \<and> s = p @ i)"
  by (auto simp: HasPrefix_def prefix_def)

lemma valid_ref_iff:
  "valid_ref s \<longleftrightarrow> s = ''system'' \<or> (\<exists>i. i \<noteq> [] \<and> s = ''user:'' @ i) \<or> (\<exists>i. i \<noteq> [] \<and> s = ''agent:'' @ i)"
proof -
  define u a where "u = ''user:''" and "a = ''agent:''"
  have ne: "u @ i \<noteq> []" "a @ i \<noteq> []" "''system'' \<noteq> []" for i
    by (simp_all add: u_def a_def)
  have "valid_ref s \<longleftrightarrow> s \<noteq> [] \<and> (s = ''system'' \<or> HasPrefix s u \<and> length u < length s
      \<or> HasPrefix s a \<and> length a < length s)"
    unfolding valid_ref_def IdentityRef_Validate_def u_def [symmetric] a_def [symmetric]
    by simp
  also have "\<dots> \<longleftrightarrow> s = ''system'' \<or> (\<exists>i. i \<noteq> [] \<and> s = u @ i) \<or> (\<exists>i. i \<noteq> [] \<and> s = a @ i)"
    unfolding HasPrefix_longer using ne by metis
  finally show ?thesis by (simp only: u_def a_def)
qed

end
