(* ===== verification/Task.thy ===== *)
theory Task
  imports PM_Types
begin

section \<open>The Task aggregate (internal/projectmanager/task.go)\<close>

text \<open>
  Statuses, enumerations and the aggregate with every one of its mutators.  A field
  \<open>x\<close> of the Go struct is the record field \<open>t_x\<close>, a method \<open>M\<close> is \<open>task_M\<close>.
  An empty Go slice and nil are the same empty list.  The input struct of
  \<open>RehydrateTask\<close> has one field per field of the aggregate, so a \<open>task\<close> stands for it.
\<close>

subsection \<open>Statuses\<close>

text \<open>
  \<open>TaskStatus\<close> is a Go string: \<open>TaskStatusOther s\<close> is any string that is none of the
  named constants, such as the retired \<open>reopened\<close>.
\<close>

datatype task_status =
    TaskOpen | TaskRunning | TaskBlocked | TaskCompleted | TaskFailed | TaskDiscarded
  | TaskStatusOther gostring

definition task_IsValid :: "task_status \<Rightarrow> bool" where
  "task_IsValid s \<longleftrightarrow>
     (case s of
        TaskOpen \<Rightarrow> True | TaskRunning \<Rightarrow> True | TaskCompleted \<Rightarrow> True
      | TaskFailed \<Rightarrow> True | TaskDiscarded \<Rightarrow> True | _ \<Rightarrow> False)"

definition AllTaskStatuses :: "task_status list" where
  "AllTaskStatuses = [TaskOpen, TaskRunning, TaskCompleted, TaskFailed, TaskDiscarded]"

definition taskTransitions :: "task_status \<Rightarrow> task_status list" where
  "taskTransitions s =
     (case s of
        TaskOpen \<Rightarrow> [TaskRunning, TaskFailed, TaskDiscarded]
      | TaskRunning \<Rightarrow> [TaskCompleted, TaskFailed, TaskDiscarded]
      | _ \<Rightarrow> [])"

definition task_CanTransitionTo :: "task_status \<Rightarrow> task_status \<Rightarrow> bool" where
  "task_CanTransitionTo s to \<longleftrightarrow> list_ex (\<lambda>n. n = to) (taskTransitions s)"

definition task_IsTerminal :: "task_status \<Rightarrow> bool" where
  "task_IsTerminal s \<longleftrightarrow>
     (case s of TaskCompleted \<Rightarrow> True | TaskFailed \<Rightarrow> True | TaskDiscarded \<Rightarrow> True | _ \<Rightarrow> False)"

definition task_IsParked :: "task_status \<Rightarrow> bool" where
  "task_IsParked s = False"

definition task_IsDispatchable :: "task_status \<Rightarrow> bool" where
  "task_IsDispatchable s \<longleftrightarrow> task_IsValid s \<and> \<not> task_IsTerminal s \<and> \<not> task_IsParked s"

lemmas task_status_defs = task_IsValid_def taskTransitions_def task_CanTransitionTo_def
  task_IsTerminal_def task_IsParked_def task_IsDispatchable_def

interpretation task_sm: status_machine task_IsValid taskTransitions task_IsTerminal
  by unfold_locales (auto simp: task_status_defs split: task_status.splits)

lemma task_IsTerminal_simps [simp]:
  "\<not> task_IsTerminal TaskOpen" "\<not> task_IsTerminal TaskRunning" "\<not> task_IsTerminal TaskBlocked"
  "task_IsTerminal TaskCompleted" "task_IsTerminal TaskFailed" "task_IsTerminal TaskDiscarded"
  "\<not> task_IsTerminal (TaskStatusOther x)"
  by (simp_all add: task_IsTerminal_def)

lemma task_IsValid_simps [simp]:
  "task_IsValid TaskOpen" "task_IsValid TaskRunning" "\<not> task_IsValid TaskBlocked"
  "task_IsValid TaskCompleted" "task_IsValid TaskFailed" "task_IsValid TaskDiscarded"
  "\<not> task_IsValid (TaskStatusOther x)"
  by (simp_all add: task_IsValid_def)

lemma task_CanTransitionTo_simps [simp]:
  "task_CanTransitionTo s TaskCompleted \<longleftrightarrow> s = TaskRunning"
  "task_CanTransitionTo s TaskRunning \<longleftrightarrow> s = TaskOpen"
  "task_CanTransitionTo s TaskFailed \<longleftrightarrow> s = TaskOpen \<or> s = TaskRunning"
  "task_CanTransitionTo s TaskDiscarded \<longleftrightarrow> s = TaskOpen \<or> s = TaskRunning"
  "\<not> task_CanTransitionTo s TaskOpen"
  by (cases s; simp add: task_CanTransitionTo_def taskTransitions_def)+

lemma task_IsTerminal_iff:
  "task_IsTerminal s \<longleftrightarrow> s = TaskCompleted \<or> s = TaskFailed \<or> s = TaskDiscarded"
  by (cases s) simp_all

subsection \<open>The other enumerations\<close>

datatype block_reason_type =
    BlockReasonNone | BlockReasonInputRequired | BlockReasonObstacle | BlockReasonOther gostring

definition blockReason_IsValid :: "block_reason_type \<Rightarrow> bool" where
  "blockReason_IsValid b \<longleftrightarrow>
     (case b of BlockReasonInputRequired \<Rightarrow> True | BlockReasonObstacle \<Rightarrow> True | _ \<Rightarrow> False)"

datatype dispatch_mode =
    DispatchUnset | DispatchExecutorFork | DispatchSupervisorInline | DispatchOther gostring

definition dispatch_IsValid :: "dispatch_mode \<Rightarrow> bool" where
  "dispatch_IsValid d \<longleftrightarrow> (case d of DispatchOther _ \<Rightarrow> False | _ \<Rightarrow> True)"

definition RoutesInline :: "dispatch_mode \<Rightarrow> bool" where
  "RoutesInline d \<longleftrightarrow> d = DispatchSupervisorInline"

definition coerceDispatchMode :: "dispatch_mode \<Rightarrow> dispatch_mode" where
  "coerceDispatchMode d = (if \<not> dispatch_IsValid d then DispatchUnset else d)"

datatype delivery_contract =
    DeliveryUnset | DeliveryCodeChange | DeliveryEvidenceOnly | DeliveryOther gostring

definition contract_IsValid :: "delivery_contract \<Rightarrow> bool" where
  "contract_IsValid d \<longleftrightarrow> (case d of DeliveryOther _ \<Rightarrow> False | _ \<Rightarrow> True)"

definition contract_Effective :: "delivery_contract \<Rightarrow> delivery_contract" where
  "contract_Effective d = (if d = DeliveryUnset then DeliveryCodeChange else d)"

datatype task_action =
    TaskActionAssigned | TaskActionReassigned | TaskActionAgentStarted | TaskActionBlocked
  | TaskActionUnblocked | TaskActionLeaseExpired | TaskActionLeaseNudged | TaskActionCompleted
  | TaskActionFailed | TaskActionRetried | TaskActionReset | TaskActionResetExhausted
  | TaskActionRecoveryRequired

definition MaxRecoveryResets :: int where
  "MaxRecoveryResets = 3"

record task_action_log =
  tl_ID :: gostring
  tl_OccurredAt :: time
  tl_Action :: task_action
  tl_ActorRef :: identity_ref
  tl_AgentRef :: identity_ref
  tl_Note :: gostring

subsection \<open>The aggregate\<close>

record task =
  t_id :: task_id
  t_projectID :: project_id
  t_title :: gostring
  t_description :: gostring
  t_status :: task_status
  t_assignee :: identity_ref
  t_derivedFromIssue :: issue_id
  t_completedBy :: identity_ref
  t_blockedReason :: gostring
  t_failedReason :: gostring
  t_createdBy :: identity_ref
  t_createdAt :: time
  t_updatedAt :: time
  t_version :: int
  t_orgNumber :: int
  t_tags :: "gostring list"
  t_statusChangedAt :: time
  t_completedAt :: time
  t_planID :: plan_id
  t_nodeID :: gostring
  t_stageID :: stage_id
  t_followsTaskID :: task_id
  t_originVerdictID :: verdict_id
  t_archivedAt :: "time option"
  t_archivedBy :: identity_ref
  t_blockedReasonType :: block_reason_type
  t_blockedComment :: gostring
  t_executionLeaseExpiresAt :: "time option"
  t_actionLogs :: "task_action_log list"
  t_model :: gostring
  t_dispatchMode :: dispatch_mode
  t_deliveryContract :: delivery_contract
  t_requiredCapabilities :: "gostring list"
  t_recoveryResetCount :: int
  t_delivery :: "delivery option"
  t_fruitlessReopens :: int

record new_task_input =
  ti_ID :: task_id
  ti_ProjectID :: project_id
  ti_Title :: gostring
  ti_Description :: gostring
  ti_DerivedFromIssue :: issue_id
  ti_CreatedBy :: identity_ref
  ti_CreatedAt :: time
  ti_OrgNumber :: int
  ti_Model :: gostring
  ti_DispatchMode :: dispatch_mode
  ti_DeliveryContract :: delivery_contract
  ti_RequiredCapabilities :: "gostring list"
  ti_NodeID :: gostring
  ti_StageID :: stage_id
  ti_FollowsTaskID :: task_id
  ti_OriginVerdictID :: verdict_id

subsection \<open>Normalisers\<close>

fun normalize_caps_loop :: "(gostring \<Rightarrow> gostring) \<Rightarrow> gostring list \<Rightarrow> gostring list \<Rightarrow> gostring list" where
  "normalize_caps_loop ulower seen [] = []"
| "normalize_caps_loop ulower seen (raw # rest) =
     (let c = ToLower ulower (TrimSpace raw) in
      if c = [] then normalize_caps_loop ulower seen rest
      else if c \<in> set seen then normalize_caps_loop ulower seen rest
      else c # normalize_caps_loop ulower (c # seen) rest)"

definition NormalizeCapabilities :: "(gostring \<Rightarrow> gostring) \<Rightarrow> gostring list \<Rightarrow> gostring list" where
  "NormalizeCapabilities ulower caps = normalize_caps_loop ulower [] caps"

lemma normalize_caps_loop_dedup:
  "normalize_caps_loop ulower seen caps =
   dedup_acc seen (filter (\<lambda>c. c \<noteq> []) (map (\<lambda>c. ToLower ulower (TrimSpace c)) caps))"
  by (induction ulower seen caps rule: normalize_caps_loop.induct) (simp_all add: Let_def)

fun cleanTags_loop :: "gostring list \<Rightarrow> gostring list \<Rightarrow> pm_error + gostring list" where
  "cleanTags_loop seen [] = Ok []"
| "cleanTags_loop seen (raw # rest) =
     (let tag = TrimSpace raw in
      if tag = [] then Err (ErrNew ''tag must be 1..16 chars'')
      else if 16 < rune_count tag then Err (ErrNew ''tag must be 1..16 chars'')
      else if tag \<in> set seen then cleanTags_loop seen rest
      else case cleanTags_loop (tag # seen) rest of
             Err e \<Rightarrow> Err e
           | Ok out \<Rightarrow> Ok (tag # out))"

definition cleanTags :: "gostring list \<Rightarrow> pm_error + gostring list" where
  "cleanTags tags =
     (case cleanTags_loop [] tags of
        Err e \<Rightarrow> Err e
      | Ok out \<Rightarrow> if 10 < length out then Err (ErrNew ''at most 10 tags allowed'') else Ok out)"

definition TagMergeToMain :: gostring where
  "TagMergeToMain = ''merge-to-main''"

definition HasTag :: "gostring list \<Rightarrow> gostring \<Rightarrow> bool" where
  "HasTag tags want \<longleftrightarrow> list_ex (\<lambda>t. t = want) tags"

definition valid_tag :: "gostring \<Rightarrow> bool" where
  "valid_tag t \<longleftrightarrow> t \<noteq> [] \<and> TrimSpace t = t \<and> rune_count t \<le> 16"

lemma cleanTags_loop_ok:
  "cleanTags_loop seen tags = Ok out \<Longrightarrow>
   out = dedup_acc seen (map TrimSpace tags) \<and> (\<forall>t \<in> set tags. valid_tag (TrimSpace t))"
proof (induction seen tags arbitrary: out rule: cleanTags_loop.induct)
  case (1 seen)
  then show ?case by simp
next
  case (2 seen raw rest)
  define tag where "tag = TrimSpace raw"
  have ok: "tag \<noteq> []" "rune_count tag \<le> 16"
    using "2.prems" by (auto simp: Let_def tag_def [symmetric] split: if_splits)
  have valid: "valid_tag tag"
    using ok by (simp add: valid_tag_def tag_def)
  show ?case
  proof (cases "tag \<in> set seen")
    case True
    with "2.prems" ok have "cleanTags_loop seen rest = Ok out"
      by (simp add: Let_def tag_def [symmetric])
    with "2.IH"(1) [OF tag_def] ok True valid show ?thesis
      by (simp add: tag_def [symmetric])
  next
    case False
    with "2.prems" ok obtain out' where out': "cleanTags_loop (tag # seen) rest = Ok out'" "out = tag # out'"
      by (auto simp: Let_def tag_def [symmetric] split: sum.splits)
    with "2.IH"(2) [OF tag_def] ok False valid show ?thesis
      by (simp add: tag_def [symmetric])
  qed
qed

lemma cleanTags_ok:
  assumes "cleanTags tags = Ok out"
  shows "out = dedup_acc [] (map TrimSpace tags)" "length out \<le> 10" "distinct out"
    "set out = TrimSpace ` set tags" "\<And>t. t \<in> set out \<Longrightarrow> valid_tag t"
proof -
  have ok: "cleanTags_loop [] tags = Ok out" and len: "length out \<le> 10"
    using assms by (auto simp: cleanTags_def split: sum.splits if_splits)
  show "out = dedup_acc [] (map TrimSpace tags)" "length out \<le> 10"
    using cleanTags_loop_ok [OF ok] len by auto
  then show "distinct out" "set out = TrimSpace ` set tags"
    by (auto simp: distinct_dedup_acc set_dedup_acc)
  then show "valid_tag t" if "t \<in> set out" for t
    using that cleanTags_loop_ok [OF ok] by auto
qed

subsection \<open>Construction\<close>

definition NewTask :: "(gostring \<Rightarrow> gostring) \<Rightarrow> new_task_input \<Rightarrow> pm_error + task" where
  "NewTask ulower inp =
     (if blank (ti_ID inp) then Err (ErrNew ''task id required'')
      else if blank (ti_ProjectID inp) then Err ErrEmptyProjectScope
      else if blank (ti_Title inp) then Err (ErrNew ''task title required'')
      else case IdentityRef_Validate (ti_CreatedBy inp) of
        Some e \<Rightarrow> Err e
      | None \<Rightarrow>
          if is_zero_time (ti_CreatedAt inp) then Err (ErrNew ''created_at required'')
          else Ok \<lparr>t_id = ti_ID inp, t_projectID = ti_ProjectID inp, t_title = ti_Title inp,
                   t_description = ti_Description inp, t_status = TaskOpen, t_assignee = [],
                   t_derivedFromIssue = ti_DerivedFromIssue inp, t_completedBy = [],
                   t_blockedReason = [], t_failedReason = [], t_createdBy = ti_CreatedBy inp,
                   t_createdAt = ti_CreatedAt inp, t_updatedAt = ti_CreatedAt inp, t_version = 1,
                   t_orgNumber = ti_OrgNumber inp, t_tags = [],
                   t_statusChangedAt = ti_CreatedAt inp, t_completedAt = zero_time,
                   t_planID = [], t_nodeID = ti_NodeID inp, t_stageID = ti_StageID inp,
                   t_followsTaskID = ti_FollowsTaskID inp,
                   t_originVerdictID = ti_OriginVerdictID inp, t_archivedAt = None,
                   t_archivedBy = [], t_blockedReasonType = BlockReasonNone,
                   t_blockedComment = [], t_executionLeaseExpiresAt = None, t_actionLogs = [],
                   t_model = ti_Model inp, t_dispatchMode = ti_DispatchMode inp,
                   t_deliveryContract = ti_DeliveryContract inp,
                   t_requiredCapabilities = NormalizeCapabilities ulower (ti_RequiredCapabilities inp),
                   t_recoveryResetCount = 0, t_delivery = None, t_fruitlessReopens = 0\<rparr>)"

text \<open>
  The repository round trip: the persisted row is a \<open>task\<close>, the result the aggregate that
  \<open>RehydrateTask\<close> rebuilds from it.  \<open>copyTaskTimePtr\<close> is \<open>norm_time_ptr\<close>.
\<close>

definition RehydrateTask :: "(gostring \<Rightarrow> gostring) \<Rightarrow> task \<Rightarrow> pm_error + task" where
  "RehydrateTask ulower row =
     (if \<not> task_IsValid (t_status row) then Err ErrInvalidStatus
      else if t_version row < 1 then Err (ErrNew ''version must be >= 1'')
      else Ok (row\<lparr>
        t_statusChangedAt := (if is_zero_time (t_statusChangedAt row) then t_updatedAt row
                              else t_statusChangedAt row),
        t_archivedAt := norm_time_ptr (t_archivedAt row),
        t_executionLeaseExpiresAt := norm_time_ptr (t_executionLeaseExpiresAt row),
        t_dispatchMode := coerceDispatchMode (t_dispatchMode row),
        t_requiredCapabilities := NormalizeCapabilities ulower (t_requiredCapabilities row)\<rparr>))"

subsection \<open>Shared steps\<close>

definition task_touch :: "time \<Rightarrow> time \<Rightarrow> task \<Rightarrow> task" where
  "task_touch now at t = t\<lparr>t_updatedAt := stamp now at, t_version := t_version t + 1\<rparr>"

definition task_appendLog ::
  "task_action \<Rightarrow> identity_ref \<Rightarrow> identity_ref \<Rightarrow> gostring \<Rightarrow> time \<Rightarrow> task \<Rightarrow> task" where
  "task_appendLog action actor agent note at t =
     t\<lparr>t_actionLogs := t_actionLogs t @
        [\<lparr>tl_ID = [], tl_OccurredAt = at, tl_Action = action, tl_ActorRef = actor,
          tl_AgentRef = agent, tl_Note = note\<rparr>]\<rparr>"

definition task_IsArchived :: "task \<Rightarrow> bool" where
  "task_IsArchived t \<longleftrightarrow> t_archivedAt t \<noteq> None"

definition task_simpleTransition :: "task_status \<Rightarrow> time \<Rightarrow> time \<Rightarrow> task \<Rightarrow> pm_error + task" where
  "task_simpleTransition to now at t =
     (if task_IsArchived t then Err ErrTaskArchived
      else if \<not> task_IsValid to then Err ErrInvalidStatus
      else if \<not> task_CanTransitionTo (t_status t) to then Err ErrIllegalTransition
      else let t1 = t\<lparr>t_status := to, t_statusChangedAt := at\<rparr>;
               t2 = (if task_IsTerminal to then t1\<lparr>t_executionLeaseExpiresAt := None\<rparr> else t1)
           in Ok (task_touch now at t2))"

definition task_forceDiscard :: "time \<Rightarrow> time \<Rightarrow> task \<Rightarrow> task" where
  "task_forceDiscard now at t =
     task_touch now at (t\<lparr>t_status := TaskDiscarded, t_statusChangedAt := at,
       t_blockedReason := [], t_executionLeaseExpiresAt := None\<rparr>)"

subsection \<open>Archive\<close>

definition task_Archive :: "identity_ref \<Rightarrow> time \<Rightarrow> time \<Rightarrow> task \<Rightarrow> pm_error + task" where
  "task_Archive by now at t =
     (if task_IsArchived t then Err ErrTaskArchived
      else case IdentityRef_Validate by of
        Some e \<Rightarrow> Err e
      | None \<Rightarrow> Ok (task_touch now at (t\<lparr>t_archivedAt := Some at, t_archivedBy := by\<rparr>)))"

definition task_FinalizeForArchive :: "time \<Rightarrow> time \<Rightarrow> task \<Rightarrow> pm_error + task" where
  "task_FinalizeForArchive now at t =
     (if task_IsArchived t then Err ErrTaskArchived
      else if task_IsTerminal (t_status t) then Ok t
      else Ok (task_forceDiscard now at t))"

definition task_FinalizeArchived :: "time \<Rightarrow> time \<Rightarrow> task \<Rightarrow> pm_error + task" where
  "task_FinalizeArchived now at t =
     (if \<not> task_IsArchived t then Err ErrTaskNotArchived
      else if task_IsTerminal (t_status t) then Ok t
      else Ok (task_forceDiscard now at t))"

subsection \<open>Metadata edits\<close>

text \<open>Most edits are one guarded assignment followed by \<open>touch\<close>.\<close>

definition task_edit :: "(task \<Rightarrow> task) \<Rightarrow> time \<Rightarrow> time \<Rightarrow> task \<Rightarrow> pm_error + task" where
  "task_edit f now at t =
     (if task_IsArchived t then Err ErrTaskArchived else Ok (task_touch now at (f t)))"

definition task_SetPlan :: "plan_id \<Rightarrow> time \<Rightarrow> time \<Rightarrow> task \<Rightarrow> pm_error + task" where
  "task_SetPlan planID = task_edit (t_planID_update (\<lambda>_. planID))"

definition task_ClearPlan :: "time \<Rightarrow> time \<Rightarrow> task \<Rightarrow> pm_error + task" where
  "task_ClearPlan = task_edit (t_planID_update (\<lambda>_. []))"

definition task_SetNodeID :: "gostring \<Rightarrow> time \<Rightarrow> time \<Rightarrow> task \<Rightarrow> task" where
  "task_SetNodeID nodeID now at t = task_touch now at (t\<lparr>t_nodeID := nodeID\<rparr>)"

definition task_SetStage :: "stage_id \<Rightarrow> time \<Rightarrow> time \<Rightarrow> task \<Rightarrow> pm_error + task" where
  "task_SetStage sid = task_edit (t_stageID_update (\<lambda>_. sid))"

definition task_SetDescription :: "gostring \<Rightarrow> time \<Rightarrow> time \<Rightarrow> task \<Rightarrow> pm_error + task" where
  "task_SetDescription desc = task_edit (t_description_update (\<lambda>_. desc))"

definition task_SetDerivedFromIssue :: "issue_id \<Rightarrow> time \<Rightarrow> time \<Rightarrow> task \<Rightarrow> pm_error + task" where
  "task_SetDerivedFromIssue issueID = task_edit (t_derivedFromIssue_update (\<lambda>_. issueID))"

definition task_SetTags :: "gostring list \<Rightarrow> time \<Rightarrow> time \<Rightarrow> task \<Rightarrow> pm_error + task" where
  "task_SetTags tags now at t =
     (if task_IsArchived t then Err ErrTaskArchived
      else case cleanTags tags of
        Err e \<Rightarrow> Err e
      | Ok cleaned \<Rightarrow> Ok (task_touch now at (t\<lparr>t_tags := cleaned\<rparr>)))"

definition task_SetRequiredCapabilities ::
  "(gostring \<Rightarrow> gostring) \<Rightarrow> gostring list \<Rightarrow> time \<Rightarrow> time \<Rightarrow> task \<Rightarrow> pm_error + task" where
  "task_SetRequiredCapabilities ulower caps =
     task_edit (t_requiredCapabilities_update (\<lambda>_. NormalizeCapabilities ulower caps))"

definition task_Rename :: "gostring \<Rightarrow> time \<Rightarrow> time \<Rightarrow> task \<Rightarrow> pm_error + task" where
  "task_Rename title now at t =
     (if task_IsArchived t then Err ErrTaskArchived
      else if blank title then Err (ErrNew ''task title required'')
      else Ok (task_touch now at (t\<lparr>t_title := title\<rparr>)))"

definition task_Assign :: "identity_ref \<Rightarrow> time \<Rightarrow> time \<Rightarrow> task \<Rightarrow> pm_error + task" where
  "task_Assign assignee now at t =
     (if task_IsArchived t then Err ErrTaskArchived
      else case IdentityRef_Validate assignee of
        Some e \<Rightarrow> Err e
      | None \<Rightarrow>
          if task_IsTerminal (t_status t) then Err ErrIllegalTransition
          else Ok (task_touch now at (t\<lparr>t_assignee := assignee\<rparr>)))"

definition task_Unassign :: "time \<Rightarrow> time \<Rightarrow> task \<Rightarrow> pm_error + task" where
  "task_Unassign now at t =
     (if task_IsArchived t then Err ErrTaskArchived
      else if task_IsTerminal (t_status t) then Err ErrIllegalTransition
      else Ok (task_touch now at (t\<lparr>t_assignee := []\<rparr>)))"

definition task_SetDelivery :: "delivery option \<Rightarrow> task \<Rightarrow> task" where
  "task_SetDelivery d t = t\<lparr>t_delivery := d\<rparr>"

definition task_ClearDelivery :: "task \<Rightarrow> task" where
  "task_ClearDelivery t = t\<lparr>t_delivery := None\<rparr>"

definition task_NoteFruitlessReopen :: "task \<Rightarrow> task" where
  "task_NoteFruitlessReopen t = t\<lparr>t_fruitlessReopens := t_fruitlessReopens t + 1\<rparr>"

definition task_ClearFruitlessReopens :: "task \<Rightarrow> task" where
  "task_ClearFruitlessReopens t = t\<lparr>t_fruitlessReopens := 0\<rparr>"

subsection \<open>Running, failing, completing\<close>

definition task_Start :: "time \<Rightarrow> time \<Rightarrow> task \<Rightarrow> pm_error + task" where
  "task_Start now at t =
     (case task_simpleTransition TaskRunning now at t of
        Err e \<Rightarrow> Err e
      | Ok t' \<Rightarrow> Ok (t'\<lparr>t_blockedReason := [], t_failedReason := []\<rparr>))"

definition task_RecordAgentStarted :: "identity_ref \<Rightarrow> time \<Rightarrow> task \<Rightarrow> pm_error + task" where
  "task_RecordAgentStarted actorRef at t =
     (let actor = (if actorRef = [] then t_assignee t else actorRef) in
      case IdentityRef_Validate actor of
        Some e \<Rightarrow> Err e
      | None \<Rightarrow> Ok (task_appendLog TaskActionAgentStarted actor (t_assignee t) [] at t))"

definition task_Block ::
  "gostring \<Rightarrow> block_reason_type \<Rightarrow> identity_ref \<Rightarrow> time \<Rightarrow> time \<Rightarrow> task \<Rightarrow> pm_error + task" where
  "task_Block why reasonType agentRef now at t =
     (if task_IsArchived t then Err ErrTaskArchived
      else if t_status t \<noteq> TaskRunning then Err ErrIllegalTransition
      else if t_assignee t \<noteq> agentRef then Err ErrNotTaskAssignee
      else if blank why then Err ErrBlockReasonRequired
      else Ok (task_touch now at (task_appendLog TaskActionFailed agentRef agentRef why at
        (t\<lparr>t_status := TaskFailed, t_statusChangedAt := at, t_blockedReason := [],
           t_blockedReasonType := BlockReasonNone, t_blockedComment := [],
           t_failedReason := why, t_executionLeaseExpiresAt := None\<rparr>))))"

definition task_Fail :: "gostring \<Rightarrow> identity_ref \<Rightarrow> time \<Rightarrow> time \<Rightarrow> task \<Rightarrow> pm_error + task" where
  "task_Fail why actor now at t =
     (if task_IsArchived t then Err ErrTaskArchived
      else case IdentityRef_Validate actor of
        Some e \<Rightarrow> Err e
      | None \<Rightarrow>
          let r = TrimSpace why in
          if r = [] then Err ErrFailReasonRequired
          else case task_simpleTransition TaskFailed now at t of
            Err e \<Rightarrow> Err e
          | Ok t' \<Rightarrow> Ok (task_appendLog TaskActionFailed actor (t_assignee t') r at
              (t'\<lparr>t_failedReason := r, t_blockedReason := [],
                  t_blockedReasonType := BlockReasonNone, t_blockedComment := [],
                  t_executionLeaseExpiresAt := None\<rparr>)))"

definition task_Unblock :: "gostring \<Rightarrow> identity_ref \<Rightarrow> time \<Rightarrow> time \<Rightarrow> task \<Rightarrow> pm_error + task" where
  "task_Unblock comment actorRef now at t =
     (if task_IsArchived t then Err ErrTaskArchived
      else if t_blockedReason t = [] then Ok t
      else let t1 = t\<lparr>t_blockedComment := comment, t_blockedReason := [],
                     t_blockedReasonType := BlockReasonNone\<rparr>;
               t2 = (if t_status t1 = TaskBlocked
                     then t1\<lparr>t_status := TaskRunning, t_statusChangedAt := at\<rparr> else t1)
           in Ok (task_touch now at
                (task_appendLog TaskActionUnblocked actorRef (t_assignee t2) comment at t2)))"

definition task_RenewLease :: "duration \<Rightarrow> time \<Rightarrow> time \<Rightarrow> task \<Rightarrow> pm_error + task" where
  "task_RenewLease ttl now at t =
     (if task_IsArchived t then Err ErrTaskArchived
      else if task_IsParked (t_status t) then Err ErrTaskBlocked
      else if t_status t \<noteq> TaskRunning then Err ErrIllegalTransition
      else if t_blockedReason t \<noteq> [] then Err ErrTaskBlocked
      else Ok (task_touch now at (t\<lparr>t_executionLeaseExpiresAt := Some (at + ttl)\<rparr>)))"

text \<open>
  The lease is lapsed unless it is absent or \<open>at\<close> is before its deadline.  The nudge returns
  whether it fired; it never fails.
\<close>

definition lease_lapsed :: "time \<Rightarrow> task \<Rightarrow> bool" where
  "lease_lapsed at t \<longleftrightarrow>
     (case t_executionLeaseExpiresAt t of None \<Rightarrow> False | Some l \<Rightarrow> \<not> at < l)"

definition task_NudgeOnLeaseExpiry :: "duration \<Rightarrow> time \<Rightarrow> time \<Rightarrow> task \<Rightarrow> bool \<times> task" where
  "task_NudgeOnLeaseExpiry ttl now at t =
     (if task_IsArchived t then (False, t)
      else if t_status t \<noteq> TaskRunning then (False, t)
      else if t_blockedReason t \<noteq> [] then (False, t)
      else if \<not> lease_lapsed at t then (False, t)
      else (True, task_touch now at
             (task_appendLog TaskActionLeaseNudged ''system'' (t_assignee t)
                (''agent lease lapsed '' @ em_dash @ '' nudged (owner unchanged)'') at
                (t\<lparr>t_executionLeaseExpiresAt := Some (at + ttl)\<rparr>))))"

definition task_ExpireLease :: "time \<Rightarrow> time \<Rightarrow> task \<Rightarrow> task" where
  "task_ExpireLease now at t =
     (if task_IsArchived t then t
      else if t_status t \<noteq> TaskRunning then t
      else if t_blockedReason t \<noteq> [] then t
      else if \<not> lease_lapsed at t then t
      else task_touch now at
             (task_appendLog TaskActionLeaseExpired ''system'' (t_assignee t)
                ''agent lease expired'' at
                (t\<lparr>t_status := TaskOpen, t_statusChangedAt := at, t_blockedReason := [],
                   t_blockedReasonType := BlockReasonNone, t_blockedComment := [],
                   t_executionLeaseExpiresAt := None, t_assignee := []\<rparr>)))"

definition task_ResetToOpen :: "bool \<Rightarrow> time \<Rightarrow> time \<Rightarrow> task \<Rightarrow> pm_error + task" where
  "task_ResetToOpen bypassLease now at t =
     (if task_IsArchived t then Err ErrTaskArchived
      else if task_IsParked (t_status t) then Err ErrTaskBlocked
      else if t_status t \<noteq> TaskRunning then Err ErrIllegalTransition
      else if t_blockedReason t \<noteq> [] then Err ErrTaskBlocked
      else if \<not> bypassLease \<and> t_executionLeaseExpiresAt t \<noteq> None \<and> \<not> lease_lapsed at t
        then Err ErrLeaseStillLive
      else Ok (task_touch now at
             (task_appendLog TaskActionReset ''system'' (t_assignee t)
                ''tier-3 recovery: reset to pool (executor confirmed dead)'' at
                (t\<lparr>t_status := TaskOpen, t_statusChangedAt := at, t_blockedReason := [],
                   t_blockedReasonType := BlockReasonNone, t_blockedComment := [],
                   t_executionLeaseExpiresAt := None, t_assignee := [],
                   t_recoveryResetCount := t_recoveryResetCount t + 1\<rparr>))))"

definition task_BlockForResetExhaustion ::
  "gostring \<Rightarrow> time \<Rightarrow> time \<Rightarrow> task \<Rightarrow> pm_error + task" where
  "task_BlockForResetExhaustion why now at t =
     (if task_IsArchived t then Err ErrTaskArchived
      else if t_status t \<noteq> TaskRunning then Err ErrIllegalTransition
      else if blank why then Err ErrBlockReasonRequired
      else let t1 = t\<lparr>t_status := TaskFailed, t_statusChangedAt := at,
                     t_failedReason := TrimSpace why, t_blockedReason := [],
                     t_blockedReasonType := BlockReasonNone, t_blockedComment := [],
                     t_executionLeaseExpiresAt := None\<rparr>;
               log = (\<lambda>action. task_appendLog action ''system'' (t_assignee t1) why at)
           in Ok (task_touch now at
                (log TaskActionFailed (log TaskActionResetExhausted
                   (log TaskActionRecoveryRequired t1)))))"

definition task_RecordReassignment ::
  "identity_ref \<Rightarrow> identity_ref \<Rightarrow> time \<Rightarrow> time \<Rightarrow> task \<Rightarrow> pm_error + task" where
  "task_RecordReassignment newAssignee by now at t =
     (case task_Assign newAssignee now at t of
        Err e \<Rightarrow> Err e
      | Ok t' \<Rightarrow> Ok (task_appendLog TaskActionReassigned by newAssignee [] at
          (t'\<lparr>t_blockedReason := [], t_blockedReasonType := BlockReasonNone,
              t_blockedComment := [], t_executionLeaseExpiresAt := None\<rparr>)))"

definition task_Complete :: "identity_ref \<Rightarrow> time \<Rightarrow> time \<Rightarrow> task \<Rightarrow> pm_error + task" where
  "task_Complete by now at t =
     (if task_IsArchived t then Err ErrTaskArchived
      else case IdentityRef_Validate by of
        Some e \<Rightarrow> Err e
      | None \<Rightarrow>
          if \<not> task_CanTransitionTo (t_status t) TaskCompleted then Err ErrIllegalTransition
          else if t_delivery t \<noteq> None \<and> \<not> HasValidDelivery (t_delivery t)
            then Err (NewTaskNoValidDeliveryError (t_delivery t))
          else Ok (task_touch now at
            (t\<lparr>t_status := TaskCompleted, t_statusChangedAt := at, t_completedBy := by,
               t_blockedReason := [], t_failedReason := [], t_executionLeaseExpiresAt := None,
               t_recoveryResetCount := 0, t_fruitlessReopens := 0\<rparr>)))"

definition task_Discard :: "time \<Rightarrow> time \<Rightarrow> task \<Rightarrow> pm_error + task" where
  "task_Discard now at t =
     (case task_simpleTransition TaskDiscarded now at t of
        Err e \<Rightarrow> Err e
      | Ok t' \<Rightarrow> Ok (t'\<lparr>t_blockedReason := [], t_failedReason := []\<rparr>))"

definition task_RetryFailed :: "identity_ref \<Rightarrow> time \<Rightarrow> time \<Rightarrow> task \<Rightarrow> pm_error + task" where
  "task_RetryFailed actor now at t =
     (if task_IsArchived t then Err ErrTaskArchived
      else case IdentityRef_Validate actor of
        Some e \<Rightarrow> Err e
      | None \<Rightarrow>
          if t_planID t \<noteq> [] then Err ErrTaskRetryPlanBound
          else if t_status t = TaskOpen then Ok t
          else if t_status t \<noteq> TaskFailed then Err ErrTaskRetryNotApplicable
          else Ok (task_touch now at
            (task_appendLog TaskActionRetried actor (t_assignee t)
               ''standalone failed task retried'' at
               (t\<lparr>t_status := TaskOpen, t_statusChangedAt := at, t_blockedReason := [],
                  t_blockedReasonType := BlockReasonNone, t_blockedComment := [],
                  t_failedReason := [], t_executionLeaseExpiresAt := None,
                  t_completedBy := [], t_completedAt := zero_time, t_delivery := None\<rparr>))))"

definition task_SetStatus :: "task_status \<Rightarrow> time \<Rightarrow> time \<Rightarrow> task \<Rightarrow> pm_error + task" where
  "task_SetStatus target now at t =
     (if task_IsArchived t then Err ErrTaskArchived
      else if target = TaskStatusOther ''reopened'' then Err ErrTaskReopenRetired
      else if \<not> task_IsValid target then Err ErrInvalidStatus
      else if target = t_status t then Ok t
      else if task_IsTerminal (t_status t) then Err ErrIllegalTransition
      else let t1 = t\<lparr>t_status := target, t_statusChangedAt := at,
                     t_completedAt := (if target = TaskCompleted then at else zero_time)\<rparr>;
               t2 = (if target \<noteq> TaskFailed then t1\<lparr>t_failedReason := []\<rparr> else t1);
               t3 = (if task_IsTerminal target then t2\<lparr>t_executionLeaseExpiresAt := None\<rparr> else t2)
           in Ok (task_touch now at t3))"

definition task_Reopen :: "time \<Rightarrow> task \<Rightarrow> pm_error + task" where
  "task_Reopen at t = Err ErrTaskReopenRetired"

definition task_ToOpenFromReopened :: "time \<Rightarrow> task \<Rightarrow> pm_error + task" where
  "task_ToOpenFromReopened at t = Err ErrTaskReopenRetired"

end
