(* ===== verification/Task_Lifecycle.thy ===== *)
theory Task_Lifecycle
  imports Task
begin

section \<open>Histories of a task: invariant, sealed facts, leases\<close>

text \<open>
  \<open>task_op\<close> names every exported mutator of the aggregate, \<open>task_exec\<close> runs one at a clock
  reading, and a history is a list of such calls (\<open>run_ops\<close>).  The invariant, the
  permanence of terminal facts and the archive lock are stated over arbitrary histories
  through the interfaces of \<open>Lifecycle\<close>; the theorems about single operations follow.
\<close>

subsection \<open>Operations as data\<close>

datatype task_op =
    OpArchive identity_ref
  | OpFinalizeForArchive
  | OpFinalizeArchived
  | OpSetPlan plan_id
  | OpClearPlan
  | OpSetNodeID gostring
  | OpSetStage stage_id
  | OpSetTags "gostring list"
  | OpSetRequiredCapabilities "gostring list"
  | OpRename gostring
  | OpSetDescription gostring
  | OpSetDerivedFromIssue issue_id
  | OpAssign identity_ref
  | OpUnassign
  | OpStart
  | OpRecordAgentStarted identity_ref
  | OpBlock gostring block_reason_type identity_ref
  | OpFail gostring identity_ref
  | OpUnblock gostring identity_ref
  | OpRenewLease duration
  | OpNudgeOnLeaseExpiry duration
  | OpExpireLease
  | OpResetToOpen bool
  | OpBlockForResetExhaustion gostring
  | OpRecordReassignment identity_ref identity_ref
  | OpComplete identity_ref
  | OpDiscard
  | OpRetryFailed identity_ref
  | OpSetStatus task_status
  | OpReopen
  | OpToOpenFromReopened
  | OpSetDelivery "delivery option"
  | OpClearDelivery
  | OpNoteFruitlessReopen
  | OpClearFruitlessReopens

text \<open>A call: the operation, the caller's \<open>at\<close> and the wall clock it may fall back to.\<close>

type_synonym task_call = "task_op \<times> time \<times> time"

fun task_exec :: "(gostring \<Rightarrow> gostring) \<Rightarrow> task_call \<Rightarrow> task \<Rightarrow> pm_error + task" where
  "task_exec ulower (OpArchive by, at, now) t = task_Archive by now at t"
| "task_exec ulower (OpFinalizeForArchive, at, now) t = task_FinalizeForArchive now at t"
| "task_exec ulower (OpFinalizeArchived, at, now) t = task_FinalizeArchived now at t"
| "task_exec ulower (OpSetPlan p, at, now) t = task_SetPlan p now at t"
| "task_exec ulower (OpClearPlan, at, now) t = task_ClearPlan now at t"
| "task_exec ulower (OpSetNodeID i, at, now) t = Ok (task_SetNodeID i now at t)"
| "task_exec ulower (OpSetStage s, at, now) t = task_SetStage s now at t"
| "task_exec ulower (OpSetTags ts, at, now) t = task_SetTags ts now at t"
| "task_exec ulower (OpSetRequiredCapabilities cs, at, now) t =
     task_SetRequiredCapabilities ulower cs now at t"
| "task_exec ulower (OpRename s, at, now) t = task_Rename s now at t"
| "task_exec ulower (OpSetDescription s, at, now) t = task_SetDescription s now at t"
| "task_exec ulower (OpSetDerivedFromIssue i, at, now) t = task_SetDerivedFromIssue i now at t"
| "task_exec ulower (OpAssign a, at, now) t = task_Assign a now at t"
| "task_exec ulower (OpUnassign, at, now) t = task_Unassign now at t"
| "task_exec ulower (OpStart, at, now) t = task_Start now at t"
| "task_exec ulower (OpRecordAgentStarted a, at, now) t = task_RecordAgentStarted a at t"
| "task_exec ulower (OpBlock r ty a, at, now) t = task_Block r ty a now at t"
| "task_exec ulower (OpFail r a, at, now) t = task_Fail r a now at t"
| "task_exec ulower (OpUnblock c a, at, now) t = task_Unblock c a now at t"
| "task_exec ulower (OpRenewLease ttl, at, now) t = task_RenewLease ttl now at t"
| "task_exec ulower (OpNudgeOnLeaseExpiry ttl, at, now) t =
     Ok (snd (task_NudgeOnLeaseExpiry ttl now at t))"
| "task_exec ulower (OpExpireLease, at, now) t = Ok (task_ExpireLease now at t)"
| "task_exec ulower (OpResetToOpen b, at, now) t = task_ResetToOpen b now at t"
| "task_exec ulower (OpBlockForResetExhaustion r, at, now) t =
     task_BlockForResetExhaustion r now at t"
| "task_exec ulower (OpRecordReassignment a b, at, now) t = task_RecordReassignment a b now at t"
| "task_exec ulower (OpComplete a, at, now) t = task_Complete a now at t"
| "task_exec ulower (OpDiscard, at, now) t = task_Discard now at t"
| "task_exec ulower (OpRetryFailed a, at, now) t = task_RetryFailed a now at t"
| "task_exec ulower (OpSetStatus s, at, now) t = task_SetStatus s now at t"
| "task_exec ulower (OpReopen, at, now) t = task_Reopen at t"
| "task_exec ulower (OpToOpenFromReopened, at, now) t = task_ToOpenFromReopened at t"
| "task_exec ulower (OpSetDelivery d, at, now) t = Ok (task_SetDelivery d t)"
| "task_exec ulower (OpClearDelivery, at, now) t = Ok (task_ClearDelivery t)"
| "task_exec ulower (OpNoteFruitlessReopen, at, now) t = Ok (task_NoteFruitlessReopen t)"
| "task_exec ulower (OpClearFruitlessReopens, at, now) t = Ok (task_ClearFruitlessReopens t)"

lemmas task_op_defs [op_defs] =
  task_Archive_def task_FinalizeForArchive_def task_FinalizeArchived_def task_forceDiscard_def
  task_edit_def task_SetPlan_def task_ClearPlan_def task_SetNodeID_def task_SetStage_def
  task_SetTags_def task_SetRequiredCapabilities_def task_Rename_def task_SetDescription_def
  task_SetDerivedFromIssue_def task_Assign_def task_Unassign_def task_Start_def
  task_simpleTransition_def task_RecordAgentStarted_def task_Block_def task_Fail_def
  task_Unblock_def task_RenewLease_def task_NudgeOnLeaseExpiry_def task_ExpireLease_def
  task_ResetToOpen_def task_BlockForResetExhaustion_def task_RecordReassignment_def
  task_Complete_def task_Discard_def task_RetryFailed_def task_SetStatus_def task_Reopen_def
  task_ToOpenFromReopened_def task_SetDelivery_def task_ClearDelivery_def
  task_NoteFruitlessReopen_def task_ClearFruitlessReopens_def

lemmas task_splits = if_splits option.splits sum.splits prod.splits

subsection \<open>The invariant\<close>

text \<open>
  Three groups of facts: the life cycle (\<open>task_state_ok\<close>), the identities
  (\<open>task_refs_ok\<close>) and the normalised sets (\<open>task_sets_ok\<close>).  The block annotation of the
  old life cycle is empty on every task that this code creates.
\<close>

definition task_state_ok :: "task \<Rightarrow> bool" where
  "task_state_ok t \<longleftrightarrow>
     task_IsValid (t_status t) \<and>
     (t_executionLeaseExpiresAt t \<noteq> None \<longrightarrow> \<not> task_IsTerminal (t_status t)) \<and>
     (t_failedReason t \<noteq> [] \<longrightarrow> t_status t = TaskFailed) \<and>
     (t_completedBy t \<noteq> [] \<longrightarrow> t_status t = TaskCompleted) \<and>
     (t_completedAt t \<noteq> zero_time \<longrightarrow> t_status t = TaskCompleted) \<and>
     t_blockedReason t = [] \<and> t_blockedReasonType t = BlockReasonNone \<and> t_blockedComment t = []"

definition task_refs_ok :: "task \<Rightarrow> bool" where
  "task_refs_ok t \<longleftrightarrow>
     \<not> blank (t_id t) \<and> \<not> blank (t_projectID t) \<and> \<not> blank (t_title t) \<and>
     1 \<le> t_version t \<and> valid_ref (t_createdBy t) \<and> t_createdAt t \<noteq> zero_time \<and>
     (t_assignee t \<noteq> [] \<longrightarrow> valid_ref (t_assignee t)) \<and>
     (t_completedBy t \<noteq> [] \<longrightarrow> valid_ref (t_completedBy t)) \<and>
     (t_archivedAt t \<noteq> None \<longrightarrow> valid_ref (t_archivedBy t)) \<and>
     0 \<le> t_recoveryResetCount t \<and> 0 \<le> t_fruitlessReopens t"

definition task_sets_ok :: "task \<Rightarrow> bool" where
  "task_sets_ok t \<longleftrightarrow>
     distinct (t_tags t) \<and> length (t_tags t) \<le> 10 \<and> list_all valid_tag (t_tags t) \<and>
     distinct (t_requiredCapabilities t) \<and> [] \<notin> set (t_requiredCapabilities t)"

definition task_wf :: "task \<Rightarrow> bool" where
  "task_wf t \<longleftrightarrow> task_state_ok t \<and> task_refs_ok t \<and> task_sets_ok t"

lemma caps_ok: "distinct (NormalizeCapabilities ulower cs)" "[] \<notin> set (NormalizeCapabilities ulower cs)"
  by (auto simp: NormalizeCapabilities_def normalize_caps_loop_dedup distinct_dedup_acc set_dedup_acc)

lemma NewTask_wf: "NewTask ulower inp = Ok t \<Longrightarrow> task_wf t"
  by (auto simp: NewTask_def task_wf_def task_state_ok_def task_refs_ok_def task_sets_ok_def
      caps_ok valid_ref_def is_zero_time_def split: task_splits)

subsection \<open>Sealed facts\<close>

definition task_concluded :: "task \<Rightarrow> bool" where
  "task_concluded t \<longleftrightarrow> t_status t = TaskCompleted \<or> t_status t = TaskDiscarded"

definition outcome :: "task \<Rightarrow> task_status \<times> identity_ref \<times> identity_ref \<times> time \<times> gostring" where
  "outcome t = (t_status t, t_assignee t, t_completedBy t, t_completedAt t, t_failedReason t)"

definition archive_facts where
  "archive_facts t =
     (t_archivedAt t, t_archivedBy t, t_title t, t_description t, t_tags t, t_assignee t,
      t_planID t, t_stageID t, t_derivedFromIssue t, t_requiredCapabilities t,
      t_completedBy t, t_completedAt t, t_failedReason t)"

definition identity_facts where
  "identity_facts t = (t_id t, t_projectID t, t_createdBy t, t_createdAt t, t_orgNumber t)"

text \<open>The calls that write without \<open>touch\<close> leave everything else alone.\<close>

definition quiet_write :: "task \<Rightarrow> task \<Rightarrow> bool" where
  "quiet_write t t' \<longleftrightarrow>
     t' = t\<lparr>t_actionLogs := t_actionLogs t', t_delivery := t_delivery t',
            t_fruitlessReopens := t_fruitlessReopens t'\<rparr>"

lemma quiet_write_simps [simp]:
  "quiet_write t t"
  "quiet_write t (t\<lparr>t_delivery := d\<rparr>)"
  "quiet_write t (t\<lparr>t_fruitlessReopens := n\<rparr>)"
  "quiet_write t (t\<lparr>t_actionLogs := ls\<rparr>)"
  by (cases t; simp add: quiet_write_def)+

subsection \<open>What one successful call does\<close>

lemma simpleTransition_Ok:
  "task_simpleTransition to now at t = Ok t' \<longleftrightarrow>
   \<not> task_IsArchived t \<and> task_IsValid to \<and> task_CanTransitionTo (t_status t) to \<and>
   t' = task_touch now at (t\<lparr>t_status := to, t_statusChangedAt := at,
     t_executionLeaseExpiresAt := (if task_IsTerminal to then None else t_executionLeaseExpiresAt t)\<rparr>)"
  by (auto simp: task_simpleTransition_def Let_def)

text \<open>
  One case analysis over the operations serves every fact about a single call; the lemmas
  below are its conjuncts.
\<close>

lemma exec_facts:
  "task_exec ulower c t = Ok t' \<Longrightarrow>
   (task_state_ok t \<longrightarrow> task_state_ok t') \<and>
   (task_state_ok t \<and> task_refs_ok t \<longrightarrow> task_refs_ok t') \<and>
   (task_sets_ok t \<longrightarrow> task_sets_ok t') \<and>
   (t_version t' = t_version t + 1 \<or> quiet_write t t') \<and>
   (task_concluded t \<longrightarrow> outcome t' = outcome t) \<and>
   identity_facts t' = identity_facts t \<and>
   prefix (t_actionLogs t) (t_actionLogs t') \<and>
   (task_IsArchived t \<longrightarrow> archive_facts t' = archive_facts t \<and>
      (t_status t' = t_status t \<or> \<not> task_IsTerminal (t_status t) \<and> t_status t' = TaskDiscarded)) \<and>
   (t_status t = TaskFailed \<and> t_status t' \<noteq> TaskFailed \<longrightarrow>
      (\<exists>actor. fst c = OpRetryFailed actor \<and> valid_ref actor) \<and> t_planID t = [] \<and>
      \<not> task_IsArchived t \<and> t_status t' = TaskOpen \<and> t_failedReason t' = [] \<and> t_delivery t' = None)"
  by (induction ulower c t rule: task_exec.induct;
      simp add: op_defs simpleTransition_Ok Let_def split: if_splits option.splits sum.splits;
      ((elim conjE)?, hypsubst_thin)?;
      intro conjI impI;
      auto simp: task_touch_def task_appendLog_def task_state_ok_def task_refs_ok_def
        task_sets_ok_def valid_ref_def caps_ok cleanTags_ok list_all_iff
        outcome_def task_concluded_def identity_facts_def archive_facts_def task_IsArchived_def
        split: if_splits)

lemma exec_parts:
  assumes "task_exec ulower c t = Ok t'"
  shows exec_state_ok: "task_state_ok t \<Longrightarrow> task_state_ok t'"
    and exec_refs_ok: "task_state_ok t \<Longrightarrow> task_refs_ok t \<Longrightarrow> task_refs_ok t'"
    and exec_sets_ok: "task_sets_ok t \<Longrightarrow> task_sets_ok t'"
    and exec_version_step: "t_version t' = t_version t + 1 \<or> quiet_write t t'"
    and exec_outcome: "task_concluded t \<Longrightarrow> outcome t' = outcome t"
    and exec_identity: "identity_facts t' = identity_facts t"
    and exec_logs: "prefix (t_actionLogs t) (t_actionLogs t')"
    and exec_archive_facts: "task_IsArchived t \<Longrightarrow> archive_facts t' = archive_facts t"
    and exec_archived_status: "task_IsArchived t \<Longrightarrow> t_status t' \<noteq> t_status t \<Longrightarrow>
      \<not> task_IsTerminal (t_status t) \<and> t_status t' = TaskDiscarded"
    and exec_leaves_failed: "t_status t = TaskFailed \<Longrightarrow> t_status t' \<noteq> TaskFailed \<Longrightarrow>
      (\<exists>actor. fst c = OpRetryFailed actor \<and> valid_ref actor) \<and> t_planID t = [] \<and>
      \<not> task_IsArchived t \<and> t_status t' = TaskOpen \<and> t_failedReason t' = [] \<and> t_delivery t' = None"
  using exec_facts [OF assms] by blast+

lemma quiet_version: "quiet_write t t' \<Longrightarrow> t_version t' = t_version t"
  unfolding quiet_write_def by (drule arg_cong [where f = t_version]) simp

lemma exec_wf: "task_exec ulower c t = Ok t' \<Longrightarrow> task_wf t \<Longrightarrow> task_wf t'"
  unfolding task_wf_def by (blast intro: exec_state_ok exec_refs_ok exec_sets_ok)

lemma exec_version: "task_exec ulower c t = Ok t' \<Longrightarrow> t_version t \<le> t_version t'"
  using exec_version_step [of ulower c t t'] quiet_version [of t t'] by linarith

lemma exec_concluded:
  "task_exec ulower c t = Ok t' \<Longrightarrow> task_concluded t \<Longrightarrow> task_concluded t' \<and> outcome t' = outcome t"
  using exec_outcome [of ulower c t t'] by (simp add: outcome_def task_concluded_def)

lemma exec_archived:
  "task_exec ulower c t = Ok t' \<Longrightarrow> task_IsArchived t \<Longrightarrow>
   task_IsArchived t' \<and> archive_facts t' = archive_facts t"
  using exec_archive_facts [of ulower c t t'] by (simp add: archive_facts_def task_IsArchived_def)

subsection \<open>The interfaces on the model\<close>

interpretation task_done: sealed_aggregate "task_exec ulower" task_wf t_version task_concluded outcome
  for ulower
  by unfold_locales (auto dest: exec_wf exec_version exec_concluded)

definition archive_rel :: "task \<Rightarrow> task \<Rightarrow> bool" where
  "archive_rel t t' \<longleftrightarrow> (task_IsArchived t \<longrightarrow>
     task_IsArchived t' \<and> archive_facts t' = archive_facts t \<and>
     (t_status t' = t_status t \<or> \<not> task_IsTerminal (t_status t) \<and> t_status t' = TaskDiscarded))"

interpretation task_locked: history "task_exec ulower" archive_rel
  for ulower
proof unfold_locales
  show "archive_rel s s' \<Longrightarrow> archive_rel s' s'' \<Longrightarrow> archive_rel s s''" for s s' s''
    by (auto simp: archive_rel_def)
  show "task_exec ulower op s = Ok s' \<Longrightarrow> archive_rel s s'" for op s s'
    using exec_archived [of ulower op s s'] exec_archived_status [of ulower op s s']
    by (auto simp: archive_rel_def)
qed (simp add: archive_rel_def)

interpretation task_ident: history "task_exec ulower"
    "\<lambda>t t'. identity_facts t' = identity_facts t \<and> prefix (t_actionLogs t) (t_actionLogs t')"
  for ulower
  by unfold_locales (auto dest: exec_identity exec_logs intro: prefix_order.trans)

end
