(* ===== verification/Task_Properties.thy ===== *)
theory Task_Properties
  imports Task_Lifecycle
begin

section \<open>What holds of a task\<close>

text \<open>
  The properties of the aggregate, over histories of calls and for the single operations that
  guard something: the delivery gate, the recovery reset, the lease nudge, the tag cleaner.
\<close>

subsection \<open>A concrete task\<close>

definition sample_input :: new_task_input where
  "sample_input = \<lparr>ti_ID = ''t1'', ti_ProjectID = ''p1'', ti_Title = ''build'', ti_Description = [],
     ti_DerivedFromIssue = [], ti_CreatedBy = ''user:u1'', ti_CreatedAt = 5, ti_OrgNumber = 1,
     ti_Model = [], ti_DispatchMode = DispatchUnset, ti_DeliveryContract = DeliveryUnset,
     ti_RequiredCapabilities = [''Go'', '' go ''], ti_NodeID = [], ti_StageID = [],
     ti_FollowsTaskID = [], ti_OriginVerdictID = []\<rparr>"

definition sample_task :: task where
  "sample_task = (case NewTask id sample_input of Ok t \<Rightarrow> t | Err _ \<Rightarrow> undefined)"

lemma sample_task_new: "NewTask id sample_input = Ok sample_task"
  unfolding sample_task_def by code_simp

subsection \<open>Properties over histories\<close>

text \<open>
  C1: a task made by \<open>NewTask\<close> keeps the aggregate's invariant under every sequence of
  mutator calls, whatever their arguments and clocks and including the calls that fail: its
  status is one of the five current ones, a lease or a failure reason or a completer is only
  there in the statuses that allow it, the retired block annotation stays empty, identities
  are well formed, the tags are what \<open>SetTags\<close> accepts, and the capabilities are distinct and
  not empty strings.
\<close>

theorem task_history_wf:
  assumes "NewTask ulower inp = Ok t"
  shows "task_wf (run_ops (task_exec ulower) calls t)"
  using assms by (intro task_done.run_inv NewTask_wf)

theorem task_history_wf_witness:
  "task_wf (run_ops (task_exec id) [(OpStart, 6, 6), (OpComplete ''agent:a'', 7, 7)] sample_task)"
  by (rule task_history_wf [OF sample_task_new])

text \<open>
  C32: completed and discarded are permanent.  No sequence of mutator calls changes the status,
  the assignee, the completer, the completion time or the failure reason of a task that is
  completed or discarded.
\<close>

theorem task_terminal_permanent:
  assumes "NewTask ulower inp = Ok t"
    and "task_concluded (run_ops (task_exec ulower) before t)"
  shows "outcome (run_ops (task_exec ulower) (before @ after) t) =
         outcome (run_ops (task_exec ulower) before t)"
proof -
  have "task_wf (run_ops (task_exec ulower) before t)"
    using NewTask_wf [OF assms(1)] by (rule task_done.run_inv)
  with assms(2) show ?thesis
    by (simp add: run_ops_append task_done.run_sealed)
qed

definition sample_calls :: "task_call list" where
  "sample_calls = [(OpAssign ''agent:a'', 6, 6), (OpStart, 7, 7), (OpComplete ''agent:a'', 8, 8)]"

theorem task_terminal_permanent_witness:
  "outcome (run_ops (task_exec id) (sample_calls @ [(OpSetStatus TaskOpen, 9, 9)]) sample_task) =
   outcome (run_ops (task_exec id) sample_calls sample_task)"
  by (rule task_terminal_permanent [OF sample_task_new]) code_simp

text \<open>
  an archived task stays archived, and its archive stamp, title, description, tags,
  assignee, plan, stage, issue link, capabilities, completer and failure reason never change
  again; its status can only go from a live one to discarded.
\<close>

theorem task_archive_lock:
  assumes "task_IsArchived t"
  shows "let t' = run_ops (task_exec ulower) calls t in
         task_IsArchived t' \<and> archive_facts t' = archive_facts t \<and>
         (t_status t' = t_status t \<or> \<not> task_IsTerminal (t_status t) \<and> t_status t' = TaskDiscarded)"
  using task_locked.run_rel [of t ulower calls] assms by (simp add: archive_rel_def Let_def)

definition sample_archived :: task where
  "sample_archived = run_ops (task_exec id) [(OpStart, 7, 7), (OpArchive ''user:u1'', 8, 8)] sample_task"

theorem task_archive_lock_witness:
  "task_IsArchived (run_ops (task_exec id) [(OpRename ''x'', 9, 9), (OpFinalizeArchived, 9, 9)] sample_archived)"
proof -
  have "task_IsArchived sample_archived" by code_simp
  from task_archive_lock [OF this, of id "[(OpRename ''x'', 9, 9), (OpFinalizeArchived, 9, 9)]"]
  show ?thesis by (simp only: Let_def)
qed

text \<open>
  Failed is left by one operation only.  A successful call that takes a failed task to
  another status is \<open>RetryFailed\<close> by a valid actor on a task outside every plan, and it
  ends in open with the failure reason and the old delivery gone.
\<close>

theorem task_failed_exit:
  assumes "task_exec ulower c t = Ok t'" "t_status t = TaskFailed" "t_status t' \<noteq> TaskFailed"
  shows "(\<exists>actor. fst c = OpRetryFailed actor \<and> valid_ref actor) \<and> t_planID t = [] \<and>
    \<not> task_IsArchived t \<and> t_status t' = TaskOpen \<and> t_failedReason t' = [] \<and> t_delivery t' = None"
  using exec_leaves_failed [OF assms] .

definition sample_failed :: task where
  "sample_failed = run_ops (task_exec id) [(OpFail ''no disk'' ''user:u1'', 8, 8)] sample_task"

definition sample_retried :: task where
  "sample_retried = run_ops (task_exec id) [(OpRetryFailed ''user:u1'', 9, 9)] sample_failed"

theorem task_failed_exit_witness:
  "t_planID sample_failed = [] \<and> t_status sample_retried = TaskOpen"
proof -
  have "task_exec id (OpRetryFailed ''user:u1'', 9, 9) sample_failed = Ok sample_retried"
    "t_status sample_failed = TaskFailed" "t_status sample_retried \<noteq> TaskFailed"
    by code_simp+
  from task_failed_exit [OF this] show ?thesis by blast
qed

text \<open>
  The optimistic lock misses no write of the aggregate.  A successful call either raises
  the version by exactly one or leaves every field unchanged except the action log, the
  delivery and the count of fruitless reopens; identity fields never change, the action log is
  only appended to, and the version never decreases over a history.
\<close>

theorem task_version_lock:
  "(task_exec ulower c t = Ok t' \<longrightarrow> t_version t' = t_version t + 1 \<or> quiet_write t t') \<and>
   t_version t \<le> t_version (run_ops (task_exec ulower) calls t) \<and>
   identity_facts (run_ops (task_exec ulower) calls t) = identity_facts t \<and>
   prefix (t_actionLogs t) (t_actionLogs (run_ops (task_exec ulower) calls t))"
  using exec_version_step [of ulower c t t'] task_done.versions.run_rel [where ops = calls and s = t and ulower = ulower]
    task_ident.run_rel [where ops = calls and s = t and ulower = ulower] by blast

theorem task_version_lock_witness:
  "t_version sample_retried = t_version sample_failed + 1 \<or> quiet_write sample_failed sample_retried"
proof -
  have "task_exec id (OpRetryFailed ''user:u1'', 9, 9) sample_failed = Ok sample_retried"
    by code_simp
  with task_version_lock show ?thesis by blast
qed

subsection \<open>The delivery gate\<close>

text \<open>
  on a running, unarchived task, with a valid identity, \<open>Complete\<close> succeeds exactly when
  no delivery was reported or the reported one is valid; the completed task keeps no lease, no
  failure reason and no recovery strikes.  When it refuses the delivery, the error names at
  least one reason.
\<close>

theorem task_complete_gate:
  assumes "t_status t = TaskRunning" "\<not> task_IsArchived t" "valid_ref by"
  shows "if t_delivery t = None \<or> HasValidDelivery (t_delivery t)
         then \<exists>t'. task_Complete by now at t = Ok t' \<and> t_status t' = TaskCompleted \<and>
                t_completedBy t' = by \<and> t_executionLeaseExpiresAt t' = None \<and>
                t_failedReason t' = [] \<and> t_recoveryResetCount t' = 0 \<and> t_fruitlessReopens t' = 0
         else \<exists>rs. task_Complete by now at t = Err (ErrTaskNoValidDelivery rs) \<and> rs \<noteq> []"
proof -
  have "InvalidReasons (t_delivery t) \<noteq> []" if "\<not> HasValidDelivery (t_delivery t)"
    using that no_reason_valid by blast
  then show ?thesis
    using assms by (auto simp: task_Complete_def task_touch_def valid_ref_def NewTaskNoValidDeliveryError_def)
qed

text \<open>
  \<open>Complete\<close> does not stamp the completion time that the field is documented to hold; the
  status setter does.
\<close>

lemma complete_keeps_completedAt:
  "task_Complete by now at t = Ok t' \<Longrightarrow> t_completedAt t' = t_completedAt t"
  by (auto simp: task_Complete_def task_touch_def split: option.splits if_splits)

definition sample_running :: task where
  "sample_running = run_ops (task_exec id) [(OpAssign ''agent:a'', 6, 6), (OpStart, 7, 7)] sample_task"

theorem task_complete_gate_witness:
  "\<exists>t'. task_Complete ''agent:a'' 9 9 sample_running = Ok t' \<and> t_status t' = TaskCompleted"
proof -
  have "t_status sample_running = TaskRunning" "\<not> task_IsArchived sample_running"
    "valid_ref ''agent:a''" "t_delivery sample_running = None"
    by code_simp+
  from task_complete_gate [OF this(1,2,3), of 9 9] this(4) show ?thesis by auto
qed

subsection \<open>Leases\<close>

text \<open>
  a renewed lease protects its owner.  After \<open>RenewLease\<close> at time \<open>a\<close> the task cannot be
  reset at any time before \<open>a + ttl\<close> unless the caller bypasses the lease; from then on, or
  with the bypass, the reset returns it to open with no assignee and no lease, counts one
  recovery reset and logs the assignee it took the task from.
\<close>

theorem task_lease_protects:
  assumes "task_RenewLease ttl now0 a t = Ok t1"
  shows "if \<not> bypass \<and> b < a + ttl then task_ResetToOpen bypass now b t1 = Err ErrLeaseStillLive
    else \<exists>t2. task_ResetToOpen bypass now b t1 = Ok t2 \<and> t_status t2 = TaskOpen \<and>
      t_assignee t2 = [] \<and> t_executionLeaseExpiresAt t2 = None \<and>
      t_recoveryResetCount t2 = t_recoveryResetCount t + 1 \<and>
      tl_AgentRef (last (t_actionLogs t2)) = t_assignee t"
  using assms
  by (auto simp: task_RenewLease_def task_ResetToOpen_def lease_lapsed_def task_touch_def
      task_appendLog_def task_IsArchived_def split: if_splits)

definition sample_leased :: task where
  "sample_leased = run_ops (task_exec id) [(OpRenewLease 10, 8, 8)] sample_running"

theorem task_lease_protects_witness:
  "task_ResetToOpen False 17 17 sample_leased = Err ErrLeaseStillLive"
proof -
  have "task_RenewLease 10 8 8 sample_running = Ok sample_leased" by code_simp
  from task_lease_protects [OF this, of False 17 17] show ?thesis by simp
qed

text \<open>
  The lease checker sweeps: at each tick it nudges the task if its lease has lapsed.  The
  number of nudges a series of ticks emits is bounded by the time that passes.
\<close>

fun lease_sweeps :: "duration \<Rightarrow> (time \<times> time) list \<Rightarrow> task \<Rightarrow> bool list \<times> task" where
  "lease_sweeps ttl [] t = ([], t)"
| "lease_sweeps ttl ((at, now) # ticks) t =
     (let (fired, t1) = task_NudgeOnLeaseExpiry ttl now at t;
          (fs, t2) = lease_sweeps ttl ticks t1
      in (fired # fs, t2))"

abbreviation nudges :: "bool list \<Rightarrow> int" where
  "nudges fs \<equiv> int (length (filter id fs))"

lemma nudge_cases:
  "task_NudgeOnLeaseExpiry ttl now at t = (False, t) \<or>
   (\<exists>l t'. task_NudgeOnLeaseExpiry ttl now at t = (True, t') \<and> t_executionLeaseExpiresAt t = Some l \<and>
      l \<le> at \<and> t_executionLeaseExpiresAt t' = Some (at + ttl))"
  by (auto simp: task_NudgeOnLeaseExpiry_def lease_lapsed_def task_touch_def task_appendLog_def
      split: option.splits)

lemma sweeps_bound:
  assumes "lease_sweeps ttl ticks t = (fs, t')" "sorted (map fst ticks)" "0 < nudges fs"
  shows "\<exists>l. t_executionLeaseExpiresAt t = Some l \<and> l + ttl * (nudges fs - 1) \<le> fst (last ticks)"
  using assms
proof (induction ttl ticks t arbitrary: fs t' rule: lease_sweeps.induct)
  case (1 ttl t)
  then show ?case by simp
next
  case (2 ttl at now ticks t)
  obtain fired t1 where n: "task_NudgeOnLeaseExpiry ttl now at t = (fired, t1)" by fastforce
  obtain fs' t2 where r: "lease_sweeps ttl ticks t1 = (fs', t2)" by fastforce
  have fs: "fs = fired # fs'" using "2.prems"(1) n r by simp
  have srt: "sorted (map fst ticks)" using "2.prems"(2) by simp
  note IH = "2.IH" [OF n [symmetric] refl r srt]
  from nudge_cases [of ttl now at t] consider
    (quiet) "\<not> fired" "t1 = t"
    | (fire) l where "fired" "t_executionLeaseExpiresAt t = Some l" "l \<le> at"
        "t_executionLeaseExpiresAt t1 = Some (at + ttl)"
    using n by auto
  then show ?case
  proof cases
    case quiet
    with IH "2.prems"(3) fs r show ?thesis by (cases ticks) auto
  next
    case fire
    show ?thesis
    proof (cases "0 < nudges fs'")
      case True
      then have "ticks \<noteq> []" using r by auto
      with IH [OF True] fire fs show ?thesis by (auto simp: algebra_simps)
    next
      case False
      have "at \<le> fst (last ((at, now) # ticks))"
        using "2.prems"(2) by (cases ticks rule: rev_cases) auto
      with fire fs False show ?thesis by (auto simp: id_def)
    qed
  qed
qed

text \<open>
  A stuck owner is nudged at most once per \<open>ttl\<close>.  Over any chronological series of
  sweeps that emits \<open>n\<close> nudges, the last sweep is at least \<open>(n - 1) * ttl\<close> after the lease
  deadline the task started with.
\<close>

theorem task_nudge_rate:
  assumes "lease_sweeps ttl ticks t = (fs, t')" "sorted (map fst ticks)" "0 < nudges fs"
  shows "\<exists>l. t_executionLeaseExpiresAt t = Some l \<and> ttl * (nudges fs - 1) \<le> fst (last ticks) - l"
  using sweeps_bound [OF assms] by auto

theorem task_nudge_rate_witness:
  "\<exists>l. t_executionLeaseExpiresAt sample_leased = Some l \<and> 10 * (2 - 1) \<le> fst (31::int, 31::int) - l"
proof -
  have "fst (lease_sweeps 10 [(12, 12), (20, 20), (25, 25), (31, 31)] sample_leased)
      = [False, True, False, True]"
    by code_simp
  then obtain t' where s: "lease_sweeps 10 [(12, 12), (20, 20), (25, 25), (31, 31)] sample_leased
      = ([False, True, False, True], t')"
    by (metis prod.collapse)
  from task_nudge_rate [OF s] show ?thesis by simp
qed

subsection \<open>Tags and capabilities\<close>

lemma cleanTags_loop_complete:
  "list_all (\<lambda>t. valid_tag (TrimSpace t)) tags \<Longrightarrow>
   cleanTags_loop seen tags = Ok (dedup_acc seen (map TrimSpace tags))"
  by (induction seen tags rule: cleanTags_loop.induct) (auto simp: Let_def valid_tag_def)

lemma cleanTags_iff:
  "cleanTags tags = Ok out \<longleftrightarrow>
     list_all (\<lambda>t. valid_tag (TrimSpace t)) tags \<and>
     out = dedup_acc [] (map TrimSpace tags) \<and> length out \<le> 10"
proof
  assume "cleanTags tags = Ok out"
  then show "list_all (\<lambda>t. valid_tag (TrimSpace t)) tags \<and>
     out = dedup_acc [] (map TrimSpace tags) \<and> length out \<le> 10"
    using cleanTags_ok [of tags out] by (auto simp: list_all_iff)
next
  assume "list_all (\<lambda>t. valid_tag (TrimSpace t)) tags \<and>
     out = dedup_acc [] (map TrimSpace tags) \<and> length out \<le> 10"
  then show "cleanTags tags = Ok out"
    using cleanTags_loop_complete [of tags "[]"] by (auto simp: cleanTags_def)
qed

text \<open>
  The tag cleaner accepts a list exactly when every trimmed tag has 1 to 16 runes and at
  most ten different ones remain; it then returns the trimmed tags without repetitions in
  first-seen order, and cleaning that result again changes nothing.
\<close>

theorem cleanTags_spec:
  "(cleanTags tags = Ok out \<longleftrightarrow>
     list_all (\<lambda>t. TrimSpace t \<noteq> [] \<and> rune_count (TrimSpace t) \<le> 16) tags \<and>
     out = dedup_acc [] (map TrimSpace tags) \<and> card (TrimSpace ` set tags) \<le> 10) \<and>
   (cleanTags tags = Ok out \<longrightarrow> cleanTags out = Ok out)"
proof -
  have "length (dedup_acc [] (map TrimSpace tags)) = card (TrimSpace ` set tags)"
    using distinct_card [OF distinct_dedup_acc, of "[]" "map TrimSpace tags"]
    by (simp add: set_dedup_acc)
  moreover have "cleanTags out = Ok out" if "cleanTags tags = Ok out"
  proof -
    have "list_all valid_tag out" "distinct out" "length out \<le> 10"
      using cleanTags_ok [OF that] by (auto simp: list_all_iff)
    moreover from this have "map TrimSpace out = out"
      by (auto simp: list_all_iff valid_tag_def intro: map_idI)
    ultimately show ?thesis
      by (auto simp: cleanTags_iff list_all_iff valid_tag_def dedup_acc_id)
  qed
  ultimately show ?thesis
    by (auto simp: cleanTags_iff valid_tag_def)
qed

theorem cleanTags_spec_witness:
  "cleanTags [''ui'', ''merge-to-main''] = Ok [''ui'', ''merge-to-main'']"
proof -
  have "cleanTags [''ui '', '' merge-to-main'', ''ui''] = Ok [''ui'', ''merge-to-main'']"
    by code_simp
  with cleanTags_spec show ?thesis by blast
qed

subsection \<open>Reload\<close>

text \<open>
  a task can always be reloaded.  Whatever calls were made on it since \<open>NewTask\<close>,
  \<open>RehydrateTask\<close> accepts the stored row; the reloaded task satisfies the invariant and keeps
  the outcome, the version, the log and the identity of the stored one.  It is archived unless
  the archive stamp was the zero time, which the reload drops.
\<close>

theorem task_reload:
  assumes "NewTask ulower inp = Ok t" "row = run_ops (task_exec ulower) calls t"
  shows "\<exists>t'. RehydrateTask ulower row = Ok t' \<and> task_wf t' \<and> outcome t' = outcome row \<and>
    t_version t' = t_version row \<and> t_actionLogs t' = t_actionLogs row \<and>
    identity_facts t' = identity_facts row \<and>
    task_IsArchived t' = (task_IsArchived row \<and> t_archivedAt row \<noteq> Some zero_time)"
proof -
  have "task_wf row"
    using assms by (auto intro: task_done.run_inv NewTask_wf)
  then show ?thesis
    by (auto simp: RehydrateTask_def task_wf_def task_state_ok_def task_refs_ok_def task_sets_ok_def
        outcome_def identity_facts_def task_IsArchived_def norm_time_ptr_def is_zero_time_def
        caps_ok split: option.splits)
qed

theorem task_reload_witness:
  "\<exists>t'. RehydrateTask id sample_archived = Ok t' \<and> task_wf t' \<and> task_IsArchived t'"
proof -
  have "task_IsArchived sample_archived \<and> t_archivedAt sample_archived \<noteq> Some zero_time"
    by code_simp
  with task_reload [OF sample_task_new sample_archived_def] show ?thesis by blast
qed

end
