(* ===== verification/Plan.thy ===== *)
theory Plan
  imports PM_Types
begin

section \<open>The Plan aggregate (internal/projectmanager/plan.go)\<close>

text \<open>
  Statuses, the aggregate \<open>p_x\<close>, its operations \<open>plan_M\<close> and what holds over histories of
  calls: archival only of concluded plans, the permanence of discarded, and the life of the
  built-in assignment pool.
\<close>

subsection \<open>Statuses\<close>

datatype plan_status =
    PlanPending | PlanRunning | PlanPaused | PlanDone | PlanDiscarded | PlanStatusOther gostring

definition plan_IsValid :: "plan_status \<Rightarrow> bool" where
  "plan_IsValid s \<longleftrightarrow> (case s of PlanStatusOther _ \<Rightarrow> False | _ \<Rightarrow> True)"

definition planTransitions :: "plan_status \<Rightarrow> plan_status list" where
  "planTransitions s =
     (case s of
        PlanPending \<Rightarrow> [PlanRunning, PlanDiscarded]
      | PlanRunning \<Rightarrow> [PlanPaused, PlanDone, PlanDiscarded]
      | PlanPaused \<Rightarrow> [PlanRunning, PlanDone, PlanDiscarded]
      | _ \<Rightarrow> [])"

definition plan_CanTransitionTo :: "plan_status \<Rightarrow> plan_status \<Rightarrow> bool" where
  "plan_CanTransitionTo s to \<longleftrightarrow> list_ex (\<lambda>n. n = to) (planTransitions s)"

text \<open>The code has no terminal test of its own; \<open>Archive\<close> spells out done or discarded.\<close>

definition plan_concluded :: "plan_status \<Rightarrow> bool" where
  "plan_concluded s \<longleftrightarrow> s = PlanDone \<or> s = PlanDiscarded"

lemmas plan_status_defs = plan_IsValid_def planTransitions_def plan_CanTransitionTo_def
  plan_concluded_def

interpretation plan_sm: status_machine plan_IsValid planTransitions plan_concluded
  by unfold_locales (auto simp: plan_status_defs split: plan_status.splits)

lemma plan_IsValid_simps [simp]:
  "plan_IsValid PlanPending" "plan_IsValid PlanRunning" "plan_IsValid PlanPaused"
  "plan_IsValid PlanDone" "plan_IsValid PlanDiscarded" "\<not> plan_IsValid (PlanStatusOther x)"
  by (simp_all add: plan_IsValid_def)

lemma plan_CanTransitionTo_simps [simp]:
  "plan_CanTransitionTo s PlanRunning \<longleftrightarrow> s = PlanPending \<or> s = PlanPaused"
  "plan_CanTransitionTo s PlanPaused \<longleftrightarrow> s = PlanRunning"
  "plan_CanTransitionTo s PlanDone \<longleftrightarrow> s = PlanRunning \<or> s = PlanPaused"
  "plan_CanTransitionTo s PlanDiscarded \<longleftrightarrow> s = PlanPending \<or> s = PlanRunning \<or> s = PlanPaused"
  by (cases s; simp add: plan_CanTransitionTo_def planTransitions_def)+

subsection \<open>The aggregate\<close>

record plan =
  p_id :: plan_id
  p_projectID :: project_id
  p_name :: gostring
  p_description :: gostring
  p_status :: plan_status
  p_creatorRef :: identity_ref
  p_conversationID :: gostring
  p_targetDate :: "time option"
  p_builtin :: bool
  p_orgNumber :: int
  p_graphID :: gostring
  p_activeGenerationID :: gostring
  p_archivedAt :: "time option"
  p_archivedBy :: identity_ref
  p_createdAt :: time
  p_updatedAt :: time
  p_version :: int

record new_plan_input =
  pi_ID :: plan_id
  pi_ProjectID :: project_id
  pi_Name :: gostring
  pi_Description :: gostring
  pi_CreatorRef :: identity_ref
  pi_TargetDate :: "time option"
  pi_Builtin :: bool
  pi_OrgNumber :: int
  pi_GraphID :: gostring
  pi_ActiveGenerationID :: gostring
  pi_CreatedAt :: time

text \<open>\<open>normalizeTargetDate\<close> is \<open>norm_time_ptr\<close>.\<close>

definition NewPlan :: "new_plan_input \<Rightarrow> pm_error + plan" where
  "NewPlan inp =
     (if blank (pi_ID inp) then Err (ErrNew ''plan id required'')
      else if blank (pi_ProjectID inp) then Err ErrEmptyProjectScope
      else if blank (pi_Name inp) then Err ErrEmptyPlanName
      else case IdentityRef_Validate (pi_CreatorRef inp) of
        Some e \<Rightarrow> Err e
      | None \<Rightarrow>
          if is_zero_time (pi_CreatedAt inp) then Err (ErrNew ''created_at required'')
          else Ok \<lparr>p_id = pi_ID inp, p_projectID = pi_ProjectID inp, p_name = pi_Name inp,
                   p_description = pi_Description inp, p_status = PlanPending,
                   p_creatorRef = pi_CreatorRef inp, p_conversationID = [],
                   p_targetDate = norm_time_ptr (pi_TargetDate inp), p_builtin = pi_Builtin inp,
                   p_orgNumber = pi_OrgNumber inp, p_graphID = pi_GraphID inp,
                   p_activeGenerationID = pi_ActiveGenerationID inp, p_archivedAt = None,
                   p_archivedBy = [], p_createdAt = pi_CreatedAt inp,
                   p_updatedAt = pi_CreatedAt inp, p_version = 1\<rparr>)"

definition RehydratePlan :: "plan \<Rightarrow> pm_error + plan" where
  "RehydratePlan row =
     (if \<not> plan_IsValid (p_status row) then Err ErrInvalidPlanStatus
      else if p_version row < 1 then Err (ErrNew ''version must be >= 1'')
      else Ok (row\<lparr>p_targetDate := norm_time_ptr (p_targetDate row),
                   p_archivedAt := norm_time_ptr (p_archivedAt row)\<rparr>))"

subsection \<open>Operations\<close>

definition plan_touch :: "time \<Rightarrow> time \<Rightarrow> plan \<Rightarrow> plan" where
  "plan_touch now at p = p\<lparr>p_updatedAt := stamp now at, p_version := p_version p + 1\<rparr>"

definition plan_IsArchived :: "plan \<Rightarrow> bool" where
  "plan_IsArchived p \<longleftrightarrow> p_archivedAt p \<noteq> None"

definition plan_transition :: "plan_status \<Rightarrow> time \<Rightarrow> time \<Rightarrow> plan \<Rightarrow> pm_error + plan" where
  "plan_transition to now at p =
     (if \<not> plan_IsValid to then Err ErrInvalidPlanStatus
      else if \<not> plan_CanTransitionTo (p_status p) to then Err ErrIllegalPlanTransition
      else Ok (plan_touch now at (p\<lparr>p_status := to\<rparr>)))"

definition plan_SetGraphID :: "gostring \<Rightarrow> time \<Rightarrow> time \<Rightarrow> plan \<Rightarrow> plan" where
  "plan_SetGraphID g now at p = plan_touch now at (p\<lparr>p_graphID := g\<rparr>)"

definition plan_SetActiveGenerationID :: "gostring \<Rightarrow> time \<Rightarrow> time \<Rightarrow> plan \<Rightarrow> plan" where
  "plan_SetActiveGenerationID g now at p = plan_touch now at (p\<lparr>p_activeGenerationID := g\<rparr>)"

definition plan_SetVersion :: "int \<Rightarrow> time \<Rightarrow> time \<Rightarrow> plan \<Rightarrow> plan" where
  "plan_SetVersion v now at p = p\<lparr>p_version := v, p_updatedAt := stamp now at\<rparr>"

definition plan_Rename :: "gostring \<Rightarrow> time \<Rightarrow> time \<Rightarrow> plan \<Rightarrow> pm_error + plan" where
  "plan_Rename name now at p =
     (if blank name then Err ErrEmptyPlanName else Ok (plan_touch now at (p\<lparr>p_name := name\<rparr>)))"

definition plan_SetDescription :: "gostring \<Rightarrow> time \<Rightarrow> time \<Rightarrow> plan \<Rightarrow> plan" where
  "plan_SetDescription desc now at p = plan_touch now at (p\<lparr>p_description := desc\<rparr>)"

definition plan_SetTargetDate :: "time option \<Rightarrow> time \<Rightarrow> time \<Rightarrow> plan \<Rightarrow> plan" where
  "plan_SetTargetDate d now at p = plan_touch now at (p\<lparr>p_targetDate := norm_time_ptr d\<rparr>)"

definition plan_SetConversationID :: "gostring \<Rightarrow> time \<Rightarrow> time \<Rightarrow> plan \<Rightarrow> plan" where
  "plan_SetConversationID i now at p = plan_touch now at (p\<lparr>p_conversationID := i\<rparr>)"

definition plan_Start :: "time \<Rightarrow> time \<Rightarrow> plan \<Rightarrow> pm_error + plan" where
  "plan_Start = plan_transition PlanRunning"

definition plan_Pause :: "time \<Rightarrow> time \<Rightarrow> plan \<Rightarrow> pm_error + plan" where
  "plan_Pause now at p =
     (if p_builtin p then Err ErrBuiltinPlanImmutable else plan_transition PlanPaused now at p)"

definition plan_Resume :: "time \<Rightarrow> time \<Rightarrow> plan \<Rightarrow> pm_error + plan" where
  "plan_Resume now at p =
     (if p_builtin p then Err ErrBuiltinPlanImmutable else plan_transition PlanRunning now at p)"

definition plan_Reopen :: "time \<Rightarrow> time \<Rightarrow> plan \<Rightarrow> pm_error + plan" where
  "plan_Reopen now at p =
     (if p_builtin p then Err ErrBuiltinPlanImmutable
      else if plan_IsArchived p then Err ErrPlanArchived
      else if p_status p \<noteq> PlanDone then Err ErrIllegalPlanTransition
      else Ok (plan_touch now at (p\<lparr>p_status := PlanPaused\<rparr>)))"

definition plan_Stop :: "time \<Rightarrow> time \<Rightarrow> plan \<Rightarrow> pm_error + plan" where
  "plan_Stop = plan_Pause"

definition plan_MarkDone :: "time \<Rightarrow> time \<Rightarrow> plan \<Rightarrow> pm_error + plan" where
  "plan_MarkDone now at p =
     (if p_builtin p then Err ErrBuiltinPlanImmutable else plan_transition PlanDone now at p)"

definition plan_Discard :: "time \<Rightarrow> time \<Rightarrow> plan \<Rightarrow> pm_error + plan" where
  "plan_Discard now at p =
     (if p_builtin p then Err ErrBuiltinPlanImmutable else plan_transition PlanDiscarded now at p)"

definition plan_Archive :: "identity_ref list \<Rightarrow> time \<Rightarrow> time \<Rightarrow> plan \<Rightarrow> pm_error + plan" where
  "plan_Archive actors now at p =
     (if plan_IsArchived p then Err ErrPlanArchived
      else if p_status p \<noteq> PlanDone \<and> p_status p \<noteq> PlanDiscarded then Err ErrPlanNotTerminal
      else let actor = (case actors of [] \<Rightarrow> ''system'' | a # _ \<Rightarrow> a) in
        case IdentityRef_Validate actor of
          Some e \<Rightarrow> Err e
        | None \<Rightarrow> Ok (plan_touch now at (p\<lparr>p_archivedAt := Some at, p_archivedBy := actor\<rparr>)))"

definition plan_ArchiveWithProject :: "time \<Rightarrow> time \<Rightarrow> plan \<Rightarrow> pm_error + plan" where
  "plan_ArchiveWithProject now at p =
     (if plan_IsArchived p then Err ErrPlanArchived
      else let p1 = (if p_status p \<noteq> PlanDone \<and> p_status p \<noteq> PlanDiscarded
                     then p\<lparr>p_status := PlanDiscarded\<rparr> else p)
           in Ok (plan_touch now at (p1\<lparr>p_archivedAt := Some at, p_archivedBy := ''system''\<rparr>)))"

subsection \<open>Histories\<close>

datatype plan_op =
    POpSetGraphID gostring
  | POpSetActiveGenerationID gostring
  | POpSetVersion int
  | POpRename gostring
  | POpSetDescription gostring
  | POpSetTargetDate "time option"
  | POpSetConversationID gostring
  | POpStart
  | POpPause
  | POpResume
  | POpReopen
  | POpStop
  | POpMarkDone
  | POpDiscard
  | POpArchive "identity_ref list"
  | POpArchiveWithProject

type_synonym plan_call = "plan_op \<times> time \<times> time"

fun plan_exec :: "plan_call \<Rightarrow> plan \<Rightarrow> pm_error + plan" where
  "plan_exec (POpSetGraphID g, at, now) p = Ok (plan_SetGraphID g now at p)"
| "plan_exec (POpSetActiveGenerationID g, at, now) p = Ok (plan_SetActiveGenerationID g now at p)"
| "plan_exec (POpSetVersion v, at, now) p = Ok (plan_SetVersion v now at p)"
| "plan_exec (POpRename s, at, now) p = plan_Rename s now at p"
| "plan_exec (POpSetDescription s, at, now) p = Ok (plan_SetDescription s now at p)"
| "plan_exec (POpSetTargetDate d, at, now) p = Ok (plan_SetTargetDate d now at p)"
| "plan_exec (POpSetConversationID i, at, now) p = Ok (plan_SetConversationID i now at p)"
| "plan_exec (POpStart, at, now) p = plan_Start now at p"
| "plan_exec (POpPause, at, now) p = plan_Pause now at p"
| "plan_exec (POpResume, at, now) p = plan_Resume now at p"
| "plan_exec (POpReopen, at, now) p = plan_Reopen now at p"
| "plan_exec (POpStop, at, now) p = plan_Stop now at p"
| "plan_exec (POpMarkDone, at, now) p = plan_MarkDone now at p"
| "plan_exec (POpDiscard, at, now) p = plan_Discard now at p"
| "plan_exec (POpArchive as, at, now) p = plan_Archive as now at p"
| "plan_exec (POpArchiveWithProject, at, now) p = plan_ArchiveWithProject now at p"

lemmas plan_op_defs [op_defs] =
  plan_SetGraphID_def plan_SetActiveGenerationID_def plan_SetVersion_def plan_Rename_def
  plan_SetDescription_def plan_SetTargetDate_def plan_SetConversationID_def plan_Start_def
  plan_Pause_def plan_Resume_def plan_Reopen_def plan_Stop_def plan_MarkDone_def
  plan_Discard_def plan_Archive_def plan_ArchiveWithProject_def plan_transition_def

text \<open>
  The invariant: a valid status; only concluded plans are archived; a built-in plan is
  pending or running until it is archived with its project.
\<close>

definition plan_wf :: "plan \<Rightarrow> bool" where
  "plan_wf p \<longleftrightarrow>
     plan_IsValid (p_status p) \<and>
     (plan_IsArchived p \<longrightarrow> plan_concluded (p_status p) \<and> valid_ref (p_archivedBy p)) \<and>
     (p_builtin p \<longrightarrow> (if plan_IsArchived p then p_status p = PlanDiscarded
                        else p_status p = PlanPending \<or> p_status p = PlanRunning)) \<and>
     \<not> blank (p_id p) \<and> \<not> blank (p_projectID p) \<and> \<not> blank (p_name p) \<and>
     p_targetDate p \<noteq> Some zero_time"

text \<open>What every history keeps: the invariant, identity, archive stamp and discarded.\<close>

definition plan_rel :: "plan \<Rightarrow> plan \<Rightarrow> bool" where
  "plan_rel p p' \<longleftrightarrow>
     (plan_wf p \<longrightarrow> plan_wf p') \<and>
     (p_id p', p_projectID p', p_creatorRef p', p_createdAt p', p_builtin p', p_orgNumber p') =
     (p_id p, p_projectID p, p_creatorRef p, p_createdAt p, p_builtin p, p_orgNumber p) \<and>
     (p_status p = PlanDiscarded \<longrightarrow> p_status p' = PlanDiscarded) \<and>
     (plan_wf p \<and> plan_IsArchived p \<longrightarrow>
        plan_IsArchived p' \<and> (p_status p', p_archivedAt p', p_archivedBy p') =
          (p_status p, p_archivedAt p, p_archivedBy p))"

lemma valid_system: "IdentityRef_Validate ''system'' = None"
  by code_simp

lemma norm_time_ptr_nonzero [simp]: "norm_time_ptr d \<noteq> Some 0"
  by (simp add: norm_time_ptr_def is_zero_time_def split: option.splits)

lemma plan_exec_rel: "plan_exec c p = Ok p' \<Longrightarrow> plan_rel p p'"
  by (induction c p rule: plan_exec.induct;
      simp add: op_defs Let_def split: if_splits option.splits;
      ((elim conjE)?, hypsubst_thin)?;
      auto simp: plan_touch_def plan_rel_def plan_wf_def plan_IsArchived_def valid_ref_def
        valid_system plan_concluded_def split: if_splits)

interpretation plan_hist: history plan_exec plan_rel
  by unfold_locales (auto simp: plan_rel_def dest: plan_exec_rel)

lemma NewPlan_wf: "NewPlan inp = Ok p \<Longrightarrow> plan_wf p"
  by (auto simp: NewPlan_def plan_wf_def plan_IsArchived_def is_zero_time_def
      split: if_splits option.splits)

lemma plan_run_wf: "NewPlan inp = Ok p \<Longrightarrow> plan_wf (run_ops plan_exec calls p)"
  using plan_hist.run_rel [of p calls] NewPlan_wf [of inp p] by (simp add: plan_rel_def)

text \<open>
  over any sequence of calls on a plan made by \<open>NewPlan\<close>, an archived plan is done or
  discarded and was archived by a valid identity, a built-in pool is pending or running until
  it is archived with its project, names stay non-blank and the target date is never the zero
  time.
\<close>

theorem plan_history_wf:
  assumes "NewPlan inp = Ok p"
  shows "plan_wf (run_ops plan_exec calls p)"
  using assms by (rule plan_run_wf)

definition sample_plan_input :: new_plan_input where
  "sample_plan_input = \<lparr>pi_ID = ''pl1'', pi_ProjectID = ''p1'', pi_Name = ''ship'',
     pi_Description = [], pi_CreatorRef = ''user:u1'', pi_TargetDate = Some 0, pi_Builtin = False,
     pi_OrgNumber = 1, pi_GraphID = [], pi_ActiveGenerationID = [], pi_CreatedAt = 5\<rparr>"

definition sample_plan :: plan where
  "sample_plan = (case NewPlan sample_plan_input of Ok p \<Rightarrow> p | Err _ \<Rightarrow> undefined)"

lemma sample_plan_new: "NewPlan sample_plan_input = Ok sample_plan"
  unfolding sample_plan_def by code_simp

theorem plan_history_wf_witness:
  "plan_wf (run_ops plan_exec [(POpStart, 6, 6), (POpMarkDone, 7, 7), (POpArchive [], 8, 8)] sample_plan)"
  by (rule plan_history_wf [OF sample_plan_new])

text \<open>
  Discarded is permanent, and archival freezes the life cycle.  After a history that ends
  in discarded, no further call changes the status; after one that ends archived, no further
  call changes the status or the archive stamp, so \<open>Reopen\<close> and \<open>Resume\<close> find no way back.
\<close>

theorem plan_discard_archive_permanent:
  assumes "NewPlan inp = Ok p" "q = run_ops plan_exec before p" "q' = run_ops plan_exec after q"
  shows "(p_status q = PlanDiscarded \<longrightarrow> p_status q' = PlanDiscarded) \<and>
    (plan_IsArchived q \<longrightarrow>
       (p_status q', p_archivedAt q', p_archivedBy q') = (p_status q, p_archivedAt q, p_archivedBy q))"
proof -
  have "plan_wf q"
    unfolding assms(2) using assms(1) by (rule plan_run_wf)
  with plan_hist.run_rel [of q after] assms(3) show ?thesis
    by (simp add: plan_rel_def)
qed

definition sample_archived_plan :: plan where
  "sample_archived_plan =
     run_ops plan_exec [(POpStart, 6, 6), (POpMarkDone, 7, 7), (POpArchive [], 8, 8)] sample_plan"

definition sample_archived_plan2 :: plan where
  "sample_archived_plan2 = run_ops plan_exec [(POpReopen, 9, 9), (POpResume, 9, 9)] sample_archived_plan"

theorem plan_discard_archive_permanent_witness:
  "p_status sample_archived_plan2 = PlanDone"
proof -
  have "plan_IsArchived sample_archived_plan" "p_status sample_archived_plan = PlanDone"
    by code_simp+
  with plan_discard_archive_permanent
      [OF sample_plan_new sample_archived_plan_def sample_archived_plan2_def]
  show ?thesis by simp
qed

end
