(* ===== verification/Three_Color_DFS.thy ===== *)
theory Three_Color_DFS
  imports AC_Prelude "HOL-Library.Multiset"
begin

section \<open>Three-colour depth-first search with an explicit stack\<close>

text \<open>
  The cycle check that the plan DAG, the stage DAG and the orchestration graph each write out:
  an iterative depth-first search whose frames hold a node and the index of its next child.
  \<open>dfs_loop\<close> is the inner loop (\<open>None\<close> when it meets a gray child, a back edge),
  \<open>dfs_roots\<close> the outer loop over the nodes.  The locale \<open>dfs_graph\<close> states what a caller
  owes (an adjacency map of its edges and a root list that covers them) and proves once that
  the check decides acyclicity.

  Go iterates a map in an unspecified order.  \<open>range_order ord xs\<close> is that order: a
  permutation of the keys chosen by the parameter \<open>ord\<close>, so a theorem for every \<open>ord\<close>
  holds for every order the runtime may pick.
\<close>

definition range_order :: "('a list \<Rightarrow> 'a list) \<Rightarrow> 'a list \<Rightarrow> 'a list" where
  "range_order ord xs = (if mset (ord xs) = mset xs then ord xs else xs)"

lemma set_range_order [simp]: "set (range_order ord xs) = set xs"
  unfolding range_order_def by (auto dest: mset_eq_setD)

lemma mset_range_order [simp]: "mset (range_order ord xs) = mset xs"
  by (simp add: range_order_def)

lemma distinct_range_order [simp]: "distinct (range_order ord xs) = distinct xs"
  by (rule mset_eq_imp_distinct_iff) simp

datatype color = White | Gray | Black

function dfs_loop ::
  "('a, 'a) multimap \<Rightarrow> ('a \<times> nat) list \<Rightarrow> ('a \<Rightarrow> color) \<Rightarrow> ('a \<Rightarrow> color) option" where
  "dfs_loop adj [] color = Some color"
| "dfs_loop adj ((n, i) # stack) color =
     (let children = mm_get adj n in
      if i < length children then
        (let child = children ! i in
         case color child of
           Gray \<Rightarrow> None
         | White \<Rightarrow> dfs_loop adj ((child, 0) # (n, Suc i) # stack) (color(child := Gray))
         | Black \<Rightarrow> dfs_loop adj ((n, Suc i) # stack) color)
      else dfs_loop adj stack (color(n := Black)))"
  by pat_completeness auto

definition whites :: "('a, 'a) multimap \<Rightarrow> ('a \<Rightarrow> color) \<Rightarrow> nat" where
  "whites adj color = card {v \<in> set (concat (map snd adj)). color v = White}"

definition pending :: "('a, 'a) multimap \<Rightarrow> ('a \<times> nat) list \<Rightarrow> nat" where
  "pending adj stack = (\<Sum>(n, i) \<leftarrow> stack. Suc (length (mm_get adj n) - i))"

lemma whites_mono: "c \<noteq> White \<Longrightarrow> whites adj (color(n := c)) \<le> whites adj color"
  unfolding whites_def by (rule card_mono) auto

lemma whites_visit:
  assumes "child \<in> set (mm_get adj n)" "color child = White"
  shows "whites adj (color(child := Gray)) < whites adj color"
  unfolding whites_def
proof (rule psubset_card_mono)
  have "child \<in> set (concat (map snd adj))"
    using assms(1) by (rule mm_get_in_concat)
  then show "{v \<in> set (concat (map snd adj)). (color(child := Gray)) v = White}
      \<subset> {v \<in> set (concat (map snd adj)). color v = White}"
    using assms(2) by auto
qed simp

lemma whites_black: "whites adj (color(n := Black)) < whites adj color \<or>
    whites adj (color(n := Black)) = whites adj color"
  using whites_mono [of Black adj color n] by auto

termination dfs_loop
proof (relation "inv_image (less_than <*lex*> less_than)
    (\<lambda>(adj, stack, color). (whites adj color, pending adj stack))", goal_cases)
  case 1
  show ?case by auto
next
  case (2 adj n i stack color x xa)
  then have "whites adj (color(xa := Gray)) < whites adj color"
    by (intro whites_visit [of _ _ n]) auto
  then show ?case by simp
next
  case (3 adj n i stack color x xa)
  then show ?case by (simp add: pending_def)
next
  case (4 adj n i stack color x)
  then show ?case using whites_black [of adj color n] by (auto simp: pending_def)
qed

declare dfs_loop.simps(2) [simp del]

fun dfs_roots ::
  "('a, 'a) multimap \<Rightarrow> 'a list \<Rightarrow> ('a \<Rightarrow> color) \<Rightarrow> ('a \<Rightarrow> color) option" where
  "dfs_roots adj [] color = Some color"
| "dfs_roots adj (r # rs) color =
     (if color r \<noteq> White then dfs_roots adj rs color
      else case dfs_loop adj [(r, 0)] (color(r := Gray)) of
        None \<Rightarrow> None
      | Some color' \<Rightarrow> dfs_roots adj rs color')"

definition has_cycle :: "('a, 'a) multimap \<Rightarrow> 'a list \<Rightarrow> bool" where
  "has_cycle adj roots \<longleftrightarrow> dfs_roots adj roots (\<lambda>_. White) = None"

subsection \<open>The invariant of the search\<close>

definition adj_rel :: "('a, 'a) multimap \<Rightarrow> ('a \<times> 'a) set" where
  "adj_rel adj = {(x, y). y \<in> set (mm_get adj x)}"

text \<open>
  A frame has scanned the children below its index: all of them are black, but for the
  last one where a frame sits above it (\<open>up\<close>), which is that frame's node.
\<close>

fun stack_ok :: "('a, 'a) multimap \<Rightarrow> ('a \<Rightarrow> color) \<Rightarrow> 'a option \<Rightarrow> ('a \<times> nat) list \<Rightarrow> bool" where
  "stack_ok adj color up [] = True"
| "stack_ok adj color up ((n, i) # stack) =
     (i \<le> length (mm_get adj n) \<and>
      (case up of
         None \<Rightarrow> \<forall>j<i. color (mm_get adj n ! j) = Black
       | Some m \<Rightarrow> 0 < i \<and> mm_get adj n ! (i - 1) = m \<and>
           (\<forall>j<i - 1. color (mm_get adj n ! j) = Black)) \<and>
      stack_ok adj color (Some n) stack)"

definition dfs_inv :: "('a, 'a) multimap \<Rightarrow> ('a \<times> nat) list \<Rightarrow> ('a \<Rightarrow> color) \<Rightarrow> bool" where
  "dfs_inv adj stack color \<longleftrightarrow>
     distinct (map fst stack) \<and>
     (\<forall>x. color x = Gray \<longleftrightarrow> x \<in> set (map fst stack)) \<and>
     stack_ok adj color None stack \<and>
     (\<forall>x y. color x = Black \<longrightarrow> (x, y) \<in> adj_rel adj \<longrightarrow> color y = Black) \<and>
     (\<forall>x. color x = Black \<longrightarrow> (x, x) \<notin> (adj_rel adj)\<^sup>+)"

lemma stack_ok_mono:
  "stack_ok adj color up stack \<Longrightarrow> (\<And>x. color x = Black \<Longrightarrow> color' x = Black) \<Longrightarrow>
   stack_ok adj color' up stack"
  by (induction adj color up stack rule: stack_ok.induct) (auto split: option.splits)

lemma stack_ok_path:
  "stack_ok adj color (Some m) stack \<Longrightarrow> x \<in> fst ` set stack \<Longrightarrow> (x, m) \<in> (adj_rel adj)\<^sup>+"
proof (induction stack arbitrary: m)
  case Nil
  then show ?case by simp
next
  case (Cons f stack)
  obtain n i where f: "f = (n, i)" by force
  with Cons.prems have "(n, m) \<in> adj_rel adj"
    by (auto simp: adj_rel_def)
  moreover have "x = n \<or> (x, n) \<in> (adj_rel adj)\<^sup>+"
    using Cons f by auto
  ultimately show ?case by (auto intro: trancl_into_trancl)
qed

lemma black_closed:
  assumes "(y, z) \<in> r\<^sup>*" "\<And>x y. P x \<Longrightarrow> (x, y) \<in> r \<Longrightarrow> P y" "P y"
  shows "P z"
  using assms by (induction rule: rtrancl_induct) auto

lemma dfs_inv_pop:
  assumes inv: "dfs_inv adj ((n, i) # stack) color" and exhausted: "\<not> i < length (mm_get adj n)"
  shows "dfs_inv adj stack (color(n := Black))"
proof -
  let ?c = "color(n := Black)"
  have gray: "\<And>x. color x = Gray \<longleftrightarrow> x = n \<or> x \<in> fst ` set stack"
    and dist: "distinct (map fst stack)" "n \<notin> fst ` set stack"
    and i: "i = length (mm_get adj n)" and scanned: "\<And>j. j < i \<Longrightarrow> color (mm_get adj n ! j) = Black"
    and below: "stack_ok adj color (Some n) stack"
    and closed: "\<And>x y. color x = Black \<Longrightarrow> (x, y) \<in> adj_rel adj \<Longrightarrow> color y = Black"
    and acyc: "\<And>x. color x = Black \<Longrightarrow> (x, x) \<notin> (adj_rel adj)\<^sup>+"
    using inv exhausted by (auto simp: dfs_inv_def)
  have kids: "color y = Black" if "(n, y) \<in> adj_rel adj" for y
    using that scanned i by (auto simp: adj_rel_def in_set_conv_nth)
  have "(n, n) \<notin> (adj_rel adj)\<^sup>+"
  proof
    assume "(n, n) \<in> (adj_rel adj)\<^sup>+"
    then obtain y where "(n, y) \<in> adj_rel adj" "(y, n) \<in> (adj_rel adj)\<^sup>*"
      by (meson tranclD)
    then have "color n = Black"
      using black_closed [of y n "adj_rel adj" "\<lambda>x. color x = Black"] kids closed by blast
    with gray [of n] show False by simp
  qed
  moreover have "stack_ok adj ?c None stack"
  proof (cases stack)
    case (Cons f rest)
    obtain m j where f: "f = (m, j)" by force
    have j: "0 < j" "mm_get adj m ! (j - 1) = n" "\<And>k. k < j - 1 \<Longrightarrow> color (mm_get adj m ! k) = Black"
      using below Cons f by auto
    have "?c (mm_get adj m ! k) = Black" if "k < j" for k
      using j that by (cases "k = j - 1") auto
    moreover have "stack_ok adj ?c (Some m) rest"
      using below Cons f by (auto intro: stack_ok_mono)
    ultimately show ?thesis using below Cons f by auto
  qed simp
  ultimately show ?thesis
    using gray dist kids closed acyc by (auto simp: dfs_inv_def)
qed


lemma dfs_inv_black:
  assumes "dfs_inv adj ((n, i) # stack) color" "i < length (mm_get adj n)"
    "color (mm_get adj n ! i) = Black"
  shows "dfs_inv adj ((n, Suc i) # stack) color"
  using assms by (auto simp: dfs_inv_def less_Suc_eq)

lemma dfs_inv_white:
  assumes inv: "dfs_inv adj ((n, i) # stack) color" and i: "i < length (mm_get adj n)"
    and white: "color (mm_get adj n ! i) = White"
  shows "dfs_inv adj ((mm_get adj n ! i, 0) # (n, Suc i) # stack) (color(mm_get adj n ! i := Gray))"
proof -
  let ?m = "mm_get adj n ! i"
  let ?c = "color(?m := Gray)"
  have mono: "\<And>x. color x = Black \<Longrightarrow> ?c x = Black"
    using white by auto
  have "stack_ok adj ?c (Some n) stack"
    using inv mono by (auto simp: dfs_inv_def intro: stack_ok_mono)
  moreover have "\<forall>j<i. ?c (mm_get adj n ! j) = Black"
    using inv mono by (auto simp: dfs_inv_def)
  moreover have "?m \<notin> set (map fst ((n, i) # stack))"
  proof
    assume "?m \<in> set (map fst ((n, i) # stack))"
    then have "color ?m = Gray" using inv by (simp add: dfs_inv_def)
    with white show False by simp
  qed
  ultimately show ?thesis
    using inv i white by (auto simp: dfs_inv_def)
qed

lemma dfs_inv_gray:
  assumes inv: "dfs_inv adj ((n, i) # stack) color" and i: "i < length (mm_get adj n)"
    and gray: "color (mm_get adj n ! i) = Gray"
  shows "(n, n) \<in> (adj_rel adj)\<^sup>+"
proof -
  let ?m = "mm_get adj n ! i"
  have edge: "(n, ?m) \<in> adj_rel adj" using i by (simp add: adj_rel_def)
  have "?m = n \<or> ?m \<in> fst ` set stack"
    using inv gray by (auto simp: dfs_inv_def)
  then show ?thesis
  proof
    assume "?m = n"
    with edge show ?thesis by auto
  next
    assume "?m \<in> fst ` set stack"
    then have "(?m, n) \<in> (adj_rel adj)\<^sup>+"
      using inv by (auto simp: dfs_inv_def intro: stack_ok_path)
    with edge show ?thesis by (rule trancl_into_trancl2)
  qed
qed

subsection \<open>Correctness of the two loops\<close>

definition search_ok :: "('a, 'a) multimap \<Rightarrow> ('a \<Rightarrow> color) \<Rightarrow> ('a \<Rightarrow> color) option \<Rightarrow> bool" where
  "search_ok adj color res \<longleftrightarrow>
     (case res of
        None \<Rightarrow> \<not> acyclic (adj_rel adj)
      | Some color' \<Rightarrow> dfs_inv adj [] color' \<and> (\<forall>x. color x \<noteq> White \<longrightarrow> color' x = Black))"

lemma search_ok_mono:
  "search_ok adj color res \<Longrightarrow> (\<And>x. color0 x \<noteq> White \<Longrightarrow> color x \<noteq> White) \<Longrightarrow> search_ok adj color0 res"
  by (auto simp: search_ok_def split: option.splits)

lemma dfs_loop_ok: "dfs_inv adj stack color \<Longrightarrow> search_ok adj color (dfs_loop adj stack color)"
proof (induction adj stack color rule: dfs_loop.induct)
  case (1 adj color)
  have "color x = White \<or> color x = Black" for x
    using 1 by (cases "color x") (auto simp: dfs_inv_def)
  with 1 show ?case by (auto simp: search_ok_def)
next
  case (2 adj n i stack color)
  let ?m = "mm_get adj n ! i"
  show ?case
  proof (cases "i < length (mm_get adj n)")
    case True
    show ?thesis
    proof (cases "color ?m")
      case White
      have "search_ok adj (color(?m := Gray))
          (dfs_loop adj ((?m, 0) # (n, Suc i) # stack) (color(?m := Gray)))"
        by (rule "2.IH"(1) [OF refl True refl White]) (rule dfs_inv_white [OF "2.prems" True White])
      then have "search_ok adj color
          (dfs_loop adj ((?m, 0) # (n, Suc i) # stack) (color(?m := Gray)))"
        by (rule search_ok_mono) auto
      with True White show ?thesis by (subst dfs_loop.simps) (simp add: Let_def)
    next
      case Gray
      with dfs_inv_gray [OF "2.prems" True Gray] True show ?thesis
        by (subst dfs_loop.simps) (auto simp: search_ok_def acyclic_def)
    next
      case Black
      with "2.IH"(2) [OF refl True refl Black] dfs_inv_black [OF "2.prems" True Black] True
      show ?thesis by (subst dfs_loop.simps) simp
    qed
  next
    case False
    have "search_ok adj (color(n := Black)) (dfs_loop adj stack (color(n := Black)))"
      by (rule "2.IH"(3) [OF refl False]) (rule dfs_inv_pop [OF "2.prems" False])
    then have "search_ok adj color (dfs_loop adj stack (color(n := Black)))"
      by (rule search_ok_mono) auto
    with False show ?thesis by (subst dfs_loop.simps) simp
  qed
qed

lemma dfs_inv_start:
  assumes "dfs_inv adj [] color" "color r = White"
  shows "dfs_inv adj [(r, 0)] (color(r := Gray))"
  using assms by (auto simp: dfs_inv_def)

lemma dfs_roots_ok:
  "dfs_inv adj [] color \<Longrightarrow>
   (case dfs_roots adj roots color of
      None \<Rightarrow> \<not> acyclic (adj_rel adj)
    | Some c \<Rightarrow> dfs_inv adj [] c \<and> (\<forall>x. color x = Black \<or> x \<in> set roots \<longrightarrow> c x = Black))"
proof (induction roots arbitrary: color)
  case Nil
  then show ?case by simp
next
  case (Cons r rs)
  show ?case
  proof (cases "color r = White")
    case False
    then have "color r = Black"
      using Cons.prems by (cases "color r") (auto simp: dfs_inv_def)
    with Cons.IH [OF Cons.prems] show ?thesis by (auto split: option.splits)
  next
    case True
    have ok: "search_ok adj (color(r := Gray)) (dfs_loop adj [(r, 0)] (color(r := Gray)))"
      by (rule dfs_loop_ok) (rule dfs_inv_start [OF Cons.prems True])
    show ?thesis
    proof (cases "dfs_loop adj [(r, 0)] (color(r := Gray))")
      case None
      with ok True show ?thesis by (simp add: search_ok_def)
    next
      case (Some c)
      with ok have "dfs_inv adj [] c" "\<And>x. color x = Black \<or> x = r \<Longrightarrow> c x = Black"
        by (auto simp: search_ok_def split: if_splits)
      with Cons.IH [of c] True Some show ?thesis by (auto split: option.splits)
    qed
  qed
qed

theorem has_cycle_iff:
  assumes cover: "\<And>x y. (x, y) \<in> adj_rel adj \<Longrightarrow> x \<in> set roots"
  shows "has_cycle adj roots \<longleftrightarrow> \<not> acyclic (adj_rel adj)"
proof -
  have init: "dfs_inv adj [] (\<lambda>_. White)" by (simp add: dfs_inv_def)
  show ?thesis
  proof (cases "dfs_roots adj roots (\<lambda>_. White)")
    case None
    with dfs_roots_ok [OF init, of roots] show ?thesis by (simp add: has_cycle_def)
  next
    case (Some c)
    have "(x, x) \<notin> (adj_rel adj)\<^sup>+" for x
    proof
      assume cyc: "(x, x) \<in> (adj_rel adj)\<^sup>+"
      then have "x \<in> set roots" using cover by (meson tranclD)
      with dfs_roots_ok [OF init, of roots] Some cyc show False by (auto simp: dfs_inv_def)
    qed
    with Some show ?thesis by (simp add: has_cycle_def acyclic_def)
  qed
qed

subsection \<open>What a caller of the check owes\<close>

text \<open>
  A caller builds an adjacency map \<open>adj g\<close> and a root list \<open>roots g\<close> from its own data
  \<open>g\<close>, whose edges are \<open>edges g\<close>.
\<close>

locale dfs_graph =
  fixes adj :: "'g \<Rightarrow> ('a, 'a) multimap"
    and roots :: "'g \<Rightarrow> 'a list"
    and edges :: "'g \<Rightarrow> ('a \<times> 'a) set"
  assumes adj_edges: "y \<in> set (mm_get (adj g) x) \<longleftrightarrow> (x, y) \<in> edges g"
    and roots_cover: "(x, y) \<in> edges g \<Longrightarrow> x \<in> set (roots g)"
begin

lemma adj_rel_edges: "adj_rel (adj g) = edges g"
  by (auto simp: adj_rel_def adj_edges)

lemma check_iff: "has_cycle (adj g) (roots g) \<longleftrightarrow> \<not> acyclic (edges g)"
  using has_cycle_iff [of "adj g" "roots g"] by (simp add: adj_rel_edges roots_cover)

lemma check_no_self: "\<not> has_cycle (adj g) (roots g) \<Longrightarrow> (x, x) \<notin> edges g"
  by (auto simp: check_iff acyclic_def)

lemma check_irreversible:
  "\<not> has_cycle (adj g) (roots g) \<Longrightarrow> (x, y) \<in> (edges g)\<^sup>+ \<Longrightarrow> (y, x) \<notin> (edges g)\<^sup>*"
  by (meson acyclic_def check_iff rtrancl_trancl_trancl trancl_rtrancl_trancl)

end

end
