(* ===== verification/Worklist.thy ===== *)
theory Worklist
  imports Three_Color_DFS
begin

section \<open>Worklist searches over an adjacency map\<close>

text \<open>
  Three loops that the graph code repeats, each with an explicit stack (its head is the top).
  \<open>closure\<close> collects what is reachable from a node, \<open>reach_search\<close> stops at a target and
  \<open>walk\<close> lists the reachable nodes in the order they are first popped.  A Go
  \<open>map[K]bool\<close> of visited nodes is the list of its true keys.
\<close>

subsection \<open>Marking before pushing\<close>

fun push_new :: "'a list \<Rightarrow> 'a list \<Rightarrow> 'a list \<Rightarrow> 'a list \<times> 'a list" where
  "push_new seen stack [] = (seen, stack)"
| "push_new seen stack (c # cs) =
     (if c \<in> set seen then push_new seen stack cs else push_new (c # seen) (c # stack) cs)"

lemma push_new_sets:
  "push_new seen stack cs = (seen', stack') \<Longrightarrow>
   set seen' = set seen \<union> set cs \<and>
   set stack' = set stack \<union> (set cs - set seen) \<and>
   (set cs \<subseteq> set seen \<longrightarrow> stack' = stack)"
  by (induction seen stack cs rule: push_new.induct) (auto split: if_splits)

definition unseen :: "('a, 'a) multimap \<Rightarrow> 'a list \<Rightarrow> nat" where
  "unseen adj seen = card (set (concat (map snd adj)) - set seen)"

lemma unseen_push:
  assumes "push_new seen stack (mm_get adj n) = (seen', stack')"
  shows "unseen adj seen' < unseen adj seen \<or> unseen adj seen' = unseen adj seen \<and> stack' = stack"
proof (cases "set (mm_get adj n) \<subseteq> set seen")
  case True
  with push_new_sets [OF assms] show ?thesis by (auto simp: unseen_def sup_absorb1)
next
  case False
  then obtain c where c: "c \<in> set (mm_get adj n)" "c \<notin> set seen" by blast
  then have "c \<in> set (concat (map snd adj))" by (blast intro: mm_get_in_concat)
  with c push_new_sets [OF assms]
  have "set (concat (map snd adj)) - set seen' \<subset> set (concat (map snd adj)) - set seen" by blast
  then show ?thesis unfolding unseen_def by (meson finite_Diff finite_set psubset_card_mono)
qed

function closure_loop :: "('a, 'a) multimap \<Rightarrow> 'a list \<Rightarrow> 'a list \<Rightarrow> 'a list" where
  "closure_loop adj seen [] = seen"
| "closure_loop adj seen (n # stack) =
     (case push_new seen stack (mm_get adj n) of
        (seen', stack') \<Rightarrow> closure_loop adj seen' stack')"
  by pat_completeness auto
termination
proof (relation "inv_image (less_than <*lex*> less_than)
    (\<lambda>(adj, seen, stack). (unseen adj seen, length stack))", goal_cases)
  case (2 adj seen n stack seen' stack')
  then have "push_new seen stack (mm_get adj n) = (seen', stack')" by simp
  from unseen_push [OF this] show ?case by auto
qed auto

definition closure :: "('a, 'a) multimap \<Rightarrow> 'a \<Rightarrow> 'a list" where
  "closure adj start = closure_loop adj [start] [start]"

lemma closure_loop_mono: "set seen \<subseteq> set (closure_loop adj seen stack)"
proof (induction adj seen stack rule: closure_loop.induct)
  case (2 adj seen n stack)
  obtain seen' stack' where p: "push_new seen stack (mm_get adj n) = (seen', stack')" by force
  with 2 [OF p [symmetric]] push_new_sets [OF p] show ?case by auto
qed simp

lemma closure_loop_set:
  assumes "set stack \<subseteq> set seen" "\<And>x. x \<in> set seen \<Longrightarrow> (s, x) \<in> (adj_rel adj)\<^sup>*"
    and "\<And>x y. x \<in> set seen \<Longrightarrow> x \<notin> set stack \<Longrightarrow> (x, y) \<in> adj_rel adj \<Longrightarrow> y \<in> set seen"
    and "s \<in> set seen"
  shows "set (closure_loop adj seen stack) = {x. (s, x) \<in> (adj_rel adj)\<^sup>*}"
  using assms
proof (induction adj seen stack rule: closure_loop.induct)
  case (1 adj seen)
  have "x \<in> set seen" if "(s, x) \<in> (adj_rel adj)\<^sup>*" for x
    using that
  proof (induction rule: rtrancl_induct)
    case base
    show ?case by (rule "1.prems"(4))
  next
    case (step y z)
    show ?case by (rule "1.prems"(3) [OF step.IH _ step.hyps(2)]) simp
  qed
  with "1.prems"(2) show ?case by auto
next
  case (2 adj seen n stack)
  obtain seen' stack' where p: "push_new seen stack (mm_get adj n) = (seen', stack')" by force
  have sets: "set seen' = set seen \<union> set (mm_get adj n)"
    "set stack' = set stack \<union> (set (mm_get adj n) - set seen)"
    using push_new_sets [OF p] by auto
  have "(s, n) \<in> (adj_rel adj)\<^sup>*" using "2.prems" by auto
  then have new: "(s, x) \<in> (adj_rel adj)\<^sup>*" if "x \<in> set (mm_get adj n)" for x
    using that by (auto simp: adj_rel_def intro: rtrancl_into_rtrancl)
  have "set (closure_loop adj seen' stack') = {x. (s, x) \<in> (adj_rel adj)\<^sup>*}"
  proof (rule "2.IH" [OF p [symmetric]])
    show "set stack' \<subseteq> set seen'" using sets "2.prems"(1) by auto
    show "(s, x) \<in> (adj_rel adj)\<^sup>*" if "x \<in> set seen'" for x
      using that sets new "2.prems"(2) by auto
    show "y \<in> set seen'" if "x \<in> set seen'" "x \<notin> set stack'" "(x, y) \<in> adj_rel adj" for x y
      using that sets "2.prems"(3) [of x y] by (cases "x = n") (auto simp: adj_rel_def)
    show "s \<in> set seen'" using sets "2.prems"(4) by simp
  qed
  then show ?case by (simp add: p)
qed

lemma set_closure: "set (closure adj s) = {x. (s, x) \<in> (adj_rel adj)\<^sup>*}"
  unfolding closure_def by (rule closure_loop_set) auto

subsection \<open>Stopping at a target\<close>

text \<open>
  The scan of the children stops at the target (\<open>None\<close>), whether or not it was visited.
\<close>

fun scan_target :: "'a \<Rightarrow> 'a list \<Rightarrow> 'a list \<Rightarrow> 'a list \<Rightarrow> ('a list \<times> 'a list) option" where
  "scan_target target seen stack [] = Some (seen, stack)"
| "scan_target target seen stack (c # cs) =
     (if c = target then None
      else if c \<in> set seen then scan_target target seen stack cs
      else scan_target target (c # seen) (c # stack) cs)"

lemma scan_target_push:
  "scan_target target seen stack cs =
   (if target \<in> set cs then None else Some (push_new seen stack cs))"
  by (induction target seen stack cs rule: scan_target.induct) auto

function reach_loop :: "('a, 'a) multimap \<Rightarrow> 'a \<Rightarrow> 'a list \<Rightarrow> 'a list \<Rightarrow> bool" where
  "reach_loop adj target seen [] = False"
| "reach_loop adj target seen (n # stack) =
     (case scan_target target seen stack (mm_get adj n) of
        None \<Rightarrow> True
      | Some (seen', stack') \<Rightarrow> reach_loop adj target seen' stack')"
  by pat_completeness auto
termination
proof (relation "inv_image (less_than <*lex*> less_than)
    (\<lambda>(adj, target, seen, stack). (unseen adj seen, length stack))", goal_cases)
  case (2 adj target seen n stack x seen' stack')
  then show ?case using unseen_push [of seen stack adj n seen' stack']
    by (auto simp: scan_target_push split: if_splits)
qed auto

definition reach_search :: "('a, 'a) multimap \<Rightarrow> 'a \<Rightarrow> 'a \<Rightarrow> bool" where
  "reach_search adj start target = reach_loop adj target [start] [start]"

lemma reach_loop_closure:
  assumes "set stack \<subseteq> set seen"
    "\<And>x. x \<in> set seen \<Longrightarrow> x \<notin> set stack \<Longrightarrow> target \<notin> set (mm_get adj x)"
  shows "reach_loop adj target seen stack \<longleftrightarrow>
    (\<exists>x \<in> set (closure_loop adj seen stack). target \<in> set (mm_get adj x))"
  using assms
proof (induction adj target seen stack rule: reach_loop.induct)
  case (1 adj target seen)
  then show ?case by auto
next
  case (2 adj target seen n stack)
  obtain seen' stack' where p: "push_new seen stack (mm_get adj n) = (seen', stack')" by force
  show ?case
  proof (cases "target \<in> set (mm_get adj n)")
    case True
    have "n \<in> set seen" using "2.prems"(1) by simp
    then have "n \<in> set (closure_loop adj seen (n # stack))"
      by (rule subsetD [OF closure_loop_mono])
    with True have "\<exists>x \<in> set (closure_loop adj seen (n # stack)). target \<in> set (mm_get adj x)"
      by (rule bexI)
    with True show ?thesis by (simp only: reach_loop.simps scan_target_push if_True option.case)
  next
    case False
    have "reach_loop adj target seen' stack' \<longleftrightarrow>
      (\<exists>x \<in> set (closure_loop adj seen' stack'). target \<in> set (mm_get adj x))"
    proof (rule "2.IH" [of "(seen', stack')" seen' stack'])
      show "scan_target target seen stack (mm_get adj n) = Some (seen', stack')"
        using False p by (simp add: scan_target_push)
      show "set stack' \<subseteq> set seen'" using push_new_sets [OF p] "2.prems"(1) by auto
      show "target \<notin> set (mm_get adj x)" if "x \<in> set seen'" "x \<notin> set stack'" for x
        using that push_new_sets [OF p] "2.prems"(2) [of x] False by (cases "x = n") auto
    qed simp
    with False p show ?thesis by (simp add: scan_target_push)
  qed
qed

lemma reach_search_iff: "reach_search adj s target \<longleftrightarrow> (s, target) \<in> (adj_rel adj)\<^sup>+"
proof -
  have "reach_search adj s target \<longleftrightarrow> (\<exists>x \<in> set (closure adj s). target \<in> set (mm_get adj x))"
    unfolding reach_search_def closure_def by (rule reach_loop_closure) auto
  also have "\<dots> \<longleftrightarrow> (\<exists>x. (s, x) \<in> (adj_rel adj)\<^sup>* \<and> (x, target) \<in> adj_rel adj)"
    by (auto simp: set_closure adj_rel_def)
  also have "\<dots> \<longleftrightarrow> (s, target) \<in> (adj_rel adj)\<^sup>+"
    by (meson rtrancl_into_trancl1 tranclE trancl_into_rtrancl rtrancl.rtrancl_refl)
  finally show ?thesis .
qed

subsection \<open>Marking when popped\<close>

text \<open>
  The walk pushes every child and skips what it pops a second time.  The result is the list
  of the nodes kept by \<open>keep\<close>, in the order of their first pop.
\<close>

function walk_loop ::
  "('a, 'a) multimap \<Rightarrow> ('a \<Rightarrow> bool) \<Rightarrow> 'a list \<Rightarrow> 'a list \<Rightarrow> 'a list" where
  "walk_loop adj keep visited [] = []"
| "walk_loop adj keep visited (n # stack) =
     (if n \<in> set visited then walk_loop adj keep visited stack
      else (if keep n then [n] else []) @
        walk_loop adj keep (n # visited) (rev (mm_get adj n) @ stack))"
  by pat_completeness auto
termination
proof (relation "inv_image (less_than <*lex*> less_than)
    (\<lambda>(adj, keep, visited, stack).
      (card ((set (map fst adj)) - set visited) + card (set stack \<union> set (concat (map snd adj)) - set visited),
       length stack))", goal_cases)
  case 1
  show ?case by auto
next
  case (2 adj keep visited n stack)
  then have "set (n # stack) \<union> set (concat (map snd adj)) - set visited =
      set stack \<union> set (concat (map snd adj)) - set visited"
    by auto
  then show ?case by simp
next
  case (3 adj keep visited n stack)
  have kids: "set (mm_get adj n) \<subseteq> set (concat (map snd adj))"
    by (blast intro: mm_get_in_concat)
  have "card (set (rev (mm_get adj n) @ stack) \<union> set (concat (map snd adj)) - set (n # visited))
      < card (set (n # stack) \<union> set (concat (map snd adj)) - set visited)"
    by (rule psubset_card_mono) (use 3 kids in auto)
  moreover have "card (set (map fst adj) - set (n # visited)) \<le> card (set (map fst adj) - set visited)"
    by (rule card_mono) auto
  ultimately show ?case by simp
qed

definition walk :: "('a, 'a) multimap \<Rightarrow> ('a \<Rightarrow> bool) \<Rightarrow> 'a \<Rightarrow> 'a list" where
  "walk adj keep start = walk_loop adj keep [] [start]"

lemma walk_loop_fresh:
  "set (walk_loop adj keep visited stack) \<inter> set visited = {} \<and>
   distinct (walk_loop adj keep visited stack)"
  by (induction adj keep visited stack rule: walk_loop.induct) auto

lemma walk_loop_set:
  assumes "\<And>x y. x \<in> set visited \<Longrightarrow> (x, y) \<in> adj_rel adj \<Longrightarrow> y \<in> set visited \<union> set stack"
  shows "set (walk_loop adj keep visited stack) \<union> {x \<in> set visited. keep x} =
    {x. keep x \<and> (x \<in> set visited \<or> (\<exists>s \<in> set stack. (s, x) \<in> (adj_rel adj)\<^sup>*))}"
  using assms
proof (induction adj keep visited stack rule: walk_loop.induct)
  case (1 adj keep visited)
  then show ?case by auto
next
  case (2 adj keep visited n stack)
  have closed: "x \<in> set visited \<or> (\<exists>s \<in> set stack. (s, x) \<in> (adj_rel adj)\<^sup>*)"
    if "(a, x) \<in> (adj_rel adj)\<^sup>*" "a \<in> set visited" "n \<in> set visited" for a x
    using that
  proof (induction rule: rtrancl_induct)
    case (step y z)
    then consider "y \<in> set visited" | s where "s \<in> set stack" "(s, y) \<in> (adj_rel adj)\<^sup>*" by blast
    then show ?case
    proof cases
      case 1
      with step.hyps(2) "2.prems" [of y z] \<open>n \<in> set visited\<close> show ?thesis by auto
    next
      case 2
      with step.hyps(2) show ?thesis by (blast intro: rtrancl_into_rtrancl)
    qed
  qed simp
  show ?case
  proof (cases "n \<in> set visited")
    case True
    have "set (walk_loop adj keep visited stack) \<union> {x \<in> set visited. keep x} =
      {x. keep x \<and> (x \<in> set visited \<or> (\<exists>s \<in> set stack. (s, x) \<in> (adj_rel adj)\<^sup>*))}"
      using "2.IH"(1) [OF True] "2.prems" True by auto
    with True closed [of n] show ?thesis by auto
  next
    case False
    have IH: "set (walk_loop adj keep (n # visited) (rev (mm_get adj n) @ stack)) \<union>
        {x \<in> set (n # visited). keep x} =
      {x. keep x \<and> (x \<in> set (n # visited) \<or>
        (\<exists>s \<in> set (rev (mm_get adj n) @ stack). (s, x) \<in> (adj_rel adj)\<^sup>*))}"
      by (rule "2.IH"(2) [OF False]) (use "2.prems" in \<open>auto simp: adj_rel_def\<close>)
    have split: "(n, x) \<in> (adj_rel adj)\<^sup>* \<longleftrightarrow> x = n \<or> (\<exists>s \<in> set (mm_get adj n). (s, x) \<in> (adj_rel adj)\<^sup>*)" for x
      by (auto simp: adj_rel_def elim: converse_rtranclE intro: converse_rtrancl_into_rtrancl)
    have "set (walk_loop adj keep visited (n # stack)) \<union> {x \<in> set visited. keep x} =
      set (walk_loop adj keep (n # visited) (rev (mm_get adj n) @ stack)) \<union>
        {x \<in> set (n # visited). keep x}"
      using False by auto
    with IH split show ?thesis by auto
  qed
qed

lemma walk_correct:
  "distinct (walk adj keep s)" "set (walk adj keep s) = {x. keep x \<and> (s, x) \<in> (adj_rel adj)\<^sup>*}"
  using walk_loop_fresh [of adj keep "[]" "[s]"] walk_loop_set [of "[]" adj "[s]" keep]
  by (auto simp: walk_def)

end
