(* ===== verification/Plan_DAG.thy ===== *)
theory Plan_DAG
  imports PM_Types Worklist
begin

section \<open>The dependency graph of a plan (plan_dag.go, decision_auto.go)\<close>

text \<open>
  Edges, the acyclicity guard, the loopback guard and the structural helpers of the
  control-flow decisions, from \<open>internal/projectmanager\<close>; the insert and delete primitives of
  the SQLite repository (\<open>sqlite/plan_repo.go\<close>) close the group, with the table of one plan
  as a list of rows.
\<close>

subsection \<open>Edges\<close>

datatype edge_kind = EdgeUnset | EdgeSeq | EdgeConditional | EdgeLoopback | EdgeKindOther gostring

definition NormalizeEdgeKind :: "edge_kind \<Rightarrow> edge_kind" where
  "NormalizeEdgeKind k = (if k = EdgeUnset then EdgeSeq else k)"

record dependency =
  dep_PlanID :: plan_id
  dep_From :: task_id
  dep_To :: task_id
  dep_Kind :: edge_kind
  dep_When :: gostring
  dep_MaxRounds :: int

definition IsLoopback :: "dependency \<Rightarrow> bool" where
  "IsLoopback d \<longleftrightarrow> NormalizeEdgeKind (dep_Kind d) = EdgeLoopback"

definition forwardEdges :: "dependency list \<Rightarrow> dependency list" where
  "forwardEdges edges = filter (\<lambda>e. \<not> IsLoopback e) edges"

lemma NormalizeEdgeKind_idem [simp]: "NormalizeEdgeKind (NormalizeEdgeKind k) = NormalizeEdgeKind k"
  by (simp add: NormalizeEdgeKind_def)

lemma set_forwardEdges [simp]: "set (forwardEdges es) = {e \<in> set es. \<not> IsLoopback e}"
  by (simp add: forwardEdges_def)

lemma forwardEdges_append [simp]: "forwardEdges (xs @ ys) = forwardEdges xs @ forwardEdges ys"
  by (simp add: forwardEdges_def)

text \<open>The forward graph: an edge points from a task to the task it depends on.\<close>

definition dep_rel :: "dependency list \<Rightarrow> (task_id \<times> task_id) set" where
  "dep_rel es = {(dep_From e, dep_To e) | e. e \<in> set es \<and> \<not> IsLoopback e}"

lemma dep_rel_iff: "(x, y) \<in> dep_rel es \<longleftrightarrow> (\<exists>e \<in> set es. \<not> IsLoopback e \<and> dep_From e = x \<and> dep_To e = y)"
  by (auto simp: dep_rel_def)

lemma dep_rel_mono: "set es \<subseteq> set fs \<Longrightarrow> dep_rel es \<subseteq> dep_rel fs"
  by (auto simp: dep_rel_def)

subsection \<open>Acyclicity\<close>

definition dag_adj :: "dependency list \<Rightarrow> (task_id, task_id) multimap" where
  "dag_adj edges = build_adj (map (\<lambda>e. (dep_From e, dep_To e)) (forwardEdges edges))"

definition dag_nodes :: "dependency list \<Rightarrow> task_id list" where
  "dag_nodes edges = remdups (concat (map (\<lambda>e. [dep_From e, dep_To e]) (forwardEdges edges)))"

definition ValidateNoCycle :: "(task_id list \<Rightarrow> task_id list) \<Rightarrow> dependency list \<Rightarrow> pm_error option" where
  "ValidateNoCycle ord edges =
     (if has_cycle (dag_adj edges) (range_order ord (dag_nodes edges)) then Some ErrPlanCycle else None)"

lemma dag_adj_edges: "y \<in> set (mm_get (dag_adj es) x) \<longleftrightarrow> (x, y) \<in> dep_rel es"
  unfolding dag_adj_def set_build_adj by (force simp: dep_rel_def)

interpretation plan_dag: dfs_graph dag_adj "\<lambda>es. range_order ord (dag_nodes es)" dep_rel
  for ord
  by unfold_locales (auto simp: dag_adj_edges dag_nodes_def dep_rel_def)

subsection \<open>Edge shape and loopbacks\<close>

definition ValidateControlEdgeShape :: "dependency \<Rightarrow> pm_error option" where
  "ValidateControlEdgeShape add =
     (case NormalizeEdgeKind (dep_Kind add) of
        EdgeSeq \<Rightarrow> None
      | EdgeConditional \<Rightarrow> if dep_When add = [] then Some ErrConditionalNeedsWhen else None
      | EdgeLoopback \<Rightarrow> None
      | _ \<Rightarrow> Some ErrInvalidEdgeKind)"

definition execAdjacency :: "dependency list \<Rightarrow> (task_id, task_id) multimap" where
  "execAdjacency fwd = build_adj (map (\<lambda>e. (dep_To e, dep_From e)) fwd)"

definition execReachable :: "dependency list \<Rightarrow> task_id \<Rightarrow> task_id \<Rightarrow> bool" where
  "execReachable fwd start target = reach_search (execAdjacency fwd) start target"

definition ValidateLoopback :: "dependency list \<Rightarrow> dependency \<Rightarrow> pm_error option" where
  "ValidateLoopback existing add =
     (if \<not> IsLoopback add then None
      else if dep_When add = [] \<or> dep_MaxRounds add < 1 then Some ErrInvalidLoopback
      else if dep_From add = dep_To add then Some ErrInvalidLoopback
      else if \<not> execReachable (forwardEdges existing) (dep_To add) (dep_From add)
        then Some ErrInvalidLoopback
      else None)"

definition WouldCreateCycle ::
  "(task_id list \<Rightarrow> task_id list) \<Rightarrow> dependency list \<Rightarrow> dependency \<Rightarrow> pm_error option" where
  "WouldCreateCycle ord existing add =
     (if IsLoopback add then ValidateLoopback existing add
      else if dep_From add = dep_To add then Some ErrSelfDependency
      else ValidateNoCycle ord (existing @ [add]))"

text \<open>Execution runs against the dependency edges.\<close>

lemma execAdjacency_rel: "adj_rel (execAdjacency (forwardEdges es)) = (dep_rel es)\<inverse>"
proof -
  have "(x, y) \<in> adj_rel (execAdjacency (forwardEdges es)) \<longleftrightarrow> (y, x) \<in> dep_rel es" for x y
    unfolding adj_rel_def execAdjacency_def by (simp only: mem_Collect_eq case_prod_conv set_build_adj)
      (force simp: dep_rel_def)
  then show ?thesis by auto
qed

lemma execReachable_iff: "execReachable (forwardEdges es) s t \<longleftrightarrow> (t, s) \<in> (dep_rel es)\<^sup>+"
  unfolding execReachable_def by (simp add: reach_search_iff execAdjacency_rel trancl_converse)

lemma ValidateNoCycle_None: "ValidateNoCycle ord es = None \<longleftrightarrow> acyclic (dep_rel es)"
  by (simp add: ValidateNoCycle_def plan_dag.check_iff)

lemma ValidateLoopback_None:
  "ValidateLoopback es d = None \<longleftrightarrow>
   \<not> IsLoopback d \<or> dep_When d \<noteq> [] \<and> 1 \<le> dep_MaxRounds d \<and> dep_From d \<noteq> dep_To d \<and>
     (dep_From d, dep_To d) \<in> (dep_rel es)\<^sup>+"
  by (auto simp: ValidateLoopback_def execReachable_iff)

subsection \<open>The nodes a loopback re-runs\<close>

definition depAdjacency :: "dependency list \<Rightarrow> (task_id, task_id) multimap" where
  "depAdjacency fwd = build_adj (map (\<lambda>e. (dep_From e, dep_To e)) fwd)"

definition LoopbackResetSet :: "dependency list \<Rightarrow> task_id \<Rightarrow> task_id \<Rightarrow> task_id list" where
  "LoopbackResetSet edges to from =
     (let fwd = forwardEdges edges;
          execAdj = execAdjacency fwd;
          depAdj = depAdjacency fwd;
          afterTo = closure execAdj to;
          beforeFrom = closure depAdj from
      in walk execAdj (\<lambda>n. n \<in> set afterTo \<and> n \<in> set beforeFrom) to)"

lemma depAdjacency_rel: "adj_rel (depAdjacency (forwardEdges es)) = dep_rel es"
  unfolding adj_rel_def depAdjacency_def set_build_adj by (force simp: dep_rel_def)

lemma LoopbackResetSet_set:
  "set (LoopbackResetSet es to from) = {n. (n, to) \<in> (dep_rel es)\<^sup>* \<and> (from, n) \<in> (dep_rel es)\<^sup>*}"
  "distinct (LoopbackResetSet es to from)"
  unfolding LoopbackResetSet_def Let_def
  by (auto simp: walk_correct set_closure execAdjacency_rel depAdjacency_rel rtrancl_converse)

subsection \<open>Decision helpers\<close>

definition OutcomePass :: gostring where "OutcomePass = ''pass''"
definition OutcomeReject :: gostring where "OutcomeReject = ''reject''"
definition ReviewPass :: gostring where "ReviewPass = ''pass''"
definition ReviewReject :: gostring where "ReviewReject = ''reject''"

definition ValidReviewVerdict :: "gostring \<Rightarrow> bool" where
  "ValidReviewVerdict v \<longleftrightarrow> v = ReviewPass \<or> v = ReviewReject"

fun IsDecisionNode :: "dependency list \<Rightarrow> task_id \<Rightarrow> bool" where
  "IsDecisionNode [] tid = False"
| "IsDecisionNode (e # es) tid =
     (if IsLoopback e \<and> dep_From e = tid then True
      else if NormalizeEdgeKind (dep_Kind e) = EdgeConditional \<and> dep_To e = tid then True
      else IsDecisionNode es tid)"

definition DecisionForReview :: "dependency list \<Rightarrow> task_id \<Rightarrow> task_id option" where
  "DecisionForReview edges reviewID =
     map_option dep_From
       (List.find (\<lambda>e. \<not> IsLoopback e \<and> dep_To e = reviewID \<and> IsDecisionNode edges (dep_From e)) edges)"

definition ForwardUpstreams :: "dependency list \<Rightarrow> task_id \<Rightarrow> task_id list" where
  "ForwardUpstreams edges tid = [dep_To e. e \<leftarrow> edges, \<not> IsLoopback e, dep_From e = tid]"

definition LoopbackTargetOf :: "dependency list \<Rightarrow> task_id \<Rightarrow> task_id option" where
  "LoopbackTargetOf edges decisionID =
     map_option dep_To (List.find (\<lambda>e. IsLoopback e \<and> dep_From e = decisionID) edges)"

lemma IsDecisionNode_iff:
  "IsDecisionNode es tid \<longleftrightarrow>
   (\<exists>e \<in> set es. IsLoopback e \<and> dep_From e = tid \<or>
      NormalizeEdgeKind (dep_Kind e) = EdgeConditional \<and> dep_To e = tid)"
  by (induction es) auto

subsection \<open>The repository's edge table\<close>

text \<open>
  \<open>rows\<close> is the table of one plan as \<open>ListDependencies\<close> returns it.  The primary key
  is the pair of endpoints, so an insert of a pair that is present is refused by the database
  (\<open>ErrNew\<close>), and a delete removes the row of the pair whatever its kind.  The kind is
  normalised on write.  The rows are listed in insertion order instead of being sorted by their
  endpoints: the guards below read them as a set.
\<close>

definition normalize_row :: "dependency \<Rightarrow> dependency" where
  "normalize_row d = d\<lparr>dep_Kind := NormalizeEdgeKind (dep_Kind d)\<rparr>"

definition same_pair :: "dependency \<Rightarrow> dependency \<Rightarrow> bool" where
  "same_pair d e \<longleftrightarrow> dep_From d = dep_From e \<and> dep_To d = dep_To e"

definition AddDependency ::
  "(task_id list \<Rightarrow> task_id list) \<Rightarrow> dependency \<Rightarrow> dependency list \<Rightarrow> pm_error + dependency list" where
  "AddDependency ord d rows =
     (case WouldCreateCycle ord rows d of
        Some e \<Rightarrow> Err e
      | None \<Rightarrow>
          if list_ex (same_pair d) rows then Err (ErrNew ''UNIQUE constraint failed'')
          else Ok (rows @ [normalize_row d]))"

definition RemoveDependency :: "dependency \<Rightarrow> dependency list \<Rightarrow> dependency list" where
  "RemoveDependency d rows = filter (\<lambda>e. \<not> same_pair d e) rows"

lemma normalize_row_simps [simp]:
  "dep_From (normalize_row d) = dep_From d" "dep_To (normalize_row d) = dep_To d"
  "dep_When (normalize_row d) = dep_When d" "dep_MaxRounds (normalize_row d) = dep_MaxRounds d"
  "IsLoopback (normalize_row d) = IsLoopback d"
  "normalize_row (normalize_row d) = normalize_row d"
  by (simp_all add: normalize_row_def IsLoopback_def)

lemma dep_rel_add: "dep_rel (rows @ [normalize_row d]) = dep_rel (rows @ [d])"
  by (auto simp: dep_rel_iff)

subsection \<open>Properties\<close>

text \<open>
  The cycle check is exact.  For every order in which the runtime may iterate the node
  map, \<open>ValidateNoCycle\<close> answers \<open>ErrPlanCycle\<close> if and only if the forward edges, seq and
  conditional, contain a cycle; loopback edges never count.
\<close>

theorem plan_cycle_check:
  "ValidateNoCycle ord es = (if acyclic (dep_rel es) then None else Some ErrPlanCycle)"
  by (simp add: ValidateNoCycle_def plan_dag.check_iff)

text \<open>
  the guard of an edge insert accepts exactly the right edges.  On an acyclic plan a
  forward edge passes if and only if its target is not its source and does not already depend
  on it, directly or not; a loopback edge passes if and only if it has an outcome label and a
  round bound of at least one, and its source depends on its target along forward edges.
\<close>

theorem plan_edge_guard:
  assumes "acyclic (dep_rel es)"
  shows "WouldCreateCycle ord es d = None \<longleftrightarrow>
    (if IsLoopback d
     then dep_When d \<noteq> [] \<and> 1 \<le> dep_MaxRounds d \<and> (dep_From d, dep_To d) \<in> (dep_rel es)\<^sup>+
     else (dep_To d, dep_From d) \<notin> (dep_rel es)\<^sup>*)"
proof (cases "IsLoopback d")
  case True
  moreover from assms have "(dep_From d, dep_To d) \<in> (dep_rel es)\<^sup>+ \<Longrightarrow> dep_From d \<noteq> dep_To d"
    by (auto simp: acyclic_def)
  ultimately show ?thesis
    by (auto simp: WouldCreateCycle_def ValidateLoopback_None)
next
  case False
  then have "dep_rel (es @ [d]) = insert (dep_From d, dep_To d) (dep_rel es)"
    by (auto simp: dep_rel_def)
  with False assms show ?thesis
    by (auto simp: WouldCreateCycle_def ValidateNoCycle_None acyclic_insert)
qed

definition sample_edge :: "gostring \<Rightarrow> gostring \<Rightarrow> edge_kind \<Rightarrow> gostring \<Rightarrow> int \<Rightarrow> dependency" where
  "sample_edge f t k w n = \<lparr>dep_PlanID = ''pl1'', dep_From = f, dep_To = t, dep_Kind = k,
     dep_When = w, dep_MaxRounds = n\<rparr>"

definition sample_edges :: "dependency list" where
  "sample_edges = [sample_edge ''review'' ''dev'' EdgeUnset [] 0,
     sample_edge ''decide'' ''review'' EdgeSeq [] 0,
     sample_edge ''ship'' ''decide'' EdgeConditional ''pass'' 0]"

definition sample_loop :: dependency where
  "sample_loop = sample_edge ''decide'' ''dev'' EdgeLoopback ''reject'' 2"

lemma sample_edges_acyclic: "acyclic (dep_rel sample_edges)"
proof -
  have "ValidateNoCycle id sample_edges = None" by code_simp
  then show ?thesis by (simp add: ValidateNoCycle_None)
qed

theorem plan_edge_guard_witness:
  "(''decide'', ''dev'') \<in> (dep_rel sample_edges)\<^sup>+ \<and> WouldCreateCycle id sample_edges sample_loop = None"
proof -
  have "WouldCreateCycle id sample_edges sample_loop = None" "IsLoopback sample_loop"
    "dep_From sample_loop = ''decide''" "dep_To sample_loop = ''dev''"
    by code_simp+
  with plan_edge_guard [OF sample_edges_acyclic, of id sample_loop] show ?thesis by simp
qed

text \<open>
  The life of a plan's edge table: inserts through the guard and unconditional deletes, each
  insert with its own map iteration order.
\<close>

datatype edge_op = AddEdge "task_id list \<Rightarrow> task_id list" dependency | RemoveEdge dependency

fun edge_exec :: "edge_op \<Rightarrow> dependency list \<Rightarrow> pm_error + dependency list" where
  "edge_exec (AddEdge ord d) rows = AddDependency ord d rows"
| "edge_exec (RemoveEdge d) rows = Ok (RemoveDependency d rows)"

definition edges_ok :: "dependency list \<Rightarrow> bool" where
  "edges_ok rows \<longleftrightarrow>
     acyclic (dep_rel rows) \<and> distinct (map (\<lambda>e. (dep_From e, dep_To e)) rows) \<and>
     (\<forall>e \<in> set rows. dep_From e \<noteq> dep_To e \<and> dep_Kind e \<noteq> EdgeUnset \<and>
        (IsLoopback e \<longrightarrow> dep_When e \<noteq> [] \<and> 1 \<le> dep_MaxRounds e))"

lemma edge_exec_ok: "edge_exec op rows = Ok rows' \<Longrightarrow> edges_ok rows \<Longrightarrow> edges_ok rows'"
proof (cases op)
  case (AddEdge ord d)
  assume "edge_exec op rows = Ok rows'" and ok: "edges_ok rows"
  with AddEdge have g: "WouldCreateCycle ord rows d = None" and fresh: "\<not> list_ex (same_pair d) rows"
    and r: "rows' = rows @ [normalize_row d]"
    by (auto simp: AddDependency_def split: option.splits if_splits)
  have "acyclic (dep_rel rows')"
  proof (cases "IsLoopback d")
    case True
    then have "dep_rel rows' = dep_rel rows" by (auto simp: r dep_rel_iff)
    with ok show ?thesis by (simp add: edges_ok_def)
  next
    case False
    with g show ?thesis
      by (auto simp: WouldCreateCycle_def ValidateNoCycle_None r dep_rel_add split: if_splits)
  qed
  moreover have "dep_From d \<noteq> dep_To d \<and> (IsLoopback d \<longrightarrow> dep_When d \<noteq> [] \<and> 1 \<le> dep_MaxRounds d)"
    using g by (auto simp: WouldCreateCycle_def ValidateLoopback_None split: if_splits)
  moreover have "dep_Kind (normalize_row d) \<noteq> EdgeUnset"
    by (simp add: normalize_row_def NormalizeEdgeKind_def)
  ultimately show "edges_ok rows'"
    using ok fresh by (auto simp: edges_ok_def r list_ex_iff same_pair_def)
next
  case (RemoveEdge d)
  assume "edge_exec op rows = Ok rows'" and ok: "edges_ok rows"
  with RemoveEdge have r: "rows' = RemoveDependency d rows" by simp
  have "dep_rel rows' \<subseteq> dep_rel rows"
    by (rule dep_rel_mono) (auto simp: r RemoveDependency_def)
  with ok have "acyclic (dep_rel rows')" by (auto simp: edges_ok_def intro: acyclic_subset)
  with ok show "edges_ok rows'"
    by (auto simp: edges_ok_def r RemoveDependency_def distinct_map inj_on_def)
qed

interpretation edge_hist: history edge_exec "\<lambda>rows rows'. edges_ok rows \<longrightarrow> edges_ok rows'"
  by unfold_locales (auto dest: edge_exec_ok)

text \<open>
  C37: the stored graph stays sound.  Starting from the empty table, after any sequence of
  inserts and deletes the forward graph is acyclic, no edge is a self edge, at most one row
  joins two tasks, every kind is explicit and every loopback row has a label and a bound.
\<close>

theorem plan_edges_sound:
  "edges_ok (run_ops edge_exec ops [])"
  using edge_hist.run_rel [of "[]" ops] by (simp add: edges_ok_def dep_rel_def acyclic_def)

text \<open>
  the nodes a fired loopback re-runs are those on the execution paths from its target to
  the decision.  For a loopback that the guard accepts, \<open>LoopbackResetSet\<close> lists exactly the
  tasks that depend on the target, directly or not, and that the decision depends on, each
  once and both ends included.
\<close>

theorem loopback_reset_exact:
  assumes "IsLoopback d" "ValidateLoopback es d = None"
  shows "distinct (LoopbackResetSet es (dep_To d) (dep_From d)) \<and>
    (n \<in> set (LoopbackResetSet es (dep_To d) (dep_From d)) \<longleftrightarrow>
      n = dep_To d \<or> n = dep_From d \<or>
      (n, dep_To d) \<in> (dep_rel es)\<^sup>+ \<and> (dep_From d, n) \<in> (dep_rel es)\<^sup>+)"
proof -
  have "(dep_From d, dep_To d) \<in> (dep_rel es)\<^sup>+"
    using assms by (simp add: ValidateLoopback_None)
  then show ?thesis
    by (auto simp: LoopbackResetSet_set rtrancl_eq_or_trancl)
qed

theorem loopback_reset_exact_witness:
  "(''review'', ''dev'') \<in> (dep_rel sample_edges)\<^sup>+"
proof -
  have h: "IsLoopback sample_loop" "ValidateLoopback sample_edges sample_loop = None"
    "''review'' \<in> set (LoopbackResetSet sample_edges (dep_To sample_loop) (dep_From sample_loop))"
    "dep_To sample_loop = ''dev''" "dep_From sample_loop = ''decide''"
    by code_simp+
  from loopback_reset_exact [OF h(1,2), of "''review''"] h(3-5) show ?thesis by simp
qed

end
