(* ===== verification/Plan_Topology.thy ===== *)
theory Plan_Topology
  imports Plan_DAG Plan Task "HOL-Library.List_Lexorder" "HOL-Library.Char_ord" "HOL-Library.Product_Lexorder"
begin

section \<open>Batch edits of a plan's topology (service/plan_topology_edit.go)\<close>

text \<open>
  \<open>EditPlanTopology\<close> applies a batch of operations to an in-memory copy of the node and edge
  set, validates the result only, moves the tasks that enter or leave the plan, and persists the
  difference of the edges through the guarded inserts of \<open>Plan_DAG\<close>.  The code admits pending
  plans only, so its branches for a running plan are unreachable and not modelled.  The removal of
  a moved task from its assignment pool, the event to the conversation and the audit entry write
  tables that nothing here reads; they are left out and taken to succeed.  The membership and
  project checks before the transaction's own work are the parameter \<open>access\<close>, and every \<open>ord\<close>
  is the iteration order of a map.
\<close>

subsection \<open>The work model\<close>

datatype topology_op =
    OpAddNode task_id
  | OpRemoveNode task_id
  | OpAddEdge task_id task_id edge_kind gostring int
  | OpRemoveEdge task_id task_id
  | OpUnknown gostring

record work_model =
  wm_nodes :: "task_id list"
  wm_edges :: "(gostring \<times> dependency) list"

definition edgePairKey :: "task_id \<Rightarrow> task_id \<Rightarrow> gostring" where
  "edgePairKey from to = from @ [CHR 0x00] @ to"

definition newTopoWorkModel :: "task_id list \<Rightarrow> dependency list \<Rightarrow> work_model" where
  "newTopoWorkModel nodes edges =
     \<lparr>wm_nodes = nodes,
      wm_edges = fold (\<lambda>e m. AList.update (edgePairKey (dep_From e) (dep_To e)) e m) edges []\<rparr>"

definition apply_op :: "topology_op \<Rightarrow> work_model \<Rightarrow> pm_error + work_model" where
  "apply_op op wm =
     (case op of
        OpAddNode n \<Rightarrow>
          if blank n then Err ErrInvalidStatus else Ok (wm\<lparr>wm_nodes := List.insert n (wm_nodes wm)\<rparr>)
      | OpRemoveNode n \<Rightarrow>
          if blank n then Err ErrInvalidStatus
          else Ok (wm\<lparr>wm_nodes := removeAll n (wm_nodes wm),
                      wm_edges := filter (\<lambda>(k, e). \<not> (dep_From e = n \<or> dep_To e = n)) (wm_edges wm)\<rparr>)
      | OpAddEdge f t k w r \<Rightarrow>
          if blank f \<or> blank t then Err ErrInvalidStatus
          else Ok (wm\<lparr>wm_edges := AList.update (edgePairKey f t)
                 \<lparr>dep_PlanID = [], dep_From = f, dep_To = t, dep_Kind = NormalizeEdgeKind k,
                  dep_When = w, dep_MaxRounds = r\<rparr> (wm_edges wm)\<rparr>)
      | OpRemoveEdge f t \<Rightarrow>
          if blank f \<or> blank t then Err ErrInvalidStatus
          else Ok (wm\<lparr>wm_edges := AList.delete (edgePairKey f t) (wm_edges wm)\<rparr>)
      | OpUnknown _ \<Rightarrow> Err ErrInvalidStatus)"

fun topo_apply :: "topology_op list \<Rightarrow> work_model \<Rightarrow> pm_error + work_model" where
  "topo_apply [] wm = Ok wm"
| "topo_apply (op # ops) wm =
     (case apply_op op wm of Err e \<Rightarrow> Err e | Ok wm' \<Rightarrow> topo_apply ops wm')"

definition edgeList :: "(dependency list \<Rightarrow> dependency list) \<Rightarrow> work_model \<Rightarrow> dependency list" where
  "edgeList ord wm = sort_key (\<lambda>e. (dep_From e, dep_To e)) (range_order ord (map snd (wm_edges wm)))"

definition nodeDiff :: "task_id list \<Rightarrow> work_model \<Rightarrow> task_id list \<times> task_id list" where
  "nodeDiff cur wm =
     (sort (filter (\<lambda>n. n \<notin> set cur) (wm_nodes wm)),
      sort (filter (\<lambda>n. n \<notin> set (wm_nodes wm)) cur))"

subsection \<open>The edge difference\<close>

definition edge_kind_text :: "edge_kind \<Rightarrow> gostring" where
  "edge_kind_text k =
     (case k of EdgeUnset \<Rightarrow> [] | EdgeSeq \<Rightarrow> ''seq'' | EdgeConditional \<Rightarrow> ''conditional''
      | EdgeLoopback \<Rightarrow> ''loopback'' | EdgeKindOther s \<Rightarrow> s)"

definition edgeFullSig :: "dependency \<Rightarrow> gostring" where
  "edgeFullSig e = dep_From e @ ''|'' @ dep_To e @ ''|'' @ edge_kind_text (NormalizeEdgeKind (dep_Kind e)) @ ''|'' @
     dep_When e @ ''|'' @ Itoa (dep_MaxRounds e)"

definition edgeDiff ::
  "(dependency list \<Rightarrow> dependency list) \<Rightarrow> dependency list \<Rightarrow> dependency list
     \<Rightarrow> dependency list \<times> dependency list" where
  "edgeDiff ord cur final =
     (let curSig = fold (\<lambda>e m. AList.update (edgeFullSig e) e m) cur [];
          finalSig = fold (\<lambda>e m. AList.update (edgeFullSig e) e m) final []
      in (range_order ord (map snd (filter (\<lambda>se. map_of finalSig (fst se) = None) curSig)),
          range_order ord (map snd (filter (\<lambda>se. map_of curSig (fst se) = None) finalSig))))"

subsection \<open>Validation and persistence\<close>

fun first_error :: "('a \<Rightarrow> 'e option) \<Rightarrow> 'a list \<Rightarrow> 'e option" where
  "first_error f [] = None"
| "first_error f (x # xs) = (case f x of Some e \<Rightarrow> Some e | None \<Rightarrow> first_error f xs)"

lemma first_error_None: "first_error f xs = None \<longleftrightarrow> (\<forall>x \<in> set xs. f x = None)"
  by (induction xs) (auto split: option.splits)

definition validate_terminal ::
  "(task_id list \<Rightarrow> task_id list) \<Rightarrow> task_id list \<Rightarrow> dependency list \<Rightarrow> pm_error option" where
  "validate_terminal ord nodes finalEdges =
     (case first_error (\<lambda>e. if dep_From e \<notin> set nodes \<or> dep_To e \<notin> set nodes
                            then Some ErrPlanProjectMismatch else ValidateControlEdgeShape e) finalEdges of
        Some e \<Rightarrow> Some e
      | None \<Rightarrow>
          (case ValidateNoCycle ord finalEdges of
             Some e \<Rightarrow> Some e
           | None \<Rightarrow> first_error
               (\<lambda>e. case (if IsLoopback e then ValidateLoopback finalEdges e else None) of
                      Some err \<Rightarrow> Some err
                    | None \<Rightarrow> if dep_From e = dep_To e then Some ErrSelfDependency else None)
               finalEdges))"

fun add_all ::
  "(task_id list \<Rightarrow> task_id list) \<Rightarrow> plan_id \<Rightarrow> dependency list \<Rightarrow> dependency list
     \<Rightarrow> pm_error + dependency list" where
  "add_all ord planID [] rows = Ok rows"
| "add_all ord planID (e # es) rows =
     (case AddDependency ord (e\<lparr>dep_PlanID := planID\<rparr>) rows of
        Err err \<Rightarrow> Err err
      | Ok rows' \<Rightarrow> add_all ord planID es rows')"

text \<open>
  The stable sort that puts forward edges before loopbacks is the two filters in a row.
\<close>

definition persist_edges ::
  "(task_id list \<Rightarrow> task_id list) \<Rightarrow> (dependency list \<Rightarrow> dependency list) \<Rightarrow> plan_id
     \<Rightarrow> dependency list \<Rightarrow> dependency list \<Rightarrow> pm_error + dependency list" where
  "persist_edges ord eord planID curEdges finalEdges =
     (let (toRemove, toAdd) = edgeDiff eord curEdges finalEdges;
          rows = fold RemoveDependency toRemove curEdges
      in add_all ord planID (filter (\<lambda>e. \<not> IsLoopback e) toAdd @ filter IsLoopback toAdd) rows)"

text \<open>
  The tasks table is the list of its tasks, one per id, each as \<open>FindByID\<close> returns it.
\<close>

definition topo_task :: "task_id \<Rightarrow> task list \<Rightarrow> task option" where
  "topo_task n ts = List.find (\<lambda>t. t_id t = n) ts"

definition tasks_update :: "task \<Rightarrow> task list \<Rightarrow> task list" where
  "tasks_update t' ts = map (\<lambda>t. if t_id t = t_id t' then t' else t) ts"

definition tasks_ListByPlan :: "plan_id \<Rightarrow> task list \<Rightarrow> task list" where
  "tasks_ListByPlan pid ts = filter (\<lambda>t. t_planID t = pid) ts"

definition resolve_node :: "plan \<Rightarrow> task list \<Rightarrow> task_id \<Rightarrow> pm_error option" where
  "resolve_node p ts n =
     (case topo_task n ts of
        None \<Rightarrow> Some ErrTaskNotFound
      | Some t \<Rightarrow>
          if t_projectID t \<noteq> p_projectID p then Some ErrPlanProjectMismatch
          else if t_planID t \<noteq> [] \<and> t_planID t \<noteq> p_id p then Some ErrTaskInOtherPlan
          else None)"

fun select_nodes :: "plan_id \<Rightarrow> time \<Rightarrow> task_id list \<Rightarrow> task list \<Rightarrow> pm_error + task list" where
  "select_nodes pid now [] ts = Ok ts"
| "select_nodes pid now (n # ns) ts =
     (case topo_task n ts of
        None \<Rightarrow> select_nodes pid now ns ts
      | Some t \<Rightarrow>
          if t_planID t = pid then select_nodes pid now ns ts
          else case task_SetPlan pid now now t of
            Err e \<Rightarrow> Err e
          | Ok t' \<Rightarrow> select_nodes pid now ns (tasks_update t' ts))"

fun clear_nodes :: "time \<Rightarrow> task_id list \<Rightarrow> task list \<Rightarrow> pm_error + task list" where
  "clear_nodes now [] ts = Ok ts"
| "clear_nodes now (n # ns) ts =
     (case topo_task n ts of
        None \<Rightarrow> clear_nodes now ns ts
      | Some t \<Rightarrow>
          (case task_ClearPlan now now t of
             Err e \<Rightarrow> Err e
           | Ok t' \<Rightarrow> clear_nodes now ns (tasks_update t' ts)))"

text \<open>
  The deletions of edges, which come before the removed nodes are cleared and cannot fail, are
  in \<open>persist_edges\<close>.
\<close>

definition EditPlanTopology ::
  "(task_id list \<Rightarrow> task_id list) \<Rightarrow> (dependency list \<Rightarrow> dependency list) \<Rightarrow> pm_error option
     \<Rightarrow> int \<Rightarrow> topology_op list \<Rightarrow> time \<Rightarrow> plan \<Rightarrow> task list \<Rightarrow> dependency list
     \<Rightarrow> pm_error + plan \<times> task list \<times> dependency list" where
  "EditPlanTopology ord eord access baseVersion ops now p tasks curEdges =
     (case access of Some e \<Rightarrow> Err e | None \<Rightarrow>
      if p_builtin p then Err ErrBuiltinPlanNoEdges
      else if p_status p = PlanDiscarded then Err ErrPlanArchived
      else if p_status p \<noteq> PlanPending then Err ErrPlanNotPending
      else if p_version p \<noteq> baseVersion then Err ErrPlanVersionConflict
      else let curNodes = map t_id (tasks_ListByPlan (p_id p) tasks) in
      case topo_apply ops (newTopoWorkModel curNodes curEdges) of
        Err e \<Rightarrow> Err e
      | Ok wm \<Rightarrow>
         (case first_error (\<lambda>n. if n \<in> set curNodes then None else resolve_node p tasks n)
                 (range_order ord (wm_nodes wm)) of
            Some e \<Rightarrow> Err e
          | None \<Rightarrow>
             (let finalEdges = edgeList eord wm in
              case validate_terminal ord (wm_nodes wm) finalEdges of
                Some e \<Rightarrow> Err e
              | None \<Rightarrow>
                  (let (added, removed) = nodeDiff curNodes wm in
                   case select_nodes (p_id p) now added tasks of
                     Err e \<Rightarrow> Err e
                   | Ok tasks1 \<Rightarrow>
                       (case clear_nodes now removed tasks1 of
                          Err e \<Rightarrow> Err e
                        | Ok tasks2 \<Rightarrow>
                            (case persist_edges ord eord (p_id p) curEdges finalEdges of
                               Err e \<Rightarrow> Err e
                             | Ok rows \<Rightarrow> Ok (plan_SetVersion (baseVersion + 1) now now p, tasks2, rows)))))))"

subsection \<open>Maps built by a loop of updates\<close>

lemma set_update_subset: "set (AList.update k v xs) \<subseteq> insert (k, v) (set xs)"
  by (induction xs) auto

lemma keys_update: "fst ` set (AList.update k v xs) = insert k (fst ` set xs)"
  by (induction xs) auto

lemma fold_update_distinct:
  "distinct (map fst m) \<Longrightarrow> distinct (map fst (fold (\<lambda>e. AList.update (f e) e) es m))"
  by (induction es arbitrary: m) (simp_all add: distinct_update)

lemma fold_update_keys:
  "fst ` set (fold (\<lambda>e. AList.update (f e) e) es m) = fst ` set m \<union> f ` set es"
  by (induction es arbitrary: m) (simp_all add: keys_update)

lemma fold_update_subset:
  "set (fold (\<lambda>e. AList.update (f e) e) es m) \<subseteq> set m \<union> (\<lambda>e. (f e, e)) ` set es"
proof (induction es arbitrary: m)
  case (Cons e es)
  have "set (fold (\<lambda>e. AList.update (f e) e) es (AList.update (f e) e m))
      \<subseteq> set (AList.update (f e) e m) \<union> (\<lambda>e. (f e, e)) ` set es"
    by (rule Cons)
  also have "\<dots> \<subseteq> set m \<union> (\<lambda>e. (f e, e)) ` set (e # es)"
    using set_update_subset [of "f e" e m] unfolding list.set image_insert by blast
  finally show ?case by (simp only: fold_simps)
qed simp

lemmas fold_update_facts = fold_update_distinct fold_update_keys fold_update_subset

lemma fold_update_inj:
  assumes "inj_on f (set es)"
  shows "set (fold (\<lambda>e. AList.update (f e) e) es []) = (\<lambda>e. (f e, e)) ` set es"
proof -
  let ?r = "fold (\<lambda>e. AList.update (f e) e) es []"
  have keys: "fst ` set ?r = f ` set es" and sub: "set ?r \<subseteq> (\<lambda>e. (f e, e)) ` set es"
    using fold_update_keys [of f es "[]"] fold_update_subset [of f es "[]"] by simp_all
  have "(f e, e) \<in> set ?r" if "e \<in> set es" for e
  proof -
    have "f e \<in> fst ` set ?r"
      unfolding keys using that by (rule imageI)
    then obtain y where y: "y \<in> set ?r" "f e = fst y" by (rule imageE)
    from subsetD [OF sub y(1)] obtain e' where e': "y = (f e', e')" "e' \<in> set es" by (rule imageE)
    with y(2) have "e = e'" using inj_onD [OF assms _ that] by simp
    with y(1) e'(1) show ?thesis by simp
  qed
  then show ?thesis using sub by blast
qed

subsection \<open>The work model keeps one edge per pair\<close>

definition wm_ok :: "work_model \<Rightarrow> bool" where
  "wm_ok wm \<longleftrightarrow> distinct (wm_nodes wm) \<and> distinct (map fst (wm_edges wm)) \<and>
     (\<forall>(k, e) \<in> set (wm_edges wm). k = edgePairKey (dep_From e) (dep_To e) \<and> dep_Kind e \<noteq> EdgeUnset)"

lemma wm_ok_new:
  assumes "distinct nodes" "\<And>e. e \<in> set edges \<Longrightarrow> dep_Kind e \<noteq> EdgeUnset"
  shows "wm_ok (newTopoWorkModel nodes edges)"
  using fold_update_subset [of "\<lambda>e. edgePairKey (dep_From e) (dep_To e)" edges "[]"] assms
  by (auto simp: wm_ok_def newTopoWorkModel_def fold_update_distinct)

lemma distinct_filter_keys: "distinct (map fst xs) \<Longrightarrow> distinct (map fst (filter P xs))"
  by (induction xs) auto

lemma apply_op_ok: "apply_op op wm = Ok wm' \<Longrightarrow> wm_ok wm \<Longrightarrow> wm_ok wm'"
  using set_update_subset
  by (fastforce simp: apply_op_def wm_ok_def distinct_update distinct_delete NormalizeEdgeKind_def
      distinct_filter_keys AList.delete_eq distinct_removeAll split: topology_op.splits if_splits)

lemma topo_apply_ok: "topo_apply ops wm = Ok wm' \<Longrightarrow> wm_ok wm \<Longrightarrow> wm_ok wm'"
  by (induction ops wm rule: topo_apply.induct) (auto split: sum.splits dest: apply_op_ok)

definition pair :: "dependency \<Rightarrow> task_id \<times> task_id" where
  "pair e = (dep_From e, dep_To e)"

lemma edgeList_ok:
  assumes "wm_ok wm"
  shows "distinct (map pair (edgeList ord wm))" "set (edgeList ord wm) = snd ` set (wm_edges wm)"
    "\<And>e. e \<in> set (edgeList ord wm) \<Longrightarrow> dep_Kind e \<noteq> EdgeUnset"
proof -
  have keys: "map fst (wm_edges wm) = map (\<lambda>e. edgePairKey (fst (pair e)) (snd (pair e))) (map snd (wm_edges wm))"
    using assms by (auto simp: wm_ok_def pair_def)
  have "distinct (map fst (wm_edges wm))" using assms by (simp add: wm_ok_def)
  then have "distinct (map (\<lambda>q. edgePairKey (fst q) (snd q)) (map pair (map snd (wm_edges wm))))"
    by (simp only: keys) (simp add: comp_def)
  then have "distinct (map pair (map snd (wm_edges wm)))"
    unfolding distinct_map [of "\<lambda>q. edgePairKey (fst q) (snd q)"] by blast
  moreover have "mset (map pair (edgeList ord wm)) = mset (map pair (map snd (wm_edges wm)))"
    unfolding mset_map edgeList_def by simp
  ultimately show "distinct (map pair (edgeList ord wm))"
    by (metis mset_eq_imp_distinct_iff)
  show "set (edgeList ord wm) = snd ` set (wm_edges wm)"
    by (simp add: edgeList_def)
  then show "dep_Kind e \<noteq> EdgeUnset" if "e \<in> set (edgeList ord wm)" for e
    using that assms by (auto simp: wm_ok_def)
qed

subsection \<open>The signature of an edge\<close>

text \<open>
  The signature joins five texts with a bar.  It says what the five values say as long as the
  bar is in no task id and the kind is one that the validation knows.
\<close>

definition edge_tuple :: "dependency \<Rightarrow> task_id \<times> task_id \<times> edge_kind \<times> gostring \<times> int" where
  "edge_tuple e = (dep_From e, dep_To e, NormalizeEdgeKind (dep_Kind e), dep_When e, dep_MaxRounds e)"

definition bar_free :: "gostring \<Rightarrow> bool" where
  "bar_free s \<longleftrightarrow> CHR ''|'' \<notin> set s"

definition plain_edge :: "dependency \<Rightarrow> bool" where
  "plain_edge e \<longleftrightarrow> bar_free (dep_From e) \<and> bar_free (dep_To e) \<and> (\<forall>s. dep_Kind e \<noteq> EdgeKindOther s)"

lemma kind_text:
  assumes "\<forall>s. k \<noteq> EdgeKindOther s" "\<forall>s. k' \<noteq> EdgeKindOther s"
  shows "bar_free (edge_kind_text k)" "edge_kind_text k = edge_kind_text k' \<longleftrightarrow> k = k'"
  using assms by (cases k; cases k'; simp add: bar_free_def edge_kind_text_def)+

lemma sig_tuple:
  assumes "plain_edge d" "plain_edge e"
  shows "edgeFullSig d = edgeFullSig e \<longleftrightarrow> edge_tuple d = edge_tuple e"
proof
  assume eq: "edgeFullSig d = edgeFullSig e"
  let ?k = "\<lambda>x. NormalizeEdgeKind (dep_Kind x)"
  have kinds: "\<forall>s. ?k d \<noteq> EdgeKindOther s" "\<forall>s. ?k e \<noteq> EdgeKindOther s"
    using assms by (auto simp: plain_edge_def NormalizeEdgeKind_def)
  have f: "dep_From d = dep_From e" and r1: "dep_To d @ CHR ''|'' # edge_kind_text (?k d) @ CHR ''|'' # dep_When d @ CHR ''|'' # Itoa (dep_MaxRounds d)
      = dep_To e @ CHR ''|'' # edge_kind_text (?k e) @ CHR ''|'' # dep_When e @ CHR ''|'' # Itoa (dep_MaxRounds e)"
    using split_first [of "CHR ''|''" "dep_From d" "dep_From e"] eq assms
    by (simp_all add: edgeFullSig_def plain_edge_def bar_free_def)
  have t: "dep_To d = dep_To e" and r2: "edge_kind_text (?k d) @ CHR ''|'' # dep_When d @ CHR ''|'' # Itoa (dep_MaxRounds d)
      = edge_kind_text (?k e) @ CHR ''|'' # dep_When e @ CHR ''|'' # Itoa (dep_MaxRounds e)"
    using split_first [OF _ _ r1] assms by (simp_all add: plain_edge_def bar_free_def)
  have k: "?k d = ?k e" and r3: "dep_When d @ CHR ''|'' # Itoa (dep_MaxRounds d) = dep_When e @ CHR ''|'' # Itoa (dep_MaxRounds e)"
    using split_first [OF _ _ r2] kind_text [OF kinds] kind_text(1) [OF kinds(2) kinds(1)] by (simp_all add: bar_free_def)
  have "rev (Itoa (dep_MaxRounds d)) @ CHR ''|'' # rev (dep_When d) = rev (Itoa (dep_MaxRounds e)) @ CHR ''|'' # rev (dep_When e)"
    using arg_cong [OF r3, of rev] by simp
  then have "rev (Itoa (dep_MaxRounds d)) = rev (Itoa (dep_MaxRounds e)) \<and> rev (dep_When d) = rev (dep_When e)"
    by (rule split_first [rotated 2]) (simp_all add: Itoa_no)
  then have "dep_MaxRounds d = dep_MaxRounds e \<and> dep_When d = dep_When e" by (simp add: Itoa_inj)
  with f t k show "edge_tuple d = edge_tuple e" by (simp add: edge_tuple_def)
qed (simp add: edge_tuple_def edgeFullSig_def)

text \<open>So the difference by signatures is the difference by tuples.\<close>

definition tuple_diff ::
  "(dependency list \<Rightarrow> dependency list) \<Rightarrow> dependency list \<Rightarrow> dependency list
     \<Rightarrow> dependency list \<times> dependency list" where
  "tuple_diff ord cur final =
     (let curSig = fold (\<lambda>e m. AList.update (edge_tuple e) e m) cur [];
          finalSig = fold (\<lambda>e m. AList.update (edge_tuple e) e m) final []
      in (range_order ord (map snd (filter (\<lambda>se. map_of finalSig (fst se) = None) curSig)),
          range_order ord (map snd (filter (\<lambda>se. map_of curSig (fst se) = None) finalSig))))"

lemma update_same_keys:
  assumes "\<And>d. d \<in> set vs \<Longrightarrow> f d = f e \<longleftrightarrow> g d = g e"
  shows "\<exists>ws. set ws \<subseteq> insert e (set vs) \<and> AList.update (f e) e (map (\<lambda>v. (f v, v)) vs) = map (\<lambda>v. (f v, v)) ws \<and>
    AList.update (g e) e (map (\<lambda>v. (g v, v)) vs) = map (\<lambda>v. (g v, v)) ws"
  using assms
proof (induction vs)
  case Nil
  show ?case by (rule exI [of _ "[e]"]) simp
next
  case (Cons v vs)
  show ?case
  proof (cases "f v = f e")
    case True
    with Cons.prems [of v] show ?thesis by (intro exI [of _ "e # vs"]) auto
  next
    case False
    obtain ws where ws: "set ws \<subseteq> insert e (set vs)" "AList.update (f e) e (map (\<lambda>v. (f v, v)) vs) = map (\<lambda>v. (f v, v)) ws"
        "AList.update (g e) e (map (\<lambda>v. (g v, v)) vs) = map (\<lambda>v. (g v, v)) ws"
      using Cons.IH Cons.prems by auto
    with False Cons.prems [of v] show ?thesis by (intro exI [of _ "v # ws"]) auto
  qed
qed

lemma fold_same_keys:
  assumes "\<And>d e. d \<in> A \<Longrightarrow> e \<in> A \<Longrightarrow> f d = f e \<longleftrightarrow> g d = g e" "set es \<subseteq> A" "set vs \<subseteq> A"
  shows "\<exists>ws. set ws \<subseteq> A \<and> fold (\<lambda>e m. AList.update (f e) e m) es (map (\<lambda>v. (f v, v)) vs) = map (\<lambda>v. (f v, v)) ws \<and>
    fold (\<lambda>e m. AList.update (g e) e m) es (map (\<lambda>v. (g v, v)) vs) = map (\<lambda>v. (g v, v)) ws"
  using assms(2,3)
proof (induction es arbitrary: vs)
  case (Cons e es)
  obtain us where us: "set us \<subseteq> insert e (set vs)" "AList.update (f e) e (map (\<lambda>v. (f v, v)) vs) = map (\<lambda>v. (f v, v)) us"
      "AList.update (g e) e (map (\<lambda>v. (g v, v)) vs) = map (\<lambda>v. (g v, v)) us"
    using update_same_keys [of vs f e g] assms(1) Cons.prems by auto
  then have "set us \<subseteq> A" using Cons.prems by auto
  with Cons.IH [of us] Cons.prems us(2,3) show ?case by simp
qed auto

lemma keyed_None: "map_of (map (\<lambda>v. (h v, v)) ws) (h u) = None \<longleftrightarrow> (\<forall>w \<in> set ws. h w \<noteq> h u)"
  by (induction ws) auto

lemma edgeDiff_tuples:
  assumes "\<forall>e \<in> set cur \<union> set final. plain_edge e"
  shows "edgeDiff ord cur final = tuple_diff ord cur final"
proof -
  let ?A = "set cur \<union> set final"
  have inj: "d \<in> ?A \<Longrightarrow> e \<in> ?A \<Longrightarrow> edgeFullSig d = edgeFullSig e \<longleftrightarrow> edge_tuple d = edge_tuple e" for d e
    using assms sig_tuple by blast
  obtain cs where cs: "set cs \<subseteq> ?A" "fold (\<lambda>e m. AList.update (edgeFullSig e) e m) cur [] = map (\<lambda>v. (edgeFullSig v, v)) cs"
      "fold (\<lambda>e m. AList.update (edge_tuple e) e m) cur [] = map (\<lambda>v. (edge_tuple v, v)) cs"
    using fold_same_keys [of ?A edgeFullSig edge_tuple cur "[]", OF inj] by auto
  obtain fs where fs: "set fs \<subseteq> ?A" "fold (\<lambda>e m. AList.update (edgeFullSig e) e m) final [] = map (\<lambda>v. (edgeFullSig v, v)) fs"
      "fold (\<lambda>e m. AList.update (edge_tuple e) e m) final [] = map (\<lambda>v. (edge_tuple v, v)) fs"
    using fold_same_keys [of ?A edgeFullSig edge_tuple final "[]", OF inj] by auto
  have keep: "map snd (filter (\<lambda>se. map_of (map (\<lambda>v. (edgeFullSig v, v)) ws) (fst se) = None) (map (\<lambda>v. (edgeFullSig v, v)) us)) =
      map snd (filter (\<lambda>se. map_of (map (\<lambda>v. (edge_tuple v, v)) ws) (fst se) = None) (map (\<lambda>v. (edge_tuple v, v)) us))"
    if "set us \<subseteq> ?A" "set ws \<subseteq> ?A" for us ws
    using that(1)
  proof (induction us)
    case (Cons u us)
    have "(\<forall>w \<in> set ws. edgeFullSig w \<noteq> edgeFullSig u) \<longleftrightarrow> (\<forall>w \<in> set ws. edge_tuple w \<noteq> edge_tuple u)"
      using inj [of _ u] that(2) Cons.prems by (intro ball_cong) auto
    moreover have "set us \<subseteq> ?A" using Cons.prems by simp
    ultimately show ?case using Cons.IH by (simp add: keyed_None)
  qed simp
  show ?thesis
    unfolding edgeDiff_def tuple_diff_def Let_def cs(2,3) fs(2,3) using keep cs(1) fs(1) by simp
qed

subsection \<open>The difference and its persistence\<close>

lemma sig_pair: "edge_tuple d = edge_tuple e \<Longrightarrow> pair d = pair e"
  by (simp add: edge_tuple_def pair_def)

lemma sig_loopback: "edge_tuple d = edge_tuple e \<Longrightarrow> IsLoopback d = IsLoopback e"
  by (simp add: edge_tuple_def IsLoopback_def)

lemma pair_inj_sig: "distinct (map pair es) \<Longrightarrow> inj_on edge_tuple (set es)"
  unfolding distinct_map inj_on_def by (blast dest: sig_pair)

lemma snd_pairs: "snd ` {se \<in> (\<lambda>e. (f e, e)) ` A. P (fst se)} = {e \<in> A. P (f e)}"
  by force

lemma tuple_diff_sets:
  assumes "distinct (map pair cur)" "distinct (map pair final)" "tuple_diff ord cur final = (rem, add)"
  shows "set rem = {e \<in> set cur. edge_tuple e \<notin> edge_tuple ` set final}"
    and "set add = {e \<in> set final. edge_tuple e \<notin> edge_tuple ` set cur}"
proof -
  let ?m = "\<lambda>es. fold (\<lambda>e. AList.update (edge_tuple e) e) es []"
  have keys: "map_of (?m es) s = None \<longleftrightarrow> s \<notin> edge_tuple ` set es" for es s
    by (simp add: map_of_eq_None_iff fold_update_keys)
  have ents: "set (?m cur) = (\<lambda>e. (edge_tuple e, e)) ` set cur"
    "set (?m final) = (\<lambda>e. (edge_tuple e, e)) ` set final"
    using assms(1,2) by (auto intro!: fold_update_inj pair_inj_sig)
  have "set rem = snd ` {se \<in> set (?m cur). map_of (?m final) (fst se) = None}"
    "set add = snd ` {se \<in> set (?m final). map_of (?m cur) (fst se) = None}"
    using assms(3) by (auto simp only: tuple_diff_def Let_def prod.inject set_range_order set_map set_filter)
  then show "set rem = {e \<in> set cur. edge_tuple e \<notin> edge_tuple ` set final}"
    "set add = {e \<in> set final. edge_tuple e \<notin> edge_tuple ` set cur}"
    using snd_pairs [of edge_tuple "set cur" "\<lambda>s. s \<notin> edge_tuple ` set final"]
      snd_pairs [of edge_tuple "set final" "\<lambda>s. s \<notin> edge_tuple ` set cur"]
    unfolding keys ents by simp_all
qed

lemma tuple_diff_distinct:
  assumes "distinct (map pair final)" "tuple_diff ord cur final = (rem, add)"
  shows "distinct add"
proof -
  let ?m = "fold (\<lambda>e. AList.update (edge_tuple e) e) final []"
  have "distinct ?m"
    using fold_update_distinct [of "[]" edge_tuple final] by (simp add: distinct_map)
  moreover have "inj_on snd (set ?m)"
    using fold_update_inj [OF pair_inj_sig [OF assms(1)]] by (auto simp: inj_on_def)
  ultimately have "distinct (map snd ?m)" by (simp add: distinct_map)
  then have "distinct (map snd (filter P ?m))" for P
    by (simp add: distinct_map inj_on_def)
  then show ?thesis using assms(2) by (auto simp: tuple_diff_def Let_def)
qed

lemma fold_RemoveDependency:
  "fold RemoveDependency rs rows = filter (\<lambda>e. pair e \<notin> pair ` set rs) rows"
  by (induction rs arbitrary: rows) (auto simp: RemoveDependency_def same_pair_def pair_def intro!: filter_cong)

text \<open>What the removals leave: the current edges whose signature the final set has.\<close>

lemma removals_exact:
  assumes "distinct (map pair cur)" "distinct (map pair final)" "tuple_diff ord cur final = (rem, add)"
  shows "set (fold RemoveDependency rem cur) = {e \<in> set cur. edge_tuple e \<in> edge_tuple ` set final}"
proof -
  have "pair e \<notin> pair ` set rem \<longleftrightarrow> edge_tuple e \<in> edge_tuple ` set final" if "e \<in> set cur" for e
  proof -
    have "d = e" if "d \<in> set cur" "pair d = pair e" for d
      using assms(1) \<open>e \<in> set cur\<close> that unfolding distinct_map inj_on_def by blast
    then show ?thesis
      using that unfolding tuple_diff_sets(1) [OF assms] by (auto simp: image_iff)
  qed
  then show ?thesis by (auto simp: fold_RemoveDependency)
qed

text \<open>
  A run of guarded inserts succeeds when, at each step, the pair is new and the guard accepts
  the edge; the rows then grow by the inserted edges.
\<close>

lemma add_all_ok:
  assumes "\<And>xs e ys rows'. es = xs @ e # ys \<Longrightarrow>
      rows' = rows @ map (\<lambda>e. normalize_row (e\<lparr>dep_PlanID := p\<rparr>)) xs \<Longrightarrow>
      WouldCreateCycle ord rows' (e\<lparr>dep_PlanID := p\<rparr>) = None \<and> pair e \<notin> pair ` set rows'"
  shows "add_all ord p es rows = Ok (rows @ map (\<lambda>e. normalize_row (e\<lparr>dep_PlanID := p\<rparr>)) es)"
  using assms
proof (induction es arbitrary: rows)
  case Nil
  then show ?case by simp
next
  case (Cons e es)
  have "WouldCreateCycle ord rows (e\<lparr>dep_PlanID := p\<rparr>) = None" "pair e \<notin> pair ` set rows"
    using Cons.prems [of "[]" e es rows] by auto
  then have "AddDependency ord (e\<lparr>dep_PlanID := p\<rparr>) rows = Ok (rows @ [normalize_row (e\<lparr>dep_PlanID := p\<rparr>)])"
    by (auto simp: AddDependency_def list_ex_iff same_pair_def pair_def)
  moreover have "add_all ord p es (rows @ [normalize_row (e\<lparr>dep_PlanID := p\<rparr>)]) =
      Ok ((rows @ [normalize_row (e\<lparr>dep_PlanID := p\<rparr>)]) @ map (\<lambda>e. normalize_row (e\<lparr>dep_PlanID := p\<rparr>)) es)"
  proof (rule Cons.IH)
    fix xs e' ys rows'
    assume "es = xs @ e' # ys" "rows' = (rows @ [normalize_row (e\<lparr>dep_PlanID := p\<rparr>)]) @
        map (\<lambda>e. normalize_row (e\<lparr>dep_PlanID := p\<rparr>)) xs"
    with Cons.prems [of "e # xs" e' ys rows']
    show "WouldCreateCycle ord rows' (e'\<lparr>dep_PlanID := p\<rparr>) = None \<and> pair e' \<notin> pair ` set rows'"
      by simp
  qed
  ultimately show ?case by simp
qed

lemma dep_rel_sig:
  assumes "\<And>e. e \<in> set es \<Longrightarrow> \<not> IsLoopback e \<Longrightarrow> edge_tuple e \<in> edge_tuple ` set fs"
  shows "dep_rel es \<subseteq> dep_rel fs"
proof
  fix q assume "q \<in> dep_rel es"
  then obtain e where e: "e \<in> set es" "\<not> IsLoopback e" "q = (dep_From e, dep_To e)"
    by (auto simp: dep_rel_def)
  from imageE [OF assms [OF e(1,2)]] obtain f where f: "edge_tuple e = edge_tuple f" "f \<in> set fs" .
  then have "\<not> IsLoopback f" "pair f = q"
    using e sig_loopback [OF f(1)] sig_pair [OF f(1)] by (simp_all add: pair_def)
  with f(2) show "q \<in> dep_rel fs" by (auto simp: dep_rel_def pair_def)
qed

definition stored :: "plan_id \<Rightarrow> dependency \<Rightarrow> dependency" where
  "stored p e = normalize_row (e\<lparr>dep_PlanID := p\<rparr>)"

lemma stored_simps [simp]:
  "edge_tuple (stored p e) = edge_tuple e" "pair (stored p e) = pair e"
  "IsLoopback (stored p e) = IsLoopback e" "dep_When (stored p e) = dep_When e"
  "dep_MaxRounds (stored p e) = dep_MaxRounds e" "dep_From (stored p e) = dep_From e"
  "dep_To (stored p e) = dep_To e"
  by (simp_all add: stored_def normalize_row_def edge_tuple_def pair_def IsLoopback_def)

lemma stored_eq:
  "dep_Kind e \<noteq> EdgeUnset \<Longrightarrow> stored p e = e\<lparr>dep_PlanID := p\<rparr>"
  by (simp add: stored_def normalize_row_def NormalizeEdgeKind_def)

lemma validate_terminal_None:
  "validate_terminal ord nodes es = None \<longleftrightarrow>
   (\<forall>e \<in> set es. dep_From e \<in> set nodes \<and> dep_To e \<in> set nodes \<and> ValidateControlEdgeShape e = None) \<and>
   acyclic (dep_rel es) \<and>
   (\<forall>e \<in> set es. dep_From e \<noteq> dep_To e \<and> (IsLoopback e \<longrightarrow> ValidateLoopback es e = None))"
proof -
  have "validate_terminal ord nodes es = None \<longleftrightarrow>
      first_error (\<lambda>e. if dep_From e \<notin> set nodes \<or> dep_To e \<notin> set nodes
        then Some ErrPlanProjectMismatch else ValidateControlEdgeShape e) es = None \<and>
      ValidateNoCycle ord es = None \<and>
      first_error (\<lambda>e. case (if IsLoopback e then ValidateLoopback es e else None) of
        Some err \<Rightarrow> Some err
      | None \<Rightarrow> if dep_From e = dep_To e then Some ErrSelfDependency else None) es = None"
    unfolding validate_terminal_def by (simp split: option.split)
  moreover have "(case (if l then v else None) of Some err \<Rightarrow> Some err
      | None \<Rightarrow> if s then Some ErrSelfDependency else None) = None \<longleftrightarrow> \<not> s \<and> (l \<longrightarrow> v = None)" for l s v
    by (simp split: option.split)
  moreover have "(if a \<or> b then Some x else y) = None \<longleftrightarrow> \<not> a \<and> \<not> b \<and> y = None" for a b x and y :: "pm_error option"
    by simp
  ultimately show ?thesis
    unfolding first_error_None ValidateNoCycle_None by (simp only: not_False_eq_True) blast
qed

lemma distinct_pairs_sigs:
  assumes "distinct (map edge_tuple rows)" "edge_tuple ` set rows \<subseteq> edge_tuple ` set fs"
    "distinct (map pair fs)"
  shows "distinct (map pair rows)"
proof -
  have "r = r'" if r: "r \<in> set rows" "r' \<in> set rows" "pair r = pair r'" for r r'
  proof -
    obtain f f' where f: "f \<in> set fs" "edge_tuple r = edge_tuple f"
        "f' \<in> set fs" "edge_tuple r' = edge_tuple f'"
      using r(1,2) assms(2) by blast
    then have "pair f = pair f'" using r(3) by (simp add: sig_pair [OF f(2)] sig_pair [OF f(4)])
    then have "f = f'" using assms(3) f(1,3) unfolding distinct_map inj_on_def by blast
    with f have "edge_tuple r = edge_tuple r'" by simp
    with r(1,2) assms(1) show ?thesis unfolding distinct_map inj_on_def by blast
  qed
  with assms(1) show ?thesis unfolding distinct_map inj_on_def by blast
qed

lemma persist_exact:
  assumes cur: "distinct (map pair cur)" and fin: "distinct (map pair final)"
    and valid: "validate_terminal ord nodes final = None" and plain: "\<forall>e \<in> set cur \<union> set final. plain_edge e"
  shows "\<exists>rows. persist_edges ord eord p cur final = Ok rows \<and> distinct (map pair rows) \<and>
    set rows = {e \<in> set cur. edge_tuple e \<in> edge_tuple ` set final} \<union>
      stored p ` {e \<in> set final. edge_tuple e \<notin> edge_tuple ` set cur}"
proof -
  obtain rem add where diff: "tuple_diff eord cur final = (rem, add)" by force
  define F L rows1 where "F = filter (\<lambda>e. \<not> IsLoopback e) add" and "L = filter IsLoopback add"
    and "rows1 = fold RemoveDependency rem cur"
  have rows1: "set rows1 = {e \<in> set cur. edge_tuple e \<in> edge_tuple ` set final}"
    unfolding rows1_def by (rule removals_exact [OF cur fin diff])
  have add: "set add = {e \<in> set final. edge_tuple e \<notin> edge_tuple ` set cur}"
    by (rule tuple_diff_sets [OF cur fin diff])
  have FL: "set (F @ L) = set add" "distinct (F @ L)"
    using tuple_diff_distinct [OF fin diff] by (auto simp: F_def L_def)
  have acyc: "acyclic (dep_rel final)" and loops: "\<And>e. e \<in> set final \<Longrightarrow> dep_From e \<noteq> dep_To e"
      "\<And>e. e \<in> set final \<Longrightarrow> IsLoopback e \<Longrightarrow> ValidateLoopback final e = None"
    using valid by (auto simp: validate_terminal_None)
  have pairs: "distinct (map pair (rows1 @ map (stored p) (F @ L)))"
  proof (rule distinct_pairs_sigs [OF _ _ fin])
    have img: "edge_tuple ` set (map (stored p) (F @ L)) = edge_tuple ` set add"
      unfolding set_map FL(1) image_image by simp
    have "inj_on edge_tuple (set (F @ L))"
      using pair_inj_sig [OF fin] unfolding FL(1) add by (rule inj_on_subset) auto
    then have "distinct (map edge_tuple (F @ L))"
      using FL(2) unfolding distinct_map by blast
    then have "distinct (map edge_tuple (map (stored p) (F @ L)))"
      by (simp add: comp_def)
    moreover have "distinct (map edge_tuple rows1)"
      unfolding rows1_def fold_RemoveDependency distinct_map
      using cur pair_inj_sig [OF cur] by (auto simp: distinct_map intro: inj_on_subset)
    moreover have "edge_tuple ` set rows1 \<inter> edge_tuple ` set (map (stored p) (F @ L)) = {}"
    proof -
      have "edge_tuple ` set rows1 \<subseteq> edge_tuple ` set cur"
        unfolding rows1 by blast
      moreover have "edge_tuple ` set add \<inter> edge_tuple ` set cur = {}"
        unfolding add by blast
      ultimately show ?thesis unfolding img by blast
    qed
    ultimately show "distinct (map edge_tuple (rows1 @ map (stored p) (F @ L)))"
      unfolding map_append [of _ rows1] distinct_append set_map [of edge_tuple] by blast
    have eq: "edge_tuple ` set (rows1 @ map (stored p) (F @ L)) =
        edge_tuple ` set rows1 \<union> edge_tuple ` set add"
      unfolding set_append [of rows1] image_Un img ..
    have "edge_tuple ` set rows1 \<subseteq> edge_tuple ` set final" "edge_tuple ` set add \<subseteq> edge_tuple ` set final"
      unfolding rows1 add by blast+
    then show "edge_tuple ` set (rows1 @ map (stored p) (F @ L)) \<subseteq> edge_tuple ` set final"
      unfolding eq by (rule Un_least)
  qed
  have step: "WouldCreateCycle ord rows' (e\<lparr>dep_PlanID := p\<rparr>) = None \<and> pair e \<notin> pair ` set rows'"
    if split: "F @ L = xs @ e # ys" and rows': "rows' = rows1 @ map (stored p) xs" for xs e ys rows'
  proof
    have e: "e \<in> set final" "edge_tuple e \<notin> edge_tuple ` set cur"
      using FL add split by auto
    have xs: "x \<in> set final \<and> edge_tuple x \<notin> edge_tuple ` set cur \<and> x \<noteq> e" if "x \<in> set xs" for x
      using that FL add split by auto
    have sub: "dep_rel rows' \<subseteq> dep_rel final"
      by (rule dep_rel_sig) (auto simp: rows' rows1 dest!: xs)
    show "pair e \<notin> pair ` set rows'"
      using pairs unfolding split rows' by auto
    show "WouldCreateCycle ord rows' (e\<lparr>dep_PlanID := p\<rparr>) = None"
    proof (cases "IsLoopback e")
      case False
      have "dep_rel (rows' @ [e\<lparr>dep_PlanID := p\<rparr>]) \<subseteq> dep_rel rows' \<union> {(dep_From e, dep_To e)}"
        using False by (auto simp: dep_rel_def IsLoopback_def)
      also have "\<dots> \<subseteq> dep_rel final" using sub False e(1) by (auto simp: dep_rel_def)
      finally have "acyclic (dep_rel (rows' @ [e\<lparr>dep_PlanID := p\<rparr>]))"
        using acyc by (rule acyclic_subset [rotated])
      with False loops(1) [OF e(1)] show ?thesis
        by (simp add: WouldCreateCycle_def ValidateNoCycle_None IsLoopback_def)
    next
      case True
      have F: "set F \<subseteq> set xs"
      proof -
        have "e \<notin> set F" using True by (simp add: F_def)
        with split show ?thesis by (auto simp: append_eq_append_conv2 append_eq_Cons_conv)
      qed
      have "dep_rel final \<subseteq> dep_rel rows'"
      proof (rule dep_rel_sig)
        fix f assume f: "f \<in> set final" "\<not> IsLoopback f"
        show "edge_tuple f \<in> edge_tuple ` set rows'"
        proof (cases "edge_tuple f \<in> edge_tuple ` set cur")
          case True
          then obtain c where "c \<in> set cur" "edge_tuple c = edge_tuple f" by (metis imageE)
          with f have "c \<in> set rows1" unfolding rows1 by simp
          with \<open>edge_tuple c = edge_tuple f\<close> show ?thesis
            unfolding rows' by (metis Un_iff image_eqI set_append)
        next
          case False
          with f add have "f \<in> set F" by (simp add: F_def)
          with F have "stored p f \<in> set rows'" unfolding rows' by auto
          then show ?thesis by (metis image_eqI stored_simps(1))
        qed
      qed
      then have "(dep_From e, dep_To e) \<in> (dep_rel rows')\<^sup>+"
        using loops(2) [OF e(1) True] True trancl_mono [of _ "dep_rel final" "dep_rel rows'"]
        by (simp add: ValidateLoopback_None)
      moreover have "IsLoopback (e\<lparr>dep_PlanID := p\<rparr>)" using True by (simp add: IsLoopback_def)
      ultimately show ?thesis
        using loops [OF e(1)] True by (simp add: WouldCreateCycle_def ValidateLoopback_None)
    qed
  qed
  have rows: "add_all ord p (F @ L) rows1 = Ok (rows1 @ map (stored p) (F @ L))"
    unfolding stored_def [abs_def]
    by (rule add_all_ok, rule step) (simp_all add: stored_def [abs_def])
  then have "persist_edges ord eord p cur final = Ok (rows1 @ map (stored p) (F @ L))"
    by (simp add: persist_edges_def edgeDiff_tuples [OF plain] diff F_def L_def rows1_def)
  moreover have "set (rows1 @ map (stored p) (F @ L)) =
      {e \<in> set cur. edge_tuple e \<in> edge_tuple ` set final} \<union>
      stored p ` {e \<in> set final. edge_tuple e \<notin> edge_tuple ` set cur}"
    unfolding set_append set_map FL(1) [unfolded set_append] image_Un [symmetric] rows1 add ..
  ultimately show ?thesis using pairs by blast
qed

subsection \<open>Properties\<close>

lemma edges_ok_pairs: "edges_ok rows \<Longrightarrow> distinct (map pair rows)"
proof -
  have "pair = (\<lambda>e. (dep_From e, dep_To e))" by (auto simp: pair_def)
  then show "edges_ok rows \<Longrightarrow> ?thesis" by (simp add: edges_ok_def)
qed

subsection \<open>The tasks that move\<close>

lemma topo_task_at:
  "distinct (map t_id ts) \<Longrightarrow> t \<in> set ts \<Longrightarrow> topo_task (t_id t) ts = Some t"
  unfolding topo_task_def by (induction ts) (auto intro: rev_image_eqI)

lemma topo_task_None: "topo_task n ts = None \<longleftrightarrow> n \<notin> t_id ` set ts"
  unfolding topo_task_def by (auto simp: find_None_iff)

definition select_task :: "plan_id \<Rightarrow> time \<Rightarrow> task \<Rightarrow> task" where
  "select_task pid now t = task_touch now now (t\<lparr>t_planID := pid\<rparr>)"

definition drop_task :: "time \<Rightarrow> task \<Rightarrow> task" where
  "drop_task now t = task_touch now now (t\<lparr>t_planID := []\<rparr>)"

lemma moved_id [simp]: "t_id (select_task pid now t) = t_id t" "t_id (drop_task now t) = t_id t"
  by (simp_all add: select_task_def drop_task_def task_touch_def)

lemma update_ids: "t_id t' = t_id t \<Longrightarrow> map t_id (tasks_update t' ts) = map t_id ts"
  by (simp add: tasks_update_def)

text \<open>Both loops move the tasks of a list of ids, or stop at the first that is archived.\<close>

fun move_nodes :: "(task \<Rightarrow> bool) \<Rightarrow> (task \<Rightarrow> pm_error + task) \<Rightarrow> task_id list \<Rightarrow> task list \<Rightarrow> pm_error + task list" where
  "move_nodes skip f [] ts = Ok ts"
| "move_nodes skip f (n # ns) ts =
     (case topo_task n ts of
        None \<Rightarrow> move_nodes skip f ns ts
      | Some t \<Rightarrow>
          if skip t then move_nodes skip f ns ts
          else case f t of Err e \<Rightarrow> Err e | Ok t' \<Rightarrow> move_nodes skip f ns (tasks_update t' ts))"

lemma select_moves: "select_nodes pid now ns ts = move_nodes (\<lambda>t. t_planID t = pid) (task_SetPlan pid now now) ns ts"
  by (induction ns arbitrary: ts) (auto split: option.splits sum.splits)

lemma clear_moves: "clear_nodes now ns ts = move_nodes (\<lambda>_. False) (task_ClearPlan now now) ns ts"
  by (induction ns arbitrary: ts) (auto split: option.splits sum.splits)

lemma move_nodes_exact:
  assumes f: "\<And>t. f t = (if task_IsArchived t then Err ErrTaskArchived else Ok (g t))" "\<And>t. t_id (g t) = t_id t"
    and "distinct (map t_id ts)" "distinct ns"
  shows "move_nodes skip f ns ts =
    (if \<exists>t \<in> set ts. t_id t \<in> set ns \<and> \<not> skip t \<and> task_IsArchived t then Err ErrTaskArchived
     else Ok (map (\<lambda>t. if t_id t \<in> set ns \<and> \<not> skip t then g t else t) ts))"
  using assms(3,4)
proof (induction ns arbitrary: ts)
  case (Cons n ns)
  have same: ?case if "move_nodes skip f (n # ns) ts = move_nodes skip f ns ts"
    "\<And>t. t \<in> set ts \<Longrightarrow> t_id t = n \<Longrightarrow> skip t"
  proof -
    have "t_id t \<in> set (n # ns) \<and> \<not> skip t \<longleftrightarrow> t_id t \<in> set ns \<and> \<not> skip t" if "t \<in> set ts" for t
      using that \<open>\<And>t. t \<in> set ts \<Longrightarrow> t_id t = n \<Longrightarrow> skip t\<close> by auto
    then have "(\<exists>t \<in> set ts. t_id t \<in> set (n # ns) \<and> \<not> skip t \<and> task_IsArchived t) \<longleftrightarrow>
        (\<exists>t \<in> set ts. t_id t \<in> set ns \<and> \<not> skip t \<and> task_IsArchived t)"
      "map (\<lambda>t. if t_id t \<in> set (n # ns) \<and> \<not> skip t then g t else t) ts =
        map (\<lambda>t. if t_id t \<in> set ns \<and> \<not> skip t then g t else t) ts"
      by (blast, intro map_cong) auto
    with that(1) Cons.IH [of ts] Cons.prems show ?thesis by simp
  qed
  show ?case
  proof (cases "topo_task n ts")
    case None
    then show ?thesis by (intro same, simp) (auto simp: topo_task_None)
  next
    case (Some t)
    then have t: "t \<in> set ts" "n = t_id t" by (auto simp: topo_task_def find_Some_iff)
    have one: "u = t" if "u \<in> set ts" "t_id u = n" for u
      using Cons.prems(1) that t by (auto simp: distinct_map dest: inj_onD)
    consider "skip t" | "\<not> skip t" "task_IsArchived t" | "\<not> skip t" "\<not> task_IsArchived t" by blast
    then show ?thesis
    proof cases
      case 1
      with Some one show ?thesis by (intro same) auto
    next
      case 2
      with Some t show ?thesis by (auto simp: f(1))
    next
      case 3
      let ?ts = "tasks_update (g t) ts"
      have set: "u \<in> set ?ts \<longleftrightarrow> u = g t \<or> u \<in> set ts \<and> t_id u \<noteq> n" for u
        using t one by (auto simp: tasks_update_def image_iff f(2))
      have "(\<exists>u \<in> set ?ts. t_id u \<in> set ns \<and> \<not> skip u \<and> task_IsArchived u) \<longleftrightarrow>
          (\<exists>u \<in> set ts. t_id u \<in> set (n # ns) \<and> \<not> skip u \<and> task_IsArchived u)"
      proof
        assume "\<exists>u \<in> set ?ts. t_id u \<in> set ns \<and> \<not> skip u \<and> task_IsArchived u"
        then obtain u where u: "u \<in> set ?ts" "t_id u \<in> set ns" "\<not> skip u" "task_IsArchived u" by blast
        then have "u \<noteq> g t" using f(2) t(2) Cons.prems(2) by auto
        with u set show "\<exists>u \<in> set ts. t_id u \<in> set (n # ns) \<and> \<not> skip u \<and> task_IsArchived u" by auto
      next
        assume "\<exists>u \<in> set ts. t_id u \<in> set (n # ns) \<and> \<not> skip u \<and> task_IsArchived u"
        then obtain u where u: "u \<in> set ts" "t_id u \<in> set (n # ns)" "\<not> skip u" "task_IsArchived u" by blast
        then have "t_id u \<noteq> n" using one 3 by blast
        with u set show "\<exists>u \<in> set ?ts. t_id u \<in> set ns \<and> \<not> skip u \<and> task_IsArchived u" by auto
      qed
      moreover have "map (\<lambda>u. if t_id u \<in> set ns \<and> \<not> skip u then g u else u) ?ts =
          map (\<lambda>u. if t_id u \<in> set (n # ns) \<and> \<not> skip u then g u else u) ts"
        unfolding tasks_update_def map_map using one 3 t Cons.prems(2) by (intro map_cong) (auto simp: f(2))
      ultimately show ?thesis
        using 3 Some Cons.IH [of ?ts] Cons.prems by (simp add: f update_ids)
    qed
  qed
qed simp

lemma select_nodes_exact:
  assumes "distinct (map t_id ts)" "distinct ns"
  shows "select_nodes pid now ns ts =
    (if \<exists>t \<in> set ts. t_id t \<in> set ns \<and> t_planID t \<noteq> pid \<and> task_IsArchived t then Err ErrTaskArchived
     else Ok (map (\<lambda>t. if t_id t \<in> set ns \<and> t_planID t \<noteq> pid then select_task pid now t else t) ts))"
  unfolding select_moves
  by (rule move_nodes_exact [OF _ _ assms]) (simp_all add: task_SetPlan_def task_edit_def select_task_def task_touch_def)

lemma clear_nodes_exact:
  assumes "distinct (map t_id ts)" "distinct ns"
  shows "clear_nodes now ns ts =
    (if \<exists>t \<in> set ts. t_id t \<in> set ns \<and> task_IsArchived t then Err ErrTaskArchived
     else Ok (map (\<lambda>t. if t_id t \<in> set ns then drop_task now t else t) ts))"
  using move_nodes_exact [OF _ _ assms, of "task_ClearPlan now now" "drop_task now" "\<lambda>_. False"]
  by (simp add: clear_moves task_ClearPlan_def task_edit_def drop_task_def task_touch_def)

subsection \<open>What a batch commits\<close>

text \<open>
  The tasks that the batch brings into the plan and those it takes out of it, and the tables
  and the plan after it, whatever the map orders.
\<close>

definition topo_moves :: "plan \<Rightarrow> work_model \<Rightarrow> task \<Rightarrow> bool" where
  "topo_moves p wm t \<longleftrightarrow> (t_id t \<in> set (wm_nodes wm)) \<noteq> (t_planID t = p_id p)"

definition topo_moved :: "time \<Rightarrow> plan \<Rightarrow> work_model \<Rightarrow> task \<Rightarrow> task" where
  "topo_moved now p wm t =
     (if \<not> topo_moves p wm t then t
      else if t_id t \<in> set (wm_nodes wm) then task_touch now now (t\<lparr>t_planID := p_id p\<rparr>)
      else task_touch now now (t\<lparr>t_planID := []\<rparr>))"

definition topology_committed ::
  "time \<Rightarrow> plan \<Rightarrow> task list \<Rightarrow> work_model \<Rightarrow> plan \<times> task list \<times> dependency list \<Rightarrow> bool" where
  "topology_committed now p tasks wm res \<longleftrightarrow>
     (case res of (p', tasks', rows') \<Rightarrow>
        p' = plan_SetVersion (p_version p + 1) now now p \<and> tasks' = map (topo_moved now p wm) tasks \<and>
        edge_tuple ` set rows' = edge_tuple ` snd ` set (wm_edges wm) \<and>
        distinct (map pair rows') \<and> acyclic (dep_rel rows') \<and>
        (\<forall>e \<in> set rows'. dep_From e \<in> set (wm_nodes wm) \<and> dep_To e \<in> set (wm_nodes wm) \<and> dep_From e \<noteq> dep_To e))"

lemma sig_ends: "edge_tuple d = edge_tuple e \<Longrightarrow> dep_From d = dep_From e \<and> dep_To d = dep_To e"
  by (simp add: edge_tuple_def)

lemma persist_commits:
  assumes wm: "wm_ok wm" and cur: "distinct (map pair curEdges)" and plain: "\<forall>e \<in> set curEdges. plain_edge e"
    and bars: "\<forall>n \<in> set (wm_nodes wm). bar_free n" and valid: "validate_terminal ord (wm_nodes wm) (edgeList eord wm) = None"
  shows "\<exists>rows. persist_edges ord eord pid curEdges (edgeList eord wm) = Ok rows \<and>
    edge_tuple ` set rows = edge_tuple ` snd ` set (wm_edges wm) \<and> distinct (map pair rows) \<and> acyclic (dep_rel rows) \<and>
    (\<forall>e \<in> set rows. dep_From e \<in> set (wm_nodes wm) \<and> dep_To e \<in> set (wm_nodes wm) \<and> dep_From e \<noteq> dep_To e)"
proof -
  let ?fin = "edgeList eord wm"
  have "plain_edge e" if "e \<in> set ?fin" for e
  proof -
    have "dep_From e \<in> set (wm_nodes wm)" "dep_To e \<in> set (wm_nodes wm)" "ValidateControlEdgeShape e = None"
      using that valid unfolding validate_terminal_None by blast+
    with bars show ?thesis by (auto simp: plain_edge_def ValidateControlEdgeShape_def NormalizeEdgeKind_def)
  qed
  then have "\<forall>e \<in> set curEdges \<union> set ?fin. plain_edge e" using plain by blast
  from persist_exact [OF cur edgeList_ok(1) [OF wm] valid this]
  obtain rows where rows: "persist_edges ord eord pid curEdges ?fin = Ok rows" "distinct (map pair rows)"
    "set rows = {e \<in> set curEdges. edge_tuple e \<in> edge_tuple ` set ?fin} \<union>
      stored pid ` {e \<in> set ?fin. edge_tuple e \<notin> edge_tuple ` set curEdges}"
    by blast
  have sub: "\<exists>f \<in> set ?fin. edge_tuple e = edge_tuple f" if "e \<in> set rows" for e
    using that unfolding rows(3) by auto
  have sup: "edge_tuple f \<in> edge_tuple ` set rows" if "f \<in> set ?fin" for f
  proof (cases "edge_tuple f \<in> edge_tuple ` set curEdges")
    case True
    then obtain c where "c \<in> set curEdges" "edge_tuple f = edge_tuple c" by (rule imageE)
    with that have "c \<in> set rows" unfolding rows(3) by (metis (mono_tags, lifting) UnI1 imageI mem_Collect_eq)
    with \<open>edge_tuple f = edge_tuple c\<close> show ?thesis by simp
  next
    case False
    with that have "stored pid f \<in> set rows" unfolding rows(3) by blast
    then show ?thesis by (metis imageI stored_simps(1))
  qed
  have "acyclic (dep_rel rows)"
    using dep_rel_sig [of rows ?fin] sub valid unfolding validate_terminal_None
    by (blast intro: acyclic_subset)
  moreover have "dep_From e \<in> set (wm_nodes wm) \<and> dep_To e \<in> set (wm_nodes wm) \<and> dep_From e \<noteq> dep_To e"
    if "e \<in> set rows" for e
    using sub [OF that] valid sig_ends unfolding validate_terminal_None by metis
  moreover have "edge_tuple ` set rows = edge_tuple ` set ?fin"
    using sub sup by blast
  ultimately show ?thesis
    using rows(1,2) edgeList_ok(2) [OF wm] by auto
qed

lemma tasks_move:
  assumes ids: "distinct (map t_id tasks)" and wm: "distinct (wm_nodes wm)" and pid: "p_id p \<noteq> []"
    and diff: "nodeDiff (map t_id (tasks_ListByPlan (p_id p) tasks)) wm = (added, removed)"
  shows "(case select_nodes (p_id p) now added tasks of Err e \<Rightarrow> Err e | Ok ts \<Rightarrow> clear_nodes now removed ts) =
    (if \<exists>t \<in> set tasks. topo_moves p wm t \<and> task_IsArchived t then Err ErrTaskArchived else Ok (map (topo_moved now p wm) tasks))"
proof -
  have one: "u = t" if "u \<in> set tasks" "t \<in> set tasks" "t_id u = t_id t" for u t
    using ids that by (auto simp: distinct_map dest: inj_onD)
  have mem: "t_id t \<in> t_id ` set (tasks_ListByPlan (p_id p) tasks) \<longleftrightarrow> t_planID t = p_id p" if "t \<in> set tasks" for t
    using one that by (auto simp: tasks_ListByPlan_def)
  have add: "t_id t \<in> set added \<longleftrightarrow> t_id t \<in> set (wm_nodes wm) \<and> t_planID t \<noteq> p_id p"
    and rem: "t_id t \<in> set removed \<longleftrightarrow> t_id t \<notin> set (wm_nodes wm) \<and> t_planID t = p_id p" if "t \<in> set tasks" for t
    using diff mem [OF that] by (auto simp: nodeDiff_def)
  have "distinct (map t_id (tasks_ListByPlan (p_id p) tasks))"
    using ids by (auto simp: tasks_ListByPlan_def distinct_map intro: inj_on_subset)
  then have dist: "distinct added" "distinct removed"
    using diff wm by (auto simp: nodeDiff_def distinct_filter)
  have touch: "t_id (task_touch now now (t\<lparr>t_planID := q\<rparr>)) = t_id t" for t q by (simp add: task_touch_def)
  let ?sel = "\<lambda>t. if t_id t \<in> set added \<and> t_planID t \<noteq> p_id p then select_task (p_id p) now t else t"
  show ?thesis
  proof (cases "\<exists>t \<in> set tasks. t_id t \<in> set added \<and> t_planID t \<noteq> p_id p \<and> task_IsArchived t")
    case True
    then have "\<exists>t \<in> set tasks. topo_moves p wm t \<and> task_IsArchived t" by (auto simp: topo_moves_def add)
    with True show ?thesis by (simp add: select_nodes_exact [OF ids dist(1)])
  next
    case False
    then have "select_nodes (p_id p) now added tasks = Ok (map ?sel tasks)"
      by (simp only: select_nodes_exact [OF ids dist(1)] if_False)
    moreover have "distinct (map t_id (map ?sel tasks))"
      using ids by (simp add: comp_def if_distrib [of t_id] cong: if_cong)
    ultimately have c: "(case select_nodes (p_id p) now added tasks of Err e \<Rightarrow> Err e | Ok ts \<Rightarrow> clear_nodes now removed ts) =
      (if \<exists>t \<in> set (map ?sel tasks). t_id t \<in> set removed \<and> task_IsArchived t then Err ErrTaskArchived
       else Ok (map (\<lambda>t. if t_id t \<in> set removed then drop_task now t else t) (map ?sel tasks)))"
      using clear_nodes_exact [OF _ dist(2)] by simp
    have "(\<exists>t \<in> set (map ?sel tasks). t_id t \<in> set removed \<and> task_IsArchived t) \<longleftrightarrow>
        (\<exists>t \<in> set tasks. topo_moves p wm t \<and> task_IsArchived t)"
      using False by (auto simp: topo_moves_def add rem)
    moreover have "map (\<lambda>t. if t_id t \<in> set removed then drop_task now t else t) (map ?sel tasks) = map (topo_moved now p wm) tasks"
      unfolding map_map by (intro map_cong) (auto simp: topo_moved_def topo_moves_def add rem select_task_def drop_task_def touch)
    ultimately show ?thesis unfolding c by simp
  qed
qed

text \<open>
  C4: a topology edit commits exactly the batch it validated.  On a pending plan at the base
  version whose edge table is sound, when the batch applies and the new tasks resolve, and no
  task id holds the bar that joins a signature, the edit fails only because the final graph
  does not validate or because a task that enters or leaves the plan is archived (the statements
  of the database themselves succeed).  Otherwise no
  guarded insert trips over an intermediate state, in whatever order the maps are iterated: the
  stored edges are those of the work model, in endpoints, kind, label and bound, over the work
  model's nodes, acyclic, with one row per pair; exactly the tasks that the batch adds or
  removes change, to and from the plan; and the version is the base version plus one.
\<close>

theorem topology_edit_commits:
  assumes "edges_ok curEdges" "\<forall>e \<in> set curEdges. plain_edge e" "distinct (map t_id tasks)" "p_id p \<noteq> []"
    and "access = None" "\<not> p_builtin p" "p_status p = PlanPending" "p_version p = baseVersion"
    and "topo_apply ops (newTopoWorkModel (map t_id (tasks_ListByPlan (p_id p) tasks)) curEdges) = Ok wm"
    and "\<forall>n \<in> set (wm_nodes wm). bar_free n \<and>
           (n \<in> t_id ` set (tasks_ListByPlan (p_id p) tasks) \<or> resolve_node p tasks n = None)"
  shows "case validate_terminal ord (wm_nodes wm) (edgeList eord wm) of
      Some e \<Rightarrow> EditPlanTopology ord eord access baseVersion ops now p tasks curEdges = Err e
    | None \<Rightarrow>
        if \<exists>t \<in> set tasks. topo_moves p wm t \<and> task_IsArchived t
        then EditPlanTopology ord eord access baseVersion ops now p tasks curEdges = Err ErrTaskArchived
        else \<exists>res. EditPlanTopology ord eord access baseVersion ops now p tasks curEdges = Ok res \<and>
          topology_committed now p tasks wm res"
proof -
  let ?cur = "map t_id (tasks_ListByPlan (p_id p) tasks)"
  have "distinct ?cur" using assms(3) by (auto simp: tasks_ListByPlan_def distinct_map intro: inj_on_subset)
  then have wm: "wm_ok wm"
    using assms(1) by (intro topo_apply_ok [OF assms(9)] wm_ok_new) (auto simp: edges_ok_def)
  have res: "first_error (\<lambda>n. if n \<in> set ?cur then None else resolve_node p tasks n) (range_order ord (wm_nodes wm)) = None"
    using assms(10) by (auto simp: first_error_None)
  obtain added removed where diff: "nodeDiff ?cur wm = (added, removed)" by fastforce
  have tasks: "(case select_nodes (p_id p) now added tasks of Err e \<Rightarrow> Err e | Ok ts \<Rightarrow> clear_nodes now removed ts) =
      (if \<exists>t \<in> set tasks. topo_moves p wm t \<and> task_IsArchived t then Err ErrTaskArchived else Ok (map (topo_moved now p wm) tasks))"
    using wm by (intro tasks_move [OF assms(3) _ assms(4) diff]) (simp add: wm_ok_def)
  show ?thesis
  proof (cases "validate_terminal ord (wm_nodes wm) (edgeList eord wm)")
    case None
    obtain rows where rows: "persist_edges ord eord (p_id p) curEdges (edgeList eord wm) = Ok rows"
      "topology_committed now p tasks wm (plan_SetVersion (p_version p + 1) now now p, map (topo_moved now p wm) tasks, rows)"
      using persist_commits [OF wm edges_ok_pairs [OF assms(1)] assms(2) _ None, of "p_id p"] assms(10)
      by (auto simp: topology_committed_def)
    have edit: "EditPlanTopology ord eord access baseVersion ops now p tasks curEdges =
        (case (case select_nodes (p_id p) now added tasks of Err e \<Rightarrow> Err e | Ok ts \<Rightarrow> clear_nodes now removed ts) of
           Err e \<Rightarrow> Err e | Ok ts \<Rightarrow> Ok (plan_SetVersion (p_version p + 1) now now p, ts, rows))"
      using None assms(5-9) res rows(1) diff by (simp add: EditPlanTopology_def Let_def split: sum.split)
    show ?thesis using None rows(2) unfolding edit tasks by simp
  next
    case (Some e)
    with assms(5-9) res show ?thesis by (simp add: EditPlanTopology_def Let_def)
  qed
qed

text \<open>The batch reverses an edge; after its first operation the graph has a cycle.\<close>

definition sample_reorder :: "topology_op list" where
  "sample_reorder = [OpAddEdge ''a'' ''b'' EdgeUnset [] 0, OpRemoveEdge ''b'' ''a'', OpAddNode ''c'']"

definition sample_cur :: "dependency list" where
  "sample_cur = [sample_edge ''b'' ''a'' EdgeSeq [] 0]"

definition plan_task :: "task_id \<Rightarrow> plan_id \<Rightarrow> task" where
  "plan_task i pid =
     (case NewTask id \<lparr>ti_ID = i, ti_ProjectID = ''p1'', ti_Title = ''t'', ti_Description = [],
        ti_DerivedFromIssue = [], ti_CreatedBy = ''user:u1'', ti_CreatedAt = 5, ti_OrgNumber = 1,
        ti_Model = [], ti_DispatchMode = DispatchUnset, ti_DeliveryContract = DeliveryUnset,
        ti_RequiredCapabilities = [], ti_NodeID = [], ti_StageID = [], ti_FollowsTaskID = [], ti_OriginVerdictID = []\<rparr> of
      Ok t \<Rightarrow> t\<lparr>t_planID := pid\<rparr> | Err _ \<Rightarrow> undefined)"

definition sample_tasks :: "task list" where
  "sample_tasks = [plan_task ''a'' ''pl1'', plan_task ''b'' ''pl1'', plan_task ''c'' []]"

definition sample_wm :: work_model where
  "sample_wm = (case topo_apply sample_reorder (newTopoWorkModel [''a'', ''b''] sample_cur) of
     Ok wm \<Rightarrow> wm | Err _ \<Rightarrow> undefined)"

theorem topology_edit_commits_witness:
  "\<exists>res. EditPlanTopology id id None 1 sample_reorder 9 sample_plan sample_tasks sample_cur = Ok res \<and>
     topology_committed 9 sample_plan sample_tasks sample_wm res"
proof -
  have "ValidateNoCycle id sample_cur = None" by code_simp
  then have "edges_ok sample_cur" "\<forall>e \<in> set sample_cur. plain_edge e"
    by (simp add: edges_ok_def ValidateNoCycle_None)
      (simp_all add: sample_cur_def sample_edge_def IsLoopback_def NormalizeEdgeKind_def plain_edge_def bar_free_def)
  moreover have "distinct (map t_id sample_tasks)" "p_id sample_plan \<noteq> []" "\<not> p_builtin sample_plan"
    "p_status sample_plan = PlanPending" "p_version sample_plan = 1"
    "topo_apply sample_reorder (newTopoWorkModel (map t_id (tasks_ListByPlan (p_id sample_plan) sample_tasks)) sample_cur) = Ok sample_wm"
    "validate_terminal id (wm_nodes sample_wm) (edgeList id sample_wm) = None"
    "\<forall>n \<in> set (wm_nodes sample_wm). bar_free n \<and>
       (n \<in> t_id ` set (tasks_ListByPlan (p_id sample_plan) sample_tasks) \<or> resolve_node sample_plan sample_tasks n = None)"
    "\<not> (\<exists>t \<in> set sample_tasks. topo_moves sample_plan sample_wm t \<and> task_IsArchived t)"
    by code_simp+
  ultimately show ?thesis
    using topology_edit_commits [of sample_cur sample_tasks sample_plan None 1 sample_reorder sample_wm id id 9]
    by (simp only: option.case if_False simp_thms refl if_cancel)
qed

end
