(* ===== verification/Plan_View.thy ===== *)
theory Plan_View
  imports Plan_DAG Task
begin

section \<open>The derived view of a plan (internal/projectmanager/plan_view.go)\<close>

text \<open>
  Node status is derived from the tasks, the edges, the dispatch records and the decision
  outcomes, never stored.  Go maps that the derivation only looks up are association lists in
  which the last write wins; \<open>ord\<close> is the order in which the map of conditional upstreams is
  iterated, on which no result depends.
\<close>

subsection \<open>Single nodes\<close>

datatype node_status =
    NodeBlocked | NodeReady | NodeDispatched | NodeRunning | NodePaused | NodeDone | NodeFailed | NodeSkipped

definition taskIsDone :: "task_status \<Rightarrow> bool" where
  "taskIsDone s \<longleftrightarrow> s = TaskCompleted"

definition taskIsFailed :: "task_status \<Rightarrow> bool" where
  "taskIsFailed s \<longleftrightarrow> s = TaskFailed"

definition DeriveNodeStatus :: "task_status \<Rightarrow> bool \<Rightarrow> bool \<Rightarrow> bool \<Rightarrow> node_status" where
  "DeriveNodeStatus s upstreamAllDone dispatched paused =
     (if taskIsDone s then NodeDone
      else if taskIsFailed s then NodeFailed
      else if s = TaskDiscarded then NodeSkipped
      else if s = TaskBlocked then NodePaused
      else if s = TaskRunning then (if paused then NodePaused else NodeRunning)
      else if \<not> upstreamAllDone then NodeBlocked
      else if dispatched then NodeDispatched
      else NodeReady)"

definition NodeMutable :: "task_status \<Rightarrow> bool \<Rightarrow> bool" where
  "NodeMutable s dispatched =
     (if dispatched then False
      else if taskIsDone s \<or> taskIsFailed s \<or> s = TaskRunning \<or> task_IsParked s then False
      else True)"

definition Claimable :: "bool \<Rightarrow> task_status \<Rightarrow> identity_ref \<Rightarrow> plan_id \<Rightarrow> node_status \<Rightarrow> bool" where
  "Claimable archived s assignee planID ns \<longleftrightarrow>
     \<not> archived \<and> s = TaskOpen \<and> assignee \<noteq> [] \<and> planID \<noteq> [] \<and> ns = NodeDispatched"

definition TaskClaimable :: "task \<Rightarrow> node_status \<Rightarrow> bool" where
  "TaskClaimable t ns = Claimable (task_IsArchived t) (t_status t) (t_assignee t) (t_planID t) ns"

definition IsBacklogInert :: "plan_id \<Rightarrow> bool" where
  "IsBacklogInert planID \<longleftrightarrow> planID = []"

definition ClaimableInPool :: "bool \<Rightarrow> task_status \<Rightarrow> plan_id \<Rightarrow> node_status \<Rightarrow> bool" where
  "ClaimableInPool archived s planID ns \<longleftrightarrow>
     \<not> archived \<and> s = TaskOpen \<and> planID \<noteq> [] \<and> ns = NodeDispatched"

subsection \<open>Inputs and result\<close>

record dispatch_record =
  dr_TaskID :: task_id
  dr_DispatchedAt :: time
  dr_MessageID :: gostring

record decision_outcome =
  do_TaskID :: task_id
  do_Outcome :: gostring

record node_replacement =
  nr_By :: "task_id list"
  nr_Reason :: gostring

record plan_node_view =
  nv_TaskID :: task_id
  nv_TaskStatus :: task_status
  nv_NodeStatus :: node_status
  nv_DependsOn :: "task_id list"
  nv_Dispatched :: bool
  nv_DispatchedAt :: time
  nv_MessageID :: gostring
  nv_Effective :: bool
  nv_SupersededBy :: "task_id list"
  nv_SupersededReason :: gostring

record plan_view =
  v_Nodes :: "plan_node_view list"
  v_ReadySet :: "task_id list"
  v_HasFailed :: bool
  v_Done :: int
  v_Total :: int
  v_AllDone :: bool
  v_HistoricalFailures :: "task_id list"
  v_ActiveFailures :: "task_id list"

text \<open>Everything the derivation reads.\<close>

record view_input =
  vi_tasks :: "task list"
  vi_edges :: "dependency list"
  vi_dispatch :: "dispatch_record list"
  vi_outcomes :: "decision_outcome list"
  vi_paused :: "task_id \<Rightarrow> bool"
  vi_inactive :: "(task_id \<times> node_replacement) list"

text \<open>Looking up a map that a loop of assignments built: the last assignment wins.\<close>

definition last_lookup :: "'v \<Rightarrow> ('k \<times> 'v) list \<Rightarrow> 'k \<Rightarrow> 'v" where
  "last_lookup d xs k = (case map_of (rev xs) k of None \<Rightarrow> d | Some v \<Rightarrow> v)"

subsection \<open>The index maps\<close>

definition statusOf :: "view_input \<Rightarrow> task_id \<Rightarrow> task_status" where
  "statusOf vi = last_lookup (TaskStatusOther []) (map (\<lambda>t. (t_id t, t_status t)) (vi_tasks vi))"

definition inPlan :: "view_input \<Rightarrow> task_id \<Rightarrow> bool" where
  "inPlan vi n \<longleftrightarrow> n \<in> set (map t_id (vi_tasks vi))"

definition isInactive :: "view_input \<Rightarrow> task_id \<Rightarrow> bool" where
  "isInactive vi n \<longleftrightarrow> n \<in> set (map fst (vi_inactive vi))"

definition isDispatched :: "view_input \<Rightarrow> task_id \<Rightarrow> bool" where
  "isDispatched vi n \<longleftrightarrow> n \<in> set (map dr_TaskID (vi_dispatch vi))"

definition outcomeOf :: "view_input \<Rightarrow> task_id \<Rightarrow> gostring" where
  "outcomeOf vi = last_lookup [] (map (\<lambda>o'. (do_TaskID o', do_Outcome o'))
     (filter (\<lambda>o'. inPlan vi (do_TaskID o')) (vi_outcomes vi)))"

text \<open>
  The loop over the edges: an edge within the plan that is no loopback is displayed; it gates
  if neither end is superseded.  \<open>condUp\<close> groups the conditional edges of a node by decision.
\<close>

definition shownEdges :: "view_input \<Rightarrow> dependency list" where
  "shownEdges vi =
     filter (\<lambda>e. inPlan vi (dep_From e) \<and> inPlan vi (dep_To e) \<and> \<not> IsLoopback e) (vi_edges vi)"

definition gateEdges :: "view_input \<Rightarrow> dependency list" where
  "gateEdges vi =
     filter (\<lambda>e. \<not> isInactive vi (dep_From e) \<and> \<not> isInactive vi (dep_To e)) (shownEdges vi)"

definition isConditional :: "dependency \<Rightarrow> bool" where
  "isConditional e \<longleftrightarrow> NormalizeEdgeKind (dep_Kind e) = EdgeConditional"

definition up_map :: "dependency list \<Rightarrow> (task_id, task_id) multimap" where
  "up_map es = build_adj (map (\<lambda>e. (dep_From e, dep_To e)) es)"

definition displayUp :: "view_input \<Rightarrow> task_id \<Rightarrow> task_id list" where
  "displayUp vi = mm_get (up_map (shownEdges vi))"

definition allUp :: "view_input \<Rightarrow> task_id \<Rightarrow> task_id list" where
  "allUp vi = mm_get (up_map (gateEdges vi))"

definition seqUp :: "view_input \<Rightarrow> task_id \<Rightarrow> task_id list" where
  "seqUp vi = mm_get (up_map (filter (\<lambda>e. \<not> isConditional e) (gateEdges vi)))"

definition condUp :: "view_input \<Rightarrow> task_id \<Rightarrow> (task_id, gostring) multimap" where
  "condUp vi n = build_adj (map (\<lambda>e. (dep_To e, dep_When e))
     (filter (\<lambda>e. isConditional e \<and> dep_From e = n) (gateEdges vi)))"

definition matched :: "view_input \<Rightarrow> task_id \<Rightarrow> gostring list \<Rightarrow> bool" where
  "matched vi decisionTo whens \<longleftrightarrow> list_ex (\<lambda>w. w = outcomeOf vi decisionTo) whens"

subsection \<open>Pruning\<close>

type_synonym cond_order = "(task_id \<times> gostring list) list \<Rightarrow> (task_id \<times> gostring list) list"

definition pruneImmune :: "view_input \<Rightarrow> task_id \<Rightarrow> bool" where
  "pruneImmune vi n \<longleftrightarrow> taskIsDone (statusOf vi n)"

definition dead_branch :: "cond_order \<Rightarrow> view_input \<Rightarrow> task_id \<Rightarrow> bool" where
  "dead_branch ord vi n \<longleftrightarrow>
     list_ex (\<lambda>(decisionTo, whens). taskIsDone (statusOf vi decisionTo) \<and> \<not> matched vi decisionTo whens)
       (range_order ord (condUp vi n))"

definition direct_prune :: "cond_order \<Rightarrow> view_input \<Rightarrow> task_id list" where
  "direct_prune ord vi =
     map t_id (filter (\<lambda>t. \<not> pruneImmune vi (t_id t) \<and> dead_branch ord vi (t_id t)) (vi_tasks vi))"

fun prune_pass :: "view_input \<Rightarrow> task list \<Rightarrow> task_id list \<Rightarrow> bool \<Rightarrow> task_id list \<times> bool" where
  "prune_pass vi [] skipped changed = (skipped, changed)"
| "prune_pass vi (t # ts) skipped changed =
     (let n = t_id t; ups = allUp vi n in
      if n \<in> set skipped \<or> pruneImmune vi n then prune_pass vi ts skipped changed
      else if ups = [] then prune_pass vi ts skipped changed
      else if list_all (\<lambda>up. up \<in> set skipped) ups then prune_pass vi ts (n # skipped) True
      else prune_pass vi ts skipped changed)"

definition prunable :: "view_input \<Rightarrow> task_id list \<Rightarrow> task_id \<Rightarrow> bool" where
  "prunable vi skipped n \<longleftrightarrow>
     n \<notin> set skipped \<and> \<not> pruneImmune vi n \<and> allUp vi n \<noteq> [] \<and>
     list_all (\<lambda>up. up \<in> set skipped) (allUp vi n)"

lemma prune_pass_Cons:
  "prune_pass vi (t # ts) skipped changed =
     (if prunable vi skipped (t_id t) then prune_pass vi ts (t_id t # skipped) True
      else prune_pass vi ts skipped changed)"
  by (simp add: prunable_def Let_def)

declare prune_pass.simps(2) [simp del]

lemma prune_pass_facts:
  "prune_pass vi ts skipped ch = (skipped', ch') \<Longrightarrow>
   set skipped \<subseteq> set skipped' \<and> set skipped' \<subseteq> set skipped \<union> set (map t_id ts) \<and> (ch \<longrightarrow> ch') \<and>
   (ch' \<and> \<not> ch \<longrightarrow> \<not> set skipped' \<subseteq> set skipped) \<and>
   (\<not> ch' \<longrightarrow> skipped' = skipped \<and> (\<forall>n \<in> set (map t_id ts). \<not> prunable vi skipped n))"
proof (induction ts arbitrary: skipped ch)
  case Nil
  then show ?case by simp
next
  case (Cons t ts)
  show ?case
  proof (cases "prunable vi skipped (t_id t)")
    case True
    with Cons.prems have "prune_pass vi ts (t_id t # skipped) True = (skipped', ch')"
      by (simp add: prune_pass_Cons)
    from Cons.IH [OF this] True show ?thesis by (auto simp: prunable_def)
  next
    case False
    with Cons.prems have "prune_pass vi ts skipped ch = (skipped', ch')"
      by (simp add: prune_pass_Cons)
    from Cons.IH [OF this] False show ?thesis by auto
  qed
qed

function prune_loop :: "view_input \<Rightarrow> task_id list \<Rightarrow> task_id list" where
  "prune_loop vi skipped =
     (case prune_pass vi (vi_tasks vi) skipped False of
        (skipped', changed) \<Rightarrow> if changed then prune_loop vi skipped' else skipped')"
  by pat_completeness auto
termination
proof (relation "measure (\<lambda>(vi, skipped). card (set (map t_id (vi_tasks vi)) - set skipped))", goal_cases)
  case 1
  show ?case by simp
next
  case (2 vi skipped skipped' changed)
  let ?ids = "set (map t_id (vi_tasks vi))"
  from 2 have "prune_pass vi (vi_tasks vi) skipped False = (skipped', True)" by simp
  from prune_pass_facts [OF this] obtain n
    where "set skipped \<subseteq> set skipped'" "n \<in> set skipped'" "n \<notin> set skipped" "n \<in> ?ids"
    by blast
  then have "?ids - set skipped' \<subset> ?ids - set skipped" by blast
  then have "card (?ids - set skipped') < card (?ids - set skipped)"
    by (rule psubset_card_mono [rotated]) simp
  then show ?case by simp
qed

declare prune_loop.simps [simp del]

definition skippedNodes :: "cond_order \<Rightarrow> view_input \<Rightarrow> task_id list" where
  "skippedNodes ord vi = prune_loop vi (direct_prune ord vi)"

subsection \<open>The loop over the nodes\<close>

definition forwardReady :: "cond_order \<Rightarrow> view_input \<Rightarrow> task_id \<Rightarrow> bool" where
  "forwardReady ord vi n \<longleftrightarrow>
     list_all (\<lambda>up. taskIsDone (statusOf vi up)) (seqUp vi n) \<and>
     list_all (\<lambda>(decisionTo, whens). taskIsDone (statusOf vi decisionTo) \<and> matched vi decisionTo whens)
       (range_order ord (condUp vi n))"

definition nodeStatusIn :: "cond_order \<Rightarrow> view_input \<Rightarrow> task_id list \<Rightarrow> task \<Rightarrow> node_status" where
  "nodeStatusIn ord vi skipped t =
     (let n = t_id t in
      if taskIsDone (t_status t) then NodeDone
      else if t_status t = TaskRunning then (if vi_paused vi n then NodePaused else NodeRunning)
      else if isInactive vi n \<and> taskIsFailed (t_status t) then NodeFailed
      else if n \<in> set skipped then NodeSkipped
      else if taskIsFailed (t_status t) then NodeFailed
      else DeriveNodeStatus (t_status t) (forwardReady ord vi n) (isDispatched vi n) (vi_paused vi n))"

definition nodeView :: "cond_order \<Rightarrow> view_input \<Rightarrow> task_id list \<Rightarrow> task \<Rightarrow> plan_node_view" where
  "nodeView ord vi skipped t =
     (let n = t_id t;
          replacement = last_lookup \<lparr>nr_By = [], nr_Reason = []\<rparr> (vi_inactive vi) n
      in \<lparr>nv_TaskID = n, nv_TaskStatus = t_status t, nv_NodeStatus = nodeStatusIn ord vi skipped t,
          nv_DependsOn = displayUp vi n, nv_Dispatched = isDispatched vi n,
          nv_DispatchedAt = last_lookup zero_time
            (map (\<lambda>d. (dr_TaskID d, dr_DispatchedAt d)) (vi_dispatch vi)) n,
          nv_MessageID = last_lookup []
            (map (\<lambda>d. (dr_TaskID d, dr_MessageID d)) (vi_dispatch vi)) n,
          nv_Effective = (\<not> isInactive vi n), nv_SupersededBy = nr_By replacement,
          nv_SupersededReason = nr_Reason replacement\<rparr>)"

definition add_node :: "cond_order \<Rightarrow> view_input \<Rightarrow> task_id list \<Rightarrow> plan_view \<Rightarrow> task \<Rightarrow> plan_view" where
  "add_node ord vi skipped v t =
     (let n = t_id t;
          effective = (\<not> isInactive vi n);
          ns = nodeStatusIn ord vi skipped t;
          v1 = v\<lparr>v_Nodes := v_Nodes v @ [nodeView ord vi skipped t]\<rparr>;
          v2 = (if ns = NodeFailed
                then (if effective
                      then v1\<lparr>v_HasFailed := True, v_ActiveFailures := v_ActiveFailures v1 @ [n]\<rparr>
                      else v1\<lparr>v_HasFailed := True, v_HistoricalFailures := v_HistoricalFailures v1 @ [n]\<rparr>)
                else v1)
      in if \<not> effective then v2
         else let v3 = v2\<lparr>v_Total := v_Total v2 + 1\<rparr> in
           (case ns of
              NodeReady \<Rightarrow> v3\<lparr>v_ReadySet := v_ReadySet v3 @ [n]\<rparr>
            | NodeDone \<Rightarrow> v3\<lparr>v_Done := v_Done v3 + 1\<rparr>
            | _ \<Rightarrow> v3))"

definition empty_view :: plan_view where
  "empty_view = \<lparr>v_Nodes = [], v_ReadySet = [], v_HasFailed = False, v_Done = 0, v_Total = 0,
     v_AllDone = False, v_HistoricalFailures = [], v_ActiveFailures = []\<rparr>"

definition DerivePlanViewWithOptions :: "cond_order \<Rightarrow> view_input \<Rightarrow> plan_view" where
  "DerivePlanViewWithOptions ord vi =
     (let skipped = skippedNodes ord vi;
          v = foldl (add_node ord vi skipped) empty_view (vi_tasks vi);
          activeCount = length (filter (\<lambda>t. \<not> isInactive vi (t_id t)) (vi_tasks vi))
      in v\<lparr>v_AllDone := 0 < activeCount \<and>
            list_all (\<lambda>n. nv_Effective n \<longrightarrow> nv_NodeStatus n = NodeDone \<or> nv_NodeStatus n = NodeSkipped)
              (v_Nodes v)\<rparr>)"

definition DerivePlanView :: "cond_order \<Rightarrow> view_input \<Rightarrow> plan_view" where
  "DerivePlanView ord vi = DerivePlanViewWithOptions ord (vi\<lparr>vi_inactive := []\<rparr>)"

subsection \<open>The index maps as relations on the edges\<close>

lemma set_up_map: "u \<in> set (mm_get (up_map es) n) \<longleftrightarrow> (\<exists>e \<in> set es. dep_From e = n \<and> dep_To e = u)"
  unfolding up_map_def set_build_adj by force

lemma set_ups:
  "u \<in> set (allUp vi n) \<longleftrightarrow> (\<exists>e \<in> set (gateEdges vi). dep_From e = n \<and> dep_To e = u)"
  "u \<in> set (seqUp vi n) \<longleftrightarrow> (\<exists>e \<in> set (gateEdges vi). \<not> isConditional e \<and> dep_From e = n \<and> dep_To e = u)"
  by (auto simp: allUp_def seqUp_def set_up_map)

definition cond_edge :: "view_input \<Rightarrow> task_id \<Rightarrow> task_id \<Rightarrow> gostring \<Rightarrow> bool" where
  "cond_edge vi n d w \<longleftrightarrow>
     (\<exists>e \<in> set (gateEdges vi). isConditional e \<and> dep_From e = n \<and> dep_To e = d \<and> dep_When e = w)"

definition whens_of :: "view_input \<Rightarrow> task_id \<Rightarrow> task_id \<Rightarrow> gostring list" where
  "whens_of vi n d = map dep_When
     (filter (\<lambda>e. isConditional e \<and> dep_From e = n \<and> dep_To e = d) (gateEdges vi))"

lemma condUp_entries:
  "(d, whens) \<in> set (condUp vi n) \<longleftrightarrow> (\<exists>w. cond_edge vi n d w) \<and> whens = whens_of vi n d"
proof -
  have "map snd (filter (\<lambda>e. fst e = d) (map (\<lambda>e. (dep_To e, dep_When e))
      (filter (\<lambda>e. isConditional e \<and> dep_From e = n) es))) =
    map dep_When (filter (\<lambda>e. isConditional e \<and> dep_From e = n \<and> dep_To e = d) es)" for es
    by (induction es) auto
  then show ?thesis
    unfolding condUp_def build_adj_entries whens_of_def by (auto simp: cond_edge_def image_iff)
qed

lemma matched_whens: "matched vi d (whens_of vi n d) \<longleftrightarrow> cond_edge vi n d (outcomeOf vi d)"
  by (force simp: matched_def whens_of_def cond_edge_def list_ex_iff)

text \<open>
  A decision of \<open>n\<close> is settled against it when it is done with an outcome that labels no
  conditional edge from \<open>n\<close> to it, and settled for it when the outcome labels one.
\<close>

definition decided_against :: "view_input \<Rightarrow> task_id \<Rightarrow> task_id \<Rightarrow> bool" where
  "decided_against vi n d \<longleftrightarrow> (\<exists>w. cond_edge vi n d w) \<and> taskIsDone (statusOf vi d) \<and>
     \<not> cond_edge vi n d (outcomeOf vi d)"

lemma dead_branch_iff: "dead_branch ord vi n \<longleftrightarrow> (\<exists>d. decided_against vi n d)"
  unfolding dead_branch_def list_ex_iff set_range_order decided_against_def
  by (auto simp: condUp_entries matched_whens Bex_def)

lemma forwardReady_iff:
  "forwardReady ord vi n \<longleftrightarrow>
     (\<forall>u \<in> set (seqUp vi n). taskIsDone (statusOf vi u)) \<and>
     (\<forall>d w. cond_edge vi n d w \<longrightarrow> taskIsDone (statusOf vi d) \<and> cond_edge vi n d (outcomeOf vi d))"
  unfolding forwardReady_def list_all_iff set_range_order
  by (auto simp: condUp_entries matched_whens Ball_def)

subsection \<open>Pruning is a least fixpoint\<close>

inductive pruned :: "view_input \<Rightarrow> task_id \<Rightarrow> bool" for vi where
  direct: "inPlan vi n \<Longrightarrow> \<not> taskIsDone (statusOf vi n) \<Longrightarrow> decided_against vi n d \<Longrightarrow> pruned vi n"
| onward: "inPlan vi n \<Longrightarrow> \<not> taskIsDone (statusOf vi n) \<Longrightarrow> allUp vi n \<noteq> [] \<Longrightarrow>
    (\<And>u. u \<in> set (allUp vi n) \<Longrightarrow> pruned vi u) \<Longrightarrow> pruned vi n"

inductive_cases prunedE: "pruned vi n"

lemma pass_sound:
  "prune_pass vi ts skipped ch = (skipped', ch') \<Longrightarrow> (\<And>t. t \<in> set ts \<Longrightarrow> inPlan vi (t_id t)) \<Longrightarrow>
   (\<And>n. n \<in> set skipped \<Longrightarrow> pruned vi n) \<Longrightarrow> n \<in> set skipped' \<Longrightarrow> pruned vi n"
proof (induction ts arbitrary: skipped ch)
  case Nil
  then show ?case by simp
next
  case (Cons t ts)
  show ?case
  proof (cases "prunable vi skipped (t_id t)")
    case True
    then have "pruned vi (t_id t)"
      using Cons.prems(2) [of t] Cons.prems(3)
      by - (rule onward, simp_all add: prunable_def pruneImmune_def list_all_iff)
    then have "pruned vi m" if "m \<in> set (t_id t # skipped)" for m
      using that Cons.prems(3) by (cases "m = t_id t") simp_all
    moreover have "prune_pass vi ts (t_id t # skipped) True = (skipped', ch')"
      using Cons.prems(1) True by (simp add: prune_pass_Cons)
    ultimately show ?thesis
      using Cons.IH [of "t_id t # skipped" True] Cons.prems(2,4) by simp
  next
    case False
    with Cons.prems(1) have "prune_pass vi ts skipped ch = (skipped', ch')"
      by (simp add: prune_pass_Cons)
    then show ?thesis
      using Cons.IH [of skipped ch] Cons.prems(2,3,4) by simp
  qed
qed

lemma loop_exact:
  assumes "\<And>n. n \<in> set skipped \<Longrightarrow> pruned vi n"
    and "\<And>n d. inPlan vi n \<Longrightarrow> \<not> taskIsDone (statusOf vi n) \<Longrightarrow> decided_against vi n d \<Longrightarrow> n \<in> set skipped"
  shows "set (prune_loop vi skipped) = {n. pruned vi n}"
  using assms
proof (induction vi skipped rule: prune_loop.induct)
  case (1 vi skipped)
  obtain skipped' ch where p: "prune_pass vi (vi_tasks vi) skipped False = (skipped', ch)" by force
  note facts = prune_pass_facts [OF p]
  have sound: "pruned vi n" if "n \<in> set skipped'" for n
    using pass_sound [OF p _ "1.prems"(1) that] by (auto simp: inPlan_def)
  show ?case
  proof (cases ch)
    case True
    have "set (prune_loop vi skipped') = {n. pruned vi n}"
      by (rule "1.IH" [OF p [symmetric] True sound]) (use facts "1.prems"(2) in blast)+
    with p True show ?thesis by (subst prune_loop.simps) simp
  next
    case False
    with facts have stable: "skipped' = skipped" "\<And>n. inPlan vi n \<Longrightarrow> \<not> prunable vi skipped n"
      by (auto simp: inPlan_def)
    have "n \<in> set skipped" if "pruned vi n" for n
      using that
    proof (induction rule: pruned.induct)
      case (direct n d)
      then show ?case by (rule "1.prems"(2))
    next
      case (onward n)
      with stable(2) [of n] show ?case by (auto simp: prunable_def pruneImmune_def list_all_iff)
    qed
    with "1.prems"(1) p False stable(1) show ?thesis by (subst prune_loop.simps) auto
  qed
qed

lemma skippedNodes_set: "set (skippedNodes ord vi) = {n. pruned vi n}"
  unfolding skippedNodes_def
proof (rule loop_exact)
  show "pruned vi n" if "n \<in> set (direct_prune ord vi)" for n
    using that by (auto simp: direct_prune_def pruneImmune_def dead_branch_iff inPlan_def intro: direct)
  show "n \<in> set (direct_prune ord vi)"
    if "inPlan vi n" "\<not> taskIsDone (statusOf vi n)" "decided_against vi n d" for n d
    using that by (auto simp: direct_prune_def pruneImmune_def dead_branch_iff inPlan_def)
qed

subsection \<open>The view in closed form\<close>

definition effective :: "view_input \<Rightarrow> task \<Rightarrow> bool" where
  "effective vi t \<longleftrightarrow> \<not> isInactive vi (t_id t)"

lemma fold_nodes:
  fixes ord vi skipped
  defines "ns \<equiv> nodeStatusIn ord vi skipped"
  shows
  "v_Nodes (foldl (add_node ord vi skipped) v ts) = v_Nodes v @ map (nodeView ord vi skipped) ts"
  "v_ReadySet (foldl (add_node ord vi skipped) v ts) =
     v_ReadySet v @ map t_id (filter (\<lambda>t. effective vi t \<and> ns t = NodeReady) ts)"
  "v_ActiveFailures (foldl (add_node ord vi skipped) v ts) =
     v_ActiveFailures v @ map t_id (filter (\<lambda>t. effective vi t \<and> ns t = NodeFailed) ts)"
  "v_HistoricalFailures (foldl (add_node ord vi skipped) v ts) =
     v_HistoricalFailures v @ map t_id (filter (\<lambda>t. \<not> effective vi t \<and> ns t = NodeFailed) ts)"
  "v_Done (foldl (add_node ord vi skipped) v ts) =
     v_Done v + int (length (filter (\<lambda>t. effective vi t \<and> ns t = NodeDone) ts))"
  "v_Total (foldl (add_node ord vi skipped) v ts) =
     v_Total v + int (length (filter (effective vi) ts))"
  "v_HasFailed (foldl (add_node ord vi skipped) v ts) =
     (v_HasFailed v \<or> (\<exists>t \<in> set ts. ns t = NodeFailed))"
  unfolding ns_def
  by (induction ts arbitrary: v)
    (simp_all add: add_node_def Let_def effective_def split: node_status.split)

lemmas view_defs = DerivePlanViewWithOptions_def Let_def fold_nodes empty_view_def

lemma statusOf_task: "distinct (map t_id (vi_tasks vi)) \<Longrightarrow> t \<in> set (vi_tasks vi) \<Longrightarrow> statusOf vi (t_id t) = t_status t"
proof -
  assume d: "distinct (map t_id (vi_tasks vi))" and t: "t \<in> set (vi_tasks vi)"
  let ?xs = "rev (map (\<lambda>t. (t_id t, t_status t)) (vi_tasks vi))"
  have "distinct (map fst ?xs)"
    using d by (simp add: rev_map [symmetric] comp_def)
  moreover have "(t_id t, t_status t) \<in> set ?xs" using t by auto
  ultimately have "map_of ?xs (t_id t) = Some (t_status t)" by (rule map_of_is_SomeI)
  then show ?thesis by (simp add: statusOf_def last_lookup_def)
qed

lemma pruned_not_done: "pruned vi n \<Longrightarrow> \<not> taskIsDone (statusOf vi n)"
  by (erule prunedE)

text \<open>A node whose forward prerequisites are met is never pruned.\<close>

lemma ready_not_pruned: "forwardReady ord vi n \<Longrightarrow> \<not> pruned vi n"
proof
  assume ready: "forwardReady ord vi n" and "pruned vi n"
  from \<open>pruned vi n\<close> show False
  proof (rule prunedE)
    fix d assume "decided_against vi n d"
    with ready show False by (auto simp: forwardReady_iff decided_against_def)
  next
    assume "allUp vi n \<noteq> []" "\<And>u. u \<in> set (allUp vi n) \<Longrightarrow> pruned vi u"
    then obtain u where u: "u \<in> set (allUp vi n)" "pruned vi u" by (cases "allUp vi n") auto
    then have "u \<in> set (seqUp vi n) \<or> (\<exists>w. cond_edge vi n u w)"
      by (auto simp: set_ups cond_edge_def)
    with ready have "taskIsDone (statusOf vi u)" by (auto simp: forwardReady_iff)
    with pruned_not_done [OF u(2)] show False by simp
  qed
qed

lemma nodeStatusIn_cases:
  "nodeStatusIn ord vi (skippedNodes ord vi) t = NodeReady \<longleftrightarrow>
     t_status t \<notin> {TaskCompleted, TaskFailed, TaskDiscarded, TaskBlocked, TaskRunning} \<and>
     \<not> isDispatched vi (t_id t) \<and> forwardReady ord vi (t_id t)"
  "nodeStatusIn ord vi skipped t = NodeDone \<longleftrightarrow> t_status t = TaskCompleted"
  using ready_not_pruned [of ord vi "t_id t"]
  by (auto simp: nodeStatusIn_def Let_def skippedNodes_set DeriveNodeStatus_def taskIsDone_def
      taskIsFailed_def)

lemma nodeStatusIn_settled:
  "effective vi t \<Longrightarrow>
   nodeStatusIn ord vi (skippedNodes ord vi) t \<in> {NodeDone, NodeSkipped} \<longleftrightarrow>
     t_status t = TaskCompleted \<or> t_status t = TaskDiscarded \<or>
     t_status t \<noteq> TaskRunning \<and> pruned vi (t_id t)"
  by (auto simp: nodeStatusIn_def Let_def skippedNodes_set DeriveNodeStatus_def taskIsDone_def
      taskIsFailed_def effective_def)

subsection \<open>Properties\<close>

text \<open>
  The view is a function of the stored facts.  The order in which the runtime iterates
  the map of conditional upstreams influences nothing: every order yields the same view.
\<close>

theorem view_deterministic:
  "DerivePlanViewWithOptions ord vi = DerivePlanViewWithOptions ord' vi"
proof -
  have db: "dead_branch ord vi = dead_branch ord' vi" and fr: "forwardReady ord vi = forwardReady ord' vi"
    by (simp_all add: fun_eq_iff dead_branch_iff forwardReady_iff)
  have ns: "nodeStatusIn ord vi = nodeStatusIn ord' vi"
    by (simp add: fun_eq_iff nodeStatusIn_def fr Let_def)
  have nv: "nodeView ord vi = nodeView ord' vi"
    by (simp add: fun_eq_iff nodeView_def ns Let_def)
  have "add_node ord vi = add_node ord' vi"
    by (simp add: fun_eq_iff add_node_def ns nv Let_def)
  moreover have "skippedNodes ord vi = skippedNodes ord' vi"
    by (simp add: skippedNodes_def direct_prune_def db)
  ultimately show ?thesis by (simp add: DerivePlanViewWithOptions_def)
qed

text \<open>
  C6: pruning computes the least fixpoint.  The nodes the passes mark are exactly those that
  can be derived to be dead: a task of the plan that is not completed and that some completed
  decision routed elsewhere, or whose forward upstreams are all dead and at least one.
\<close>

theorem pruning_exact:
  "set (skippedNodes ord vi) = {n. pruned vi n}"
  by (rule skippedNodes_set)

text \<open>
  C5: the ready set is exact.  On a plan whose tasks have distinct ids, a node is offered for
  dispatch if and only if it is current, has no dispatch record, is not running, parked or
  concluded, every task it hard-depends on is completed, and every decision it is conditional
  on is completed with an outcome that labels one of its edges; in particular no pruned node
  is ever offered.
\<close>

theorem ready_set_exact:
  assumes "distinct (map t_id (vi_tasks vi))" "t \<in> set (vi_tasks vi)"
  shows "t_id t \<in> set (v_ReadySet (DerivePlanViewWithOptions ord vi)) \<longleftrightarrow>
    \<not> isInactive vi (t_id t) \<and> \<not> isDispatched vi (t_id t) \<and>
    t_status t \<notin> {TaskCompleted, TaskFailed, TaskDiscarded, TaskBlocked, TaskRunning} \<and>
    (\<forall>u \<in> set (seqUp vi (t_id t)). statusOf vi u = TaskCompleted) \<and>
    (\<forall>d w. cond_edge vi (t_id t) d w \<longrightarrow>
       statusOf vi d = TaskCompleted \<and> cond_edge vi (t_id t) d (outcomeOf vi d))"
proof -
  have uniq: "t' = t" if "t' \<in> set (vi_tasks vi)" "t_id t' = t_id t" for t'
    using assms that by (auto simp: distinct_map inj_on_def)
  have "t_id t \<in> set (v_ReadySet (DerivePlanViewWithOptions ord vi)) \<longleftrightarrow>
      (\<exists>t' \<in> set (vi_tasks vi). t_id t' = t_id t \<and> effective vi t' \<and>
         nodeStatusIn ord vi (skippedNodes ord vi) t' = NodeReady)"
    by (auto simp: view_defs image_iff)
  also have "\<dots> \<longleftrightarrow> effective vi t \<and> nodeStatusIn ord vi (skippedNodes ord vi) t = NodeReady"
    using uniq assms(2) by blast
  finally show ?thesis
    by (auto simp: nodeStatusIn_cases forwardReady_iff effective_def taskIsDone_def)
qed

definition sample_node :: "gostring \<Rightarrow> task_status \<Rightarrow> task" where
  "sample_node i s = (case NewTask id \<lparr>ti_ID = i, ti_ProjectID = ''p1'', ti_Title = i,
     ti_Description = [], ti_DerivedFromIssue = [], ti_CreatedBy = ''user:u1'', ti_CreatedAt = 5,
     ti_OrgNumber = 1, ti_Model = [], ti_DispatchMode = DispatchUnset,
     ti_DeliveryContract = DeliveryUnset, ti_RequiredCapabilities = [], ti_NodeID = [],
     ti_StageID = [], ti_FollowsTaskID = [], ti_OriginVerdictID = []\<rparr> of
       Ok t \<Rightarrow> t\<lparr>t_status := s\<rparr> | Err _ \<Rightarrow> undefined)"

text \<open>A decision that passed: the task behind its pass edge is offered, the other one pruned.\<close>

definition sample_view :: view_input where
  "sample_view = \<lparr>vi_tasks = [sample_node ''decide'' TaskCompleted, sample_node ''ship'' TaskOpen,
       sample_node ''redo'' TaskOpen],
     vi_edges = [sample_edge ''ship'' ''decide'' EdgeConditional ''pass'' 0,
       sample_edge ''redo'' ''decide'' EdgeConditional ''reject'' 0],
     vi_dispatch = [], vi_outcomes = [\<lparr>do_TaskID = ''decide'', do_Outcome = ''pass''\<rparr>],
     vi_paused = (\<lambda>_. False), vi_inactive = []\<rparr>"

theorem ready_set_exact_witness:
  "statusOf sample_view ''decide'' = TaskCompleted \<and>
   cond_edge sample_view ''ship'' ''decide'' (outcomeOf sample_view ''decide'')"
proof -
  let ?t = "sample_node ''ship'' TaskOpen"
  have "distinct (map t_id (vi_tasks sample_view))" "t_id ?t = ''ship''"
    "''ship'' \<in> set (v_ReadySet (DerivePlanViewWithOptions id sample_view))"
    by code_simp+
  moreover have "?t \<in> set (vi_tasks sample_view)" by (simp add: sample_view_def)
  moreover have "cond_edge sample_view ''ship'' ''decide'' ''pass''" by code_simp
  ultimately show ?thesis using ready_set_exact [of sample_view ?t id] by auto
qed

text \<open>
  a plan reports completion exactly when its current nodes are settled.  \<open>AllDone\<close> holds
  if and only if there is a current node and every current node is completed, discarded, or
  pruned and not running; then nothing is ready and no current node counts as failed.
\<close>

theorem all_done_exact:
  "(v_AllDone (DerivePlanViewWithOptions ord vi) \<longleftrightarrow>
      (\<exists>t \<in> set (vi_tasks vi). effective vi t) \<and>
      (\<forall>t \<in> set (vi_tasks vi). effective vi t \<longrightarrow>
         t_status t = TaskCompleted \<or> t_status t = TaskDiscarded \<or>
         t_status t \<noteq> TaskRunning \<and> pruned vi (t_id t))) \<and>
   (v_AllDone (DerivePlanViewWithOptions ord vi) \<longrightarrow>
      v_ReadySet (DerivePlanViewWithOptions ord vi) = [] \<and>
      v_ActiveFailures (DerivePlanViewWithOptions ord vi) = [])"
proof -
  let ?ns = "nodeStatusIn ord vi (skippedNodes ord vi)"
  have settled: "v_AllDone (DerivePlanViewWithOptions ord vi) \<longleftrightarrow>
      (\<exists>t \<in> set (vi_tasks vi). effective vi t) \<and>
      (\<forall>t \<in> set (vi_tasks vi). effective vi t \<longrightarrow> ?ns t \<in> {NodeDone, NodeSkipped})"
    by (auto simp: view_defs list_all_iff nodeView_def effective_def filter_empty_conv)
  have "v_ReadySet (DerivePlanViewWithOptions ord vi) = [] \<and>
      v_ActiveFailures (DerivePlanViewWithOptions ord vi) = []"
    if "\<forall>t \<in> set (vi_tasks vi). effective vi t \<longrightarrow> ?ns t \<in> {NodeDone, NodeSkipped}"
    using that by (fastforce simp: view_defs filter_empty_conv)
  with settled nodeStatusIn_settled show ?thesis by blast
qed

definition sample_view_done :: view_input where
  "sample_view_done = sample_view\<lparr>vi_tasks := [sample_node ''decide'' TaskCompleted,
     sample_node ''ship'' TaskCompleted, sample_node ''redo'' TaskOpen]\<rparr>"

theorem all_done_exact_witness:
  "v_AllDone (DerivePlanViewWithOptions id sample_view_done) \<and> pruned sample_view_done ''redo''"
proof -
  have "v_AllDone (DerivePlanViewWithOptions id sample_view_done)"
    "\<not> isInactive sample_view_done ''redo''"
    "t_id (sample_node ''redo'' TaskOpen) = ''redo''" "t_status (sample_node ''redo'' TaskOpen) = TaskOpen"
    by code_simp+
  moreover have "sample_node ''redo'' TaskOpen \<in> set (vi_tasks sample_view_done)"
    by (simp add: sample_view_done_def)
  ultimately show ?thesis
    using all_done_exact [of id sample_view_done] unfolding effective_def by fastforce
qed

text \<open>
  the counters and failure lists of the view.  Total counts the current tasks, done the
  completed ones among them; the active failures are the current failed tasks outside the
  pruned branches, the historical ones the superseded failed tasks, pruned or not, each in the
  order of the tasks; and the view reports no failure exactly when both lists are empty.
\<close>

theorem view_progress:
  "let v = DerivePlanViewWithOptions ord vi in
   v_Total v = int (length (filter (effective vi) (vi_tasks vi))) \<and>
   v_Done v = int (length (filter (\<lambda>t. effective vi t \<and> t_status t = TaskCompleted) (vi_tasks vi))) \<and>
   v_ActiveFailures v =
     map t_id (filter (\<lambda>t. effective vi t \<and> t_status t = TaskFailed \<and> \<not> pruned vi (t_id t)) (vi_tasks vi)) \<and>
   v_HistoricalFailures v =
     map t_id (filter (\<lambda>t. \<not> effective vi t \<and> t_status t = TaskFailed) (vi_tasks vi)) \<and>
   (\<not> v_HasFailed v \<longleftrightarrow> v_ActiveFailures v = [] \<and> v_HistoricalFailures v = []) \<and>
   map nv_TaskID (v_Nodes v) = map t_id (vi_tasks vi)"
proof -
  have failed: "nodeStatusIn ord vi (skippedNodes ord vi) t = NodeFailed \<longleftrightarrow>
      t_status t = TaskFailed \<and> (effective vi t \<longrightarrow> \<not> pruned vi (t_id t))" for t
    by (auto simp: nodeStatusIn_def Let_def skippedNodes_set DeriveNodeStatus_def taskIsDone_def
        taskIsFailed_def effective_def)
  show ?thesis
    by (auto simp: view_defs nodeStatusIn_cases failed filter_empty_conv nodeView_def comp_def
        intro!: arg_cong [of _ _ "map t_id"] filter_cong)
qed

text \<open>
  Which nodes a topology edit may touch.  A node is mutable if and only if it has no
  dispatch record and either derives to blocked or ready, whatever its upstreams, or its task
  is discarded or in the retired blocked status.
\<close>

theorem node_mutable_iff:
  "NodeMutable s dispatched \<longleftrightarrow>
     \<not> dispatched \<and> (DeriveNodeStatus s up dispatched paused \<in> {NodeBlocked, NodeReady} \<or>
                     s = TaskDiscarded \<or> s = TaskBlocked)"
  by (auto simp: NodeMutable_def DeriveNodeStatus_def taskIsDone_def taskIsFailed_def task_IsParked_def)

end
