(* ===== verification/Plan_Wait.thy ===== *)
theory Plan_Wait
  imports PM_Types Plan_View "HOL-Library.List_Lexorder" "HOL-Library.Char_ord"
begin

section \<open>Waits, the frontier and deadlines (plan_blocked_on.go, plan_frontier.go, plan_deadline.go)\<close>

text \<open>
  The observational snapshots of why a node waits, the frontier board that groups them, the
  queue of pending decisions, and the policy that gives a wait its deadline and action.
\<close>

subsection \<open>Wait types\<close>

datatype wait_type =
    WaitUpstreamCompletion | WaitAcceptanceVerdict | WaitStageBarrier | WaitHumanDecision
  | WaitExternalEvent | WaitExecutorLiveness | WaitTimeoutOnly | WaitOther gostring

definition wait_IsValid :: "wait_type \<Rightarrow> bool" where
  "wait_IsValid w \<longleftrightarrow> (case w of WaitOther _ \<Rightarrow> False | _ \<Rightarrow> True)"

definition frontierWaitOrder :: "wait_type list" where
  "frontierWaitOrder = [WaitUpstreamCompletion, WaitAcceptanceVerdict, WaitStageBarrier,
     WaitHumanDecision, WaitExternalEvent, WaitExecutorLiveness, WaitTimeoutOnly]"

text \<open>The canonical display order, as the order of the type; unknown types come last.\<close>

fun wait_rank :: "wait_type \<Rightarrow> nat \<times> gostring" where
  "wait_rank WaitUpstreamCompletion = (0, [])"
| "wait_rank WaitAcceptanceVerdict = (1, [])"
| "wait_rank WaitStageBarrier = (2, [])"
| "wait_rank WaitHumanDecision = (3, [])"
| "wait_rank WaitExternalEvent = (4, [])"
| "wait_rank WaitExecutorLiveness = (5, [])"
| "wait_rank WaitTimeoutOnly = (6, [])"
| "wait_rank (WaitOther s) = (7, s)"

lemma wait_rank_inj: "wait_rank a = wait_rank b \<Longrightarrow> a = b"
  by (cases a; cases b) simp_all

instantiation wait_type :: linorder
begin

definition less_eq_wait_type :: "wait_type \<Rightarrow> wait_type \<Rightarrow> bool" where
  "less_eq_wait_type a b \<longleftrightarrow> fst (wait_rank a) < fst (wait_rank b) \<or>
     fst (wait_rank a) = fst (wait_rank b) \<and> snd (wait_rank a) \<le> snd (wait_rank b)"

definition less_wait_type :: "wait_type \<Rightarrow> wait_type \<Rightarrow> bool" where
  "less_wait_type a b \<longleftrightarrow> a \<le> b \<and> \<not> b \<le> (a :: wait_type)"

instance
proof
  fix a b c :: wait_type
  show "a < b \<longleftrightarrow> a \<le> b \<and> \<not> b \<le> a" by (rule less_wait_type_def)
  show "a \<le> a" by (simp add: less_eq_wait_type_def)
  show "a \<le> b \<Longrightarrow> b \<le> c \<Longrightarrow> a \<le> c" by (auto simp: less_eq_wait_type_def)
  show "a \<le> b \<Longrightarrow> b \<le> a \<Longrightarrow> a = b"
    by (rule wait_rank_inj) (auto simp: less_eq_wait_type_def prod_eq_iff)
  show "a \<le> b \<or> b \<le> a" by (auto simp: less_eq_wait_type_def)
qed

end

lemma frontierWaitOrder_sorted: "sorted frontierWaitOrder" "distinct frontierWaitOrder"
  by (simp_all add: frontierWaitOrder_def less_eq_wait_type_def)

lemma set_frontierWaitOrder: "set frontierWaitOrder = {w. wait_IsValid w}"
proof -
  have "w \<in> set frontierWaitOrder \<longleftrightarrow> wait_IsValid w" for w
    by (cases w) (simp_all add: frontierWaitOrder_def wait_IsValid_def)
  then show ?thesis by auto
qed

record blocked_on =
  bo_NodeID :: gostring
  bo_TaskID :: task_id
  bo_PlanID :: plan_id
  bo_WaitType :: wait_type
  bo_WaitKeys :: "gostring list"
  bo_TriggerCondition :: gostring
  bo_WaitedSince :: time
  bo_Deadline :: time
  bo_OnTimeout :: gostring
  bo_LastProbeAt :: time
  bo_ProbeCount :: int

subsection \<open>The frontier\<close>

definition nodeStatus_IsTerminal :: "node_status \<Rightarrow> bool" where
  "nodeStatus_IsTerminal s \<longleftrightarrow>
     (case s of NodeDone \<Rightarrow> True | NodeFailed \<Rightarrow> True | NodeSkipped \<Rightarrow> True | _ \<Rightarrow> False)"

record frontier_group =
  fg_WaitType :: wait_type
  fg_Nodes :: "blocked_on list"

record plan_frontier =
  fr_Groups :: "frontier_group list"
  fr_Total :: int

fun extra_order :: "wait_type list \<Rightarrow> blocked_on list \<Rightarrow> wait_type list" where
  "extra_order seen [] = []"
| "extra_order seen (b # bs) =
     (if \<not> wait_IsValid (bo_WaitType b) \<and> bo_WaitType b \<notin> set seen
      then bo_WaitType b # extra_order (bo_WaitType b # seen) bs
      else extra_order seen bs)"

definition append_group ::
  "(wait_type, blocked_on) multimap \<Rightarrow> wait_type \<Rightarrow> frontier_group list \<Rightarrow> frontier_group list" where
  "append_group byType wt groups =
     (let nodes = mm_get byType wt in
      if 0 < length nodes then groups @ [\<lparr>fg_WaitType = wt, fg_Nodes = nodes\<rparr>] else groups)"

definition DeriveFrontier :: "blocked_on list \<Rightarrow> plan_frontier" where
  "DeriveFrontier blocked =
     (let byType = build_adj (map (\<lambda>b. (bo_WaitType b, b)) blocked);
          groups = fold (append_group byType) frontierWaitOrder [];
          groups = fold (append_group byType) (extra_order [] blocked) groups
      in \<lparr>fr_Groups = groups, fr_Total = int (length blocked)\<rparr>)"

definition DerivePendingDecisions :: "blocked_on list \<Rightarrow> blocked_on list" where
  "DerivePendingDecisions blocked = filter (\<lambda>b. bo_WaitType b = WaitHumanDecision) blocked"

lemma extra_order_dedup:
  "extra_order seen bs = dedup_acc seen (filter (\<lambda>w. \<not> wait_IsValid w) (map bo_WaitType bs))"
  by (induction seen bs rule: extra_order.induct) auto

lemma by_type: "mm_get (build_adj (map (\<lambda>b. (bo_WaitType b, b)) bs)) w = filter (\<lambda>b. bo_WaitType b = w) bs"
  by (induction bs) (auto simp: filter_map comp_def)

lemma fold_groups:
  "fold (append_group m) ws gs =
   gs @ map (\<lambda>w. \<lparr>fg_WaitType = w, fg_Nodes = mm_get m w\<rparr>) (filter (\<lambda>w. mm_get m w \<noteq> []) ws)"
  by (induction ws arbitrary: gs) (auto simp: append_group_def Let_def)

definition board_order :: "blocked_on list \<Rightarrow> wait_type list" where
  "board_order bs = filter (\<lambda>w. w \<in> bo_WaitType ` set bs) (frontierWaitOrder @ extra_order [] bs)"

lemma DeriveFrontier_groups:
  "fr_Groups (DeriveFrontier bs) =
   map (\<lambda>w. \<lparr>fg_WaitType = w, fg_Nodes = filter (\<lambda>b. bo_WaitType b = w) bs\<rparr>) (board_order bs)"
proof -
  have "filter (\<lambda>b. bo_WaitType b = w) bs \<noteq> [] \<longleftrightarrow> w \<in> bo_WaitType ` set bs" for w
    by (auto simp: filter_empty_conv)
  then show ?thesis
    by (simp add: DeriveFrontier_def Let_def fold_groups by_type board_order_def del: mm_get_build_adj)
qed

lemma board_order_facts:
  "distinct (board_order bs)" "set (board_order bs) = bo_WaitType ` set bs"
proof -
  have extra: "distinct (extra_order [] bs)" "set (extra_order [] bs) = {w \<in> bo_WaitType ` set bs. \<not> wait_IsValid w}"
    by (auto simp: extra_order_dedup distinct_dedup_acc set_dedup_acc)
  then show "distinct (board_order bs)"
    using frontierWaitOrder_sorted(2) by (auto simp: board_order_def set_frontierWaitOrder)
  show "set (board_order bs) = bo_WaitType ` set bs"
    using extra(2) by (auto simp: board_order_def set_frontierWaitOrder)
qed

lemma mset_groups:
  "distinct ws \<Longrightarrow> set ws = f ` set bs \<Longrightarrow>
   mset (concat (map (\<lambda>w. filter (\<lambda>b. f b = w) bs) ws)) = mset bs"
proof -
  assume d: "distinct ws" and s: "set ws = f ` set bs"
  have "count (mset (concat (map (\<lambda>w. filter (\<lambda>b. f b = w) bs) ws))) x =
      (if f x \<in> set ws then count (mset bs) x else 0)" for x
    using d by (induction ws) (auto simp: mset_filter)
  moreover have "count (mset bs) x = 0" if "f x \<notin> set ws" for x
  proof -
    have "x \<notin> set bs" using that s by auto
    then show ?thesis by (simp add: count_eq_zero_iff)
  qed
  ultimately show ?thesis by (intro multiset_eqI) simp
qed

text \<open>
  The frontier board loses and invents nothing.  Its groups are a partition of the
  snapshots: put together they are the same snapshots with the same multiplicities, each
  group is non-empty and holds exactly the snapshots of its wait type in their input order,
  no type has two groups, and the types appear in canonical order with the unknown ones last.
\<close>

theorem frontier_partition:
  "let f = DeriveFrontier bs; types = map fg_WaitType (fr_Groups f) in
   mset (concat (map fg_Nodes (fr_Groups f))) = mset bs \<and> fr_Total f = int (length bs) \<and>
   distinct types \<and> list_all (\<lambda>g. fg_Nodes g \<noteq> []) (fr_Groups f) \<and>
   list_all (\<lambda>g. fg_Nodes g = filter (\<lambda>b. bo_WaitType b = fg_WaitType g) bs) (fr_Groups f) \<and>
   sorted (filter wait_IsValid types) \<and>
   types = filter wait_IsValid types @ filter (\<lambda>w. \<not> wait_IsValid w) types"
proof -
  have types: "map fg_WaitType (fr_Groups (DeriveFrontier bs)) = board_order bs"
    by (simp add: DeriveFrontier_groups comp_def)
  have vals: "filter wait_IsValid (extra_order [] bs) = []" "filter (\<lambda>w. \<not> wait_IsValid w) frontierWaitOrder = []"
    "filter wait_IsValid frontierWaitOrder = frontierWaitOrder"
    "filter (\<lambda>w. \<not> wait_IsValid w) (extra_order [] bs) = extra_order [] bs"
    by (auto simp: extra_order_dedup set_dedup_acc set_frontierWaitOrder filter_empty_conv filter_id_conv)
  have sp: "filter P (board_order bs) = filter (\<lambda>w. w \<in> bo_WaitType ` set bs)
      (filter P frontierWaitOrder @ filter P (extra_order [] bs))" for P
    by (simp add: board_order_def conj_commute)
  have valid: "filter wait_IsValid (board_order bs) = filter (\<lambda>w. w \<in> bo_WaitType ` set bs) frontierWaitOrder"
    "filter (\<lambda>w. \<not> wait_IsValid w) (board_order bs) = filter (\<lambda>w. w \<in> bo_WaitType ` set bs) (extra_order [] bs)"
    by (simp_all only: sp vals append_Nil append_Nil2)
  show ?thesis
    unfolding Let_def types
  proof (intro conjI)
    show "mset (concat (map fg_Nodes (fr_Groups (DeriveFrontier bs)))) = mset bs"
      using mset_groups [OF board_order_facts, of bs] by (simp add: DeriveFrontier_groups comp_def)
    show "fr_Total (DeriveFrontier bs) = int (length bs)"
      by (simp add: DeriveFrontier_def Let_def)
    show "list_all (\<lambda>g. fg_Nodes g \<noteq> []) (fr_Groups (DeriveFrontier bs))"
      by (auto simp: list_all_iff DeriveFrontier_groups board_order_facts filter_empty_conv)
    show "list_all (\<lambda>g. fg_Nodes g = filter (\<lambda>b. bo_WaitType b = fg_WaitType g) bs) (fr_Groups (DeriveFrontier bs))"
      by (simp add: list_all_iff DeriveFrontier_groups)
    show "sorted (filter wait_IsValid (board_order bs))"
      unfolding valid using frontierWaitOrder_sorted(1) by (rule sorted_wrt_filter)
    show "board_order bs = filter wait_IsValid (board_order bs) @ filter (\<lambda>w. \<not> wait_IsValid w) (board_order bs)"
      unfolding valid by (simp add: board_order_def)
  qed (rule board_order_facts)
qed

subsection \<open>Deadlines\<close>

datatype timeout_action = TimeoutReprobe | TimeoutEscalate | TimeoutRouteToHandler | TimeoutOther gostring

definition action_IsValid :: "timeout_action \<Rightarrow> bool" where
  "action_IsValid a \<longleftrightarrow> (case a of TimeoutOther _ \<Rightarrow> False | _ \<Rightarrow> True)"

record wait_deadline =
  wd_Timeout :: duration
  wd_OnTimeout :: timeout_action

record deadline_policy =
  pol_Default :: wait_deadline
  pol_ByWaitType :: "(wait_type \<times> wait_deadline) list"
  pol_ProbeBackoff :: duration

text \<open>The triple with \<open>ok = false\<close> is \<open>None\<close>.\<close>

definition DeadlineFor :: "deadline_policy \<Rightarrow> wait_type \<Rightarrow> time \<Rightarrow> (time \<times> timeout_action) option" where
  "DeadlineFor p waitType waitedSince =
     (let rule = (case map_of (pol_ByWaitType p) waitType of None \<Rightarrow> pol_Default p | Some r \<Rightarrow> r) in
      if wd_Timeout rule \<le> 0 \<or> is_zero_time waitedSince then None
      else let action = (if \<not> action_IsValid (wd_OnTimeout rule) then TimeoutEscalate else wd_OnTimeout rule)
        in Some (waitedSince + wd_Timeout rule, action))"

definition minutes :: "int \<Rightarrow> duration" where
  "minutes n = n * 60 * 1000000000"

definition DefaultDeadlinePolicy :: deadline_policy where
  "DefaultDeadlinePolicy = \<lparr>
     pol_Default = \<lparr>wd_Timeout = minutes 30, wd_OnTimeout = TimeoutReprobe\<rparr>,
     pol_ByWaitType =
       [(WaitUpstreamCompletion, \<lparr>wd_Timeout = minutes 60, wd_OnTimeout = TimeoutReprobe\<rparr>),
        (WaitAcceptanceVerdict, \<lparr>wd_Timeout = minutes 120, wd_OnTimeout = TimeoutEscalate\<rparr>),
        (WaitStageBarrier, \<lparr>wd_Timeout = minutes 120, wd_OnTimeout = TimeoutEscalate\<rparr>),
        (WaitHumanDecision, \<lparr>wd_Timeout = minutes 240, wd_OnTimeout = TimeoutEscalate\<rparr>),
        (WaitExternalEvent, \<lparr>wd_Timeout = minutes 15, wd_OnTimeout = TimeoutReprobe\<rparr>),
        (WaitExecutorLiveness, \<lparr>wd_Timeout = minutes 10, wd_OnTimeout = TimeoutReprobe\<rparr>),
        (WaitTimeoutOnly, \<lparr>wd_Timeout = minutes 30, wd_OnTimeout = TimeoutRouteToHandler\<rparr>)],
     pol_ProbeBackoff = minutes 5\<rparr>"

text \<open>
  Under the production policy every wait has an end.  Whatever its type, a wait that began
  at a non-zero time gets a deadline between ten minutes and four hours after it began and a
  valid action; the waits that only an authority can release (acceptance verdict, stage
  barrier, human decision) escalate and are never re-probed.  Under any policy the deadline is
  a function of the type and the beginning, later than the beginning, with a valid action.
\<close>

theorem deadline_policy_live:
  assumes "since \<noteq> zero_time"
  shows "(\<exists>d a. DeadlineFor DefaultDeadlinePolicy w since = Some (d, a) \<and>
      since + minutes 10 \<le> d \<and> d \<le> since + minutes 240 \<and>
      (a = TimeoutEscalate \<longleftrightarrow> w \<in> {WaitAcceptanceVerdict, WaitStageBarrier, WaitHumanDecision})) \<and>
    (\<forall>d a. DeadlineFor p w since = Some (d, a) \<longrightarrow> since < d \<and> action_IsValid a)"
proof
  show "\<exists>d a. DeadlineFor DefaultDeadlinePolicy w since = Some (d, a) \<and>
      since + minutes 10 \<le> d \<and> d \<le> since + minutes 240 \<and>
      (a = TimeoutEscalate \<longleftrightarrow> w \<in> {WaitAcceptanceVerdict, WaitStageBarrier, WaitHumanDecision})"
    using assms by (cases w) (simp_all add: DeadlineFor_def DefaultDeadlinePolicy_def minutes_def
        is_zero_time_def action_IsValid_def)
  show "\<forall>d a. DeadlineFor p w since = Some (d, a) \<longrightarrow> since < d \<and> action_IsValid a"
    by (auto simp: DeadlineFor_def Let_def action_IsValid_def)
qed

theorem deadline_policy_live_witness:
  "\<exists>d a. DeadlineFor DefaultDeadlinePolicy WaitHumanDecision 7 = Some (d, a) \<and> a = TimeoutEscalate"
  using deadline_policy_live [of 7 WaitHumanDecision DefaultDeadlinePolicy] by auto

end
