(* ===== verification/Stage.thy ===== *)
theory Stage
  imports Plan_DAG Task
begin

section \<open>Stages of a plan (stage.go, stage_dag.go, stage_projection.go)\<close>

text \<open>
  The stage aggregate \<open>s_x\<close> with its gate specification, the structural checks that decide
  whether the stages of a plan form a closed DAG, the entries of a stage, and the projection of
  a stage's status from its members and gate.
\<close>

subsection \<open>The gate\<close>

datatype gate_evaluator = GateEvaluatorAutomatic | GateEvaluatorHuman | GateEvaluatorOther gostring

record gate_spec =
  gs_EvaluatorKind :: gate_evaluator
  gs_AssigneeRef :: identity_ref
  gs_RoleRef :: gostring
  gs_AcceptanceContract :: gostring
  gs_PassRoute :: gostring
  gs_RejectRoute :: gostring
  gs_ExhaustedRoute :: gostring

definition DefaultHumanGateSpec :: "identity_ref \<Rightarrow> gate_spec" where
  "DefaultHumanGateSpec assignee = \<lparr>gs_EvaluatorKind = GateEvaluatorHuman,
     gs_AssigneeRef = assignee, gs_RoleRef = [],
     gs_AcceptanceContract =
       ''Review the stage deliverables and record evidence against the acceptance criteria.'',
     gs_PassRoute = ''downstream'', gs_RejectRoute = ''append_remediation'',
     gs_ExhaustedRoute = ''escalate''\<rparr>"

definition GateSpec_Validate :: "gate_spec \<Rightarrow> pm_error option" where
  "GateSpec_Validate g =
     (if gs_EvaluatorKind g \<noteq> GateEvaluatorHuman then Some ErrUnsupportedGateEvaluator
      else if gs_AssigneeRef g = [] \<and> blank (gs_RoleRef g) then Some ErrMissingGateAssignee
      else if blank (gs_AcceptanceContract g) then Some ErrMissingGateContract
      else if gs_PassRoute g \<noteq> ''downstream'' \<or> gs_RejectRoute g \<noteq> ''append_remediation'' \<or>
              gs_ExhaustedRoute g \<noteq> ''escalate'' then Some ErrInvalidGateRoute
      else None)"

subsection \<open>The aggregate\<close>

record stage =
  s_id :: stage_id
  s_planID :: plan_id
  s_name :: gostring
  s_dependsOn :: "stage_id list"
  s_gateNodeID :: gostring
  s_gateTaskID :: task_id
  s_gateSpec :: gate_spec
  s_maxRounds :: int
  s_originVerdictID :: verdict_id
  s_continuationID :: gostring
  s_generation :: int
  s_acceptanceContract :: gostring
  s_topologyFingerprint :: gostring
  s_createdAt :: time
  s_updatedAt :: time
  s_version :: int

record new_stage_input =
  si_ID :: stage_id
  si_PlanID :: plan_id
  si_Name :: gostring
  si_DependsOn :: "stage_id list"
  si_MaxRounds :: int
  si_GateTaskID :: task_id
  si_GateSpec :: gate_spec
  si_OriginVerdictID :: verdict_id
  si_ContinuationID :: gostring
  si_Generation :: int
  si_AcceptanceContract :: gostring
  si_TopologyFingerprint :: gostring
  si_CreatedAt :: time

definition DefaultStageMaxRounds :: int where
  "DefaultStageMaxRounds = 3"

fun stage_deps_loop :: "stage_id \<Rightarrow> stage_id list \<Rightarrow> stage_id list \<Rightarrow> pm_error + stage_id list" where
  "stage_deps_loop self seen [] = Ok []"
| "stage_deps_loop self seen (raw # rest) =
     (let d = TrimSpace raw in
      if d = [] then stage_deps_loop self seen rest
      else if d = self then Err ErrStageSelfDependency
      else if d \<in> set seen then stage_deps_loop self seen rest
      else case stage_deps_loop self (d # seen) rest of
             Err e \<Rightarrow> Err e
           | Ok out \<Rightarrow> Ok (d # out))"

definition normalizeStageDeps :: "stage_id \<Rightarrow> stage_id list \<Rightarrow> pm_error + stage_id list" where
  "normalizeStageDeps self deps = stage_deps_loop self [] deps"

definition NewStage :: "time \<Rightarrow> new_stage_input \<Rightarrow> pm_error + stage" where
  "NewStage now inp =
     (if blank (si_ID inp) then Err (ErrNew ''stage id required'')
      else if blank (si_PlanID inp) then Err (ErrNew ''stage plan_id required'')
      else if blank (si_Name inp) then Err ErrEmptyStageName
      else let at = stamp now (si_CreatedAt inp);
               maxRounds = (if si_MaxRounds inp \<le> 0 then DefaultStageMaxRounds else si_MaxRounds inp)
        in case normalizeStageDeps (si_ID inp) (si_DependsOn inp) of
          Err e \<Rightarrow> Err e
        | Ok deps \<Rightarrow> Ok \<lparr>s_id = si_ID inp, s_planID = si_PlanID inp, s_name = si_Name inp,
            s_dependsOn = deps, s_gateNodeID = [], s_gateTaskID = si_GateTaskID inp,
            s_gateSpec = si_GateSpec inp, s_maxRounds = maxRounds,
            s_originVerdictID = si_OriginVerdictID inp, s_continuationID = si_ContinuationID inp,
            s_generation = si_Generation inp,
            s_acceptanceContract = TrimSpace (si_AcceptanceContract inp),
            s_topologyFingerprint = TrimSpace (si_TopologyFingerprint inp),
            s_createdAt = at, s_updatedAt = at, s_version = 1\<rparr>)"

definition RehydrateStage :: "stage \<Rightarrow> pm_error + stage" where
  "RehydrateStage row =
     (if s_version row < 1 then Err (ErrNew ''stage version must be >= 1'') else Ok row)"

definition stage_touch :: "time \<Rightarrow> time \<Rightarrow> stage \<Rightarrow> stage" where
  "stage_touch now at s = s\<lparr>s_updatedAt := stamp now at, s_version := s_version s + 1\<rparr>"

definition stage_SetGateNodeID :: "gostring \<Rightarrow> time \<Rightarrow> time \<Rightarrow> stage \<Rightarrow> stage" where
  "stage_SetGateNodeID nodeID now at s = stage_touch now at (s\<lparr>s_gateNodeID := nodeID\<rparr>)"

definition stage_SetGateTask :: "task_id \<Rightarrow> gate_spec \<Rightarrow> time \<Rightarrow> time \<Rightarrow> stage \<Rightarrow> stage" where
  "stage_SetGateTask taskID spec now at s =
     stage_touch now at (s\<lparr>s_gateTaskID := taskID, s_gateSpec := spec\<rparr>)"

definition stage_Rename :: "gostring \<Rightarrow> time \<Rightarrow> time \<Rightarrow> stage \<Rightarrow> pm_error + stage" where
  "stage_Rename name now at s =
     (if blank name then Err ErrEmptyStageName else Ok (stage_touch now at (s\<lparr>s_name := name\<rparr>)))"

subsection \<open>The outer DAG\<close>

definition stage_by_id :: "stage list \<Rightarrow> stage_id \<Rightarrow> stage option" where
  "stage_by_id stages i = List.find (\<lambda>s. s_id s = i) (rev stages)"

text \<open>
  The adjacency the search reads: the upstreams of the stage that the map holds for an id,
  which is the last one of the list with that id.
\<close>

definition stage_adj :: "stage list \<Rightarrow> (stage_id, stage_id) multimap" where
  "stage_adj stages = map (\<lambda>s. (s_id s, s_dependsOn s)) (rev stages)"

definition ValidateStageDAG :: "stage list \<Rightarrow> pm_error option" where
  "ValidateStageDAG stages =
     (if list_ex (\<lambda>s. list_ex (\<lambda>dep. stage_by_id stages dep = None) (s_dependsOn s)) stages
      then Some ErrStageCrossPlanDependency
      else if has_cycle (stage_adj stages) (map s_id stages) then Some ErrStageCycle
      else None)"

definition stage_rel :: "stage list \<Rightarrow> (stage_id \<times> stage_id) set" where
  "stage_rel stages = {(i, d). \<exists>s. stage_by_id stages i = Some s \<and> d \<in> set (s_dependsOn s)}"

lemma stage_by_id_Some: "stage_by_id stages i = Some s \<Longrightarrow> s \<in> set stages \<and> s_id s = i"
  unfolding stage_by_id_def find_Some_iff by (metis nth_mem set_rev)

lemma stage_by_id_None: "stage_by_id stages i = None \<longleftrightarrow> i \<notin> s_id ` set stages"
  by (auto simp: stage_by_id_def find_None_iff)

lemma stage_adj_get:
  "mm_get (stage_adj stages) i = (case stage_by_id stages i of None \<Rightarrow> [] | Some s \<Rightarrow> s_dependsOn s)"
proof -
  have "map_of (map (\<lambda>s. (s_id s, s_dependsOn s)) xs) i = map_option s_dependsOn (List.find (\<lambda>s. s_id s = i) xs)" for xs
    by (induction xs) auto
  note found = this [of "rev stages", folded stage_by_id_def]
  show ?thesis
    unfolding stage_adj_def mm_get_def found by (cases "stage_by_id stages i") simp_all
qed

interpretation stage_dag: dfs_graph stage_adj "map s_id" stage_rel
proof unfold_locales
  show "y \<in> set (mm_get (stage_adj g) x) \<longleftrightarrow> (x, y) \<in> stage_rel g" for g x y
    by (cases "stage_by_id g x") (simp_all add: stage_adj_get stage_rel_def)
  show "(x, y) \<in> stage_rel g \<Longrightarrow> x \<in> set (map s_id g)" for g x y
    by (auto simp: stage_rel_def dest: stage_by_id_Some)
qed

lemma stage_rel_distinct:
  assumes "distinct (map s_id stages)"
  shows "stage_rel stages = {(s_id s, d) | s d. s \<in> set stages \<and> d \<in> set (s_dependsOn s)}"
proof -
  have "stage_by_id stages (s_id s) = Some s" if "s \<in> set stages" for s
  proof -
    have "stage_by_id stages (s_id s) \<noteq> None" using that by (simp add: stage_by_id_None)
    then obtain s' where s': "stage_by_id stages (s_id s) = Some s'" by blast
    with stage_by_id_Some [OF s'] assms that show ?thesis by (auto simp: distinct_map inj_on_def)
  qed
  then show ?thesis unfolding stage_rel_def using stage_by_id_Some by fastforce
qed

subsection \<open>Membership, entries, edges\<close>

definition StageOf :: "task list \<Rightarrow> task_id \<Rightarrow> stage_id" where
  "StageOf tasks n =
     (case map_of (rev (map (\<lambda>t. (t_id t, t_stageID t)) (filter (\<lambda>t. t_stageID t \<noteq> []) tasks))) n of
        None \<Rightarrow> [] | Some sid \<Rightarrow> sid)"

definition StageMembers :: "task list \<Rightarrow> stage_id \<Rightarrow> task_id list" where
  "StageMembers tasks sid = map t_id (filter (\<lambda>t. t_stageID t = sid) tasks)"

definition StageEntries ::
  "task_id list \<Rightarrow> (task_id \<Rightarrow> stage_id) \<Rightarrow> stage_id \<Rightarrow> dependency list \<Rightarrow> task_id list" where
  "StageEntries members stageOf sid edges =
     (let hasInStagePred = map dep_From
            (filter (\<lambda>e. dep_From e \<in> set members \<and> stageOf (dep_To e) = sid) (forwardEdges edges))
      in filter (\<lambda>m. m \<notin> set hasInStagePred) members)"

fun ValidateStageEdges :: "(task_id \<Rightarrow> stage_id) \<Rightarrow> dependency list \<Rightarrow> pm_error option" where
  "ValidateStageEdges stageOf [] = None"
| "ValidateStageEdges stageOf (e # es) =
     (let from = stageOf (dep_From e); to = stageOf (dep_To e) in
      if from = [] \<or> to = [] then ValidateStageEdges stageOf es
      else if from \<noteq> to then Some ErrStageCrossEdge
      else ValidateStageEdges stageOf es)"

definition ValidateStageMembership :: "task list \<Rightarrow> pm_error option" where
  "ValidateStageMembership tasks =
     (let orphans = map t_id (filter (\<lambda>t. t_stageID t = []) tasks) in
      if orphans = [] then None else Some (ErrStageStagelessNode orphans))"

lemma ValidateStageEdges_None:
  "ValidateStageEdges stageOf es = None \<longleftrightarrow>
   (\<forall>e \<in> set es. stageOf (dep_From e) = [] \<or> stageOf (dep_To e) = [] \<or>
      stageOf (dep_From e) = stageOf (dep_To e))"
  by (induction stageOf es rule: ValidateStageEdges.induct) (auto simp: Let_def)

lemma StageEntries_iff:
  "m \<in> set (StageEntries members stageOf sid es) \<longleftrightarrow>
   m \<in> set members \<and> \<not> (\<exists>e \<in> set es. \<not> IsLoopback e \<and> dep_From e = m \<and> stageOf (dep_To e) = sid)"
  by (auto simp: StageEntries_def Let_def)

subsection \<open>The projected status\<close>

datatype stage_status = StageOpen | StageRunning | StageReopen | StageDone
datatype stage_member_state = StageMemberOpen | StageMemberRunning | StageMemberDone
datatype stage_gate_state = StageGateNone | StageGatePending | StageGatePassed | StageGateReopened

fun member_loop :: "stage_member_state list \<Rightarrow> bool \<times> bool \<times> bool \<Rightarrow> bool \<times> bool \<times> bool" where
  "member_loop [] acc = acc"
| "member_loop (m # ms) (allDone, anyRunning, anyStarted) =
     (case m of
        StageMemberDone \<Rightarrow> member_loop ms (allDone, anyRunning, True)
      | StageMemberRunning \<Rightarrow> member_loop ms (False, True, True)
      | StageMemberOpen \<Rightarrow> member_loop ms (False, anyRunning, anyStarted))"

definition ProjectStageStatus :: "stage_member_state list \<Rightarrow> stage_gate_state \<Rightarrow> stage_status" where
  "ProjectStageStatus members gate =
     (if gate = StageGateReopened then StageReopen
      else if members = [] then StageOpen
      else case member_loop members (True, False, False) of
        (allDone, anyRunning, anyStarted) \<Rightarrow>
          if allDone then
            (case gate of StageGateNone \<Rightarrow> StageDone | StageGatePassed \<Rightarrow> StageDone | _ \<Rightarrow> StageRunning)
          else if anyRunning \<or> anyStarted then StageRunning
          else StageOpen)"

lemma member_loop_result:
  "member_loop ms (a, r, st) =
   (a \<and> list_all (\<lambda>m. m = StageMemberDone) ms, r \<or> list_ex (\<lambda>m. m = StageMemberRunning) ms,
    st \<or> list_ex (\<lambda>m. m \<noteq> StageMemberOpen) ms)"
  by (induction ms arbitrary: a r st) (auto split: stage_member_state.split)

subsection \<open>Properties\<close>

text \<open>
  The check of the outer DAG is exact.  For stages with distinct ids, \<open>ValidateStageDAG\<close>
  passes if and only if every upstream is a stage of the plan and the upstream relation is
  acyclic; a dangling upstream is reported before a cycle.
\<close>

theorem stage_dag_check:
  assumes "distinct (map s_id stages)"
  shows "ValidateStageDAG stages =
    (if \<not> (\<Union>s \<in> set stages. set (s_dependsOn s)) \<subseteq> s_id ` set stages then Some ErrStageCrossPlanDependency
     else if acyclic {(s_id s, d) | s d. s \<in> set stages \<and> d \<in> set (s_dependsOn s)} then None
     else Some ErrStageCycle)"
proof -
  have "list_ex (\<lambda>s. list_ex (\<lambda>dep. stage_by_id stages dep = None) (s_dependsOn s)) stages \<longleftrightarrow>
      \<not> (\<Union>s \<in> set stages. set (s_dependsOn s)) \<subseteq> s_id ` set stages"
    unfolding stage_by_id_None list_ex_iff by blast
  then show ?thesis
    by (simp add: ValidateStageDAG_def stage_dag.check_iff stage_rel_distinct [OF assms])
qed

definition sample_stage :: "gostring \<Rightarrow> gostring list \<Rightarrow> stage" where
  "sample_stage i deps = (case NewStage 9 \<lparr>si_ID = i, si_PlanID = ''pl1'', si_Name = i,
     si_DependsOn = deps, si_MaxRounds = 0, si_GateTaskID = [],
     si_GateSpec = DefaultHumanGateSpec ''user:u1'', si_OriginVerdictID = [], si_ContinuationID = [],
     si_Generation = 0, si_AcceptanceContract = [], si_TopologyFingerprint = [], si_CreatedAt = 0\<rparr> of
       Ok s \<Rightarrow> s | Err _ \<Rightarrow> undefined)"

definition sample_ring :: "stage list" where
  "sample_ring = [sample_stage ''s1'' [''s2''], sample_stage ''s2'' ['' s1'', ''s1'']]"

theorem stage_dag_check_witness:
  "\<not> acyclic {(s_id s, d) | s d. s \<in> set sample_ring \<and> d \<in> set (s_dependsOn s)}"
proof -
  have "distinct (map s_id sample_ring)" "ValidateStageDAG sample_ring = Some ErrStageCycle"
    by code_simp+
  with stage_dag_check [of sample_ring] show ?thesis by (auto split: if_splits)
qed

text \<open>
  Every stage can be entered.  If the forward graph of the plan is acyclic, a stage with
  members has at least one entry, a member none of whose prerequisites is in the same stage,
  so the barrier of a stage always has nodes to attach to.
\<close>

theorem stage_has_entry:
  assumes "acyclic (dep_rel edges)" "sid \<noteq> []" "StageMembers tasks sid \<noteq> []"
  shows "StageEntries (StageMembers tasks sid) (StageOf tasks) sid edges \<noteq> []"
proof -
  let ?M = "set (StageMembers tasks sid)"
  have "finite (dep_rel edges)"
    by (rule finite_subset [of _ "(\<lambda>e. (dep_From e, dep_To e)) ` set edges"]) (auto simp: dep_rel_def)
  then have "wf ((dep_rel edges)\<inverse>)" using assms(1) by (rule finite_acyclic_wf_converse)
  moreover from assms(3) obtain m0 where "m0 \<in> ?M" by (cases "StageMembers tasks sid") auto
  ultimately obtain m where m: "m \<in> ?M" "\<And>y. (y, m) \<in> (dep_rel edges)\<inverse> \<Longrightarrow> y \<notin> ?M"
    by (rule wfE_min) blast
  have "y \<in> ?M" if "StageOf tasks y = sid" for y
    using that assms(2)
    by (auto simp: StageOf_def StageMembers_def split: option.splits dest!: map_of_SomeD)
  with m have "m \<in> set (StageEntries (StageMembers tasks sid) (StageOf tasks) sid edges)"
    by (fastforce simp: StageEntries_iff dep_rel_def)
  then show ?thesis by auto
qed

definition sample_staged :: "task list" where
  "sample_staged = map (\<lambda>i. case NewTask id \<lparr>ti_ID = i, ti_ProjectID = ''p1'', ti_Title = i,
     ti_Description = [], ti_DerivedFromIssue = [], ti_CreatedBy = ''user:u1'', ti_CreatedAt = 5,
     ti_OrgNumber = 1, ti_Model = [], ti_DispatchMode = DispatchUnset,
     ti_DeliveryContract = DeliveryUnset, ti_RequiredCapabilities = [], ti_NodeID = [],
     ti_StageID = ''s1'', ti_FollowsTaskID = [], ti_OriginVerdictID = []\<rparr> of
       Ok t \<Rightarrow> t | Err _ \<Rightarrow> undefined) [''dev'', ''review'', ''decide'']"

theorem stage_has_entry_witness:
  "StageEntries (StageMembers sample_staged ''s1'') (StageOf sample_staged) ''s1'' sample_edges \<noteq> []"
proof -
  have "StageMembers sample_staged ''s1'' \<noteq> []" by code_simp
  then show ?thesis by (intro stage_has_entry [OF sample_edges_acyclic]) simp_all
qed

text \<open>
  the projection of a stage's status.  A reopened gate makes the stage reopened; else a
  stage is done if and only if it has members, all are done and its gate is absent or passed,
  and it is open if and only if no member has started.
\<close>

theorem stage_projection:
  "(ProjectStageStatus ms gate = StageReopen \<longleftrightarrow> gate = StageGateReopened) \<and>
   (ProjectStageStatus ms gate = StageDone \<longleftrightarrow>
      ms \<noteq> [] \<and> list_all (\<lambda>m. m = StageMemberDone) ms \<and> gate \<in> {StageGateNone, StageGatePassed}) \<and>
   (ProjectStageStatus ms gate = StageOpen \<longleftrightarrow>
      gate \<noteq> StageGateReopened \<and> list_all (\<lambda>m. m = StageMemberOpen) ms)"
proof -
  have "list_ex (\<lambda>m. m \<noteq> StageMemberOpen) ms \<longleftrightarrow> \<not> list_all (\<lambda>m. m = StageMemberOpen) ms"
    by (auto simp: list_ex_iff list_all_iff)
  moreover have "list_ex (\<lambda>m. m = StageMemberRunning) ms \<Longrightarrow> list_ex (\<lambda>m. m \<noteq> StageMemberOpen) ms"
    by (auto simp: list_ex_iff)
  moreover have "ms \<noteq> [] \<Longrightarrow> list_all (\<lambda>m. m = StageMemberDone) ms \<Longrightarrow> \<not> list_all (\<lambda>m. m = StageMemberOpen) ms"
    by (cases ms) auto
  ultimately show ?thesis
    by (cases gate) (auto simp: ProjectStageStatus_def member_loop_result)
qed

end
