(* ===== verification/Orch_Node.thy ===== *)
theory Orch_Node
  imports Go_Strings Lifecycle Worklist
begin

section \<open>Orchestration nodes (internal/projectmanager/orchestration/types.go, node.go)\<close>

text \<open>
  The statuses and errors of the orchestration package and its node: the record \<open>n_x\<close> with
  the operations \<open>node_M\<close>.
\<close>

type_synonym graph_id = gostring
type_synonym node_id = gostring

subsection \<open>Types and errors (types.go)\<close>

datatype orch_error =
    ErrGraphNotFound
  | ErrGraphExists
  | ErrNodeNotFound
  | ErrNodeExists
  | ErrEdgeExists
  | ErrIllegalTransition
  | ErrSelfEdge
  | ErrCycleDetected
  | ErrNodeNotRemovable
  | ErrMissingRequiredField
  | ErrInvalidCategory
  | ErrMissingControlKind
  | ErrInvalidControlKind
  | ErrUnknownEvaluator gostring
  | ErrWrapped gostring orch_error
  | ErrNewOrch gostring

datatype node_category = NodeCategoryBusiness | NodeCategoryControl | NodeCategoryOther gostring

definition category_IsValid :: "node_category \<Rightarrow> bool" where
  "category_IsValid c \<longleftrightarrow> (case c of NodeCategoryOther _ \<Rightarrow> False | _ \<Rightarrow> True)"

text \<open>The empty kind of a business node is \<open>ControlKindOther []\<close>.\<close>

datatype control_kind =
  ControlKindStart | ControlKindEnd | ControlKindCondition | ControlKindOther gostring

definition controlKind_IsValid :: "control_kind \<Rightarrow> bool" where
  "controlKind_IsValid k \<longleftrightarrow> (case k of ControlKindOther _ \<Rightarrow> False | _ \<Rightarrow> True)"

datatype graph_node_status =
  NodeOpen | NodeRunning | NodeCompleted | NodeReopen | NodeDiscarded | NodeStatusOther gostring

definition nodeStatus_IsValid :: "graph_node_status \<Rightarrow> bool" where
  "nodeStatus_IsValid s \<longleftrightarrow> (case s of NodeStatusOther _ \<Rightarrow> False | _ \<Rightarrow> True)"

definition nodeTransitions :: "graph_node_status \<Rightarrow> graph_node_status list" where
  "nodeTransitions s =
     (case s of
        NodeOpen \<Rightarrow> [NodeRunning, NodeDiscarded]
      | NodeRunning \<Rightarrow> [NodeCompleted, NodeDiscarded, NodeReopen]
      | NodeCompleted \<Rightarrow> [NodeReopen]
      | NodeReopen \<Rightarrow> [NodeRunning, NodeDiscarded]
      | _ \<Rightarrow> [])"

definition nodeStatus_CanTransitionTo :: "graph_node_status \<Rightarrow> graph_node_status \<Rightarrow> bool" where
  "nodeStatus_CanTransitionTo s to \<longleftrightarrow> list_ex (\<lambda>x. x = to) (nodeTransitions s)"

definition graphNode_IsTerminal :: "graph_node_status \<Rightarrow> bool" where
  "graphNode_IsTerminal s \<longleftrightarrow> s = NodeDiscarded"

datatype graph_status =
  GraphDraft | GraphRunning | GraphDone | GraphArchived | GraphStatusOther gostring

definition graphStatus_IsValid :: "graph_status \<Rightarrow> bool" where
  "graphStatus_IsValid s \<longleftrightarrow> (case s of GraphStatusOther _ \<Rightarrow> False | _ \<Rightarrow> True)"

definition graphTransitions :: "graph_status \<Rightarrow> graph_status list" where
  "graphTransitions s =
     (case s of
        GraphDraft \<Rightarrow> [GraphRunning, GraphArchived]
      | GraphRunning \<Rightarrow> [GraphDraft, GraphDone]
      | GraphDone \<Rightarrow> [GraphArchived]
      | _ \<Rightarrow> [])"

definition graphStatus_CanTransitionTo :: "graph_status \<Rightarrow> graph_status \<Rightarrow> bool" where
  "graphStatus_CanTransitionTo s to \<longleftrightarrow> list_ex (\<lambda>x. x = to) (graphTransitions s)"

interpretation orch_node_sm: status_machine nodeStatus_IsValid nodeTransitions graphNode_IsTerminal
  by unfold_locales
    (auto simp: nodeStatus_IsValid_def nodeTransitions_def graphNode_IsTerminal_def
       split: graph_node_status.splits)

interpretation orch_graph_sm: status_machine graphStatus_IsValid graphTransitions
    "\<lambda>s. s = GraphArchived"
  by unfold_locales
    (auto simp: graphStatus_IsValid_def graphTransitions_def split: graph_status.splits)

lemma nodeStatus_CanTransitionTo_simps [simp]:
  "nodeStatus_CanTransitionTo s NodeRunning \<longleftrightarrow> s = NodeOpen \<or> s = NodeReopen"
  "nodeStatus_CanTransitionTo s NodeCompleted \<longleftrightarrow> s = NodeRunning"
  "nodeStatus_CanTransitionTo s NodeReopen \<longleftrightarrow> s = NodeRunning \<or> s = NodeCompleted"
  "nodeStatus_CanTransitionTo s NodeDiscarded \<longleftrightarrow> s = NodeOpen \<or> s = NodeRunning \<or> s = NodeReopen"
  by (cases s; simp add: nodeStatus_CanTransitionTo_def nodeTransitions_def)+

lemma nodeStatus_IsValid_simps [simp]:
  "nodeStatus_IsValid NodeOpen" "nodeStatus_IsValid NodeRunning" "nodeStatus_IsValid NodeCompleted"
  "nodeStatus_IsValid NodeReopen" "nodeStatus_IsValid NodeDiscarded"
  "\<not> nodeStatus_IsValid (NodeStatusOther x)"
  by (simp_all add: nodeStatus_IsValid_def)

subsection \<open>Nodes (node.go)\<close>

text \<open>
  A metadata value is what \<open>json.Unmarshal\<close> puts into an \<open>any\<close>; a \<open>float64\<close> is its
  mantissa \<open>m\<close> and exponent \<open>e\<close>, denoting \<open>m * 2 ^ e\<close>.  A nil metadata map reads and stores like the empty one.
\<close>

datatype any =
  AnyNil | AnyBool bool | AnyNumber int int | AnyString gostring | AnyList "any list"
| AnyObject "(gostring \<times> any) list"

type_synonym metadata = "(gostring \<times> any) list"

record graph_action_log =
  gl_OccurredAt :: time
  gl_Action :: gostring
  gl_Detail :: gostring

record graph_node =
  n_id :: node_id
  n_graphID :: graph_id
  n_category :: node_category
  n_controlKind :: control_kind
  n_title :: gostring
  n_status :: graph_node_status
  n_outcome :: gostring
  n_metadata :: metadata
  n_actionLogs :: "graph_action_log list"
  n_createdAt :: time
  n_updatedAt :: time
  n_version :: int

record new_node_input =
  ni_ID :: node_id
  ni_GraphID :: graph_id
  ni_Category :: node_category
  ni_ControlKind :: control_kind
  ni_Title :: gostring
  ni_Metadata :: metadata
  ni_CreatedAt :: time

definition NewNode :: "time \<Rightarrow> new_node_input \<Rightarrow> orch_error + graph_node" where
  "NewNode now inp =
     (if blank (ni_ID inp) then Err ErrMissingRequiredField
      else if blank (ni_GraphID inp) then Err ErrMissingRequiredField
      else if blank (ni_Title inp) then Err ErrMissingRequiredField
      else if \<not> category_IsValid (ni_Category inp) then Err ErrInvalidCategory
      else if ni_Category inp = NodeCategoryControl \<and> ni_ControlKind inp = ControlKindOther []
        then Err ErrMissingControlKind
      else if ni_Category inp = NodeCategoryControl \<and> \<not> controlKind_IsValid (ni_ControlKind inp)
        then Err ErrInvalidControlKind
      else let at = stamp now (ni_CreatedAt inp) in
        Ok \<lparr>n_id = ni_ID inp, n_graphID = ni_GraphID inp, n_category = ni_Category inp,
          n_controlKind = ni_ControlKind inp, n_title = ni_Title inp, n_status = NodeOpen,
          n_outcome = [], n_metadata = ni_Metadata inp, n_actionLogs = [],
          n_createdAt = at, n_updatedAt = at, n_version = 1\<rparr>)"

definition RehydrateNode :: "graph_node \<Rightarrow> orch_error + graph_node" where
  "RehydrateNode row =
     (if \<not> nodeStatus_IsValid (n_status row) then Err ErrIllegalTransition
      else if n_version row < 1 then Err ErrMissingRequiredField
      else Ok row)"

definition node_touch :: "time \<Rightarrow> time \<Rightarrow> graph_node \<Rightarrow> graph_node" where
  "node_touch now at n = n\<lparr>n_updatedAt := stamp now at, n_version := n_version n + 1\<rparr>"

definition node_appendLog ::
  "gostring \<Rightarrow> gostring \<Rightarrow> time \<Rightarrow> time \<Rightarrow> graph_node \<Rightarrow> graph_node" where
  "node_appendLog action detail now at n =
     n\<lparr>n_actionLogs := n_actionLogs n @
       [\<lparr>gl_OccurredAt = stamp now at, gl_Action = action, gl_Detail = detail\<rparr>]\<rparr>"

definition node_transition ::
  "graph_node_status \<Rightarrow> gostring \<Rightarrow> gostring \<Rightarrow> time \<Rightarrow> time \<Rightarrow> graph_node \<Rightarrow> orch_error + graph_node"
where
  "node_transition to action detail now at n =
     (if \<not> nodeStatus_CanTransitionTo (n_status n) to then Err ErrIllegalTransition
      else Ok (node_touch now at (node_appendLog action detail now at (n\<lparr>n_status := to\<rparr>))))"

definition node_Start :: "time \<Rightarrow> time \<Rightarrow> graph_node \<Rightarrow> orch_error + graph_node" where
  "node_Start now at n = node_transition NodeRunning ''started'' [] now at n"

definition node_Complete :: "gostring \<Rightarrow> time \<Rightarrow> time \<Rightarrow> graph_node \<Rightarrow> orch_error + graph_node" where
  "node_Complete out now at n =
     (case node_transition NodeCompleted ''completed'' out now at n of
        Err e \<Rightarrow> Err e
      | Ok n' \<Rightarrow> Ok (n'\<lparr>n_outcome := out\<rparr>))"

definition node_Reopen :: "gostring \<Rightarrow> time \<Rightarrow> time \<Rightarrow> graph_node \<Rightarrow> orch_error + graph_node" where
  "node_Reopen reason now at n =
     (case node_transition NodeReopen ''reopened'' reason now at n of
        Err e \<Rightarrow> Err e
      | Ok n' \<Rightarrow> Ok (n'\<lparr>n_outcome := []\<rparr>))"

definition node_Discard :: "time \<Rightarrow> time \<Rightarrow> graph_node \<Rightarrow> orch_error + graph_node" where
  "node_Discard now at n = node_transition NodeDiscarded ''discarded'' [] now at n"

definition node_SetTitle :: "gostring \<Rightarrow> time \<Rightarrow> time \<Rightarrow> graph_node \<Rightarrow> orch_error + graph_node" where
  "node_SetTitle title now at n =
     (if blank title then Err ErrMissingRequiredField
      else Ok (node_touch now at (n\<lparr>n_title := title\<rparr>)))"

definition node_SetMetadata :: "metadata \<Rightarrow> time \<Rightarrow> time \<Rightarrow> graph_node \<Rightarrow> graph_node" where
  "node_SetMetadata meta now at n = node_touch now at (n\<lparr>n_metadata := meta\<rparr>)"

lemmas node_defs = node_Start_def node_Complete_def node_Reopen_def node_Discard_def
  node_SetTitle_def node_SetMetadata_def node_transition_def node_touch_def node_appendLog_def

end
