(* ===== verification/Queue_Search.thy ===== *)
theory Queue_Search
  imports Worklist
begin

section \<open>Breadth-first search with a queue\<close>

text \<open>
  The loop that \<open>ReopenChain\<close> writes three times: pop the head of the queue, skip what is
  visited, mark and append what \<open>keep\<close> accepts, and do not go on from a node that
  \<open>expand\<close> refuses.  The result is the list of the popped nodes in the order of the pops,
  which is the order in which they were appended.
\<close>

fun enqueue_new :: "('a \<Rightarrow> bool) \<Rightarrow> 'a list \<Rightarrow> 'a list \<Rightarrow> 'a list \<Rightarrow> 'a list \<times> 'a list" where
  "enqueue_new keep visited queue [] = (visited, queue)"
| "enqueue_new keep visited queue (c # cs) =
     (if c \<in> set visited then enqueue_new keep visited queue cs
      else if keep c then enqueue_new keep (c # visited) (queue @ [c]) cs
      else enqueue_new keep visited queue cs)"

lemma enqueue_new_sets:
  "enqueue_new keep visited queue cs = (visited', queue') \<Longrightarrow>
   set visited' = set visited \<union> {c \<in> set cs. keep c} \<and>
   set queue' = set queue \<union> ({c \<in> set cs. keep c} - set visited)"
  by (induction keep visited queue cs rule: enqueue_new.induct) (auto split: if_splits)

lemma enqueue_new_distinct:
  "enqueue_new keep visited queue cs = (visited', queue') \<Longrightarrow> distinct queue \<Longrightarrow>
   set queue \<subseteq> set visited \<Longrightarrow> distinct queue'"
  by (induction keep visited queue cs rule: enqueue_new.induct) (auto split: if_splits)

lemma enqueue_new_same:
  "enqueue_new keep visited queue cs = (visited', queue') \<Longrightarrow>
   {c \<in> set cs. keep c} \<subseteq> set visited \<Longrightarrow> visited' = visited \<and> queue' = queue"
  by (induction keep visited queue cs rule: enqueue_new.induct) (auto split: if_splits)

lemma unseen_enqueue:
  assumes "enqueue_new keep visited queue (mm_get adj n) = (visited', queue')"
  shows "unseen adj visited' < unseen adj visited \<or>
    unseen adj visited' = unseen adj visited \<and> queue' = queue"
proof (cases "{c \<in> set (mm_get adj n). keep c} \<subseteq> set visited")
  case True
  with enqueue_new_same [OF assms] show ?thesis by simp
next
  case False
  then obtain c where c: "c \<in> set (mm_get adj n)" "keep c" "c \<notin> set visited" by blast
  then have "c \<in> set (concat (map snd adj))" by (blast intro: mm_get_in_concat)
  with c enqueue_new_sets [OF assms]
  have "set (concat (map snd adj)) - set visited' \<subset> set (concat (map snd adj)) - set visited" by blast
  then show ?thesis unfolding unseen_def by (meson finite_Diff finite_set psubset_card_mono)
qed

function bfs_loop ::
  "('a, 'a) multimap \<Rightarrow> ('a \<Rightarrow> bool) \<Rightarrow> ('a \<Rightarrow> bool) \<Rightarrow> 'a list \<Rightarrow> 'a list \<Rightarrow> 'a list" where
  "bfs_loop adj expand keep visited [] = []"
| "bfs_loop adj expand keep visited (n # queue) =
     n # (if \<not> expand n then bfs_loop adj expand keep visited queue
          else case enqueue_new keep visited queue (mm_get adj n) of
            (visited', queue') \<Rightarrow> bfs_loop adj expand keep visited' queue')"
  by pat_completeness auto
termination
proof (relation "inv_image (less_than <*lex*> less_than)
    (\<lambda>(adj, expand, keep, visited, queue). (unseen adj visited, length queue))", goal_cases)
  case (3 adj expand keep visited n queue visited' queue')
  then have "enqueue_new keep visited queue (mm_get adj n) = (visited', queue')" by simp
  from unseen_enqueue [OF this] show ?case by auto
qed auto

definition bfs :: "('a, 'a) multimap \<Rightarrow> ('a \<Rightarrow> bool) \<Rightarrow> ('a \<Rightarrow> bool) \<Rightarrow> 'a \<Rightarrow> 'a list" where
  "bfs adj expand keep start = bfs_loop adj expand keep [start] [start]"

text \<open>The steps that the search follows.\<close>

definition bfs_step :: "('a, 'a) multimap \<Rightarrow> ('a \<Rightarrow> bool) \<Rightarrow> ('a \<Rightarrow> bool) \<Rightarrow> ('a \<times> 'a) set" where
  "bfs_step adj expand keep = {(x, y). (x, y) \<in> adj_rel adj \<and> expand x \<and> keep y}"

lemma bfs_loop_distinct:
  assumes "distinct queue" "set queue \<subseteq> set visited"
  shows "distinct (bfs_loop adj expand keep visited queue) \<and>
    set (bfs_loop adj expand keep visited queue) \<inter> (set visited - set queue) = {}"
  using assms
proof (induction adj expand keep visited queue rule: bfs_loop.induct)
  case (1 adj expand keep visited)
  show ?case by simp
next
  case (2 adj expand keep visited n queue)
  obtain visited' queue' where p: "enqueue_new keep visited queue (mm_get adj n) = (visited', queue')"
    by force
  have fresh: "n \<notin> set queue" "n \<in> set visited" using "2.prems" by auto
  show ?case
  proof (cases "expand n")
    case False
    with "2.IH"(1) [OF False] "2.prems" fresh show ?thesis by auto
  next
    case True
    have "set queue' \<subseteq> set visited'" "n \<in> set visited' - set queue'"
      using enqueue_new_sets [OF p] "2.prems" fresh by auto
    moreover have "distinct queue'"
      using enqueue_new_distinct [OF p] "2.prems" by auto
    moreover have "set visited - set (n # queue) \<subseteq> set visited' - set queue'"
      using enqueue_new_sets [OF p] by auto
    ultimately show ?thesis
      using "2.IH"(2) [OF _ p [symmetric]] True p by auto
  qed
qed

lemma bfs_loop_set:
  assumes "set queue \<subseteq> set visited"
    and "\<And>x y. x \<in> set visited \<Longrightarrow> x \<notin> set queue \<Longrightarrow> (x, y) \<in> bfs_step adj expand keep \<Longrightarrow> y \<in> set visited"
  shows "set queue \<subseteq> set (bfs_loop adj expand keep visited queue) \<and>
    set visited \<union> set (bfs_loop adj expand keep visited queue) = (bfs_step adj expand keep)\<^sup>* `` set visited"
  using assms
proof (induction adj expand keep visited queue rule: bfs_loop.induct)
  case (1 adj expand keep visited)
  then have "(bfs_step adj expand keep)\<^sup>* `` set visited \<subseteq> set visited"
    by (intro Image_closed_trancl [THEN equalityD1]) auto
  then show ?case by auto
next
  case (2 adj expand keep visited n queue)
  let ?R = "bfs_step adj expand keep"
  obtain visited' queue' where p: "enqueue_new keep visited queue (mm_get adj n) = (visited', queue')"
    by force
  have n: "n \<in> set visited" using "2.prems"(1) by simp
  show ?case
  proof (cases "expand n")
    case False
    have "set queue \<subseteq> set (bfs_loop adj expand keep visited queue) \<and>
      set visited \<union> set (bfs_loop adj expand keep visited queue) = ?R\<^sup>* `` set visited"
    proof (rule "2.IH"(1) [OF False])
      show "set queue \<subseteq> set visited" using "2.prems"(1) by auto
      show "y \<in> set visited" if "x \<in> set visited" "x \<notin> set queue" "(x, y) \<in> ?R" for x y
        using that False "2.prems"(2) [of x y] by (cases "x = n") (auto simp: bfs_step_def)
    qed
    with False n show ?thesis by auto
  next
    case True
    have new: "set visited' = set visited \<union> {c. (n, c) \<in> ?R}"
      using enqueue_new_sets [OF p] True by (auto simp: bfs_step_def adj_rel_def)
    have "set queue' \<subseteq> set (bfs_loop adj expand keep visited' queue') \<and>
      set visited' \<union> set (bfs_loop adj expand keep visited' queue') = ?R\<^sup>* `` set visited'"
    proof (rule "2.IH"(2) [OF _ p [symmetric]])
      show "\<not> \<not> expand n" using True by simp
      show "set queue' \<subseteq> set visited'"
        using enqueue_new_sets [OF p] "2.prems"(1) by auto
      show "y \<in> set visited'" if "x \<in> set visited'" "x \<notin> set queue'" "(x, y) \<in> ?R" for x y
        using that enqueue_new_sets [OF p] new "2.prems"(2) [of x y] by (cases "x = n") auto
    qed
    moreover have "?R\<^sup>* `` set visited' = ?R\<^sup>* `` set visited"
      using new n by (auto intro: converse_rtrancl_into_rtrancl)
    moreover have sub: "set queue \<subseteq> set queue'" "set visited \<subseteq> set visited'"
      "set visited' \<subseteq> set visited \<union> set queue'"
      using enqueue_new_sets [OF p] by auto
    ultimately have IH: "set queue' \<subseteq> set (bfs_loop adj expand keep visited' queue')"
      "set visited' \<union> set (bfs_loop adj expand keep visited' queue') = ?R\<^sup>* `` set visited"
      by auto
    then have "insert n (set visited \<union> set (bfs_loop adj expand keep visited' queue')) = ?R\<^sup>* `` set visited"
      using sub n by blast
    with IH(1) sub(1) True p show ?thesis by simp blast
  qed
qed

lemma bfs_correct:
  "distinct (bfs adj expand keep s)"
  "set (bfs adj expand keep s) = {x. (s, x) \<in> (bfs_step adj expand keep)\<^sup>*}"
  using bfs_loop_distinct [of "[s]" "[s]" adj expand keep]
    bfs_loop_set [of "[s]" "[s]" adj expand keep]
  by (auto simp: bfs_def)

lemma bfs_head: "bfs adj expand keep s = s # tl (bfs adj expand keep s)"
  by (simp add: bfs_def)

lemma bfs_tail_set: "set (tl (bfs adj expand keep s)) = {x. (s, x) \<in> (bfs_step adj expand keep)\<^sup>*} - {s}"
  using bfs_correct [of adj expand keep s] bfs_head [of adj expand keep s]
  by (metis Diff_insert_absorb distinct.simps(2) list.simps(15))

lemma bfs_tail_distinct: "distinct (tl (bfs adj expand keep s))"
  by (simp add: bfs_correct distinct_tl)

end
