(* ===== verification/Orch_Graph.thy ===== *)
theory Orch_Graph
  imports Orch_Node Queue_Search
begin

section \<open>The orchestration graph (orchestration/edge.go, graph.go)\<close>

text \<open>
  The two edge algorithms (the acyclicity guard and \<open>ReopenChain\<close>) and the graph aggregate
  \<open>g_x\<close> with its operations \<open>graph_M\<close>.  The node table of a graph is an association list
  keyed by node id, the Go map of node pointers; \<open>ord\<close> is the order in which Go iterates it.
\<close>

subsection \<open>Edges (edge.go)\<close>

record graph_edge =
  e_FromNodeID :: node_id
  e_ToNodeID :: node_id

definition edge_pair :: "graph_edge \<Rightarrow> node_id \<times> node_id" where
  "edge_pair e = (e_FromNodeID e, e_ToNodeID e)"

definition edge_rel :: "graph_edge list \<Rightarrow> (node_id \<times> node_id) set" where
  "edge_rel es = edge_pair ` set es"

definition edge_adj :: "graph_edge list \<Rightarrow> (node_id, node_id) multimap" where
  "edge_adj es = build_adj (map (\<lambda>e. (e_FromNodeID e, e_ToNodeID e)) es)"

definition edge_reverse :: "graph_edge list \<Rightarrow> (node_id, node_id) multimap" where
  "edge_reverse es = build_adj (map (\<lambda>e. (e_ToNodeID e, e_FromNodeID e)) es)"

definition edge_nodes :: "graph_edge list \<Rightarrow> node_id list" where
  "edge_nodes es = remdups (concat (map (\<lambda>e. [e_FromNodeID e, e_ToNodeID e]) es))"

lemma edge_adj_rel: "adj_rel (edge_adj es) = edge_rel es"
  unfolding adj_rel_def edge_adj_def set_build_adj by (force simp: edge_rel_def edge_pair_def)

lemma edge_reverse_rel: "adj_rel (edge_reverse es) = (edge_rel es)\<inverse>"
  unfolding adj_rel_def edge_reverse_def set_build_adj by (force simp: edge_rel_def edge_pair_def)

interpretation orch_dag: dfs_graph edge_adj "\<lambda>es. range_order ord (edge_nodes es)" edge_rel
  for ord
proof
  show "y \<in> set (mm_get (edge_adj es) x) \<longleftrightarrow> (x, y) \<in> edge_rel es" for y es x
    using edge_adj_rel [of es] by (auto simp: adj_rel_def)
qed (auto simp: edge_nodes_def edge_rel_def edge_pair_def)

text \<open>The adjacency and the node set that the guard builds hold the new edge last.\<close>

definition graph_ValidateNoCycle ::
  "(node_id list \<Rightarrow> node_id list) \<Rightarrow> graph_edge list \<Rightarrow> graph_edge \<Rightarrow> orch_error option" where
  "graph_ValidateNoCycle ord existing add =
     (if e_FromNodeID add = e_ToNodeID add then Some ErrSelfEdge
      else if has_cycle (edge_adj (existing @ [add])) (range_order ord (edge_nodes (existing @ [add])))
        then Some ErrCycleDetected
      else None)"

lemma graph_ValidateNoCycle_None:
  "graph_ValidateNoCycle ord es e = None \<longleftrightarrow> acyclic (insert (edge_pair e) (edge_rel es))"
  by (auto simp: graph_ValidateNoCycle_def orch_dag.check_iff edge_rel_def edge_pair_def acyclic_insert)

text \<open>
  \<open>reachable\<close>: what the reverse search from \<open>frm\<close> appends; \<open>onPath\<close>: the nodes
  the forward search from \<open>target\<close> pops, \<open>frm\<close> itself apart; the result: what the second
  reverse search appends.
\<close>

definition ReopenChain :: "graph_edge list \<Rightarrow> node_id \<Rightarrow> node_id \<Rightarrow> node_id list" where
  "ReopenChain edges frm target =
     (let reverse = edge_reverse edges;
          reachable = tl (bfs reverse (\<lambda>_. True) (\<lambda>_. True) frm)
      in if target \<notin> set reachable then []
         else let forward = edge_adj edges;
                  popped = bfs forward (\<lambda>cur. cur \<noteq> frm)
                    (\<lambda>succ. succ \<in> set reachable \<or> succ = frm) target;
                  onPath = filter (\<lambda>cur. cur \<noteq> frm) popped
           in tl (bfs reverse (\<lambda>_. True) (\<lambda>pred. pred \<in> set onPath) frm))"

lemma bfs_step_all: "bfs_step adj (\<lambda>_. True) (\<lambda>_. True) = adj_rel adj"
  by (auto simp: bfs_step_def)

lemma forward_paths:
  assumes acyc: "acyclic E" and x: "(target, x) \<in> E\<^sup>*" "(x, frm) \<in> E\<^sup>*" "x \<noteq> frm"
  shows "(target, x) \<in> {(a, b). (a, b) \<in> E \<and> a \<noteq> frm \<and> ((b, frm) \<in> E\<^sup>* \<and> b \<noteq> frm \<or> b = frm)}\<^sup>*"
  using x
proof (induction rule: rtrancl_induct)
  case base
  show ?case by simp
next
  case (step y z)
  have yf: "(y, frm) \<in> E\<^sup>+" using step by (meson rtrancl_into_trancl2)
  then have "y \<noteq> frm" using acyc by (auto simp: acyclic_def)
  with step yf show ?case by (auto intro: rtrancl_into_rtrancl trancl_into_rtrancl)
qed

lemma backward_paths:
  assumes x: "(x, frm) \<in> E\<^sup>*" "x \<in> P" and closed: "\<And>a b. a \<in> P \<Longrightarrow> (a, b) \<in> E \<Longrightarrow> (b, frm) \<in> E\<^sup>* \<Longrightarrow> b \<in> P \<or> b = frm"
  shows "(frm, x) \<in> {(a, b). (a, b) \<in> E\<inverse> \<and> b \<in> P}\<^sup>*"
  using x
proof (induction rule: converse_rtrancl_induct)
  case base
  show ?case by simp
next
  case (step y z)
  have "z \<in> P \<or> z = frm" by (rule closed [OF step.prems step.hyps])
  with step show ?case by (auto intro: rtrancl_into_rtrancl)
qed

lemma reachable_set:
  assumes "acyclic (edge_rel edges)"
  shows "x \<in> set (tl (bfs (edge_reverse edges) (\<lambda>_. True) (\<lambda>_. True) frm)) \<longleftrightarrow> (x, frm) \<in> (edge_rel edges)\<^sup>+"
  using assms
  by (auto simp: bfs_tail_set bfs_step_all edge_reverse_rel rtrancl_converse acyclic_def
      rtrancl_eq_or_trancl)

lemma onPath_set:
  assumes acyc: "acyclic (edge_rel edges)" and path: "(target, frm) \<in> (edge_rel edges)\<^sup>+"
  shows "x \<in> set (bfs (edge_adj edges) (\<lambda>cur. cur \<noteq> frm)
      (\<lambda>succ. (succ, frm) \<in> (edge_rel edges)\<^sup>+ \<or> succ = frm) target) \<and> x \<noteq> frm \<longleftrightarrow>
    (target, x) \<in> (edge_rel edges)\<^sup>* \<and> (x, frm) \<in> (edge_rel edges)\<^sup>+"
proof -
  let ?E = "edge_rel edges"
  let ?F = "{(a, b). (a, b) \<in> ?E \<and> a \<noteq> frm \<and> ((b, frm) \<in> ?E\<^sup>* \<and> b \<noteq> frm \<or> b = frm)}"
  have step: "bfs_step (edge_adj edges) (\<lambda>cur. cur \<noteq> frm) (\<lambda>succ. (succ, frm) \<in> ?E\<^sup>+ \<or> succ = frm) = ?F"
    by (auto simp: bfs_step_def edge_adj_rel rtrancl_eq_or_trancl)
  have "x \<noteq> frm \<and> (target, x) \<in> ?F\<^sup>* \<longleftrightarrow> (target, x) \<in> ?E\<^sup>* \<and> (x, frm) \<in> ?E\<^sup>+"
  proof
    assume p: "x \<noteq> frm \<and> (target, x) \<in> ?F\<^sup>*"
    then have "(target, x) \<in> ?E\<^sup>*" by (auto elim: rtrancl_mono [THEN subsetD, rotated])
    moreover have "(x, frm) \<in> ?E\<^sup>+"
      using p [THEN conjunct2] path p by (cases rule: rtranclE) (auto simp: rtrancl_eq_or_trancl)
    ultimately show "(target, x) \<in> ?E\<^sup>* \<and> (x, frm) \<in> ?E\<^sup>+" by simp
  next
    assume x: "(target, x) \<in> ?E\<^sup>* \<and> (x, frm) \<in> ?E\<^sup>+"
    then have "x \<noteq> frm" using acyc by (auto simp: acyclic_def)
    with x forward_paths [OF acyc, of target x frm] show "x \<noteq> frm \<and> (target, x) \<in> ?F\<^sup>*"
      by (auto intro: trancl_into_rtrancl)
  qed
  then show ?thesis by (simp add: bfs_correct step conj_commute)
qed

lemma collected_set:
  assumes acyc: "acyclic E" and adj: "adj_rel adj = E\<inverse>"
    and P: "\<And>x. P x \<longleftrightarrow> (target, x) \<in> E\<^sup>* \<and> (x, frm) \<in> E\<^sup>+"
  shows "n \<in> set (tl (bfs adj (\<lambda>_. True) P frm)) \<longleftrightarrow> P n"
proof -
  have backward: "bfs_step adj (\<lambda>_. True) P = {(a, b). (a, b) \<in> E\<inverse> \<and> b \<in> Collect P}"
    by (auto simp: bfs_step_def adj)
  show ?thesis
  proof
    assume "n \<in> set (tl (bfs adj (\<lambda>_. True) P frm))"
    then have "(frm, n) \<in> {(a, b). (a, b) \<in> E\<inverse> \<and> b \<in> Collect P}\<^sup>*" "n \<noteq> frm"
      by (auto simp: bfs_tail_set backward)
    then show "P n" by (cases rule: rtranclE) auto
  next
    assume n: "P n"
    then have "(n, frm) \<in> E\<^sup>*" "n \<noteq> frm"
      using P acyc by (auto simp: acyclic_def)
    moreover have "(frm, n) \<in> {(a, b). (a, b) \<in> E\<inverse> \<and> b \<in> Collect P}\<^sup>*"
      by (rule backward_paths [OF \<open>(n, frm) \<in> E\<^sup>*\<close>])
        (use n in \<open>auto simp: P rtrancl_eq_or_trancl intro: trancl_into_trancl\<close>)
    ultimately show "n \<in> set (tl (bfs adj (\<lambda>_. True) P frm))"
      by (simp add: bfs_tail_set backward)
  qed
qed

lemma ReopenChain_set:
  assumes "acyclic (edge_rel edges)"
  shows "n \<in> set (ReopenChain edges frm target) \<longleftrightarrow>
    (target, n) \<in> (edge_rel edges)\<^sup>* \<and> (n, frm) \<in> (edge_rel edges)\<^sup>+"
proof (cases "(target, frm) \<in> (edge_rel edges)\<^sup>+")
  case False
  then have "\<not> ((target, n) \<in> (edge_rel edges)\<^sup>* \<and> (n, frm) \<in> (edge_rel edges)\<^sup>+)"
    by (meson rtrancl_trancl_trancl)
  with False show ?thesis by (simp add: ReopenChain_def reachable_set [OF assms])
next
  case True
  then have "ReopenChain edges frm target = tl (bfs (edge_reverse edges) (\<lambda>_. True)
      (\<lambda>x. (target, x) \<in> (edge_rel edges)\<^sup>* \<and> (x, frm) \<in> (edge_rel edges)\<^sup>+) frm)"
    by (simp add: ReopenChain_def Let_def reachable_set [OF assms] onPath_set [OF assms])
  then show ?thesis using collected_set [OF assms edge_reverse_rel] by simp
qed

text \<open>
  A failed condition reopens the nodes on the paths back to its target.  On an acyclic
  graph \<open>ReopenChain\<close> lists, each once, exactly the nodes that \<open>target\<close> reaches (itself
  included) and from which \<open>frm\<close> is reached by at least one edge; it is empty when
  \<open>target\<close> does not lead to \<open>frm\<close>.
\<close>

theorem reopen_chain_exact:
  assumes "acyclic (edge_rel edges)"
  shows "distinct (ReopenChain edges frm target) \<and>
    (n \<in> set (ReopenChain edges frm target) \<longleftrightarrow>
      (target, n) \<in> (edge_rel edges)\<^sup>* \<and> (n, frm) \<in> (edge_rel edges)\<^sup>+)"
  by (simp add: ReopenChain_set [OF assms]) (simp add: ReopenChain_def Let_def bfs_tail_distinct)

definition sample_chain :: "graph_edge list" where
  "sample_chain = map (\<lambda>(a, b). \<lparr>e_FromNodeID = a, e_ToNodeID = b\<rparr>)
     [(''dev'', ''gate''), (''dev'', ''test''), (''test'', ''gate''), (''gate'', ''ship'')]"

lemma sample_chain_acyclic: "acyclic (edge_rel sample_chain)"
proof -
  have "\<not> has_cycle (edge_adj sample_chain) (range_order id (edge_nodes sample_chain))" by code_simp
  then show ?thesis by (simp add: orch_dag.check_iff)
qed

theorem reopen_chain_exact_witness:
  "(''dev'', ''test'') \<in> (edge_rel sample_chain)\<^sup>* \<and> (''test'', ''gate'') \<in> (edge_rel sample_chain)\<^sup>+"
proof -
  have "''test'' \<in> set (ReopenChain sample_chain ''gate'' ''dev'')" by code_simp
  with reopen_chain_exact [OF sample_chain_acyclic, of "''gate''" "''dev''" "''test''"] show ?thesis
    by simp
qed

text \<open>
  The order of the list is not the reverse topological order that the comment on the Go
  function announces: the breadth-first search puts the target first here.
\<close>

lemma reopen_chain_order: "ReopenChain sample_chain ''gate'' ''dev'' = [''dev'', ''test'']"
  by code_simp

subsection \<open>The aggregate (graph.go)\<close>

record graph =
  g_id :: graph_id
  g_planID :: gostring
  g_status :: graph_status
  g_nodes :: "(node_id \<times> graph_node) list"
  g_edges :: "graph_edge list"
  g_startNode :: node_id
  g_endNode :: node_id
  g_createdAt :: time
  g_updatedAt :: time
  g_version :: int

record new_graph_input =
  gi_ID :: graph_id
  gi_PlanID :: gostring
  gi_StartNodeID :: node_id
  gi_EndNodeID :: node_id
  gi_CreatedAt :: time

definition control_input :: "node_id \<Rightarrow> graph_id \<Rightarrow> control_kind \<Rightarrow> gostring \<Rightarrow> time \<Rightarrow> new_node_input" where
  "control_input i gid kind title at = \<lparr>ni_ID = i, ni_GraphID = gid,
     ni_Category = NodeCategoryControl, ni_ControlKind = kind, ni_Title = title,
     ni_Metadata = [], ni_CreatedAt = at\<rparr>"

definition NewGraph :: "time \<Rightarrow> new_graph_input \<Rightarrow> orch_error + graph" where
  "NewGraph now inp =
     (if blank (gi_ID inp) then Err ErrMissingRequiredField
      else
        let at = stamp now (gi_CreatedAt inp);
            startID = (if gi_StartNodeID inp = [] then gi_ID inp @ '':start'' else gi_StartNodeID inp);
            endID = (if gi_EndNodeID inp = [] then gi_ID inp @ '':end'' else gi_EndNodeID inp)
        in case NewNode now (control_input startID (gi_ID inp) ControlKindStart ''Start'' at) of
             Err e \<Rightarrow> Err (ErrWrapped ''creating start node'' e)
           | Ok start \<Rightarrow>
               (case NewNode now (control_input endID (gi_ID inp) ControlKindEnd ''End'' at) of
                  Err e \<Rightarrow> Err (ErrWrapped ''creating end node'' e)
                | Ok end' \<Rightarrow> Ok \<lparr>g_id = gi_ID inp, g_planID = gi_PlanID inp, g_status = GraphDraft,
                    g_nodes = AList.update endID end' (AList.update startID start []),
                    g_edges = [], g_startNode = startID, g_endNode = endID,
                    g_createdAt = at, g_updatedAt = at, g_version = 1\<rparr>))"

text \<open>The header row of a graph, the node rows and the edge rows of its tables.\<close>

definition RehydrateGraph ::
  "graph \<Rightarrow> graph_node list \<Rightarrow> graph_edge list \<Rightarrow> orch_error + graph" where
  "RehydrateGraph hdr nodes edges =
     (if \<not> graphStatus_IsValid (g_status hdr) then Err ErrIllegalTransition
      else if g_version hdr < 1 then Err ErrMissingRequiredField
      else Ok (hdr\<lparr>g_nodes := fold (\<lambda>n m. AList.update (n_id n) n m) nodes [], g_edges := edges\<rparr>))"

definition FindNode :: "graph \<Rightarrow> node_id \<Rightarrow> graph_node option" where
  "FindNode g i = map_of (g_nodes g) i"

definition graph_Nodes :: "(graph_node list \<Rightarrow> graph_node list) \<Rightarrow> graph \<Rightarrow> graph_node list" where
  "graph_Nodes ord g = range_order ord (map snd (g_nodes g))"

definition graph_touch :: "time \<Rightarrow> time \<Rightarrow> graph \<Rightarrow> graph" where
  "graph_touch now at g = g\<lparr>g_updatedAt := stamp now at, g_version := g_version g + 1\<rparr>"

definition graph_transition :: "graph_status \<Rightarrow> time \<Rightarrow> time \<Rightarrow> graph \<Rightarrow> orch_error + graph" where
  "graph_transition to now at g =
     (if \<not> graphStatus_CanTransitionTo (g_status g) to then Err ErrIllegalTransition
      else Ok (graph_touch now at (g\<lparr>g_status := to\<rparr>)))"

definition graph_Start :: "time \<Rightarrow> time \<Rightarrow> graph \<Rightarrow> orch_error + graph" where
  "graph_Start now at g = graph_transition GraphRunning now at g"

definition graph_Finish :: "time \<Rightarrow> time \<Rightarrow> graph \<Rightarrow> orch_error + graph" where
  "graph_Finish now at g = graph_transition GraphDone now at g"

definition graph_Archive :: "time \<Rightarrow> time \<Rightarrow> graph \<Rightarrow> orch_error + graph" where
  "graph_Archive now at g = graph_transition GraphArchived now at g"

definition graph_Revert :: "time \<Rightarrow> time \<Rightarrow> graph \<Rightarrow> orch_error + graph" where
  "graph_Revert now at g = graph_transition GraphDraft now at g"

definition graph_AddNode :: "time \<Rightarrow> new_node_input \<Rightarrow> graph \<Rightarrow> orch_error + (graph_node \<times> graph)" where
  "graph_AddNode now inp g =
     (let inp' = inp\<lparr>ni_GraphID := g_id g, ni_CreatedAt := stamp now (ni_CreatedAt inp)\<rparr> in
      case NewNode now inp' of
        Err e \<Rightarrow> Err e
      | Ok n \<Rightarrow>
          if FindNode g (n_id n) \<noteq> None then Err ErrNodeExists
          else Ok (n, graph_touch now (ni_CreatedAt inp')
                 (g\<lparr>g_nodes := AList.update (n_id n) n (g_nodes g)\<rparr>)))"

definition graph_RemoveNode :: "time \<Rightarrow> node_id \<Rightarrow> graph \<Rightarrow> orch_error + graph" where
  "graph_RemoveNode now nodeID g =
     (if nodeID = g_startNode g \<or> nodeID = g_endNode g then Err ErrNodeNotRemovable
      else case FindNode g nodeID of
        None \<Rightarrow> Err ErrNodeNotFound
      | Some n \<Rightarrow>
          if n_status n = NodeRunning \<or> n_status n = NodeCompleted then Err ErrNodeNotRemovable
          else Ok (graph_touch now now
                 (g\<lparr>g_nodes := AList.delete nodeID (g_nodes g),
                    g_edges := filter (\<lambda>e. e_FromNodeID e \<noteq> nodeID \<and> e_ToNodeID e \<noteq> nodeID) (g_edges g)\<rparr>)))"

definition graph_AddEdge ::
  "(node_id list \<Rightarrow> node_id list) \<Rightarrow> time \<Rightarrow> node_id \<Rightarrow> node_id \<Rightarrow> graph \<Rightarrow> orch_error + graph" where
  "graph_AddEdge ord now frm to g =
     (if FindNode g frm = None \<or> FindNode g to = None then Err ErrNodeNotFound
      else if list_ex (\<lambda>e. e_FromNodeID e = frm \<and> e_ToNodeID e = to) (g_edges g) then Err ErrEdgeExists
      else let newEdge = \<lparr>e_FromNodeID = frm, e_ToNodeID = to\<rparr> in
        case graph_ValidateNoCycle ord (g_edges g) newEdge of
          Some e \<Rightarrow> Err e
        | None \<Rightarrow> Ok (graph_touch now now (g\<lparr>g_edges := g_edges g @ [newEdge]\<rparr>)))"

fun cut_edge :: "node_id \<Rightarrow> node_id \<Rightarrow> graph_edge list \<Rightarrow> graph_edge list option" where
  "cut_edge frm to [] = None"
| "cut_edge frm to (e # es) =
     (if e_FromNodeID e = frm \<and> e_ToNodeID e = to then Some es
      else map_option ((#) e) (cut_edge frm to es))"

definition graph_RemoveEdge :: "time \<Rightarrow> node_id \<Rightarrow> node_id \<Rightarrow> graph \<Rightarrow> graph" where
  "graph_RemoveEdge now frm to g =
     (case cut_edge frm to (g_edges g) of
        None \<Rightarrow> g
      | Some es \<Rightarrow> graph_touch now now (g\<lparr>g_edges := es\<rparr>))"

definition dep_satisfied :: "graph \<Rightarrow> node_id \<Rightarrow> bool" where
  "dep_satisfied g depID =
     (case FindNode g depID of
        None \<Rightarrow> False
      | Some dep \<Rightarrow>
          (n_status dep = NodeCompleted \<or> n_status dep = NodeDiscarded) \<or>
          (n_category dep = NodeCategoryControl \<and> n_controlKind dep \<noteq> ControlKindCondition))"

definition ReadyNodes :: "(graph_node list \<Rightarrow> graph_node list) \<Rightarrow> graph \<Rightarrow> graph_node list" where
  "ReadyNodes ord g =
     (let upstream = edge_reverse (g_edges g) in
      filter (\<lambda>n. n_category n \<noteq> NodeCategoryControl \<and>
          (n_status n = NodeOpen \<or> n_status n = NodeReopen) \<and>
          list_all (dep_satisfied g) (mm_get upstream (n_id n)))
        (graph_Nodes ord g))"

fun autoDone_loop :: "bool \<Rightarrow> graph_node list \<Rightarrow> bool" where
  "autoDone_loop hasBusiness [] = hasBusiness"
| "autoDone_loop hasBusiness (n # ns) =
     (if n_category n = NodeCategoryControl then autoDone_loop hasBusiness ns
      else if n_status n \<noteq> NodeCompleted \<and> n_status n \<noteq> NodeDiscarded then False
      else autoDone_loop True ns)"

definition IsAutoDone :: "(graph_node list \<Rightarrow> graph_node list) \<Rightarrow> graph \<Rightarrow> bool" where
  "IsAutoDone ord g = autoDone_loop False (graph_Nodes ord g)"

end
