(* ===== verification/Orch_Condition.thy ===== *)
theory Orch_Condition
  imports Orch_Graph
begin

section \<open>Condition nodes (orchestration/condition.go)\<close>

text \<open>
  The configuration a condition node carries in its metadata, the evaluation of its upstream
  nodes and the routing of its result.  \<open>ApplyConditionResult\<close> mutates nodes through the
  pointers the graph holds, so the model writes each change back into the graph and reads the
  condition node again after the loop over the chain.
\<close>

definition EvaluatorUpstream :: gostring where "EvaluatorUpstream = ''upstream_outcome''"
definition EvaluatorHook :: gostring where "EvaluatorHook = ''external_hook''"
definition EvaluatorManual :: gostring where "EvaluatorManual = ''manual''"

definition LogicAnd :: gostring where "LogicAnd = ''and''"
definition LogicOr :: gostring where "LogicOr = ''or''"

definition MaxExceededForceSuccess :: gostring where "MaxExceededForceSuccess = ''force_success''"
definition MaxExceededDiscard :: gostring where "MaxExceededDiscard = ''discard''"

record condition_config =
  cc_Evaluator :: gostring
  cc_Logic :: gostring
  cc_HookURL :: gostring
  cc_HookMethod :: gostring
  cc_SuccessCondition :: gostring
  cc_OnSuccess :: "node_id list"
  cc_OnFailure :: "node_id list"
  cc_MaxRounds :: int
  cc_OnMaxExceeded :: gostring

subsection \<open>Parsing\<close>

definition meta_string :: "metadata \<Rightarrow> gostring \<Rightarrow> gostring" where
  "meta_string meta k = (case map_of meta k of Some (AnyString s) \<Rightarrow> s | _ \<Rightarrow> [])"

definition meta_strings :: "metadata \<Rightarrow> gostring \<Rightarrow> gostring list" where
  "meta_strings meta k =
     (case map_of meta k of
        Some (AnyList vs) \<Rightarrow> concat (map (\<lambda>v. case v of AnyString s \<Rightarrow> [s] | _ \<Rightarrow> []) vs)
      | _ \<Rightarrow> [])"

text \<open>Go's conversion of a float64 to an int: truncation towards zero.\<close>

definition int_of_float :: "int \<Rightarrow> int \<Rightarrow> int" where
  "int_of_float m e =
     (if 0 \<le> e then m * 2 ^ nat e
      else if 0 \<le> m then m div 2 ^ nat (- e)
      else - ((- m) div 2 ^ nat (- e)))"

definition meta_int :: "metadata \<Rightarrow> gostring \<Rightarrow> int" where
  "meta_int meta k = (case map_of meta k of Some (AnyNumber m e) \<Rightarrow> int_of_float m e | _ \<Rightarrow> 0)"

definition ParseConditionConfig :: "metadata \<Rightarrow> orch_error + condition_config" where
  "ParseConditionConfig meta =
     (let ev = meta_string meta ''evaluator'' in
      if ev \<noteq> [] \<and> ev \<noteq> EvaluatorUpstream \<and> ev \<noteq> EvaluatorHook \<and> ev \<noteq> EvaluatorManual
      then Err (ErrUnknownEvaluator ev)
      else Ok \<lparr>cc_Evaluator = ev, cc_Logic = meta_string meta ''logic'',
        cc_HookURL = meta_string meta ''hook_url'', cc_HookMethod = meta_string meta ''hook_method'',
        cc_SuccessCondition = meta_string meta ''success_condition'',
        cc_OnSuccess = meta_strings meta ''on_success'',
        cc_OnFailure = meta_strings meta ''on_failure'',
        cc_MaxRounds = meta_int meta ''max_rounds'',
        cc_OnMaxExceeded = meta_string meta ''on_max_exceeded''\<rparr>)"

subsection \<open>Evaluation\<close>

definition node_success :: "graph_node \<Rightarrow> bool" where
  "node_success n \<longleftrightarrow> n_status n = NodeCompleted \<and> n_outcome n = ''success''"

fun upstream_loop :: "graph \<Rightarrow> gostring \<Rightarrow> int \<Rightarrow> node_id list \<Rightarrow> orch_error + bool" where
  "upstream_loop g logic businessCount [] =
     (if businessCount = 0 then Err (ErrNewOrch ''condition node has no upstream business nodes'')
      else Ok (logic = LogicAnd))"
| "upstream_loop g logic businessCount (i # ids) =
     (case FindNode g i of
        None \<Rightarrow> Err (ErrNewOrch (''upstream node '' @ i @ '' not found''))
      | Some n \<Rightarrow>
          if n_category n = NodeCategoryControl then upstream_loop g logic businessCount ids
          else if logic = LogicAnd \<and> \<not> node_success n then Ok False
          else if logic = LogicOr \<and> node_success n then Ok True
          else upstream_loop g logic (businessCount + 1) ids)"

definition EvaluateUpstream :: "graph \<Rightarrow> node_id \<Rightarrow> condition_config \<Rightarrow> orch_error + bool" where
  "EvaluateUpstream g conditionNodeID cfg =
     (let upstreamIDs = [e_FromNodeID e. e \<leftarrow> g_edges g, e_ToNodeID e = conditionNodeID] in
      if upstreamIDs = [] then Err (ErrNewOrch ''condition node has no upstream nodes'')
      else upstream_loop g (if cc_Logic cfg = [] then LogicAnd else cc_Logic cfg) 0 upstreamIDs)"

subsection \<open>Routing a result\<close>

definition countReopens :: "graph_node \<Rightarrow> int" where
  "countReopens n = int (length (filter (\<lambda>l. gl_Action l = ''reopened'') (n_actionLogs n)))"

definition put_node :: "node_id \<Rightarrow> graph_node \<Rightarrow> graph \<Rightarrow> graph" where
  "put_node i n g = g\<lparr>g_nodes := AList.update i n (g_nodes g)\<rparr>"

definition on_node ::
  "node_id \<Rightarrow> (graph_node \<Rightarrow> orch_error + graph_node) \<Rightarrow> graph \<Rightarrow> orch_error + graph" where
  "on_node i f g =
     (case FindNode g i of
        None \<Rightarrow> Err ErrNodeNotFound
      | Some n \<Rightarrow> (case f n of Err e \<Rightarrow> Err e | Ok n' \<Rightarrow> Ok (put_node i n' g)))"

text \<open>
  The three guarded moves of the condition node: each runs its operation only from the
  statuses that the \<open>if\<close> around it names.
\<close>

definition when_status ::
  "graph_node_status list \<Rightarrow> node_id \<Rightarrow> (graph_node \<Rightarrow> orch_error + graph_node) \<Rightarrow> graph \<Rightarrow>
   orch_error + graph" where
  "when_status ss i f g =
     (case FindNode g i of
        None \<Rightarrow> Ok g
      | Some n \<Rightarrow> if n_status n \<in> set ss then on_node i f g else Ok g)"

definition bind_graph :: "orch_error + graph \<Rightarrow> (graph \<Rightarrow> orch_error + graph) \<Rightarrow> orch_error + graph" where
  "bind_graph r f = (case r of Err e \<Rightarrow> Err e | Ok g \<Rightarrow> f g)"

fun reopen_all ::
  "gostring \<Rightarrow> time \<Rightarrow> time \<Rightarrow> node_id list \<Rightarrow> graph \<Rightarrow> orch_error + graph" where
  "reopen_all reason now at [] g = Ok g"
| "reopen_all reason now at (nid # nids) g =
     bind_graph (when_status [NodeCompleted] nid (node_Reopen reason now at) g)
       (reopen_all reason now at nids)"

definition toReopen ::
  "graph_edge list \<Rightarrow> node_id \<Rightarrow> node_id list \<Rightarrow> node_id list" where
  "toReopen edges conditionNodeID targets =
     remdups (concat (map (ReopenChain edges conditionNodeID) targets))"

definition ApplyConditionResult ::
  "(node_id list \<Rightarrow> node_id list) \<Rightarrow> time \<Rightarrow> node_id \<Rightarrow> condition_config \<Rightarrow> bool \<Rightarrow> time \<Rightarrow> graph \<Rightarrow>
   orch_error + graph" where
  "ApplyConditionResult ord now i cfg success at g =
     (case FindNode g i of
        None \<Rightarrow> Err ErrNodeNotFound
      | Some condNode \<Rightarrow>
          let start = when_status [NodeOpen, NodeReopen] i (node_Start now at);
              round = countReopens condNode + 1
          in if success then
               bind_graph (start g) (when_status [NodeRunning] i (node_Complete ''success'' now at))
             else if 0 < cc_MaxRounds cfg \<and> cc_MaxRounds cfg < round then
               (if cc_OnMaxExceeded cfg = MaxExceededForceSuccess then
                  bind_graph (start g) (on_node i (node_Complete ''force_success'' now at))
                else if cc_OnMaxExceeded cfg = MaxExceededDiscard then
                  bind_graph (start g) (on_node i (node_Discard now at))
                else on_node i (node_Discard now at) g)
             else
               let detail = ''failure,round:'' @ Itoa round;
                   reason = ''reactivated_by:'' @ i @ '',round:'' @ Itoa round;
                   nids = range_order ord (toReopen (g_edges g) i (cc_OnFailure cfg))
               in bind_graph (reopen_all reason now at nids g)
                    (\<lambda>g1. bind_graph (start g1)
                    (\<lambda>g2. bind_graph (when_status [NodeRunning] i (node_Complete detail now at) g2)
                      (when_status [NodeCompleted] i (node_Reopen detail now at)))))"

end
