(* ===== verification/Orch_Lifecycle.thy ===== *)
theory Orch_Lifecycle
  imports Orch_Condition
begin

section \<open>Histories of an orchestration graph\<close>

text \<open>
  The calls a client makes on a graph and its nodes as one operation type, the invariant
  \<open>graph_wf\<close> that every call keeps, and the properties that rest on it: soundness of the
  stored DAG, the ready set, progress of the scheduler and the bound on condition rounds.
\<close>

datatype node_op =
    NStart time
  | NComplete gostring time
  | NReopen gostring time
  | NDiscard time
  | NSetTitle gostring time
  | NSetMetadata metadata time

fun node_exec :: "time \<Rightarrow> node_op \<Rightarrow> graph_node \<Rightarrow> orch_error + graph_node" where
  "node_exec now (NStart at) n = node_Start now at n"
| "node_exec now (NComplete detail at) n = node_Complete detail now at n"
| "node_exec now (NReopen reason at) n = node_Reopen reason now at n"
| "node_exec now (NDiscard at) n = node_Discard now at n"
| "node_exec now (NSetTitle title at) n = node_SetTitle title now at n"
| "node_exec now (NSetMetadata meta at) n = Ok (node_SetMetadata meta now at n)"

datatype graph_op =
    GStart time
  | GFinish time
  | GArchive time
  | GRevert time
  | GAddNode new_node_input
  | GRemoveNode node_id
  | GAddEdge "node_id list \<Rightarrow> node_id list" node_id node_id
  | GRemoveEdge node_id node_id
  | GNode node_id node_op
  | GCondition "node_id list \<Rightarrow> node_id list" node_id condition_config bool time

type_synonym graph_call = "time \<times> graph_op"

fun graph_exec :: "graph_call \<Rightarrow> graph \<Rightarrow> orch_error + graph" where
  "graph_exec (now, GStart at) g = graph_Start now at g"
| "graph_exec (now, GFinish at) g = graph_Finish now at g"
| "graph_exec (now, GArchive at) g = graph_Archive now at g"
| "graph_exec (now, GRevert at) g = graph_Revert now at g"
| "graph_exec (now, GAddNode inp) g = map_sum id snd (graph_AddNode now inp g)"
| "graph_exec (now, GRemoveNode i) g = graph_RemoveNode now i g"
| "graph_exec (now, GAddEdge ord frm to) g = graph_AddEdge ord now frm to g"
| "graph_exec (now, GRemoveEdge frm to) g = Ok (graph_RemoveEdge now frm to g)"
| "graph_exec (now, GNode i op) g = on_node i (node_exec now op) g"
| "graph_exec (now, GCondition ord i cfg success at) g = ApplyConditionResult ord now i cfg success at g"

subsection \<open>The invariant\<close>

definition node_ok :: "graph_node \<Rightarrow> bool" where
  "node_ok n \<longleftrightarrow> nodeStatus_IsValid (n_status n) \<and> category_IsValid (n_category n) \<and> 1 \<le> n_version n"

definition node_table_ok :: "graph \<Rightarrow> bool" where
  "node_table_ok g \<longleftrightarrow>
     distinct (map fst (g_nodes g)) \<and>
     (\<forall>i n. FindNode g i = Some n \<longrightarrow> n_id n = i \<and> node_ok n) \<and>
     FindNode g (g_startNode g) \<noteq> None \<and> FindNode g (g_endNode g) \<noteq> None"

definition edge_table_ok :: "graph \<Rightarrow> bool" where
  "edge_table_ok g \<longleftrightarrow>
     distinct (map edge_pair (g_edges g)) \<and>
     (\<forall>(a, b) \<in> edge_rel (g_edges g). FindNode g a \<noteq> None \<and> FindNode g b \<noteq> None) \<and>
     acyclic (edge_rel (g_edges g))"

definition graph_wf :: "graph \<Rightarrow> bool" where
  "graph_wf g \<longleftrightarrow> node_table_ok g \<and> edge_table_ok g \<and> graphStatus_IsValid (g_status g) \<and> 1 \<le> g_version g"

lemmas wf_defs = graph_wf_def node_table_ok_def edge_table_ok_def

text \<open>What a call on the nodes of a graph may change.\<close>

definition node_evolves :: "graph_node \<Rightarrow> graph_node \<Rightarrow> bool" where
  "node_evolves n n' \<longleftrightarrow>
     n_id n' = n_id n \<and> n_graphID n' = n_graphID n \<and> n_category n' = n_category n \<and>
     n_controlKind n' = n_controlKind n \<and> n_createdAt n' = n_createdAt n \<and>
     (nodeStatus_IsValid (n_status n) \<longrightarrow> nodeStatus_IsValid (n_status n')) \<and>
     (n' = n \<or> n_version n < n_version n')"

definition nodes_evolve :: "graph \<Rightarrow> graph \<Rightarrow> bool" where
  "nodes_evolve g g' \<longleftrightarrow>
     (\<exists>ns. g' = g\<lparr>g_nodes := ns\<rparr> \<and> map fst ns = map fst (g_nodes g)) \<and>
     (\<forall>i. rel_option node_evolves (FindNode g i) (FindNode g' i))"

lemma node_evolves_refl: "node_evolves n n"
  by (simp add: node_evolves_def)

lemma node_evolves_trans: "node_evolves a b \<Longrightarrow> node_evolves b c \<Longrightarrow> node_evolves a c"
  by (auto simp: node_evolves_def)

lemma nodes_evolve_refl: "nodes_evolve g g"
  by (auto simp: nodes_evolve_def node_evolves_refl option.rel_refl intro!: exI [of _ "g_nodes g"])

lemma nodes_evolve_trans:
  assumes "nodes_evolve a b" "nodes_evolve b c"
  shows "nodes_evolve a c"
proof -
  have "rel_option node_evolves (FindNode a i) (FindNode c i)" for i
  proof -
    have "rel_option node_evolves (FindNode a i) (FindNode b i)"
      "rel_option node_evolves (FindNode b i) (FindNode c i)"
      using assms by (auto simp: nodes_evolve_def)
    then show ?thesis by (cases "FindNode b i") (auto simp: option_rel_Some1 option_rel_Some2 intro: node_evolves_trans)
  qed
  with assms show ?thesis by (auto simp: nodes_evolve_def)
qed

lemma FindNode_put [simp]: "FindNode (put_node i n g) j = (if j = i then Some n else FindNode g j)"
  by (simp add: FindNode_def put_node_def update_conv')

lemma put_node_evolves:
  assumes "FindNode g i = Some n" "node_evolves n n'"
  shows "nodes_evolve g (put_node i n' g)"
proof -
  have "i \<in> fst ` set (g_nodes g)"
    using assms(1) by (force simp: FindNode_def dest: map_of_SomeD)
  then have "map fst (AList.update i n' (g_nodes g)) = map fst (g_nodes g)"
    by (simp add: update_keys image_iff)
  with assms show ?thesis
    by (auto simp: nodes_evolve_def put_node_def [symmetric] node_evolves_refl option.rel_refl)
      (simp add: put_node_def, blast)
qed

lemma node_exec_evolves: "node_exec now op n = Ok n' \<Longrightarrow> node_evolves n n'"
  by (cases op) (auto simp: node_defs node_evolves_def split: if_splits sum.splits)

lemma on_node_evolves:
  assumes "\<And>n n'. f n = Ok n' \<Longrightarrow> node_evolves n n'" "on_node i f g = Ok g'"
  shows "nodes_evolve g g'"
  using assms by (auto simp: on_node_def split: option.splits sum.splits intro: put_node_evolves)

lemma nodes_evolve_back:
  assumes "nodes_evolve g g'" "FindNode g' i = Some n'"
  shows "\<exists>n. FindNode g i = Some n \<and> node_evolves n n'"
proof -
  have "rel_option node_evolves (FindNode g i) (FindNode g' i)"
    using assms(1) unfolding nodes_evolve_def by blast
  with assms(2) show ?thesis by (simp add: option_rel_Some2)
qed

lemma nodes_evolve_wf:
  assumes ev: "nodes_evolve g g'" and wf: "graph_wf g"
  shows "graph_wf g'"
proof -
  obtain ns where g': "g' = g\<lparr>g_nodes := ns\<rparr>" and keys: "map fst ns = map fst (g_nodes g)"
    using ev by (auto simp: nodes_evolve_def)
  have dom: "FindNode g' i = None \<longleftrightarrow> FindNode g i = None" for i
    using ev by (metis nodes_evolve_def option.rel_distinct(1) option.rel_distinct(2) option.exhaust)
  have "n_id n' = i \<and> node_ok n'" if f: "FindNode g' i = Some n'" for i n'
  proof -
    obtain n where "FindNode g i = Some n" "node_evolves n n'"
      using nodes_evolve_back [OF ev f] by blast
    moreover from this(1) wf have "n_id n = i" "node_ok n" by (auto simp: wf_defs)
    ultimately show ?thesis by (auto simp: node_ok_def node_evolves_def)
  qed
  with wf dom keys show ?thesis by (auto simp: wf_defs g')
qed

lemma when_status_evolves:
  assumes "\<And>n n'. f n = Ok n' \<Longrightarrow> node_evolves n n'" "when_status ss i f g = Ok g'"
  shows "nodes_evolve g g'"
proof -
  have "g' = g \<or> on_node i f g = Ok g'"
    using assms(2) by (auto simp: when_status_def split: option.splits if_splits)
  then show ?thesis using on_node_evolves [of f i g g'] assms(1) nodes_evolve_refl by metis
qed

lemma bind_graph_Ok: "bind_graph r f = Ok g' \<longleftrightarrow> (\<exists>g. r = Ok g \<and> f g = Ok g')"
  by (auto simp: bind_graph_def split: sum.splits)

lemma node_call_evolves:
  "node_Start now at n = Ok n' \<Longrightarrow> node_evolves n n'"
  "node_Complete detail now at n = Ok n' \<Longrightarrow> node_evolves n n'"
  "node_Reopen detail now at n = Ok n' \<Longrightarrow> node_evolves n n'"
  "node_Discard now at n = Ok n' \<Longrightarrow> node_evolves n n'"
  using node_exec_evolves [of now "NStart at"] node_exec_evolves [of now "NComplete detail at"]
    node_exec_evolves [of now "NReopen detail at"] node_exec_evolves [of now "NDiscard at"]
  by simp_all

lemma guarded_evolves:
  "when_status ss i (node_Start now at) g = Ok g' \<Longrightarrow> nodes_evolve g g'"
  "when_status ss i (node_Complete detail now at) g = Ok g' \<Longrightarrow> nodes_evolve g g'"
  "when_status ss i (node_Reopen detail now at) g = Ok g' \<Longrightarrow> nodes_evolve g g'"
  "on_node i (node_Complete detail now at) g = Ok g' \<Longrightarrow> nodes_evolve g g'"
  "on_node i (node_Discard now at) g = Ok g' \<Longrightarrow> nodes_evolve g g'"
  by (rule when_status_evolves on_node_evolves, rule node_call_evolves, assumption, assumption)+

lemma reopen_all_evolves: "reopen_all reason now at nids g = Ok g' \<Longrightarrow> nodes_evolve g g'"
proof (induction nids arbitrary: g)
  case Nil
  then show ?case by (simp add: nodes_evolve_refl)
next
  case (Cons nid nids)
  then obtain g1 where "when_status [NodeCompleted] nid (node_Reopen reason now at) g = Ok g1"
    "reopen_all reason now at nids g1 = Ok g'"
    by (auto simp: bind_graph_Ok)
  moreover from this(1) have "nodes_evolve g g1"
    by (rule guarded_evolves(3))
  ultimately show ?case using Cons.IH nodes_evolve_trans by blast
qed

lemma condition_evolves:
  assumes "ApplyConditionResult ord now i cfg success at g = Ok g'"
  shows "nodes_evolve g g'"
  using assms
  by (auto simp: ApplyConditionResult_def Let_def bind_graph_Ok split: option.splits if_splits
      dest!: guarded_evolves reopen_all_evolves intro: nodes_evolve_trans)

subsection \<open>Every call keeps the invariant\<close>

lemma FindNode_simps [simp]:
  "FindNode (g\<lparr>g_edges := es\<rparr>) i = FindNode g i" "FindNode (g\<lparr>g_status := st\<rparr>) i = FindNode g i"
  "FindNode (graph_touch now at g) i = FindNode g i"
  by (simp_all add: FindNode_def graph_touch_def)

lemma NewNode_ok:
  "NewNode now inp = Ok n \<Longrightarrow> n_id n = ni_ID inp \<and> n_status n = NodeOpen \<and> node_ok n \<and>
   n_category n = ni_Category inp \<and> n_controlKind n = ni_ControlKind inp \<and> n_actionLogs n = []"
  by (auto simp: NewNode_def node_ok_def Let_def split: if_splits)

lemma NewGraph_wf: "NewGraph now inp = Ok g \<Longrightarrow> graph_wf g"
  by (auto simp: NewGraph_def Let_def wf_defs edge_rel_def FindNode_def acyclic_def
      graphStatus_IsValid_def split: if_splits sum.splits dest!: NewNode_ok
      simp: control_input_def)

lemma cut_edge_filter:
  "distinct (map edge_pair es) \<Longrightarrow> cut_edge frm to es = Some es' \<Longrightarrow>
   es' = filter (\<lambda>e. edge_pair e \<noteq> (frm, to)) es"
proof (induction es arbitrary: es')
  case (Cons e es)
  show ?case
  proof (cases "edge_pair e = (frm, to)")
    case True
    with Cons.prems have "es' = es" "\<forall>x \<in> set es. edge_pair x \<noteq> (frm, to)"
      by (auto simp: edge_pair_def image_iff)
    with True show ?thesis by (simp add: filter_id_conv)
  next
    case False
    with Cons show ?thesis by (auto simp: edge_pair_def split: if_splits)
  qed
qed simp

lemma edge_table_filter:
  assumes "edge_table_ok g" "g_edges g' = filter P (g_edges g)"
    and "\<And>e. e \<in> set (g_edges g') \<Longrightarrow> FindNode g' (e_FromNodeID e) \<noteq> None \<and> FindNode g' (e_ToNodeID e) \<noteq> None"
  shows "edge_table_ok g'"
proof -
  have "edge_rel (g_edges g') \<subseteq> edge_rel (g_edges g)" by (auto simp: assms(2) edge_rel_def)
  with assms(1) have "acyclic (edge_rel (g_edges g'))"
    by (auto simp: edge_table_ok_def intro: acyclic_subset)
  moreover have "distinct (map edge_pair (g_edges g'))"
    using assms(1,2) by (simp add: edge_table_ok_def distinct_map inj_on_def)
  ultimately show ?thesis
    using assms(3) by (auto simp: edge_table_ok_def edge_rel_def edge_pair_def)
qed

lemma FindNode_delete [simp]:
  "FindNode (g\<lparr>g_nodes := AList.delete i (g_nodes g)\<rparr>) j = (if j = i then None else FindNode g j)"
  by (simp add: FindNode_def delete_conv')

lemma AddNode_wf:
  assumes "graph_AddNode now inp g = Ok (n, g')" "graph_wf g"
  shows "graph_wf g'"
proof -
  have n: "node_ok n" and fresh: "FindNode g (n_id n) = None"
    and g': "\<And>j. FindNode g' j = (if j = n_id n then Some n else FindNode g j)"
    and rest: "g_edges g' = g_edges g" "g_startNode g' = g_startNode g" "g_endNode g' = g_endNode g"
      "g_status g' = g_status g" "g_version g' = g_version g + 1"
      "g_nodes g' = AList.update (n_id n) n (g_nodes g)"
    using assms(1)
    by (auto simp: graph_AddNode_def Let_def graph_touch_def FindNode_def update_conv'
        split: sum.splits if_splits dest: NewNode_ok)
  have "distinct (map fst (g_nodes g'))"
    using assms(2) by (simp add: rest distinct_update wf_defs)
  with assms(2) n fresh show ?thesis by (auto simp: wf_defs g' rest)
qed

lemma RemoveNode_wf:
  assumes "graph_RemoveNode now i g = Ok g'" "graph_wf g"
  shows "graph_wf g'"
proof -
  have g': "g' = graph_touch now now (g\<lparr>g_nodes := AList.delete i (g_nodes g),
      g_edges := filter (\<lambda>e. e_FromNodeID e \<noteq> i \<and> e_ToNodeID e \<noteq> i) (g_edges g)\<rparr>)"
    and ends: "i \<noteq> g_startNode g" "i \<noteq> g_endNode g"
    using assms(1) by (auto simp: graph_RemoveNode_def split: if_splits option.splits)
  have find: "FindNode g' j = (if j = i then None else FindNode g j)" for j
    by (simp add: g')
  have sel: "g_edges g' = filter (\<lambda>e. e_FromNodeID e \<noteq> i \<and> e_ToNodeID e \<noteq> i) (g_edges g)"
    "g_nodes g' = AList.delete i (g_nodes g)" "g_startNode g' = g_startNode g"
    "g_endNode g' = g_endNode g" "g_status g' = g_status g" "g_version g' = g_version g + 1"
    by (simp_all add: g' graph_touch_def)
  have "edge_table_ok g'"
    by (rule edge_table_filter [OF _ sel(1)])
      (use assms(2) in \<open>auto simp: wf_defs find sel edge_rel_def edge_pair_def\<close>)
  moreover have "node_table_ok g'"
    using assms(2) ends by (auto simp: wf_defs find sel distinct_delete)
  ultimately show ?thesis using assms(2) by (auto simp: graph_wf_def sel)
qed

lemma AddEdge_wf:
  assumes "graph_AddEdge ord now frm to g = Ok g'" "graph_wf g"
  shows "graph_wf g'"
proof -
  let ?e = "\<lparr>e_FromNodeID = frm, e_ToNodeID = to\<rparr>"
  have g': "g' = graph_touch now now (g\<lparr>g_edges := g_edges g @ [?e]\<rparr>)"
    and ends: "FindNode g frm \<noteq> None" "FindNode g to \<noteq> None"
    and fresh: "edge_pair ?e \<notin> edge_pair ` set (g_edges g)"
    and acyc: "graph_ValidateNoCycle ord (g_edges g) ?e = None"
    using assms(1)
    by (auto simp: graph_AddEdge_def Let_def list_ex_iff edge_pair_def
        split: if_splits option.splits)
  have sel: "g_edges g' = g_edges g @ [?e]" "g_nodes g' = g_nodes g"
    "g_startNode g' = g_startNode g" "g_endNode g' = g_endNode g" "g_status g' = g_status g"
    "g_version g' = g_version g + 1" "FindNode g' = FindNode g"
    by (simp_all add: g' graph_touch_def fun_eq_iff FindNode_def)
  have rel: "edge_rel (g_edges g') = insert (frm, to) (edge_rel (g_edges g))"
    by (simp add: sel edge_rel_def edge_pair_def)
  have "acyclic (edge_rel (g_edges g'))"
    using acyc by (simp add: rel graph_ValidateNoCycle_None edge_pair_def)
  moreover have "distinct (map edge_pair (g_edges g'))"
    using assms(2) fresh by (simp add: sel wf_defs)
  ultimately show ?thesis
    using assms(2) ends by (auto simp: wf_defs sel(2-7) rel)
qed

lemma RemoveEdge_wf:
  assumes "graph_wf g"
  shows "graph_wf (graph_RemoveEdge now frm to g)"
proof (cases "cut_edge frm to (g_edges g)")
  case None
  with assms show ?thesis by (simp add: graph_RemoveEdge_def)
next
  case (Some es)
  let ?g = "graph_touch now now (g\<lparr>g_edges := es\<rparr>)"
  have "es = filter (\<lambda>e. edge_pair e \<noteq> (frm, to)) (g_edges g)"
    using cut_edge_filter [OF _ Some] assms by (simp add: wf_defs)
  then have es: "g_edges ?g = filter (\<lambda>e. edge_pair e \<noteq> (frm, to)) (g_edges g)"
    by (simp add: graph_touch_def)
  have "edge_table_ok ?g"
    by (rule edge_table_filter [OF _ es])
      (use assms in \<open>auto simp: wf_defs es edge_rel_def edge_pair_def\<close>)
  with assms Some show ?thesis
    by (simp add: graph_RemoveEdge_def graph_wf_def node_table_ok_def) (simp add: graph_touch_def)
qed

lemma transition_wf: "graph_transition to now at g = Ok g' \<Longrightarrow> graph_wf g \<Longrightarrow> graph_wf g'"
  using orch_graph_sm.succs_valid [of to "g_status g"]
  by (auto simp: graph_transition_def graphStatus_CanTransitionTo_def list_ex_iff wf_defs
      graph_touch_def FindNode_def split: if_splits)

lemmas transition_calls = graph_Start_def graph_Finish_def graph_Archive_def graph_Revert_def

lemma graph_exec_wf: "graph_exec c g = Ok g' \<Longrightarrow> graph_wf g \<Longrightarrow> graph_wf g'"
  by (cases "(c, g)" rule: graph_exec.cases)
    (auto simp: transition_calls map_sum_def split: sum.splits
      intro: transition_wf AddNode_wf RemoveNode_wf AddEdge_wf RemoveEdge_wf
      nodes_evolve_wf [OF condition_evolves]
      nodes_evolve_wf [OF on_node_evolves [OF node_exec_evolves]])

lemma graph_exec_version:
  assumes "graph_exec c g = Ok g'"
  shows "g_version g \<le> g_version g'"
proof -
  have "g_version g \<le> g_version g' \<or> nodes_evolve g g'"
    using assms
    by (cases "(c, g)" rule: graph_exec.cases)
      (auto simp: transition_calls graph_transition_def graph_touch_def graph_AddNode_def
        graph_RemoveNode_def graph_AddEdge_def graph_RemoveEdge_def Let_def
        split: if_splits sum.splits option.splits
        intro: condition_evolves on_node_evolves [OF node_exec_evolves])
  then show ?thesis by (auto simp: nodes_evolve_def)
qed

text \<open>Whatever is called on an archived graph, its status and its anchors stay.\<close>

definition graph_identity :: "graph \<Rightarrow> graph_id \<times> gostring \<times> node_id \<times> node_id \<times> graph_status \<times> time" where
  "graph_identity g = (g_id g, g_planID g, g_startNode g, g_endNode g, g_status g, g_createdAt g)"

lemma graph_exec_sealed:
  assumes "graph_exec c g = Ok g'" "g_status g = GraphArchived"
  shows "graph_identity g' = graph_identity g"
proof -
  have "graph_identity g' = graph_identity g \<or> nodes_evolve g g'"
    using assms
    by (cases "(c, g)" rule: graph_exec.cases)
      (auto simp: transition_calls graph_transition_def graphStatus_CanTransitionTo_def
        graphTransitions_def graph_touch_def graph_AddNode_def
        graph_RemoveNode_def graph_AddEdge_def graph_RemoveEdge_def Let_def graph_identity_def
        split: if_splits sum.splits option.splits
        intro: condition_evolves on_node_evolves [OF node_exec_evolves])
  then show ?thesis by (auto simp: nodes_evolve_def graph_identity_def)
qed

lemma graph_exec_archived:
  "graph_exec c g = Ok g' \<Longrightarrow> g_status g = GraphArchived \<Longrightarrow> g_status g' = GraphArchived"
  using graph_exec_sealed [of c g g'] by (simp add: graph_identity_def)

interpretation orch_graph: sealed_aggregate graph_exec graph_wf g_version
  "\<lambda>g. g_status g = GraphArchived" graph_identity
  by unfold_locales
    (auto intro: graph_exec_wf graph_exec_version graph_exec_sealed graph_exec_archived)

definition sample_graph_input :: new_graph_input where
  "sample_graph_input = \<lparr>gi_ID = ''g1'', gi_PlanID = ''p1'', gi_StartNodeID = [], gi_EndNodeID = [],
     gi_CreatedAt = 5\<rparr>"

definition sample_node_input :: "node_id \<Rightarrow> node_category \<Rightarrow> control_kind \<Rightarrow> new_node_input" where
  "sample_node_input i c k = \<lparr>ni_ID = i, ni_GraphID = [], ni_Category = c, ni_ControlKind = k,
     ni_Title = i, ni_Metadata = [], ni_CreatedAt = 6\<rparr>"

definition sample_ops :: "graph_call list" where
  "sample_ops = map (Pair 9)
     [GAddNode (sample_node_input ''dev'' NodeCategoryBusiness (ControlKindOther [])),
      GAddNode (sample_node_input ''test'' NodeCategoryBusiness (ControlKindOther [])),
      GAddNode (sample_node_input ''gate'' NodeCategoryControl ControlKindCondition),
      GAddNode (sample_node_input ''ship'' NodeCategoryBusiness (ControlKindOther [])),
      GAddEdge id ''g1:start'' ''dev'', GAddEdge id ''dev'' ''test'', GAddEdge id ''test'' ''gate'',
      GAddEdge id ''gate'' ''ship'', GAddEdge id ''ship'' ''dev'', GAddEdge id ''dev'' ''gate'',
      GStart 7]"

definition sample_graph :: graph where
  "sample_graph = (case NewGraph 9 sample_graph_input of
     Ok g \<Rightarrow> run_ops graph_exec sample_ops g
   | Err e \<Rightarrow> \<lparr>g_id = [], g_planID = [], g_status = GraphDraft, g_nodes = [], g_edges = [],
       g_startNode = [], g_endNode = [], g_createdAt = 0, g_updatedAt = 0, g_version = 0\<rparr>)"

text \<open>
  C10: the stored DAG stays sound.  From a new graph and after any sequence of calls on the
  graph and its nodes, refused ones included, the node table has one row per id with a valid
  status and category, both anchors are there, no edge dangles or is doubled, the edges are
  acyclic and the version has not decreased.
\<close>

theorem graph_history_sound:
  assumes "NewGraph now inp = Ok g"
  shows "graph_wf (run_ops graph_exec ops g) \<and> g_version g \<le> g_version (run_ops graph_exec ops g)"
  using orch_graph.run_inv [OF NewGraph_wf [OF assms]] orch_graph.versions.run_rel by simp

theorem graph_history_sound_witness:
  "graph_wf sample_graph \<and> length (g_edges sample_graph) = 5"
proof -
  have "\<not> isl (NewGraph 9 sample_graph_input)" by code_simp
  then obtain g where g: "NewGraph 9 sample_graph_input = Ok g"
    by (cases "NewGraph 9 sample_graph_input") auto
  have "sample_graph = run_ops graph_exec sample_ops g" by (simp add: sample_graph_def g)
  moreover have "length (g_edges sample_graph) = 5" by code_simp
  ultimately show ?thesis using graph_history_sound [OF g, of sample_ops] by simp
qed

text \<open>
  An archived graph stays archived, with the same identity, plan and anchor nodes,
  whatever is called on it afterwards.  Its nodes and edges stay writable: no operation of
  graph.go or node.go looks at the status of the graph.
\<close>

lemma graph_archived_final:
  assumes "graph_wf g" "g_status g = GraphArchived"
  shows "graph_identity (run_ops graph_exec ops g) = graph_identity g"
  using orch_graph.run_sealed [OF assms] by simp

end
