(* ===== verification/Orch_Properties.thy ===== *)
theory Orch_Properties
  imports Orch_Lifecycle
begin

section \<open>Scheduling and conditions of an orchestration graph\<close>

text \<open>
  What the scheduler reads (\<open>ReadyNodes\<close>, \<open>IsAutoDone\<close>), why it cannot get stuck, and
  what a resolved condition does to the graph.
\<close>

subsection \<open>The ready set\<close>

lemma upstream_edges: "u \<in> set (mm_get (edge_reverse es) i) \<longleftrightarrow> (u, i) \<in> edge_rel es"
  using edge_reverse_rel [of es] by (auto simp: adj_rel_def)

lemma set_graph_Nodes [simp]: "set (graph_Nodes ord g) = snd ` set (g_nodes g)"
  by (simp add: graph_Nodes_def)

lemma wf_node:
  assumes "graph_wf g" "FindNode g i = Some n"
  shows "n_id n = i" "nodeStatus_IsValid (n_status n)" "category_IsValid (n_category n)"
  using assms by (auto simp: wf_defs node_ok_def)

lemma category_cases:
  "category_IsValid c \<Longrightarrow> c \<noteq> NodeCategoryControl \<longleftrightarrow> c = NodeCategoryBusiness"
  by (cases c) (auto simp: category_IsValid_def)

lemma wf_edge: "graph_wf g \<Longrightarrow> (a, b) \<in> edge_rel (g_edges g) \<Longrightarrow> FindNode g a \<noteq> None"
  by (auto simp: wf_defs)

lemma graph_Nodes_wf:
  assumes "graph_wf g"
  shows "n \<in> snd ` set (g_nodes g) \<longleftrightarrow> FindNode g (n_id n) = Some n"
proof
  assume "n \<in> snd ` set (g_nodes g)"
  then obtain i where "(i, n) \<in> set (g_nodes g)" by auto
  then have "FindNode g i = Some n" using assms by (simp add: FindNode_def wf_defs)
  with wf_node [OF assms this] show "FindNode g (n_id n) = Some n" by simp
next
  assume "FindNode g (n_id n) = Some n"
  then have "(n_id n, n) \<in> set (g_nodes g)" unfolding FindNode_def by (rule map_of_SomeD)
  then show "n \<in> snd ` set (g_nodes g)" by (rule image_eqI [rotated]) simp
qed

lemma ready_set_iff:
  assumes "graph_wf g"
  shows "n \<in> set (ReadyNodes ord g) \<longleftrightarrow>
    FindNode g (n_id n) = Some n \<and> n_category n = NodeCategoryBusiness \<and>
    n_status n \<in> {NodeOpen, NodeReopen} \<and>
    (\<forall>u d. (u, n_id n) \<in> edge_rel (g_edges g) \<and> FindNode g u = Some d \<longrightarrow>
       n_status d \<in> {NodeCompleted, NodeDiscarded} \<or>
       n_category d = NodeCategoryControl \<and> n_controlKind d \<noteq> ControlKindCondition)"
proof -
  have cat: "n_category n \<noteq> NodeCategoryControl \<longleftrightarrow> n_category n = NodeCategoryBusiness"
    if "FindNode g (n_id n) = Some n"
    using category_cases wf_node(3) [OF assms that] by blast
  have "dep_satisfied g u \<longleftrightarrow> (\<forall>d. FindNode g u = Some d \<longrightarrow>
       n_status d \<in> {NodeCompleted, NodeDiscarded} \<or>
       n_category d = NodeCategoryControl \<and> n_controlKind d \<noteq> ControlKindCondition)"
    if "(u, n_id n) \<in> edge_rel (g_edges g)" for u
    using wf_edge [OF assms that] by (auto simp: dep_satisfied_def)
  then have deps: "list_all (dep_satisfied g) (mm_get (edge_reverse (g_edges g)) (n_id n)) \<longleftrightarrow>
    (\<forall>u d. (u, n_id n) \<in> edge_rel (g_edges g) \<and> FindNode g u = Some d \<longrightarrow>
       n_status d \<in> {NodeCompleted, NodeDiscarded} \<or>
       n_category d = NodeCategoryControl \<and> n_controlKind d \<noteq> ControlKindCondition)"
    unfolding list_all_iff by (simp only: upstream_edges Ball_def) blast
  have "n \<in> set (ReadyNodes ord g) \<longleftrightarrow> FindNode g (n_id n) = Some n \<and>
      n_category n \<noteq> NodeCategoryControl \<and> (n_status n = NodeOpen \<or> n_status n = NodeReopen) \<and>
      list_all (dep_satisfied g) (mm_get (edge_reverse (g_edges g)) (n_id n))"
    unfolding ReadyNodes_def Let_def set_filter set_graph_Nodes graph_Nodes_wf [OF assms] by simp
  with cat deps show ?thesis by auto
qed

text \<open>
  the ready set.  In a sound graph \<open>ReadyNodes\<close> returns exactly the business nodes that
  are open or reopened and all of whose direct upstream nodes are completed, discarded or
  anchors: a condition gates its downstream until it is resolved, a start or end node never does.
\<close>

theorem ready_nodes_exact:
  assumes "graph_wf g"
  shows "n \<in> set (ReadyNodes ord g) \<longleftrightarrow>
    FindNode g (n_id n) = Some n \<and> n_category n = NodeCategoryBusiness \<and>
    n_status n \<in> {NodeOpen, NodeReopen} \<and>
    (\<forall>u d. (u, n_id n) \<in> edge_rel (g_edges g) \<and> FindNode g u = Some d \<longrightarrow>
       n_status d \<in> {NodeCompleted, NodeDiscarded} \<or>
       n_category d = NodeCategoryControl \<and> n_controlKind d \<noteq> ControlKindCondition)"
  using assms by (rule ready_set_iff)

lemma sample_graph_wf: "graph_wf sample_graph"
proof -
  have "\<not> isl (NewGraph 9 sample_graph_input)" by code_simp
  then obtain g where g: "NewGraph 9 sample_graph_input = Ok g"
    by (cases "NewGraph 9 sample_graph_input") auto
  then show ?thesis
    using orch_graph.run_inv [OF NewGraph_wf [OF g], of sample_ops] by (simp add: sample_graph_def)
qed

theorem ready_nodes_exact_witness:
  "map n_id (ReadyNodes id sample_graph) = [''dev''] \<and>
   n_category (hd (ReadyNodes id sample_graph)) = NodeCategoryBusiness"
proof -
  have r: "map n_id (ReadyNodes id sample_graph) = [''dev'']" by code_simp
  then have "hd (ReadyNodes id sample_graph) \<in> set (ReadyNodes id sample_graph)"
    by (intro hd_in_set) auto
  with r ready_nodes_exact [OF sample_graph_wf, of "hd (ReadyNodes id sample_graph)" id]
  show ?thesis by simp
qed

subsection \<open>Progress\<close>

lemma autoDone_loop_iff:
  "autoDone_loop b ns \<longleftrightarrow>
   (\<forall>n \<in> set ns. n_category n \<noteq> NodeCategoryControl \<longrightarrow> n_status n \<in> {NodeCompleted, NodeDiscarded}) \<and>
   (b \<or> (\<exists>n \<in> set ns. n_category n \<noteq> NodeCategoryControl))"
  by (induction b ns rule: autoDone_loop.induct) auto

definition unfinished :: "graph \<Rightarrow> node_id \<Rightarrow> bool" where
  "unfinished g i \<longleftrightarrow>
     (case FindNode g i of
        None \<Rightarrow> False
      | Some n \<Rightarrow> n_category n = NodeCategoryBusiness \<and> n_status n \<notin> {NodeCompleted, NodeDiscarded})"

lemma first_unfinished:
  assumes "graph_wf g" "unfinished g i"
  shows "\<exists>j. unfinished g j \<and> (\<forall>u. (u, j) \<in> edge_rel (g_edges g) \<longrightarrow> \<not> unfinished g u)"
proof -
  have "finite (edge_rel (g_edges g))" by (simp add: edge_rel_def)
  moreover have "acyclic (edge_rel (g_edges g))" using assms(1) by (simp add: wf_defs)
  ultimately have "wf (edge_rel (g_edges g))" by (rule finite_acyclic_wf)
  then obtain j where "j \<in> {i. unfinished g i}"
    "\<And>u. (u, j) \<in> edge_rel (g_edges g) \<Longrightarrow> u \<notin> {i. unfinished g i}"
    by (rule wfE_min [of _ i "{i. unfinished g i}"]) (use assms(2) in auto)
  then show ?thesis by blast
qed

text \<open>
  the scheduler cannot wedge.  A sound graph with a business node that is neither
  completed nor discarded offers a ready node, or has a business node running, or waits for a
  condition that is not resolved; otherwise it is not unfinished at all.
\<close>

theorem graph_progress:
  assumes "graph_wf g" "FindNode g i = Some n" "n_category n = NodeCategoryBusiness"
    and "n_status n \<notin> {NodeCompleted, NodeDiscarded}"
  shows "ReadyNodes ord g \<noteq> [] \<or>
    (\<exists>j m. FindNode g j = Some m \<and> n_category m = NodeCategoryBusiness \<and> n_status m = NodeRunning) \<or>
    (\<exists>j m. FindNode g j = Some m \<and> n_controlKind m = ControlKindCondition \<and>
       n_status m \<notin> {NodeCompleted, NodeDiscarded})"
proof (rule ccontr)
  assume stuck: "\<not> ?thesis"
  have "unfinished g i" using assms by (simp add: unfinished_def)
  from first_unfinished [OF assms(1) this] obtain j where j: "unfinished g j"
    and first: "\<And>u. (u, j) \<in> edge_rel (g_edges g) \<Longrightarrow> \<not> unfinished g u" by blast
  obtain m where m: "FindNode g j = Some m" "n_category m = NodeCategoryBusiness"
      "n_status m \<notin> {NodeCompleted, NodeDiscarded}"
    using j by (auto simp: unfinished_def split: option.splits)
  have id: "n_id m = j" and ok: "nodeStatus_IsValid (n_status m)"
    using wf_node [OF assms(1) m(1)] by simp_all
  have "n_status m \<in> {NodeOpen, NodeReopen}"
    using m ok stuck by (cases "n_status m") auto
  moreover have "n_status d \<in> {NodeCompleted, NodeDiscarded} \<or>
      n_category d = NodeCategoryControl \<and> n_controlKind d \<noteq> ControlKindCondition"
    if "(u, j) \<in> edge_rel (g_edges g)" "FindNode g u = Some d" for u d
  proof -
    have "category_IsValid (n_category d)" by (rule wf_node(3) [OF assms(1) that(2)])
    with that first [OF that(1)] stuck show ?thesis
      by (cases "n_category d") (auto simp: unfinished_def category_IsValid_def)
  qed
  ultimately have "m \<in> set (ReadyNodes ord g)"
    unfolding ready_set_iff [OF assms(1)] id using m by blast
  with stuck show False by auto
qed

definition sample_line :: graph where
  "sample_line = run_ops graph_exec (map (Pair 9)
     [GRemoveNode ''gate'', GNode ''dev'' (NStart 8), GNode ''dev'' (NComplete ''success'' 8)]) sample_graph"

lemma sample_line_wf: "graph_wf sample_line"
  unfolding sample_line_def by (rule orch_graph.run_inv [OF sample_graph_wf])

theorem graph_progress_witness: "ReadyNodes id sample_line \<noteq> []"
proof -
  have "map_option (\<lambda>n. (n_category n, n_status n)) (FindNode sample_line ''ship'') =
      Some (NodeCategoryBusiness, NodeOpen)"
    by code_simp
  then obtain n where n: "FindNode sample_line ''ship'' = Some n" "n_category n = NodeCategoryBusiness"
      "n_status n \<notin> {NodeCompleted, NodeDiscarded}"
    by auto
  have "list_all (\<lambda>(i, m). n_status m \<noteq> NodeRunning \<and> n_controlKind m \<noteq> ControlKindCondition) (g_nodes sample_line)"
    by code_simp
  then have "n_status m \<noteq> NodeRunning \<and> n_controlKind m \<noteq> ControlKindCondition"
    if "FindNode sample_line j = Some m" for j m
    using that by (force simp: list_all_iff FindNode_def dest: map_of_SomeD)
  with graph_progress [OF sample_line_wf n, of id] show ?thesis by blast
qed

subsection \<open>A failed condition\<close>

definition reopened :: "gostring \<Rightarrow> time \<Rightarrow> time \<Rightarrow> graph_node \<Rightarrow> graph_node" where
  "reopened reason now at n =
     node_touch now at (node_appendLog ''reopened'' reason now at (n\<lparr>n_status := NodeReopen\<rparr>))\<lparr>n_outcome := []\<rparr>"

definition reopen_completed :: "gostring \<Rightarrow> time \<Rightarrow> time \<Rightarrow> graph_node \<Rightarrow> graph_node" where
  "reopen_completed reason now at n =
     (if n_status n = NodeCompleted then reopened reason now at n else n)"

lemma node_Reopen_Ok:
  "node_Reopen reason now at n =
   (if n_status n = NodeRunning \<or> n_status n = NodeCompleted then Ok (reopened reason now at n)
    else Err ErrIllegalTransition)"
  by (simp add: node_Reopen_def node_transition_def reopened_def)

lemma reopen_one:
  "\<exists>g'. when_status [NodeCompleted] nid (node_Reopen reason now at) g = Ok g' \<and>
     g_edges g' = g_edges g \<and>
     (\<forall>j. FindNode g' j = (if j = nid then map_option (reopen_completed reason now at) (FindNode g j)
        else FindNode g j))"
  by (cases "FindNode g nid")
    (auto simp: when_status_def on_node_def node_Reopen_Ok reopen_completed_def,
      simp add: put_node_def)

lemma reopen_all_exact:
  assumes "distinct nids"
  shows "\<exists>g'. reopen_all reason now at nids g = Ok g' \<and> g_edges g' = g_edges g \<and>
    (\<forall>j. FindNode g' j = (if j \<in> set nids then map_option (reopen_completed reason now at) (FindNode g j)
       else FindNode g j))"
  using assms
proof (induction nids arbitrary: g)
  case Nil
  then show ?case by simp
next
  case (Cons nid nids)
  obtain g1 where g1: "when_status [NodeCompleted] nid (node_Reopen reason now at) g = Ok g1"
      "g_edges g1 = g_edges g"
      "\<And>j. FindNode g1 j = (if j = nid then map_option (reopen_completed reason now at) (FindNode g j)
        else FindNode g j)"
    using reopen_one [of nid reason now at g] by blast
  have "distinct nids" "nid \<notin> set nids" using Cons.prems by auto
  with Cons.IH [of g1] g1 show ?case by (auto simp: bind_graph_def)
qed

lemma ReopenChain_excludes: "frm \<notin> set (ReopenChain edges frm target)"
  by (simp add: ReopenChain_def Let_def bfs_tail_set)

lemma toReopen_set:
  assumes "acyclic (edge_rel edges)"
  shows "j \<in> set (toReopen edges i targets) \<longleftrightarrow>
    (\<exists>t \<in> set targets. (t, j) \<in> (edge_rel edges)\<^sup>* \<and> (j, i) \<in> (edge_rel edges)\<^sup>+)"
  by (auto simp: toReopen_def ReopenChain_set [OF assms])

lemma toReopen_excludes: "i \<notin> set (toReopen edges i targets)"
  by (simp add: toReopen_def ReopenChain_excludes)

lemma countReopens_steps:
  "node_Start now at n = Ok n' \<Longrightarrow> countReopens n' = countReopens n"
  "node_Complete detail now at n = Ok n' \<Longrightarrow> countReopens n' = countReopens n"
  "node_Discard now at n = Ok n' \<Longrightarrow> countReopens n' = countReopens n"
  "countReopens (reopened detail now at n) = countReopens n + 1"
  by (auto simp: node_defs countReopens_def reopened_def split: if_splits sum.splits)

text \<open>
  C12: the effect of a failed round.  In a sound graph, a condition that is within its bound
  of rounds always takes the failure: exactly the completed nodes on the paths from an
  \<open>on_failure\<close> target to the condition are reopened, every other node but the condition is
  as it was, and the condition, unless discarded, is reopened with one more round on its log.
  So a completed upstream node off those paths stays completed, although the comment above
  \<open>ApplyConditionResult\<close> says that it is reopened.
\<close>

theorem condition_failure_exact:
  assumes "graph_wf g" "FindNode g i = Some c"
    and "cc_MaxRounds cfg \<le> 0 \<or> countReopens c < cc_MaxRounds cfg"
  shows "\<exists>g'. ApplyConditionResult ord now i cfg False at g = Ok g' \<and>
    (\<forall>j. j \<noteq> i \<longrightarrow> FindNode g' j =
      (if \<exists>t \<in> set (cc_OnFailure cfg). (t, j) \<in> (edge_rel (g_edges g))\<^sup>* \<and> (j, i) \<in> (edge_rel (g_edges g))\<^sup>+
       then map_option (reopen_completed
         (''reactivated_by:'' @ i @ '',round:'' @ Itoa (countReopens c + 1)) now at) (FindNode g j)
       else FindNode g j)) \<and>
    (n_status c \<noteq> NodeDiscarded \<longrightarrow>
      (\<exists>c'. FindNode g' i = Some c' \<and> n_status c' = NodeReopen \<and> countReopens c' = countReopens c + 1))"
proof -
  let ?reason = "''reactivated_by:'' @ i @ '',round:'' @ Itoa (countReopens c + 1)"
  let ?nids = "range_order ord (toReopen (g_edges g) i (cc_OnFailure cfg))"
  have acyc: "acyclic (edge_rel (g_edges g))" using assms(1) by (simp add: wf_defs)
  obtain g1 where g1: "reopen_all ?reason now at ?nids g = Ok g1"
    "\<And>j. FindNode g1 j = (if j \<in> set ?nids then map_option (reopen_completed ?reason now at) (FindNode g j)
       else FindNode g j)"
    using reopen_all_exact [of ?nids ?reason now at g] by (auto simp: toReopen_def)
  have c1: "FindNode g1 i = Some c" using assms(2) g1(2) [of i] toReopen_excludes by simp
  have "nodeStatus_IsValid (n_status c)" by (rule wf_node(2) [OF assms(1,2)])
  then obtain g' where g': "ApplyConditionResult ord now i cfg False at g = Ok g'"
    "\<And>j. j \<noteq> i \<Longrightarrow> FindNode g' j = FindNode g1 j"
    "n_status c \<noteq> NodeDiscarded \<longrightarrow>
      (\<exists>c'. FindNode g' i = Some c' \<and> n_status c' = NodeReopen \<and> countReopens c' = countReopens c + 1)"
    using assms(2,3) g1(1) c1
    by (cases "n_status c")
      (auto simp: ApplyConditionResult_def Let_def bind_graph_def when_status_def on_node_def
        node_Start_def node_Complete_def node_Reopen_def node_transition_def node_touch_def
        node_appendLog_def countReopens_def)
  with g1(2) show ?thesis by (auto simp: toReopen_set [OF acyc])
qed

definition sample_config :: condition_config where
  "sample_config = \<lparr>cc_Evaluator = EvaluatorUpstream, cc_Logic = LogicAnd, cc_HookURL = [],
     cc_HookMethod = [], cc_SuccessCondition = [], cc_OnSuccess = [], cc_OnFailure = [''dev''],
     cc_MaxRounds = 2, cc_OnMaxExceeded = MaxExceededDiscard\<rparr>"

definition sample_done :: graph where
  "sample_done = run_ops graph_exec
     (map (Pair 9) [GNode ''dev'' (NStart 8), GNode ''dev'' (NComplete ''success'' 8),
        GNode ''test'' (NStart 8), GNode ''test'' (NComplete ''fail'' 8)]) sample_graph"

lemma sample_done_wf: "graph_wf sample_done"
  unfolding sample_done_def by (rule orch_graph.run_inv [OF sample_graph_wf])

theorem condition_failure_exact_witness:
  "\<exists>g'. ApplyConditionResult id 9 ''gate'' sample_config False 9 sample_done = Ok g' \<and>
     map_option n_status (FindNode g' ''ship'') = Some NodeOpen"
proof -
  have "map_option countReopens (FindNode sample_done ''gate'') = Some 0" by code_simp
  then obtain c where c: "FindNode sample_done ''gate'' = Some c" "countReopens c = 0" by auto
  have ship: "map_option n_status (FindNode sample_done ''ship'') = Some NodeOpen" by code_simp
  have "cc_MaxRounds sample_config \<le> 0 \<or> countReopens c < cc_MaxRounds sample_config"
    by (simp add: c sample_config_def)
  from condition_failure_exact [OF sample_done_wf c(1) this, of id 9 9] show ?thesis
  proof (elim exE conjE, goal_cases)
    case (1 g')
    have "FindNode g' ''ship'' = FindNode sample_done ''ship'' \<or>
        (\<exists>r. FindNode g' ''ship'' = map_option (reopen_completed r 9 9) (FindNode sample_done ''ship''))"
      using 1(2) [rule_format, of "''ship''"] by (simp split: if_splits) blast+
    with ship have "map_option n_status (FindNode g' ''ship'') = Some NodeOpen"
      by (auto simp: reopen_completed_def)
    with 1(1) show ?case by blast
  qed
qed

subsection \<open>The bound on rounds\<close>

definition reopens :: "graph \<Rightarrow> node_id \<Rightarrow> int" where
  "reopens g i = (case FindNode g i of None \<Rightarrow> 0 | Some n \<Rightarrow> countReopens n)"

text \<open>A resolution of the condition \<open>i\<close>: its map order, its result and its clock readings.\<close>

type_synonym resolution = "(node_id list \<Rightarrow> node_id list) \<times> bool \<times> time \<times> time"

fun resolve :: "node_id \<Rightarrow> condition_config \<Rightarrow> resolution \<Rightarrow> graph \<Rightarrow> orch_error + graph" where
  "resolve i cfg (ord, success, now, at) g = ApplyConditionResult ord now i cfg success at g"

lemma on_node_reopens:
  assumes "on_node i f g = Ok g'" "\<And>n n'. f n = Ok n' \<Longrightarrow> countReopens n' = countReopens n + k"
  shows "reopens g' i = reopens g i + k"
  using assms by (auto simp: on_node_def reopens_def split: option.splits sum.splits)

lemma when_status_reopens:
  assumes "when_status ss i f g = Ok g'" "\<And>n n'. f n = Ok n' \<Longrightarrow> countReopens n' = countReopens n + k"
  shows "reopens g' i = reopens g i \<or> reopens g' i = reopens g i + k"
  using assms on_node_reopens [of i f g g' k]
  by (auto simp: when_status_def split: option.splits if_splits)

lemma reopens_kept:
  "when_status ss i (node_Start now at) g = Ok g' \<Longrightarrow> reopens g' i = reopens g i"
  "when_status ss i (node_Complete detail now at) g = Ok g' \<Longrightarrow> reopens g' i = reopens g i"
  "on_node i (node_Complete detail now at) g = Ok g' \<Longrightarrow> reopens g' i = reopens g i"
  "on_node i (node_Discard now at) g = Ok g' \<Longrightarrow> reopens g' i = reopens g i"
  using when_status_reopens [of ss i "node_Start now at" g g' 0]
    when_status_reopens [of ss i "node_Complete detail now at" g g' 0]
    on_node_reopens [of i "node_Complete detail now at" g g' 0]
    on_node_reopens [of i "node_Discard now at" g g' 0]
  by (auto simp: countReopens_steps)

lemma reopens_grows:
  assumes "when_status ss i (node_Reopen detail now at) g = Ok g'"
  shows "reopens g' i = reopens g i \<or> reopens g' i = reopens g i + 1"
  by (rule when_status_reopens [OF assms]) (auto simp: node_Reopen_Ok countReopens_steps split: if_splits)

lemma reopen_all_reopens:
  assumes "reopen_all reason now at (range_order ord (toReopen es i targets)) g = Ok g'"
  shows "reopens g' i = reopens g i"
proof -
  have "distinct (range_order ord (toReopen es i targets))" by (simp add: toReopen_def)
  from reopen_all_exact [OF this, of reason now at g] assms
  have "FindNode g' i = FindNode g i" by (simp add: toReopen_excludes)
  then show ?thesis by (simp add: reopens_def)
qed

lemma resolve_bound:
  assumes "resolve i cfg r g = Ok g'" "0 < cc_MaxRounds cfg"
  shows "reopens g' i \<le> max (reopens g i) (cc_MaxRounds cfg)"
proof -
  obtain ord success now at where r: "r = (ord, success, now, at)" by (cases r)
  have "reopens g' i = reopens g i \<or>
      reopens g' i = reopens g i + 1 \<and> \<not> cc_MaxRounds cfg < reopens g i + 1"
    using assms
    by (auto simp: r ApplyConditionResult_def Let_def bind_graph_Ok reopens_def [of g]
        split: option.splits if_splits dest!: reopens_kept reopens_grows reopen_all_reopens)
  then show ?thesis by auto
qed

interpretation condition_rounds: history "resolve i cfg"
  "\<lambda>g g'. 0 < cc_MaxRounds cfg \<longrightarrow> reopens g' i \<le> max (reopens g i) (cc_MaxRounds cfg)"
  for i cfg
  by unfold_locales (auto dest: resolve_bound)

text \<open>
  C13: a condition loops at most \<open>max_rounds\<close> times.  Whatever sequence of results a bounded
  condition is given, the number of times it has been reopened never exceeds the
  larger of its bound and what it was before.
\<close>

theorem condition_rounds_bounded:
  assumes "0 < cc_MaxRounds cfg"
  shows "reopens (run_ops (resolve i cfg) rs g) i \<le> max (reopens g i) (cc_MaxRounds cfg)"
  using condition_rounds.run_rel [where cfg = cfg and i = i and s = g and ops = rs] assms by simp

theorem condition_rounds_bounded_witness:
  "reopens (run_ops (resolve ''gate'' sample_config) (replicate 5 (id, False, 9, 9)) sample_done) ''gate'' \<le> 2"
proof -
  have "reopens sample_done ''gate'' = 0" by code_simp
  with condition_rounds_bounded [of sample_config "''gate''" "replicate 5 (id, False, 9, 9)" sample_done]
  show ?thesis by (simp add: sample_config_def)
qed

end
