(* ===== verification/Row_Time.thy ===== *)
theory Row_Time
  imports Go_Strings "HOL-Library.List_Lexorder" "HOL-Library.Char_ord" "HOL-Library.Product_Lexorder"
begin

section \<open>Times as the tables hold them\<close>

text \<open>
  A time column is written as text and compared as text.  RFC 3339 with nanoseconds drops trailing zeros and, when
  nothing is left, the dot, so the order of two texts is that of the seconds and then of the
  texts of the fraction up to the \<open>Z\<close>.
\<close>

fun frac_digits :: "nat \<Rightarrow> int \<Rightarrow> gostring" where
  "frac_digits 0 n = []"
| "frac_digits (Suc k) n = char_of (nat (48 + n div 10 ^ k)) # frac_digits k (n mod 10 ^ k)"

definition frac_text :: "int \<Rightarrow> gostring" where
  "frac_text n =
     (if n = 0 then [] else ''.'' @ rev (dropWhile (\<lambda>c. c = CHR ''0'') (rev (frac_digits 9 n)))) @ ''Z''"

definition created_key :: "time \<Rightarrow> int \<times> gostring" where
  "created_key t = (t div 1000000000, frac_text (t mod 1000000000))"

text \<open>Text order is not time order within a second: half past comes before the full second.\<close>

lemma created_key_inverts: "created_key 1500000000 < created_key 1000000000"
  by code_simp

end
