(* ===== verification/Orch_Service.thy ===== *)
theory Orch_Service
  imports Orch_Properties Row_Time
begin

section \<open>The orchestration service over its tables (orchestration/service.go)\<close>

text \<open>
  The service stores a graph in three tables: a header row per graph, a row per node, a row
  per edge.  A method reads some rows, calls the aggregate and then writes in one
  transaction.  Only the writes are in the transaction, so a method is modelled as two steps: a
  preparation that reads a database and returns the statements to run or an error, and the
  transaction, which runs on a database that others may have changed in between.  The JSON
  columns read back as they were written, and \<open>wall\<close> and \<open>now\<close> are the readings of
  \<open>time.Now\<close> and of the service's clock.
\<close>

subsection \<open>Tables and repositories (orchestration/sqlite)\<close>

text \<open>
  The graph and node tables are keyed by their ids.  A header row is a graph without nodes and
  edges; the edge rows are keyed by all of their columns.
\<close>

record graph_db =
  gd_graphs :: "(graph_id \<times> graph) list"
  gd_nodes :: "(node_id \<times> graph_node) list"
  gd_edges :: "(graph_id \<times> graph_edge) list"

definition empty_graph_db :: graph_db where
  "empty_graph_db = \<lparr>gd_graphs = [], gd_nodes = [], gd_edges = []\<rparr>"

definition foreign_key_failed :: orch_error where
  "foreign_key_failed = ErrNewOrch ''FOREIGN KEY constraint failed''"

definition graphs_Save :: "graph \<Rightarrow> graph_db \<Rightarrow> orch_error + graph_db" where
  "graphs_Save g db =
     (if map_of (gd_graphs db) (g_id g) \<noteq> None then Err ErrGraphExists
      else Ok (db\<lparr>gd_graphs := AList.update (g_id g) (g\<lparr>g_nodes := [], g_edges := []\<rparr>) (gd_graphs db)\<rparr>))"

definition graphs_Update :: "graph \<Rightarrow> graph_db \<Rightarrow> orch_error + graph_db" where
  "graphs_Update g db =
     (case map_of (gd_graphs db) (g_id g) of
        None \<Rightarrow> Err ErrGraphNotFound
      | Some row \<Rightarrow>
          Ok (db\<lparr>gd_graphs := AList.update (g_id g)
            (row\<lparr>g_planID := g_planID g, g_status := g_status g, g_updatedAt := g_updatedAt g,
               g_version := g_version g\<rparr>) (gd_graphs db)\<rparr>))"

definition graphs_FindByID :: "graph_id \<Rightarrow> graph_db \<Rightarrow> orch_error + graph" where
  "graphs_FindByID i db =
     (case map_of (gd_graphs db) i of None \<Rightarrow> Err ErrGraphNotFound | Some row \<Rightarrow> RehydrateGraph row [] [])"

definition nodes_Save :: "graph_node \<Rightarrow> graph_db \<Rightarrow> orch_error + graph_db" where
  "nodes_Save n db =
     (if map_of (gd_nodes db) (n_id n) \<noteq> None then Err ErrNodeExists
      else if map_of (gd_graphs db) (n_graphID n) = None then Err foreign_key_failed
      else Ok (db\<lparr>gd_nodes := AList.update (n_id n) n (gd_nodes db)\<rparr>))"

definition nodes_Update :: "graph_node \<Rightarrow> graph_db \<Rightarrow> orch_error + graph_db" where
  "nodes_Update n db =
     (case map_of (gd_nodes db) (n_id n) of
        None \<Rightarrow> Err ErrNodeNotFound
      | Some row \<Rightarrow>
          Ok (db\<lparr>gd_nodes := AList.update (n_id n)
            (row\<lparr>n_title := n_title n, n_status := n_status n, n_outcome := n_outcome n,
               n_metadata := n_metadata n, n_actionLogs := n_actionLogs n,
               n_updatedAt := n_updatedAt n, n_version := n_version n\<rparr>) (gd_nodes db)\<rparr>))"

definition nodes_FindByID :: "node_id \<Rightarrow> graph_db \<Rightarrow> orch_error + graph_node" where
  "nodes_FindByID i db =
     (case map_of (gd_nodes db) i of None \<Rightarrow> Err ErrNodeNotFound | Some row \<Rightarrow> RehydrateNode row)"

fun scan_nodes :: "graph_node list \<Rightarrow> orch_error + graph_node list" where
  "scan_nodes [] = Ok []"
| "scan_nodes (row # rows) =
     (case RehydrateNode row of
        Err e \<Rightarrow> Err e
      | Ok n \<Rightarrow> (case scan_nodes rows of Err e \<Rightarrow> Err e | Ok ns \<Rightarrow> Ok (n # ns)))"

definition node_rows :: "graph_id \<Rightarrow> graph_db \<Rightarrow> graph_node list" where
  "node_rows gid db = filter (\<lambda>n. n_graphID n = gid) (map snd (gd_nodes db))"

definition nodes_ListByGraph :: "graph_id \<Rightarrow> graph_db \<Rightarrow> orch_error + graph_node list" where
  "nodes_ListByGraph gid db =
     scan_nodes (sort_key (\<lambda>n. (created_key (n_createdAt n), n_id n)) (node_rows gid db))"

text \<open>Deleting a node deletes the edges that reference it.\<close>

definition nodes_Delete :: "node_id \<Rightarrow> graph_db \<Rightarrow> graph_db" where
  "nodes_Delete i db =
     db\<lparr>gd_nodes := AList.delete i (gd_nodes db),
        gd_edges := filter (\<lambda>(_, e). e_FromNodeID e \<noteq> i \<and> e_ToNodeID e \<noteq> i) (gd_edges db)\<rparr>"

definition edges_Save :: "graph_id \<Rightarrow> graph_edge \<Rightarrow> graph_db \<Rightarrow> orch_error + graph_db" where
  "edges_Save gid e db =
     (if (gid, e) \<in> set (gd_edges db) then Err ErrEdgeExists
      else if map_of (gd_graphs db) gid = None \<or> map_of (gd_nodes db) (e_FromNodeID e) = None \<or>
              map_of (gd_nodes db) (e_ToNodeID e) = None then Err foreign_key_failed
      else Ok (db\<lparr>gd_edges := gd_edges db @ [(gid, e)]\<rparr>))"

definition edges_Delete :: "graph_id \<Rightarrow> node_id \<Rightarrow> node_id \<Rightarrow> graph_db \<Rightarrow> graph_db" where
  "edges_Delete gid frm to db =
     db\<lparr>gd_edges := filter (\<lambda>(k, e). \<not> (k = gid \<and> e_FromNodeID e = frm \<and> e_ToNodeID e = to)) (gd_edges db)\<rparr>"

definition edges_ListByGraph :: "graph_id \<Rightarrow> graph_db \<Rightarrow> graph_edge list" where
  "edges_ListByGraph gid db =
     sort_key (\<lambda>e. (e_FromNodeID e, e_ToNodeID e)) (map snd (filter (\<lambda>(k, _). k = gid) (gd_edges db)))"

subsection \<open>Transactions\<close>

datatype graph_write =
    SaveGraph graph
  | UpdateGraph graph
  | SaveNode graph_node
  | UpdateNodeRow graph_node
  | DeleteNode node_id
  | SaveEdge graph_id graph_edge
  | DeleteEdge graph_id node_id node_id

fun write_row :: "graph_write \<Rightarrow> graph_db \<Rightarrow> orch_error + graph_db" where
  "write_row (SaveGraph g) db = graphs_Save g db"
| "write_row (UpdateGraph g) db = graphs_Update g db"
| "write_row (SaveNode n) db = nodes_Save n db"
| "write_row (UpdateNodeRow n) db = nodes_Update n db"
| "write_row (DeleteNode i) db = Ok (nodes_Delete i db)"
| "write_row (SaveEdge gid e) db = edges_Save gid e db"
| "write_row (DeleteEdge gid frm to) db = Ok (edges_Delete gid frm to db)"

text \<open>A statement that fails rolls the transaction back: the error comes without a database.\<close>

fun run_tx :: "graph_write list \<Rightarrow> graph_db \<Rightarrow> orch_error + graph_db" where
  "run_tx [] db = Ok db"
| "run_tx (w # ws) db = (case write_row w db of Err e \<Rightarrow> Err e | Ok db' \<Rightarrow> run_tx ws db')"

subsection \<open>The methods\<close>

definition loadGraph :: "graph_id \<Rightarrow> graph_db \<Rightarrow> orch_error + graph" where
  "loadGraph gid db =
     (case graphs_FindByID gid db of
        Err e \<Rightarrow> Err e
      | Ok g \<Rightarrow>
          (case nodes_ListByGraph gid db of
             Err e \<Rightarrow> Err e
           | Ok nodes \<Rightarrow> RehydrateGraph g nodes (edges_ListByGraph gid db)))"

type_synonym prepared = "orch_error + graph_write list"

definition svc_CreateGraph ::
  "(graph_node list \<Rightarrow> graph_node list) \<Rightarrow> time \<Rightarrow> time \<Rightarrow> graph_id \<Rightarrow> gostring \<Rightarrow> prepared" where
  "svc_CreateGraph nord wall now i planID =
     (case NewGraph wall \<lparr>gi_ID = i, gi_PlanID = planID, gi_StartNodeID = [], gi_EndNodeID = [],
             gi_CreatedAt = now\<rparr> of
        Err e \<Rightarrow> Err e
      | Ok g \<Rightarrow> Ok (SaveGraph g # map SaveNode (graph_Nodes nord g)))"

definition change_header ::
  "graph_id \<Rightarrow> (graph \<Rightarrow> orch_error + graph) \<Rightarrow> graph_db \<Rightarrow> prepared" where
  "change_header gid f db =
     (case graphs_FindByID gid db of
        Err e \<Rightarrow> Err e
      | Ok g \<Rightarrow> (case f g of Err e \<Rightarrow> Err e | Ok g' \<Rightarrow> Ok [UpdateGraph g']))"

definition svc_StartGraph :: "time \<Rightarrow> time \<Rightarrow> graph_id \<Rightarrow> graph_db \<Rightarrow> prepared" where
  "svc_StartGraph wall now gid = change_header gid (graph_Start wall now)"

definition svc_FinishGraph :: "time \<Rightarrow> time \<Rightarrow> graph_id \<Rightarrow> graph_db \<Rightarrow> prepared" where
  "svc_FinishGraph wall now gid = change_header gid (graph_Finish wall now)"

definition svc_AddNode :: "time \<Rightarrow> new_node_input \<Rightarrow> graph_id \<Rightarrow> graph_db \<Rightarrow> prepared" where
  "svc_AddNode wall inp gid db =
     (case loadGraph gid db of
        Err e \<Rightarrow> Err e
      | Ok g \<Rightarrow>
          (case graph_AddNode wall inp g of
             Err e \<Rightarrow> Err e
           | Ok (n, g') \<Rightarrow> Ok [SaveNode n, UpdateGraph g']))"

definition svc_RemoveNode :: "time \<Rightarrow> node_id \<Rightarrow> graph_db \<Rightarrow> prepared" where
  "svc_RemoveNode wall i db =
     (case nodes_FindByID i db of
        Err e \<Rightarrow> Err e
      | Ok n \<Rightarrow>
          (case loadGraph (n_graphID n) db of
             Err e \<Rightarrow> Err e
           | Ok g \<Rightarrow>
               let affectedEdges = filter (\<lambda>e. e_FromNodeID e = i \<or> e_ToNodeID e = i) (g_edges g) in
               (case graph_RemoveNode wall i g of
                  Err e \<Rightarrow> Err e
                | Ok _ \<Rightarrow> Ok (map (\<lambda>e. DeleteEdge (n_graphID n) (e_FromNodeID e) (e_ToNodeID e)) affectedEdges
                           @ [DeleteNode i]))))"

text \<open>The methods that read one node, change it and write it back.\<close>

definition change_node ::
  "node_id \<Rightarrow> (graph_node \<Rightarrow> orch_error + graph_node) \<Rightarrow> graph_db \<Rightarrow> prepared" where
  "change_node i f db =
     (case nodes_FindByID i db of
        Err e \<Rightarrow> Err e
      | Ok n \<Rightarrow> (case f n of Err e \<Rightarrow> Err e | Ok n' \<Rightarrow> Ok [UpdateNodeRow n']))"

definition svc_UpdateNode :: "time \<Rightarrow> time \<Rightarrow> node_id \<Rightarrow> gostring \<Rightarrow> metadata \<Rightarrow> graph_db \<Rightarrow> prepared" where
  "svc_UpdateNode wall now i title meta =
     change_node i (\<lambda>n. map_sum id (node_SetMetadata meta wall now) (node_SetTitle title wall now n))"

definition svc_StartNode :: "time \<Rightarrow> time \<Rightarrow> node_id \<Rightarrow> graph_db \<Rightarrow> prepared" where
  "svc_StartNode wall now i = change_node i (node_Start wall now)"

definition svc_CompleteNode :: "time \<Rightarrow> time \<Rightarrow> node_id \<Rightarrow> gostring \<Rightarrow> graph_db \<Rightarrow> prepared" where
  "svc_CompleteNode wall now i outcome = change_node i (node_Complete outcome wall now)"

definition svc_ReopenNode :: "time \<Rightarrow> time \<Rightarrow> node_id \<Rightarrow> gostring \<Rightarrow> graph_db \<Rightarrow> prepared" where
  "svc_ReopenNode wall now i why = change_node i (node_Reopen why wall now)"

definition svc_DiscardNode :: "time \<Rightarrow> time \<Rightarrow> node_id \<Rightarrow> graph_db \<Rightarrow> prepared" where
  "svc_DiscardNode wall now i = change_node i (node_Discard wall now)"

definition svc_BindTask :: "time \<Rightarrow> time \<Rightarrow> node_id \<Rightarrow> gostring \<Rightarrow> graph_db \<Rightarrow> prepared" where
  "svc_BindTask wall now i taskID =
     change_node i (\<lambda>n. Ok (node_SetMetadata
       (AList.update ''task_id'' (AnyString taskID) (n_metadata n)) wall now n))"

definition svc_UnbindTask :: "time \<Rightarrow> time \<Rightarrow> node_id \<Rightarrow> graph_db \<Rightarrow> prepared" where
  "svc_UnbindTask wall now i =
     change_node i (\<lambda>n. Ok (node_SetMetadata (AList.delete ''task_id'' (n_metadata n)) wall now n))"

text \<open>\<open>ResolveCondition\<close> writes the nodes whose version moved.\<close>

definition version_moved :: "graph \<Rightarrow> graph_node \<Rightarrow> bool" where
  "version_moved g n \<longleftrightarrow>
     n_version n \<noteq> (case FindNode g (n_id n) of None \<Rightarrow> 0 | Some before \<Rightarrow> n_version before)"

definition svc_ResolveCondition ::
  "(node_id list \<Rightarrow> node_id list) \<Rightarrow> (graph_node list \<Rightarrow> graph_node list) \<Rightarrow> time \<Rightarrow> time \<Rightarrow> node_id \<Rightarrow>
     gostring \<Rightarrow> graph_db \<Rightarrow> prepared" where
  "svc_ResolveCondition ord nord wall now i result db =
     (case nodes_FindByID i db of
        Err e \<Rightarrow> Err e
      | Ok n \<Rightarrow>
          (case loadGraph (n_graphID n) db of
             Err e \<Rightarrow> Err e
           | Ok g \<Rightarrow>
               (case ParseConditionConfig (n_metadata n) of
                  Err e \<Rightarrow> Err e
                | Ok cfg \<Rightarrow>
                    (case ApplyConditionResult ord wall i cfg (result = ''success'') now g of
                       Err e \<Rightarrow> Err e
                     | Ok g' \<Rightarrow> Ok (map UpdateNodeRow (filter (version_moved g) (graph_Nodes nord g')))))))"

definition svc_AddEdge ::
  "(node_id list \<Rightarrow> node_id list) \<Rightarrow> time \<Rightarrow> graph_id \<Rightarrow> node_id \<Rightarrow> node_id \<Rightarrow> graph_db \<Rightarrow> prepared" where
  "svc_AddEdge ord wall gid frm to db =
     (case loadGraph gid db of
        Err e \<Rightarrow> Err e
      | Ok g \<Rightarrow>
          (case graph_AddEdge ord wall frm to g of
             Err e \<Rightarrow> Err e
           | Ok g' \<Rightarrow> Ok [SaveEdge gid \<lparr>e_FromNodeID = frm, e_ToNodeID = to\<rparr>, UpdateGraph g']))"

definition svc_RemoveEdge :: "graph_id \<Rightarrow> node_id \<Rightarrow> node_id \<Rightarrow> graph_db \<Rightarrow> prepared" where
  "svc_RemoveEdge gid frm to db = Ok [DeleteEdge gid frm to]"

definition svc_GetReadyNodes ::
  "(graph_node list \<Rightarrow> graph_node list) \<Rightarrow> graph_id \<Rightarrow> graph_db \<Rightarrow> orch_error + graph_node list" where
  "svc_GetReadyNodes nord gid db =
     (case loadGraph gid db of Err e \<Rightarrow> Err e | Ok g \<Rightarrow> Ok (ReadyNodes nord g))"

subsection \<open>Calls\<close>

datatype svc_op =
    SCreateGraph "graph_node list \<Rightarrow> graph_node list" graph_id gostring
  | SStartGraph graph_id
  | SFinishGraph graph_id
  | SAddNode graph_id node_id node_category control_kind gostring metadata
  | SRemoveNode node_id
  | SUpdateNode node_id gostring metadata
  | SStartNode node_id
  | SCompleteNode node_id gostring
  | SReopenNode node_id gostring
  | SDiscardNode node_id
  | SResolve "node_id list \<Rightarrow> node_id list" "graph_node list \<Rightarrow> graph_node list" node_id gostring
  | SAddEdge "node_id list \<Rightarrow> node_id list" graph_id node_id node_id
  | SRemoveEdge graph_id node_id node_id
  | SBindTask node_id gostring
  | SUnbindTask node_id

definition svc_node_input ::
  "time \<Rightarrow> graph_id \<Rightarrow> node_id \<Rightarrow> node_category \<Rightarrow> control_kind \<Rightarrow> gostring \<Rightarrow> metadata \<Rightarrow> new_node_input" where
  "svc_node_input now gid i c k title meta = \<lparr>ni_ID = i, ni_GraphID = gid, ni_Category = c,
     ni_ControlKind = k, ni_Title = title, ni_Metadata = meta, ni_CreatedAt = now\<rparr>"

fun svc_prepare :: "time \<Rightarrow> time \<Rightarrow> svc_op \<Rightarrow> graph_db \<Rightarrow> prepared" where
  "svc_prepare wall now (SCreateGraph nord i planID) db = svc_CreateGraph nord wall now i planID"
| "svc_prepare wall now (SStartGraph gid) db = svc_StartGraph wall now gid db"
| "svc_prepare wall now (SFinishGraph gid) db = svc_FinishGraph wall now gid db"
| "svc_prepare wall now (SAddNode gid i c k title meta) db =
     svc_AddNode wall (svc_node_input now gid i c k title meta) gid db"
| "svc_prepare wall now (SRemoveNode i) db = svc_RemoveNode wall i db"
| "svc_prepare wall now (SUpdateNode i title meta) db = svc_UpdateNode wall now i title meta db"
| "svc_prepare wall now (SStartNode i) db = svc_StartNode wall now i db"
| "svc_prepare wall now (SCompleteNode i outcome) db = svc_CompleteNode wall now i outcome db"
| "svc_prepare wall now (SReopenNode i why) db = svc_ReopenNode wall now i why db"
| "svc_prepare wall now (SDiscardNode i) db = svc_DiscardNode wall now i db"
| "svc_prepare wall now (SResolve ord nord i result) db = svc_ResolveCondition ord nord wall now i result db"
| "svc_prepare wall now (SAddEdge ord gid frm to) db = svc_AddEdge ord wall gid frm to db"
| "svc_prepare wall now (SRemoveEdge gid frm to) db = svc_RemoveEdge gid frm to db"
| "svc_prepare wall now (SBindTask i taskID) db = svc_BindTask wall now i taskID db"
| "svc_prepare wall now (SUnbindTask i) db = svc_UnbindTask wall now i db"

text \<open>A call with nothing committed by others between its reads and its transaction.\<close>

fun svc_exec :: "time \<times> time \<times> svc_op \<Rightarrow> graph_db \<Rightarrow> orch_error + graph_db" where
  "svc_exec (wall, now, op) db =
     (case svc_prepare wall now op db of Err e \<Rightarrow> Err e | Ok ws \<Rightarrow> run_tx ws db)"

end
