(* ===== verification/Orch_Refinement.thy ===== *)
theory Orch_Refinement
  imports Orch_Service
begin

section \<open>The orchestration service refines the graph model\<close>

text \<open>
  The abstraction of the tables is the graph that \<open>loadGraph\<close> rebuilds from the rows of one
  id.  Each method, run without interference, moves it as the calls of the aggregate do that
  \<open>svc_calls\<close> names, and leaves every other graph alone; two methods that overlap need not.
\<close>

subsection \<open>The abstraction\<close>

definition stored_graph :: "graph_db \<Rightarrow> graph \<Rightarrow> graph" where
  "stored_graph db h = h\<lparr>g_nodes := fold (\<lambda>n m. AList.update (n_id n) n m)
       (sort_key (\<lambda>n. (created_key (n_createdAt n), n_id n)) (node_rows (g_id h) db)) [],
     g_edges := edges_ListByGraph (g_id h) db\<rparr>"

definition tables_ok :: "graph_db \<Rightarrow> bool" where
  "tables_ok db \<longleftrightarrow>
     distinct (map fst (gd_graphs db)) \<and> distinct (map fst (gd_nodes db)) \<and> distinct (gd_edges db) \<and>
     (\<forall>i h. map_of (gd_graphs db) i = Some h \<longrightarrow> g_id h = i) \<and>
     (\<forall>i n. map_of (gd_nodes db) i = Some n \<longrightarrow> n_id n = i \<and> map_of (gd_graphs db) (n_graphID n) \<noteq> None) \<and>
     (\<forall>i e. (i, e) \<in> set (gd_edges db) \<longrightarrow> map_of (gd_graphs db) i \<noteq> None)"

definition db_ok :: "graph_db \<Rightarrow> bool" where
  "db_ok db \<longleftrightarrow> tables_ok db \<and>
     (\<forall>gid h. map_of (gd_graphs db) gid = Some h \<longrightarrow> graph_wf (stored_graph db h))"

declare map_of_eq_Some_iff [simp del] Some_eq_map_of_iff [simp del]

lemma option_ext: "(\<And>n. x = Some n \<longleftrightarrow> y = Some n) \<Longrightarrow> x = y"
  by (cases x; cases y) auto

lemma map_of_fold_update:
  "distinct (map n_id ns) \<Longrightarrow>
   map_of (fold (\<lambda>n m. AList.update (n_id n) n m) ns m) i =
     (case map_of (map (\<lambda>n. (n_id n, n)) ns) i of None \<Rightarrow> map_of m i | Some n \<Rightarrow> Some n)"
proof (induction ns arbitrary: m)
  case (Cons n ns)
  have "map_of (map (\<lambda>n. (n_id n, n)) ns) (n_id n) = None"
    using Cons.prems by (auto simp: map_of_eq_None_iff image_iff)
  with Cons show ?case by (cases "i = n_id n") (simp_all add: update_conv' split: option.splits)
qed simp

lemma keyed_lookup:
  "distinct (map f ns) \<Longrightarrow> map_of (map (\<lambda>n. (f n, n)) ns) i = Some n \<longleftrightarrow> n \<in> set ns \<and> f n = i"
  by (subst map_of_eq_Some_iff) (auto simp: comp_def)

lemma tables_facts:
  assumes "tables_ok db"
  shows "map_of (gd_graphs db) gid = Some h \<Longrightarrow> g_id h = gid"
    and "map_of (gd_nodes db) i = Some n \<Longrightarrow> n_id n = i"
    and "map_of (gd_nodes db) i = Some n \<Longrightarrow> \<exists>h. map_of (gd_graphs db) (n_graphID n) = Some h"
    and "distinct (map fst (gd_nodes db))"
  using assms unfolding tables_ok_def by blast+

lemma node_rows_set:
  assumes "tables_ok db"
  shows "n \<in> set (node_rows gid db) \<longleftrightarrow>
     map_of (gd_nodes db) (n_id n) = Some n \<and> n_graphID n = gid"
proof -
  have "n \<in> snd ` set (gd_nodes db) \<longleftrightarrow> (\<exists>i. (i, n) \<in> set (gd_nodes db))" by force
  also have "\<dots> \<longleftrightarrow> map_of (gd_nodes db) (n_id n) = Some n"
  proof
    assume "\<exists>i. (i, n) \<in> set (gd_nodes db)"
    moreover have "distinct (map fst (gd_nodes db))" using assms by (simp add: tables_ok_def)
    ultimately obtain i where "map_of (gd_nodes db) i = Some n" by (auto dest: map_of_is_SomeI)
    with tables_facts(2) [OF assms this] show "map_of (gd_nodes db) (n_id n) = Some n" by simp
  qed (auto dest: map_of_SomeD)
  finally show ?thesis by (simp add: node_rows_def)
qed

lemma node_rows_distinct:
  assumes "tables_ok db"
  shows "distinct (map n_id (sort_key f (node_rows gid db)))"
proof -
  have ids: "map n_id (map snd (gd_nodes db)) = map fst (gd_nodes db)"
    using assms by (auto simp: tables_ok_def map_of_eq_Some_iff)
  have "distinct (map n_id (map snd (gd_nodes db)))"
    unfolding ids using assms by (simp add: tables_ok_def)
  then show ?thesis by (auto simp: distinct_map node_rows_def inj_on_def)
qed

lemma FindNode_stored:
  assumes "tables_ok db"
  shows "FindNode (stored_graph db h) i = Some n \<longleftrightarrow>
    map_of (gd_nodes db) i = Some n \<and> n_graphID n = g_id h"
proof -
  let ?ns = "sort_key (\<lambda>n. (created_key (n_createdAt n), n_id n)) (node_rows (g_id h) db)"
  have d: "distinct (map n_id ?ns)" by (rule node_rows_distinct [OF assms])
  have "FindNode (stored_graph db h) i = map_of (map (\<lambda>n. (n_id n, n)) ?ns) i"
    by (simp add: FindNode_def stored_graph_def map_of_fold_update [OF d] split: option.splits)
  then show ?thesis
    using keyed_lookup [OF d, of i n] node_rows_set [OF assms, of n "g_id h"]
      tables_facts(2) [OF assms, of i n]
    by auto
qed

lemma stored_edges: "set (g_edges (stored_graph db h)) = {e. (g_id h, e) \<in> set (gd_edges db)}"
  by (force simp: stored_graph_def edges_ListByGraph_def)

lemma stored_distinct:
  assumes "tables_ok db"
  shows "distinct (g_edges (stored_graph db h))" "distinct (map fst (g_nodes (stored_graph db h)))"
proof -
  have "distinct (filter (\<lambda>(k, _). k = g_id h) (gd_edges db))"
    using assms by (simp add: tables_ok_def)
  then show "distinct (g_edges (stored_graph db h))"
    by (auto simp: stored_graph_def edges_ListByGraph_def distinct_map inj_on_def)
  have "distinct (map fst m) \<Longrightarrow> distinct (map fst (fold (\<lambda>n m. AList.update (n_id n) n m) ns m))"
    for ns :: "graph_node list" and m
    by (induction ns arbitrary: m) (simp_all add: distinct_update)
  then show "distinct (map fst (g_nodes (stored_graph db h)))"
    by (simp add: stored_graph_def)
qed

lemma stored_header [simp]:
  "g_id (stored_graph db h) = g_id h" "g_planID (stored_graph db h) = g_planID h"
  "g_status (stored_graph db h) = g_status h" "g_startNode (stored_graph db h) = g_startNode h"
  "g_endNode (stored_graph db h) = g_endNode h" "g_createdAt (stored_graph db h) = g_createdAt h"
  "g_version (stored_graph db h) = g_version h"
  by (simp_all add: stored_graph_def)

text \<open>Two graphs that differ at most in \<open>updated_at\<close>, in the version and in the orders of their lists.\<close>

definition same_graph :: "graph \<Rightarrow> graph \<Rightarrow> bool" where
  "same_graph g g' \<longleftrightarrow> graph_identity g = graph_identity g' \<and>
     (\<forall>i. FindNode g i = FindNode g' i) \<and> set (g_edges g) = set (g_edges g')"

lemma same_graph_refl: "same_graph g g"
  by (simp add: same_graph_def)

lemma distinct_edge_pairs: "distinct (map edge_pair es) \<longleftrightarrow> distinct es"
proof -
  have "inj edge_pair" by (auto simp: inj_def edge_pair_def)
  then show ?thesis by (auto simp: distinct_map intro: inj_on_subset)
qed

lemma same_graph_wf:
  assumes "same_graph g g'" "graph_wf g'" "distinct (g_edges g)" "distinct (map fst (g_nodes g))"
    and "1 \<le> g_version g"
  shows "graph_wf g"
proof -
  have find: "FindNode g = FindNode g'" and rel: "edge_rel (g_edges g) = edge_rel (g_edges g')"
    and hdr: "g_startNode g = g_startNode g'" "g_endNode g = g_endNode g'" "g_status g = g_status g'"
    using assms(1) by (simp_all add: same_graph_def edge_rel_def graph_identity_def fun_eq_iff)
  have "node_table_ok g"
    using assms(2,4) by (simp add: graph_wf_def node_table_ok_def find hdr)
  moreover have "edge_table_ok g"
    using assms(2,3) by (simp add: graph_wf_def edge_table_ok_def find rel distinct_edge_pairs)
  ultimately show ?thesis using assms(2,5) by (simp add: graph_wf_def hdr)
qed

lemma same_storedI:
  assumes "tables_ok db" "graph_identity (stored_graph db h) = graph_identity g"
    and "\<And>i n. FindNode g i = Some n \<longleftrightarrow> map_of (gd_nodes db) i = Some n \<and> n_graphID n = g_id h"
    and "set (g_edges g) = {e. (g_id h, e) \<in> set (gd_edges db)}"
  shows "same_graph (stored_graph db h) g"
proof -
  have "FindNode (stored_graph db h) i = FindNode g i" for i
    by (rule option_ext) (simp only: FindNode_stored [OF assms(1)] assms(3))
  with assms show ?thesis by (simp add: same_graph_def stored_edges)
qed

subsection \<open>Loading\<close>

lemma scan_nodes_ok: "list_all node_ok rows \<Longrightarrow> scan_nodes rows = Ok rows"
  by (induction rows) (auto simp: RehydrateNode_def node_ok_def)

lemma db_graph:
  assumes "db_ok db" "map_of (gd_graphs db) gid = Some h"
  shows "tables_ok db" "g_id h = gid" "graph_wf (stored_graph db h)" "graphStatus_IsValid (g_status h)"
    "1 \<le> g_version h"
proof -
  show t: "tables_ok db" and wf: "graph_wf (stored_graph db h)"
    using assms by (simp_all add: db_ok_def)
  show "g_id h = gid" by (rule tables_facts(1) [OF t assms(2)])
  show "graphStatus_IsValid (g_status h)" "1 \<le> g_version h"
    using wf by (simp_all add: graph_wf_def)
qed

lemma db_node_ok:
  assumes "db_ok db" "map_of (gd_nodes db) i = Some n"
  shows "node_ok n \<and> n_id n = i"
proof -
  have t: "tables_ok db" using assms by (simp add: db_ok_def)
  obtain h where h: "map_of (gd_graphs db) (n_graphID n) = Some h"
    using tables_facts(3) [OF t assms(2)] by blast
  have "FindNode (stored_graph db h) i = Some n"
    using assms(2) db_graph(2) [OF assms(1) h] by (simp add: FindNode_stored [OF t])
  with db_graph(3) [OF assms(1) h] show ?thesis by (simp add: wf_defs)
qed

lemma nodes_FindByID_ok:
  "db_ok db \<Longrightarrow> nodes_FindByID i db =
     (case map_of (gd_nodes db) i of None \<Rightarrow> Err ErrNodeNotFound | Some n \<Rightarrow> Ok n)"
  using db_node_ok [of db i]
  by (auto simp: nodes_FindByID_def RehydrateNode_def node_ok_def split: option.splits)

lemma graphs_FindByID_ok:
  assumes "db_ok db"
  shows "graphs_FindByID gid db =
     (case map_of (gd_graphs db) gid of None \<Rightarrow> Err ErrGraphNotFound
      | Some h \<Rightarrow> Ok (h\<lparr>g_nodes := [], g_edges := []\<rparr>))"
  using db_graph(4,5) [OF assms]
  by (force simp: graphs_FindByID_def RehydrateGraph_def split: option.splits)

lemma loadGraph_rows:
  assumes "map_of (gd_graphs db) gid = Some h" "g_id h = gid" "graphStatus_IsValid (g_status h)"
    and "1 \<le> g_version h" "\<And>n. n \<in> set (node_rows gid db) \<Longrightarrow> node_ok n"
  shows "loadGraph gid db = Ok (stored_graph db h)"
proof -
  have "nodes_ListByGraph gid db =
      Ok (sort_key (\<lambda>n. (created_key (n_createdAt n), n_id n)) (node_rows gid db))"
    unfolding nodes_ListByGraph_def by (intro scan_nodes_ok) (simp add: list_all_iff assms(5))
  with assms show ?thesis
    by (simp add: loadGraph_def graphs_FindByID_def RehydrateGraph_def stored_graph_def)
qed

lemma db_row_ok: "db_ok db \<Longrightarrow> n \<in> set (node_rows gid db) \<Longrightarrow> node_ok n"
  using db_node_ok [of db "n_id n" n] node_rows_set [of db n gid] by (simp add: db_ok_def)

lemma loadGraph_ok:
  assumes "db_ok db"
  shows "loadGraph gid db =
     (case map_of (gd_graphs db) gid of None \<Rightarrow> Err ErrGraphNotFound | Some h \<Rightarrow> Ok (stored_graph db h))"
proof (cases "map_of (gd_graphs db) gid")
  case None
  then show ?thesis by (simp add: loadGraph_def graphs_FindByID_def)
next
  case (Some h)
  then show ?thesis
    using loadGraph_rows [OF Some db_graph(2,4,5) [OF assms Some] db_row_ok [OF assms]] by simp
qed

subsection \<open>Moves of the tables\<close>

text \<open>
  A transaction moves the tables by a relation on graphs when every stored graph is related to
  one that the new rows store.  \<open>at_graph\<close> is a call of the aggregate on one of the graphs.
\<close>

definition db_moves :: "(graph_id \<Rightarrow> graph \<Rightarrow> graph \<Rightarrow> bool) \<Rightarrow> graph_db \<Rightarrow> graph_db \<Rightarrow> bool" where
  "db_moves R db db' \<longleftrightarrow> tables_ok db' \<and>
     (\<forall>gid. map_of (gd_graphs db') gid = None \<longleftrightarrow> map_of (gd_graphs db) gid = None) \<and>
     (\<forall>gid h. map_of (gd_graphs db) gid = Some h \<longrightarrow>
        (\<exists>h' g2. map_of (gd_graphs db') gid = Some h' \<and> 1 \<le> g_version h' \<and>
           R gid (stored_graph db h) g2 \<and> same_graph (stored_graph db' h') g2))"

definition at_graph ::
  "graph_id \<Rightarrow> (graph \<Rightarrow> orch_error + graph) \<Rightarrow> graph_id \<Rightarrow> graph \<Rightarrow> graph \<Rightarrow> bool" where
  "at_graph t f gid g g2 \<longleftrightarrow> (if gid = t then f g = Ok g2 else g2 = g)"

lemma db_moves_ok:
  assumes "db_ok db" "db_moves R db db'" "\<And>gid g g2. R gid g g2 \<Longrightarrow> graph_wf g \<Longrightarrow> graph_wf g2"
  shows "db_ok db'"
proof -
  have t: "tables_ok db'" using assms(2) by (simp add: db_moves_def)
  have "graph_wf (stored_graph db' h')" if h': "map_of (gd_graphs db') gid = Some h'" for gid h'
  proof -
    have "map_of (gd_graphs db) gid \<noteq> None"
      using assms(2) h' unfolding db_moves_def by (metis option.distinct(1))
    then obtain h where h: "map_of (gd_graphs db) gid = Some h" by blast
    with assms(2) h' obtain g2 where g2: "1 \<le> g_version h'" "R gid (stored_graph db h) g2"
      "same_graph (stored_graph db' h') g2"
      unfolding db_moves_def by (metis option.inject)
    moreover have "graph_wf (stored_graph db h)" using assms(1) h by (simp add: db_ok_def)
    ultimately show ?thesis
      using assms(3) same_graph_wf [OF g2(3)] stored_distinct [OF t] by simp
  qed
  with t show ?thesis by (simp add: db_ok_def)
qed

lemma movesI:
  assumes db: "db_ok db" and t: "tables_ok db'"
    and h: "map_of (gd_graphs db) t = Some h" and f: "f (stored_graph db h) = Ok g2"
    and h': "\<And>k. map_of (gd_graphs db') k = (if k = t then Some h' else map_of (gd_graphs db) k)"
    and v: "1 \<le> g_version h'" and same: "same_graph (stored_graph db' h') g2"
    and nodes: "\<And>i n. n_graphID n \<noteq> t \<Longrightarrow> map_of (gd_nodes db') i = Some n \<longleftrightarrow> map_of (gd_nodes db) i = Some n"
    and edges: "\<And>k e. k \<noteq> t \<Longrightarrow> (k, e) \<in> set (gd_edges db') \<longleftrightarrow> (k, e) \<in> set (gd_edges db)"
  shows "db_moves (at_graph t f) db db'"
proof -
  have "\<exists>k' g3. map_of (gd_graphs db') gid = Some k' \<and> 1 \<le> g_version k' \<and>
      at_graph t f gid (stored_graph db k) g3 \<and> same_graph (stored_graph db' k') g3"
    if k: "map_of (gd_graphs db) gid = Some k" for gid k
  proof (cases "gid = t")
    case True
    with k h f h' v same show ?thesis by (auto simp: at_graph_def)
  next
    case False
    note tables = db_graph(1) [OF db k] and k' = db_graph(2) [OF db k]
    have "same_graph (stored_graph db' k) (stored_graph db k)"
      by (rule same_storedI [OF t])
        (use False k' nodes edges in \<open>auto simp: graph_identity_def FindNode_stored [OF tables] stored_edges\<close>)
    moreover have "1 \<le> g_version k" by (rule db_graph(5) [OF db k])
    ultimately show ?thesis using False k h' by (auto simp: at_graph_def)
  qed
  then show ?thesis using t h h' by (auto simp: db_moves_def)
qed

subsection \<open>Writing nodes\<close>

lemma row_update:
  "node_evolves r n \<Longrightarrow>
   r\<lparr>n_title := n_title n, n_status := n_status n, n_outcome := n_outcome n, n_metadata := n_metadata n,
     n_actionLogs := n_actionLogs n, n_updatedAt := n_updatedAt n, n_version := n_version n\<rparr> = n"
  by (cases r; cases n) (simp add: node_evolves_def)

lemma tables_ok_nodes:
  assumes "tables_ok db" "db' = db\<lparr>gd_nodes := rows\<rparr>" "distinct (map fst rows)"
    and "\<And>i. map_of (gd_nodes db') i = (if i = n_id n then Some n else map_of (gd_nodes db) i)"
    and "\<exists>h. map_of (gd_graphs db) (n_graphID n) = Some h"
  shows "tables_ok db'"
proof -
  have "n_id m = i \<and> map_of (gd_graphs db) (n_graphID m) \<noteq> None" if "map_of rows i = Some m" for i m
    using that assms(4) [of i] assms(5) tables_facts(2,3) [OF assms(1), of i m]
    by (auto simp: assms(2) split: if_splits)
  with assms(1,3) show ?thesis by (simp add: tables_ok_def assms(2))
qed

lemma tx_update_nodes:
  assumes "tables_ok db" "distinct (map n_id ns)"
    and "\<And>n. n \<in> set ns \<Longrightarrow> \<exists>r. map_of (gd_nodes db) (n_id n) = Some r \<and> node_evolves r n"
  shows "\<exists>rows. run_tx (map UpdateNodeRow ns) db = Ok (db\<lparr>gd_nodes := rows\<rparr>) \<and>
    tables_ok (db\<lparr>gd_nodes := rows\<rparr>) \<and>
    (\<forall>i. map_of rows i =
       (case map_of (map (\<lambda>n. (n_id n, n)) ns) i of None \<Rightarrow> map_of (gd_nodes db) i | Some n \<Rightarrow> Some n))"
  using assms
proof (induction ns arbitrary: db)
  case Nil
  then show ?case by (auto intro!: exI [of _ "gd_nodes db"])
next
  case (Cons n ns)
  obtain r where r: "map_of (gd_nodes db) (n_id n) = Some r" "node_evolves r n"
    using Cons.prems(3) by auto
  define db1 where "db1 = db\<lparr>gd_nodes := AList.update (n_id n) n (gd_nodes db)\<rparr>"
  have w: "write_row (UpdateNodeRow n) db = Ok db1"
    by (simp add: nodes_Update_def r row_update db1_def)
  have rows1: "map_of (gd_nodes db1) i = (if i = n_id n then Some n else map_of (gd_nodes db) i)" for i
    by (simp add: db1_def update_conv')
  have t: "tables_ok db1"
    by (rule tables_ok_nodes [OF Cons.prems(1) db1_def _ rows1])
      (use r tables_facts(3) [OF Cons.prems(1) r(1)] tables_facts(4) [OF Cons.prems(1)] in
        \<open>simp_all add: distinct_update node_evolves_def\<close>)
  have "\<exists>r. map_of (gd_nodes db1) (n_id m) = Some r \<and> node_evolves r m" if "m \<in> set ns" for m
    using that Cons.prems(2) Cons.prems(3) [of m] by (auto simp: rows1 image_iff)
  with Cons.IH [OF t] Cons.prems(2) obtain rows where rows:
    "run_tx (map UpdateNodeRow ns) db1 = Ok (db1\<lparr>gd_nodes := rows\<rparr>)" "tables_ok (db1\<lparr>gd_nodes := rows\<rparr>)"
    "\<And>i. map_of rows i =
       (case map_of (map (\<lambda>n. (n_id n, n)) ns) i of None \<Rightarrow> map_of (gd_nodes db1) i | Some n \<Rightarrow> Some n)"
    by auto
  have "db1\<lparr>gd_nodes := rows\<rparr> = db\<lparr>gd_nodes := rows\<rparr>" by (simp add: db1_def)
  moreover have "n_id n \<notin> n_id ` set ns" using Cons.prems(2) by simp
  then have "map_of (map (\<lambda>n. (n_id n, n)) ns) (n_id n) = None"
    by (auto simp: map_of_eq_None_iff image_iff)
  ultimately show ?case
    using rows w by (auto simp: rows1 split: option.splits intro!: exI [of _ rows])
qed

lemma nodes_tx_moves:
  assumes db: "db_ok db" and h: "map_of (gd_graphs db) t = Some h"
    and f: "f (stored_graph db h) = Ok g2" and ev: "nodes_evolve (stored_graph db h) g2"
    and ns: "distinct (map n_id ns)" "\<And>n. n \<in> set ns \<Longrightarrow> FindNode g2 (n_id n) = Some n"
    and rest: "\<And>i n. FindNode g2 i = Some n \<Longrightarrow> n \<notin> set ns \<Longrightarrow> FindNode (stored_graph db h) i = Some n"
    and tx: "run_tx (map UpdateNodeRow ns) db = Ok db'"
  shows "db_moves (at_graph t f) db db'"
proof -
  note tables = db_graph(1) [OF db h] and hid = db_graph(2) [OF db h] and wf = db_graph(3) [OF db h]
  note find = FindNode_stored [OF tables, of h, unfolded hid]
  have wf2: "graph_wf g2" using nodes_evolve_wf [OF ev wf] .
  have old: "\<exists>r. map_of (gd_nodes db) (n_id n) = Some r \<and> n_graphID r = t \<and> node_evolves r n"
    if "n \<in> set ns" for n
    using nodes_evolve_back [OF ev ns(2) [OF that]] find by blast
  then have "\<exists>r. map_of (gd_nodes db) (n_id n) = Some r \<and> node_evolves r n" if "n \<in> set ns" for n
    using that by blast
  from tx_update_nodes [OF tables ns(1) this] tx obtain rows
    where db': "db' = db\<lparr>gd_nodes := rows\<rparr>" and t': "tables_ok db'"
    and rows: "\<And>i. map_of rows i =
       (case map_of (map (\<lambda>n. (n_id n, n)) ns) i of None \<Rightarrow> map_of (gd_nodes db) i | Some n \<Rightarrow> Some n)"
    by auto
  have look: "map_of (map (\<lambda>n. (n_id n, n)) ns) i = Some n \<longleftrightarrow> n \<in> set ns \<and> n_id n = i" for i n
    by (rule keyed_lookup [OF ns(1)])
  have new: "FindNode g2 i = Some n \<longleftrightarrow> map_of rows i = Some n \<and> n_graphID n = t" for i n
  proof (cases "map_of (map (\<lambda>n. (n_id n, n)) ns) i")
    case (Some m)
    then have m: "m \<in> set ns" "n_id m = i" by (simp_all add: look)
    with old [OF m(1)] have "n_graphID m = t" by (auto simp: node_evolves_def)
    with ns(2) [OF m(1)] m Some show ?thesis by (auto simp: rows)
  next
    case None
    have notin: "k \<notin> set ns" if "FindNode g2 i = Some k" for k
    proof
      assume "k \<in> set ns"
      moreover have "n_id k = i" using wf2 that by (auto simp: wf_defs)
      ultimately have "map_of (map (\<lambda>n. (n_id n, n)) ns) i = Some k" by (simp add: look)
      with None show False by simp
    qed
    show ?thesis
    proof
      assume "FindNode g2 i = Some n"
      with rest notin None show "map_of rows i = Some n \<and> n_graphID n = t"
        by (auto simp: rows find)
    next
      assume "map_of rows i = Some n \<and> n_graphID n = t"
      with None have "FindNode (stored_graph db h) i = Some n" by (simp add: rows find)
      moreover have "rel_option node_evolves (FindNode (stored_graph db h) i) (FindNode g2 i)"
        using ev by (simp add: nodes_evolve_def)
      ultimately obtain k where "FindNode g2 i = Some k" by (auto simp: option_rel_Some1)
      with rest notin \<open>FindNode (stored_graph db h) i = Some n\<close> show "FindNode g2 i = Some n" by force
    qed
  qed
  have same: "same_graph (stored_graph db' h) g2"
    by (rule same_storedI [OF t'])
      (use ev new hid in \<open>auto simp: nodes_evolve_def graph_identity_def stored_edges db'\<close>)
  have frame: "map_of rows i = Some n \<longleftrightarrow> map_of (gd_nodes db) i = Some n"
    if "n_graphID n \<noteq> t" for i n
  proof (cases "map_of (map (\<lambda>n. (n_id n, n)) ns) i")
    case None
    then show ?thesis by (simp add: rows)
  next
    case (Some m)
    then have "m \<in> set ns" "n_id m = i" by (simp_all add: look)
    with old [of m] obtain r where "map_of (gd_nodes db) i = Some r" "n_graphID r = t" "n_graphID m = t"
      by (auto simp: node_evolves_def)
    with Some that show ?thesis by (auto simp: rows)
  qed
  show ?thesis
    by (rule movesI [where f = f and t = t and h' = h, OF db t' h f _ _ same])
      (use h frame db_graph(5) [OF db h] in \<open>simp_all add: db'\<close>)
qed

subsection \<open>The calls that a method stands for\<close>

fun svc_target :: "svc_op \<Rightarrow> graph_db \<Rightarrow> graph_id option" where
  "svc_target (SCreateGraph _ _ _) db = None"
| "svc_target (SStartGraph gid) db = Some gid"
| "svc_target (SFinishGraph gid) db = Some gid"
| "svc_target (SAddNode gid _ _ _ _ _) db = Some gid"
| "svc_target (SRemoveNode i) db = map_option n_graphID (map_of (gd_nodes db) i)"
| "svc_target (SUpdateNode i _ _) db = map_option n_graphID (map_of (gd_nodes db) i)"
| "svc_target (SStartNode i) db = map_option n_graphID (map_of (gd_nodes db) i)"
| "svc_target (SCompleteNode i _) db = map_option n_graphID (map_of (gd_nodes db) i)"
| "svc_target (SReopenNode i _) db = map_option n_graphID (map_of (gd_nodes db) i)"
| "svc_target (SDiscardNode i) db = map_option n_graphID (map_of (gd_nodes db) i)"
| "svc_target (SResolve _ _ i _) db = map_option n_graphID (map_of (gd_nodes db) i)"
| "svc_target (SAddEdge _ gid _ _) db = Some gid"
| "svc_target (SRemoveEdge gid _ _) db = Some gid"
| "svc_target (SBindTask i _) db = map_option n_graphID (map_of (gd_nodes db) i)"
| "svc_target (SUnbindTask i) db = map_option n_graphID (map_of (gd_nodes db) i)"

definition row_metadata :: "node_id \<Rightarrow> graph_db \<Rightarrow> metadata" where
  "row_metadata i db = (case map_of (gd_nodes db) i of None \<Rightarrow> [] | Some n \<Rightarrow> n_metadata n)"

definition row_config :: "node_id \<Rightarrow> graph_db \<Rightarrow> condition_config" where
  "row_config i db = (case ParseConditionConfig (row_metadata i db) of Ok cfg \<Rightarrow> cfg
     | Err _ \<Rightarrow> \<lparr>cc_Evaluator = [], cc_Logic = [], cc_HookURL = [], cc_HookMethod = [],
         cc_SuccessCondition = [], cc_OnSuccess = [], cc_OnFailure = [], cc_MaxRounds = 0,
         cc_OnMaxExceeded = []\<rparr>)"

fun svc_calls :: "time \<Rightarrow> svc_op \<Rightarrow> graph_db \<Rightarrow> graph_op list" where
  "svc_calls now (SCreateGraph _ _ _) db = []"
| "svc_calls now (SStartGraph _) db = [GStart now]"
| "svc_calls now (SFinishGraph _) db = [GFinish now]"
| "svc_calls now (SAddNode gid i c k title meta) db = [GAddNode (svc_node_input now gid i c k title meta)]"
| "svc_calls now (SRemoveNode i) db = [GRemoveNode i]"
| "svc_calls now (SUpdateNode i title meta) db =
     [GNode i (NSetTitle title now), GNode i (NSetMetadata meta now)]"
| "svc_calls now (SStartNode i) db = [GNode i (NStart now)]"
| "svc_calls now (SCompleteNode i outcome) db = [GNode i (NComplete outcome now)]"
| "svc_calls now (SReopenNode i why) db = [GNode i (NReopen why now)]"
| "svc_calls now (SDiscardNode i) db = [GNode i (NDiscard now)]"
| "svc_calls now (SResolve ord _ i result) db =
     [GCondition ord i (row_config i db) (result = ''success'') now]"
| "svc_calls now (SAddEdge ord _ frm to) db = [GAddEdge ord frm to]"
| "svc_calls now (SRemoveEdge _ frm to) db = [GRemoveEdge frm to]"
| "svc_calls now (SBindTask i taskID) db =
     [GNode i (NSetMetadata (AList.update ''task_id'' (AnyString taskID) (row_metadata i db)) now)]"
| "svc_calls now (SUnbindTask i) db =
     [GNode i (NSetMetadata (AList.delete ''task_id'' (row_metadata i db)) now)]"

text \<open>Calls that all have to succeed.\<close>

fun graph_execs :: "time \<Rightarrow> graph_op list \<Rightarrow> graph \<Rightarrow> orch_error + graph" where
  "graph_execs wall [] g = Ok g"
| "graph_execs wall (c # cs) g = bind_graph (graph_exec (wall, c) g) (graph_execs wall cs)"

lemma graph_execs_wf: "graph_execs wall cs g = Ok g' \<Longrightarrow> graph_wf g \<Longrightarrow> graph_wf g'"
  by (induction cs arbitrary: g) (auto simp: bind_graph_Ok intro: graph_exec_wf)

lemma bind_graph_simps [simp]: "bind_graph (Ok g) f = f g" "bind_graph (Err e) f = Err e"
  by (simp_all add: bind_graph_def)

lemma graph_execs_single [simp]: "graph_execs wall [c] g = graph_exec (wall, c) g"
  by (cases "graph_exec (wall, c) g") simp_all

declare graph_execs.simps(2) [simp del]

lemma distinct_map_ordered:
  assumes "distinct (map f xs)"
  shows "distinct (map f (filter P (range_order ord xs)))"
proof -
  have "mset (map f (range_order ord xs)) = mset (map f xs)" by simp
  then have "distinct (map f (range_order ord xs))"
    using assms mset_eq_imp_distinct_iff by blast
  then show ?thesis by (rule distinct_map_filter)
qed

subsection \<open>Methods on one node\<close>

lemma change_node_moves:
  assumes db: "db_ok db" and ws: "change_node i f db = Ok ws" and tx: "run_tx ws db = Ok db'"
    and model: "\<And>n n' g. f n = Ok n' \<Longrightarrow> map_of (gd_nodes db) i = Some n \<Longrightarrow> FindNode g i = Some n \<Longrightarrow>
      \<exists>g2. F g = Ok g2 \<and> nodes_evolve g g2 \<and> (\<forall>j. FindNode g2 j = (if j = i then Some n' else FindNode g j))"
  shows "\<exists>t. map_option n_graphID (map_of (gd_nodes db) i) = Some t \<and> db_moves (at_graph t F) db db'"
proof -
  obtain n n' where n: "map_of (gd_nodes db) i = Some n" "f n = Ok n'" "ws = [UpdateNodeRow n']"
    using ws by (auto simp: change_node_def nodes_FindByID_ok [OF db] split: option.splits sum.splits)
  have t: "tables_ok db" using db by (simp add: db_ok_def)
  obtain h where h: "map_of (gd_graphs db) (n_graphID n) = Some h"
    using tables_facts(3) [OF t n(1)] by blast
  have "FindNode (stored_graph db h) i = Some n"
    using n(1) db_graph(2) [OF db h] by (simp add: FindNode_stored [OF t])
  from model [OF n(2,1) this] obtain g2 where g2: "F (stored_graph db h) = Ok g2"
    "nodes_evolve (stored_graph db h) g2"
    "\<And>j. FindNode g2 j = (if j = i then Some n' else FindNode (stored_graph db h) j)" by blast
  have wf2: "graph_wf g2" using nodes_evolve_wf [OF g2(2) db_graph(3) [OF db h]] .
  then have "n_id n' = i" using wf_node(1) [OF wf2, of i n'] g2(3) by simp
  then have "db_moves (at_graph (n_graphID n) F) db db'"
    using tx n(3) g2(3)
    by (intro nodes_tx_moves [where f = F and ns = "[n']", OF db h g2(1,2)])
      (auto split: if_splits)
  with n(1) show ?thesis by auto
qed

lemma node_call_moves:
  assumes "db_ok db" "change_node i f db = Ok ws" "run_tx ws db = Ok db'"
    and "\<And>n. map_of (gd_nodes db) i = Some n \<Longrightarrow> f n = node_exec wall op n"
  shows "\<exists>t. map_option n_graphID (map_of (gd_nodes db) i) = Some t \<and>
    db_moves (at_graph t (graph_execs wall [GNode i op])) db db'"
  by (rule change_node_moves [OF assms(1-3)])
    (auto simp: assms(4) on_node_def intro: put_node_evolves node_exec_evolves)

lemma update_node_moves:
  assumes "db_ok db" "svc_UpdateNode wall now i title meta db = Ok ws" "run_tx ws db = Ok db'"
  shows "\<exists>t. map_option n_graphID (map_of (gd_nodes db) i) = Some t \<and>
    db_moves (at_graph t (graph_execs wall [GNode i (NSetTitle title now), GNode i (NSetMetadata meta now)])) db db'"
proof (rule change_node_moves [OF assms(1) assms(2) [unfolded svc_UpdateNode_def] assms(3)])
  fix n n' g
  assume n: "map_sum id (node_SetMetadata meta wall now) (node_SetTitle title wall now n) = Ok n'"
    "FindNode g i = Some n"
  then obtain n1 where n1: "node_SetTitle title wall now n = Ok n1" "n' = node_SetMetadata meta wall now n1"
    by (cases "node_SetTitle title wall now n") auto
  let ?g1 = "put_node i n1 g"
  have "nodes_evolve g ?g1"
    using n(2) n1(1) node_exec_evolves [of wall "NSetTitle title now" n n1] by (intro put_node_evolves) auto
  moreover have "nodes_evolve ?g1 (put_node i n' ?g1)"
    using n1(2) node_exec_evolves [of wall "NSetMetadata meta now" n1 n'] by (intro put_node_evolves) auto
  ultimately have "nodes_evolve g (put_node i n' ?g1)" by (rule nodes_evolve_trans)
  with n n1 show "\<exists>g2. graph_execs wall [GNode i (NSetTitle title now), GNode i (NSetMetadata meta now)] g = Ok g2 \<and>
      nodes_evolve g g2 \<and> (\<forall>j. FindNode g2 j = (if j = i then Some n' else FindNode g j))"
    by (auto simp: on_node_def graph_execs.simps(2) intro!: exI [of _ "put_node i n' ?g1"])
qed

lemma resolve_moves:
  assumes db: "db_ok db" and ws: "svc_ResolveCondition ord nord wall now i result db = Ok ws"
    and tx: "run_tx ws db = Ok db'"
  shows "\<exists>t. map_option n_graphID (map_of (gd_nodes db) i) = Some t \<and>
    db_moves (at_graph t (graph_execs wall [GCondition ord i (row_config i db) (result = ''success'') now])) db db'"
proof -
  obtain n h g2 where n: "map_of (gd_nodes db) i = Some n" and h: "map_of (gd_graphs db) (n_graphID n) = Some h"
    and g2: "ApplyConditionResult ord wall i (row_config i db) (result = ''success'') now (stored_graph db h) = Ok g2"
    and w: "ws = map UpdateNodeRow (filter (version_moved (stored_graph db h)) (graph_Nodes nord g2))"
    using ws
    by (auto simp: svc_ResolveCondition_def nodes_FindByID_ok [OF db] loadGraph_ok [OF db] row_config_def
        row_metadata_def split: option.splits sum.splits)
  have ev: "nodes_evolve (stored_graph db h) g2" by (rule condition_evolves [OF g2])
  have wf2: "graph_wf g2" by (rule nodes_evolve_wf [OF ev db_graph(3) [OF db h]])
  have ids: "map n_id (map snd (g_nodes g2)) = map fst (g_nodes g2)"
    using wf2 by (auto simp: wf_defs FindNode_def map_of_is_SomeI)
  have "distinct (map n_id (map snd (g_nodes g2)))"
    unfolding ids using wf2 by (simp add: wf_defs)
  then have d: "distinct (map n_id (filter P (graph_Nodes nord g2)))" for P
    unfolding graph_Nodes_def by (rule distinct_map_ordered)
  have "db_moves (at_graph (n_graphID n)
      (graph_execs wall [GCondition ord i (row_config i db) (result = ''success'') now])) db db'"
  proof (rule nodes_tx_moves [OF db h _ ev d _ _ tx [unfolded w]])
    show "graph_execs wall [GCondition ord i (row_config i db) (result = ''success'') now] (stored_graph db h) = Ok g2"
      using g2 by simp
  next
    fix m
    assume "m \<in> set (filter (version_moved (stored_graph db h)) (graph_Nodes nord g2))"
    then show "FindNode g2 (n_id m) = Some m" using graph_Nodes_wf [OF wf2] by simp
  next
    fix j m
    assume m: "FindNode g2 j = Some m"
      "m \<notin> set (filter (version_moved (stored_graph db h)) (graph_Nodes nord g2))"
    have j: "n_id m = j" by (rule wf_node(1) [OF wf2 m(1)])
    with m have "\<not> version_moved (stored_graph db h) m" using graph_Nodes_wf [OF wf2, of m] by auto
    moreover obtain k where "FindNode (stored_graph db h) j = Some k" "node_evolves k m"
      using nodes_evolve_back [OF ev m(1)] by blast
    ultimately show "FindNode (stored_graph db h) j = Some m"
      using j by (auto simp: version_moved_def node_evolves_def)
  qed
  with n show ?thesis by auto
qed

subsection \<open>Header rows and new rows\<close>

lemma graphs_Update_row:
  assumes "tables_ok db" "map_of (gd_graphs db) t = Some h" "g_id g = t"
    and "g_startNode g = g_startNode h" "g_endNode g = g_endNode h" "g_createdAt g = g_createdAt h"
    and "graphs_Update g db = Ok db'"
  obtains hs h' where "db' = db\<lparr>gd_graphs := hs\<rparr>" "tables_ok db'"
    "\<And>k. map_of hs k = (if k = t then Some h' else map_of (gd_graphs db) k)"
    "graph_identity h' = graph_identity g" "g_version h' = g_version g"
proof -
  let ?h = "h\<lparr>g_planID := g_planID g, g_status := g_status g, g_updatedAt := g_updatedAt g,
      g_version := g_version g\<rparr>"
  let ?hs = "AList.update t ?h (gd_graphs db)"
  have id: "g_id h = t" by (rule tables_facts(1) [OF assms(1,2)])
  have db': "db' = db\<lparr>gd_graphs := ?hs\<rparr>" using assms(2,3,7) by (simp add: graphs_Update_def)
  have look: "map_of ?hs k = (if k = t then Some ?h else map_of (gd_graphs db) k)" for k
    by (simp add: update_conv')
  have dom: "map_of ?hs k = None \<longleftrightarrow> map_of (gd_graphs db) k = None" for k
    using assms(2) by (simp add: look)
  have "distinct (map fst (gd_graphs db))" using assms(1) by (simp add: tables_ok_def)
  then have "distinct (map fst ?hs)" by (rule distinct_update)
  moreover have "g_id k = i" if "map_of ?hs i = Some k" for i k
    using that id tables_facts(1) [OF assms(1), of i k] by (auto simp: look split: if_splits)
  ultimately have "tables_ok db'"
    using assms(1) unfolding tables_ok_def db' by (simp add: dom)
  then show thesis
    using db' look id assms(3-6) by (intro that [where h' = ?h and hs = ?hs]) (auto simp: graph_identity_def)
qed

lemma header_moves:
  assumes db: "db_ok db" and ws: "change_header t (graph_transition to wall now) db = Ok ws"
    and tx: "run_tx ws db = Ok db'"
  shows "db_moves (at_graph t (graph_transition to wall now)) db db'"
proof -
  obtain h g where h: "map_of (gd_graphs db) t = Some h"
    and g: "graph_transition to wall now (h\<lparr>g_nodes := [], g_edges := []\<rparr>) = Ok g"
    and up: "graphs_Update g db = Ok db'"
    using ws tx by (auto simp: change_header_def graphs_FindByID_ok [OF db] split: option.splits sum.splits)
  note t = db_graph(1) [OF db h] and hid = db_graph(2) [OF db h]
  have g': "g = graph_touch wall now (h\<lparr>g_nodes := [], g_edges := [], g_status := to\<rparr>)"
    and ok: "graph_transition to wall now (stored_graph db h) =
      Ok (graph_touch wall now ((stored_graph db h)\<lparr>g_status := to\<rparr>))"
    using g by (auto simp: graph_transition_def split: if_splits)
  obtain hs h' where db': "db' = db\<lparr>gd_graphs := hs\<rparr>" "tables_ok db'"
    and hs: "\<And>k. map_of hs k = (if k = t then Some h' else map_of (gd_graphs db) k)"
    and h': "graph_identity h' = graph_identity g" "g_version h' = g_version g"
    using up g' hid by (elim graphs_Update_row [OF t h, rotated -1]) (simp_all add: graph_touch_def)
  have id': "g_id h' = t" using h'(1) g' hid by (simp add: graph_identity_def graph_touch_def)
  have same: "same_graph (stored_graph db' h') (graph_touch wall now ((stored_graph db h)\<lparr>g_status := to\<rparr>))"
    by (rule same_storedI [OF db'(2)])
      (use h' g' hid id' db'(1) in \<open>simp_all add: graph_identity_def FindNode_stored [OF t]
        graph_touch_def stored_edges stored_edges [unfolded stored_graph_def] FindNode_def
        FindNode_stored [OF t, unfolded FindNode_def]\<close>)
  show ?thesis
    by (rule movesI [where t = t and f = "graph_transition to wall now" and h' = h',
        OF db db'(2) h ok _ _ same])
      (use hs h' g' db' db_graph(5) [OF db h] in \<open>simp_all add: graph_touch_def\<close>)
qed

lemma tx_save_nodes:
  assumes "tables_ok db" "run_tx (map SaveNode ns @ ws) db = Ok db'"
  obtains rows where "run_tx ws (db\<lparr>gd_nodes := rows\<rparr>) = Ok db'" "tables_ok (db\<lparr>gd_nodes := rows\<rparr>)"
    "\<And>i n. map_of rows i = Some n \<longleftrightarrow> map_of (gd_nodes db) i = Some n \<or> n \<in> set ns \<and> n_id n = i"
  using assms
proof (induction ns arbitrary: db thesis)
  case Nil
  then show ?case by (intro Nil(1) [of "gd_nodes db"]) auto
next
  case (Cons n ns)
  define db1 where "db1 = db\<lparr>gd_nodes := AList.update (n_id n) n (gd_nodes db)\<rparr>"
  have fresh: "map_of (gd_nodes db) (n_id n) = None" and g: "map_of (gd_graphs db) (n_graphID n) \<noteq> None"
    and tx: "run_tx (map SaveNode ns @ ws) db1 = Ok db'"
    using Cons.prems(3) by (auto simp: nodes_Save_def db1_def split: if_splits)
  have rows1: "map_of (gd_nodes db1) i = (if i = n_id n then Some n else map_of (gd_nodes db) i)" for i
    by (simp add: db1_def update_conv')
  have t1: "tables_ok db1"
    by (rule tables_ok_nodes [OF Cons.prems(2) db1_def _ rows1])
      (use g tables_facts(4) [OF Cons.prems(2)] in \<open>auto simp: distinct_update\<close>)
  obtain rows where rows: "run_tx ws (db1\<lparr>gd_nodes := rows\<rparr>) = Ok db'" "tables_ok (db1\<lparr>gd_nodes := rows\<rparr>)"
    "\<And>i n. map_of rows i = Some n \<longleftrightarrow> map_of (gd_nodes db1) i = Some n \<or> n \<in> set ns \<and> n_id n = i"
    using Cons.IH [OF _ t1 tx] by blast
  have "map_of rows i = Some m \<longleftrightarrow> map_of (gd_nodes db) i = Some m \<or> m \<in> set (n # ns) \<and> n_id m = i" for i m
    using fresh by (auto simp: rows(3) rows1)
  then show ?case
    by (rule Cons.prems(1) [OF rows(1,2) [unfolded db1_def, simplified]])
qed

subsection \<open>Methods on the shape of a graph\<close>

lemma add_node_moves:
  assumes db: "db_ok db" and ws: "svc_AddNode wall inp t db = Ok ws" and tx: "run_tx ws db = Ok db'"
  shows "db_moves (at_graph t (graph_execs wall [GAddNode inp])) db db'"
proof -
  obtain h n g2 where h: "map_of (gd_graphs db) t = Some h"
    and add: "graph_AddNode wall inp (stored_graph db h) = Ok (n, g2)"
    and w: "run_tx (map SaveNode [n] @ [UpdateGraph g2]) db = Ok db'"
    using ws tx by (auto simp: svc_AddNode_def loadGraph_ok [OF db] split: option.splits sum.splits)
  note t = db_graph(1) [OF db h] and hid = db_graph(2) [OF db h]
  have find: "\<And>j. FindNode g2 j = (if j = n_id n then Some n else FindNode (stored_graph db h) j)"
    and fresh: "FindNode (stored_graph db h) (n_id n) = None" and n: "n_graphID n = t"
    and g2: "g_edges g2 = g_edges (stored_graph db h)" "graph_identity g2 = graph_identity h"
      "g_version g2 = g_version h + 1"
    using add hid
    by (auto simp: graph_AddNode_def NewNode_def Let_def graph_touch_def FindNode_def update_conv'
        graph_identity_def split: sum.splits if_splits)
  obtain rows where up: "run_tx [UpdateGraph g2] (db\<lparr>gd_nodes := rows\<rparr>) = Ok db'"
    and t1: "tables_ok (db\<lparr>gd_nodes := rows\<rparr>)"
    and rows: "\<And>i m. map_of rows i = Some m \<longleftrightarrow> map_of (gd_nodes db) i = Some m \<or> m \<in> set [n] \<and> n_id m = i"
    by (rule tx_save_nodes [OF t w]) (rule that)
  from up have up: "graphs_Update g2 (db\<lparr>gd_nodes := rows\<rparr>) = Ok db'" by (auto split: sum.splits)
  obtain hs h' where db': "db' = db\<lparr>gd_nodes := rows, gd_graphs := hs\<rparr>" "tables_ok db'"
    and hs: "\<And>k. map_of hs k = (if k = t then Some h' else map_of (gd_graphs (db\<lparr>gd_nodes := rows\<rparr>)) k)"
    and h': "graph_identity h' = graph_identity g2" "g_version h' = g_version g2"
    by (rule graphs_Update_row [OF t1 _ _ _ _ _ up, of t h])
      (use g2 hid h that in \<open>simp_all add: graph_identity_def\<close>)
  have id': "g_id h' = t" using h'(1) g2(2) hid by (simp add: graph_identity_def)
  have nold: "n_graphID m \<noteq> t" if "map_of (gd_nodes db) (n_id n) = Some m" for m
    using that fresh FindNode_stored [OF t, of h "n_id n" m] hid by auto
  have same: "same_graph (stored_graph db' h') g2"
  proof (rule same_storedI [OF db'(2)])
    show "FindNode g2 i = Some m \<longleftrightarrow> map_of (gd_nodes db') i = Some m \<and> n_graphID m = g_id h'" for i m
      using nold n FindNode_stored [OF t, of h i m] rows [of i m] hid
      by (auto simp: find id' db'(1) FindNode_stored [OF t] split: if_splits)
  qed (use g2 h' db'(1) hid id' in \<open>auto simp: graph_identity_def stored_edges\<close>)
  have "graph_execs wall [GAddNode inp] (stored_graph db h) = Ok g2" using add by simp
  then show ?thesis
    by (rule movesI [where t = t and f = "graph_execs wall [GAddNode inp]" and h' = h',
        OF db db'(2) h _ _ _ same])
      (use hs h' g2 n rows db' db_graph(5) [OF db h] in auto)
qed

lemma add_edge_moves:
  assumes db: "db_ok db" and ws: "svc_AddEdge ord wall t frm to db = Ok ws" and tx: "run_tx ws db = Ok db'"
  shows "db_moves (at_graph t (graph_execs wall [GAddEdge ord frm to])) db db'"
proof -
  let ?e = "\<lparr>e_FromNodeID = frm, e_ToNodeID = to\<rparr>"
  let ?db = "db\<lparr>gd_edges := gd_edges db @ [(t, ?e)]\<rparr>"
  obtain h g2 where h: "map_of (gd_graphs db) t = Some h"
    and add: "graph_AddEdge ord wall frm to (stored_graph db h) = Ok g2"
    and new: "(t, ?e) \<notin> set (gd_edges db)" and up: "graphs_Update g2 ?db = Ok db'"
    using ws tx
    by (auto simp: svc_AddEdge_def loadGraph_ok [OF db] edges_Save_def split: option.splits sum.splits if_splits)
  note t = db_graph(1) [OF db h] and hid = db_graph(2) [OF db h]
  have g2: "g2 = graph_touch wall wall ((stored_graph db h)\<lparr>g_edges := g_edges (stored_graph db h) @ [?e]\<rparr>)"
    using add by (auto simp: graph_AddEdge_def Let_def split: if_splits option.splits)
  have t1: "tables_ok ?db" using t new h by (auto simp: tables_ok_def)
  obtain hs h' where db': "db' = ?db\<lparr>gd_graphs := hs\<rparr>" "tables_ok db'"
    and hs: "\<And>k. map_of hs k = (if k = t then Some h' else map_of (gd_graphs ?db) k)"
    and h': "graph_identity h' = graph_identity g2" "g_version h' = g_version g2"
    by (rule graphs_Update_row [OF t1 _ _ _ _ _ up, of t h])
      (use hid h that in \<open>simp_all add: g2 graph_touch_def\<close>)
  have id': "g_id h' = t" using h'(1) g2 hid by (simp add: graph_identity_def graph_touch_def)
  have find: "FindNode g2 i = FindNode (stored_graph db h) i" for i by (simp add: g2)
  have edges: "set (g_edges g2) = insert ?e {e. (t, e) \<in> set (gd_edges db)}"
    using stored_edges [of db h] hid by (auto simp: g2 graph_touch_def)
  have same: "same_graph (stored_graph db' h') g2"
    by (rule same_storedI [OF db'(2)])
      (use h' db'(1) id' hid in \<open>auto simp: graph_identity_def find edges FindNode_stored [OF t]\<close>)
  have ok: "graph_execs wall [GAddEdge ord frm to] (stored_graph db h) = Ok g2" using add by simp
  show ?thesis
    by (rule movesI [where t = t and f = "graph_execs wall [GAddEdge ord frm to]" and h' = h',
        OF db db'(2) h ok _ _ same])
      (use hs h' db' db_graph(5) [OF db h] in \<open>auto simp: g2 graph_touch_def\<close>)
qed

text \<open>Deleting an edge row, whether or not it and its graph are there.\<close>

lemma remove_edge_graph:
  assumes "distinct (g_edges g)"
  shows "graph_identity (graph_RemoveEdge now frm to g) = graph_identity g"
    "FindNode (graph_RemoveEdge now frm to g) i = FindNode g i"
    "set (g_edges (graph_RemoveEdge now frm to g)) = {e \<in> set (g_edges g). edge_pair e \<noteq> (frm, to)}"
proof -
  have none: "cut_edge frm to es = None \<Longrightarrow> edge_pair e \<noteq> (frm, to)" if "e \<in> set es" for e es
    using that by (induction es) (auto simp: edge_pair_def split: if_splits)
  have "set es = {e \<in> set (g_edges g). edge_pair e \<noteq> (frm, to)}" if "cut_edge frm to (g_edges g) = Some es" for es
    using cut_edge_filter [OF _ that] assms by (simp add: distinct_edge_pairs)
  with none show "set (g_edges (graph_RemoveEdge now frm to g)) = {e \<in> set (g_edges g). edge_pair e \<noteq> (frm, to)}"
    by (auto simp: graph_RemoveEdge_def graph_touch_def split: option.splits)
  show "graph_identity (graph_RemoveEdge now frm to g) = graph_identity g"
    "FindNode (graph_RemoveEdge now frm to g) i = FindNode g i"
    by (auto simp: graph_RemoveEdge_def graph_identity_def graph_touch_def FindNode_def split: option.splits)
qed

lemma tables_ok_edges: "tables_ok db \<Longrightarrow> tables_ok (db\<lparr>gd_edges := filter P (gd_edges db)\<rparr>)"
  by (auto simp: tables_ok_def)

lemma remove_edge_moves:
  assumes db: "db_ok db"
  shows "db_moves (at_graph t (graph_execs wall [GRemoveEdge frm to])) db (edges_Delete t frm to db)"
proof -
  have t: "tables_ok db" using db by (simp add: db_ok_def)
  let ?db = "edges_Delete t frm to db"
  have t': "tables_ok ?db" using tables_ok_edges [OF t] by (simp add: edges_Delete_def)
  have keep: "gd_nodes ?db = gd_nodes db" "gd_graphs ?db = gd_graphs db"
    and edges: "(k, e) \<in> set (gd_edges ?db) \<longleftrightarrow> (k, e) \<in> set (gd_edges db) \<and> \<not> (k = t \<and> edge_pair e = (frm, to))" for k e
    by (auto simp: edges_Delete_def edge_pair_def)
  show ?thesis
  proof (cases "map_of (gd_graphs db) t")
    case (Some h)
    have hid: "g_id h = t" by (rule tables_facts(1) [OF t Some])
    note rem = remove_edge_graph [OF stored_distinct(1) [OF t, of h], of wall frm to]
    have same: "same_graph (stored_graph ?db h) (graph_RemoveEdge wall frm to (stored_graph db h))"
      by (rule same_storedI [OF t'])
        (auto simp: rem FindNode_stored [OF t] keep edges stored_edges hid, simp add: graph_identity_def)
    have ok: "graph_execs wall [GRemoveEdge frm to] (stored_graph db h) =
      Ok (graph_RemoveEdge wall frm to (stored_graph db h))" by simp
    show ?thesis
      by (rule movesI [where t = t and f = "graph_execs wall [GRemoveEdge frm to]" and h' = h,
          OF db t' Some ok _ _ same])
        (use Some db_graph(5) [OF db Some] in \<open>auto simp: keep edges\<close>)
  next
    case None
    have "at_graph t f gid (stored_graph db k) (stored_graph db k) \<and>
        same_graph (stored_graph ?db k) (stored_graph db k) \<and> 1 \<le> g_version k"
      if k: "map_of (gd_graphs db) gid = Some k" for gid k f
    proof -
      have gid: "gid \<noteq> t" using k None by auto
      have "same_graph (stored_graph ?db k) (stored_graph db k)"
        by (rule same_storedI [OF t'])
          (use gid db_graph(2) [OF db k] in \<open>auto simp: graph_identity_def FindNode_stored [OF t] keep edges stored_edges\<close>)
      with gid db_graph(5) [OF db k] show ?thesis by (simp add: at_graph_def)
    qed
    with t' show ?thesis unfolding db_moves_def keep by blast
  qed
qed

text \<open>Removing a node: its edges are deleted one by one, then its row.\<close>

lemma tx_delete_edges:
  "run_tx (map (\<lambda>e. DeleteEdge t (e_FromNodeID e) (e_ToNodeID e)) es @ ws) db =
   run_tx ws (db\<lparr>gd_edges := filter (\<lambda>(k, e). \<not> (k = t \<and> e \<in> set es)) (gd_edges db)\<rparr>)"
proof (induction es arbitrary: db)
  case Nil
  then show ?case by (simp add: case_prod_unfold)
next
  case (Cons e es)
  have "edges_Delete t (e_FromNodeID e) (e_ToNodeID e) db =
      db\<lparr>gd_edges := filter (\<lambda>(k, e'). \<not> (k = t \<and> e' = e)) (gd_edges db)\<rparr>"
    by (auto simp: edges_Delete_def intro!: arg_cong [of _ _ "\<lambda>es. db\<lparr>gd_edges := es\<rparr>"] filter_cong)
  then show ?case
    by (auto simp: Cons.IH intro!: arg_cong [of _ _ "\<lambda>es. run_tx ws (db\<lparr>gd_edges := es\<rparr>)"] filter_cong)
qed

lemma remove_node_moves:
  assumes db: "db_ok db" and ws: "svc_RemoveNode wall i db = Ok ws" and tx: "run_tx ws db = Ok db'"
  shows "\<exists>t. map_option n_graphID (map_of (gd_nodes db) i) = Some t \<and>
    db_moves (at_graph t (graph_execs wall [GRemoveNode i])) db db'"
proof -
  obtain n h g2 where n: "map_of (gd_nodes db) i = Some n"
    and h: "map_of (gd_graphs db) (n_graphID n) = Some h"
    and rem: "graph_RemoveNode wall i (stored_graph db h) = Ok g2"
    and w: "ws = map (\<lambda>e. DeleteEdge (n_graphID n) (e_FromNodeID e) (e_ToNodeID e))
        (filter (\<lambda>e. e_FromNodeID e = i \<or> e_ToNodeID e = i) (g_edges (stored_graph db h))) @ [DeleteNode i]"
    using ws
    by (auto simp: svc_RemoveNode_def nodes_FindByID_ok [OF db] loadGraph_ok [OF db] Let_def
        split: option.splits sum.splits)
  let ?t = "n_graphID n"
  note t = db_graph(1) [OF db h] and hid = db_graph(2) [OF db h]
  have g2: "g2 = graph_touch wall wall ((stored_graph db h)\<lparr>g_nodes := AList.delete i (g_nodes (stored_graph db h)),
      g_edges := filter (\<lambda>e. e_FromNodeID e \<noteq> i \<and> e_ToNodeID e \<noteq> i) (g_edges (stored_graph db h))\<rparr>)"
    using rem by (auto simp: graph_RemoveNode_def split: if_splits option.splits)
  have find: "FindNode g2 j = (if j = i then None else FindNode (stored_graph db h) j)" for j
    by (simp add: g2)
  have edges2: "set (g_edges g2) = {e. (?t, e) \<in> set (gd_edges db) \<and> e_FromNodeID e \<noteq> i \<and> e_ToNodeID e \<noteq> i}"
    using stored_edges [of db h] hid by (auto simp: g2 graph_touch_def)
  have ident: "graph_identity g2 = graph_identity h"
    by (simp add: g2 graph_identity_def graph_touch_def)
  have tx': "db' = nodes_Delete i (db\<lparr>gd_edges := filter (\<lambda>(k, e). \<not> (k = ?t \<and>
      e \<in> set (filter (\<lambda>e. e_FromNodeID e = i \<or> e_ToNodeID e = i) (g_edges (stored_graph db h))))) (gd_edges db)\<rparr>)"
    using tx unfolding w tx_delete_edges by simp
  have keep: "gd_graphs db' = gd_graphs db" "gd_nodes db' = AList.delete i (gd_nodes db)"
    by (simp_all add: tx' nodes_Delete_def)
  have edges: "(k, e) \<in> set (gd_edges db') \<longleftrightarrow> (k, e) \<in> set (gd_edges db) \<and> e_FromNodeID e \<noteq> i \<and> e_ToNodeID e \<noteq> i"
    for k e
    by (auto simp: tx' nodes_Delete_def)
  have d: "distinct (gd_edges db')" using t by (simp add: tx' nodes_Delete_def tables_ok_def)
  have t': "tables_ok db'"
    using t d unfolding tables_ok_def keep edges delete_conv'
    by (auto simp: distinct_delete)
  have frame: "e_FromNodeID e \<noteq> i \<and> e_ToNodeID e \<noteq> i" if e: "(k, e) \<in> set (gd_edges db)" "k \<noteq> ?t" for k e
  proof -
    obtain hk where hk: "map_of (gd_graphs db) k = Some hk" using t e(1) unfolding tables_ok_def by blast
    note id = db_graph(2) [OF db hk]
    have "e \<in> set (g_edges (stored_graph db hk))" using e(1) by (simp add: stored_edges id)
    then have "(e_FromNodeID e, e_ToNodeID e) \<in> edge_rel (g_edges (stored_graph db hk))"
      by (auto simp: edge_rel_def edge_pair_def)
    with db_graph(3) [OF db hk] have "FindNode (stored_graph db hk) (e_FromNodeID e) \<noteq> None"
      "FindNode (stored_graph db hk) (e_ToNodeID e) \<noteq> None"
      by (auto simp: wf_defs)
    then show ?thesis using n e(2) by (auto simp: FindNode_stored [OF t] id)
  qed
  have same: "same_graph (stored_graph db' h) g2"
    by (rule same_storedI [OF t'])
      (use ident hid in \<open>auto simp: find keep delete_conv' FindNode_stored [OF t] edges edges2 graph_identity_def\<close>)
  have ok: "graph_execs wall [GRemoveNode i] (stored_graph db h) = Ok g2" using rem by simp
  have "db_moves (at_graph ?t (graph_execs wall [GRemoveNode i])) db db'"
    by (rule movesI [where t = ?t and f = "graph_execs wall [GRemoveNode i]" and h' = h,
        OF db t' h ok _ _ same])
      (use h n frame db_graph(5) [OF db h] in \<open>auto simp: keep edges delete_conv'\<close>)
  with n show ?thesis by auto
qed

lemma new_graph_nodes:
  assumes "NewGraph wall inp = Ok g" "FindNode g i = Some n"
  shows "n_graphID n = gi_ID inp" "g_id g = gi_ID inp" "g_edges g = []"
  using assms
  by (auto simp: NewGraph_def Let_def FindNode_def NewNode_def control_input_def
      split: if_splits sum.splits)

lemma create_graph_moves:
  assumes db: "db_ok db" and ws: "svc_CreateGraph nord wall now i planID = Ok ws" and tx: "run_tx ws db = Ok db'"
  shows "db_ok db' \<and>
    (\<forall>gid h. map_of (gd_graphs db) gid = Some h \<longrightarrow>
       map_of (gd_graphs db') gid = Some h \<and> same_graph (stored_graph db' h) (stored_graph db h))"
proof -
  obtain g where g: "NewGraph wall \<lparr>gi_ID = i, gi_PlanID = planID, gi_StartNodeID = [], gi_EndNodeID = [],
      gi_CreatedAt = now\<rparr> = Ok g" and w: "ws = SaveGraph g # map SaveNode (graph_Nodes nord g)"
    using ws by (auto simp: svc_CreateGraph_def split: sum.splits)
  have wf: "graph_wf g" by (rule NewGraph_wf [OF g])
  obtain n0 where n0: "FindNode g (g_startNode g) = Some n0" using wf by (auto simp: wf_defs)
  note gid = new_graph_nodes(2) [OF g n0, simplified] and noedges = new_graph_nodes(3) [OF g n0]
  let ?h = "g\<lparr>g_nodes := [], g_edges := []\<rparr>"
  define db1 where "db1 = db\<lparr>gd_graphs := AList.update i ?h (gd_graphs db)\<rparr>"
  have fresh: "map_of (gd_graphs db) i = None" and tx1: "run_tx (map SaveNode (graph_Nodes nord g) @ []) db1 = Ok db'"
    using tx by (auto simp: w graphs_Save_def gid db1_def split: if_splits)
  have t: "tables_ok db" using db by (simp add: db_ok_def)
  have hdr: "map_of (gd_graphs db1) k = (if k = i then Some ?h else map_of (gd_graphs db) k)" for k
    by (simp add: db1_def update_conv')
  have "distinct (map fst (gd_graphs db1))"
    using t unfolding db1_def tables_ok_def by (simp add: distinct_update)
  moreover have "g_id k = j" if "map_of (gd_graphs db1) j = Some k" for j k
    using that tables_facts(1) [OF t, of j k] gid by (auto simp: hdr split: if_splits)
  moreover have "map_of (gd_graphs db1) k \<noteq> None" if "map_of (gd_graphs db) k \<noteq> None" for k
    using that by (simp add: hdr)
  ultimately have t1: "tables_ok db1"
    using t unfolding tables_ok_def by (simp add: db1_def)
  obtain rows where rows1: "run_tx [] (db1\<lparr>gd_nodes := rows\<rparr>) = Ok db'" "tables_ok (db1\<lparr>gd_nodes := rows\<rparr>)"
    and rows: "\<And>j n. map_of rows j = Some n \<longleftrightarrow>
      map_of (gd_nodes db1) j = Some n \<or> n \<in> set (graph_Nodes nord g) \<and> n_id n = j"
    by (rule tx_save_nodes [OF t1 tx1]) (rule that)
  have db': "db' = db1\<lparr>gd_nodes := rows\<rparr>" "tables_ok db'" using rows1 by auto
  have new: "n \<in> set (graph_Nodes nord g) \<and> n_id n = j \<longleftrightarrow> FindNode g j = Some n" for n j
    using graph_Nodes_wf [OF wf, of n] wf_node(1) [OF wf, of j n] by auto
  have rows': "map_of rows j = Some n \<longleftrightarrow> map_of (gd_nodes db) j = Some n \<or> FindNode g j = Some n" for j n
    unfolding rows new by (simp add: db1_def)
  have graph_of_new: "n_graphID n = i" if "FindNode g j = Some n" for n j
    using new_graph_nodes(1) [OF g that] by simp
  have old: "n_graphID n \<noteq> i" if "map_of (gd_nodes db) j = Some n" for j n
    using tables_facts(3) [OF t that] fresh by auto
  have noold: "(i, e) \<notin> set (gd_edges db)" for e using t fresh unfolding tables_ok_def by blast
  have same_new: "same_graph (stored_graph db' ?h) g"
    by (rule same_storedI [OF db'(2)])
      (use gid noedges noold old graph_of_new in
        \<open>auto simp: graph_identity_def db'(1) rows' db1_def dest: graph_of_new\<close>)
  have same_old: "same_graph (stored_graph db' h) (stored_graph db h)" if h: "map_of (gd_graphs db) k = Some h" for k h
  proof -
    have k: "g_id h \<noteq> i" using db_graph(2) [OF db h] h fresh by auto
    show ?thesis
      by (rule same_storedI [OF db'(2)])
        (use k in \<open>auto simp: graph_identity_def FindNode_stored [OF t] db'(1) db1_def rows' stored_edges
          dest: graph_of_new\<close>)
  qed
  have "graph_wf (stored_graph db' h)" if "map_of (gd_graphs db') k = Some h" for k h
  proof (cases "k = i")
    case True
    then have "h = ?h" using that by (simp add: db'(1) hdr)
    with same_graph_wf [OF same_new wf stored_distinct [OF db'(2)]] wf show ?thesis
      by (simp add: graph_wf_def)
  next
    case False
    then have h: "map_of (gd_graphs db) k = Some h" using that by (simp add: db'(1) hdr)
    from same_graph_wf [OF same_old [OF h] db_graph(3) [OF db h] stored_distinct [OF db'(2)]]
      db_graph(5) [OF db h] show ?thesis by simp
  qed
  with db'(2) same_old fresh show ?thesis by (auto simp: db_ok_def db'(1) hdr)
qed

subsection \<open>Properties\<close>

definition svc_model :: "time \<Rightarrow> time \<Rightarrow> svc_op \<Rightarrow> graph_db \<Rightarrow> graph_id \<Rightarrow> graph \<Rightarrow> graph \<Rightarrow> bool" where
  "svc_model wall now op db gid g g2 \<longleftrightarrow>
     (if svc_target op db = Some gid then graph_execs wall (svc_calls now op db) g = Ok g2 else g2 = g)"

lemma svc_model_at:
  assumes "svc_target op db = Some t" "db_moves (at_graph t (graph_execs wall (svc_calls now op db))) db db'"
  shows "db_moves (svc_model wall now op db) db db'"
proof -
  have "svc_model wall now op db = at_graph t (graph_execs wall (svc_calls now op db))"
    using assms(1) by (auto simp: svc_model_def at_graph_def fun_eq_iff)
  with assms(2) show ?thesis by simp
qed

lemma svc_model_ex:
  "\<exists>t. svc_target op db = Some t \<and> db_moves (at_graph t (graph_execs wall (svc_calls now op db))) db db' \<Longrightarrow>
   db_moves (svc_model wall now op db) db db'"
  using svc_model_at by blast

lemma header_execs:
  "graph_execs wall [GStart now] = graph_transition GraphRunning wall now"
  "graph_execs wall [GFinish now] = graph_transition GraphDone wall now"
  by (rule ext, simp add: graph_Start_def graph_Finish_def)+

lemma svc_node_moves:
  assumes "db_ok db" "svc_prepare wall now op db = Ok ws" "run_tx ws db = Ok db'"
    and "svc_prepare wall now op db = change_node i f db" "svc_target op db = map_option n_graphID (map_of (gd_nodes db) i)"
    and "svc_calls now op db = [GNode i c]"
    and "\<And>n. map_of (gd_nodes db) i = Some n \<Longrightarrow> f n = node_exec wall c n"
  shows "db_moves (svc_model wall now op db) db db'"
  using node_call_moves [OF assms(1) _ assms(3,7), of i] assms(2,4-6)
  by (intro svc_model_ex) (simp del: graph_execs_single)

lemma svc_moves:
  assumes db: "db_ok db" and ws: "svc_prepare wall now op db = Ok ws" and tx: "run_tx ws db = Ok db'"
    and "\<nexists>nord i planID. op = SCreateGraph nord i planID"
  shows "db_moves (svc_model wall now op db) db db'"
proof (cases op)
  case (SCreateGraph nord i planID)
  with assms(4) show ?thesis by blast
next
  case (SStartGraph gid)
  then show ?thesis
    using header_moves [OF db _ tx] ws
    by (intro svc_model_at [of _ _ gid])
      (simp_all add: svc_StartGraph_def graph_Start_def [abs_def] header_execs del: graph_execs_single)
next
  case (SFinishGraph gid)
  then show ?thesis
    using header_moves [OF db _ tx] ws
    by (intro svc_model_at [of _ _ gid])
      (simp_all add: svc_FinishGraph_def graph_Finish_def [abs_def] header_execs del: graph_execs_single)
next
  case (SAddNode gid i c k title meta)
  then show ?thesis using add_node_moves [OF db _ tx] ws by (intro svc_model_at [of _ _ gid]) auto
next
  case (SRemoveNode i)
  then show ?thesis using remove_node_moves [OF db _ tx, of wall i] ws
    by (intro svc_model_ex) (simp del: graph_execs_single)
next
  case (SUpdateNode i title meta)
  then show ?thesis using update_node_moves [OF db _ tx, of wall now i title meta] ws
    by (intro svc_model_ex) (simp del: graph_execs_single)
next
  case (SStartNode i)
  then show ?thesis
    by (intro svc_node_moves [OF db ws tx, of i "node_Start wall now" "NStart now"]) (simp_all add: svc_StartNode_def)
next
  case (SCompleteNode i outcome)
  then show ?thesis
    by (intro svc_node_moves [OF db ws tx, of i "node_Complete outcome wall now" "NComplete outcome now"])
      (simp_all add: svc_CompleteNode_def)
next
  case (SReopenNode i why)
  then show ?thesis
    by (intro svc_node_moves [OF db ws tx, of i "node_Reopen why wall now" "NReopen why now"])
      (simp_all add: svc_ReopenNode_def)
next
  case (SDiscardNode i)
  then show ?thesis
    by (intro svc_node_moves [OF db ws tx, of i "node_Discard wall now" "NDiscard now"])
      (simp_all add: svc_DiscardNode_def)
next
  case (SResolve ord nord i result)
  then show ?thesis using resolve_moves [OF db _ tx, of ord nord wall now i result] ws
    by (intro svc_model_ex) (simp del: graph_execs_single)
next
  case (SAddEdge ord gid frm to)
  then show ?thesis using add_edge_moves [OF db _ tx] ws by (intro svc_model_at [of _ _ gid]) auto
next
  case (SRemoveEdge gid frm to)
  then have "db' = edges_Delete gid frm to db" using ws tx by (auto simp: svc_RemoveEdge_def)
  then show ?thesis using SRemoveEdge remove_edge_moves [OF db] by (intro svc_model_at [of _ _ gid]) auto
next
  case (SBindTask i taskID)
  then show ?thesis
    by (intro svc_node_moves [OF db ws tx, of i _
          "NSetMetadata (AList.update ''task_id'' (AnyString taskID) (row_metadata i db)) now"])
      (auto simp: svc_BindTask_def row_metadata_def)
next
  case (SUnbindTask i)
  then show ?thesis
    by (intro svc_node_moves [OF db ws tx, of i _
          "NSetMetadata (AList.delete ''task_id'' (row_metadata i db)) now"])
      (auto simp: svc_UnbindTask_def row_metadata_def)
qed

lemma svc_model_wf: "svc_model wall now op db gid g g2 \<Longrightarrow> graph_wf g \<Longrightarrow> graph_wf g2"
  using graph_execs_wf by (auto simp: svc_model_def split: if_splits)

lemma svc_exec_moves:
  assumes db: "db_ok db" and ex: "svc_exec (wall, now, op) db = Ok db'"
  shows "db_ok db' \<and>
    (\<forall>gid h. map_of (gd_graphs db) gid = Some h \<longrightarrow>
       (\<exists>h' g2. map_of (gd_graphs db') gid = Some h' \<and> svc_model wall now op db gid (stored_graph db h) g2 \<and>
          same_graph (stored_graph db' h') g2))"
proof -
  obtain ws where ws: "svc_prepare wall now op db = Ok ws" and tx: "run_tx ws db = Ok db'"
    using ex by (auto split: sum.splits)
  show ?thesis
  proof (cases "\<exists>nord i planID. op = SCreateGraph nord i planID")
    case True
    then obtain nord i planID where op: "op = SCreateGraph nord i planID" by blast
    show ?thesis
      using create_graph_moves [OF db _ tx, of nord wall now i planID] ws op by (auto simp: svc_model_def)
  next
    case False
    then have moves: "db_moves (svc_model wall now op db) db db'" using svc_moves [OF db ws tx] by blast
    have "db_ok db'" by (rule db_moves_ok [OF db moves svc_model_wf])
    with moves show ?thesis unfolding db_moves_def by blast
  qed
qed

text \<open>A history of calls keeps the invariant and never loses a graph.\<close>

definition db_grows :: "graph_db \<Rightarrow> graph_db \<Rightarrow> bool" where
  "db_grows db db' \<longleftrightarrow> (db_ok db \<longrightarrow> db_ok db' \<and>
     (\<forall>gid. map_of (gd_graphs db) gid \<noteq> None \<longrightarrow> map_of (gd_graphs db') gid \<noteq> None))"

interpretation orch_service: history svc_exec db_grows
proof unfold_locales
  show "db_grows s s'" if "svc_exec op s = Ok s'" for op s s'
  proof -
    obtain wall now c where op: "op = (wall, now, c)" by (cases op)
    with that svc_exec_moves [of s wall now c s'] show ?thesis by (fastforce simp: db_grows_def)
  qed
qed (auto simp: db_grows_def)

lemma db_ok_run: "db_ok (run_ops svc_exec calls empty_graph_db)"
proof -
  have "db_ok empty_graph_db" by (simp add: db_ok_def tables_ok_def empty_graph_db_def)
  with orch_service.run_rel show ?thesis by (auto simp: db_grows_def)
qed

text \<open>
  C7: the service refines the graph model.  After any sequence of calls, every graph that can
  be loaded is sound, and a call that succeeds without interference moves the graph it is
  about as the calls of the aggregate do that it stands for, all of which succeed, up to the
  version, \<open>updated_at\<close> and the order of rows; every other graph stays as it was.
\<close>

theorem service_refines_graph:
  assumes "db = run_ops svc_exec calls empty_graph_db" "svc_exec (wall, now, op) db = Ok db'"
    and "loadGraph gid db = Ok g"
  shows "graph_wf g \<and> (\<exists>g' g2. loadGraph gid db' = Ok g' \<and> same_graph g' g2 \<and>
    (if svc_target op db = Some gid then graph_execs wall (svc_calls now op db) g = Ok g2 else g2 = g))"
proof -
  have db: "db_ok db" using db_ok_run assms(1) by simp
  note moves = svc_exec_moves [OF db assms(2)]
  obtain h where h: "map_of (gd_graphs db) gid = Some h" "g = stored_graph db h"
    using assms(3) by (auto simp: loadGraph_ok [OF db] split: option.splits)
  with moves obtain h' g2 where "map_of (gd_graphs db') gid = Some h'"
    "svc_model wall now op db gid g g2" "same_graph (stored_graph db' h') g2" by blast
  moreover have "graph_wf g" using db_graph(3) [OF db h(1)] h(2) by simp
  ultimately show ?thesis using moves by (auto simp: loadGraph_ok svc_model_def)
qed

lemma edge_rel_mem: "e \<in> set es \<Longrightarrow> (e_FromNodeID e, e_ToNodeID e) \<in> edge_rel es"
  by (auto simp: edge_rel_def edge_pair_def)

text \<open>
  C11: two edges added at the same time can close a cycle.  The cycle check of \<open>AddEdge\<close> runs
  on a graph that is read before the transaction.  When one call adds an edge and another the
  opposite edge and both have read the graph before either writes, both transactions commit:
  the stored graph has a cycle, and its version counts one of the two changes only.
\<close>

theorem concurrent_edges_cycle:
  assumes "db = run_ops svc_exec calls empty_graph_db" "loadGraph gid db = Ok g"
    and "svc_AddEdge ord1 wall1 gid a b db = Ok ws1" "svc_AddEdge ord2 wall2 gid b a db = Ok ws2"
  shows "\<exists>db1 db2 g2. run_tx ws1 db = Ok db1 \<and> run_tx ws2 db1 = Ok db2 \<and> loadGraph gid db2 = Ok g2 \<and>
    \<not> acyclic (edge_rel (g_edges g2)) \<and> g_version g2 = g_version g + 1"
proof -
  let ?ab = "\<lparr>e_FromNodeID = a, e_ToNodeID = b\<rparr>" and ?ba = "\<lparr>e_FromNodeID = b, e_ToNodeID = a\<rparr>"
  have db: "db_ok db" using db_ok_run assms(1) by simp
  obtain h where h: "map_of (gd_graphs db) gid = Some h" and g: "g = stored_graph db h"
    using assms(2) by (auto simp: loadGraph_ok [OF db] split: option.splits)
  note t = db_graph(1) [OF db h] and hid = db_graph(2) [OF db h]
  define touched where
    "touched = (\<lambda>wall e. graph_touch wall wall (g\<lparr>g_edges := g_edges g @ [e]\<rparr>))"
  have one: "ws1 = [SaveEdge gid ?ab, UpdateGraph (touched wall1 ?ab)]"
    and ends: "FindNode g a \<noteq> None" "FindNode g b \<noteq> None" and fresh1: "?ab \<notin> set (g_edges g)"
    and acyc: "graph_ValidateNoCycle ord1 (g_edges g) ?ab = None"
    using assms(3)
    by (auto simp: svc_AddEdge_def assms(2) graph_AddEdge_def Let_def list_ex_iff touched_def
        split: if_splits option.splits sum.splits)
  have two: "ws2 = [SaveEdge gid ?ba, UpdateGraph (touched wall2 ?ba)]" and fresh2: "?ba \<notin> set (g_edges g)"
    using assms(4)
    by (auto simp: svc_AddEdge_def assms(2) graph_AddEdge_def Let_def list_ex_iff touched_def
        split: if_splits option.splits sum.splits)
  have neq: "a \<noteq> b" using acyc by (auto simp: graph_ValidateNoCycle_None edge_pair_def acyclic_def)
  have rows: "map_of (gd_nodes db) a \<noteq> None" "map_of (gd_nodes db) b \<noteq> None"
    using ends by (auto simp: g FindNode_stored [OF t])
  have new: "(gid, ?ab) \<notin> set (gd_edges db)" "(gid, ?ba) \<notin> set (gd_edges db)"
    using fresh1 fresh2 stored_edges [of db h] by (auto simp: g hid)
  define hdr where "hdr = (\<lambda>wall e (r :: graph). r\<lparr>g_planID := g_planID (touched wall e), g_status := g_status (touched wall e),
      g_updatedAt := g_updatedAt (touched wall e), g_version := g_version (touched wall e)\<rparr>)"
  let ?db1 = "db\<lparr>gd_edges := gd_edges db @ [(gid, ?ab)],
      gd_graphs := AList.update gid (hdr wall1 ?ab h) (gd_graphs db)\<rparr>"
  let ?h2 = "hdr wall2 ?ba (hdr wall1 ?ab h)"
  let ?db2 = "?db1\<lparr>gd_edges := gd_edges ?db1 @ [(gid, ?ba)],
      gd_graphs := AList.update gid ?h2 (gd_graphs ?db1)\<rparr>"
  have id: "g_id (touched w e) = gid" for w e by (simp add: touched_def graph_touch_def g hid)
  have tx1: "run_tx ws1 db = Ok ?db1"
    using new rows h by (simp add: one edges_Save_def graphs_Update_def id hdr_def)
  have tx2: "run_tx ws2 ?db1 = Ok ?db2"
    using new rows neq by (simp add: two edges_Save_def graphs_Update_def id hdr_def update_conv')
  have h2: "map_of (gd_graphs ?db2) gid = Some ?h2" by (simp add: update_conv')
  have facts: "g_id ?h2 = gid" "g_status ?h2 = g_status h" "g_version ?h2 = g_version h + 1"
    by (simp_all add: hdr_def touched_def graph_touch_def g hid)
  have "loadGraph gid ?db2 = Ok (stored_graph ?db2 ?h2)"
    by (rule loadGraph_rows [OF h2 facts(1)])
      (use facts db_graph(4,5) [OF db h] db_row_ok [OF db, of _ gid] in \<open>simp_all add: node_rows_def\<close>)
  moreover have "?ab \<in> set (g_edges (stored_graph ?db2 ?h2))" "?ba \<in> set (g_edges (stored_graph ?db2 ?h2))"
    by (simp_all add: stored_edges facts(1))
  then have "(a, b) \<in> edge_rel (g_edges (stored_graph ?db2 ?h2))"
    "(b, a) \<in> edge_rel (g_edges (stored_graph ?db2 ?h2))"
    by (auto dest!: edge_rel_mem)
  then have "(a, a) \<in> (edge_rel (g_edges (stored_graph ?db2 ?h2)))\<^sup>+" by (meson trancl.simps)
  then have "\<not> acyclic (edge_rel (g_edges (stored_graph ?db2 ?h2)))" by (auto simp: acyclic_def)
  ultimately show ?thesis
    using tx1 tx2 facts(3) g by (intro exI [of _ ?db1] exI [of _ ?db2] exI [of _ "stored_graph ?db2 ?h2"]) auto
qed

subsection \<open>Witnesses\<close>

text \<open>A graph with two nodes, built by the service.\<close>

definition service_calls :: "(time \<times> time \<times> svc_op) list" where
  "service_calls = map (\<lambda>op. (9, 10, op))
     [SCreateGraph id ''g1'' ''p1'',
      SAddNode ''g1'' ''dev'' NodeCategoryBusiness (ControlKindOther []) ''dev'' [],
      SAddNode ''g1'' ''test'' NodeCategoryBusiness (ControlKindOther []) ''test'' []]"

definition service_node :: "node_id \<Rightarrow> node_category \<Rightarrow> control_kind \<Rightarrow> gostring \<Rightarrow> node_id \<times> graph_node" where
  "service_node i c k title = (i, \<lparr>n_id = i, n_graphID = ''g1'', n_category = c, n_controlKind = k,
     n_title = title, n_status = NodeOpen, n_outcome = [], n_metadata = [], n_actionLogs = [],
     n_createdAt = 10, n_updatedAt = 10, n_version = 1\<rparr>)"

definition service_db :: graph_db where
  "service_db = \<lparr>gd_graphs = [(''g1'', \<lparr>g_id = ''g1'', g_planID = ''p1'', g_status = GraphDraft, g_nodes = [],
       g_edges = [], g_startNode = ''g1:start'', g_endNode = ''g1:end'', g_createdAt = 10, g_updatedAt = 10,
       g_version = 3\<rparr>)],
     gd_nodes = [service_node ''g1:start'' NodeCategoryControl ControlKindStart ''Start'',
       service_node ''g1:end'' NodeCategoryControl ControlKindEnd ''End'',
       service_node ''dev'' NodeCategoryBusiness (ControlKindOther []) ''dev'',
       service_node ''test'' NodeCategoryBusiness (ControlKindOther []) ''test''],
     gd_edges = []\<rparr>"

lemma service_db_history: "service_db = run_ops svc_exec service_calls empty_graph_db"
  by code_simp

definition service_after :: "svc_op \<Rightarrow> graph_db" where
  "service_after op = (case svc_exec (11, 12, op) service_db of Ok db \<Rightarrow> db | Err _ \<Rightarrow> empty_graph_db)"

lemma service_db_loads: "\<exists>g. loadGraph ''g1'' service_db = Ok g"
proof -
  have "\<not> isl (loadGraph ''g1'' service_db)" by code_simp
  then show ?thesis by (cases "loadGraph ''g1'' service_db") auto
qed

lemma service_db_edges:
  "\<exists>ws. svc_AddEdge id 11 ''g1'' ''dev'' ''test'' service_db = Ok ws"
  "\<exists>ws. svc_AddEdge id 12 ''g1'' ''test'' ''dev'' service_db = Ok ws"
proof -
  have "\<not> isl (svc_AddEdge id 11 ''g1'' ''dev'' ''test'' service_db)" by code_simp
  then show "\<exists>ws. svc_AddEdge id 11 ''g1'' ''dev'' ''test'' service_db = Ok ws"
    by (cases "svc_AddEdge id 11 ''g1'' ''dev'' ''test'' service_db") auto
  have "\<not> isl (svc_AddEdge id 12 ''g1'' ''test'' ''dev'' service_db)" by code_simp
  then show "\<exists>ws. svc_AddEdge id 12 ''g1'' ''test'' ''dev'' service_db = Ok ws"
    by (cases "svc_AddEdge id 12 ''g1'' ''test'' ''dev'' service_db") auto
qed

theorem service_refines_graph_witness:
  "svc_exec (11, 12, SAddEdge id ''g1'' ''dev'' ''test'') service_db =
     Ok (service_after (SAddEdge id ''g1'' ''dev'' ''test'')) \<and>
   (\<exists>g g' g2. loadGraph ''g1'' service_db = Ok g \<and> graph_wf g \<and>
      loadGraph ''g1'' (service_after (SAddEdge id ''g1'' ''dev'' ''test'')) = Ok g' \<and> same_graph g' g2 \<and>
      graph_execs 11 [GAddEdge id ''dev'' ''test''] g = Ok g2)"
proof -
  let ?op = "SAddEdge id ''g1'' ''dev'' ''test''"
  have "\<not> isl (svc_exec (11, 12, ?op) service_db)" by code_simp
  then have ex: "svc_exec (11, 12, ?op) service_db = Ok (service_after ?op)"
    by (cases "svc_exec (11, 12, ?op) service_db") (auto simp: service_after_def)
  obtain g where g: "loadGraph ''g1'' service_db = Ok g" using service_db_loads by blast
  show ?thesis
    using service_refines_graph [OF service_db_history ex g] ex g by auto
qed

theorem concurrent_edges_cycle_witness:
  "\<exists>ws1 ws2 db1 db2 g2. svc_AddEdge id 11 ''g1'' ''dev'' ''test'' service_db = Ok ws1 \<and>
     svc_AddEdge id 12 ''g1'' ''test'' ''dev'' service_db = Ok ws2 \<and>
     run_tx ws1 service_db = Ok db1 \<and> run_tx ws2 db1 = Ok db2 \<and> loadGraph ''g1'' db2 = Ok g2 \<and>
     \<not> acyclic (edge_rel (g_edges g2))"
proof -
  obtain g ws1 ws2 where ok: "loadGraph ''g1'' service_db = Ok g"
    "svc_AddEdge id 11 ''g1'' ''dev'' ''test'' service_db = Ok ws1"
    "svc_AddEdge id 12 ''g1'' ''test'' ''dev'' service_db = Ok ws2"
    using service_db_loads service_db_edges by blast
  then show ?thesis
    using concurrent_edges_cycle [OF service_db_history ok] ok by blast
qed

end
