(* ===== verification/Topo_Sort.thy ===== *)
theory Topo_Sort
  imports AC_Prelude "HOL-Library.Multiset"
begin

section \<open>Kahn's algorithm\<close>

text \<open>
  The topological count that the proposal compiler of \<open>remediation.go\<close> runs: a queue of the
  nodes without open prerequisites, kept sorted, and the in-degree of every node.  The result
  is the number of nodes that could be taken; it reaches the number of nodes exactly when the
  edges are acyclic.
\<close>

fun relax :: "('a::linorder \<Rightarrow> int) \<Rightarrow> 'a list \<Rightarrow> 'a list \<Rightarrow> ('a \<Rightarrow> int) \<times> 'a list" where
  "relax indeg queue [] = (indeg, queue)"
| "relax indeg queue (n # ns) =
     (let indeg' = indeg(n := indeg n - 1) in
      if indeg' n = 0 then relax indeg' (sort (queue @ [n])) ns else relax indeg' queue ns)"

definition open_degrees :: "('a, 'a) multimap \<Rightarrow> ('a \<Rightarrow> int) \<Rightarrow> nat" where
  "open_degrees adj indeg = (\<Sum>n \<in> set (concat (map snd adj)). nat (indeg n))"

lemma relax_measure:
  assumes "finite U" "set ns \<subseteq> U" "relax indeg queue ns = (indeg', queue')"
  shows "2 * (\<Sum>n \<in> U. nat (indeg' n)) + length queue' \<le> 2 * (\<Sum>n \<in> U. nat (indeg n)) + length queue"
  using assms(2,3)
proof (induction ns arbitrary: indeg queue)
  case Nil
  then show ?case by simp
next
  case (Cons n ns)
  let ?i = "indeg(n := indeg n - 1)"
  have n: "n \<in> U" "set ns \<subseteq> U" using Cons.prems(1) by auto
  have sums: "(\<Sum>m \<in> U. nat (?i m)) = nat (?i n) + (\<Sum>m \<in> U - {n}. nat (indeg m))"
    "(\<Sum>m \<in> U. nat (indeg m)) = nat (indeg n) + (\<Sum>m \<in> U - {n}. nat (indeg m))"
    using assms(1) n(1) by (auto simp: sum.remove [of U n] intro!: sum.cong)
  show ?case
  proof (cases "?i n = 0")
    case True
    with Cons.prems have "relax ?i (sort (queue @ [n])) ns = (indeg', queue')" by (simp add: Let_def)
    from Cons.IH [OF n(2) this] sums True show ?thesis by simp
  next
    case False
    with Cons.prems have "relax ?i queue ns = (indeg', queue')" by (simp add: Let_def)
    from Cons.IH [OF n(2) this] sums show ?thesis by simp
  qed
qed

function kahn :: "('a::linorder, 'a) multimap \<Rightarrow> ('a \<Rightarrow> int) \<Rightarrow> 'a list \<Rightarrow> nat \<Rightarrow> nat" where
  "kahn adj indeg [] seen = seen"
| "kahn adj indeg (r # queue) seen =
     (case relax indeg queue (mm_get adj r) of
        (indeg', queue') \<Rightarrow> kahn adj indeg' queue' (Suc seen))"
  by pat_completeness auto
termination
proof (relation "measure (\<lambda>(adj, indeg, queue, seen). 2 * open_degrees adj indeg + length queue)", goal_cases)
  case (2 adj indeg r queue seen indeg' queue')
  then have "relax indeg queue (mm_get adj r) = (indeg', queue')" by simp
  moreover have "set (mm_get adj r) \<subseteq> set (concat (map snd adj))" by (blast intro: mm_get_in_concat)
  ultimately show ?case
    using relax_measure [of "set (concat (map snd adj))"] by (fastforce simp: open_degrees_def)
qed simp

subsection \<open>The effect of taking a node\<close>

lemma relax_indeg: "fst (relax indeg queue ns) n = indeg n - int (count_list ns n)"
  by (induction ns arbitrary: indeg queue) (simp_all add: Let_def fun_upd_def)

lemma relax_queue:
  "mset (snd (relax indeg queue ns)) =
   mset queue + mset_set {n \<in> set ns. 0 < indeg n \<and> indeg n \<le> int (count_list ns n)}"
proof (induction indeg queue ns rule: relax.induct)
  case (1 indeg queue)
  then show ?case by simp
next
  case (2 indeg queue n ns)
  define i where "i = indeg(n := indeg n - 1)"
  let ?S = "\<lambda>i ns. {m \<in> set ns. 0 < i m \<and> i m \<le> int (count_list ns m)}"
  have i: "i n = indeg n - 1" "\<And>m. m \<noteq> n \<Longrightarrow> i m = indeg m" by (simp_all add: i_def)
  have rest: "m \<noteq> n \<Longrightarrow> m \<in> ?S i ns \<longleftrightarrow> m \<in> ?S indeg (n # ns)" for m
    by (simp add: i)
  show ?case
  proof (cases "i n = 0")
    case True
    have out: "n \<notin> ?S i ns" and here: "n \<in> ?S indeg (n # ns)" using True i by auto
    have "?S indeg (n # ns) = insert n (?S i ns)"
    proof (rule set_eqI)
      show "m \<in> ?S indeg (n # ns) \<longleftrightarrow> m \<in> insert n (?S i ns)" for m
        using rest [of m] here by (cases "m = n") simp_all
    qed
    then have "mset_set (?S indeg (n # ns)) = add_mset n (mset_set (?S i ns))"
      using out by simp
    moreover have "relax indeg queue (n # ns) = relax i (sort (queue @ [n])) ns"
      using True by (simp add: i_def Let_def)
    ultimately show ?thesis using "2.IH"(1) [OF i_def True] by simp
  next
    case False
    have here: "n \<in> ?S i ns \<longleftrightarrow> n \<in> ?S indeg (n # ns)"
      using False i count_notin [of n ns] by (cases "n \<in> set ns") auto
    have "?S indeg (n # ns) = ?S i ns"
    proof (rule set_eqI)
      show "m \<in> ?S indeg (n # ns) \<longleftrightarrow> m \<in> ?S i ns" for m
        using rest [of m] here by (cases "m = n") simp_all
    qed
    moreover have "relax indeg queue (n # ns) = relax i queue ns"
      using False by (simp add: i_def Let_def)
    ultimately show ?thesis using "2.IH"(2) [OF i_def False] by simp
  qed
qed

subsection \<open>Correctness\<close>

definition open_in :: "('a \<times> 'a) list \<Rightarrow> 'a set \<Rightarrow> 'a \<Rightarrow> nat" where
  "open_in es D n = length (filter (\<lambda>e. snd e = n \<and> fst e \<notin> D) es)"

lemma open_in_0: "open_in es D n = 0 \<longleftrightarrow> (\<forall>a. (a, n) \<in> set es \<longrightarrow> a \<in> D)"
  by (auto simp: open_in_def filter_empty_conv)

lemma open_in_insert:
  "r \<notin> D \<Longrightarrow> open_in es D n = open_in es (insert r D) n + count_list (mm_get (build_adj es) r) n"
  by (induction es) (auto simp: open_in_def)

fun taken_ok :: "('a \<times> 'a) list \<Rightarrow> 'a list \<Rightarrow> bool" where
  "taken_ok es [] \<longleftrightarrow> True"
| "taken_ok es (x # xs) \<longleftrightarrow> x \<notin> set xs \<and> (\<forall>a. (a, x) \<in> set es \<longrightarrow> a \<in> set xs) \<and> taken_ok es xs"

lemma taken_ok_distinct: "taken_ok es xs \<Longrightarrow> distinct xs"
  by (induction xs) auto

lemma taken_ok_closed: "(a, b) \<in> (set es)\<^sup>+ \<Longrightarrow> taken_ok es xs \<Longrightarrow> b \<in> set xs \<Longrightarrow> a \<in> set xs"
proof (induction rule: converse_trancl_induct)
  case (base y)
  then show ?case by (induction xs) auto
next
  case (step y z)
  from step.IH [OF step.prems] step.prems(1) step.hyps(1) show ?case by (induction xs) auto
qed

lemma taken_ok_acyclic: "taken_ok es xs \<Longrightarrow> x \<in> set xs \<Longrightarrow> (x, x) \<notin> (set es)\<^sup>+"
proof (induction xs)
  case (Cons y xs)
  show ?case
  proof (cases "x = y")
    case True
    show ?thesis
    proof
      assume "(x, x) \<in> (set es)\<^sup>+"
      then obtain z where z: "(x, z) \<in> (set es)\<^sup>*" "(z, x) \<in> set es" by (meson tranclD2)
      then have "z \<in> set xs" using Cons.prems(1) True by auto
      with z(1) Cons.prems(1) have "x \<in> set xs"
        using taken_ok_closed [of x z es xs] by (auto simp: rtrancl_eq_or_trancl)
      with Cons.prems(1) True show False by simp
    qed
  next
    case False
    with Cons show ?thesis by simp
  qed
qed simp

definition kahn_inv :: "('a \<times> 'a) list \<Rightarrow> 'a set \<Rightarrow> 'a list \<Rightarrow> ('a \<Rightarrow> int) \<Rightarrow> 'a list \<Rightarrow> bool" where
  "kahn_inv es nodes D indeg queue \<longleftrightarrow>
     (\<forall>n. indeg n = int (open_in es (set D) n)) \<and> taken_ok es D \<and> distinct (queue @ D) \<and>
     set queue \<union> set D = {n \<in> nodes. open_in es (set D) n = 0}"

lemma kahn_inv_step:
  assumes inv: "kahn_inv es nodes D indeg (r # queue)" and edges: "set es \<subseteq> nodes \<times> nodes"
    and relaxed: "relax indeg queue (mm_get (build_adj es) r) = (indeg', queue')"
  shows "kahn_inv es nodes (r # D) indeg' queue'"
proof -
  let ?cs = "mm_get (build_adj es) r"
  let ?new = "{n \<in> set ?cs. 0 < indeg n \<and> indeg n \<le> int (count_list ?cs n)}"
  have r: "r \<notin> set D" "r \<notin> set queue" "r \<in> nodes" "open_in es (set D) r = 0"
    using inv by (auto simp: kahn_inv_def)
  have split: "open_in es (set D) n = open_in es (insert r (set D)) n + count_list ?cs n" for n
    by (rule open_in_insert [OF r(1)])
  have ind: "indeg n = int (open_in es (set D) n)" for n
    using inv by (simp add: kahn_inv_def)
  have new: "n \<in> ?new \<longleftrightarrow> 0 < open_in es (set D) n \<and> open_in es (insert r (set D)) n = 0" for n
    using split [of n] count_notin [of n ?cs] unfolding ind by (cases "n \<in> set ?cs") auto
  have queue': "mset queue' = mset queue + mset_set ?new"
    using relax_queue [of indeg queue ?cs] relaxed by simp
  then have set': "set queue' = set queue \<union> ?new"
    by (simp add: arg_cong [OF queue', of set_mset, unfolded set_mset_mset])
  have old: "set queue \<union> insert r (set D) = {n \<in> nodes. open_in es (set D) n = 0}"
    using inv by (auto simp: kahn_inv_def)
  have "n \<in> nodes" if "n \<in> ?new" for n
    using that edges set_build_adj [of n es r] by auto
  then have "set queue' \<union> set (r # D) = {n \<in> nodes. open_in es (insert r (set D)) n = 0}"
    unfolding set' using old new split by auto
  moreover have "distinct (queue' @ r # D)"
  proof -
    have "x \<notin> ?new" if "x \<in> set queue \<union> insert r (set D)" for x
    proof -
      have "open_in es (set D) x = 0" using that unfolding old by simp
      then show ?thesis unfolding new by simp
    qed
    then have "set queue \<inter> ?new = {}" "?new \<inter> insert r (set D) = {}" by blast+
    moreover have "distinct queue" "set queue \<inter> insert r (set D) = {}" "distinct (r # D)"
      using inv by (auto simp: kahn_inv_def)
    moreover from calculation(1,3) have "distinct queue'"
      by (auto simp: distinct_count_atmost_1 queue' set' count_mset_set')
    ultimately show ?thesis unfolding set' by (auto simp: set')
  qed
  moreover have "indeg' n = int (open_in es (insert r (set D)) n)" for n
    using relax_indeg [of indeg queue ?cs n] relaxed split [of n] by (simp add: ind)
  ultimately show ?thesis
    using inv r by (auto simp: kahn_inv_def open_in_0)
qed

lemma kahn_count:
  assumes "kahn_inv es nodes D indeg queue" "set es \<subseteq> nodes \<times> nodes" "finite nodes"
  shows "kahn (build_adj es) indeg queue (length D) = card nodes \<longleftrightarrow> acyclic (set es)"
  using assms(1)
proof (induction "build_adj es" indeg queue "length D" arbitrary: D rule: kahn.induct)
  case (1 indeg)
  then have D: "set D = {n \<in> nodes. open_in es (set D) n = 0}" and ok: "taken_ok es D"
    by (simp_all add: kahn_inv_def)
  have "length D = card (set D)" using taken_ok_distinct [OF ok] by (simp add: distinct_card)
  moreover have "set D \<subseteq> nodes" using D by blast
  ultimately have "length D = card nodes \<longleftrightarrow> set D = nodes"
    using card_subset_eq [OF assms(3), of "set D"] by auto
  moreover have "set D = nodes \<longleftrightarrow> acyclic (set es)"
  proof
    assume all: "set D = nodes"
    have "(x, x) \<notin> (set es)\<^sup>+" for x
    proof
      assume cyc: "(x, x) \<in> (set es)\<^sup>+"
      then have "x \<in> set D" using assms(2) all by (meson SigmaD1 subsetD tranclD)
      with taken_ok_acyclic [OF ok] cyc show False by blast
    qed
    then show "acyclic (set es)" by (simp add: acyclic_def)
  next
    assume "acyclic (set es)"
    then have wf: "wf (set es)" by (simp add: finite_acyclic_wf)
    show "set D = nodes"
    proof (rule ccontr)
      assume "set D \<noteq> nodes"
      then obtain n where "n \<in> nodes - set D" using \<open>set D \<subseteq> nodes\<close> by blast
      then obtain m where m: "m \<in> nodes - set D" "\<And>a. (a, m) \<in> set es \<Longrightarrow> a \<notin> nodes - set D"
        using wfE_min [OF wf] by metis
      then have "open_in es (set D) m = 0" using assms(2) by (auto simp: open_in_0)
      with m(1) D show False by blast
    qed
  qed
  ultimately show ?case by simp
next
  case (2 indeg r queue)
  obtain indeg' queue' where p: "relax indeg queue (mm_get (build_adj es) r) = (indeg', queue')"
    by force
  have "kahn_inv es nodes (r # D) indeg' queue'"
    by (rule kahn_inv_step [OF 2(2) assms(2) p])
  from 2(1) [OF p [symmetric] _ this] show ?case by (simp add: p del: mm_get_build_adj)
qed

text \<open>The start of the algorithm: the in-degrees of the edges and the nodes without any.\<close>

lemma kahn_correct:
  assumes "set es \<subseteq> nodes \<times> nodes" "finite nodes" "distinct queue"
    and "\<And>n. indeg n = int (length (filter (\<lambda>e. snd e = n) es))"
    and "set queue = {n \<in> nodes. indeg n = 0}"
  shows "kahn (build_adj es) indeg queue 0 = card nodes \<longleftrightarrow> acyclic (set es)"
proof -
  have "kahn_inv es nodes [] indeg queue"
    using assms(3-5) by (simp add: kahn_inv_def open_in_def)
  from kahn_count [OF this assms(1,2)] show ?thesis by simp
qed

end
