(* ===== verification/Remediation.thy ===== *)
theory Remediation
  imports Stage Topo_Sort "HOL-Library.List_Lexorder" "HOL-Library.Char_ord"
begin

section \<open>Remediation of a rejected stage (remediation.go)\<close>

text \<open>
  The immutable verdict of a gate, the continuation that a reject opens and its budget of
  generations, and the pure compiler that validates a remediation proposal.  The boundary
  fingerprint, a SHA-256 of the plan's shape, is data here.
\<close>

subsection \<open>Verdicts\<close>

datatype gate_verdict_outcome = GateVerdictPass | GateVerdictReject | GateVerdictOther gostring

record gate_verdict =
  gv_ID :: verdict_id
  gv_ProjectID :: project_id
  gv_PlanID :: plan_id
  gv_StageID :: stage_id
  gv_GateTaskID :: task_id
  gv_Outcome :: gate_verdict_outcome
  gv_Evidence :: gostring
  gv_ReviewedSHA :: gostring
  gv_ActorRef :: identity_ref
  gv_IdempotencyKey :: gostring
  gv_CreatedAt :: time

definition NewGateVerdict :: "gate_verdict \<Rightarrow> pm_error + gate_verdict" where
  "NewGateVerdict v =
     (if gv_ID v = [] \<or> gv_ProjectID v = [] \<or> gv_PlanID v = [] \<or> gv_StageID v = [] \<or> gv_GateTaskID v = []
      then Err (ErrNew ''verdict scope required'')
      else if gv_Outcome v \<noteq> GateVerdictPass \<and> gv_Outcome v \<noteq> GateVerdictReject
      then Err (ErrNew ''verdict outcome must be pass or reject'')
      else if blank (gv_Evidence v) \<or> blank (gv_ReviewedSHA v) \<or> blank (gv_IdempotencyKey v)
      then Err (ErrNew ''verdict evidence, reviewed_sha and idempotency_key required'')
      else case IdentityRef_Validate (gv_ActorRef v) of
        Some e \<Rightarrow> Err e
      | None \<Rightarrow>
          if is_zero_time (gv_CreatedAt v) then Err (ErrNew ''verdict created_at required'')
          else Ok (v\<lparr>gv_Evidence := TrimSpace (gv_Evidence v), gv_ReviewedSHA := TrimSpace (gv_ReviewedSHA v),
                 gv_IdempotencyKey := TrimSpace (gv_IdempotencyKey v)\<rparr>))"

subsection \<open>The continuation\<close>

datatype continuation_status =
    ContinuationAwaitingRemediation
  | ContinuationExecuting
  | ContinuationBudgetExhausted
  | ContinuationClosed
  | ContinuationOther gostring

record plan_continuation =
  pc_ID :: gostring
  pc_ProjectID :: project_id
  pc_PlanID :: plan_id
  pc_RootStageID :: stage_id
  pc_CurrentStageID :: stage_id
  pc_TriggerVerdictID :: verdict_id
  pc_Status :: continuation_status
  pc_Generation :: int
  pc_RemainingBudget :: int
  pc_BoundaryFingerprint :: gostring
  pc_PendingProposalID :: gostring
  pc_ClosedByVerdictID :: verdict_id
  pc_CreatedAt :: time
  pc_UpdatedAt :: time
  pc_Version :: int

definition NewPlanContinuation ::
  "gostring \<Rightarrow> gate_verdict \<Rightarrow> gostring \<Rightarrow> int \<Rightarrow> time \<Rightarrow> pm_error + plan_continuation" where
  "NewPlanContinuation i verdict boundary budget at =
     (if i = [] \<or> gv_Outcome verdict \<noteq> GateVerdictReject \<or> blank boundary
      then Err (ErrNew ''reject verdict and continuation boundary required'')
      else Ok \<lparr>pc_ID = i, pc_ProjectID = gv_ProjectID verdict, pc_PlanID = gv_PlanID verdict,
        pc_RootStageID = gv_StageID verdict, pc_CurrentStageID = gv_StageID verdict,
        pc_TriggerVerdictID = gv_ID verdict, pc_Status = ContinuationAwaitingRemediation,
        pc_Generation = 0,
        pc_RemainingBudget = (if budget \<le> 0 then DefaultStageMaxRounds else budget),
        pc_BoundaryFingerprint = boundary, pc_PendingProposalID = [], pc_ClosedByVerdictID = [],
        pc_CreatedAt = at, pc_UpdatedAt = at, pc_Version = 1\<rparr>)"

text \<open>
  The mutators return the error, if any, beside the receiver: \<open>AttachStage\<close> writes the
  status of an exhausted continuation and then fails.
\<close>

definition cont_bump :: "time \<Rightarrow> plan_continuation \<Rightarrow> plan_continuation" where
  "cont_bump at c = c\<lparr>pc_UpdatedAt := at, pc_Version := pc_Version c + 1\<rparr>"

definition cont_AttachStage ::
  "stage_id \<Rightarrow> gostring \<Rightarrow> gostring \<Rightarrow> time \<Rightarrow> plan_continuation \<Rightarrow> pm_error option \<times> plan_continuation" where
  "cont_AttachStage stageID proposalID boundary at c =
     (if pc_Status c = ContinuationClosed then (Some ErrContinuationClosed, c)
      else if pc_RemainingBudget c \<le> 0
      then (Some ErrRemediationBudgetExhausted, c\<lparr>pc_Status := ContinuationBudgetExhausted\<rparr>)
      else if stageID = [] \<or> proposalID = [] \<or> boundary = [] then (Some ErrRemediationProposalInvalid, c)
      else (None, cont_bump at (c\<lparr>pc_CurrentStageID := stageID, pc_PendingProposalID := proposalID,
             pc_Generation := pc_Generation c + 1, pc_RemainingBudget := pc_RemainingBudget c - 1,
             pc_BoundaryFingerprint := boundary, pc_Status := ContinuationExecuting\<rparr>)))"

definition cont_AwaitNext ::
  "gate_verdict \<Rightarrow> gostring \<Rightarrow> time \<Rightarrow> plan_continuation \<Rightarrow> pm_error option \<times> plan_continuation" where
  "cont_AwaitNext verdict boundary at c =
     (if pc_Status c = ContinuationClosed then (Some ErrContinuationClosed, c)
      else (None, cont_bump at (c\<lparr>pc_TriggerVerdictID := gv_ID verdict, pc_PendingProposalID := [],
             pc_BoundaryFingerprint := boundary,
             pc_Status := (if pc_RemainingBudget c \<le> 0 then ContinuationBudgetExhausted
                           else ContinuationAwaitingRemediation)\<rparr>)))"

definition cont_RefreshAwaitingBoundary ::
  "gostring \<Rightarrow> time \<Rightarrow> plan_continuation \<Rightarrow> pm_error option \<times> plan_continuation" where
  "cont_RefreshAwaitingBoundary boundary at c =
     (if pc_Status c \<noteq> ContinuationAwaitingRemediation \<or> pc_PendingProposalID c \<noteq> []
      then (Some ErrRemediationProposalStale, c)
      else let b = TrimSpace boundary in
        if b = [] then (Some ErrRemediationProposalInvalid, c)
        else if pc_BoundaryFingerprint c = b then (None, c)
        else (None, cont_bump at (c\<lparr>pc_BoundaryFingerprint := b\<rparr>)))"

definition cont_Close :: "verdict_id \<Rightarrow> time \<Rightarrow> plan_continuation \<Rightarrow> pm_error option \<times> plan_continuation" where
  "cont_Close verdictID at c =
     (if pc_Status c = ContinuationClosed then (Some ErrContinuationClosed, c)
      else (None, cont_bump at (c\<lparr>pc_Status := ContinuationClosed, pc_ClosedByVerdictID := verdictID,
             pc_PendingProposalID := []\<rparr>)))"

datatype cont_op =
    CAttach stage_id gostring gostring time
  | CAwait gate_verdict gostring time
  | CRefresh gostring time
  | CClose verdict_id time

fun cont_call :: "cont_op \<Rightarrow> plan_continuation \<Rightarrow> pm_error option \<times> plan_continuation" where
  "cont_call (CAttach s p b at) c = cont_AttachStage s p b at c"
| "cont_call (CAwait v b at) c = cont_AwaitNext v b at c"
| "cont_call (CRefresh b at) c = cont_RefreshAwaitingBoundary b at c"
| "cont_call (CClose v at) c = cont_Close v at c"

text \<open>The caller keeps the receiver whether the call failed or not.\<close>

definition cont_exec :: "cont_op \<Rightarrow> plan_continuation \<Rightarrow> pm_error + plan_continuation" where
  "cont_exec op c = Ok (snd (cont_call op c))"

lemmas cont_defs = cont_exec_def cont_AttachStage_def cont_AwaitNext_def
  cont_RefreshAwaitingBoundary_def cont_Close_def cont_bump_def

text \<open>\<open>quota\<close> is the budget that the continuation was opened with.\<close>

definition cont_ok :: "int \<Rightarrow> plan_continuation \<Rightarrow> bool" where
  "cont_ok quota c \<longleftrightarrow>
     pc_Generation c + pc_RemainingBudget c = quota \<and> 0 \<le> pc_RemainingBudget c \<and>
     0 \<le> pc_Generation c \<and> 1 \<le> pc_Version c \<and>
     (pc_Status c = ContinuationAwaitingRemediation \<longrightarrow> 0 < pc_RemainingBudget c \<and> pc_PendingProposalID c = []) \<and>
     (pc_Status c = ContinuationBudgetExhausted \<longrightarrow> pc_RemainingBudget c = 0) \<and>
     (\<forall>x. pc_Status c \<noteq> ContinuationOther x)"

interpretation continuation: sealed_aggregate cont_exec "cont_ok quota" pc_Version
  "\<lambda>c. pc_Status c = ContinuationClosed" "\<lambda>c. c" for quota
proof
  show "cont_ok quota c'" if "cont_exec op c = Ok c'" "cont_ok quota c" for op c c'
    using that by (cases op) (auto simp: cont_defs cont_ok_def Let_def split: if_splits)
  show "pc_Version c \<le> pc_Version c'" if "cont_exec op c = Ok c'" for op c c'
    using that by (cases op) (auto simp: cont_defs Let_def split: if_splits)
  show "pc_Status c' = ContinuationClosed \<and> c' = c"
    if "cont_exec op c = Ok c'" "cont_ok quota c" "pc_Status c = ContinuationClosed" for op c c'
    using that by (cases op) (auto simp: cont_defs Let_def split: if_splits)
qed

text \<open>
  remediation spends its budget and stops.  A continuation opened with a budget of
  \<open>b\<close> rounds (three when none is given) has, after any sequence of calls, used some
  generations and kept the rest: the two add up to the budget and neither is negative.  It
  waits for remediation only while budget is left and nothing is pending, it is exhausted only
  with none left, and once closed nothing changes it any more.
\<close>

theorem continuation_budget:
  assumes "NewPlanContinuation i verdict boundary b at = Ok c"
  shows "cont_ok (if b \<le> 0 then 3 else b) (run_ops cont_exec ops c) \<and>
    (pc_Status (run_ops cont_exec ops c) = ContinuationClosed \<longrightarrow>
       run_ops cont_exec (ops @ later) c = run_ops cont_exec ops c)"
proof -
  let ?quota = "if b \<le> 0 then 3 else b"
  have "cont_ok ?quota c"
    using assms by (auto simp: NewPlanContinuation_def cont_ok_def DefaultStageMaxRounds_def split: if_splits)
  then have ok: "cont_ok ?quota (run_ops cont_exec ops c)" by (rule continuation.run_inv)
  with continuation.run_sealed [OF ok, of later] show ?thesis by (simp add: run_ops_append)
qed

definition sample_verdict :: gate_verdict where
  "sample_verdict = \<lparr>gv_ID = ''v1'', gv_ProjectID = ''p1'', gv_PlanID = ''pl1'', gv_StageID = ''s1'',
     gv_GateTaskID = ''t1'', gv_Outcome = GateVerdictReject, gv_Evidence = ''broken'',
     gv_ReviewedSHA = ''abc'', gv_ActorRef = ''user:u1'', gv_IdempotencyKey = ''k'', gv_CreatedAt = 5\<rparr>"

definition sample_continuation :: plan_continuation where
  "sample_continuation = projr (NewPlanContinuation ''c1'' sample_verdict ''sha256:0'' 1 6)"

theorem continuation_budget_witness:
  "cont_ok 1 (run_ops cont_exec
     [CAttach ''s2'' ''pr1'' ''b'' 7, CAttach ''s3'' ''pr2'' ''b'' 8, CClose ''v2'' 9] sample_continuation)"
proof -
  have "NewPlanContinuation ''c1'' sample_verdict ''sha256:0'' 1 6 = Ok sample_continuation"
    unfolding sample_continuation_def by (subst sum.collapse(2)) code_simp+
  from continuation_budget [OF this, THEN conjunct1, simplified] show ?thesis .
qed

subsection \<open>The proposal compiler\<close>

record remediation_task =
  rt_Ref :: gostring
  rt_Title :: gostring
  rt_Description :: gostring
  rt_AssigneeRef :: identity_ref
  rt_DispatchMode :: dispatch_mode
  rt_DeliveryContract :: delivery_contract
  rt_FollowsTaskID :: task_id

record remediation_edge =
  re_From :: gostring
  re_To :: gostring

record remediation_gate =
  rg_AssigneeRef :: identity_ref
  rg_AcceptanceContract :: gostring

record remediation_payload =
  rp_Name :: gostring
  rp_Rationale :: gostring
  rp_Tasks :: "remediation_task list"
  rp_Edges :: "remediation_edge list"
  rp_Gate :: remediation_gate

text \<open>The UTF-8 bytes of the two Chinese words for acceptance evidence and extra evidence.\<close>

definition zh_acceptance_evidence :: gostring where
  "zh_acceptance_evidence = [CHR 0xE9, CHR 0xAA, CHR 0x8C, CHR 0xE6, CHR 0x94, CHR 0xB6,
     CHR 0xE8, CHR 0xAF, CHR 0x81, CHR 0xE6, CHR 0x8D, CHR 0xAE]"

definition zh_extra_evidence :: gostring where
  "zh_extra_evidence = [CHR 0xE8, CHR 0xA1, CHR 0xA5, CHR 0xE8, CHR 0xAF, CHR 0x81,
     CHR 0xE6, CHR 0x8D, CHR 0xAE]"

definition evidence_text :: "(gostring \<Rightarrow> gostring) \<Rightarrow> remediation_task \<Rightarrow> bool" where
  "evidence_text ulower t =
     (let text = ToLower ulower (rt_Title t @ [CHR 0x0A] @ rt_Description t) in
      Contains text ''evidence'' \<or> Contains text ''verification'' \<or>
      Contains text zh_acceptance_evidence \<or> Contains text zh_extra_evidence)"

definition trim_task :: "remediation_task \<Rightarrow> remediation_task" where
  "trim_task t = t\<lparr>rt_Ref := TrimSpace (rt_Ref t), rt_Title := TrimSpace (rt_Title t)\<rparr>"

definition default_contract :: "(gostring \<Rightarrow> gostring) \<Rightarrow> remediation_task \<Rightarrow> remediation_task" where
  "default_contract ulower t =
     (if rt_DeliveryContract t = DeliveryUnset \<and> evidence_text ulower t
      then t\<lparr>rt_DeliveryContract := DeliveryEvidenceOnly\<rparr> else t)"

text \<open>
  The loop over the tasks: the canonical tasks, the references seen (the keys of the Go map,
  each once) and the diagnostics in the order they are appended.
\<close>

fun compile_tasks ::
  "(gostring \<Rightarrow> gostring) \<Rightarrow> int \<Rightarrow> gostring list \<Rightarrow> remediation_task list \<Rightarrow>
   remediation_task list \<times> gostring list \<times> gostring list" where
  "compile_tasks ulower i refs [] = ([], refs, [])"
| "compile_tasks ulower i refs (raw # rest) =
     (let t = trim_task raw in
      if rt_Ref t = [] \<or> rt_Title t = [] then
        (case compile_tasks ulower (i + 1) refs rest of (ts, refs', ds) \<Rightarrow>
           (t # ts, refs', (''task_'' @ Itoa i @ ''_ref_title_required'') # ds))
      else
        let t' = default_contract ulower t;
            ds0 = (if rt_Ref t \<in> set refs then [''duplicate_task_ref:'' @ rt_Ref t] else []) @
              (if IdentityRef_Validate (rt_AssigneeRef t) \<noteq> None then [''invalid_assignee:'' @ rt_Ref t] else []) @
              (if \<not> dispatch_IsValid (rt_DispatchMode t) then [''invalid_dispatch_mode:'' @ rt_Ref t] else []) @
              (if \<not> contract_IsValid (rt_DeliveryContract t') then [''invalid_delivery_contract:'' @ rt_Ref t] else [])
        in case compile_tasks ulower (i + 1) (if rt_Ref t \<in> set refs then refs else refs @ [rt_Ref t]) rest of
             (ts, refs', ds) \<Rightarrow> (t' # ts, refs', ds0 @ ds))"

definition bad_edge :: "gostring list \<Rightarrow> remediation_edge \<Rightarrow> bool" where
  "bad_edge refs e \<longleftrightarrow> re_From e \<notin> set refs \<or> re_To e \<notin> set refs \<or> re_From e = re_To e"

definition good_pairs :: "gostring list \<Rightarrow> remediation_edge list \<Rightarrow> (gostring \<times> gostring) list" where
  "good_pairs refs edges = [(re_From e, re_To e). e \<leftarrow> edges, \<not> bad_edge refs e]"

definition compile_edges :: "gostring list \<Rightarrow> remediation_edge list \<Rightarrow> gostring list" where
  "compile_edges refs edges =
     (let pairs = good_pairs refs edges;
          indegree = (\<lambda>n. int (length (filter (\<lambda>e. snd e = n) pairs)));
          queue = sort (filter (\<lambda>r. indegree r = 0) refs);
          seen = kahn (build_adj pairs) indegree queue 0
      in [''invalid_edge:'' @ re_From e @ ''->'' @ re_To e. e \<leftarrow> edges, bad_edge refs e] @
         (if seen \<noteq> length refs then [''cycle''] else []))"

definition compile_gate :: "remediation_gate \<Rightarrow> gostring \<Rightarrow> gostring \<Rightarrow> gostring list" where
  "compile_gate gate baseContract rejectEvidence =
     (let contract = TrimSpace (rg_AcceptanceContract gate);
          base = TrimSpace baseContract;
          evidence = TrimSpace rejectEvidence
      in (if IdentityRef_Validate (rg_AssigneeRef gate) \<noteq> None then [''gate_assignee_required''] else []) @
         (if base \<noteq> [] \<and> \<not> Contains contract base then [''base_acceptance_contract_missing''] else []) @
         (if evidence \<noteq> [] \<and> \<not> Contains contract evidence then [''reject_evidence_missing''] else []) @
         (if contract = [] then [''acceptance_contract_required''] else []))"

definition CompileRemediationProposal ::
  "(gostring \<Rightarrow> gostring) \<Rightarrow> remediation_payload \<Rightarrow> gostring \<Rightarrow> gostring \<Rightarrow>
   remediation_payload \<times> gostring list" where
  "CompileRemediationProposal ulower payload baseContract rejectEvidence =
     (let name = TrimSpace (rp_Name payload) in
      case compile_tasks ulower 0 [] (rp_Tasks payload) of
        (tasks, refs, ds) \<Rightarrow>
          (payload\<lparr>rp_Name := name, rp_Rationale := TrimSpace (rp_Rationale payload), rp_Tasks := tasks\<rparr>,
           sort ((if name = [] then [''name_required''] else []) @
                 (if rp_Tasks payload = [] then [''task_required''] else []) @ ds @
                 compile_edges refs (rp_Edges payload) @
                 compile_gate (rp_Gate payload) baseContract rejectEvidence)))"

subsection \<open>What the compiler accepts\<close>

definition task_ref :: "remediation_task \<Rightarrow> gostring" where
  "task_ref t = TrimSpace (rt_Ref t)"

definition task_spec_ok :: "remediation_task \<Rightarrow> bool" where
  "task_spec_ok t \<longleftrightarrow> task_ref t \<noteq> [] \<and> \<not> blank (rt_Title t) \<and> valid_ref (rt_AssigneeRef t) \<and>
     dispatch_IsValid (rt_DispatchMode t) \<and> contract_IsValid (rt_DeliveryContract t)"

lemma default_contract_valid [simp]:
  "contract_IsValid (rt_DeliveryContract (default_contract ulower t)) = contract_IsValid (rt_DeliveryContract t)"
  by (simp add: default_contract_def contract_IsValid_def)

lemma trim_task_simps [simp]:
  "rt_Ref (trim_task t) = task_ref t" "rt_Title (trim_task t) = TrimSpace (rt_Title t)"
  "rt_AssigneeRef (trim_task t) = rt_AssigneeRef t" "rt_DispatchMode (trim_task t) = rt_DispatchMode t"
  "rt_DeliveryContract (trim_task t) = rt_DeliveryContract t"
  by (simp_all add: trim_task_def task_ref_def)

lemma compile_tasks_clean:
  assumes "distinct refs"
  shows "(snd (snd (compile_tasks ulower i refs ts)) = [] \<longleftrightarrow>
      list_all task_spec_ok ts \<and> distinct (refs @ map task_ref ts)) \<and>
    (list_all task_spec_ok ts \<and> distinct (refs @ map task_ref ts) \<longrightarrow>
      fst (snd (compile_tasks ulower i refs ts)) = refs @ map task_ref ts)"
  using assms
proof (induction ts arbitrary: i refs)
  case Nil
  then show ?case by simp
next
  case (Cons t ts)
  show ?case
  proof (cases "task_spec_ok t \<and> task_ref t \<notin> set refs")
    case True
    then have "distinct (refs @ [task_ref t])" using Cons.prems by simp
    from Cons.IH [OF this, of "i + 1"] True show ?thesis
      by (simp add: Let_def task_spec_ok_def valid_ref_def blank_def split: prod.splits) auto
  next
    case False
    then have "snd (snd (compile_tasks ulower i refs (t # ts))) \<noteq> []"
      by (auto simp: Let_def task_spec_ok_def valid_ref_def blank_def split: prod.splits)
    with False show ?thesis by auto
  qed
qed

lemma compile_edges_clean:
  assumes "distinct refs"
  shows "compile_edges refs edges = [] \<longleftrightarrow>
    list_all (\<lambda>e. \<not> bad_edge refs e) edges \<and> acyclic ((\<lambda>e. (re_From e, re_To e)) ` set edges)"
proof (cases "list_all (\<lambda>e. \<not> bad_edge refs e) edges")
  case False
  then have "[e. e \<leftarrow> edges, bad_edge refs e] \<noteq> []" by (auto simp: list_all_iff)
  then show ?thesis using False by (auto simp: compile_edges_def Let_def)
next
  case True
  let ?pairs = "good_pairs refs edges"
  let ?ind = "\<lambda>n. int (length (filter (\<lambda>e. snd e = n) ?pairs))"
  have pairs: "set ?pairs = (\<lambda>e. (re_From e, re_To e)) ` set edges"
    using True by (auto simp: good_pairs_def list_all_iff)
  have "set ?pairs \<subseteq> set refs \<times> set refs" by (auto simp: good_pairs_def bad_edge_def)
  then have "kahn (build_adj ?pairs) ?ind (sort (filter (\<lambda>r. ?ind r = 0) refs)) 0 = card (set refs) \<longleftrightarrow>
      acyclic (set ?pairs)"
    by (rule kahn_correct) (use assms in auto)
  moreover have "[e. e \<leftarrow> edges, bad_edge refs e] = []"
    using True by (auto simp: list_all_iff)
  ultimately show ?thesis
    using True assms by (auto simp: compile_edges_def Let_def pairs distinct_card)
qed

text \<open>
  the compiler accepts exactly the well-formed proposals.  It returns no diagnostic if and
  only if the proposal is named, has tasks, every task has a reference, a title, a valid
  assignee, dispatch mode and delivery contract, no two references coincide, every edge joins
  two different tasks of the proposal, the edges are acyclic, and the gate has an assignee and a
  contract that quotes the base contract and the evidence of the reject.
\<close>

theorem remediation_compile_exact:
  "snd (CompileRemediationProposal ulower p base evidence) = [] \<longleftrightarrow>
    \<not> blank (rp_Name p) \<and> rp_Tasks p \<noteq> [] \<and> list_all task_spec_ok (rp_Tasks p) \<and>
    distinct (map task_ref (rp_Tasks p)) \<and>
    list_all (\<lambda>e. \<not> bad_edge (map task_ref (rp_Tasks p)) e) (rp_Edges p) \<and>
    acyclic ((\<lambda>e. (re_From e, re_To e)) ` set (rp_Edges p)) \<and>
    valid_ref (rg_AssigneeRef (rp_Gate p)) \<and> \<not> blank (rg_AcceptanceContract (rp_Gate p)) \<and>
    Contains (TrimSpace (rg_AcceptanceContract (rp_Gate p))) (TrimSpace base) \<and>
    Contains (TrimSpace (rg_AcceptanceContract (rp_Gate p))) (TrimSpace evidence)"
proof -
  let ?c = "compile_tasks ulower 0 [] (rp_Tasks p)"
  have empty: "Contains s []" for s by (cases s) simp_all
  have gate: "compile_gate (rp_Gate p) base evidence = [] \<longleftrightarrow>
    valid_ref (rg_AssigneeRef (rp_Gate p)) \<and> \<not> blank (rg_AcceptanceContract (rp_Gate p)) \<and>
    Contains (TrimSpace (rg_AcceptanceContract (rp_Gate p))) (TrimSpace base) \<and>
    Contains (TrimSpace (rg_AcceptanceContract (rp_Gate p))) (TrimSpace evidence)"
    by (auto simp: compile_gate_def Let_def valid_ref_def blank_def empty)
  have "snd (CompileRemediationProposal ulower p base evidence) = [] \<longleftrightarrow>
    \<not> blank (rp_Name p) \<and> rp_Tasks p \<noteq> [] \<and> snd (snd ?c) = [] \<and>
    compile_edges (fst (snd ?c)) (rp_Edges p) = [] \<and> compile_gate (rp_Gate p) base evidence = []"
    by (cases ?c) (auto simp: CompileRemediationProposal_def Let_def blank_def
        simp flip: set_empty)
  also have "\<dots> \<longleftrightarrow> \<not> blank (rp_Name p) \<and> rp_Tasks p \<noteq> [] \<and> list_all task_spec_ok (rp_Tasks p) \<and>
    distinct (map task_ref (rp_Tasks p)) \<and>
    compile_edges (map task_ref (rp_Tasks p)) (rp_Edges p) = [] \<and> compile_gate (rp_Gate p) base evidence = []"
    using compile_tasks_clean [of "[]" ulower 0 "rp_Tasks p"] by auto
  also have "\<dots> \<longleftrightarrow> \<not> blank (rp_Name p) \<and> rp_Tasks p \<noteq> [] \<and> list_all task_spec_ok (rp_Tasks p) \<and>
    distinct (map task_ref (rp_Tasks p)) \<and>
    list_all (\<lambda>e. \<not> bad_edge (map task_ref (rp_Tasks p)) e) (rp_Edges p) \<and>
    acyclic ((\<lambda>e. (re_From e, re_To e)) ` set (rp_Edges p)) \<and> compile_gate (rp_Gate p) base evidence = []"
    using compile_edges_clean [of "map task_ref (rp_Tasks p)" "rp_Edges p"] by blast
  finally show ?thesis unfolding gate by blast
qed

end
