(* ===== verification/Reminder.thy ===== *)
theory Reminder
  imports Go_Strings Lifecycle
begin

section \<open>Reminders (internal/cognition/reminder/reminder.go)\<close>

text \<open>
  The aggregate that wakes an agent at a time, on a cron schedule or after an event: schedules
  and their next run, end conditions, the record \<open>r_x\<close> and its operations \<open>rem_M\<close>.  The cron
  parser (robfig/cron) and the time-zone database are not part of the source, so they are the
  fields of a \<open>cron_lib\<close> argument; \<open>cron_forward\<close> states what the library documents of
  \<open>Next\<close>: a time strictly after its argument, or the zero time.
\<close>

record cron_lib =
  cl_zone_ok :: "gostring \<Rightarrow> bool"
  cl_expr_ok :: "gostring \<Rightarrow> bool"
  cl_next :: "gostring \<Rightarrow> gostring \<Rightarrow> time \<Rightarrow> time"

definition cron_forward :: "cron_lib \<Rightarrow> bool" where
  "cron_forward L \<longleftrightarrow> (\<forall>expr zone t. is_zero_time (cl_next L expr zone t) \<or> t < cl_next L expr zone t)"

subsection \<open>Schedules and triggers\<close>

datatype schedule_kind = ScheduleOnce | ScheduleCron | ScheduleEvent | ScheduleKindOther gostring

datatype entity_type = EntityPlan | EntityTask | EntityIssue | EntityOther gostring

datatype schedule_fault =
    OnceNeedsTime | OnceNotInFuture time | CronNeedsExpr | BadTimezone gostring | BadCronExpr gostring
  | UnknownScheduleKind gostring | NoFutureRun | UpdateNoFutureRun

datatype event_fault =
    UnknownEntityType gostring | EntityIDRequired | EventNotValid gostring | DelayNegative
  | TriggerRequired | NotAnEventReminder

datatype reminder_status =
  StatusActive | StatusPaused | StatusCompleted | StatusCanceled | ReminderStatusOther gostring

datatype rem_error =
    ErrReminderTerminal
  | ErrInvalidSchedule schedule_fault
  | ErrCrossProjectReminder
  | ErrInvalidEndCondition gostring
  | ErrReminderContentEmpty
  | ErrReminderRemindeeEmpty
  | ErrInvalidOnEvent event_fault
  | ErrNotActive gostring reminder_status
  | ErrNewReminder gostring

definition AllowedEvents :: "entity_type \<Rightarrow> gostring list" where
  "AllowedEvents et =
     (case et of
        EntityPlan \<Rightarrow> [''completed'', ''failed'', ''stopped'']
      | EntityTask \<Rightarrow> [''completed'', ''failed'', ''reopened'', ''discarded'']
      | EntityIssue \<Rightarrow> [''closed'', ''reopened'']
      | EntityOther _ \<Rightarrow> [])"

definition eventAllowed :: "entity_type \<Rightarrow> gostring \<Rightarrow> bool" where
  "eventAllowed et event \<longleftrightarrow> list_ex (\<lambda>e. e = event) (AllowedEvents et)"

record on_event =
  oe_EntityType :: entity_type
  oe_EntityID :: gostring
  oe_Event :: gostring
  oe_Delay :: duration

definition onEvent_validate :: "on_event \<Rightarrow> rem_error option" where
  "onEvent_validate o1 =
     (case oe_EntityType o1 of
        EntityOther x \<Rightarrow> Some (ErrInvalidOnEvent (UnknownEntityType x))
      | _ \<Rightarrow>
          if blank (oe_EntityID o1) then Some (ErrInvalidOnEvent EntityIDRequired)
          else if \<not> eventAllowed (oe_EntityType o1) (oe_Event o1)
            then Some (ErrInvalidOnEvent (EventNotValid (oe_Event o1)))
          else if oe_Delay o1 < 0 then Some (ErrInvalidOnEvent DelayNegative)
          else None)"

definition onEvent_Matches :: "on_event \<Rightarrow> entity_type \<Rightarrow> gostring \<Rightarrow> gostring \<Rightarrow> bool" where
  "onEvent_Matches o1 et i event \<longleftrightarrow> oe_EntityType o1 = et \<and> oe_EntityID o1 = i \<and> oe_Event o1 = event"

record schedule =
  sc_Kind :: schedule_kind
  sc_OnceAt :: time
  sc_CronExpr :: gostring
  sc_Timezone :: gostring

definition EventScheduleFor :: schedule where
  "EventScheduleFor = \<lparr>sc_Kind = ScheduleEvent, sc_OnceAt = 0, sc_CronExpr = [], sc_Timezone = []\<rparr>"

definition OnceScheduleAt :: "time \<Rightarrow> schedule" where
  "OnceScheduleAt at = \<lparr>sc_Kind = ScheduleOnce, sc_OnceAt = at, sc_CronExpr = [], sc_Timezone = []\<rparr>"

definition CronScheduleAt :: "gostring \<Rightarrow> gostring \<Rightarrow> schedule" where
  "CronScheduleAt expr zone =
     \<lparr>sc_Kind = ScheduleCron, sc_OnceAt = 0, sc_CronExpr = TrimSpace expr, sc_Timezone = zone\<rparr>"

definition schedule_location :: "cron_lib \<Rightarrow> schedule \<Rightarrow> rem_error + gostring" where
  "schedule_location L s =
     (if blank (sc_Timezone s) then Ok ''UTC''
      else if cl_zone_ok L (sc_Timezone s) then Ok (sc_Timezone s)
      else Err (ErrInvalidSchedule (BadTimezone (sc_Timezone s))))"

definition schedule_Validate :: "cron_lib \<Rightarrow> time \<Rightarrow> schedule \<Rightarrow> rem_error option" where
  "schedule_Validate L now s =
     (case sc_Kind s of
        ScheduleOnce \<Rightarrow>
          if is_zero_time (sc_OnceAt s) then Some (ErrInvalidSchedule OnceNeedsTime)
          else if \<not> is_zero_time now \<and> \<not> now < sc_OnceAt s
            then Some (ErrInvalidSchedule (OnceNotInFuture (sc_OnceAt s)))
          else None
      | ScheduleCron \<Rightarrow>
          if blank (sc_CronExpr s) then Some (ErrInvalidSchedule CronNeedsExpr)
          else (case schedule_location L s of
             Err e \<Rightarrow> Some e
           | Ok _ \<Rightarrow> if cl_expr_ok L (sc_CronExpr s) then None
                     else Some (ErrInvalidSchedule (BadCronExpr (sc_CronExpr s))))
      | ScheduleEvent \<Rightarrow> None
      | ScheduleKindOther k \<Rightarrow> Some (ErrInvalidSchedule (UnknownScheduleKind k)))"

definition schedule_nextAfter :: "cron_lib \<Rightarrow> schedule \<Rightarrow> time \<Rightarrow> rem_error + time" where
  "schedule_nextAfter L s after =
     (case sc_Kind s of
        ScheduleOnce \<Rightarrow> Ok (if after < sc_OnceAt s then sc_OnceAt s else zero_time)
      | ScheduleCron \<Rightarrow>
          (case schedule_location L s of
             Err e \<Rightarrow> Err e
           | Ok loc \<Rightarrow>
               if cl_expr_ok L (sc_CronExpr s) then Ok (cl_next L (sc_CronExpr s) loc after)
               else Err (ErrInvalidSchedule (BadCronExpr (sc_CronExpr s))))
      | ScheduleEvent \<Rightarrow> Ok zero_time
      | ScheduleKindOther k \<Rightarrow> Err (ErrInvalidSchedule (UnknownScheduleKind k)))"

subsection \<open>Statuses and end conditions\<close>

definition reminder_IsValid :: "reminder_status \<Rightarrow> bool" where
  "reminder_IsValid s \<longleftrightarrow> (case s of ReminderStatusOther _ \<Rightarrow> False | _ \<Rightarrow> True)"

definition reminder_IsTerminal :: "reminder_status \<Rightarrow> bool" where
  "reminder_IsTerminal s \<longleftrightarrow> s = StatusCompleted \<or> s = StatusCanceled"

datatype end_kind = EndNever | EndUntil | EndMaxCount | EndOther gostring

record end_condition =
  ec_Kind :: end_kind
  ec_Until :: time
  ec_MaxCount :: int

definition NeverEnd :: end_condition where
  "NeverEnd = \<lparr>ec_Kind = EndNever, ec_Until = 0, ec_MaxCount = 0\<rparr>"

definition end_validate :: "end_condition \<Rightarrow> rem_error option" where
  "end_validate e =
     (case ec_Kind e of
        EndNever \<Rightarrow> None
      | EndUntil \<Rightarrow> if is_zero_time (ec_Until e) then Some (ErrInvalidEndCondition ''until needs a date'') else None
      | EndMaxCount \<Rightarrow> if ec_MaxCount e < 1 then Some (ErrInvalidEndCondition ''max_count must be >= 1'') else None
      | EndOther k \<Rightarrow> Some (ErrInvalidEndCondition (''unknown end condition '' @ k)))"

definition end_reached :: "end_condition \<Rightarrow> int \<Rightarrow> time \<Rightarrow> bool" where
  "end_reached e firedCount nextRun \<longleftrightarrow>
     (case ec_Kind e of
        EndMaxCount \<Rightarrow> ec_MaxCount e \<le> firedCount
      | EndUntil \<Rightarrow> is_zero_time nextRun \<or> ec_Until e < nextRun
      | _ \<Rightarrow> is_zero_time nextRun)"

subsection \<open>The aggregate\<close>

record reminder =
  r_id :: gostring
  r_organizationID :: gostring
  r_projectID :: gostring
  r_creatorRef :: gostring
  r_remindeeAgentID :: gostring
  r_schedule :: schedule
  r_onEvent :: "on_event option"
  r_content :: gostring
  r_status :: reminder_status
  r_nextRunAt :: "time option"
  r_lastFiredAt :: "time option"
  r_skipIfOverlap :: bool
  r_deliverAsCreator :: bool
  r_endCondition :: end_condition
  r_firedCount :: int
  r_version :: int
  r_createdAt :: time
  r_updatedAt :: time

record new_reminder_input =
  nr_ID :: gostring
  nr_OrganizationID :: gostring
  nr_ProjectID :: gostring
  nr_CreatorRef :: gostring
  nr_CreatorIsOwner :: bool
  nr_CreatorProjectID :: gostring
  nr_RemindeeAgentID :: gostring
  nr_Schedule :: schedule
  nr_OnEvent :: "on_event option"
  nr_Content :: gostring
  nr_SkipIfOverlap :: bool
  nr_DeliverAsCreator :: bool
  nr_EndCondition :: end_condition
  nr_Now :: time

text \<open>The two struct literals of \<open>NewReminder\<close> differ in four fields.\<close>

definition fresh_reminder ::
  "new_reminder_input \<Rightarrow> schedule \<Rightarrow> on_event option \<Rightarrow> time option \<Rightarrow> end_condition \<Rightarrow> reminder" where
  "fresh_reminder inp sched oe nxt ec = \<lparr>r_id = nr_ID inp, r_organizationID = nr_OrganizationID inp,
     r_projectID = nr_ProjectID inp, r_creatorRef = nr_CreatorRef inp,
     r_remindeeAgentID = nr_RemindeeAgentID inp, r_schedule = sched, r_onEvent = oe,
     r_content = TrimSpace (nr_Content inp), r_status = StatusActive, r_nextRunAt = nxt,
     r_lastFiredAt = None, r_skipIfOverlap = nr_SkipIfOverlap inp,
     r_deliverAsCreator = nr_DeliverAsCreator inp, r_endCondition = ec, r_firedCount = 0,
     r_version = 1, r_createdAt = nr_Now inp, r_updatedAt = nr_Now inp\<rparr>"

definition NewReminder :: "cron_lib \<Rightarrow> new_reminder_input \<Rightarrow> rem_error + reminder" where
  "NewReminder L inp =
     (if blank (nr_ID inp) then Err (ErrNewReminder ''reminder id required'')
      else if blank (nr_RemindeeAgentID inp) then Err ErrReminderRemindeeEmpty
      else if blank (nr_Content inp) then Err ErrReminderContentEmpty
      else if is_zero_time (nr_Now inp) then Err (ErrNewReminder ''creation time (now) required'')
      else if \<not> nr_CreatorIsOwner inp \<and> nr_CreatorProjectID inp \<noteq> nr_ProjectID inp
        then Err ErrCrossProjectReminder
      else if sc_Kind (nr_Schedule inp) = ScheduleEvent \<or> nr_OnEvent inp \<noteq> None then
        (case nr_OnEvent inp of
           None \<Rightarrow> Err (ErrInvalidOnEvent TriggerRequired)
         | Some oe \<Rightarrow>
             (case onEvent_validate oe of
                Some e \<Rightarrow> Err e
              | None \<Rightarrow> Ok (fresh_reminder inp EventScheduleFor (Some oe) None NeverEnd)))
      else case schedule_Validate L (nr_Now inp) (nr_Schedule inp) of
        Some e \<Rightarrow> Err e
      | None \<Rightarrow>
          (case end_validate (nr_EndCondition inp) of
             Some e \<Rightarrow> Err e
           | None \<Rightarrow>
               (case schedule_nextAfter L (nr_Schedule inp) (nr_Now inp) of
                  Err e \<Rightarrow> Err e
                | Ok nxt \<Rightarrow>
                    if is_zero_time nxt then Err (ErrInvalidSchedule NoFutureRun)
                    else Ok (fresh_reminder inp (nr_Schedule inp) None (Some nxt) (nr_EndCondition inp)))))"

definition RehydrateReminder :: "reminder \<Rightarrow> rem_error + reminder" where
  "RehydrateReminder row =
     (if blank (r_id row) then Err (ErrNewReminder ''reminder id required'')
      else if \<not> reminder_IsValid (r_status row) then Err (ErrNewReminder ''invalid reminder status'')
      else if r_version row < 1 then Err (ErrNewReminder ''reminder version must be >= 1'')
      else Ok row)"

subsection \<open>Operations\<close>

text \<open>
  An operation returns its error beside the receiver, because some write before they fail.
  The services keep the receiver only when the call succeeded (\<open>rem_exec\<close>): the others drop
  the object they loaded, and the row stays.  The version is bumped by the repository's
  compare-and-swap, not by the aggregate.
\<close>

type_synonym rem_result = "rem_error option \<times> reminder"

definition rem_bump :: "time \<Rightarrow> reminder \<Rightarrow> reminder" where
  "rem_bump at r = r\<lparr>r_updatedAt := at\<rparr>"

definition rem_finish :: "time \<Rightarrow> reminder \<Rightarrow> reminder" where
  "rem_finish at r = rem_bump at (r\<lparr>r_status := StatusCompleted, r_nextRunAt := None\<rparr>)"

definition rem_Pause :: "time \<Rightarrow> reminder \<Rightarrow> rem_result" where
  "rem_Pause at r =
     (if reminder_IsTerminal (r_status r) then (Some ErrReminderTerminal, r)
      else if r_status r = StatusPaused then (None, r)
      else (None, rem_bump at (r\<lparr>r_status := StatusPaused, r_nextRunAt := None\<rparr>)))"

definition rem_Resume :: "cron_lib \<Rightarrow> time \<Rightarrow> reminder \<Rightarrow> rem_result" where
  "rem_Resume L at r =
     (if reminder_IsTerminal (r_status r) then (Some ErrReminderTerminal, r)
      else if r_status r = StatusActive then (None, r)
      else case schedule_nextAfter L (r_schedule r) at of
        Err e \<Rightarrow> (Some e, r)
      | Ok nxt \<Rightarrow>
          if is_zero_time nxt then (None, rem_finish at r)
          else (None, rem_bump at (r\<lparr>r_status := StatusActive, r_nextRunAt := Some nxt\<rparr>)))"

definition rem_set_content :: "gostring \<Rightarrow> reminder \<Rightarrow> reminder" where
  "rem_set_content content r =
     (if blank content then r else r\<lparr>r_content := TrimSpace content\<rparr>)"

definition rem_Update :: "cron_lib \<Rightarrow> schedule option \<Rightarrow> gostring \<Rightarrow> time \<Rightarrow> reminder \<Rightarrow> rem_result" where
  "rem_Update L sched content at r =
     (if reminder_IsTerminal (r_status r) then (Some ErrReminderTerminal, r)
      else case sched of
        None \<Rightarrow> (None, rem_bump at (rem_set_content content r))
      | Some s \<Rightarrow>
          (case schedule_Validate L at s of
             Some e \<Rightarrow> (Some e, r)
           | None \<Rightarrow>
               let r1 = r\<lparr>r_schedule := s\<rparr> in
               if r_status r = StatusActive then
                 (case schedule_nextAfter L s at of
                    Err e \<Rightarrow> (Some e, r1)
                  | Ok nxt \<Rightarrow>
                      if is_zero_time nxt then (Some (ErrInvalidSchedule UpdateNoFutureRun), r1)
                      else (None, rem_bump at (rem_set_content content (r1\<lparr>r_nextRunAt := Some nxt\<rparr>))))
               else (None, rem_bump at (rem_set_content content r1))))"

definition rem_Cancel :: "time \<Rightarrow> reminder \<Rightarrow> rem_result" where
  "rem_Cancel at r =
     (if reminder_IsTerminal (r_status r) then (Some ErrReminderTerminal, r)
      else (None, rem_bump at (r\<lparr>r_status := StatusCanceled, r_nextRunAt := None\<rparr>)))"

text \<open>The tail that \<open>RecordFire\<close> and \<open>RecordSkip\<close> share: complete, or take the next run.\<close>

definition rem_advance :: "cron_lib \<Rightarrow> time \<Rightarrow> reminder \<Rightarrow> rem_result" where
  "rem_advance L at r =
     (if sc_Kind (r_schedule r) = ScheduleOnce \<or> sc_Kind (r_schedule r) = ScheduleEvent
      then (None, rem_finish at r)
      else case schedule_nextAfter L (r_schedule r) at of
        Err e \<Rightarrow> (Some e, r)
      | Ok nxt \<Rightarrow>
          if end_reached (r_endCondition r) (r_firedCount r) nxt then (None, rem_finish at r)
          else (None, rem_bump at (r\<lparr>r_nextRunAt := Some nxt\<rparr>)))"

definition rem_RecordFire :: "cron_lib \<Rightarrow> time \<Rightarrow> reminder \<Rightarrow> rem_result" where
  "rem_RecordFire L at r =
     (if reminder_IsTerminal (r_status r) then (Some ErrReminderTerminal, r)
      else if r_status r \<noteq> StatusActive then (Some (ErrNotActive ''fire'' (r_status r)), r)
      else rem_advance L at (r\<lparr>r_lastFiredAt := Some at, r_firedCount := r_firedCount r + 1\<rparr>))"

definition rem_RecordSkip :: "cron_lib \<Rightarrow> time \<Rightarrow> reminder \<Rightarrow> rem_result" where
  "rem_RecordSkip L at r =
     (if reminder_IsTerminal (r_status r) then (Some ErrReminderTerminal, r)
      else if r_status r \<noteq> StatusActive then (Some (ErrNotActive ''skip'' (r_status r)), r)
      else rem_advance L at r)"

definition rem_Arm :: "time \<Rightarrow> time \<Rightarrow> reminder \<Rightarrow> rem_result" where
  "rem_Arm eventAt at r =
     (if reminder_IsTerminal (r_status r) then (Some ErrReminderTerminal, r)
      else case r_onEvent r of
        None \<Rightarrow> (Some (ErrInvalidOnEvent NotAnEventReminder), r)
      | Some oe \<Rightarrow>
          if sc_Kind (r_schedule r) \<noteq> ScheduleEvent
            then (Some (ErrInvalidOnEvent NotAnEventReminder), r)
          else if r_status r \<noteq> StatusActive then (Some (ErrNotActive ''arm'' (r_status r)), r)
          else if r_nextRunAt r \<noteq> None then (None, r)
          else (None, rem_bump at (r\<lparr>r_nextRunAt := Some (eventAt + oe_Delay oe)\<rparr>)))"

definition rem_IsArmed :: "reminder \<Rightarrow> bool" where
  "rem_IsArmed r \<longleftrightarrow> sc_Kind (r_schedule r) = ScheduleEvent \<and> r_status r = StatusActive \<and> r_nextRunAt r \<noteq> None"

definition rem_IsDue :: "time \<Rightarrow> reminder \<Rightarrow> bool" where
  "rem_IsDue now r \<longleftrightarrow>
     r_status r = StatusActive \<and> (case r_nextRunAt r of None \<Rightarrow> False | Some n \<Rightarrow> \<not> now < n)"

subsection \<open>Histories\<close>

datatype rem_op =
    RPause time
  | RResume time
  | RUpdate "schedule option" gostring time
  | RCancel time
  | RFire time
  | RSkip time
  | RArm time time

fun rem_call :: "cron_lib \<Rightarrow> rem_op \<Rightarrow> reminder \<Rightarrow> rem_result" where
  "rem_call L (RPause at) r = rem_Pause at r"
| "rem_call L (RResume at) r = rem_Resume L at r"
| "rem_call L (RUpdate s c at) r = rem_Update L s c at r"
| "rem_call L (RCancel at) r = rem_Cancel at r"
| "rem_call L (RFire at) r = rem_RecordFire L at r"
| "rem_call L (RSkip at) r = rem_RecordSkip L at r"
| "rem_call L (RArm ev at) r = rem_Arm ev at r"

definition rem_exec :: "cron_lib \<Rightarrow> rem_op \<Rightarrow> reminder \<Rightarrow> rem_error + reminder" where
  "rem_exec L op r = (case rem_call L op r of (Some e, _) \<Rightarrow> Err e | (None, r') \<Rightarrow> Ok r')"

lemma rem_exec_Ok: "rem_exec L op r = Ok r' \<longleftrightarrow> rem_call L op r = (None, r')"
  by (cases "rem_call L op r") (auto simp: rem_exec_def split: option.splits)

lemmas rem_defs = rem_Pause_def rem_Resume_def rem_Update_def rem_Cancel_def rem_RecordFire_def
  rem_RecordSkip_def rem_Arm_def rem_advance_def rem_finish_def rem_bump_def rem_set_content_def

definition rem_ok :: "reminder \<Rightarrow> bool" where
  "rem_ok r \<longleftrightarrow>
     r_status r \<in> {StatusActive, StatusPaused, StatusCompleted, StatusCanceled} \<and>
     (r_nextRunAt r \<noteq> None \<longrightarrow> r_status r = StatusActive) \<and>
     (r_status r = StatusActive \<and> r_onEvent r = None \<longrightarrow> r_nextRunAt r \<noteq> None) \<and>
     0 \<le> r_firedCount r \<and> (r_lastFiredAt r = None \<longleftrightarrow> r_firedCount r = 0) \<and>
     (ec_Kind (r_endCondition r) = EndMaxCount \<longrightarrow> r_firedCount r \<le> ec_MaxCount (r_endCondition r) \<and>
        (\<not> reminder_IsTerminal (r_status r) \<longrightarrow> r_firedCount r < ec_MaxCount (r_endCondition r)))"

text \<open>How the writes of the operations keep the invariant.\<close>

lemma rem_ok_frame [simp]:
  "rem_ok (rem_bump at r) = rem_ok r"
  "rem_ok (rem_set_content c r) = rem_ok r"
  "rem_ok (r\<lparr>r_schedule := s\<rparr>) = rem_ok r"
  "r_status (rem_set_content c r) = r_status r"
  by (simp_all add: rem_ok_def rem_bump_def rem_set_content_def)

lemma rem_ok_status:
  assumes "rem_ok r" "st \<in> {StatusPaused, StatusCompleted, StatusCanceled}"
    and "reminder_IsTerminal (r_status r) \<longrightarrow> reminder_IsTerminal st"
  shows "rem_ok (r\<lparr>r_status := st, r_nextRunAt := None\<rparr>)"
  using assms by (auto simp: rem_ok_def)

lemma rem_ok_schedule:
  assumes "rem_ok r" "\<not> reminder_IsTerminal (r_status r)"
  shows "rem_ok (r\<lparr>r_status := StatusActive, r_nextRunAt := Some t\<rparr>)"
  using assms by (auto simp: rem_ok_def reminder_IsTerminal_def)

lemma rem_ok_next:
  "rem_ok r \<Longrightarrow> r_status r = StatusActive \<Longrightarrow> rem_ok (r\<lparr>r_nextRunAt := Some t\<rparr>)"
  by (simp add: rem_ok_def)

lemma rem_ok_count:
  assumes "rem_ok r" "r_status r = StatusActive"
  shows "rem_ok (r\<lparr>r_lastFiredAt := Some at, r_firedCount := r_firedCount r + 1,
           r_status := StatusCompleted, r_nextRunAt := None\<rparr>)"
    and "\<not> end_reached (r_endCondition r) (r_firedCount r + 1) t \<Longrightarrow>
         rem_ok (r\<lparr>r_lastFiredAt := Some at, r_firedCount := r_firedCount r + 1, r_nextRunAt := Some t\<rparr>)"
  using assms by (auto simp: rem_ok_def reminder_IsTerminal_def end_reached_def)

lemma rem_Pause_ok: "rem_Pause at r = (None, r') \<Longrightarrow> rem_ok r \<Longrightarrow> rem_ok r'"
  by (auto simp: rem_Pause_def intro: rem_ok_status split: if_splits)

lemma rem_Cancel_ok: "rem_Cancel at r = (None, r') \<Longrightarrow> rem_ok r \<Longrightarrow> rem_ok r'"
  by (auto simp: rem_Cancel_def intro: rem_ok_status split: if_splits)

lemma rem_Resume_ok: "rem_Resume L at r = (None, r') \<Longrightarrow> rem_ok r \<Longrightarrow> rem_ok r'"
  by (auto simp: rem_Resume_def rem_finish_def intro: rem_ok_status rem_ok_schedule
      split: if_splits sum.splits)

lemma rem_Update_ok: "rem_Update L s c at r = (None, r') \<Longrightarrow> rem_ok r \<Longrightarrow> rem_ok r'"
  by (auto simp: rem_Update_def Let_def intro!: rem_ok_next split: if_splits sum.splits option.splits)

lemma rem_Arm_ok: "rem_Arm ev at r = (None, r') \<Longrightarrow> rem_ok r \<Longrightarrow> rem_ok r'"
  by (auto simp: rem_Arm_def intro: rem_ok_next split: if_splits option.splits)

lemma rem_RecordSkip_ok: "rem_RecordSkip L at r = (None, r') \<Longrightarrow> rem_ok r \<Longrightarrow> rem_ok r'"
  by (auto simp: rem_RecordSkip_def rem_advance_def rem_finish_def reminder_IsTerminal_def
      intro!: rem_ok_next rem_ok_status split: if_splits sum.splits)

lemma rem_RecordFire_ok: "rem_RecordFire L at r = (None, r') \<Longrightarrow> rem_ok r \<Longrightarrow> rem_ok r'"
  by (auto simp: rem_RecordFire_def rem_advance_def rem_finish_def intro: rem_ok_count
      split: if_splits sum.splits)

lemma rem_exec_ok: "rem_exec L op r = Ok r' \<Longrightarrow> rem_ok r \<Longrightarrow> rem_ok r'"
  by (cases op) (auto simp: rem_exec_Ok intro: rem_Pause_ok rem_Cancel_ok rem_Resume_ok
      rem_Update_ok rem_Arm_ok rem_RecordSkip_ok rem_RecordFire_ok)

lemma rem_exec_sealed:
  "rem_exec L op r = Ok r' \<Longrightarrow> reminder_IsTerminal (r_status r) \<Longrightarrow> r' = r"
  by (cases op) (auto simp: rem_exec_Ok rem_defs)

lemma rem_exec_version: "rem_exec L op r = Ok r' \<Longrightarrow> r_version r \<le> r_version r'"
  by (cases op) (auto simp: rem_exec_Ok rem_defs Let_def split: if_splits sum.splits option.splits)

interpretation reminders: sealed_aggregate "rem_exec L" rem_ok r_version
  "\<lambda>r. reminder_IsTerminal (r_status r)" "\<lambda>r. r" for L
proof
  show "reminder_IsTerminal (r_status r') \<and> r' = r"
    if "rem_exec L op r = Ok r'" "rem_ok r" "reminder_IsTerminal (r_status r)" for op r r'
    using rem_exec_sealed [OF that(1,3)] that(3) by simp
qed (auto intro: rem_exec_ok rem_exec_version)

text \<open>
  C30: a reminder keeps its invariants.  After any sequence of calls on a new reminder, it has
  a run scheduled only while it is active, an active reminder without an event trigger always
  has one, it has fired exactly when it has a last firing, one bounded by \<open>max_count\<close> has never
  fired more often than that and is completed or canceled when it reaches it, and a completed
  or canceled reminder never changes again.
\<close>

theorem reminder_history:
  assumes "NewReminder L inp = Ok r"
  shows "rem_ok (run_ops (rem_exec L) ops r) \<and>
    (reminder_IsTerminal (r_status (run_ops (rem_exec L) ops r)) \<longrightarrow>
       run_ops (rem_exec L) (ops @ later) r = run_ops (rem_exec L) ops r)"
proof -
  have "rem_ok r"
    using assms
    by (auto simp: NewReminder_def fresh_reminder_def rem_ok_def NeverEnd_def end_validate_def
        reminder_IsTerminal_def split: if_splits option.splits sum.splits end_kind.splits)
  then have ok: "rem_ok (run_ops (rem_exec L) ops r)" by (rule reminders.run_inv)
  with reminders.run_sealed [OF ok, of L later] show ?thesis by (simp add: run_ops_append)
qed

subsection \<open>Firing\<close>

lemma rem_advance_due:
  assumes "cron_forward L" "rem_advance L at r = (None, r')" "r_status r = StatusActive" "0 \<le> at"
  shows "rem_IsDue at r' \<longleftrightarrow>
    sc_Kind (r_schedule r) = ScheduleCron \<and> ec_Kind (r_endCondition r) = EndMaxCount \<and>
    r_firedCount r < ec_MaxCount (r_endCondition r) \<and> schedule_nextAfter L (r_schedule r) at = Ok zero_time"
proof (cases "schedule_nextAfter L (r_schedule r) at")
  case (Inl e)
  with assms(2) show ?thesis
    by (auto simp: rem_advance_def rem_finish_def rem_bump_def rem_IsDue_def split: if_splits)
next
  case (Inr t)
  have "t = 0 \<or> at < t" if "sc_Kind (r_schedule r) = ScheduleCron"
    using that Inr assms(1) by (auto simp: schedule_nextAfter_def cron_forward_def is_zero_time_def
        split: sum.splits if_splits)
  moreover have "sc_Kind (r_schedule r) \<in> {ScheduleOnce, ScheduleEvent, ScheduleCron}"
    using Inr by (auto simp: schedule_nextAfter_def split: schedule_kind.splits)
  ultimately show ?thesis
    using assms(2-4) Inr
    by (auto simp: rem_advance_def rem_finish_def rem_bump_def rem_IsDue_def end_reached_def
        is_zero_time_def split: if_splits end_kind.splits)
qed

text \<open>
  C39: one due occurrence is delivered once.  A firing that succeeds at \<open>at\<close> adds one to the
  fired count and moves the schedule past \<open>at\<close>: the reminder is not due at \<open>at\<close> any more, so a
  second scan at the same instant does not fire it again.  The single exception is a cron
  schedule that has no further run while \<open>max_count\<close> is not used up: there the next run becomes
  the zero time, and the reminder stays due.
\<close>

theorem reminder_fires_once:
  assumes "cron_forward L" "rem_RecordFire L at r = (None, r')" "0 \<le> at"
  shows "r_firedCount r' = r_firedCount r + 1 \<and> r_lastFiredAt r' = Some at \<and> r_status r = StatusActive \<and>
    (rem_IsDue at r' \<longleftrightarrow>
       sc_Kind (r_schedule r) = ScheduleCron \<and> ec_Kind (r_endCondition r) = EndMaxCount \<and>
       r_firedCount r + 1 < ec_MaxCount (r_endCondition r) \<and>
       schedule_nextAfter L (r_schedule r) at = Ok zero_time)"
proof -
  let ?r = "r\<lparr>r_lastFiredAt := Some at, r_firedCount := r_firedCount r + 1\<rparr>"
  have active: "r_status r = StatusActive" and adv: "rem_advance L at ?r = (None, r')"
    using assms(2) by (auto simp: rem_RecordFire_def split: if_splits)
  have "r_firedCount r' = r_firedCount r + 1 \<and> r_lastFiredAt r' = Some at"
    using adv by (auto simp: rem_advance_def rem_finish_def rem_bump_def split: if_splits sum.splits)
  moreover have "rem_IsDue at r' \<longleftrightarrow>
       sc_Kind (r_schedule r) = ScheduleCron \<and> ec_Kind (r_endCondition r) = EndMaxCount \<and>
       r_firedCount r + 1 < ec_MaxCount (r_endCondition r) \<and>
       schedule_nextAfter L (r_schedule r) at = Ok zero_time"
    using rem_advance_due [OF assms(1) adv] active assms(3) by simp
  ultimately show ?thesis using active by blast
qed

text \<open>
  pausing and resuming.  A paused reminder is never due.  Resuming it at \<open>b\<close> gives a one-off
  reminder its old time back when that is still ahead and completes it otherwise; a cron
  reminder gets the next run after \<open>b\<close> (or completes when there is none); an event reminder
  is always completed by the resume, so its event can no longer fire it.
\<close>

theorem reminder_pause_resume:
  assumes "r_status r = StatusActive" "rem_Pause a r = (None, p)" "rem_Resume L b p = (None, r')"
  shows "\<not> rem_IsDue now p \<and>
    (r_status r' = StatusCompleted \<longleftrightarrow>
       sc_Kind (r_schedule r) = ScheduleEvent \<or>
       (sc_Kind (r_schedule r) = ScheduleOnce \<and> (sc_OnceAt (r_schedule r) \<le> b \<or> sc_OnceAt (r_schedule r) = 0)) \<or>
       (sc_Kind (r_schedule r) = ScheduleCron \<and> schedule_nextAfter L (r_schedule r) b = Ok zero_time)) \<and>
    (r_status r' = StatusActive \<longleftrightarrow> r_nextRunAt r' \<noteq> None) \<and>
    (r_nextRunAt r' = Some n \<longleftrightarrow> schedule_nextAfter L (r_schedule r) b = Ok n \<and> n \<noteq> 0)"
proof -
  have p: "p = rem_bump a (r\<lparr>r_status := StatusPaused, r_nextRunAt := None\<rparr>)"
    using assms(1,2) by (simp add: rem_Pause_def reminder_IsTerminal_def)
  obtain nxt where nxt: "schedule_nextAfter L (r_schedule r) b = Ok nxt"
    using assms(3) p by (auto simp: rem_Resume_def rem_bump_def reminder_IsTerminal_def split: sum.splits)
  have r': "r' = (if nxt = 0 then rem_finish b p
                  else rem_bump b (p\<lparr>r_status := StatusActive, r_nextRunAt := Some nxt\<rparr>))"
    using assms(3) nxt p
    by (auto simp: rem_Resume_def rem_bump_def reminder_IsTerminal_def is_zero_time_def)
  show ?thesis
    using nxt by (auto simp: r' p rem_bump_def rem_finish_def rem_IsDue_def schedule_nextAfter_def
        split: schedule_kind.splits if_splits)
qed

text \<open>An hourly cron job, for the witnesses.\<close>

definition hourly :: cron_lib where
  "hourly = \<lparr>cl_zone_ok = (\<lambda>z. True), cl_expr_ok = (\<lambda>e. e = ''0 * * * *''),
     cl_next = (\<lambda>e z t. (t div 3600 + 1) * 3600)\<rparr>"

definition sample_reminder_input :: "schedule \<Rightarrow> on_event option \<Rightarrow> new_reminder_input" where
  "sample_reminder_input s oe = \<lparr>nr_ID = ''r1'', nr_OrganizationID = ''o1'', nr_ProjectID = ''p1'',
     nr_CreatorRef = ''agent:a'', nr_CreatorIsOwner = False, nr_CreatorProjectID = ''p1'',
     nr_RemindeeAgentID = ''b'', nr_Schedule = s, nr_OnEvent = oe, nr_Content = ''standup'',
     nr_SkipIfOverlap = True, nr_DeliverAsCreator = True,
     nr_EndCondition = \<lparr>ec_Kind = EndMaxCount, ec_Until = 0, ec_MaxCount = 2\<rparr>, nr_Now = 100\<rparr>"

definition sample_reminder :: reminder where
  "sample_reminder =
     projr (NewReminder hourly (sample_reminder_input (CronScheduleAt ''0 * * * *'' []) None))"

lemma sample_reminder_new:
  "NewReminder hourly (sample_reminder_input (CronScheduleAt ''0 * * * *'' []) None) = Ok sample_reminder"
  unfolding sample_reminder_def by (subst sum.collapse(2)) code_simp+

theorem reminder_history_witness:
  "rem_ok (run_ops (rem_exec hourly) [RFire 3600, RSkip 7200, RFire 10800, RFire 14400] sample_reminder)"
  using reminder_history [OF sample_reminder_new] by blast

theorem reminder_fires_once_witness:
  "\<not> rem_IsDue 3600 (projr (rem_exec hourly (RFire 3600) sample_reminder)) \<and>
   r_firedCount (projr (rem_exec hourly (RFire 3600) sample_reminder)) = 1"
proof -
  let ?r' = "snd (rem_RecordFire hourly 3600 sample_reminder)"
  have "cron_forward hourly"
    unfolding cron_forward_def hourly_def is_zero_time_def by (auto simp: algebra_simps)
  moreover have "rem_RecordFire hourly 3600 sample_reminder = (None, ?r')" by code_simp
  ultimately have "r_firedCount ?r' = r_firedCount sample_reminder + 1 \<and>
      (rem_IsDue 3600 ?r' \<longleftrightarrow> sc_Kind (r_schedule sample_reminder) = ScheduleCron \<and>
       ec_Kind (r_endCondition sample_reminder) = EndMaxCount \<and>
       r_firedCount sample_reminder + 1 < ec_MaxCount (r_endCondition sample_reminder) \<and>
       schedule_nextAfter hourly (r_schedule sample_reminder) 3600 = Ok 0)"
    using reminder_fires_once [of hourly 3600 sample_reminder ?r'] by simp
  moreover have "schedule_nextAfter hourly (r_schedule sample_reminder) 3600 = Ok 7200" by code_simp
  moreover have "r_firedCount sample_reminder = 0" by code_simp
  moreover have "rem_exec hourly (RFire 3600) sample_reminder = Ok ?r'" by code_simp
  ultimately show ?thesis by simp
qed

theorem reminder_pause_resume_witness:
  "r_status (projr (rem_exec hourly (RResume 300)
     (projr (rem_exec hourly (RPause 200) (projr (NewReminder hourly (sample_reminder_input
        EventScheduleFor (Some \<lparr>oe_EntityType = EntityTask, oe_EntityID = ''t1'', oe_Event = ''completed'',
          oe_Delay = 0\<rparr>)))))))) = StatusCompleted"
proof -
  let ?r = "projr (NewReminder hourly (sample_reminder_input EventScheduleFor
     (Some \<lparr>oe_EntityType = EntityTask, oe_EntityID = ''t1'', oe_Event = ''completed'', oe_Delay = 0\<rparr>)))"
  let ?p = "snd (rem_Pause 200 ?r)"
  have "r_status ?r = StatusActive" "rem_Pause 200 ?r = (None, ?p)"
    "rem_Resume hourly 300 ?p = (None, snd (rem_Resume hourly 300 ?p))" by code_simp+
  from reminder_pause_resume [OF this]
  have "r_status (snd (rem_Resume hourly 300 ?p)) = StatusCompleted \<longleftrightarrow>
       sc_Kind (r_schedule ?r) = ScheduleEvent \<or>
       (sc_Kind (r_schedule ?r) = ScheduleOnce \<and> (sc_OnceAt (r_schedule ?r) \<le> 300 \<or> sc_OnceAt (r_schedule ?r) = 0)) \<or>
       (sc_Kind (r_schedule ?r) = ScheduleCron \<and> schedule_nextAfter hourly (r_schedule ?r) 300 = Ok 0)"
    by blast
  moreover have "sc_Kind (r_schedule ?r) = ScheduleEvent" by code_simp
  moreover have "rem_exec hourly (RPause 200) ?r = Ok ?p"
    "rem_exec hourly (RResume 300) ?p = Ok (snd (rem_Resume hourly 300 ?p))" by code_simp+
  ultimately show ?thesis by simp
qed

end
