(* ===== verification/Wake_Guard.thy ===== *)
theory Wake_Guard
  imports AC_Prelude Go_Strings "HOL-Library.List_Lexorder" "HOL-Library.Char_ord"
begin

section \<open>The wake-chain circuit breaker (internal/cognition/wakeguard/wakeguard.go)\<close>

text \<open>
  Four gates (depth, cost, cycle, rate) decide whether one agent may wake another.  The state
  of a \<open>Guard\<close> is its three maps; the configuration, which the code resolves on every
  evaluation, is an argument.  \<open>prune\<close> filters its slice in place (\<open>out := ts[:0]\<close>), so besides
  its result the model has what the old slice reads afterwards (\<open>prune_left\<close>): a denial by the
  rate gate keeps the old slice of the pair in \<open>cycleEdges\<close> after \<open>prune\<close> wrote over it.  The
  mutex makes every evaluation atomic, so a run is a sequence of evaluations.
\<close>

subsection \<open>Chains, configuration, traces\<close>

datatype actor_kind = ActorHuman | ActorAgent | ActorOther gostring

datatype gate = GateNone | GateDepth | GateCycle | GateRate | GateCost

record wake_chain =
  wc_RootMessageID :: gostring
  wc_Depth :: int
  wc_Members :: "gostring set"
  wc_TokenBudgetRemaining :: int
  wc_ActorKind :: actor_kind

definition NewRootChain :: "gostring \<Rightarrow> actor_kind \<Rightarrow> int \<Rightarrow> wake_chain" where
  "NewRootChain root actor budget = \<lparr>wc_RootMessageID = root, wc_Depth = 0, wc_Members = {},
     wc_TokenBudgetRemaining = budget, wc_ActorKind = actor\<rparr>"

definition chain_Extend :: "wake_chain \<Rightarrow> gostring \<Rightarrow> wake_chain" where
  "chain_Extend c to = \<lparr>wc_RootMessageID = wc_RootMessageID c, wc_Depth = wc_Depth c + 1,
     wc_Members = insert to (wc_Members c), wc_TokenBudgetRemaining = wc_TokenBudgetRemaining c - 1,
     wc_ActorKind = wc_ActorKind c\<rparr>"

record guard_config =
  cfg_MaxDepth :: int
  cfg_CycleWindow :: duration
  cfg_CycleN :: int
  cfg_RatePerMin :: int
  cfg_TokenBudget :: int

definition wg_second :: duration where
  "wg_second = 1000000000"

definition wg_minute :: duration where
  "wg_minute = 60 * wg_second"

definition DefaultConfig :: guard_config where
  "DefaultConfig = \<lparr>cfg_MaxDepth = 4, cfg_CycleWindow = 5 * wg_minute, cfg_CycleN = 3,
     cfg_RatePerMin = 10, cfg_TokenBudget = 16\<rparr>"

record wake_trace =
  tr_From :: gostring
  tr_To :: gostring
  tr_Depth :: int
  tr_ActorKind :: actor_kind
  tr_Allowed :: bool
  tr_Gate :: gate
  tr_Reason :: gostring

record guard =
  g_rate :: "gostring \<Rightarrow> time list"
  g_cycleEdges :: "gostring \<Rightarrow> time list"
  g_carried :: "gostring \<Rightarrow> (wake_chain \<times> time) option"

definition NewGuard :: guard where
  "NewGuard = \<lparr>g_rate = (\<lambda>_. []), g_cycleEdges = (\<lambda>_. []), g_carried = (\<lambda>_. None)\<rparr>"

definition RootChain :: "guard_config \<Rightarrow> gostring \<Rightarrow> actor_kind \<Rightarrow> wake_chain" where
  "RootChain cfg root actor = NewRootChain root actor (cfg_TokenBudget cfg)"

subsection \<open>Evaluation\<close>

definition wg_deny :: "wake_trace \<Rightarrow> gate \<Rightarrow> gostring \<Rightarrow> wake_trace" where
  "wg_deny tr gate reason = tr\<lparr>tr_Allowed := False, tr_Gate := gate, tr_Reason := reason\<rparr>"

definition pairKey :: "gostring \<Rightarrow> gostring \<Rightarrow> gostring" where
  "pairKey a b = (if a \<le> b then a @ ''|'' @ b else b @ ''|'' @ a)"

definition prune :: "time list \<Rightarrow> time \<Rightarrow> time list" where
  "prune ts cutoff = filter (\<lambda>t. cutoff < t) ts"

definition prune_left :: "time list \<Rightarrow> time \<Rightarrow> time list" where
  "prune_left ts cutoff = prune ts cutoff @ drop (length (prune ts cutoff)) ts"

definition gateLocked ::
  "wake_trace \<Rightarrow> gostring \<Rightarrow> gostring \<Rightarrow> wake_chain \<Rightarrow> guard_config \<Rightarrow> time \<Rightarrow> guard \<Rightarrow> wake_trace \<times> guard" where
  "gateLocked tr frm to chain cfg now g =
     (if cfg_MaxDepth cfg < wc_Depth chain + 1 then (wg_deny tr GateDepth ''depth limit reached'', g)
      else if wc_TokenBudgetRemaining chain \<le> 0 then (wg_deny tr GateCost ''chain token budget exhausted'', g)
      else
        let key = pairKey frm to;
            old = g_cycleEdges g key;
            edges = prune old (now - cfg_CycleWindow cfg);
            bucket = prune (g_rate g to) (now - wg_minute) in
        if cfg_CycleN cfg \<le> int (length edges) then
          (wg_deny tr GateCycle ''round-trip cycle detected for this pair'',
           g\<lparr>g_cycleEdges := (g_cycleEdges g)(key := edges)\<rparr>)
        else if cfg_RatePerMin cfg \<le> int (length bucket) then
          (wg_deny tr GateRate ''target agent wake rate exceeded'',
           g\<lparr>g_cycleEdges := (g_cycleEdges g)(key := prune_left old (now - cfg_CycleWindow cfg)),
             g_rate := (g_rate g)(to := bucket)\<rparr>)
        else
          (tr\<lparr>tr_Allowed := True, tr_Gate := GateNone\<rparr>,
           g\<lparr>g_cycleEdges := (g_cycleEdges g)(key := edges @ [now]),
             g_rate := (g_rate g)(to := bucket @ [now])\<rparr>))"

definition fresh_trace :: "gostring \<Rightarrow> gostring \<Rightarrow> wake_chain \<Rightarrow> wake_trace" where
  "fresh_trace frm to chain = \<lparr>tr_From = frm, tr_To = to, tr_Depth = wc_Depth chain,
     tr_ActorKind = wc_ActorKind chain, tr_Allowed = False, tr_Gate = GateNone, tr_Reason = []\<rparr>"

definition Evaluate ::
  "guard_config \<Rightarrow> gostring \<Rightarrow> gostring \<Rightarrow> wake_chain \<Rightarrow> time \<Rightarrow> guard \<Rightarrow> wake_trace \<times> guard" where
  "Evaluate cfg frm to chain now g =
     (if wc_ActorKind chain = ActorHuman then
        ((fresh_trace frm to chain)\<lparr>tr_Allowed := True, tr_Gate := GateNone,
            tr_Reason := ''human actor bypasses wake-chain gates''\<rparr>, g)
      else gateLocked (fresh_trace frm to chain) frm to chain cfg now g)"

definition originChainLocked ::
  "gostring \<Rightarrow> gostring \<Rightarrow> guard_config \<Rightarrow> time \<Rightarrow> guard \<Rightarrow> wake_chain" where
  "originChainLocked frm root cfg now g =
     (case g_carried g frm of
        Some (chain, at) \<Rightarrow> if now - at \<le> cfg_CycleWindow cfg then chain
                           else NewRootChain root ActorAgent (cfg_TokenBudget cfg)
      | None \<Rightarrow> NewRootChain root ActorAgent (cfg_TokenBudget cfg))"

definition EvaluateHop ::
  "guard_config \<Rightarrow> gostring \<Rightarrow> gostring \<Rightarrow> gostring \<Rightarrow> time \<Rightarrow> guard \<Rightarrow> wake_trace \<times> guard" where
  "EvaluateHop cfg frm to root now g =
     (let chain = originChainLocked frm root cfg now g;
          (tr, g') = gateLocked (fresh_trace frm to chain) frm to chain cfg now g in
      if tr_Allowed tr
      then (tr, g'\<lparr>g_carried := (g_carried g')(to \<mapsto> (chain_Extend chain to, now))\<rparr>)
      else (tr, g'))"

subsection \<open>Runs of hops\<close>

record hop =
  hop_from :: gostring
  hop_to :: gostring
  hop_root :: gostring
  hop_at :: time

fun wake_run :: "guard_config \<Rightarrow> hop list \<Rightarrow> guard \<Rightarrow> wake_trace list \<times> guard" where
  "wake_run cfg [] g = ([], g)"
| "wake_run cfg (h # hs) g =
     (let (tr, g1) = EvaluateHop cfg (hop_from h) (hop_to h) (hop_root h) (hop_at h) g;
          (trs, g2) = wake_run cfg hs g1
      in (tr # trs, g2))"

text \<open>The hops that were let through, in order.\<close>

definition allowed_hops :: "guard_config \<Rightarrow> hop list \<Rightarrow> guard \<Rightarrow> hop list" where
  "allowed_hops cfg hs g = map fst (filter (\<lambda>(h, tr). tr_Allowed tr) (zip hs (fst (wake_run cfg hs g))))"

lemma allowed_hops_Nil [simp]: "allowed_hops cfg [] g = []"
  by (simp add: allowed_hops_def)

lemma allowed_hops_Cons [simp]:
  "allowed_hops cfg (h # hs) g =
     (let (tr, g1) = EvaluateHop cfg (hop_from h) (hop_to h) (hop_root h) (hop_at h) g in
      (if tr_Allowed tr then [h] else []) @ allowed_hops cfg hs g1)"
  by (simp add: allowed_hops_def Let_def split: prod.split)

subsection \<open>Sliding windows\<close>

text \<open>
  Both counting gates keep, per key, a list of times and admit a hop only when fewer than \<open>n\<close>
  of them are younger than \<open>W\<close>.  \<open>limiter\<close> relates such a list to the log of the admitted
  times: the list holds at least as many young entries as the log, and the log has at most
  \<open>n\<close> entries in any window of length \<open>W\<close>.  Entries that the in-place \<open>prune\<close> duplicates do
  not break it.
\<close>

definition limiter :: "duration \<Rightarrow> int \<Rightarrow> time \<Rightarrow> time list \<Rightarrow> time list \<Rightarrow> bool" where
  "limiter W n now stored log \<longleftrightarrow>
     (\<forall>t \<in> set log. t \<le> now) \<and>
     (\<forall>c. now - W \<le> c \<longrightarrow> length (prune log c) \<le> length (prune stored c)) \<and>
     (\<forall>u. int (length (filter (\<lambda>t. u - W < t \<and> t \<le> u) log)) \<le> n)"

lemma prune_prune [simp]: "prune (prune ts c) d = prune ts (max c d)"
  by (auto simp: prune_def intro: filter_cong)

lemma prune_append [simp]: "prune (xs @ ys) c = prune xs c @ prune ys c"
  by (simp add: prune_def)

lemma prune_mono: "c \<le> d \<Longrightarrow> length (prune ts d) \<le> length (prune ts c)"
  by (induction ts) (auto simp: prune_def)

lemma limiter_later: "limiter W n now s l \<Longrightarrow> now \<le> now' \<Longrightarrow> limiter W n now' s l"
  by (force simp: limiter_def)

lemma limiter_prune: "limiter W n now s l \<Longrightarrow> limiter W n now (prune s (now - W)) l"
  by (simp add: limiter_def max_absorb2)

lemma limiter_prune_left: "limiter W n now s l \<Longrightarrow> limiter W n now (prune_left s (now - W)) l"
  by (auto simp: limiter_def prune_left_def max_absorb2 intro: trans_le_add1)

lemma limiter_append:
  assumes lim: "limiter W n now s l" and free: "int (length (prune s (now - W))) < n"
  shows "limiter W n now (prune s (now - W) @ [now]) (l @ [now])"
proof -
  have log: "t \<le> now" if "t \<in> set l" for t
    using lim that by (simp add: limiter_def)
  have covered: "length (prune l c) \<le> length (prune s c)" if "now - W \<le> c" for c
    using lim that by (simp add: limiter_def)
  have "int (length (filter (\<lambda>t. u - W < t \<and> t \<le> u) (l @ [now]))) \<le> n" for u
  proof (cases "u - W < now \<and> now \<le> u")
    case True
    have "length (filter (\<lambda>t. u - W < t \<and> t \<le> u) l) \<le> length (prune l (now - W))"
      using True by (induction l) (auto simp: prune_def)
    with covered [of "now - W"] free True show ?thesis by simp
  next
    case False
    with lim show ?thesis by (auto simp: limiter_def)
  qed
  with log covered show ?thesis
    by (auto simp: limiter_def max_absorb2)
qed

lemma EvaluateHop_denied:
  assumes "EvaluateHop cfg frm to root now g = (tr, g')" "\<not> tr_Allowed tr"
  shows "g_carried g' = g_carried g"
    and "g_rate g' = g_rate g \<or> g_rate g' = (g_rate g)(to := prune (g_rate g to) (now - wg_minute))"
    and "g_cycleEdges g' = g_cycleEdges g \<or>
      (\<exists>f \<in> {prune, prune_left}. g_cycleEdges g' = (g_cycleEdges g)
         (pairKey frm to := f (g_cycleEdges g (pairKey frm to)) (now - cfg_CycleWindow cfg)))"
  using assms
  by (auto simp: EvaluateHop_def gateLocked_def wg_deny_def Let_def split: prod.splits if_splits)

lemma EvaluateHop_allowed:
  assumes "EvaluateHop cfg frm to root now g = (tr, g')" "tr_Allowed tr"
  defines "c \<equiv> originChainLocked frm root cfg now g"
  shows "g_carried g' = (g_carried g)(to \<mapsto> (chain_Extend c to, now))"
    and "wc_Depth c + 1 \<le> cfg_MaxDepth cfg" "0 < wc_TokenBudgetRemaining c"
    and "g_rate g' = (g_rate g)(to := prune (g_rate g to) (now - wg_minute) @ [now])"
    and "int (length (prune (g_rate g to) (now - wg_minute))) < cfg_RatePerMin cfg"
    and "g_cycleEdges g' = (g_cycleEdges g)(pairKey frm to :=
           prune (g_cycleEdges g (pairKey frm to)) (now - cfg_CycleWindow cfg) @ [now])"
    and "int (length (prune (g_cycleEdges g (pairKey frm to)) (now - cfg_CycleWindow cfg))) < cfg_CycleN cfg"
  using assms(1,2) unfolding c_def
  by (auto simp: EvaluateHop_def gateLocked_def wg_deny_def fresh_trace_def Let_def
      split: prod.splits if_splits)

definition limited :: "guard_config \<Rightarrow> time \<Rightarrow> guard \<Rightarrow> hop list \<Rightarrow> bool" where
  "limited cfg now g log \<longleftrightarrow>
     (\<forall>x. limiter wg_minute (cfg_RatePerMin cfg) now (g_rate g x) (map hop_at (filter (\<lambda>h. hop_to h = x) log))) \<and>
     (\<forall>k. limiter (cfg_CycleWindow cfg) (cfg_CycleN cfg) now (g_cycleEdges g k)
        (map hop_at (filter (\<lambda>h. pairKey (hop_from h) (hop_to h) = k) log)))"

lemma limited_later: "limited cfg now g log \<Longrightarrow> now \<le> now' \<Longrightarrow> limited cfg now' g log"
  by (auto simp: limited_def intro: limiter_later)

lemma limited_step:
  assumes "limited cfg (hop_at h) g log"
    and step: "EvaluateHop cfg (hop_from h) (hop_to h) (hop_root h) (hop_at h) g = (tr, g')"
  shows "limited cfg (hop_at h) g' (log @ (if tr_Allowed tr then [h] else []))"
proof (cases "tr_Allowed tr")
  case True
  note f = EvaluateHop_allowed(4-7) [OF step True]
  from assms(1) f(2,4) show ?thesis
    by (auto simp: limited_def f(1,3) True intro: limiter_append)
next
  case False
  from assms(1) EvaluateHop_denied(2,3) [OF step False] False show ?thesis
    by (auto simp: limited_def intro!: limiter_prune limiter_prune_left)
qed

lemma limited_run:
  assumes "limited cfg now g log" "sorted (map hop_at hs)" "\<forall>h \<in> set hs. now \<le> hop_at h"
  shows "\<exists>now'. limited cfg now' (snd (wake_run cfg hs g)) (log @ allowed_hops cfg hs g)"
  using assms
proof (induction hs arbitrary: now g log)
  case Nil
  then show ?case by auto
next
  case (Cons h hs)
  obtain tr g1 where step: "EvaluateHop cfg (hop_from h) (hop_to h) (hop_root h) (hop_at h) g = (tr, g1)"
    by fastforce
  have "limited cfg (hop_at h) g1 (log @ (if tr_Allowed tr then [h] else []))"
    using Cons.prems by - (rule limited_step [OF limited_later [of cfg now] step], simp_all)
  from Cons.IH [OF this] Cons.prems(2) step show ?case
    by (auto simp: split_beta)
qed

text \<open>
  C31: the rate and cycle gates bound every storm.  In any run of hops whose clock never goes
  back, no agent is woken by agents more than \<open>RatePerMin\<close> times in any one-minute window, and
  no pair of agents exchanges more than \<open>CycleN\<close> hops in any window of length \<open>CycleWindow\<close>,
  whatever was denied in between.
\<close>

theorem wake_storm_bounded:
  assumes "sorted (map hop_at hs)" "0 \<le> cfg_RatePerMin cfg" "0 \<le> cfg_CycleN cfg"
  shows "int (length (filter (\<lambda>h. hop_to h = x \<and> u - wg_minute < hop_at h \<and> hop_at h \<le> u)
             (allowed_hops cfg hs NewGuard))) \<le> cfg_RatePerMin cfg \<and>
    int (length (filter (\<lambda>h. pairKey (hop_from h) (hop_to h) = k \<and>
             u - cfg_CycleWindow cfg < hop_at h \<and> hop_at h \<le> u)
             (allowed_hops cfg hs NewGuard))) \<le> cfg_CycleN cfg"
proof -
  obtain t where "\<forall>h \<in> set hs. t \<le> hop_at h"
    using assms(1) by (cases hs) auto
  moreover have "limited cfg t NewGuard []"
    using assms(2,3) by (simp add: limited_def limiter_def prune_def)
  ultimately obtain now' where "limited cfg now' (snd (wake_run cfg hs NewGuard)) (allowed_hops cfg hs NewGuard)"
    using limited_run [of cfg t NewGuard "[]" hs] assms(1) by auto
  then show ?thesis
    by (simp add: limited_def limiter_def filter_map o_def conj_commute conj_left_commute)
qed

subsection \<open>Carried chains\<close>

definition chain_ok :: "guard_config \<Rightarrow> wake_chain \<Rightarrow> bool" where
  "chain_ok cfg c \<longleftrightarrow> 0 \<le> wc_Depth c \<and> 0 \<le> wc_TokenBudgetRemaining c \<and>
     wc_Depth c + wc_TokenBudgetRemaining c = cfg_TokenBudget cfg \<and>
     finite (wc_Members c) \<and> int (card (wc_Members c)) \<le> wc_Depth c \<and> wc_ActorKind c = ActorAgent"

definition carried_ok :: "guard_config \<Rightarrow> guard \<Rightarrow> bool" where
  "carried_ok cfg g \<longleftrightarrow>
     (\<forall>a c t. g_carried g a = Some (c, t) \<longrightarrow> chain_ok cfg c \<and> a \<in> wc_Members c \<and> wc_Depth c \<le> cfg_MaxDepth cfg)"

lemma chain_ok_Extend:
  "chain_ok cfg c \<Longrightarrow> 0 < wc_TokenBudgetRemaining c \<Longrightarrow> chain_ok cfg (chain_Extend c to)"
  by (auto simp: chain_ok_def chain_Extend_def card_insert_if)

lemma chain_ok_origin:
  "carried_ok cfg g \<Longrightarrow> 0 \<le> cfg_TokenBudget cfg \<Longrightarrow> chain_ok cfg (originChainLocked frm root cfg now g)"
  by (auto simp: originChainLocked_def carried_ok_def NewRootChain_def chain_ok_def split: option.split)

lemma carried_ok_step:
  assumes "carried_ok cfg g" "0 \<le> cfg_TokenBudget cfg"
    and step: "EvaluateHop cfg frm to root now g = (tr, g')"
  shows "carried_ok cfg g'"
proof (cases "tr_Allowed tr")
  case True
  note f = EvaluateHop_allowed(1-3) [OF step True]
  from chain_ok_Extend [OF chain_ok_origin [OF assms(1,2)] f(3)] f(2) assms(1) show ?thesis
    by (auto simp: carried_ok_def f(1)) (auto simp: chain_Extend_def)
next
  case False
  with assms(1) EvaluateHop_denied(1) [OF step False] show ?thesis by (simp add: carried_ok_def)
qed

lemma carried_ok_run:
  "carried_ok cfg g \<Longrightarrow> 0 \<le> cfg_TokenBudget cfg \<Longrightarrow> carried_ok cfg (snd (wake_run cfg hs g))"
proof (induction hs arbitrary: g)
  case (Cons h hs)
  obtain tr g1 where step: "EvaluateHop cfg (hop_from h) (hop_to h) (hop_root h) (hop_at h) g = (tr, g1)"
    by fastforce
  from Cons.IH [OF carried_ok_step [OF Cons.prems step] Cons.prems(2)] step show ?case
    by (simp add: split_beta)
qed simp

lemma allowed_hops_length: "length (allowed_hops cfg hs g) \<le> length hs"
  by (induction hs arbitrary: g) (auto simp: Let_def le_SucI split: prod.splits)

lemma allowed_all:
  assumes "allowed_hops cfg (h # hs) g = h # hs"
    and "EvaluateHop cfg (hop_from h) (hop_to h) (hop_root h) (hop_at h) g = (tr, g1)"
  shows "tr_Allowed tr" "allowed_hops cfg hs g1 = hs"
  using assms allowed_hops_length [of cfg hs g1] by (auto split: if_splits)

text \<open>One chain of wakes: each woken agent wakes the next within the window.\<close>

definition wake_path :: "guard_config \<Rightarrow> hop list \<Rightarrow> bool" where
  "wake_path cfg hs \<longleftrightarrow>
     successively (\<lambda>h h'. hop_from h' = hop_to h \<and> hop_at h' - hop_at h \<le> cfg_CycleWindow cfg) hs"

lemma wake_path_bounded:
  assumes "carried_ok cfg g" "0 \<le> cfg_TokenBudget cfg" "wake_path cfg (h # hs)"
    and "allowed_hops cfg (h # hs) g = h # hs"
  shows "wc_Depth (originChainLocked (hop_from h) (hop_root h) cfg (hop_at h) g) + int (length (h # hs))
    \<le> min (cfg_MaxDepth cfg) (cfg_TokenBudget cfg)"
  using assms
proof (induction hs arbitrary: h g)
  case (Nil h g)
  obtain tr g1 where step: "EvaluateHop cfg (hop_from h) (hop_to h) (hop_root h) (hop_at h) g = (tr, g1)"
    by fastforce
  from EvaluateHop_allowed(2,3) [OF step allowed_all(1) [OF Nil(4) step]] chain_ok_origin [OF Nil(1,2), of "hop_from h" "hop_root h" "hop_at h"]
  show ?case by (simp add: chain_ok_def)
next
  case (Cons h' hs h g)
  obtain tr g1 where step: "EvaluateHop cfg (hop_from h) (hop_to h) (hop_root h) (hop_at h) g = (tr, g1)"
    by fastforce
  note all = allowed_all [OF Cons.prems(4) step]
  let ?c = "originChainLocked (hop_from h) (hop_root h) cfg (hop_at h) g"
  have next': "hop_from h' = hop_to h" "hop_at h' - hop_at h \<le> cfg_CycleWindow cfg" "wake_path cfg (h' # hs)"
    using Cons.prems(3) by (simp_all add: wake_path_def)
  then have "originChainLocked (hop_from h') (hop_root h') cfg (hop_at h') g1 = chain_Extend ?c (hop_to h)"
    using EvaluateHop_allowed(1) [OF step all(1)] by (simp add: originChainLocked_def)
  with Cons.IH [OF carried_ok_step [OF Cons.prems(1,2) step] Cons.prems(2) next'(3) all(2)]
  show ?case by (simp add: chain_Extend_def)
qed

text \<open>
  a chain of wakes extinguishes itself.  After any history, a sequence of hops in which
  each woken agent wakes the next one within the cycle window is let through in full only when
  it has at most \<open>MaxDepth\<close> and at most \<open>TokenBudget\<close> hops: a longer one is stopped by a gate.
\<close>

theorem wake_chain_extinguishes:
  assumes "0 \<le> cfg_MaxDepth cfg" "0 \<le> cfg_TokenBudget cfg" "wake_path cfg hs"
    and "allowed_hops cfg hs (snd (wake_run cfg history NewGuard)) = hs"
  shows "int (length hs) \<le> min (cfg_MaxDepth cfg) (cfg_TokenBudget cfg)"
proof (cases hs)
  case (Cons h hs')
  let ?g = "snd (wake_run cfg history NewGuard)"
  have ok: "carried_ok cfg ?g"
    using assms(2) by (intro carried_ok_run) (simp_all add: carried_ok_def NewGuard_def)
  with assms(2) have "0 \<le> wc_Depth (originChainLocked (hop_from h) (hop_root h) cfg (hop_at h) ?g)"
    using chain_ok_origin by (auto simp: chain_ok_def)
  with wake_path_bounded [OF ok assms(2)] assms(3,4) Cons show ?thesis by fastforce
qed (use assms(1,2) in simp)

subsection \<open>What a rate denial leaves behind\<close>

lemma prune_sorted: "sorted ts \<Longrightarrow> \<exists>old. ts = old @ prune ts c \<and> prune old c = []"
proof (induction ts)
  case (Cons t ts)
  show ?case
  proof (cases "c < t")
    case True
    with Cons.prems have "prune (t # ts) c = t # ts" by (auto simp: prune_def filter_id_conv)
    then show ?thesis by (intro exI [of _ "[]"]) (simp add: prune_def)
  next
    case False
    from Cons obtain old where "ts = old @ prune ts c" "prune old c = []" by auto
    with False show ?thesis by (intro exI [of _ "t # old"]) (simp add: prune_def)
  qed
qed (simp add: prune_def)

lemma prune_drop: "prune ts c = [] \<Longrightarrow> prune (drop k ts) c = []" "prune (drop k (prune ts c)) c = drop k (prune ts c)"
  by (auto simp: prune_def filter_empty_conv filter_id_conv dest!: in_set_dropD)

text \<open>
  a rate denial inflates the cycle count.  The gates document that a denial records
  nothing, and the slice that \<open>prune\<close> returned is dropped on this path; but \<open>prune\<close> compacted
  the young hops of the pair into the front of the slice that stays in \<open>cycleEdges\<close>, so when
  \<open>k\<close> of its \<open>n\<close> (ordered) hops are young, the pair counts \<open>k + min k (n - k)\<close> young hops
  afterwards.
\<close>

theorem wake_rate_denial_inflates:
  assumes "EvaluateHop cfg frm to root now g = (tr, g')" "tr_Gate tr = GateRate"
    and "sorted (g_cycleEdges g (pairKey frm to))"
  shows "length (prune (g_cycleEdges g' (pairKey frm to)) (now - cfg_CycleWindow cfg)) =
    (let k = length (prune (g_cycleEdges g (pairKey frm to)) (now - cfg_CycleWindow cfg));
         n = length (g_cycleEdges g (pairKey frm to))
     in k + min k (n - k))"
proof -
  let ?e = "g_cycleEdges g (pairKey frm to)" and ?c = "now - cfg_CycleWindow cfg"
  obtain old where old: "?e = old @ prune ?e ?c" "prune old ?c = []"
    using prune_sorted [OF assms(3)] by blast
  define kept where "kept = prune ?e ?c"
  have "g_cycleEdges g' (pairKey frm to) = prune_left ?e ?c"
    using assms(1,2)
    by (auto simp: EvaluateHop_def gateLocked_def wg_deny_def fresh_trace_def Let_def
        split: prod.splits if_splits)
  then have "prune (g_cycleEdges g' (pairKey frm to)) ?c = prune (kept @ drop (length kept) (old @ kept)) ?c"
    using old(1) by (simp add: prune_left_def kept_def)
  also have "\<dots> = kept @ drop (length kept - length old) kept"
    using old(2) by (simp add: kept_def prune_drop)
  finally have "length (prune (g_cycleEdges g' (pairKey frm to)) ?c) = length kept + min (length kept) (length old)"
    by simp
  moreover have "length ?e = length old + length kept"
    using old(1) by (metis kept_def length_append)
  ultimately show ?thesis by (simp add: Let_def kept_def [symmetric])
qed

subsection \<open>Witnesses\<close>

text \<open>
  Three agents, one wake per minute: the two hops of \<open>a\<close> and \<open>b\<close> that were let through count
  as three after a rate denial, and the next one is denied as a cycle of three.
\<close>

definition slow_config :: guard_config where
  "slow_config = DefaultConfig\<lparr>cfg_RatePerMin := 1\<rparr>"

definition hop_of :: "gostring \<Rightarrow> gostring \<Rightarrow> int \<Rightarrow> hop" where
  "hop_of a b s = \<lparr>hop_from = a, hop_to = b, hop_root = ''m'', hop_at = s * wg_second\<rparr>"

definition inflating_hops :: "hop list" where
  "inflating_hops = [hop_of ''a'' ''b'' 1, hop_of ''a'' ''b'' 200, hop_of ''c'' ''b'' 301]"

theorem wake_storm_bounded_witness:
  "length (filter (\<lambda>h. hop_to h = ''b'' \<and> 0 < hop_at h \<and> hop_at h \<le> wg_minute)
     (allowed_hops slow_config [hop_of ''a'' ''b'' 1, hop_of ''a'' ''b'' 2] NewGuard)) \<le> 1"
proof -
  have "sorted (map hop_at [hop_of ''a'' ''b'' 1, hop_of ''a'' ''b'' 2])"
    "0 \<le> cfg_RatePerMin slow_config" "0 \<le> cfg_CycleN slow_config" by code_simp+
  from wake_storm_bounded [OF this, of "''b''" wg_minute "''a|b''"]
  have "int (length (filter (\<lambda>h. hop_to h = ''b'' \<and> wg_minute - wg_minute < hop_at h \<and> hop_at h \<le> wg_minute)
     (allowed_hops slow_config [hop_of ''a'' ''b'' 1, hop_of ''a'' ''b'' 2] NewGuard))) \<le> cfg_RatePerMin slow_config"
    by blast
  moreover have "cfg_RatePerMin slow_config = 1" by code_simp
  ultimately show ?thesis by simp
qed

theorem wake_chain_extinguishes_witness:
  "allowed_hops DefaultConfig
     [hop_of ''a'' ''b'' 1, hop_of ''b'' ''c'' 2, hop_of ''c'' ''d'' 3, hop_of ''d'' ''e'' 4] NewGuard
     = [hop_of ''a'' ''b'' 1, hop_of ''b'' ''c'' 2, hop_of ''c'' ''d'' 3, hop_of ''d'' ''e'' 4] \<and>
   (4::int) \<le> min (cfg_MaxDepth DefaultConfig) (cfg_TokenBudget DefaultConfig)"
proof -
  let ?hs = "[hop_of ''a'' ''b'' 1, hop_of ''b'' ''c'' 2, hop_of ''c'' ''d'' 3, hop_of ''d'' ''e'' 4]"
  have "0 \<le> cfg_MaxDepth DefaultConfig" "0 \<le> cfg_TokenBudget DefaultConfig"
    "wake_path DefaultConfig ?hs" by (code_simp, code_simp, simp add: wake_path_def, code_simp)
  moreover have all: "allowed_hops DefaultConfig ?hs NewGuard = ?hs" by code_simp
  ultimately have "int (length ?hs) \<le> min (cfg_MaxDepth DefaultConfig) (cfg_TokenBudget DefaultConfig)"
    using wake_chain_extinguishes [of DefaultConfig ?hs "[]"] by simp
  with all show ?thesis by simp
qed

theorem wake_rate_denial_inflates_witness:
  "tr_Gate (last (fst (wake_run slow_config
     (inflating_hops @ [hop_of ''a'' ''b'' 302, hop_of ''a'' ''b'' 370, hop_of ''a'' ''b'' 440]) NewGuard))) = GateCycle \<and>
   (let g = snd (wake_run slow_config inflating_hops NewGuard);
        g' = snd (EvaluateHop slow_config ''a'' ''b'' ''m'' (302 * wg_second) g)
    in length (prune (g_cycleEdges g ''a|b'') (2 * wg_second)) = 1 \<and>
       length (prune (g_cycleEdges g' ''a|b'') (2 * wg_second)) = 2)"
proof -
  let ?g = "snd (wake_run slow_config inflating_hops NewGuard)"
  let ?e = "EvaluateHop slow_config ''a'' ''b'' ''m'' (302 * wg_second) ?g"
  have "?e = (fst ?e, snd ?e)" by simp
  moreover have "tr_Gate (fst ?e) = GateRate" by code_simp
  moreover have edges: "g_cycleEdges ?g (pairKey ''a'' ''b'') = [1 * wg_second, 200 * wg_second]" by code_simp
  ultimately have "length (prune (g_cycleEdges (snd ?e) (pairKey ''a'' ''b''))
        (302 * wg_second - cfg_CycleWindow slow_config)) =
    (let k = length (prune [1 * wg_second, 200 * wg_second] (302 * wg_second - cfg_CycleWindow slow_config));
         n = length [1 * wg_second, 200 * wg_second] in k + min k (n - k))"
    using wake_rate_denial_inflates [of slow_config "''a''" "''b''" "''m''" "302 * wg_second" ?g "fst ?e" "snd ?e"]
    by (simp add: wg_second_def)
  moreover have "pairKey ''a'' ''b'' = ''a|b''" by code_simp
  moreover have "302 * wg_second - cfg_CycleWindow slow_config = 2 * wg_second" by code_simp
  moreover have "tr_Gate (last (fst (wake_run slow_config
     (inflating_hops @ [hop_of ''a'' ''b'' 302, hop_of ''a'' ''b'' 370, hop_of ''a'' ''b'' 440]) NewGuard))) = GateCycle"
    by code_simp
  ultimately show ?thesis
    using edges by (simp add: Let_def prune_def wg_second_def)
qed

end
