(* ===== verification/Outbox.thy ===== *)
theory Outbox
  imports Go_Strings Lifecycle "HOL-Library.List_Lexorder" "HOL-Library.Char_ord"
begin

section \<open>The outbox relay (internal/outbox and its SQL repositories)\<close>

text \<open>
  Producers append events; the relay dispatches each to every projector, skips the pairs the
  applied ledger already has, and marks the event processed when all have applied it.  The
  two tables are the lists \<open>rs_events\<close> (keyed by the event id, its primary key) and
  \<open>rs_applied\<close>.  A projector is code of another context: it is a parameter with a name, its
  effect on the rest of the database and whether that effect records the ledger row in its own
  transaction (\<open>pj_in_tx\<close>, the pattern that \<open>relay.go\<close> asks for).  Any statement on the tables may
  fail: the \<open>n\<close>-th call succeeds when \<open>io n\<close>.  \<open>rs_log\<close> is not in the code: it lists the effects
  that projectors have committed, for the statements about how often they happen.
\<close>

record outbox_event =
  ob_ID :: gostring
  ob_EventType :: gostring
  ob_Refs :: gostring
  ob_Payload :: gostring
  ob_CreatedAt :: time
  ob_ProcessedAt :: "time option"

definition ob_IsProcessed :: "outbox_event \<Rightarrow> bool" where
  "ob_IsProcessed e \<longleftrightarrow> ob_ProcessedAt e \<noteq> None"

record 'w projector =
  pj_Name :: gostring
  pj_Project :: "outbox_event \<Rightarrow> 'w \<Rightarrow> bool \<times> 'w"
  pj_in_tx :: bool

record 'w relay =
  rs_events :: "outbox_event list"
  rs_applied :: "(gostring \<times> gostring) list"
  rs_world :: 'w
  rs_calls :: nat
  rs_now :: time
  rs_log :: "(gostring \<times> gostring) list"

datatype relay_error = ErrStore | ErrDuplicateEvent

subsection \<open>The repositories\<close>

definition or_empty_object :: "gostring \<Rightarrow> gostring" where
  "or_empty_object s = (if s = [] then ''{}'' else s)"

definition outbox_Append :: "outbox_event \<Rightarrow> 'w relay \<Rightarrow> relay_error + 'w relay" where
  "outbox_Append e s =
     (if list_ex (\<lambda>x. ob_ID x = ob_ID e) (rs_events s) then Err ErrDuplicateEvent
      else Ok (s\<lparr>rs_events := rs_events s @ [e\<lparr>ob_Refs := or_empty_object (ob_Refs e),
                 ob_Payload := or_empty_object (ob_Payload e), ob_ProcessedAt := None\<rparr>]\<rparr>))"

definition unprocessed :: "'w relay \<Rightarrow> outbox_event list" where
  "unprocessed s = sort_key ob_ID (filter (\<lambda>e. \<not> ob_IsProcessed e) (rs_events s))"

definition FetchUnprocessed :: "nat \<Rightarrow> 'w relay \<Rightarrow> outbox_event list" where
  "FetchUnprocessed limit s = take limit (unprocessed s)"

definition MarkProcessed :: "gostring \<Rightarrow> 'w relay \<Rightarrow> 'w relay" where
  "MarkProcessed i s = s\<lparr>rs_events := map (\<lambda>e. if ob_ID e = i \<and> ob_ProcessedAt e = None
     then e\<lparr>ob_ProcessedAt := Some (rs_now s)\<rparr> else e) (rs_events s)\<rparr>"

definition IsApplied :: "gostring \<Rightarrow> gostring \<Rightarrow> 'w relay \<Rightarrow> bool" where
  "IsApplied p i s \<longleftrightarrow> (p, i) \<in> set (rs_applied s)"

definition MarkApplied :: "gostring \<Rightarrow> gostring \<Rightarrow> 'w relay \<Rightarrow> 'w relay" where
  "MarkApplied p i s = s\<lparr>rs_applied := List.insert (p, i) (rs_applied s)\<rparr>"

definition tick_call :: "'w relay \<Rightarrow> 'w relay" where
  "tick_call s = s\<lparr>rs_calls := rs_calls s + 1\<rparr>"

subsection \<open>The relay\<close>

text \<open>
  One call of a projector.  What a failing one has written is rolled back when it runs in a
  transaction of its own and stays otherwise; one that returns without an error is logged.
\<close>

definition run_projector :: "'w projector \<Rightarrow> outbox_event \<Rightarrow> 'w relay \<Rightarrow> bool \<times> 'w relay" where
  "run_projector p e s =
     (case pj_Project p e (rs_world s) of
        (False, w) \<Rightarrow> (False, if pj_in_tx p then s else s\<lparr>rs_world := w\<rparr>)
      | (True, w) \<Rightarrow>
          (True, (if pj_in_tx p then MarkApplied (pj_Name p) (ob_ID e) else id)
             (s\<lparr>rs_world := w, rs_log := (pj_Name p, ob_ID e) # rs_log s\<rparr>)))"

datatype dispatch_result = AllApplied | ProjectorFailed | StoreFailed

fun dispatch ::
  "(nat \<Rightarrow> bool) \<Rightarrow> 'w projector list \<Rightarrow> outbox_event \<Rightarrow> 'w relay \<Rightarrow> dispatch_result \<times> 'w relay" where
  "dispatch io [] e s = (AllApplied, s)"
| "dispatch io (p # ps) e s =
     (if \<not> io (rs_calls s) then (StoreFailed, tick_call s)
      else if IsApplied (pj_Name p) (ob_ID e) s then dispatch io ps e (tick_call s)
      else case run_projector p e (tick_call s) of
        (False, s1) \<Rightarrow> (ProjectorFailed, s1)
      | (True, s1) \<Rightarrow>
          if \<not> io (rs_calls s1) then (StoreFailed, tick_call s1)
          else dispatch io ps e (tick_call (MarkApplied (pj_Name p) (ob_ID e) s1)))"

fun relay_events ::
  "(nat \<Rightarrow> bool) \<Rightarrow> 'w projector list \<Rightarrow> outbox_event list \<Rightarrow> nat \<Rightarrow> 'w relay \<Rightarrow>
     (nat \<times> relay_error option) \<times> 'w relay" where
  "relay_events io ps [] n s = ((n, None), s)"
| "relay_events io ps (e # es) n s =
     (case dispatch io ps e s of
        (StoreFailed, s1) \<Rightarrow> ((n, Some ErrStore), s1)
      | (ProjectorFailed, s1) \<Rightarrow> relay_events io ps es n s1
      | (AllApplied, s1) \<Rightarrow>
          if \<not> io (rs_calls s1) then ((n, Some ErrStore), tick_call s1)
          else relay_events io ps es (n + 1) (tick_call (MarkProcessed (ob_ID e) s1)))"

definition batch_of :: "int \<Rightarrow> nat" where
  "batch_of batchSize = (if batchSize \<le> 0 then 100 else nat batchSize)"

definition RunOnce ::
  "(nat \<Rightarrow> bool) \<Rightarrow> 'w projector list \<Rightarrow> int \<Rightarrow> 'w relay \<Rightarrow> (nat \<times> relay_error option) \<times> 'w relay" where
  "RunOnce io ps batchSize s =
     (if \<not> io (rs_calls s) then ((0, Some ErrStore), tick_call s)
      else relay_events io ps (FetchUnprocessed (batch_of batchSize) s) 0 (tick_call s))"

subsection \<open>The pump\<close>

fun drain_passes :: "(nat \<Rightarrow> bool) \<Rightarrow> (nat \<Rightarrow> bool) \<Rightarrow> 'w projector list \<Rightarrow> int \<Rightarrow> nat \<Rightarrow> 'w relay \<Rightarrow> 'w relay" where
  "drain_passes ctx io ps b 0 s = s"
| "drain_passes ctx io ps b (Suc i) s =
     (if \<not> ctx (rs_calls s) then s
      else case RunOnce io ps b s of
        ((n, Some err), s1) \<Rightarrow> s1
      | ((n, None), s1) \<Rightarrow> if n = 0 then s1 else drain_passes ctx io ps b i s1)"

definition pump_drain :: "(nat \<Rightarrow> bool) \<Rightarrow> (nat \<Rightarrow> bool) \<Rightarrow> 'w projector list \<Rightarrow> int \<Rightarrow> 'w relay \<Rightarrow> 'w relay" where
  "pump_drain ctx io ps b s = drain_passes ctx io ps b 1000 s"

text \<open>
  \<open>Run\<close>: drain once, then on each tick run the hooks, which append events (one that fails is
  skipped), and drain again.  A list of ticks stands for the ticker, each with what the hooks
  emit and the clock reading of the tick.
\<close>

definition append_or_skip :: "outbox_event \<Rightarrow> 'w relay \<Rightarrow> 'w relay" where
  "append_or_skip e s = (case outbox_Append e s of Err _ \<Rightarrow> s | Ok s' \<Rightarrow> s')"

fun pump_Run :: "(nat \<Rightarrow> bool) \<Rightarrow> (nat \<Rightarrow> bool) \<Rightarrow> 'w projector list \<Rightarrow> int \<Rightarrow>
    (time \<times> outbox_event list) list \<Rightarrow> 'w relay \<Rightarrow> 'w relay" where
  "pump_Run ctx io ps b [] s = pump_drain ctx io ps b s"
| "pump_Run ctx io ps b ((now, emitted) # ticks) s =
     pump_Run ctx io ps b ticks (fold append_or_skip emitted ((pump_drain ctx io ps b s)\<lparr>rs_now := now\<rparr>))"

definition fresh_relay :: "'w \<Rightarrow> time \<Rightarrow> 'w relay" where
  "fresh_relay w now = \<lparr>rs_events = [], rs_applied = [], rs_world = w, rs_calls = 0, rs_now = now, rs_log = []\<rparr>"

subsection \<open>What every call keeps\<close>

text \<open>
  Two projectors have different names; the ledger lists only committed effects; a processed
  event is in the ledger for every projector; and a projector whose effects and ledger rows
  commit together, or whose ledger writes never fail, has at most one effect per event.
\<close>

definition once_only :: "(nat \<Rightarrow> bool) \<Rightarrow> 'w projector \<Rightarrow> bool" where
  "once_only io p \<longleftrightarrow> pj_in_tx p \<or> (\<forall>n. io n)"

definition relay_inv :: "(nat \<Rightarrow> bool) \<Rightarrow> 'w projector list \<Rightarrow> 'w relay \<Rightarrow> bool" where
  "relay_inv io ps s \<longleftrightarrow>
     inj_on pj_Name (set ps) \<and> distinct (map ob_ID (rs_events s)) \<and>
     set (rs_applied s) \<subseteq> set (rs_log s) \<and>
     (\<forall>e \<in> set (rs_events s). ob_IsProcessed e \<longrightarrow> (\<forall>p \<in> set ps. (pj_Name p, ob_ID e) \<in> set (rs_applied s))) \<and>
     (\<forall>p \<in> set ps. once_only io p \<longrightarrow>
        (\<forall>i. count_list (rs_log s) (pj_Name p, i) \<le> (if (pj_Name p, i) \<in> set (rs_applied s) then 1 else 0)))"

lemma relay_inv_tick [simp]: "relay_inv io ps (tick_call s) = relay_inv io ps s"
  by (simp add: relay_inv_def tick_call_def)

lemma relay_inv_world [simp]: "relay_inv io ps (s\<lparr>rs_world := w\<rparr>) = relay_inv io ps s"
  by (simp add: relay_inv_def)

lemma tick_call_simps [simp]:
  "rs_events (tick_call s) = rs_events s" "rs_applied (tick_call s) = rs_applied s"
  "rs_log (tick_call s) = rs_log s" "rs_world (tick_call s) = rs_world s"
  by (simp_all add: tick_call_def)

lemma MarkApplied_simps [simp]:
  "rs_events (MarkApplied p i s) = rs_events s" "rs_log (MarkApplied p i s) = rs_log s"
  "set (rs_applied (MarkApplied p i s)) = insert (p, i) (set (rs_applied s))"
  "rs_calls (MarkApplied p i s) = rs_calls s"
  by (simp_all add: MarkApplied_def)

lemma run_projector_cases:
  assumes "run_projector p e s = (ok, s1)"
  shows "ok \<Longrightarrow> rs_log s1 = (pj_Name p, ob_ID e) # rs_log s \<and> rs_events s1 = rs_events s \<and>
      set (rs_applied s1) = (if pj_in_tx p then {(pj_Name p, ob_ID e)} else {}) \<union> set (rs_applied s)"
    and "\<not> ok \<Longrightarrow> \<exists>w. s1 = s\<lparr>rs_world := w\<rparr>"
proof -
  show "\<not> ok \<Longrightarrow> \<exists>w. s1 = s\<lparr>rs_world := w\<rparr>"
  proof -
    assume "\<not> ok"
    with assms have "s1 = s\<lparr>rs_world := rs_world s1\<rparr>"
      by (auto simp: run_projector_def split: prod.splits bool.splits if_splits)
    then show ?thesis ..
  qed
qed (use assms in \<open>auto simp: run_projector_def split: prod.splits bool.splits\<close>)

lemma relay_inv_projected:
  assumes inv: "relay_inv io ps s" and p: "p \<in> set ps" and new: "(pj_Name p, ob_ID e) \<notin> set (rs_applied s)"
    and s1: "rs_log s1 = (pj_Name p, ob_ID e) # rs_log s" "rs_events s1 = rs_events s"
      "set (rs_applied s1) = (if m then {(pj_Name p, ob_ID e)} else {}) \<union> set (rs_applied s)"
    and m: "once_only io p \<longrightarrow> m"
  shows "relay_inv io ps s1"
proof -
  have "count_list (rs_log s1) (pj_Name q, i) \<le> (if (pj_Name q, i) \<in> set (rs_applied s1) then 1 else 0)"
    if q: "q \<in> set ps" "once_only io q" for q i
  proof -
    have old: "count_list (rs_log s) (pj_Name q, i) \<le> (if (pj_Name q, i) \<in> set (rs_applied s) then 1 else 0)"
      using inv q by (auto simp: relay_inv_def)
    show ?thesis
    proof (cases "pj_Name q = pj_Name p")
      case True
      then have "q = p" using inv p q(1) by (auto simp: relay_inv_def inj_on_def)
      with old s1(1,3) new m q(2) show ?thesis by (auto split: if_splits)
    next
      case False
      with old s1(1,3) show ?thesis by (simp split: if_splits)
    qed
  qed
  with inv s1 show ?thesis by (auto simp: relay_inv_def)
qed

lemma dispatch_inv:
  assumes "dispatch io qs e s = (r, s')" "relay_inv io ps s" "set qs \<subseteq> set ps"
  shows "relay_inv io ps s' \<and> rs_events s' = rs_events s \<and> set (rs_applied s) \<subseteq> set (rs_applied s') \<and>
    (r = AllApplied \<longrightarrow> (\<forall>q \<in> set qs. (pj_Name q, ob_ID e) \<in> set (rs_applied s')))"
  using assms
proof (induction io qs e s rule: dispatch.induct)
  case (2 io p ps' e s)
  show ?case
  proof (cases "io (rs_calls s) \<and> \<not> IsApplied (pj_Name p) (ob_ID e) s")
    case False
    with 2 show ?thesis by (auto simp: IsApplied_def split: if_splits)
  next
    case True
    obtain ok s1 where proj: "run_projector p e (tick_call s) = (ok, s1)" by fastforce
    show ?thesis
    proof (cases ok)
      case False
      with 2(3,4) True proj run_projector_cases(2) [OF proj] show ?thesis by auto
    next
      case ok: True
      note s1 = run_projector_cases(1) [OF proj ok]
      let ?s2 = "tick_call (MarkApplied (pj_Name p) (ob_ID e) s1)"
      have new: "(pj_Name p, ob_ID e) \<notin> set (rs_applied (tick_call s))" and p: "p \<in> set ps"
        using True 2(5) by (auto simp: IsApplied_def)
      have inv: "relay_inv io ps (tick_call s)" using 2(4) by simp
      show ?thesis
      proof (cases "io (rs_calls s1)")
        case False
        with s1 have "relay_inv io ps s1"
          by (intro relay_inv_projected [OF inv p new, of s1 "pj_in_tx p"]) (auto simp: once_only_def)
        with 2(3) True False proj ok s1 show ?thesis by auto
      next
        case io: True
        from s1 have "relay_inv io ps (MarkApplied (pj_Name p) (ob_ID e) s1)"
          by (intro relay_inv_projected [OF inv p new, of _ True]) auto
        with 2(2) 2(3,5) True proj ok io s1 show ?thesis
          by (auto simp: IsApplied_def)
      qed
    qed
  qed
qed auto

lemma MarkProcessed_simps [simp]:
  "map ob_ID (rs_events (MarkProcessed i s)) = map ob_ID (rs_events s)"
  "rs_applied (MarkProcessed i s) = rs_applied s" "rs_log (MarkProcessed i s) = rs_log s"
  by (simp_all add: MarkProcessed_def)

lemma MarkProcessed_events:
  "e \<in> set (rs_events (MarkProcessed i s)) \<Longrightarrow> ob_IsProcessed e \<Longrightarrow>
     ob_ID e = i \<or> e \<in> set (rs_events s)"
  by (auto simp: MarkProcessed_def split: if_splits)

lemma relay_inv_processed:
  "relay_inv io ps s \<Longrightarrow> \<forall>q \<in> set ps. (pj_Name q, i) \<in> set (rs_applied s) \<Longrightarrow> relay_inv io ps (MarkProcessed i s)"
  by (auto simp: relay_inv_def dest!: MarkProcessed_events)

lemma relay_events_inv:
  "relay_events io ps es n s = (res, s') \<Longrightarrow> relay_inv io ps s \<Longrightarrow> relay_inv io ps s'"
  by (induction es arbitrary: n s)
    (auto dest!: dispatch_inv simp: relay_inv_processed
      split: prod.splits dispatch_result.splits if_splits)

lemma RunOnce_inv: "RunOnce io ps b s = (res, s') \<Longrightarrow> relay_inv io ps s \<Longrightarrow> relay_inv io ps s'"
  by (auto simp: RunOnce_def dest: relay_events_inv split: if_splits)

lemma drain_inv: "relay_inv io ps s \<Longrightarrow> relay_inv io ps (drain_passes ctx io ps b i s)"
  by (induction i arbitrary: s) (auto dest: RunOnce_inv split: prod.splits option.splits)

lemma Append_inv:
  assumes "outbox_Append e s = Ok s'" "relay_inv io ps s"
  shows "relay_inv io ps s'"
proof -
  define e' where "e' = e\<lparr>ob_Refs := or_empty_object (ob_Refs e),
    ob_Payload := or_empty_object (ob_Payload e), ob_ProcessedAt := None\<rparr>"
  have s': "s' = s\<lparr>rs_events := rs_events s @ [e']\<rparr>" "\<not> ob_IsProcessed e'"
    and fresh: "ob_ID e' \<notin> set (map ob_ID (rs_events s))"
    using assms(1)
    by (auto simp: outbox_Append_def ob_IsProcessed_def list_ex_iff e'_def split: if_split_asm)
  show ?thesis
    unfolding relay_inv_def
    using assms(2) [unfolded relay_inv_def] s' fresh by (intro conjI) simp_all
qed

lemma append_or_skip_inv: "relay_inv io ps s \<Longrightarrow> relay_inv io ps (fold append_or_skip es s)"
  by (induction es arbitrary: s) (auto simp: append_or_skip_def dest: Append_inv split: sum.splits)

lemma pump_Run_inv: "relay_inv io ps s \<Longrightarrow> relay_inv io ps (pump_Run ctx io ps b ticks s)"
proof (induction ticks arbitrary: s)
  case (Cons t ticks)
  have "relay_inv io ps ((pump_drain ctx io ps b s)\<lparr>rs_now := fst t\<rparr>)"
    using drain_inv [OF Cons.prems] by (simp add: relay_inv_def pump_drain_def)
  then show ?case by (cases t) (simp add: Cons.IH append_or_skip_inv)
qed (simp add: pump_drain_def drain_inv)

text \<open>The calls of the two goroutine-safe clients: producers and the pump.\<close>

datatype outbox_op =
    OpAppend outbox_event
  | OpRunOnce int
  | OpPump int "(time \<times> outbox_event list) list"

fun outbox_exec :: "(nat \<Rightarrow> bool) \<Rightarrow> (nat \<Rightarrow> bool) \<Rightarrow> 'w projector list \<Rightarrow> outbox_op \<Rightarrow>
    'w relay \<Rightarrow> relay_error + 'w relay" where
  "outbox_exec ctx io ps (OpAppend e) s = outbox_Append e s"
| "outbox_exec ctx io ps (OpRunOnce b) s = Ok (snd (RunOnce io ps b s))"
| "outbox_exec ctx io ps (OpPump b ticks) s = Ok (pump_Run ctx io ps b ticks s)"

lemma dispatch_calls: "dispatch io ps e s = (r, s') \<Longrightarrow> rs_calls s \<le> rs_calls s'"
proof (induction io ps e s rule: dispatch.induct)
  case (2 io p ps e s)
  obtain ok s1 where proj: "run_projector p e (tick_call s) = (ok, s1)" by fastforce
  then have "rs_calls s1 = rs_calls (tick_call s)"
    by (auto simp: run_projector_def split: prod.splits bool.splits)
  with 2 proj show ?case
    by (fastforce simp: tick_call_def split: if_splits bool.splits prod.splits)
qed simp

lemma relay_events_calls: "relay_events io ps es n s = (res, s') \<Longrightarrow> rs_calls s \<le> rs_calls s'"
  by (induction es arbitrary: n s)
    (fastforce dest: dispatch_calls simp: tick_call_def MarkProcessed_def
      split: prod.splits dispatch_result.splits if_splits)+

lemma RunOnce_calls: "RunOnce io ps b s = (res, s') \<Longrightarrow> rs_calls s \<le> rs_calls s'"
  by (auto simp: RunOnce_def tick_call_def dest!: relay_events_calls split: if_splits)

lemma drain_calls: "rs_calls s \<le> rs_calls (drain_passes ctx io ps b i s)"
proof (induction i arbitrary: s)
  case (Suc i)
  obtain n err s1 where run: "RunOnce io ps b s = ((n, err), s1)" by (metis prod.exhaust)
  from RunOnce_calls [OF run] Suc [of s1] run show ?case by (auto split: option.splits)
qed simp

lemma append_or_skip_calls: "rs_calls (fold append_or_skip es s) = rs_calls s"
  by (induction es arbitrary: s) (auto simp: append_or_skip_def outbox_Append_def split: sum.splits if_splits)

lemma pump_Run_calls: "rs_calls s \<le> rs_calls (pump_Run ctx io ps b ticks s)"
proof (induction ticks arbitrary: s)
  case (Cons t ticks)
  let ?s = "fold append_or_skip (snd t) ((pump_drain ctx io ps b s)\<lparr>rs_now := fst t\<rparr>)"
  have "rs_calls s \<le> rs_calls ?s"
    using drain_calls by (simp add: append_or_skip_calls pump_drain_def)
  also note Cons.IH [of ?s]
  finally show ?case by (cases t) simp
qed (simp add: pump_drain_def drain_calls)

lemma outbox_exec_inv:
  "outbox_exec ctx io ps op s = Ok s' \<Longrightarrow> relay_inv io ps s \<Longrightarrow> relay_inv io ps s'"
  by (cases op) (auto intro: Append_inv pump_Run_inv RunOnce_inv [OF prod.collapse [symmetric]])

lemma outbox_exec_calls: "outbox_exec ctx io ps op s = Ok s' \<Longrightarrow> rs_calls s \<le> rs_calls s'"
proof (cases op)
  case (OpAppend e)
  then show "outbox_exec ctx io ps op s = Ok s' \<Longrightarrow> ?thesis"
    by (auto simp: outbox_Append_def split: if_split_asm)
qed (auto intro: pump_Run_calls RunOnce_calls [OF prod.collapse [symmetric]])

interpretation outbox: aggregate "outbox_exec ctx io ps" "relay_inv io ps" "\<lambda>s. int (rs_calls s)"
  for ctx io ps
  by unfold_locales (auto dest: outbox_exec_inv outbox_exec_calls)

text \<open>
  C2: what the relay promises.  Whatever the producers append, however often the passes run
  and whichever statements fail, every projector has returned without an error for a processed
  event, and a projector whose effect and ledger row commit in one transaction has done so at most
  once per event.  Without store failures that holds for every projector; what a projector
  outside a transaction has written before it failed is not counted.
\<close>

theorem outbox_delivery:
  assumes "inj_on pj_Name (set ps)" "p \<in> set ps"
    and s: "s = run_ops (outbox_exec ctx io ps) ops (fresh_relay w now)"
  shows "(\<forall>e \<in> set (rs_events s). ob_IsProcessed e \<longrightarrow> (pj_Name p, ob_ID e) \<in> set (rs_log s)) \<and>
    (pj_in_tx p \<or> (\<forall>n. io n) \<longrightarrow> count_list (rs_log s) (pj_Name p, i) \<le> 1)"
proof -
  have "relay_inv io ps s"
    unfolding s using assms(1) by (intro outbox.run_inv) (simp add: relay_inv_def fresh_relay_def)
  then show ?thesis
    using assms(2) by (auto simp: relay_inv_def once_only_def dest!: bspec [of _ _ p] spec [of _ i] split: if_splits)
qed

subsection \<open>Progress of a drain\<close>

text \<open>
  An event is healthy when every projector accepts it.  With a working store a pass processes
  every healthy event it fetched, whatever the others do.
\<close>

definition healthy :: "'w projector list \<Rightarrow> outbox_event \<Rightarrow> bool" where
  "healthy ps e \<longleftrightarrow> (\<forall>p \<in> set ps. \<forall>w. fst (pj_Project p e w))"

definition pending :: "'w relay \<Rightarrow> outbox_event list" where
  "pending s = filter (\<lambda>e. \<not> ob_IsProcessed e) (rs_events s)"

lemma pending_simps [simp]:
  "pending (tick_call s) = pending s"
  "pending (MarkProcessed i s) = filter (\<lambda>e. ob_ID e \<noteq> i) (pending s)"
proof -
  have "filter (\<lambda>e. \<not> ob_IsProcessed e) (map (\<lambda>e. if ob_ID e = i \<and> ob_ProcessedAt e = None
      then e\<lparr>ob_ProcessedAt := Some t\<rparr> else e) es) =
    filter (\<lambda>e. ob_ID e \<noteq> i) (filter (\<lambda>e. \<not> ob_IsProcessed e) es)" for t es
    by (induction es) (auto simp: ob_IsProcessed_def)
  then show "pending (MarkProcessed i s) = filter (\<lambda>e. ob_ID e \<noteq> i) (pending s)"
    by (simp add: pending_def MarkProcessed_def)
qed (simp add: pending_def)

lemma dispatch_events: "dispatch io qs e s = (r, s') \<Longrightarrow> rs_events s' = rs_events s"
proof (induction io qs e s rule: dispatch.induct)
  case (2 io p ps e s)
  obtain ok s1 where proj: "run_projector p e (tick_call s) = (ok, s1)" by fastforce
  then have "rs_events s1 = rs_events s"
    by (auto simp: run_projector_def split: prod.splits bool.splits)
  with 2 proj show ?case
    by (fastforce split: if_splits bool.splits prod.splits)
qed simp

lemma dispatch_store_ok:
  "dispatch io qs e s = (r, s') \<Longrightarrow> \<forall>n. io n \<Longrightarrow> r \<noteq> StoreFailed"
  by (induction io qs e s rule: dispatch.induct) (auto split: if_splits bool.splits prod.splits)

lemma dispatch_healthy:
  "dispatch io qs e s = (r, s') \<Longrightarrow> \<forall>n. io n \<Longrightarrow> healthy qs e \<Longrightarrow> r = AllApplied"
proof (induction io qs e s rule: dispatch.induct)
  case (2 io p ps e s)
  obtain ok s1 where proj: "run_projector p e (tick_call s) = (ok, s1)" by fastforce
  moreover have "fst (pj_Project p e (rs_world (tick_call s)))"
    using 2(5) by (simp only: healthy_def list.set) blast
  ultimately have ok
    by (auto simp: run_projector_def split: prod.splits bool.splits)
  have rest: "healthy ps e" using 2(5) by (simp add: healthy_def)
  from 2 proj rest \<open>ok\<close> show ?case by (auto split: if_splits)
qed simp

lemma relay_events_progress:
  assumes "relay_events io ps es n s = ((n', err), s')" "\<forall>k. io k"
  shows "err = None \<and> n + length (filter (healthy ps) es) \<le> n' \<and>
    (\<exists>D. ob_ID ` {e \<in> set es. healthy ps e} \<subseteq> D \<and>
       pending s' = filter (\<lambda>e. ob_ID e \<notin> D) (pending s))"
  using assms
proof (induction es arbitrary: n s)
  case Nil
  then show ?case by (auto intro!: exI [of _ "{}"])
next
  case (Cons e es)
  obtain r s1 where d: "dispatch io ps e s = (r, s1)" by fastforce
  then have same: "pending s1 = pending s" by (simp add: pending_def dispatch_events)
  show ?case
  proof (cases r)
    case AllApplied
    let ?s2 = "tick_call (MarkProcessed (ob_ID e) s1)"
    have "relay_events io ps es (n + 1) ?s2 = ((n', err), s')"
      using Cons.prems(1) d AllApplied spec [OF Cons.prems(2), of "rs_calls s1"] by simp
    from Cons.IH [OF this Cons.prems(2)] obtain D where
      "err = None" "n + 1 + length (filter (healthy ps) es) \<le> n'"
      "ob_ID ` {e \<in> set es. healthy ps e} \<subseteq> D" "pending s' = filter (\<lambda>e. ob_ID e \<notin> D) (pending ?s2)"
      by blast
    then show ?thesis
      by (auto simp: same intro!: exI [of _ "insert (ob_ID e) D"] filter_cong)
  next
    case ProjectorFailed
    with d Cons.prems dispatch_healthy [OF d] have "\<not> healthy ps e" by auto
    moreover have "relay_events io ps es n s1 = ((n', err), s')"
      using Cons.prems(1) d ProjectorFailed by simp
    from Cons.IH [OF this Cons.prems(2)] obtain D where
      "err = None" "n + length (filter (healthy ps) es) \<le> n'"
      "ob_ID ` {e \<in> set es. healthy ps e} \<subseteq> D" "pending s' = filter (\<lambda>e. ob_ID e \<notin> D) (pending s1)"
      by blast
    ultimately show ?thesis by (auto simp: same intro!: exI [of _ D])
  next
    case StoreFailed
    with dispatch_store_ok [OF d] Cons.prems show ?thesis by simp
  qed
qed

lemma pending_subset_healthy:
  "length (filter P (filter Q xs)) \<le> length (filter P xs)"
  by (induction xs) auto

text \<open>One pass over a batch that is larger than the number of unhealthy events.\<close>

lemma RunOnce_progress:
  assumes run: "RunOnce io ps b s = ((n, err), s')" and io: "\<forall>k. io k"
    and ids: "distinct (map ob_ID (rs_events s))"
  defines "H \<equiv> length (filter (healthy ps) (pending s))"
    and "B \<equiv> length (filter (\<lambda>e. \<not> healthy ps e) (pending s))"
  shows "err = None"
    and "min (batch_of b - B) H \<le> n"
    and "length (filter (healthy ps) (pending s')) \<le> H - (batch_of b - B)"
    and "length (filter (\<lambda>e. \<not> healthy ps e) (pending s')) \<le> B"
proof -
  let ?f = "FetchUnprocessed (batch_of b) s"
  have fetch: "?f = take (batch_of b) (sort_key ob_ID (pending s))"
    by (simp add: FetchUnprocessed_def unprocessed_def pending_def)
  obtain D where "err = None" and n: "length (filter (healthy ps) ?f) \<le> n"
    and D: "ob_ID ` {e \<in> set ?f. healthy ps e} \<subseteq> D" "pending s' = filter (\<lambda>e. ob_ID e \<notin> D) (pending s)"
    using relay_events_progress [of io ps ?f 0 "tick_call s" n err s'] run io
    by (auto simp: RunOnce_def)
  show "err = None" by fact
  have mset: "length (filter P (sort_key ob_ID (pending s))) = length (filter P (pending s))" for P
    by (simp add: filter_sort)
  have "length (filter (\<lambda>e. \<not> healthy ps e) ?f) \<le> B"
    unfolding fetch B_def mset [symmetric]
    by (metis append_take_drop_id filter_append le_add1 length_append)
  moreover have "length ?f = min (batch_of b) (H + B)"
    unfolding fetch H_def B_def using sum_length_filter_compl [of "healthy ps" "pending s"] by simp
  ultimately have healthy_fetched: "min (batch_of b - B) H \<le> length (filter (healthy ps) ?f)"
    using sum_length_filter_compl [of "healthy ps" ?f] by linarith
  with n show "min (batch_of b - B) H \<le> n" by simp
  have "distinct (map ob_ID (pending s))"
    using ids by (simp add: pending_def distinct_map_filter)
  then have inj: "inj_on ob_ID (set (pending s))" and dist: "distinct (pending s)"
    by (simp_all add: distinct_map)
  have sub: "set ?f \<subseteq> set (pending s)" "distinct ?f"
    unfolding fetch using set_take_subset [of "batch_of b" "sort_key ob_ID (pending s)"] dist
    by (auto intro: distinct_take)
  have "set (filter (healthy ps) (pending s')) \<subseteq> set (filter (healthy ps) (pending s)) - set (filter (healthy ps) ?f)"
    using D by auto
  then have "card (set (filter (healthy ps) (pending s'))) \<le>
      card (set (filter (healthy ps) (pending s)) - set (filter (healthy ps) ?f))"
    by (intro card_mono) auto
  also have "\<dots> = card (set (filter (healthy ps) (pending s))) - card (set (filter (healthy ps) ?f))"
    using sub(1) by (intro card_Diff_subset) auto
  finally have "length (filter (healthy ps) (pending s')) \<le> H - length (filter (healthy ps) ?f)"
    using dist sub(2) D(2) by (simp add: distinct_card H_def del: set_filter)
  with healthy_fetched show "length (filter (healthy ps) (pending s')) \<le> H - (batch_of b - B)"
    by linarith
  show "length (filter (\<lambda>e. \<not> healthy ps e) (pending s')) \<le> B"
    using D(2) by (simp add: B_def pending_subset_healthy del: filter_filter)
qed

lemma relay_events_ids: "relay_events io ps es n s = (res, s') \<Longrightarrow> map ob_ID (rs_events s') = map ob_ID (rs_events s)"
  by (induction es arbitrary: n s)
    (auto dest!: dispatch_events split: prod.splits dispatch_result.splits if_splits)

lemma RunOnce_ids: "RunOnce io ps b s = (res, s') \<Longrightarrow> map ob_ID (rs_events s') = map ob_ID (rs_events s)"
  by (auto simp: RunOnce_def dest: relay_events_ids split: if_splits)

lemma drain_progress:
  assumes "\<forall>k. io k" "\<forall>k. ctx k" "distinct (map ob_ID (rs_events s))"
    and "length (filter (\<lambda>e. \<not> healthy ps e) (pending s)) \<le> B" "B < batch_of b"
    and "length (filter (healthy ps) (pending s)) \<le> i * (batch_of b - B)"
  shows "filter (healthy ps) (pending (drain_passes ctx io ps b i s)) = []"
  using assms
proof (induction i arbitrary: s)
  case (Suc i)
  obtain n err s' where run: "RunOnce io ps b s = ((n, err), s')" by (metis prod.exhaust)
  note pr = RunOnce_progress [OF run Suc.prems(1,3)]
  let ?h = "\<lambda>s. length (filter (healthy ps) (pending s))"
  let ?B = "length (filter (\<lambda>e. \<not> healthy ps e) (pending s))"
  have le: "batch_of b - B \<le> batch_of b - ?B" using Suc.prems(4) by simp
  show ?case
  proof (cases "n = 0")
    case True
    with pr(2) le Suc.prems(5) have "?h s = 0" by linarith
    with pr(3) have "?h s' = 0" by simp
    with run pr(1) True Suc.prems(2) show ?thesis by simp
  next
    case False
    have "?h s' \<le> i * (batch_of b - B)"
      using pr(3) le Suc.prems(6) by simp
    moreover have "distinct (map ob_ID (rs_events s'))"
      using RunOnce_ids [OF run] Suc.prems(3) by simp
    ultimately have "filter (healthy ps) (pending (drain_passes ctx io ps b i s')) = []"
      using pr(4) Suc.prems(1,2,4,5) by (intro Suc.IH) auto
    with run pr(1) False spec [OF Suc.prems(2), of "rs_calls s"] show ?thesis by simp
  qed
qed simp

text \<open>
  C33: a drain delivers the backlog.  With a working store and fewer unhealthy pending events
  than the batch holds, one drain processes every healthy pending event, as long as there are
  at most 1000 passes' worth of them; the unhealthy ones do not hold the others up.
\<close>

theorem outbox_drain_delivers:
  assumes "\<forall>n. io n" "\<forall>n. ctx n" "distinct (map ob_ID (rs_events s))"
    and "length (filter (\<lambda>e. \<not> healthy ps e) (pending s)) < batch_of b"
    and "length (filter (healthy ps) (pending s)) \<le>
           1000 * (batch_of b - length (filter (\<lambda>e. \<not> healthy ps e) (pending s)))"
    and "e \<in> set (rs_events (pump_drain ctx io ps b s))" "healthy ps e"
  shows "ob_IsProcessed e"
  using drain_progress [OF assms(1-3) order.refl assms(4,5)] assms(6,7)
  by (auto simp: pump_drain_def pending_def filter_empty_conv)

subsection \<open>Starvation\<close>

text \<open>An event is stuck when a projector that has not applied it keeps refusing it.\<close>

definition stuck :: "'w projector list \<Rightarrow> 'w relay \<Rightarrow> outbox_event \<Rightarrow> bool" where
  "stuck ps s e \<longleftrightarrow>
     (\<exists>p \<in> set ps. (pj_Name p, ob_ID e) \<notin> set (rs_applied s) \<and> (\<forall>w. \<not> fst (pj_Project p e w)))"

lemma run_projector_refused:
  assumes "run_projector p e s = (ok, s1)"
  shows "ok = fst (pj_Project p e (rs_world s))"
  using assms by (auto simp: run_projector_def split: prod.splits bool.splits)

lemma dispatch_stuck:
  assumes "dispatch io qs e s = (r, s')" "p \<in> set qs" "(pj_Name p, ob_ID e) \<notin> set (rs_applied s)"
    and "\<forall>w. \<not> fst (pj_Project p e w)" "inj_on pj_Name (set qs)" "set qs \<subseteq> set ps" "inj_on pj_Name (set ps)"
  shows "r \<noteq> AllApplied \<and> set (rs_applied s') \<subseteq> set (rs_applied s) \<union> (- {pj_Name p}) \<times> {ob_ID e}"
  using assms
proof (induction qs arbitrary: s)
  case (Cons q qs)
  obtain ok s1 where proj: "run_projector q e (tick_call s) = (ok, s1)" by fastforce
  note ok = run_projector_refused [OF proj]
  have inj: "inj_on pj_Name (set qs)" "set qs \<subseteq> set ps" using Cons.prems(5,6) by auto
  consider "\<not> io (rs_calls s)" | "io (rs_calls s)" "IsApplied (pj_Name q) (ob_ID e) s"
    | "io (rs_calls s)" "\<not> IsApplied (pj_Name q) (ob_ID e) s" by blast
  then show ?case
  proof cases
    case 1
    with Cons.prems(1) show ?thesis by auto
  next
    case 2
    then have "dispatch io qs e (tick_call s) = (r, s')" "p \<in> set qs"
      using Cons.prems(1-3) by (auto simp: IsApplied_def)
    from Cons.IH [OF this _ Cons.prems(4) inj Cons.prems(7)] Cons.prems(3) show ?thesis by simp
  next
    case 3
    show ?thesis
    proof (cases ok)
      case False
      with 3 proj Cons.prems(1) run_projector_cases(2) [OF proj] show ?thesis by auto
    next
      case True
      note s1 = run_projector_cases(1) [OF proj True]
      have "q \<noteq> p" using True ok Cons.prems(4) by auto
      then have p: "p \<in> set qs" and names: "pj_Name q \<noteq> pj_Name p"
        using Cons.prems(2,5) by (auto simp: inj_on_def)
      show ?thesis
      proof (cases "io (rs_calls s1)")
        case False
        with 3 proj True s1 Cons.prems(1) names show ?thesis by (auto split: if_splits)
      next
        case io: True
        let ?s2 = "tick_call (MarkApplied (pj_Name q) (ob_ID e) s1)"
        have applied: "set (rs_applied ?s2) = insert (pj_Name q, ob_ID e) (set (rs_applied s))"
          using s1 by auto
        have rest: "dispatch io qs e ?s2 = (r, s')" using 3 proj True io Cons.prems(1) by simp
        have new: "(pj_Name p, ob_ID e) \<notin> set (rs_applied ?s2)"
          unfolding applied using names Cons.prems(3) by simp
        from Cons.IH [OF rest p new Cons.prems(4) inj Cons.prems(7), unfolded applied]
        show ?thesis using names by (elim conjE, intro conjI) (assumption, erule subset_trans, simp)
      qed
    qed
  qed
qed simp

lemma dispatch_keeps_stuck:
  assumes d: "dispatch io ps e0 s = (r, s')" and e: "stuck ps s e" and e0: "stuck ps s e0"
    and ids: "ob_ID e = ob_ID e0 \<longrightarrow> e = e0" and inj: "inj_on pj_Name (set ps)"
  shows "stuck ps s' e"
proof -
  obtain p where p: "p \<in> set ps" "(pj_Name p, ob_ID e) \<notin> set (rs_applied s)" "\<forall>w. \<not> fst (pj_Project p e w)"
    using e by (auto simp: stuck_def)
  obtain q where q: "q \<in> set ps" "(pj_Name q, ob_ID e0) \<notin> set (rs_applied s)" "\<forall>w. \<not> fst (pj_Project q e0 w)"
    using e0 by (auto simp: stuck_def)
  have "(pj_Name p, ob_ID e) \<notin> set (rs_applied s')"
  proof (cases "e = e0")
    case True
    with dispatch_stuck [OF d p(1) _ _ inj order.refl inj] p(2,3) show ?thesis by auto
  next
    case False
    with dispatch_stuck [OF d q inj order.refl inj] p(2) ids show ?thesis by auto
  qed
  with p show ?thesis by (auto simp: stuck_def)
qed

lemma relay_events_stuck:
  assumes "relay_events io ps es n s = ((n', err), s')" "inj_on pj_Name (set ps)" "inj_on ob_ID B"
    and "set es \<subseteq> B" "\<forall>e \<in> B. stuck ps s e"
  shows "n' = n \<and> rs_events s' = rs_events s \<and> (\<forall>e \<in> B. stuck ps s' e)"
  using assms
proof (induction es arbitrary: s)
  case (Cons e0 es)
  obtain r s1 where d: "dispatch io ps e0 s = (r, s1)" by fastforce
  have e0: "stuck ps s e0" and inB: "e0 \<in> B" using Cons.prems(4,5) by auto
  have stuck: "\<forall>e \<in> B. stuck ps s1 e"
    using dispatch_keeps_stuck [OF d _ e0 _ Cons.prems(2)] Cons.prems(3,5) inB by (auto simp: inj_on_def)
  have "r \<noteq> AllApplied"
    using dispatch_stuck [OF d _ _ _ Cons.prems(2) order.refl Cons.prems(2)] e0 by (auto simp: stuck_def)
  then show ?case
    using Cons.IH [of s1] Cons.prems(1-4) d stuck dispatch_events [OF d] by (cases r) auto
qed simp

text \<open>
  a full batch of stuck events stops the relay.  The relay always fetches the oldest
  pending events and keeps no record of failures, so once as many stuck events as the batch
  holds are the oldest ones, a drain changes nothing: no younger event is delivered, and the
  events are still stuck afterwards.
\<close>

theorem outbox_starvation:
  assumes "inj_on pj_Name (set ps)" "distinct (map ob_ID (rs_events s))"
    and "\<forall>e \<in> set (FetchUnprocessed (batch_of b) s). stuck ps s e"
  shows "rs_events (pump_drain ctx io ps b s) = rs_events s \<and>
    (\<forall>e \<in> set (FetchUnprocessed (batch_of b) s). stuck ps (pump_drain ctx io ps b s) e)"
proof -
  let ?B = "FetchUnprocessed (batch_of b) s"
  have "set ?B \<subseteq> set (rs_events s)"
    by (auto simp: FetchUnprocessed_def unprocessed_def dest: in_set_takeD)
  then have inj: "inj_on ob_ID (set ?B)"
    using assms(2) by (auto simp: distinct_map intro: inj_on_subset)
  obtain n err s' where run: "RunOnce io ps b s = ((n, err), s')" by (metis prod.exhaust)
  have tick: "stuck ps (tick_call s) e = stuck ps s e" for e by (simp add: stuck_def)
  have "n = 0 \<and> rs_events s' = rs_events s \<and> (\<forall>e \<in> set ?B. stuck ps s' e)"
    using run relay_events_stuck [of io ps ?B 0 "tick_call s" n err s', OF _ assms(1) inj order.refl] assms(3)
    by (auto simp: RunOnce_def tick split: if_splits)
  moreover have "pump_drain ctx io ps b s \<in> {s, s'}"
  proof -
    have "(1000::nat) = Suc 999" by simp
    with run calculation show ?thesis
      unfolding pump_drain_def by (simp only: drain_passes.simps) (auto split: option.splits)
  qed
  ultimately show ?thesis using assms(3) by auto
qed

subsection \<open>Witnesses\<close>

text \<open>One projector that counts its effects and refuses the events of type \<open>poison\<close>.\<close>

definition counting :: "nat projector" where
  "counting = \<lparr>pj_Name = ''wake'', pj_Project = (\<lambda>e w. (ob_EventType e \<noteq> ''poison'', w + 1)), pj_in_tx = True\<rparr>"

definition sample_event :: "gostring \<Rightarrow> gostring \<Rightarrow> outbox_event" where
  "sample_event i ty = \<lparr>ob_ID = i, ob_EventType = ty, ob_Refs = [], ob_Payload = [],
     ob_CreatedAt = 1, ob_ProcessedAt = None\<rparr>"

definition sample_relay :: "nat relay" where
  "sample_relay = run_ops (outbox_exec (\<lambda>_. True) (\<lambda>_. True) [counting])
     [OpAppend (sample_event ''1'' ''poison''), OpAppend (sample_event ''2'' ''task''),
      OpAppend (sample_event ''3'' ''task'')] (fresh_relay 0 5)"

lemma sample_relay_facts:
  "inj_on pj_Name (set [counting])" "distinct (map ob_ID (rs_events sample_relay))"
  "map ob_ID (pending sample_relay) = [''1'', ''2'', ''3'']"
  by (simp, code_simp, code_simp)

theorem outbox_delivery_witness:
  "count_list (rs_log (run_ops (outbox_exec (\<lambda>_. True) (\<lambda>n. n \<noteq> 2) [counting])
     [OpAppend (sample_event ''2'' ''task''), OpRunOnce 5, OpRunOnce 5] (fresh_relay 0 5))) (''wake'', ''2'') \<le> 1"
proof -
  let ?s = "run_ops (outbox_exec (\<lambda>_. True) (\<lambda>n. n \<noteq> 2) [counting])
     [OpAppend (sample_event ''2'' ''task''), OpRunOnce 5, OpRunOnce 5] (fresh_relay 0 5)"
  have "pj_in_tx counting" "pj_Name counting = ''wake''" by (simp_all add: counting_def)
  then show ?thesis
    using outbox_delivery [OF sample_relay_facts(1) _ refl, of counting "\<lambda>_. True" "\<lambda>n. n \<noteq> 2"
        "[OpAppend (sample_event ''2'' ''task''), OpRunOnce 5, OpRunOnce 5]" 0 5 "''2''"]
    by (simp del: run_ops.simps)
qed

theorem outbox_drain_delivers_witness:
  "list_all (\<lambda>e. ob_EventType e = ''poison'' \<or> ob_IsProcessed e)
     (rs_events (pump_drain (\<lambda>_. True) (\<lambda>_. True) [counting] 2 sample_relay))"
proof -
  let ?ps = "[counting]" and ?s = "sample_relay"
  let ?s' = "pump_drain (\<lambda>_. True) (\<lambda>_. True) ?ps 2 ?s"
  have h: "healthy ?ps = (\<lambda>e. ob_EventType e \<noteq> ''poison'')"
    by (auto simp: healthy_def counting_def fun_eq_iff)
  have "length (filter (\<lambda>e. \<not> healthy ?ps e) (pending ?s)) = 1"
    "length (filter (healthy ?ps) (pending ?s)) = 2" "batch_of 2 = 2"
    unfolding h by code_simp+
  then have "\<forall>e \<in> set (rs_events ?s'). healthy ?ps e \<longrightarrow> ob_IsProcessed e"
    using outbox_drain_delivers [of "\<lambda>_. True" "\<lambda>_. True" ?s ?ps 2] sample_relay_facts(2) by simp
  then show ?thesis by (auto simp: list_all_iff h)
qed

theorem outbox_starvation_witness:
  "map ob_ID (pending (pump_drain (\<lambda>_. True) (\<lambda>_. True) [counting] 1 sample_relay)) = [''1'', ''2'', ''3'']"
proof -
  have "(pj_Name counting, ob_ID e) \<notin> set (rs_applied sample_relay) \<and> ob_EventType e = ''poison''"
    if "e \<in> set (FetchUnprocessed (batch_of 1) sample_relay)" for e
  proof -
    have "FetchUnprocessed (batch_of 1) sample_relay = [(sample_event ''1'' ''poison'')\<lparr>ob_Refs := ''{}'', ob_Payload := ''{}''\<rparr>]"
      "rs_applied sample_relay = []" by code_simp+
    with that show ?thesis by (simp add: sample_event_def)
  qed
  then have "\<forall>e \<in> set (FetchUnprocessed (batch_of 1) sample_relay). stuck [counting] sample_relay e"
    by (simp add: stuck_def) (simp add: counting_def)
  from outbox_starvation [OF sample_relay_facts(1,2) this] sample_relay_facts(3)
  show ?thesis by (simp add: pending_def)
qed

end
