(* ===== verification/Control_Log.thy ===== *)
theory Control_Log
  imports Row_Time Lifecycle
begin

section \<open>The worker control log (internal/environment)\<close>

text \<open>
  The center's ordered command stream per worker: the event and worker aggregates, the
  \<open>ControlLog\<close> service with its two SQL tables, the connection service and the garbage
  collector.  The tables are a list of rows with three unique keys (id; worker and offset; worker and
  idempotency key) and a map of workers.  Three things are parameters: \<open>ids\<close>, the ids that
  \<open>encoding/json\<close> finds in a payload; \<open>key_first\<close>, whether SQLite names the
  idempotency key when an insert violates several unique keys at once, which it does not
  document; and \<open>others\<close>, what other clients commit between the reads of an \<open>AppendCommand\<close>
  and its insert.  Offsets are counted up one by one and stay far below \<open>2^63\<close>.
\<close>

type_synonym json_ids = "gostring \<Rightarrow> gostring \<times> gostring"

datatype env_error =
    ErrWorkerNotFound | ErrWorkerExists | ErrInvalidWorkerStatus | ErrOffsetRegress
  | ErrEmptyCommandType | ErrEmptyIdempotencyKey | ErrDuplicateIdempotencyKey
  | ErrUniqueViolation | ErrNewWorker gostring

subsection \<open>Workers\<close>

datatype worker_status = WorkerOffline | WorkerOnline | WorkerStatusOther gostring

record env_worker =
  w_id :: gostring
  w_name :: gostring
  w_status :: worker_status
  w_lastAckedOffset :: int
  w_lastHeartbeatAt :: time
  w_createdAt :: time
  w_updatedAt :: time
  w_version :: int

definition NewWorker :: "gostring \<Rightarrow> gostring \<Rightarrow> time \<Rightarrow> env_error + env_worker" where
  "NewWorker i name created =
     (if blank i then Err (ErrNewWorker ''worker id required'')
      else if is_zero_time created then Err (ErrNewWorker ''created_at required'')
      else Ok \<lparr>w_id = i, w_name = name, w_status = WorkerOffline, w_lastAckedOffset = 0,
        w_lastHeartbeatAt = 0, w_createdAt = created, w_updatedAt = created, w_version = 1\<rparr>)"

definition RehydrateWorker :: "env_worker \<Rightarrow> env_error + env_worker" where
  "RehydrateWorker row =
     (case w_status row of
        WorkerStatusOther _ \<Rightarrow> Err ErrInvalidWorkerStatus
      | _ \<Rightarrow> if w_version row < 1 then Err (ErrNewWorker ''version must be >= 1'') else Ok row)"

definition worker_touch :: "time \<Rightarrow> time \<Rightarrow> env_worker \<Rightarrow> env_worker" where
  "worker_touch now at w = w\<lparr>w_updatedAt := stamp now at, w_version := w_version w + 1\<rparr>"

definition worker_Connect :: "time \<Rightarrow> time \<Rightarrow> env_worker \<Rightarrow> env_worker" where
  "worker_Connect now at w = worker_touch now at (w\<lparr>w_status := WorkerOnline, w_lastHeartbeatAt := at\<rparr>)"

definition worker_Disconnect :: "time \<Rightarrow> time \<Rightarrow> env_worker \<Rightarrow> env_worker" where
  "worker_Disconnect now at w = worker_touch now at (w\<lparr>w_status := WorkerOffline\<rparr>)"

definition worker_Heartbeat :: "time \<Rightarrow> time \<Rightarrow> env_worker \<Rightarrow> env_worker" where
  "worker_Heartbeat now at w = worker_touch now at (w\<lparr>w_status := WorkerOnline, w_lastHeartbeatAt := at\<rparr>)"

definition worker_AckOffset :: "time \<Rightarrow> int \<Rightarrow> time \<Rightarrow> env_worker \<Rightarrow> env_worker" where
  "worker_AckOffset now offset at w =
     (if offset \<le> w_lastAckedOffset w then w
      else worker_touch now at (w\<lparr>w_lastAckedOffset := offset\<rparr>))"

subsection \<open>Commands\<close>

record control_event =
  ce_id :: gostring
  ce_workerID :: gostring
  ce_offset :: int
  ce_idempotencyKey :: gostring
  ce_commandType :: gostring
  ce_payload :: gostring
  ce_agentID :: gostring
  ce_taskID :: gostring
  ce_status :: gostring
  ce_statusReason :: gostring
  ce_statusDetail :: gostring
  ce_executionID :: gostring
  ce_statusUpdatedAt :: time
  ce_createdAt :: time

definition NewWorkerControlEvent :: "time \<Rightarrow> control_event \<Rightarrow> env_error + control_event" where
  "NewWorkerControlEvent now inp =
     (if blank (ce_id inp) \<or> blank (ce_workerID inp) then Err ErrWorkerNotFound
      else if blank (ce_commandType inp) then Err ErrEmptyCommandType
      else if blank (ce_idempotencyKey inp) then Err ErrEmptyIdempotencyKey
      else if ce_offset inp < 1 then Err ErrOffsetRegress
      else Ok (inp\<lparr>ce_agentID := TrimSpace (ce_agentID inp), ce_taskID := TrimSpace (ce_taskID inp),
        ce_status := TrimSpace (ce_status inp), ce_statusReason := TrimSpace (ce_statusReason inp),
        ce_statusDetail := TrimSpace (ce_statusDetail inp), ce_executionID := TrimSpace (ce_executionID inp),
        ce_createdAt := stamp now (ce_createdAt inp)\<rparr>))"

definition CommandStatusTerminal :: "gostring \<Rightarrow> bool" where
  "CommandStatusTerminal s \<longleftrightarrow> s \<in> {''succeeded'', ''rejected'', ''failed'', ''expired''}"

subsection \<open>The tables\<close>

record control_db =
  cd_rows :: "control_event list"
  cd_workers :: "gostring \<Rightarrow> env_worker option"

definition empty_control_db :: control_db where
  "empty_control_db = \<lparr>cd_rows = [], cd_workers = (\<lambda>_. None)\<rparr>"

text \<open>A blank string is stored as NULL and read back as the empty string.\<close>

definition nullString :: "gostring \<Rightarrow> gostring" where
  "nullString s = (if blank s then [] else s)"

definition controlEventPayloadAgentTask :: "json_ids \<Rightarrow> gostring \<Rightarrow> gostring \<times> gostring" where
  "controlEventPayloadAgentTask ids payload = map_prod TrimSpace TrimSpace (ids payload)"

definition scanEvent :: "json_ids \<Rightarrow> time \<Rightarrow> control_event \<Rightarrow> env_error + control_event" where
  "scanEvent ids now row =
     (let (pa, pt) = controlEventPayloadAgentTask ids (ce_payload row) in
      NewWorkerControlEvent now (row\<lparr>
        ce_agentID := (if ce_agentID row = [] then pa else ce_agentID row),
        ce_taskID := (if ce_taskID row = [] then pt else ce_taskID row)\<rparr>))"

fun scan_all :: "json_ids \<Rightarrow> time \<Rightarrow> control_event list \<Rightarrow> env_error + control_event list" where
  "scan_all ids now [] = Ok []"
| "scan_all ids now (r # rs) =
     (case scanEvent ids now r of
        Err e \<Rightarrow> Err e
      | Ok v \<Rightarrow> (case scan_all ids now rs of Err e \<Rightarrow> Err e | Ok vs \<Rightarrow> Ok (v # vs)))"

definition events_Append :: "bool \<Rightarrow> control_event \<Rightarrow> control_db \<Rightarrow> env_error + control_db" where
  "events_Append key_first e db =
     (let same_key = list_ex (\<lambda>r. ce_workerID r = ce_workerID e \<and> ce_idempotencyKey r = ce_idempotencyKey e) (cd_rows db);
          same_other = list_ex (\<lambda>r. ce_id r = ce_id e \<or> ce_workerID r = ce_workerID e \<and> ce_offset r = ce_offset e) (cd_rows db)
      in if same_key \<and> (key_first \<or> \<not> same_other) then Err ErrDuplicateIdempotencyKey
         else if same_key \<or> same_other then Err ErrUniqueViolation
         else Ok (db\<lparr>cd_rows := cd_rows db @ [e\<lparr>ce_payload := nullString (ce_payload e)\<rparr>]\<rparr>))"

definition acked :: "control_db \<Rightarrow> gostring \<Rightarrow> int" where
  "acked db w = (case cd_workers db w of None \<Rightarrow> 0 | Some k \<Rightarrow> w_lastAckedOffset k)"

definition MaxOffset :: "gostring \<Rightarrow> control_db \<Rightarrow> int" where
  "MaxOffset w db =
     fold max (map ce_offset (filter (\<lambda>r. ce_workerID r = w) (cd_rows db))) (max 0 (acked db w))"

definition read_one :: "json_ids \<Rightarrow> time \<Rightarrow> control_event option \<Rightarrow> env_error + control_event option" where
  "read_one ids now row =
     (case row of None \<Rightarrow> Ok None
      | Some r \<Rightarrow> (case scanEvent ids now r of Err e \<Rightarrow> Err e | Ok v \<Rightarrow> Ok (Some v)))"

definition FindByIdempotencyKey ::
  "json_ids \<Rightarrow> time \<Rightarrow> gostring \<Rightarrow> gostring \<Rightarrow> control_db \<Rightarrow> env_error + control_event option" where
  "FindByIdempotencyKey ids now w key db =
     read_one ids now (find (\<lambda>r. ce_workerID r = w \<and> ce_idempotencyKey r = key) (cd_rows db))"

definition events_FindByID ::
  "json_ids \<Rightarrow> time \<Rightarrow> gostring \<Rightarrow> control_db \<Rightarrow> env_error + control_event option" where
  "events_FindByID ids now i db = read_one ids now (find (\<lambda>r. ce_id r = i) (cd_rows db))"

definition ListAfter ::
  "json_ids \<Rightarrow> time \<Rightarrow> gostring \<Rightarrow> int \<Rightarrow> control_db \<Rightarrow> env_error + control_event list" where
  "ListAfter ids now w offset db =
     scan_all ids now (sort_key ce_offset (filter (\<lambda>r. ce_workerID r = w \<and> offset < ce_offset r) (cd_rows db)))"

definition controlEventMatchesAgentTask :: "json_ids \<Rightarrow> gostring \<Rightarrow> gostring \<Rightarrow> control_event \<Rightarrow> bool" where
  "controlEventMatchesAgentTask ids agent task e \<longleftrightarrow>
     (let ga = TrimSpace (ce_agentID e); gt = TrimSpace (ce_taskID e);
          (pa, pt) = controlEventPayloadAgentTask ids (ce_payload e) in
      ga = agent \<and> gt = task \<or>
      (if ga = [] then pa else ga) = agent \<and> (if gt = [] then pt else gt) = task)"

definition ListByAgentTask :: "json_ids \<Rightarrow> time \<Rightarrow> gostring \<Rightarrow> gostring \<Rightarrow> gostring \<Rightarrow> gostring \<Rightarrow>
    control_db \<Rightarrow> env_error + control_event list" where
  "ListByAgentTask ids now w ctype agent task db =
     (let rows = filter (\<lambda>r. ce_workerID r = w \<and> ce_commandType r = ctype \<and>
            (ce_agentID r = agent \<and> ce_taskID r = task \<or> ce_agentID r = [] \<or> ce_taskID r = [])) (cd_rows db)
      in case scan_all ids now (rev (sort_key ce_offset rows)) of
           Err e \<Rightarrow> Err e
         | Ok vs \<Rightarrow> Ok (filter (controlEventMatchesAgentTask ids agent task) vs))"

definition LatestNonTerminalByAgentTask :: "json_ids \<Rightarrow> time \<Rightarrow> gostring \<Rightarrow> gostring \<Rightarrow> gostring \<Rightarrow> gostring \<Rightarrow>
    control_db \<Rightarrow> env_error + control_event option" where
  "LatestNonTerminalByAgentTask ids now w ctype agent task db =
     (case ListByAgentTask ids now w ctype agent task db of
        Err e \<Rightarrow> Err e
      | Ok vs \<Rightarrow> Ok (find (\<lambda>e. TrimSpace (ce_status e) \<in> {[], ''pending'', ''started''}) vs))"

record update_status_input =
  us_WorkerID :: gostring
  us_CommandID :: gostring
  us_AgentID :: gostring
  us_TaskID :: gostring
  us_Status :: gostring
  us_StatusReason :: gostring
  us_StatusDetail :: gostring
  us_ExecutionID :: gostring
  us_StatusUpdatedAt :: time

definition status_row_matches :: "update_status_input \<Rightarrow> control_event \<Rightarrow> bool" where
  "status_row_matches inp r \<longleftrightarrow>
     ce_id r = us_CommandID inp \<and> ce_workerID r = us_WorkerID inp \<and>
     (us_AgentID inp = [] \<or> ce_agentID r = [] \<or> ce_agentID r = us_AgentID inp) \<and>
     (us_TaskID inp = [] \<or> ce_taskID r = [] \<or> ce_taskID r = us_TaskID inp)"

definition set_status :: "update_status_input \<Rightarrow> control_event \<Rightarrow> control_event" where
  "set_status inp r = r\<lparr>
     ce_agentID := (if ce_agentID r = [] then us_AgentID inp else ce_agentID r),
     ce_taskID := (if ce_taskID r = [] then us_TaskID inp else ce_taskID r),
     ce_status := nullString (us_Status inp), ce_statusReason := nullString (us_StatusReason inp),
     ce_statusDetail := nullString (us_StatusDetail inp),
     ce_executionID := (if us_ExecutionID inp = [] then ce_executionID r else us_ExecutionID inp),
     ce_statusUpdatedAt := us_StatusUpdatedAt inp\<rparr>"

definition events_UpdateStatus :: "json_ids \<Rightarrow> time \<Rightarrow> update_status_input \<Rightarrow> control_db \<Rightarrow>
    (env_error + control_event option) \<times> control_db" where
  "events_UpdateStatus ids now inp db =
     (if list_ex (status_row_matches inp) (cd_rows db) then
        let db' = db\<lparr>cd_rows := map (\<lambda>r. if status_row_matches inp r then set_status inp r else r) (cd_rows db)\<rparr>
        in (events_FindByID ids now (us_CommandID inp) db', db')
      else (Err ErrWorkerNotFound, db))"

definition gc_collectable :: "time \<Rightarrow> control_db \<Rightarrow> control_event \<Rightarrow> bool" where
  "gc_collectable cutoff db r \<longleftrightarrow>
     created_key (ce_createdAt r) < created_key cutoff \<and>
     (case cd_workers db (ce_workerID r) of None \<Rightarrow> True | Some w \<Rightarrow> ce_offset r \<le> w_lastAckedOffset w)"

definition DeleteAckedBefore :: "time \<Rightarrow> int \<Rightarrow> control_db \<Rightarrow> int \<times> control_db" where
  "DeleteAckedBefore cutoff limit db =
     (let lim = (if limit \<le> 0 then 500 else nat limit);
          doomed = take lim (sort_key (\<lambda>r. created_key (ce_createdAt r)) (filter (gc_collectable cutoff db) (cd_rows db)))
      in (int (length doomed),
          db\<lparr>cd_rows := filter (\<lambda>r. \<not> list_ex (\<lambda>d. ce_id d = ce_id r) doomed) (cd_rows db)\<rparr>))"

definition workers_Save :: "env_worker \<Rightarrow> control_db \<Rightarrow> env_error + control_db" where
  "workers_Save w db =
     (case cd_workers db (w_id w) of
        Some _ \<Rightarrow> Err ErrWorkerExists
      | None \<Rightarrow> Ok (db\<lparr>cd_workers := (cd_workers db)(w_id w \<mapsto> w\<lparr>w_name := nullString (w_name w)\<rparr>)\<rparr>))"

text \<open>The update is not guarded by the version: it writes every column of the loaded object.\<close>

definition workers_Update :: "env_worker \<Rightarrow> control_db \<Rightarrow> env_error + control_db" where
  "workers_Update w db =
     (case cd_workers db (w_id w) of
        None \<Rightarrow> Err ErrWorkerNotFound
      | Some old \<Rightarrow> Ok (db\<lparr>cd_workers := (cd_workers db)(w_id w \<mapsto>
          w\<lparr>w_name := nullString (w_name w), w_createdAt := w_createdAt old\<rparr>)\<rparr>))"

definition workers_FindByID :: "gostring \<Rightarrow> control_db \<Rightarrow> env_error + env_worker" where
  "workers_FindByID i db =
     (case cd_workers db i of None \<Rightarrow> Err ErrWorkerNotFound | Some w \<Rightarrow> RehydrateWorker w)"

subsection \<open>ControlLog\<close>

record append_input =
  ai_WorkerID :: gostring
  ai_CommandType :: gostring
  ai_Payload :: gostring
  ai_IdempotencyKey :: gostring
  ai_AgentID :: gostring
  ai_TaskID :: gostring
  ai_Status :: gostring

definition new_command :: "gostring \<Rightarrow> time \<Rightarrow> int \<Rightarrow> append_input \<Rightarrow> control_event" where
  "new_command i now offset inp = \<lparr>ce_id = i, ce_workerID = ai_WorkerID inp, ce_offset = offset,
     ce_idempotencyKey = ai_IdempotencyKey inp, ce_commandType = ai_CommandType inp,
     ce_payload = ai_Payload inp, ce_agentID = ai_AgentID inp, ce_taskID = ai_TaskID inp,
     ce_status = ai_Status inp, ce_statusReason = [], ce_statusDetail = [], ce_executionID = [],
     ce_statusUpdatedAt = now, ce_createdAt = now\<rparr>"

text \<open>
  The result carries the command and whether it was newly appended, which is when the code
  publishes it to the stream bus.
\<close>

definition AppendCommand :: "json_ids \<Rightarrow> bool \<Rightarrow> (control_db \<Rightarrow> control_db) \<Rightarrow> gostring \<Rightarrow> time \<Rightarrow>
    append_input \<Rightarrow> control_db \<Rightarrow> (env_error + control_event \<times> bool) \<times> control_db" where
  "AppendCommand ids key_first others i now inp db =
     (if ai_CommandType inp = [] then (Err ErrEmptyCommandType, db)
      else if ai_IdempotencyKey inp = [] then (Err ErrEmptyIdempotencyKey, db)
      else case FindByIdempotencyKey ids now (ai_WorkerID inp) (ai_IdempotencyKey inp) db of
        Err e \<Rightarrow> (Err e, db)
      | Ok (Some existing) \<Rightarrow> (Ok (existing, False), db)
      | Ok None \<Rightarrow>
          (case NewWorkerControlEvent now (new_command i now (MaxOffset (ai_WorkerID inp) db + 1) inp) of
             Err e \<Rightarrow> (Err e, db)
           | Ok evt \<Rightarrow>
               let db1 = others db in
               (case events_Append key_first evt db1 of
                  Ok db2 \<Rightarrow> (Ok (evt, True), db2)
                | Err e \<Rightarrow>
                    if e = ErrDuplicateIdempotencyKey then
                      (case FindByIdempotencyKey ids now (ai_WorkerID inp) (ai_IdempotencyKey inp) db1 of
                         Err ferr \<Rightarrow> (Err ferr, db1)
                       | Ok (Some existing) \<Rightarrow> (Ok (existing, False), db1)
                       | Ok None \<Rightarrow> (Err e, db1))
                    else (Err e, db1))))"

definition CommandsAfter :: "json_ids \<Rightarrow> time \<Rightarrow> gostring \<Rightarrow> int \<Rightarrow> control_db \<Rightarrow> env_error + control_event list" where
  "CommandsAfter ids now w offset db = ListAfter ids now w offset db"

definition CommandByID :: "json_ids \<Rightarrow> time \<Rightarrow> gostring \<Rightarrow> control_db \<Rightarrow> env_error + control_event option" where
  "CommandByID ids now i db = (if i = [] then Ok None else events_FindByID ids now i db)"

definition CommandByIdempotencyKey ::
  "json_ids \<Rightarrow> time \<Rightarrow> gostring \<Rightarrow> gostring \<Rightarrow> control_db \<Rightarrow> env_error + control_event option" where
  "CommandByIdempotencyKey ids now w key db =
     (if w = [] \<or> key = [] then Ok None else FindByIdempotencyKey ids now w key db)"

definition log_UpdateStatus :: "json_ids \<Rightarrow> time \<Rightarrow> update_status_input \<Rightarrow> control_db \<Rightarrow>
    (env_error + control_event option) \<times> control_db" where
  "log_UpdateStatus ids now inp db =
     events_UpdateStatus ids now (inp\<lparr>us_StatusUpdatedAt := stamp now (us_StatusUpdatedAt inp)\<rparr>) db"

definition Replay :: "json_ids \<Rightarrow> time \<Rightarrow> env_worker \<Rightarrow> control_db \<Rightarrow> env_error + control_event list" where
  "Replay ids now w db = ListAfter ids now (w_id w) (w_lastAckedOffset w) db"

subsection \<open>The connection service and the garbage collector\<close>

definition ConnectWorker :: "time \<Rightarrow> gostring \<Rightarrow> control_db \<Rightarrow> env_error + control_db" where
  "ConnectWorker now i db =
     (case workers_FindByID i db of
        Ok w \<Rightarrow> workers_Update (worker_Connect now now w) db
      | Err ErrWorkerNotFound \<Rightarrow>
          (case NewWorker i [] now of
             Err e \<Rightarrow> Err e
           | Ok w \<Rightarrow> workers_Save (worker_Connect now now w) db)
      | Err e \<Rightarrow> Err e)"

definition Heartbeat :: "time \<Rightarrow> gostring \<Rightarrow> control_db \<Rightarrow> env_error + control_db" where
  "Heartbeat now i db =
     (case workers_FindByID i db of
        Err e \<Rightarrow> Err e
      | Ok w \<Rightarrow> workers_Update (worker_Heartbeat now now w) db)"

definition AckWorker :: "time \<Rightarrow> gostring \<Rightarrow> int \<Rightarrow> control_db \<Rightarrow> env_error + control_db" where
  "AckWorker now i offset db =
     (case workers_FindByID i db of
        Err e \<Rightarrow> Err e
      | Ok w \<Rightarrow> workers_Update (worker_AckOffset now offset now w) db)"

fun gc_batches :: "time \<Rightarrow> int \<Rightarrow> nat \<Rightarrow> control_db \<Rightarrow> control_db" where
  "gc_batches cutoff batch 0 db = db"
| "gc_batches cutoff batch (Suc i) db =
     (let (n, db') = DeleteAckedBefore cutoff batch db in
      if n < batch then db' else gc_batches cutoff batch i db')"

definition gc_Tick :: "time \<Rightarrow> duration \<Rightarrow> control_db \<Rightarrow> control_db" where
  "gc_Tick now retention db = gc_batches (now - retention) 500 2000 db"

subsection \<open>Reading rows back\<close>

definition row_ok :: "control_event \<Rightarrow> bool" where
  "row_ok r \<longleftrightarrow> \<not> blank (ce_id r) \<and> \<not> blank (ce_workerID r) \<and> \<not> blank (ce_commandType r) \<and>
     \<not> blank (ce_idempotencyKey r) \<and> 1 \<le> ce_offset r"

text \<open>What a status update cannot change.\<close>

definition ce_core :: "control_event \<Rightarrow> gostring \<times> gostring \<times> int \<times> gostring \<times> gostring \<times> gostring" where
  "ce_core r = (ce_id r, ce_workerID r, ce_offset r, ce_idempotencyKey r, ce_commandType r, ce_payload r)"

lemma core_eqD:
  assumes "ce_core r = ce_core r'"
  shows "ce_id r = ce_id r'" "ce_workerID r = ce_workerID r'" "ce_offset r = ce_offset r'"
    "ce_idempotencyKey r = ce_idempotencyKey r'"
  using assms by (simp_all add: ce_core_def)

lemma scanEvent_ok: "row_ok r \<Longrightarrow> \<exists>v. scanEvent ids now r = Ok v \<and> ce_core v = ce_core r"
  by (simp add: scanEvent_def NewWorkerControlEvent_def row_ok_def ce_core_def split: prod.split)

lemma scan_all_ok:
  "\<forall>r \<in> set rs. row_ok r \<Longrightarrow> \<exists>vs. scan_all ids now rs = Ok vs \<and> map ce_core vs = map ce_core rs"
proof (induction rs)
  case (Cons r rs)
  then obtain v vs where "scanEvent ids now r = Ok v" "ce_core v = ce_core r"
    "scan_all ids now rs = Ok vs" "map ce_core vs = map ce_core rs"
    using scanEvent_ok [of r ids now] by auto
  then show ?case by simp
qed simp

definition row_key :: "control_event \<Rightarrow> gostring \<times> gostring" where
  "row_key r = (ce_workerID r, ce_idempotencyKey r)"

definition row_offset :: "control_event \<Rightarrow> gostring \<times> int" where
  "row_offset r = (ce_workerID r, ce_offset r)"

definition control_ok :: "control_db \<Rightarrow> bool" where
  "control_ok db \<longleftrightarrow>
     distinct (map ce_id (cd_rows db)) \<and> distinct (map row_offset (cd_rows db)) \<and>
     distinct (map row_key (cd_rows db)) \<and> (\<forall>r \<in> set (cd_rows db). row_ok r) \<and>
     (\<forall>w k. cd_workers db w = Some k \<longrightarrow> w_id k = w \<and> 0 \<le> w_lastAckedOffset k)"

lemma control_ok_rows_cong:
  assumes "map ce_core rows = map ce_core (cd_rows db)" "control_ok db"
  shows "control_ok (db\<lparr>cd_rows := rows\<rparr>)"
proof -
  have f: "map f rows = map f (cd_rows db)" if "\<And>r. f r = g (ce_core r)" for f :: "control_event \<Rightarrow> 'x" and g
  proof -
    have "f = (\<lambda>r. g (ce_core r))" using that by (simp add: fun_eq_iff)
    with arg_cong [OF assms(1), of "map g"] show ?thesis by (simp add: o_def)
  qed
  have "list_all row_ok rows = list_all row_ok (cd_rows db)"
    using f [of row_ok "\<lambda>(i, w, k, x, t, p). \<not> blank i \<and> \<not> blank w \<and> \<not> blank t \<and> \<not> blank x \<and> 1 \<le> k"]
    by (simp add: list_all_length list_eq_iff_nth_eq ce_core_def row_ok_def cong: conj_cong)
  moreover have "map ce_id rows = map ce_id (cd_rows db)" by (rule f [of _ fst]) (simp add: ce_core_def)
  moreover have "map row_offset rows = map row_offset (cd_rows db)"
    by (rule f [of _ "\<lambda>(i, w, k, x, t, p). (w, k)"]) (simp add: ce_core_def row_offset_def)
  moreover have "map row_key rows = map row_key (cd_rows db)"
    by (rule f [of _ "\<lambda>(i, w, k, x, t, p). (w, x)"]) (simp add: ce_core_def row_key_def)
  ultimately show ?thesis
    using assms(2) by (simp add: control_ok_def list_all_iff)
qed

lemma control_ok_filter: "control_ok db \<Longrightarrow> control_ok (db\<lparr>cd_rows := filter P (cd_rows db)\<rparr>)"
  by (auto simp: control_ok_def distinct_map intro: inj_on_subset)

lemma find_key:
  assumes "control_ok db"
  shows "FindByIdempotencyKey ids now w key db = Ok None \<longleftrightarrow> (w, key) \<notin> row_key ` set (cd_rows db)"
    and "FindByIdempotencyKey ids now w key db = Ok (Some v) \<Longrightarrow>
      \<exists>r \<in> set (cd_rows db). row_key r = (w, key) \<and> ce_core v = ce_core r"
    and "FindByIdempotencyKey ids now w key db \<noteq> Err e"
proof -
  let ?f = "find (\<lambda>r. ce_workerID r = w \<and> ce_idempotencyKey r = key) (cd_rows db)"
  have none: "?f = None \<longleftrightarrow> (w, key) \<notin> row_key ` set (cd_rows db)"
    by (auto simp: find_None_iff row_key_def)
  have some: "r \<in> set (cd_rows db) \<and> row_key r = (w, key) \<and> row_ok r" if "?f = Some r" for r
    using that assms by (auto simp: find_Some_iff row_key_def control_ok_def)
  show "FindByIdempotencyKey ids now w key db = Ok None \<longleftrightarrow> (w, key) \<notin> row_key ` set (cd_rows db)"
    using none some scanEvent_ok
    by (cases ?f) (auto simp: FindByIdempotencyKey_def read_one_def split: sum.splits)
  show "\<exists>r \<in> set (cd_rows db). row_key r = (w, key) \<and> ce_core v = ce_core r"
    if "FindByIdempotencyKey ids now w key db = Ok (Some v)"
    using that some scanEvent_ok [of _ ids now]
    by (cases ?f) (fastforce simp: FindByIdempotencyKey_def read_one_def split: sum.splits)+
  show "FindByIdempotencyKey ids now w key db \<noteq> Err e"
    using some scanEvent_ok [of _ ids now]
    by (cases ?f) (fastforce simp: FindByIdempotencyKey_def read_one_def split: sum.splits)+
qed

lemma events_Append_ok:
  assumes "events_Append kf e db = Ok db'" "control_ok db" "row_ok e"
  shows "control_ok db'" "cd_rows db' = cd_rows db @ [e\<lparr>ce_payload := nullString (ce_payload e)\<rparr>]"
    "cd_workers db' = cd_workers db" "row_key e \<notin> row_key ` set (cd_rows db)"
proof -
  let ?e = "e\<lparr>ce_payload := nullString (ce_payload e)\<rparr>"
  show rows: "cd_rows db' = cd_rows db @ [?e]" and workers: "cd_workers db' = cd_workers db"
    using assms(1) by (auto simp: events_Append_def Let_def split: if_splits)
  have fresh: "row_key ?e \<notin> row_key ` set (cd_rows db)" "row_offset ?e \<notin> row_offset ` set (cd_rows db)"
    "ce_id ?e \<notin> ce_id ` set (cd_rows db)"
    using assms(1) by (auto simp: events_Append_def Let_def list_ex_iff row_key_def row_offset_def split: if_splits)
  then show "row_key e \<notin> row_key ` set (cd_rows db)" by (simp add: row_key_def)
  have "row_ok ?e" using assms(3) by (simp add: row_ok_def)
  with fresh assms(2) show "control_ok db'"
    unfolding control_ok_def rows workers by simp
qed

lemma MaxOffset_ge:
  "0 \<le> MaxOffset w db" "acked db w \<le> MaxOffset w db"
  "r \<in> set (cd_rows db) \<Longrightarrow> ce_workerID r = w \<Longrightarrow> ce_offset r \<le> MaxOffset w db"
proof -
  have acc: "a \<le> fold max xs a" for a :: int and xs
    by (induction xs arbitrary: a) (auto intro: order.trans [OF max.cobounded2])
  have elem: "x \<in> set xs \<Longrightarrow> x \<le> fold max xs a" for x a :: int and xs
    by (induction xs arbitrary: a) (auto intro: order.trans [OF max.cobounded1 acc])
  show "0 \<le> MaxOffset w db" "acked db w \<le> MaxOffset w db"
    using acc [of "max 0 (acked db w)" "map ce_offset (filter (\<lambda>r. ce_workerID r = w) (cd_rows db))"]
    by (simp_all add: MaxOffset_def)
  show "ce_offset r \<le> MaxOffset w db" if "r \<in> set (cd_rows db)" "ce_workerID r = w"
    using elem [of "ce_offset r"] that by (simp add: MaxOffset_def)
qed

subsection \<open>One command per key, under any interference\<close>

lemma row_key_unique:
  assumes "control_ok db" "r \<in> set (cd_rows db)"
  shows "filter (\<lambda>x. row_key x = row_key r) (cd_rows db) = [r]"
proof -
  have inj: "inj_on row_key (set (cd_rows db))" and dist: "distinct (cd_rows db)"
    using assms(1) by (simp_all add: control_ok_def distinct_map)
  have "filter (\<lambda>x. row_key x = row_key r) (cd_rows db) = filter (\<lambda>x. x = r) (cd_rows db)"
    using inj assms(2) by (intro filter_cong) (auto simp: inj_on_def)
  also have "\<dots> = [r]"
  proof -
    have "distinct xs \<Longrightarrow> r \<in> set xs \<Longrightarrow> filter (\<lambda>x. x = r) xs = [r]" for xs
      by (induction xs) (auto simp: filter_empty_conv)
    with dist assms(2) show ?thesis by blast
  qed
  finally show ?thesis .
qed

lemma new_command_ok:
  assumes "NewWorkerControlEvent now (new_command i now k inp) = Ok evt"
  shows "row_ok evt" "ce_offset evt = k" "row_key evt = (ai_WorkerID inp, ai_IdempotencyKey inp)" "ce_id evt = i"
    "ce_commandType evt = ai_CommandType inp" "ce_payload evt = ai_Payload inp"
  using assms
  by (auto simp: NewWorkerControlEvent_def new_command_def row_ok_def row_key_def split: if_splits)

lemma AppendCommand_cases:
  assumes "AppendCommand ids kf others i now inp db = (res, db')" "control_ok db" "control_ok (others db)"
  obtains (refused) e where "res = Err e" "db' = db \<or> db' = others db"
  | (old) v r where "res = Ok (v, False)" "db' = db \<or> db' = others db" "r \<in> set (cd_rows db')"
      "row_key r = (ai_WorkerID inp, ai_IdempotencyKey inp)" "ce_core v = ce_core r"
  | (new) evt where "res = Ok (evt, True)" "events_Append kf evt (others db) = Ok db'"
      "NewWorkerControlEvent now (new_command i now (MaxOffset (ai_WorkerID inp) db + 1) inp) = Ok evt"
proof -
  let ?w = "ai_WorkerID inp" and ?k = "ai_IdempotencyKey inp"
  let ?evt = "NewWorkerControlEvent now (new_command i now (MaxOffset ?w db + 1) inp)"
  note def = assms(1) [unfolded AppendCommand_def Let_def]
  show thesis
  proof (cases "ai_CommandType inp = [] \<or> ?k = []")
    case True
    with def refused show thesis by (auto split: if_splits)
  next
    case args: False
    show thesis
    proof (cases "FindByIdempotencyKey ids now ?w ?k db")
      case (Inl e)
      with args def refused show thesis by auto
    next
      case found: (Inr ov)
      show thesis
      proof (cases ov)
        case (Some v)
        with args def found have "res = Ok (v, False)" "db' = db" by auto
        with find_key(2) [OF assms(2), of ids now ?w ?k v] found Some old show thesis by blast
      next
        case None
        show thesis
        proof (cases ?evt)
          case (Inl e)
          with args def found None refused show thesis by auto
        next
          case evt: (Inr evt)
          show thesis
          proof (cases "events_Append kf evt (others db)")
            case (Inr db2)
            with args def found None evt new show thesis by auto
          next
            case (Inl e)
            show thesis
            proof (cases "FindByIdempotencyKey ids now ?w ?k (others db)")
              case again: (Inr ov2)
              show thesis
              proof (cases "e = ErrDuplicateIdempotencyKey \<and> ov2 \<noteq> None")
                case True
                then obtain v where v: "ov2 = Some v" by blast
                with args def found None evt Inl again True have "res = Ok (v, False)" "db' = others db" by auto
                with find_key(2) [OF assms(3), of ids now ?w ?k v] again v old show thesis by blast
              next
                case False
                with args def found None evt Inl again have "res = Err e" "db' = others db"
                  by (auto split: if_splits option.splits)
                with refused show thesis by blast
              qed
            qed (use find_key(3) [OF assms(3)] in blast)
          qed
        qed
      qed
    qed
  qed
qed

text \<open>
  a logical command enters a worker's stream at most once.  Whatever other clients commit
  between the reads of an \<open>AppendCommand\<close> and its insert, the tables keep their unique keys;
  a successful call returns the one row with its key; and a failed call adds no row.  A newly
  appended command has an offset above every command and above the ack cursor that the call
  has seen.
\<close>

theorem append_command_once:
  assumes "AppendCommand ids kf others i now inp db = (res, db')"
    and "control_ok db" "control_ok (others db)"
  shows "control_ok db' \<and>
    (case res of
       Err e \<Rightarrow> db' = db \<or> db' = others db
     | Ok (v, fresh) \<Rightarrow>
         map ce_id (filter (\<lambda>r. row_key r = (ai_WorkerID inp, ai_IdempotencyKey inp)) (cd_rows db')) = [ce_id v] \<and>
         (fresh \<longrightarrow> length (cd_rows db') = length (cd_rows (others db)) + 1 \<and>
            acked db (ai_WorkerID inp) < ce_offset v \<and>
            (\<forall>r \<in> set (cd_rows db). ce_workerID r = ai_WorkerID inp \<longrightarrow> ce_offset r < ce_offset v)) \<and>
         (\<not> fresh \<longrightarrow> db' = db \<or> db' = others db))"
  using assms
proof (cases rule: AppendCommand_cases)
  case (refused e)
  with assms(2,3) show ?thesis by auto
next
  case (old v r)
  have ok: "control_ok db'" using old(2) assms(2,3) by (elim disjE) simp_all
  have "map ce_id (filter (\<lambda>r. row_key r = (ai_WorkerID inp, ai_IdempotencyKey inp)) (cd_rows db')) = [ce_id v]"
    using row_key_unique [OF ok old(3)] by (simp add: old(4) core_eqD(1) [OF old(5)])
  with ok old(2) show ?thesis unfolding old(1) by simp
next
  case (new evt)
  note evt = new_command_ok [OF new(3)]
  note ins = events_Append_ok [OF new(2) assms(3) evt(1)]
  have "row_key x \<noteq> row_key evt" if x: "x \<in> set (cd_rows (others db))" for x
    using imageI [OF x, of row_key] ins(4) by auto
  then have "filter (\<lambda>r. row_key r = row_key evt) (cd_rows (others db)) = []"
    by (simp add: filter_empty_conv)
  moreover have "row_key (evt\<lparr>ce_payload := p\<rparr>) = row_key evt" for p by (simp add: row_key_def)
  ultimately have "map ce_id (filter (\<lambda>r. row_key r = row_key evt) (cd_rows db')) = [ce_id evt]"
    unfolding ins(2) by simp
  then have one: "map ce_id (filter (\<lambda>r. row_key r = (ai_WorkerID inp, ai_IdempotencyKey inp)) (cd_rows db')) = [ce_id evt]"
    unfolding evt(3) .
  have "acked db (ai_WorkerID inp) < ce_offset evt"
    using MaxOffset_ge(2) [of db "ai_WorkerID inp"] evt(2) by linarith
  moreover have "ce_offset r < ce_offset evt" if "r \<in> set (cd_rows db)" "ce_workerID r = ai_WorkerID inp" for r
    using MaxOffset_ge(3) [OF that] evt(2) by linarith
  moreover have "length (cd_rows db') = length (cd_rows (others db)) + 1" by (simp add: ins(2))
  ultimately show ?thesis using new(1) ins(1) one by simp
qed

subsection \<open>Nothing unacknowledged is lost\<close>

datatype control_op =
    CConnect gostring time
  | CHeartbeat gostring time
  | CAck gostring int time
  | CAppend gostring time append_input
  | CStatus update_status_input time
  | CGC time duration

fun control_exec :: "json_ids \<Rightarrow> bool \<Rightarrow> control_op \<Rightarrow> control_db \<Rightarrow> env_error + control_db" where
  "control_exec ids kf (CConnect w now) db = ConnectWorker now w db"
| "control_exec ids kf (CHeartbeat w now) db = Heartbeat now w db"
| "control_exec ids kf (CAck w offset now) db = AckWorker now w offset db"
| "control_exec ids kf (CAppend i now inp) db =
     (case AppendCommand ids kf (\<lambda>d. d) i now inp db of (Err e, _) \<Rightarrow> Err e | (Ok _, db') \<Rightarrow> Ok db')"
| "control_exec ids kf (CStatus inp now) db =
     (case log_UpdateStatus ids now inp db of (Err e, _) \<Rightarrow> Err e | (Ok _, db') \<Rightarrow> Ok db')"
| "control_exec ids kf (CGC now retention) db = Ok (gc_Tick now retention db)"

text \<open>
  What every sequential history keeps: the tables' invariant, the workers and their cursors,
  and each command of a known worker that its cursor has not passed.
\<close>

definition workers_grow :: "control_db \<Rightarrow> control_db \<Rightarrow> bool" where
  "workers_grow db db' \<longleftrightarrow>
     (\<forall>w k. cd_workers db w = Some k \<longrightarrow>
        (\<exists>k'. cd_workers db' w = Some k' \<and> w_lastAckedOffset k \<le> w_lastAckedOffset k'))"

definition control_rel :: "control_db \<Rightarrow> control_db \<Rightarrow> bool" where
  "control_rel db db' \<longleftrightarrow> (control_ok db \<longrightarrow>
     control_ok db' \<and> workers_grow db db' \<and>
     (\<forall>r \<in> set (cd_rows db). cd_workers db (ce_workerID r) \<noteq> None \<and> acked db' (ce_workerID r) < ce_offset r \<longrightarrow>
        (\<exists>r' \<in> set (cd_rows db'). ce_core r' = ce_core r)))"

lemma workers_grow_refl [simp]: "workers_grow db db"
  by (simp add: workers_grow_def)

lemma workers_grow_acked: "workers_grow db db' \<Longrightarrow> cd_workers db w \<noteq> None \<Longrightarrow> acked db w \<le> acked db' w"
  by (fastforce simp: workers_grow_def acked_def)

lemma control_rel_refl: "control_rel db db"
  by (auto simp: control_rel_def)

lemma control_rel_trans:
  assumes "control_rel db db'" "control_rel db' db''"
  shows "control_rel db db''"
  unfolding control_rel_def
proof (intro impI conjI ballI; (elim conjE)?)
  assume ok: "control_ok db"
  then have 1: "control_ok db'" "workers_grow db db'" using assms(1) by (auto simp: control_rel_def)
  then have 2: "control_ok db''" "workers_grow db' db''" using assms(2) by (auto simp: control_rel_def)
  from 2 show "control_ok db''" by blast
  from 1(2) 2(2) show "workers_grow db db''"
    unfolding workers_grow_def by (meson order.trans)
  fix r assume r: "r \<in> set (cd_rows db)" "cd_workers db (ce_workerID r) \<noteq> None"
    "acked db'' (ce_workerID r) < ce_offset r"
  have known: "cd_workers db' (ce_workerID r) \<noteq> None" using 1(2) r(2) by (auto simp: workers_grow_def)
  with workers_grow_acked [OF 2(2) this] r(3) have "acked db' (ce_workerID r) < ce_offset r" by simp
  then obtain r' where r': "r' \<in> set (cd_rows db')" "ce_core r' = ce_core r"
    using assms(1) ok r by (auto simp: control_rel_def)
  then have "cd_workers db' (ce_workerID r') \<noteq> None" "acked db'' (ce_workerID r') < ce_offset r'"
    using known r(3) core_eqD [OF r'(2)] by simp_all
  then obtain r'' where "r'' \<in> set (cd_rows db'')" "ce_core r'' = ce_core r'"
    using assms(2) 1(1) r'(1) by (auto simp: control_rel_def)
  with r'(2) show "\<exists>r' \<in> set (cd_rows db''). ce_core r' = ce_core r" by auto
qed

lemma control_rel_workers:
  assumes "cd_rows db' = cd_rows db" "workers_grow db db'"
    and "control_ok db \<Longrightarrow> \<forall>w k. cd_workers db' w = Some k \<longrightarrow> w_id k = w \<and> 0 \<le> w_lastAckedOffset k"
  shows "control_rel db db'"
  unfolding control_rel_def
proof
  assume ok: "control_ok db"
  have "control_ok db'" using ok assms(3) [OF ok] by (simp add: control_ok_def assms(1))
  with assms(1,2) show "control_ok db' \<and> workers_grow db db' \<and>
     (\<forall>r \<in> set (cd_rows db). cd_workers db (ce_workerID r) \<noteq> None \<and> acked db' (ce_workerID r) < ce_offset r \<longrightarrow>
        (\<exists>r' \<in> set (cd_rows db'). ce_core r' = ce_core r))" by auto
qed

lemma workers_FindByID_ok:
  "control_ok db \<Longrightarrow> workers_FindByID w db = Ok k \<Longrightarrow> cd_workers db w = Some k \<and> w_id k = w"
  by (auto simp: workers_FindByID_def RehydrateWorker_def control_ok_def
      split: option.splits worker_status.splits if_splits)

lemma workers_Update_rel:
  assumes find: "workers_FindByID w db = Ok k" and upd: "workers_Update k' db = Ok db'"
    and k': "w_id k' = w_id k" "w_lastAckedOffset k \<le> w_lastAckedOffset k'"
  shows "control_rel db db'"
proof (cases "control_ok db")
  case True
  have k: "cd_workers db w = Some k" "w_id k = w" using workers_FindByID_ok [OF True find] by auto
  have db': "db' = db\<lparr>cd_workers := (cd_workers db)(w \<mapsto>
      k'\<lparr>w_name := nullString (w_name k'), w_createdAt := w_createdAt k\<rparr>)\<rparr>"
    using upd k k'(1) by (simp add: workers_Update_def)
  have "0 \<le> w_lastAckedOffset k" using True k(1) unfolding control_ok_def by blast
  then have "0 \<le> w_lastAckedOffset k'" using k'(2) by linarith
  then show ?thesis
    unfolding db' using k k' by (intro control_rel_workers) (auto simp: workers_grow_def control_ok_def)
qed (simp add: control_rel_def)

lemma worker_ops_ids [simp]:
  "w_id (worker_Connect now at k) = w_id k" "w_lastAckedOffset (worker_Connect now at k) = w_lastAckedOffset k"
  "w_id (worker_Heartbeat now at k) = w_id k" "w_lastAckedOffset (worker_Heartbeat now at k) = w_lastAckedOffset k"
  "w_id (worker_AckOffset now off at k) = w_id k"
  "w_lastAckedOffset (worker_AckOffset now off at k) = max (w_lastAckedOffset k) off"
  by (auto simp: worker_Connect_def worker_Heartbeat_def worker_AckOffset_def worker_touch_def)

lemma Heartbeat_rel: "Heartbeat now w db = Ok db' \<Longrightarrow> control_rel db db'"
  by (auto simp: Heartbeat_def intro: workers_Update_rel split: sum.splits)

lemma AckWorker_rel: "AckWorker now w off db = Ok db' \<Longrightarrow> control_rel db db'"
  by (auto simp: AckWorker_def intro: workers_Update_rel split: sum.splits)

lemma ConnectWorker_rel:
  assumes "ConnectWorker now w db = Ok db'"
  shows "control_rel db db'"
proof (cases "workers_FindByID w db")
  case (Inr k)
  with assms show ?thesis by (auto simp: ConnectWorker_def intro: workers_Update_rel)
next
  case (Inl e)
  with assms obtain k where k: "NewWorker w [] now = Ok k" "workers_Save (worker_Connect now now k) db = Ok db'"
    by (auto simp: ConnectWorker_def split: env_error.splits sum.splits)
  then show ?thesis
    by (intro control_rel_workers)
      (auto simp: workers_Save_def NewWorker_def workers_grow_def control_ok_def split: option.splits if_splits)
qed

lemma AppendCommand_rel:
  assumes "AppendCommand ids kf (\<lambda>d. d) i now inp db = (res, db')"
  shows "control_rel db db'"
proof (cases "control_ok db")
  case True
  from assms True True show ?thesis
  proof (cases rule: AppendCommand_cases)
    case (new evt)
    note ins = events_Append_ok [OF new(2) True new_command_ok(1) [OF new(3)]]
    from ins(1,2,3) show ?thesis by (auto simp: control_rel_def workers_grow_def)
  qed (auto simp: control_rel_refl)
qed (simp add: control_rel_def)

lemma UpdateStatus_rel:
  assumes "log_UpdateStatus ids now inp db = (res, db')"
  shows "control_rel db db'"
proof -
  let ?inp = "inp\<lparr>us_StatusUpdatedAt := stamp now (us_StatusUpdatedAt inp)\<rparr>"
  have core: "ce_core (set_status i r) = ce_core r" for i r by (simp add: set_status_def ce_core_def)
  define rows where "rows = map (\<lambda>r. if status_row_matches ?inp r then set_status ?inp r else r) (cd_rows db)"
  have "db' = db \<or> db' = db\<lparr>cd_rows := rows\<rparr>"
    using assms by (auto simp: log_UpdateStatus_def events_UpdateStatus_def Let_def rows_def split: if_splits)
  moreover have same: "map ce_core rows = map ce_core (cd_rows db)" by (simp add: rows_def core)
  moreover have "ce_core ` set rows = ce_core ` set (cd_rows db)"
    using arg_cong [OF same, of set] by simp
  ultimately show ?thesis
    using control_ok_rows_cong [OF same]
    by (auto simp: control_rel_def workers_grow_def control_rel_refl) (metis image_iff)
qed

lemma DeleteAckedBefore_rel:
  assumes "DeleteAckedBefore cutoff limit db = (n, db')"
  shows "control_rel db db'"
  unfolding control_rel_def
proof
  assume ok: "control_ok db"
  define doomed where "doomed = take (if limit \<le> 0 then 500 else nat limit)
    (sort_key (\<lambda>r. created_key (ce_createdAt r)) (filter (gc_collectable cutoff db) (cd_rows db)))"
  have db': "db' = db\<lparr>cd_rows := filter (\<lambda>r. \<not> list_ex (\<lambda>d. ce_id d = ce_id r) doomed) (cd_rows db)\<rparr>"
    using assms by (simp add: DeleteAckedBefore_def Let_def doomed_def)
  have doomed: "set doomed \<subseteq> {r \<in> set (cd_rows db). gc_collectable cutoff db r}"
    by (auto simp: doomed_def dest!: in_set_takeD)
  have keep: "r \<in> set (cd_rows db')"
    if r: "r \<in> set (cd_rows db)" "cd_workers db (ce_workerID r) \<noteq> None" "acked db' (ce_workerID r) < ce_offset r" for r
  proof -
    have "\<not> gc_collectable cutoff db r" using r(2,3) by (auto simp: gc_collectable_def acked_def db')
    moreover have "inj_on ce_id (set (cd_rows db))" using ok by (simp add: control_ok_def distinct_map)
    ultimately show ?thesis using r(1) doomed by (auto simp: db' list_ex_iff inj_on_def)
  qed
  have "control_ok db'" unfolding db' using ok by (rule control_ok_filter)
  moreover have "workers_grow db db'" by (simp add: db' workers_grow_def)
  ultimately show "control_ok db' \<and> workers_grow db db' \<and>
     (\<forall>r \<in> set (cd_rows db). cd_workers db (ce_workerID r) \<noteq> None \<and> acked db' (ce_workerID r) < ce_offset r \<longrightarrow>
        (\<exists>r' \<in> set (cd_rows db'). ce_core r' = ce_core r))" using keep by blast
qed

lemma gc_batches_rel: "control_rel db (gc_batches cutoff batch i db)"
proof (induction i arbitrary: db)
  case (Suc i)
  obtain n db' where d: "DeleteAckedBefore cutoff batch db = (n, db')" by fastforce
  from control_rel_trans [OF DeleteAckedBefore_rel [OF d] Suc [of db']] DeleteAckedBefore_rel [OF d] d
  show ?case by simp
qed (simp add: control_rel_refl)

lemma control_exec_rel: "control_exec ids kf op db = Ok db' \<Longrightarrow> control_rel db db'"
  by (cases op)
    (auto simp: gc_Tick_def gc_batches_rel split: prod.splits sum.splits
      intro: ConnectWorker_rel Heartbeat_rel AckWorker_rel AppendCommand_rel UpdateStatus_rel)

interpretation control_log: history "control_exec ids kf" control_rel for ids kf
  by unfold_locales (auto intro: control_rel_refl control_rel_trans control_exec_rel)

lemma control_ok_run: "control_ok (run_ops (control_exec ids kf) ops empty_control_db)"
  using control_log.run_rel [of empty_control_db ids kf ops]
  by (auto simp: control_rel_def control_ok_def empty_control_db_def)

lemma CommandsAfter_exact:
  assumes "control_ok db"
  shows "\<exists>cmds. CommandsAfter ids now w offset db = Ok cmds \<and> sorted_wrt (<) (map ce_offset cmds) \<and>
    ce_core ` set cmds = ce_core ` {r \<in> set (cd_rows db). ce_workerID r = w \<and> offset < ce_offset r}"
proof -
  let ?rows = "filter (\<lambda>r. ce_workerID r = w \<and> offset < ce_offset r) (cd_rows db)"
  obtain cmds where cmds: "CommandsAfter ids now w offset db = Ok cmds" "map ce_core cmds = map ce_core (sort_key ce_offset ?rows)"
    using scan_all_ok [of "sort_key ce_offset ?rows" ids now] assms
    by (auto simp: CommandsAfter_def ListAfter_def control_ok_def)
  have offs: "map ce_offset cmds = map ce_offset (sort_key ce_offset ?rows)"
    using arg_cong [OF cmds(2), of "map (\<lambda>(i, w, k, x). k)"] by (simp add: o_def ce_core_def)
  have "distinct (map row_offset (filter P (cd_rows db)))" for P
    using assms by (simp add: control_ok_def distinct_map_filter)
  then have "inj_on ce_offset (set ?rows)" "distinct ?rows"
    by (auto simp: distinct_map row_offset_def inj_on_def)
  then have "distinct (map ce_offset (sort_key ce_offset ?rows))" by (simp add: distinct_map)
  then have "sorted_wrt (<) (map ce_offset cmds)"
    unfolding offs by (simp add: strict_sorted_iff)
  moreover have "ce_core ` set cmds = ce_core ` set ?rows"
    using arg_cong [OF cmds(2), of set] by simp
  ultimately show ?thesis using cmds(1) by auto
qed

text \<open>
  C3: no unacknowledged command is lost.  A command appended for a worker that has connected
  is above its ack cursor, and however connects, heartbeats, acks, further appends, status
  updates and garbage collections follow one another, as long as the cursor has not passed
  it, the replay from the cursor contains it, in strictly ascending offset order.
\<close>

theorem no_command_lost:
  assumes db: "db = run_ops (control_exec ids kf) ops empty_control_db"
    and append: "AppendCommand ids kf (\<lambda>d. d) i now inp db = (Ok (e, True), db1)"
    and known: "cd_workers db (ai_WorkerID inp) \<noteq> None"
    and later: "db2 = run_ops (control_exec ids kf) ops2 db1"
    and pending: "acked db2 (ai_WorkerID inp) < ce_offset e"
  shows "acked db1 (ai_WorkerID inp) < ce_offset e \<and>
    (\<exists>cmds. CommandsAfter ids t (ai_WorkerID inp) (acked db2 (ai_WorkerID inp)) db2 = Ok cmds \<and>
       sorted_wrt (<) (map ce_offset cmds) \<and>
       (\<exists>c \<in> set cmds. ce_id c = i \<and> ce_offset c = ce_offset e \<and> ce_commandType c = ai_CommandType inp \<and>
          ce_payload c = nullString (ai_Payload inp)))"
proof -
  let ?w = "ai_WorkerID inp"
  have ok: "control_ok db" unfolding db by (rule control_ok_run)
  have new: "events_Append kf e db = Ok db1"
      "NewWorkerControlEvent now (new_command i now (MaxOffset ?w db + 1) inp) = Ok e"
    by (rule AppendCommand_cases [OF append ok ok]; simp)+
  note evt = new_command_ok [OF new(2)] and ins = events_Append_ok [OF new(1) ok new_command_ok(1) [OF new(2)]]
  have "acked db1 ?w = acked db ?w" using ins(3) by (simp add: acked_def)
  then have above: "acked db1 ?w < ce_offset e"
    using MaxOffset_ge(2) [of db ?w] evt(2) by linarith
  let ?r = "e\<lparr>ce_payload := nullString (ce_payload e)\<rparr>"
  have w: "ce_workerID e = ?w" using evt(3) by (simp add: row_key_def)
  have rel: "control_rel db1 db2" unfolding later by (rule control_log.run_rel)
  then have ok2: "control_ok db2" using ins(1) by (simp add: control_rel_def)
  have "?r \<in> set (cd_rows db1)" by (simp add: ins(2))
  then obtain r' where r': "r' \<in> set (cd_rows db2)" "ce_core r' = ce_core ?r"
    using rel ins(1,3) known pending w by (auto simp: control_rel_def)
  obtain cmds where cmds: "CommandsAfter ids t ?w (acked db2 ?w) db2 = Ok cmds" "sorted_wrt (<) (map ce_offset cmds)"
    "ce_core ` set cmds = ce_core ` {r \<in> set (cd_rows db2). ce_workerID r = ?w \<and> acked db2 ?w < ce_offset r}"
    using CommandsAfter_exact [OF ok2] by blast
  have "r' \<in> {r \<in> set (cd_rows db2). ce_workerID r = ?w \<and> acked db2 ?w < ce_offset r}"
    using r' pending w by (simp add: ce_core_def)
  then have "ce_core ?r \<in> ce_core ` set cmds" unfolding cmds(3) r'(2) [symmetric] by (rule imageI)
  then obtain c where "c \<in> set cmds" "ce_core c = ce_core ?r" by auto
  then have "ce_id c = i \<and> ce_offset c = ce_offset e \<and> ce_commandType c = ai_CommandType inp \<and>
      ce_payload c = nullString (ai_Payload inp)"
    using evt(4-6) by (simp add: ce_core_def)
  with \<open>c \<in> set cmds\<close> above cmds(1,2) show ?thesis by blast
qed

text \<open>
  C38: a heartbeat can undo an ack.  Every worker write is a read, a change of the object and
  an update of all columns that no version guards.  When an ack commits between the read and
  the write of a heartbeat, the heartbeat writes the old cursor back.
\<close>

theorem heartbeat_undoes_ack:
  assumes "control_ok db" "workers_FindByID w db = Ok k" "AckWorker now w offset db = Ok db1"
    and "workers_Update (worker_Heartbeat t t k) db1 = Ok db2"
  shows "acked db1 w = max (acked db w) offset \<and> acked db2 w = acked db w"
proof -
  have k: "cd_workers db w = Some k" "w_id k = w" using workers_FindByID_ok [OF assms(1,2)] by auto
  then have "acked db1 w = max (acked db w) offset \<and> cd_workers db1 w \<noteq> None"
    using assms(2,3) by (auto simp: AckWorker_def workers_Update_def acked_def)
  moreover from this have "acked db2 w = acked db w"
    using assms(4) k by (auto simp: workers_Update_def acked_def split: option.splits)
  ultimately show ?thesis by blast
qed

subsection \<open>Witnesses\<close>

definition no_ids :: json_ids where
  "no_ids _ = ([], [])"

definition stop_command :: append_input where
  "stop_command = \<lparr>ai_WorkerID = ''w1'', ai_CommandType = ''stop'', ai_Payload = ''{}'',
     ai_IdempotencyKey = ''k'', ai_AgentID = [], ai_TaskID = [], ai_Status = ''pending''\<rparr>"

definition connected_db :: control_db where
  "connected_db = run_ops (control_exec no_ids True) [CConnect ''w1'' 5] empty_control_db"

definition stopped_db :: control_db where
  "stopped_db = snd (AppendCommand no_ids True (\<lambda>d. d) ''c1'' 6 stop_command connected_db)"

lemma connected_db_ok: "control_ok connected_db"
  unfolding connected_db_def by (rule control_ok_run)

lemma stopped_db_append:
  "AppendCommand no_ids True (\<lambda>d. d) ''c1'' 6 stop_command connected_db =
     (Ok (new_command ''c1'' 6 1 stop_command, True), stopped_db)"
proof -
  have "fst (AppendCommand no_ids True (\<lambda>d. d) ''c1'' 6 stop_command connected_db) =
      Ok (new_command ''c1'' 6 1 stop_command, True)"
    by code_simp
  then show ?thesis by (simp add: stopped_db_def prod_eq_iff)
qed

lemma acked_stopped: "acked stopped_db ''w1'' = 0"
  by code_simp

theorem append_command_once_witness:
  "map ce_id (filter (\<lambda>r. row_key r = (''w1'', ''k''))
     (cd_rows (snd (AppendCommand no_ids True (\<lambda>_. stopped_db) ''c2'' 7 stop_command connected_db)))) = [''c1'']"
proof -
  have ok: "control_ok stopped_db"
    using append_command_once [OF stopped_db_append connected_db_ok connected_db_ok] by simp
  let ?r = "AppendCommand no_ids True (\<lambda>_. stopped_db) ''c2'' 7 stop_command connected_db"
  have res: "fst ?r = Ok (new_command ''c1'' 6 1 stop_command, False)" by code_simp
  have "?r = (fst ?r, snd ?r)" by simp
  from append_command_once [OF this connected_db_ok ok] res
  have "map ce_id (filter (\<lambda>r. row_key r = (ai_WorkerID stop_command, ai_IdempotencyKey stop_command))
      (cd_rows (snd ?r))) = [ce_id (new_command ''c1'' 6 1 stop_command)]" by simp
  then show ?thesis by (simp add: stop_command_def new_command_def)
qed

theorem no_command_lost_witness:
  "let db = run_ops (control_exec no_ids True) [CHeartbeat ''w1'' 8, CGC 900000000000000000 1] stopped_db in
   acked db ''w1'' = 0 \<and> (\<exists>cmds. CommandsAfter no_ids 9 ''w1'' (acked db ''w1'') db = Ok cmds \<and>
     (\<exists>c \<in> set cmds. ce_id c = ''c1''))"
proof -
  let ?ops = "[CHeartbeat ''w1'' 8, CGC 900000000000000000 1]"
  let ?db = "run_ops (control_exec no_ids True) ?ops stopped_db"
  have "cd_workers connected_db (ai_WorkerID stop_command) \<noteq> None" by code_simp
  moreover have acked: "acked ?db ''w1'' = 0" unfolding gc_Tick_def by code_simp
  moreover have "ai_WorkerID stop_command = ''w1''" "ce_offset (new_command ''c1'' 6 1 stop_command) = 1"
    by (simp_all add: stop_command_def new_command_def)
  ultimately have "\<exists>cmds. CommandsAfter no_ids 9 ''w1'' (acked ?db ''w1'') ?db = Ok cmds \<and>
     (\<exists>c \<in> set cmds. ce_id c = ''c1'')"
    using no_command_lost [OF connected_db_def stopped_db_append _ refl, of ?ops 9]
    by (auto simp del: run_ops.simps)
  with acked show ?thesis by (simp only: Let_def simp_thms)
qed

theorem heartbeat_undoes_ack_witness:
  "acked (projr (AckWorker 9 ''w1'' 1 stopped_db)) ''w1'' = 1 \<and>
   acked (projr (workers_Update (worker_Heartbeat 10 10 (projr (workers_FindByID ''w1'' stopped_db)))
     (projr (AckWorker 9 ''w1'' 1 stopped_db)))) ''w1'' = 0"
proof -
  let ?k = "projr (workers_FindByID ''w1'' stopped_db)" and ?db1 = "projr (AckWorker 9 ''w1'' 1 stopped_db)"
  let ?u = "workers_Update (worker_Heartbeat 10 10 ?k) ?db1"
  have ok: "control_ok stopped_db"
    using append_command_once [OF stopped_db_append connected_db_ok connected_db_ok] by simp
  have "isl (workers_FindByID ''w1'' stopped_db) = False" "isl (AckWorker 9 ''w1'' 1 stopped_db) = False" "isl ?u = False"
    by code_simp+
  then have "workers_FindByID ''w1'' stopped_db = Ok ?k" "AckWorker 9 ''w1'' 1 stopped_db = Ok ?db1" "?u = Ok (projr ?u)"
    by (simp_all add: sum.collapse)
  from heartbeat_undoes_ack [OF ok this] show ?thesis
    using acked_stopped by simp
qed

end
