(* ===== verification/Control_Stream.thy ===== *)
theory Control_Stream
  imports Control_Log
begin

section \<open>The command stream (internal/environment/controlstream, admin/api/environment_stream.go)\<close>

text \<open>
  The low-latency path from the log to a worker: a ring of the last commands per worker, a bus
  with one subscriber per worker, and the handler that writes the catch-up from the log and
  then the live commands.  The two time fields of a command keep their instants (the code
  formats them as RFC 3339).  A subscription is a pointer: the bus keeps them in a store
  indexed by a counter, so that a replaced one and its successor stay distinct.  Every bus
  method holds the mutex, so a run is a sequence of calls.
\<close>

record stream_command =
  cmd_Offset :: int
  cmd_ID :: gostring
  cmd_IdempotencyKey :: gostring
  cmd_CommandType :: gostring
  cmd_Payload :: gostring
  cmd_AgentID :: gostring
  cmd_TaskID :: gostring
  cmd_Status :: gostring
  cmd_StatusReason :: gostring
  cmd_StatusDetail :: gostring
  cmd_ExecutionID :: gostring
  cmd_StatusUpdatedAt :: "time option"
  cmd_CreatedAt :: time

definition CommandFromEvent :: "control_event \<Rightarrow> stream_command" where
  "CommandFromEvent e = \<lparr>cmd_Offset = ce_offset e, cmd_ID = ce_id e, cmd_IdempotencyKey = ce_idempotencyKey e,
     cmd_CommandType = ce_commandType e, cmd_Payload = ce_payload e, cmd_AgentID = ce_agentID e,
     cmd_TaskID = ce_taskID e, cmd_Status = ce_status e, cmd_StatusReason = ce_statusReason e,
     cmd_StatusDetail = ce_statusDetail e, cmd_ExecutionID = ce_executionID e,
     cmd_StatusUpdatedAt = (if is_zero_time (ce_statusUpdatedAt e) then None else Some (ce_statusUpdatedAt e)),
     cmd_CreatedAt = ce_createdAt e\<rparr>"

subsection \<open>The ring\<close>

record ring_buffer =
  rb_size :: nat
  rb_buf :: "stream_command list"

definition newRingBuffer :: "int \<Rightarrow> ring_buffer" where
  "newRingBuffer sz = \<lparr>rb_size = (if sz \<le> 0 then 256 else nat sz), rb_buf = []\<rparr>"

text \<open>The insertion point, searched from the end.\<close>

fun ring_index :: "stream_command list \<Rightarrow> int \<Rightarrow> nat \<Rightarrow> nat" where
  "ring_index buf off 0 = 0"
| "ring_index buf off (Suc i) = (if off < cmd_Offset (buf ! i) then ring_index buf off i else Suc i)"

definition ring_append :: "stream_command \<Rightarrow> ring_buffer \<Rightarrow> ring_buffer" where
  "ring_append cmd r =
     (let buf = rb_buf r; i = ring_index buf (cmd_Offset cmd) (length buf) in
      if 0 < i \<and> cmd_Offset (buf ! (i - 1)) = cmd_Offset cmd then r
      else let buf' = take i buf @ [cmd] @ drop i buf in
        r\<lparr>rb_buf := (if rb_size r < length buf' then drop (length buf' - rb_size r) buf' else buf')\<rparr>)"

definition ring_since :: "int \<Rightarrow> ring_buffer \<Rightarrow> stream_command list" where
  "ring_since afterOffset r = filter (\<lambda>c. afterOffset < cmd_Offset c) (rb_buf r)"

definition ring_minOffset :: "ring_buffer \<Rightarrow> int" where
  "ring_minOffset r = (case rb_buf r of [] \<Rightarrow> 0 | c # _ \<Rightarrow> cmd_Offset c)"

text \<open>The contract: the ring holds the \<open>size\<close> greatest offsets published so far.\<close>

definition ring_holds :: "stream_command list \<Rightarrow> ring_buffer \<Rightarrow> bool" where
  "ring_holds pubs r \<longleftrightarrow>
     sorted_wrt (<) (map cmd_Offset (rb_buf r)) \<and> set (rb_buf r) \<subseteq> set pubs \<and>
     length (rb_buf r) = min (rb_size r) (card (cmd_Offset ` set pubs)) \<and>
     (\<forall>c \<in> set pubs. cmd_Offset c \<notin> cmd_Offset ` set (rb_buf r) \<longrightarrow>
        (\<forall>b \<in> set (rb_buf r). cmd_Offset c < cmd_Offset b))"

lemma ring_index_spec:
  assumes "sorted_wrt (<) (map cmd_Offset buf)" "n \<le> length buf"
    and "\<forall>c \<in> set (drop n buf). off < cmd_Offset c"
  shows "ring_index buf off n \<le> n \<and> (\<forall>c \<in> set (drop (ring_index buf off n) buf). off < cmd_Offset c) \<and>
    (\<forall>c \<in> set (take (ring_index buf off n) buf). cmd_Offset c \<le> off)"
  using assms
proof (induction buf off n rule: ring_index.induct)
  case (2 buf off i)
  show ?case
  proof (cases "off < cmd_Offset (buf ! i)")
    case True
    with 2 have "\<forall>c \<in> set (drop i buf). off < cmd_Offset c"
      by (simp add: Cons_nth_drop_Suc [symmetric])
    with 2 True show ?thesis by simp
  next
    case False
    have "cmd_Offset c \<le> off" if "c \<in> set (take (Suc i) buf)" for c
    proof -
      from that 2(3) obtain j where "j \<le> i" "c = buf ! j"
        by (auto simp: in_set_conv_nth less_Suc_eq_le)
      with 2(2,3) have "cmd_Offset c \<le> cmd_Offset (buf ! i)"
        by (cases "j = i") (auto simp: sorted_wrt_iff_nth_less intro: less_imp_le)
      with False show ?thesis by simp
    qed
    with 2(4) False show ?thesis by simp
  qed
qed simp

text \<open>The split that \<open>ring_append\<close> works on: smaller offsets, perhaps an equal one, greater ones.\<close>

lemma ring_split:
  assumes "sorted_wrt (<) (map cmd_Offset buf)"
    and i_def: "i = ring_index buf off (length buf)"
  shows "(\<forall>c \<in> set (drop i buf). off < cmd_Offset c) \<and> i \<le> length buf \<and>
    (0 < i \<and> cmd_Offset (buf ! (i - 1)) = off \<longleftrightarrow> off \<in> cmd_Offset ` set buf) \<and>
    (off \<notin> cmd_Offset ` set buf \<longrightarrow> (\<forall>c \<in> set (take i buf). cmd_Offset c < off))"
proof -
  have spec: "i \<le> length buf" "\<forall>c \<in> set (drop i buf). off < cmd_Offset c" "\<forall>c \<in> set (take i buf). cmd_Offset c \<le> off"
    using ring_index_spec [OF assms(1) order.refl, of off] by (simp_all add: i_def)
  have set: "set buf = set (take i buf) \<union> set (drop i buf)"
    by (metis append_take_drop_id set_append)
  have "0 < i \<and> cmd_Offset (buf ! (i - 1)) = off" if off: "off \<in> cmd_Offset ` set buf"
  proof -
    obtain c where c: "c \<in> set (take i buf)" "cmd_Offset c = off"
      using off spec set by auto
    then have i: "0 < i" by (cases i) auto
    have last: "buf ! (i - 1) \<in> set (take i buf)"
      using i spec by (auto simp: in_set_conv_nth intro!: exI [of _ "i - 1"])
    obtain j where j: "j < i" "c = buf ! j" using c(1) spec by (auto simp: in_set_conv_nth)
    have "cmd_Offset c \<le> cmd_Offset (buf ! (i - 1))"
    proof (cases "j = i - 1")
      case False
      with j i spec assms(1) show ?thesis
        by (auto simp: sorted_wrt_iff_nth_less intro!: less_imp_le)
    qed (simp add: j)
    with spec last c(2) i show ?thesis by fastforce
  qed
  moreover have "off \<in> cmd_Offset ` set buf" if "0 < i" "cmd_Offset (buf ! (i - 1)) = off"
    using that spec by (auto intro!: image_eqI [of _ _ "buf ! (i - 1)"] nth_mem)
  moreover have "cmd_Offset c < off" if "off \<notin> cmd_Offset ` set buf" "c \<in> set (take i buf)" for c
    using that spec set by (metis UnI1 image_eqI order_le_less)
  ultimately show ?thesis using spec by blast
qed

lemma ring_append_size [simp]: "rb_size (ring_append c r) = rb_size r"
  by (simp add: ring_append_def Let_def)

lemma ring_holds_new: "ring_holds [] (newRingBuffer sz)"
  by (simp add: ring_holds_def newRingBuffer_def)

lemma ring_upd: "r\<lparr>rb_buf := b\<rparr> = \<lparr>rb_size = rb_size r, rb_buf = b\<rparr>"
  by (cases r) simp

text \<open>Cutting the smallest entries of a list that holds the greatest offsets.\<close>

lemma ring_holds_trim:
  assumes buf: "sorted_wrt (<) (map cmd_Offset buf)" "set buf \<subseteq> set pubs"
    and len: "min n (card (cmd_Offset ` set pubs)) \<le> length buf"
    and rest: "\<forall>c \<in> set pubs. cmd_Offset c \<notin> cmd_Offset ` set buf \<longrightarrow> (\<forall>b \<in> set buf. cmd_Offset c < cmd_Offset b)"
  shows "ring_holds pubs \<lparr>rb_size = n, rb_buf = drop (length buf - n) buf\<rparr>"
proof -
  let ?k = "length buf - n"
  have split: "sorted_wrt (<) (map cmd_Offset (take ?k buf) @ map cmd_Offset (drop ?k buf))"
    using buf(1) by (simp flip: map_append)
  have "distinct (map cmd_Offset buf)" using buf(1) by (simp add: strict_sorted_iff)
  then have "length buf = card (cmd_Offset ` set buf)" by (metis distinct_card length_map set_map)
  also have "\<dots> \<le> card (cmd_Offset ` set pubs)" using buf(2) by (intro card_mono image_mono) simp_all
  finally have "length (drop ?k buf) = min n (card (cmd_Offset ` set pubs))" using len by auto
  moreover have "cmd_Offset c < cmd_Offset b"
    if "c \<in> set pubs" "cmd_Offset c \<notin> cmd_Offset ` set (drop ?k buf)" "b \<in> set (drop ?k buf)" for c b
  proof (cases "cmd_Offset c \<in> cmd_Offset ` set buf")
    case True
    then have "cmd_Offset c \<in> cmd_Offset ` set (take ?k buf)"
      using that(2) by (metis (no_types, lifting) Un_iff append_take_drop_id image_Un set_append)
    with split that(3) show ?thesis by (auto simp: sorted_wrt_append)
  qed (use rest that in_set_dropD in fast)
  moreover have "sorted_wrt (<) (map cmd_Offset (drop ?k buf))" using split by (simp add: sorted_wrt_append)
  moreover have "set (drop ?k buf) \<subseteq> set pubs" using buf(2) set_drop_subset by fastforce
  ultimately show ?thesis by (simp add: ring_holds_def)
qed

lemma ring_holds_append:
  assumes "ring_holds pubs r"
  shows "ring_holds (pubs @ [c]) (ring_append c r)"
proof -
  let ?buf = "rb_buf r" and ?off = "cmd_Offset c"
  define i where "i = ring_index ?buf ?off (length ?buf)"
  have sorted: "sorted_wrt (<) (map cmd_Offset ?buf)" using assms by (simp add: ring_holds_def)
  note split = ring_split [OF sorted i_def]
  show ?thesis
  proof (cases "?off \<in> cmd_Offset ` set ?buf")
    case True
    then have same: "ring_append c r = r" using split by (simp add: ring_append_def i_def [symmetric])
    have "?off \<in> cmd_Offset ` set pubs" using True assms by (auto simp: ring_holds_def)
    then have "cmd_Offset ` set (pubs @ [c]) = cmd_Offset ` set pubs" by auto
    with True assms same show ?thesis by (auto simp: ring_holds_def)
  next
    case False
    let ?new = "take i ?buf @ [c] @ drop i ?buf"
    have app: "ring_append c r = \<lparr>rb_size = rb_size r, rb_buf = drop (length ?new - rb_size r) ?new\<rparr>"
    proof -
      have new: "\<not> (0 < i \<and> cmd_Offset (?buf ! (i - 1)) = ?off)" using False split by blast
      show ?thesis
        unfolding ring_append_def Let_def i_def [symmetric] if_not_P [OF new] ring_upd by simp
    qed
    have set: "set ?new = insert c (set ?buf)"
      by (metis Un_insert_right append_take_drop_id list.simps(15) set_append append_Cons append_Nil)
    show ?thesis
    proof (cases "i = 0 \<and> (\<exists>d \<in> set pubs. cmd_Offset d \<notin> cmd_Offset ` set ?buf)")
      case full: True
      have "distinct (map cmd_Offset ?buf)" using sorted by (simp add: strict_sorted_iff)
      then have "length ?buf = card (cmd_Offset ` set ?buf)" by (metis distinct_card length_map set_map)
      also have "\<dots> < card (cmd_Offset ` set pubs)"
        using full assms by (intro psubset_card_mono) (auto simp: ring_holds_def)
      finally have len: "length ?buf = rb_size r" using assms by (auto simp: ring_holds_def)
      then have "ring_append c r = r" unfolding app using full by simp
      moreover have "card (cmd_Offset ` set pubs) \<le> card (cmd_Offset ` set (pubs @ [c]))"
        by (intro card_mono) auto
      ultimately show ?thesis using assms split full len by (auto simp: ring_holds_def)
    next
      case room: False
      have "sorted_wrt (<) (map cmd_Offset (take i ?buf) @ map cmd_Offset (drop i ?buf))"
        using sorted by (simp flip: map_append)
      then have "sorted_wrt (<) (map cmd_Offset ?new)"
        using split False by (auto simp: sorted_wrt_append)
      moreover have "set ?new \<subseteq> set (pubs @ [c])" using set assms by (auto simp: ring_holds_def)
      moreover have "min (rb_size r) (card (cmd_Offset ` set (pubs @ [c]))) \<le> length ?new"
        using assms split by (auto simp: ring_holds_def card_insert_if)
      moreover have "cmd_Offset d < cmd_Offset b"
        if d: "d \<in> set (pubs @ [c])" "cmd_Offset d \<notin> cmd_Offset ` set ?new" and b: "b \<in> set ?new" for d b
      proof -
        have old: "d \<in> set pubs" "cmd_Offset d \<notin> cmd_Offset ` set ?buf" using d set by auto
        then have below: "cmd_Offset d < cmd_Offset b'" if "b' \<in> set ?buf" for b'
          using assms that by (simp add: ring_holds_def)
        have "0 < i"
        proof (rule ccontr)
          assume "\<not> 0 < i"
          then have "i = 0 \<and> (\<exists>d \<in> set pubs. cmd_Offset d \<notin> cmd_Offset ` set ?buf)"
            using old by (intro conjI bexI [of _ d]) simp_all
          with room show False by (rule notE)
        qed
        moreover have "i \<le> length ?buf" using split by blast
        ultimately have hd: "?buf ! 0 \<in> set (take i ?buf)"
          using nth_mem [of 0 "take i ?buf"] by simp
        then have "cmd_Offset d < ?off"
          using below [OF in_set_takeD [OF hd]] bspec [OF _ hd, of "\<lambda>x. cmd_Offset x < ?off"] split False
          by (meson order.strict_trans)
        moreover have "b = c \<or> b \<in> set ?buf" using b unfolding set by simp
        ultimately show ?thesis using below by blast
      qed
      ultimately show ?thesis unfolding app by (intro ring_holds_trim) blast+
    qed
  qed
qed

lemma ring_holds_fold: "ring_holds pubs r \<Longrightarrow> ring_holds (pubs @ cs) (fold ring_append cs r)"
proof (induction cs arbitrary: pubs r)
  case (Cons c cs)
  from Cons.IH [OF ring_holds_append [OF Cons.prems, of c]] show ?case by simp
qed simp

text \<open>
  the ring is the window of the greatest offsets.  Whatever commands are appended, in
  order or not and with repetitions, the ring holds them in strictly ascending offset order,
  as many as fit, and an offset that is not held is smaller than all that are.  So a resume
  from an offset misses no published command whenever at most \<open>size\<close> distinct offsets are
  above it.
\<close>

theorem ring_window:
  assumes "r = fold ring_append cs (newRingBuffer sz)"
  shows "ring_holds cs r \<and>
    (card (cmd_Offset ` {c \<in> set cs. after < cmd_Offset c}) \<le> rb_size r \<longrightarrow>
       cmd_Offset ` set (ring_since after r) = cmd_Offset ` {c \<in> set cs. after < cmd_Offset c})"
proof -
  have h: "ring_holds cs r" using ring_holds_fold [OF ring_holds_new, of cs sz] assms by simp
  let ?above = "cmd_Offset ` {c \<in> set cs. after < cmd_Offset c}"
  have "cmd_Offset c \<in> cmd_Offset ` set (rb_buf r)"
    if small: "card ?above \<le> rb_size r" and c: "c \<in> set cs" "after < cmd_Offset c" for c
  proof (rule ccontr)
    assume out: "cmd_Offset c \<notin> cmd_Offset ` set (rb_buf r)"
    then have above: "cmd_Offset c < cmd_Offset b" if "b \<in> set (rb_buf r)" for b
      using h c that by (simp add: ring_holds_def)
    have "distinct (map cmd_Offset (rb_buf r))" using h by (simp add: ring_holds_def strict_sorted_iff)
    then have len: "length (rb_buf r) = card (cmd_Offset ` set (rb_buf r))" by (metis distinct_card length_map set_map)
    have "insert (cmd_Offset c) (cmd_Offset ` set (rb_buf r)) \<subseteq> ?above"
      using h c above by (fastforce simp: ring_holds_def)
    from card_mono [OF _ this] have "length (rb_buf r) < card ?above" using len out by simp
    moreover have "card (cmd_Offset ` set (rb_buf r)) < card (cmd_Offset ` set cs)"
      using h c out by (intro psubset_card_mono) (auto simp: ring_holds_def)
    ultimately show False using h small len by (auto simp: ring_holds_def)
  qed
  moreover have "set (rb_buf r) \<subseteq> set cs" using h by (simp add: ring_holds_def)
  ultimately have "cmd_Offset ` set (ring_since after r) = ?above" if "card ?above \<le> rb_size r"
    using that by (fastforce simp: ring_since_def)
  with h show ?thesis by blast
qed

subsection \<open>The bus\<close>

record subscription =
  sb_WorkerID :: gostring
  sb_ch :: "stream_command list"
  sb_done :: bool

record bus =
  bus_store :: "nat \<Rightarrow> subscription option"
  bus_next :: nat
  bus_subs :: "gostring \<Rightarrow> nat option"
  bus_rings :: "gostring \<Rightarrow> ring_buffer option"
  bus_heartbeat :: duration
  bus_ringSize :: int

definition NewBus :: bus where
  "NewBus = \<lparr>bus_store = (\<lambda>_. None), bus_next = 0, bus_subs = (\<lambda>_. None), bus_rings = (\<lambda>_. None),
     bus_heartbeat = 30000000000, bus_ringSize = 256\<rparr>"

definition ringFor :: "gostring \<Rightarrow> bus \<Rightarrow> ring_buffer \<times> bus" where
  "ringFor w b =
     (case bus_rings b w of
        Some r \<Rightarrow> (r, b)
      | None \<Rightarrow> let r = newRingBuffer (bus_ringSize b) in (r, b\<lparr>bus_rings := (bus_rings b)(w \<mapsto> r)\<rparr>))"

definition close_sub :: "nat \<Rightarrow> bus \<Rightarrow> bus" where
  "close_sub p b = b\<lparr>bus_store := (bus_store b)(p := map_option (\<lambda>s. s\<lparr>sb_done := True\<rparr>) (bus_store b p))\<rparr>"

text \<open>The non-blocking send: a full channel drops the command.\<close>

definition bus_Publish :: "control_event \<Rightarrow> bus \<Rightarrow> bus" where
  "bus_Publish e b =
     (let cmd = CommandFromEvent e; w = ce_workerID e; (r, b1) = ringFor w b;
          b2 = b1\<lparr>bus_rings := (bus_rings b1)(w \<mapsto> ring_append cmd r)\<rparr> in
      case bus_subs b2 w of
        None \<Rightarrow> b2
      | Some p \<Rightarrow> b2\<lparr>bus_store := (bus_store b2)(p := map_option (\<lambda>s.
          if \<not> sb_done s \<and> length (sb_ch s) < 64 then s\<lparr>sb_ch := sb_ch s @ [cmd]\<rparr> else s) (bus_store b2 p))\<rparr>)"

definition bus_Subscribe :: "gostring \<Rightarrow> bus \<Rightarrow> nat \<times> bus" where
  "bus_Subscribe w b =
     (let b1 = (case bus_subs b w of None \<Rightarrow> b | Some old \<Rightarrow> close_sub old b);
          (r, b2) = ringFor w b1; p = bus_next b2 in
      (p, b2\<lparr>bus_store := (bus_store b2)(p \<mapsto> \<lparr>sb_WorkerID = w, sb_ch = [], sb_done = False\<rparr>),
             bus_next := p + 1, bus_subs := (bus_subs b2)(w \<mapsto> p)\<rparr>))"

definition bus_unsubscribe :: "nat \<Rightarrow> bus \<Rightarrow> bus" where
  "bus_unsubscribe p b =
     (case bus_store b p of
        None \<Rightarrow> b
      | Some s \<Rightarrow>
          if bus_subs b (sb_WorkerID s) = Some p
          then (close_sub p b)\<lparr>bus_subs := (bus_subs b)(sb_WorkerID s := None)\<rparr> else b)"

definition bus_SetHeartbeat :: "duration \<Rightarrow> bus \<Rightarrow> bus" where
  "bus_SetHeartbeat d b = (if 0 < d then b\<lparr>bus_heartbeat := d\<rparr> else b)"

definition bus_Shutdown :: "bus \<Rightarrow> bus" where
  "bus_Shutdown b = b\<lparr>bus_store := (\<lambda>p. case bus_store b p of None \<Rightarrow> None
       | Some s \<Rightarrow> Some (if bus_subs b (sb_WorkerID s) = Some p then s\<lparr>sb_done := True\<rparr> else s)),
     bus_subs := (\<lambda>_. None)\<rparr>"

definition bus_recv :: "nat \<Rightarrow> bus \<Rightarrow> stream_command option \<times> bus" where
  "bus_recv p b =
     (case bus_store b p of
        Some s \<Rightarrow> (case sb_ch s of [] \<Rightarrow> (None, b)
          | c # cs \<Rightarrow> (Some c, b\<lparr>bus_store := (bus_store b)(p \<mapsto> s\<lparr>sb_ch := cs\<rparr>)\<rparr>))
      | None \<Rightarrow> (None, b))"

text \<open>A run of publications between a subscription and the first read.\<close>

definition publish_all :: "control_event list \<Rightarrow> bus \<Rightarrow> bus" where
  "publish_all es b = fold bus_Publish es b"

lemma bus_Publish_sub:
  assumes "bus_subs b w = Some p" "bus_store b p = Some \<lparr>sb_WorkerID = w, sb_ch = q, sb_done = False\<rparr>"
    and "ce_workerID e = w"
  shows "bus_subs (bus_Publish e b) w = Some p"
    and "bus_store (bus_Publish e b) p =
      Some \<lparr>sb_WorkerID = w, sb_ch = (if length q < 64 then q @ [CommandFromEvent e] else q), sb_done = False\<rparr>"
  using assms by (auto simp: bus_Publish_def ringFor_def Let_def split: option.splits)

lemma publish_all_sub:
  assumes "bus_subs b w = Some p" "bus_store b p = Some \<lparr>sb_WorkerID = w, sb_ch = q, sb_done = False\<rparr>"
    and "\<forall>e \<in> set es. ce_workerID e = w" "length q \<le> 64"
  shows "bus_store (publish_all es b) p =
    Some \<lparr>sb_WorkerID = w, sb_ch = take 64 (q @ map CommandFromEvent es), sb_done = False\<rparr>"
  using assms
proof (induction es arbitrary: b q)
  case (Cons e es)
  note pub = bus_Publish_sub [OF Cons.prems(1,2), of e]
  let ?q = "if length q < 64 then q @ [CommandFromEvent e] else q"
  have "bus_store (publish_all es (bus_Publish e b)) p =
      Some \<lparr>sb_WorkerID = w, sb_ch = take 64 (?q @ map CommandFromEvent es), sb_done = False\<rparr>"
    using Cons.prems(3,4) pub by (intro Cons.IH) auto
  then show ?case using Cons.prems(4) by (auto simp: publish_all_def take_Cons')
qed (simp add: publish_all_def)

subsection \<open>The stream handler\<close>

fun live_frames :: "int \<Rightarrow> stream_command list \<Rightarrow> stream_command list" where
  "live_frames sentMax [] = []"
| "live_frames sentMax (cmd # cmds) =
     (if cmd_Offset cmd \<le> sentMax then live_frames sentMax cmds
      else cmd # live_frames (cmd_Offset cmd) cmds)"

definition sent_max :: "int \<Rightarrow> stream_command list \<Rightarrow> int" where
  "sent_max after catchup = fold (\<lambda>c m. if m < cmd_Offset c then cmd_Offset c else m) catchup after"

definition stream_frames :: "int \<Rightarrow> stream_command list \<Rightarrow> stream_command list \<Rightarrow> stream_command list" where
  "stream_frames after catchup live = catchup @ live_frames (sent_max after catchup) live"

lemma sent_max_simps [simp]:
  "sent_max m [] = m" "sent_max m (c # cs) = sent_max (if m < cmd_Offset c then cmd_Offset c else m) cs"
  by (simp_all add: sent_max_def)

lemma sent_max_ge: "m \<le> sent_max m cs"
proof (induction cs arbitrary: m)
  case (Cons a cs)
  show ?case using Cons [of "cmd_Offset a"] Cons [of m] by auto
qed simp

lemma sent_max_upper: "c \<in> set cs \<Longrightarrow> cmd_Offset c \<le> sent_max m cs"
proof (induction cs arbitrary: m)
  case (Cons a cs)
  then show ?case using sent_max_ge [of "cmd_Offset a" cs] sent_max_ge [of m cs] by auto
qed simp

lemma sent_max_attained: "sent_max m cs \<in> insert m (cmd_Offset ` set cs)"
proof (induction cs arbitrary: m)
  case (Cons a cs)
  show ?case using Cons [of "cmd_Offset a"] Cons [of m] by auto
qed simp

lemma live_frames_ascending:
  "sorted_wrt (<) (map cmd_Offset (live_frames m cs)) \<and> (\<forall>c \<in> set (live_frames m cs). m < cmd_Offset c)"
proof (induction m cs rule: live_frames.induct)
  case (2 m c cs)
  then show ?case by (cases "cmd_Offset c \<le> m") (auto intro: order.strict_trans)
qed simp

lemma live_frames_iff:
  "x \<in> set (live_frames m cs) \<longleftrightarrow>
     (\<exists>k < length cs. cs ! k = x \<and> m < cmd_Offset x \<and> (\<forall>j < k. cmd_Offset (cs ! j) < cmd_Offset x))"
proof (induction m cs rule: live_frames.induct)
  case (2 m c cs)
  have "(\<exists>k < length (c # cs). (c # cs) ! k = x \<and> m < cmd_Offset x \<and> (\<forall>j < k. cmd_Offset ((c # cs) ! j) < cmd_Offset x)) \<longleftrightarrow>
      c = x \<and> m < cmd_Offset x \<or> (\<exists>k < length cs. cs ! k = x \<and> m < cmd_Offset x \<and> cmd_Offset c < cmd_Offset x \<and>
         (\<forall>j < k. cmd_Offset (cs ! j) < cmd_Offset x))"
    by (auto simp: Ex_less_Suc2 All_less_Suc2 nth_Cons')
  with 2 show ?case by (cases "cmd_Offset c \<le> m") (auto intro: order.strict_trans)
qed simp

text \<open>
  what a stream connection writes.  Between subscribing and reading, the commands of the
  worker that others publish are queued, up to 64; the handler then writes the catch-up and the
  queue.  The frames are in strictly ascending offset order, above the resume offset, with the
  whole catch-up; and a queued command is written exactly when its offset is above everything
  written before.  So a command that is published after one with a greater offset, or that
  found the queue full, is not written by this connection.
\<close>

theorem stream_connection_frames:
  assumes sub: "(p, b1) = bus_Subscribe w b" and fresh: "\<forall>e \<in> set es. ce_workerID e = w"
    and catchup: "sorted_wrt (<) (map cmd_Offset catchup)" "\<forall>c \<in> set catchup. after < cmd_Offset c"
    and live: "live = sb_ch (the (bus_store (publish_all es b1) p))"
    and frames: "frames = stream_frames after catchup live"
  shows "live = take 64 (map CommandFromEvent es) \<and>
    sorted_wrt (<) (map cmd_Offset frames) \<and> (\<forall>c \<in> set frames. after < cmd_Offset c) \<and>
    (\<forall>x. x \<in> set frames \<longleftrightarrow> x \<in> set catchup \<or>
       (\<exists>k < length live. live ! k = x \<and> after < cmd_Offset x \<and> (\<forall>c \<in> set catchup. cmd_Offset c < cmd_Offset x) \<and>
          (\<forall>j < k. cmd_Offset (live ! j) < cmd_Offset x)))"
proof -
  have "bus_subs b1 w = Some p" "bus_store b1 p = Some \<lparr>sb_WorkerID = w, sb_ch = [], sb_done = False\<rparr>"
    using sub by (auto simp: bus_Subscribe_def Let_def split: prod.splits)
  from publish_all_sub [OF this fresh] have "live = take 64 (map CommandFromEvent es)"
    by (simp add: live)
  moreover let ?m = "sent_max after catchup"
  have above: "?m < k \<longleftrightarrow> after < k \<and> (\<forall>c \<in> set catchup. cmd_Offset c < k)" for k
    using sent_max_ge [of after catchup] sent_max_attained [of after catchup] sent_max_upper [of _ catchup after]
    by (auto intro: order.strict_trans1)
  have "sorted_wrt (<) (map cmd_Offset frames)" "\<forall>c \<in> set frames. after < cmd_Offset c"
    using catchup live_frames_ascending [of ?m live] above
    by (auto simp: frames stream_frames_def sorted_wrt_append)
  moreover have "x \<in> set frames \<longleftrightarrow> x \<in> set catchup \<or>
       (\<exists>k < length live. live ! k = x \<and> after < cmd_Offset x \<and> (\<forall>c \<in> set catchup. cmd_Offset c < cmd_Offset x) \<and>
          (\<forall>j < k. cmd_Offset (live ! j) < cmd_Offset x))" for x
    by (simp add: frames stream_frames_def live_frames_iff above)
  ultimately show ?thesis by blast
qed

subsection \<open>Witnesses\<close>

definition numbered_event :: "int \<Rightarrow> control_event" where
  "numbered_event k = (new_command ''c'' 6 k stop_command)\<lparr>ce_id := [char_of (nat (48 + k))]\<rparr>"

definition numbered :: "int \<Rightarrow> stream_command" where
  "numbered k = CommandFromEvent (numbered_event k)"

theorem ring_window_witness:
  "cmd_Offset ` set (ring_since 5 (fold ring_append [numbered 7, numbered 6, numbered 7, numbered 4] (newRingBuffer 2))) = {6, 7}"
proof -
  let ?cs = "[numbered 7, numbered 6, numbered 7, numbered 4]"
  let ?r = "fold ring_append ?cs (newRingBuffer 2)"
  have offs: "cmd_Offset (numbered k) = k" for k
    by (simp add: numbered_def numbered_event_def CommandFromEvent_def new_command_def)
  have "{c \<in> set ?cs. 5 < cmd_Offset c} = {numbered 7, numbered 6}" by (auto simp: offs)
  moreover have "rb_size ?r = 2" by (simp add: newRingBuffer_def)
  ultimately show ?thesis using ring_window [of ?r ?cs 2 5] by (simp add: offs insert_commute)
qed

theorem stream_connection_frames_witness:
  "map cmd_Offset (stream_frames 4 [numbered 5] (sb_ch (the (bus_store (publish_all
     [numbered_event 7, numbered_event 6] (snd (bus_Subscribe ''w1'' NewBus))) (fst (bus_Subscribe ''w1'' NewBus)))))) = [5, 7]"
proof -
  let ?es = "[numbered_event 7, numbered_event 6]" and ?s = "bus_Subscribe ''w1'' NewBus"
  let ?live = "sb_ch (the (bus_store (publish_all ?es (snd ?s)) (fst ?s)))"
  have offs: "cmd_Offset (numbered k) = k" for k
    by (simp add: numbered_def numbered_event_def CommandFromEvent_def new_command_def)
  have "\<forall>e \<in> set ?es. ce_workerID e = ''w1''" "(fst ?s, snd ?s) = ?s"
    by (simp_all add: numbered_event_def new_command_def stop_command_def)
  from stream_connection_frames [OF this(2,1) _ _ refl refl, of "[numbered 5]" 4]
  have "?live = take 64 (map CommandFromEvent ?es)" by (simp add: offs)
  then have "?live = [numbered 7, numbered 6]" by (simp add: numbered_def)
  then show ?thesis by (simp add: stream_frames_def offs)
qed

end
