(* ===== verification/Control_Loop.thy ===== *)
theory Control_Loop
  imports Control_Stream
begin

section \<open>The worker's control loop (internal/workerdaemon/control_loop.go)\<close>

text \<open>
  The consumer of the command stream: a cursor, a counter for a head command that keeps
  failing, and one delivery routine, \<open>handleBatch\<close>, that the poll and the stream share.  The
  outcomes of the handler and of the acknowledgement are parameters: the \<open>n\<close>-th handler call
  succeeds on a command when \<open>handles n\<close> says so, the \<open>n\<close>-th ack when \<open>acks n\<close> does.  The last
  four fields are not in the code: they record which offsets were handled, failed and parked,
  and which acks arrived, for the statements.
\<close>

definition holBlockThreshold :: nat where "holBlockThreshold = 30"

definition holBlockReescalateEvery :: nat where "holBlockReescalateEvery = 30"

definition holParkThreshold :: nat where "holParkThreshold = 120"

record control_loop =
  lp_cursor :: int
  lp_stuckOffset :: int
  lp_stuckFails :: nat
  lp_calls :: nat
  lp_ackCalls :: nat
  lp_handled :: "int list"
  lp_failed :: "int list"
  lp_parked :: "int list"
  lp_acked :: "int list"

definition new_loop :: "int \<Rightarrow> control_loop" where
  "new_loop cursor = \<lparr>lp_cursor = cursor, lp_stuckOffset = 0, lp_stuckFails = 0, lp_calls = 0,
     lp_ackCalls = 0, lp_handled = [], lp_failed = [], lp_parked = [], lp_acked = []\<rparr>"

definition noteStuck :: "int \<Rightarrow> control_loop \<Rightarrow> control_loop" where
  "noteStuck off l =
     (let l1 = (if lp_stuckFails l = 0 \<or> lp_stuckOffset l \<noteq> off
                then l\<lparr>lp_stuckOffset := off, lp_stuckFails := 0\<rparr> else l)
      in l1\<lparr>lp_stuckFails := lp_stuckFails l1 + 1\<rparr>)"

text \<open>Whether \<open>noteStuck\<close> logs the head-of-line alarm after this failure.\<close>

definition hol_alarm :: "control_loop \<Rightarrow> bool" where
  "hol_alarm l \<longleftrightarrow> lp_stuckFails l = holBlockThreshold \<or>
     holBlockThreshold < lp_stuckFails l \<and> (lp_stuckFails l - holBlockThreshold) mod holBlockReescalateEvery = 0"

definition shouldPark :: "int \<Rightarrow> control_loop \<Rightarrow> bool" where
  "shouldPark off l \<longleftrightarrow> lp_stuckOffset l = off \<and> holParkThreshold \<le> lp_stuckFails l"

definition clearStuck :: "control_loop \<Rightarrow> control_loop" where
  "clearStuck l = l\<lparr>lp_stuckOffset := 0, lp_stuckFails := 0\<rparr>"

text \<open>The loop of \<open>handleBatch\<close>: the highest offset to acknowledge, when there is one.\<close>

fun handle_cmds :: "(nat \<Rightarrow> stream_command \<Rightarrow> bool) \<Rightarrow> stream_command list \<Rightarrow> int option \<Rightarrow>
    control_loop \<Rightarrow> int option \<times> control_loop" where
  "handle_cmds handles [] highest l = (highest, l)"
| "handle_cmds handles (cmd # cmds) highest l =
     (let off = cmd_Offset cmd; l0 = l\<lparr>lp_calls := lp_calls l + 1\<rparr> in
      if handles (lp_calls l) cmd
      then handle_cmds handles cmds (Some off) (l0\<lparr>lp_handled := off # lp_handled l0\<rparr>)
      else let l1 = noteStuck off (l0\<lparr>lp_failed := off # lp_failed l0\<rparr>) in
        if shouldPark off l1
        then handle_cmds handles cmds (Some off) (l1\<lparr>lp_parked := off # lp_parked l1\<rparr>)
        else (highest, l1))"

definition handleBatch :: "(nat \<Rightarrow> stream_command \<Rightarrow> bool) \<Rightarrow> (nat \<Rightarrow> bool) \<Rightarrow> stream_command list \<Rightarrow>
    control_loop \<Rightarrow> control_loop" where
  "handleBatch handles acks cmds l =
     (case handle_cmds handles cmds None l of
        (None, l1) \<Rightarrow> l1
      | (Some off, l1) \<Rightarrow>
          let l2 = l1\<lparr>lp_ackCalls := lp_ackCalls l1 + 1\<rparr> in
          if acks (lp_ackCalls l1)
          then (clearStuck (l2\<lparr>lp_acked := off # lp_acked l2\<rparr>))\<lparr>lp_cursor := off\<rparr>
          else l2)"

text \<open>\<open>connect\<close> seeds the cursor; \<open>pulled\<close> is what \<open>PullCommands\<close> returns, \<open>None\<close> for an error.\<close>

definition loop_connect :: "int option \<Rightarrow> control_loop \<Rightarrow> bool \<times> control_loop" where
  "loop_connect off l = (case off of None \<Rightarrow> (False, l) | Some k \<Rightarrow> (True, l\<lparr>lp_cursor := k\<rparr>))"

definition pollOnce :: "(nat \<Rightarrow> stream_command \<Rightarrow> bool) \<Rightarrow> (nat \<Rightarrow> bool) \<Rightarrow>
    (int \<Rightarrow> stream_command list option) \<Rightarrow> control_loop \<Rightarrow> control_loop" where
  "pollOnce handles acks pull l =
     (case pull (lp_cursor l) of
        None \<Rightarrow> l
      | Some cmds \<Rightarrow> if cmds = [] then l else handleBatch handles acks cmds l)"

definition handleStreamCmd :: "(nat \<Rightarrow> stream_command \<Rightarrow> bool) \<Rightarrow> (nat \<Rightarrow> bool) \<Rightarrow> stream_command \<Rightarrow>
    control_loop \<Rightarrow> bool \<times> control_loop" where
  "handleStreamCmd handles acks cmd l =
     (if cmd_Offset cmd \<le> lp_cursor l then (True, l)
      else let l' = handleBatch handles acks [cmd] l in (lp_cursor l < lp_cursor l', l'))"

text \<open>The commands after an offset of a log that is kept in offset order.\<close>

definition pull_from :: "stream_command list \<Rightarrow> int \<Rightarrow> stream_command list option" where
  "pull_from cmds after = Some (filter (\<lambda>c. after < cmd_Offset c) cmds)"

subsection \<open>What one batch does\<close>

text \<open>A parked offset has failed at least as often as the threshold.\<close>

definition loop_inv :: "control_loop \<Rightarrow> bool" where
  "loop_inv l \<longleftrightarrow> (\<forall>k \<in> set (lp_parked l). holParkThreshold \<le> count_list (lp_failed l) k) \<and>
     lp_stuckFails l \<le> count_list (lp_failed l) (lp_stuckOffset l)"

definition settled :: "control_loop \<Rightarrow> int set" where
  "settled l = set (lp_handled l) \<union> set (lp_parked l)"

lemma loop_inv_frame [simp]:
  "loop_inv (l\<lparr>lp_calls := n\<rparr>) = loop_inv l" "loop_inv (l\<lparr>lp_handled := hs\<rparr>) = loop_inv l"
  "loop_inv (l\<lparr>lp_ackCalls := n\<rparr>) = loop_inv l" "loop_inv (l\<lparr>lp_acked := ks\<rparr>) = loop_inv l"
  "loop_inv (l\<lparr>lp_cursor := k\<rparr>) = loop_inv l"
  by (simp_all add: loop_inv_def)

lemma loop_inv_clear: "loop_inv l \<Longrightarrow> loop_inv (clearStuck l)"
  by (simp add: loop_inv_def clearStuck_def)

lemma loop_inv_note:
  "loop_inv l \<Longrightarrow> loop_inv (noteStuck off (l\<lparr>lp_failed := off # lp_failed l\<rparr>))"
  by (auto simp: loop_inv_def noteStuck_def Let_def intro: le_SucI)

lemma noteStuck_simps [simp]:
  "lp_cursor (noteStuck off l) = lp_cursor l" "lp_handled (noteStuck off l) = lp_handled l"
  "lp_failed (noteStuck off l) = lp_failed l" "lp_parked (noteStuck off l) = lp_parked l"
  "lp_acked (noteStuck off l) = lp_acked l" "lp_calls (noteStuck off l) = lp_calls l"
  "lp_ackCalls (noteStuck off l) = lp_ackCalls l"
  by (simp_all add: noteStuck_def Let_def)

lemma loop_inv_park:
  "loop_inv l \<Longrightarrow> shouldPark off l \<Longrightarrow> loop_inv (l\<lparr>lp_parked := off # lp_parked l\<rparr>)"
  by (auto simp: loop_inv_def shouldPark_def)

text \<open>
  The batch settles a prefix of its commands, in order, and proposes the offset of the last
  one for the ack.
\<close>

lemma handle_cmds_prefix:
  assumes "handle_cmds handles cmds hi l = (hi', l')" "loop_inv l"
  shows "\<exists>k \<le> length cmds. hi' = (if k = 0 then hi else Some (cmd_Offset (cmds ! (k - 1)))) \<and>
    settled l' = settled l \<union> cmd_Offset ` set (take k cmds) \<and> lp_cursor l' = lp_cursor l \<and>
    lp_acked l' = lp_acked l \<and> loop_inv l'"
  using assms
proof (induction handles cmds hi l rule: handle_cmds.induct)
  case (1 handles hi l)
  then show ?case by auto
next
  case (2 handles cmd cmds hi l)
  let ?off = "cmd_Offset cmd"
  let ?l0 = "l\<lparr>lp_calls := lp_calls l + 1\<rparr>"
  let ?l1 = "noteStuck ?off (?l0\<lparr>lp_failed := ?off # lp_failed ?l0\<rparr>)"
  have grow: "\<exists>k \<le> length (cmd # cmds). hi' = (if k = 0 then hi else Some (cmd_Offset ((cmd # cmds) ! (k - 1)))) \<and>
      settled l' = settled l \<union> cmd_Offset ` set (take k (cmd # cmds)) \<and> lp_cursor l' = lp_cursor l \<and>
      lp_acked l' = lp_acked l \<and> loop_inv l'"
    if rest: "\<exists>k \<le> length cmds. hi' = (if k = 0 then Some ?off else Some (cmd_Offset (cmds ! (k - 1)))) \<and>
        settled l' = settled l2 \<union> cmd_Offset ` set (take k cmds) \<and> lp_cursor l' = lp_cursor l2 \<and>
        lp_acked l' = lp_acked l2 \<and> loop_inv l'"
      and l2: "settled l2 = insert ?off (settled l)" "lp_cursor l2 = lp_cursor l" "lp_acked l2 = lp_acked l" for l2
  proof -
    from rest obtain k where "k \<le> length cmds" "hi' = (if k = 0 then Some ?off else Some (cmd_Offset (cmds ! (k - 1))))"
      "settled l' = settled l2 \<union> cmd_Offset ` set (take k cmds)" "lp_cursor l' = lp_cursor l2"
      "lp_acked l' = lp_acked l2" "loop_inv l'" by blast
    with l2 show ?thesis by (intro exI [of _ "Suc k"]) (auto simp: nth_Cons')
  qed
  show ?case
  proof (cases "handles (lp_calls l) cmd")
    case True
    let ?l2 = "?l0\<lparr>lp_handled := ?off # lp_handled ?l0\<rparr>"
    have "handle_cmds handles cmds (Some ?off) ?l2 = (hi', l')" using 2(3) True by (simp add: Let_def)
    from 2(1) [OF refl refl True this] 2(4) show ?thesis
      by (intro grow [of ?l2]) (auto simp: settled_def)
  next
    case fail: False
    have inv1: "loop_inv ?l1" using 2(4) by (intro loop_inv_note) simp
    show ?thesis
    proof (cases "shouldPark ?off ?l1")
      case True
      let ?l2 = "?l1\<lparr>lp_parked := ?off # lp_parked ?l1\<rparr>"
      have "handle_cmds handles cmds (Some ?off) ?l2 = (hi', l')" using 2(3) fail True by (simp add: Let_def)
      from 2(2) [OF refl refl fail refl True this loop_inv_park [OF inv1 True]] show ?thesis
        by (intro grow [of ?l2]) (auto simp: settled_def)
    next
      case False
      with 2(3) fail have "hi' = hi" "l' = ?l1" by (simp_all add: Let_def)
      with inv1 show ?thesis by (intro exI [of _ 0]) (simp add: settled_def)
    qed
  qed
qed

lemma handleBatch_settles:
  assumes "loop_inv l" "sorted_wrt (<) (map cmd_Offset cmds)" "\<forall>c \<in> set cmds. lp_cursor l < cmd_Offset c"
    and l'_def: "l' = handleBatch handles acks cmds l"
  shows "loop_inv l'" "lp_cursor l \<le> lp_cursor l'" "settled l \<subseteq> settled l'"
    "settled l' \<subseteq> settled l \<union> cmd_Offset ` set cmds"
    "\<And>c. c \<in> set cmds \<Longrightarrow> cmd_Offset c \<le> lp_cursor l' \<Longrightarrow> cmd_Offset c \<in> settled l'"
    "lp_cursor l' \<in> insert (lp_cursor l) (cmd_Offset ` set cmds)"
proof -
  obtain hi l1 where h: "handle_cmds handles cmds None l = (hi, l1)" by fastforce
  from handle_cmds_prefix [OF this assms(1)] obtain k where k: "k \<le> length cmds"
    "hi = (if k = 0 then None else Some (cmd_Offset (cmds ! (k - 1))))"
    "settled l1 = settled l \<union> cmd_Offset ` set (take k cmds)" "lp_cursor l1 = lp_cursor l" "loop_inv l1"
    by auto
  have l': "settled l' = settled l1" "loop_inv l'"
    "lp_cursor l' = lp_cursor l \<or> k \<noteq> 0 \<and> lp_cursor l' = cmd_Offset (cmds ! (k - 1))"
    using h k by (auto simp: l'_def handleBatch_def settled_def clearStuck_def Let_def loop_inv_def split: if_splits)
  show "loop_inv l'" "settled l \<subseteq> settled l'" using l' k by auto
  show "settled l' \<subseteq> settled l \<union> cmd_Offset ` set cmds" using l' k set_take_subset by fastforce
  have "cmds ! (k - 1) \<in> set cmds" if "k \<noteq> 0" using that k(1) by (intro nth_mem) linarith
  with l'(3) show mem: "lp_cursor l' \<in> insert (lp_cursor l) (cmd_Offset ` set cmds)" by auto
  with assms(3) show "lp_cursor l \<le> lp_cursor l'" by auto
  show "cmd_Offset c \<in> settled l'" if c: "c \<in> set cmds" "cmd_Offset c \<le> lp_cursor l'" for c
  proof -
    from c assms(3) l'(3) have off: "k \<noteq> 0" "cmd_Offset c \<le> cmd_Offset (cmds ! (k - 1))" by force+
    obtain j where j: "j < length cmds" "c = cmds ! j" using c(1) by (auto simp: in_set_conv_nth)
    have "j < k"
    proof (rule ccontr)
      assume "\<not> j < k"
      then have "cmd_Offset (cmds ! (k - 1)) < cmd_Offset c"
        using assms(2) off(1) j by (auto simp: sorted_wrt_iff_nth_less)
      with off show False by simp
    qed
    then have "c \<in> set (take k cmds)" using j k(1) by (auto simp: in_set_conv_nth)
    with l'(1) k(3) show ?thesis by auto
  qed
qed

subsection \<open>Polling\<close>

definition poll_all :: "(nat \<Rightarrow> stream_command \<Rightarrow> bool) \<Rightarrow> (nat \<Rightarrow> bool) \<Rightarrow> stream_command list list \<Rightarrow>
    control_loop \<Rightarrow> control_loop" where
  "poll_all handles acks logs l = fold (\<lambda>cmds. pollOnce handles acks (pull_from cmds)) logs l"

lemma poll_step:
  assumes inv: "loop_inv l" and log: "prefix cmds full" "sorted_wrt (<) (map cmd_Offset full)"
    and l': "l' = pollOnce handles acks (pull_from cmds) l"
  shows "loop_inv l'" "lp_cursor l \<le> lp_cursor l'" "settled l \<subseteq> settled l'"
    "settled l' \<subseteq> settled l \<union> {cmd_Offset c |c. c \<in> set full \<and> lp_cursor l < cmd_Offset c}"
    "\<And>c. c \<in> set full \<Longrightarrow> lp_cursor l < cmd_Offset c \<Longrightarrow> cmd_Offset c \<le> lp_cursor l' \<Longrightarrow> cmd_Offset c \<in> settled l'"
proof -
  let ?b = "filter (\<lambda>c. lp_cursor l < cmd_Offset c) cmds"
  obtain tail where tail: "full = cmds @ tail" using log(1) by (auto simp: prefix_def)
  then have "sorted_wrt (<) (map cmd_Offset cmds)" and later: "\<forall>c \<in> set cmds. \<forall>d \<in> set tail. cmd_Offset c < cmd_Offset d"
    using log(2) by (auto simp: sorted_wrt_append)
  then have sorted: "sorted_wrt (<) (map cmd_Offset ?b)" by (simp add: sorted_wrt_map sorted_wrt_filter)
  have l'': "l' = (if ?b = [] then l else handleBatch handles acks ?b l)"
    by (simp add: l' pollOnce_def pull_from_def)
  note batch = handleBatch_settles [OF inv sorted _ refl, where handles = handles and acks = acks, simplified]
  show "loop_inv l'" "lp_cursor l \<le> lp_cursor l'" "settled l \<subseteq> settled l'"
    using batch(1-3) inv by (auto simp: l'')
  show "settled l' \<subseteq> settled l \<union> {cmd_Offset c |c. c \<in> set full \<and> lp_cursor l < cmd_Offset c}"
    using batch(4) by (auto simp: l'' tail)
  show "cmd_Offset c \<in> settled l'" if c: "c \<in> set full" "lp_cursor l < cmd_Offset c" "cmd_Offset c \<le> lp_cursor l'" for c
  proof (cases "?b = []")
    case True
    with c show ?thesis by (simp add: l'')
  next
    case False
    then have b: "l' = handleBatch handles acks ?b l" by (simp add: l'')
    show ?thesis
    proof (cases "c \<in> set cmds")
      case True
      with batch(5) c show ?thesis by (simp add: b)
    next
      case False
      then have "c \<in> set tail" using c(1) tail by simp
      moreover have "lp_cursor l' \<in> insert (lp_cursor l) (cmd_Offset ` set ?b)"
        unfolding b using batch(6) by simp
      ultimately show ?thesis using later c(2,3) by fastforce
    qed
  qed
qed

text \<open>
  C34: polling skips nothing.  However handler calls and acks fail, when every poll reads a
  prefix of one growing log in offset order, each command between the starting cursor and the
  cursor has been handled, or was parked after at least 120 failed attempts.
\<close>

theorem poll_skips_nothing:
  assumes "sorted_wrt (<) (map cmd_Offset full)" "\<forall>cmds \<in> set logs. prefix cmds full"
    and "l' = poll_all handles acks logs (new_loop start)"
    and "c \<in> set full" "start < cmd_Offset c" "cmd_Offset c \<le> lp_cursor l'"
  shows "cmd_Offset c \<in> set (lp_handled l') \<or>
    cmd_Offset c \<in> set (lp_parked l') \<and> 120 \<le> count_list (lp_failed l') (cmd_Offset c)"
proof -
  have "loop_inv (poll_all handles acks logs l) \<and> lp_cursor l \<le> lp_cursor (poll_all handles acks logs l) \<and>
      settled l \<subseteq> settled (poll_all handles acks logs l) \<and>
      (lp_cursor l < cmd_Offset c \<and> cmd_Offset c \<le> lp_cursor (poll_all handles acks logs l) \<longrightarrow>
         cmd_Offset c \<in> settled (poll_all handles acks logs l))"
    if "loop_inv l" "\<forall>cmds \<in> set logs. prefix cmds full" for l
    using that
  proof (induction logs arbitrary: l)
    case Nil
    then show ?case by (auto simp: poll_all_def)
  next
    case (Cons cmds logs)
    let ?l1 = "pollOnce handles acks (pull_from cmds) l"
    have "prefix cmds full" using Cons.prems(2) by simp
    note step = poll_step [OF Cons.prems(1) this assms(1) refl, where handles = handles and acks = acks]
    have run: "poll_all handles acks (cmds # logs) l = poll_all handles acks logs ?l1" by (simp add: poll_all_def)
    from Cons.IH [OF step(1)] Cons.prems(2) step(2,3) step(5) [OF assms(4)] show ?case
      unfolding run by (cases "cmd_Offset c \<le> lp_cursor ?l1") auto
  qed
  moreover have "loop_inv (new_loop start)" by (simp add: loop_inv_def new_loop_def)
  ultimately have "loop_inv l'" "cmd_Offset c \<in> settled l'"
    using assms(2,3,5,6) by (auto simp: new_loop_def)
  then show ?thesis by (auto simp: loop_inv_def settled_def holParkThreshold_def)
qed

text \<open>
  C35: a gap in the stream loses commands.  When the stream delivers a command beyond the
  cursor and the handler and the ack succeed, the cursor jumps to its offset and that offset is
  acknowledged; a command of the log in between that has not been handled or parked is then in
  no later poll, whatever is polled and however it turns out.
\<close>

theorem stream_gap_loses:
  assumes "sorted_wrt (<) (map cmd_Offset full)" "loop_inv l"
    and "c \<in> set full" "lp_cursor l < cmd_Offset c" "cmd_Offset c < cmd_Offset d" "cmd_Offset c \<notin> settled l"
    and "handles (lp_calls l) d" "acks (lp_ackCalls l)"
    and "(advanced, l1) = handleStreamCmd handles acks d l"
    and "\<forall>cmds \<in> set logs. prefix cmds full"
  shows "advanced \<and> lp_cursor l1 = cmd_Offset d \<and> cmd_Offset d \<in> set (lp_acked l1) \<and>
    cmd_Offset c \<notin> settled (poll_all handles2 acks2 logs l1)"
proof -
  have jump: "advanced" "lp_cursor l1 = cmd_Offset d" "cmd_Offset d \<in> set (lp_acked l1)"
    "settled l1 = insert (cmd_Offset d) (settled l)"
    using assms(4,5,7-9)
    by (auto simp: handleStreamCmd_def handleBatch_def Let_def clearStuck_def settled_def)
  have batch: "sorted_wrt (<) (map cmd_Offset [d])" "\<forall>x \<in> set [d]. lp_cursor l < cmd_Offset x"
    using assms(4,5) by simp_all
  have "l1 = handleBatch handles acks [d] l"
    using assms(4,5,9) by (simp add: handleStreamCmd_def Let_def)
  from handleBatch_settles(1) [OF assms(2) batch this] have inv1: "loop_inv l1" .
  have "cmd_Offset c \<notin> settled (poll_all handles2 acks2 logs m)"
    if "loop_inv m" "cmd_Offset c \<le> lp_cursor m" "cmd_Offset c \<notin> settled m" "\<forall>cmds \<in> set logs. prefix cmds full" for m
    using that
  proof (induction logs arbitrary: m)
    case Nil
    then show ?case by (simp add: poll_all_def)
  next
    case (Cons cmds logs)
    let ?m1 = "pollOnce handles2 acks2 (pull_from cmds) m"
    have "prefix cmds full" using Cons.prems(4) by simp
    note step = poll_step [OF Cons.prems(1) this assms(1) refl, where handles = handles2 and acks = acks2]
    have "cmd_Offset c \<notin> settled ?m1" using step(4) Cons.prems(2,3) by auto
    with Cons.IH [OF step(1)] step(2) Cons.prems(2,4) show ?case by (simp add: poll_all_def)
  qed
  from this [OF inv1 _ _ assms(10)] jump assms(5,6) show ?thesis by auto
qed

subsection \<open>The head-of-line escape\<close>

lemma handle_cmds_good:
  "\<forall>c \<in> set cmds. \<forall>n. handles n c \<Longrightarrow> handle_cmds handles cmds hi l =
     (if cmds = [] then hi else Some (cmd_Offset (last cmds)),
      l\<lparr>lp_calls := lp_calls l + length cmds, lp_handled := rev (map cmd_Offset cmds) @ lp_handled l\<rparr>)"
  by (induction cmds arbitrary: hi l) (simp_all add: Let_def)

lemma poll_stuck_head:
  assumes bad: "\<forall>n c. handles n c \<longleftrightarrow> cmd_Offset c \<noteq> cmd_Offset h" and ok: "\<forall>n. acks n"
    and pend: "filter (\<lambda>c. lp_cursor l < cmd_Offset c) log = h # rest"
    and sorted: "sorted_wrt (<) (map cmd_Offset log)"
    and stuck: "lp_stuckFails l = j" "j = 0 \<or> lp_stuckOffset l = cmd_Offset h"
    and l': "l' = pollOnce handles acks (pull_from log) l"
  shows "j + 1 < 120 \<Longrightarrow> lp_cursor l' = lp_cursor l \<and> lp_stuckFails l' = j + 1 \<and> lp_stuckOffset l' = cmd_Offset h"
    and "120 \<le> j + 1 \<Longrightarrow> lp_cursor l' = cmd_Offset (last (h # rest)) \<and> cmd_Offset h \<in> set (lp_parked l') \<and>
      (\<forall>c \<in> set rest. cmd_Offset c \<in> set (lp_handled l'))"
proof -
  have "sorted_wrt (<) (map cmd_Offset (h # rest))"
    using sorted unfolding pend [symmetric] by (simp add: sorted_wrt_map sorted_wrt_filter)
  then have good: "\<forall>c \<in> set rest. \<forall>n. handles n c" using bad by auto
  let ?l0 = "l\<lparr>lp_calls := lp_calls l + 1, lp_failed := cmd_Offset h # lp_failed l\<rparr>"
  let ?l1 = "noteStuck (cmd_Offset h) ?l0"
  have noted: "lp_stuckFails ?l1 = j + 1" "lp_stuckOffset ?l1 = cmd_Offset h"
    using stuck by (auto simp: noteStuck_def Let_def)
  have batch: "l' = handleBatch handles acks (h # rest) l"
    by (simp add: l' pollOnce_def pull_from_def pend)
  have fail: "\<not> handles n h" for n using bad by simp
  show "lp_cursor l' = lp_cursor l \<and> lp_stuckFails l' = j + 1 \<and> lp_stuckOffset l' = cmd_Offset h"
    if "j + 1 < 120"
  proof -
    have "\<not> shouldPark (cmd_Offset h) ?l1" using that noted by (simp add: shouldPark_def holParkThreshold_def)
    then have "l' = ?l1" by (simp add: batch handleBatch_def fail Let_def)
    with noted show ?thesis by simp
  qed
  show "lp_cursor l' = cmd_Offset (last (h # rest)) \<and> cmd_Offset h \<in> set (lp_parked l') \<and>
      (\<forall>c \<in> set rest. cmd_Offset c \<in> set (lp_handled l'))" if "120 \<le> j + 1"
  proof -
    have "shouldPark (cmd_Offset h) ?l1" using that noted by (simp add: shouldPark_def holParkThreshold_def)
    then show ?thesis
      using ok by (simp add: batch handleBatch_def fail Let_def handle_cmds_good [OF good] clearStuck_def)
  qed
qed

text \<open>
  C36: a head-of-line block ends.  When the head command of the log always fails, everything
  behind it succeeds and acks arrive, the cursor stays for 119 polls and the 120th parks the
  head, handles all the commands behind it and moves the cursor to the end of the log.
\<close>

theorem hol_block_ends:
  assumes "\<forall>n c. handles n c \<longleftrightarrow> cmd_Offset c \<noteq> cmd_Offset h" "\<forall>n. acks n"
    and "filter (\<lambda>c. lp_cursor l < cmd_Offset c) log = h # rest" "sorted_wrt (<) (map cmd_Offset log)"
    and "lp_stuckFails l = 0"
  shows "(\<forall>j < 120. lp_cursor (poll_all handles acks (replicate j log) l) = lp_cursor l) \<and>
    lp_cursor (poll_all handles acks (replicate 120 log) l) = cmd_Offset (last (h # rest)) \<and>
    cmd_Offset h \<in> set (lp_parked (poll_all handles acks (replicate 120 log) l)) \<and>
    (\<forall>c \<in> set rest. cmd_Offset c \<in> set (lp_handled (poll_all handles acks (replicate 120 log) l)))"
proof -
  let ?p = "\<lambda>j. poll_all handles acks (replicate j log) l"
  have next': "?p (Suc j) = pollOnce handles acks (pull_from log) (?p j)" for j
    by (simp add: poll_all_def replicate_append_same [symmetric] del: replicate.simps)
  have wait: "lp_cursor (?p j) = lp_cursor l \<and> lp_stuckFails (?p j) = j \<and>
      (j = 0 \<or> lp_stuckOffset (?p j) = cmd_Offset h)" if "j < 120" for j
    using that
  proof (induction j)
    case 0
    then show ?case using assms(5) by (simp add: poll_all_def)
  next
    case (Suc j)
    then have "lp_cursor (?p j) = lp_cursor l" "lp_stuckFails (?p j) = j" "j = 0 \<or> lp_stuckOffset (?p j) = cmd_Offset h"
      by simp_all
    with poll_stuck_head(1) [OF assms(1,2) _ assms(4) _ _ next'] assms(3) Suc.prems show ?case by simp
  qed
  have "lp_cursor (?p (Suc 119)) = cmd_Offset (last (h # rest)) \<and> cmd_Offset h \<in> set (lp_parked (?p (Suc 119))) \<and>
      (\<forall>c \<in> set rest. cmd_Offset c \<in> set (lp_handled (?p (Suc 119))))"
  proof (rule poll_stuck_head(2) [OF assms(1,2) _ assms(4) _ _ next', of _ _ 119])
    show "filter (\<lambda>c. lp_cursor (?p 119) < cmd_Offset c) log = h # rest"
      "lp_stuckFails (?p 119) = 119" "119 = 0 \<or> lp_stuckOffset (?p 119) = cmd_Offset h"
      using wait [of 119] assms(3) by simp_all
    show "(120::nat) \<le> 119 + 1" by simp
  qed
  moreover have "Suc 119 = (120 :: nat)" by simp
  ultimately show ?thesis using wait by (simp del: replicate.simps)
qed

text \<open>
  The budget of a parked command is not always kept when its ack fails: a second failing
  command in the same batch takes the counter over, and the head starts again from one.
\<close>

lemma park_budget_lost:
  assumes "lp_stuckOffset l = cmd_Offset h" "119 \<le> lp_stuckFails l" "cmd_Offset h \<noteq> cmd_Offset d"
    and "\<forall>n. \<not> handles n h \<and> \<not> handles n d" "\<forall>n. \<not> acks n"
  shows "lp_stuckOffset (handleBatch handles acks [h, d] l) = cmd_Offset d \<and>
    lp_stuckFails (handleBatch handles acks [h, d] l) = 1"
  using assms
  by (simp add: handleBatch_def Let_def noteStuck_def shouldPark_def holParkThreshold_def)

subsection \<open>Witnesses\<close>

lemma numbered_offset [simp]: "cmd_Offset (numbered k) = k"
  by (simp add: numbered_def numbered_event_def CommandFromEvent_def new_command_def)

theorem poll_skips_nothing_witness:
  "(5 \<in> set (lp_handled (poll_all (\<lambda>n c. n \<noteq> 0) (\<lambda>_. True) [[numbered 5], [numbered 5, numbered 6]] (new_loop 4)))) = True"
proof -
  let ?l = "poll_all (\<lambda>n c. n \<noteq> 0) (\<lambda>_. True) [[numbered 5], [numbered 5, numbered 6]] (new_loop 4)"
  have "lp_cursor ?l = 6 \<and> lp_parked ?l = []"
    by (simp add: poll_all_def pollOnce_def pull_from_def handleBatch_def Let_def noteStuck_def shouldPark_def
        holParkThreshold_def new_loop_def clearStuck_def)
  with poll_skips_nothing [of "[numbered 5, numbered 6]" "[[numbered 5], [numbered 5, numbered 6]]" ?l
      "\<lambda>n c. n \<noteq> 0" "\<lambda>_. True" 4 "numbered 5"]
  show ?thesis by simp
qed

theorem stream_gap_loses_witness:
  "lp_cursor (snd (handleStreamCmd (\<lambda>_ _. True) (\<lambda>_. True) (numbered 7) (new_loop 5))) = 7 \<and>
   6 \<notin> settled (poll_all (\<lambda>_ _. True) (\<lambda>_. True) [[numbered 6, numbered 7], [numbered 6, numbered 7, numbered 8]]
     (snd (handleStreamCmd (\<lambda>_ _. True) (\<lambda>_. True) (numbered 7) (new_loop 5))))"
proof -
  let ?full = "[numbered 6, numbered 7, numbered 8]"
  have "loop_inv (new_loop 5)" "cmd_Offset (numbered 6) \<notin> settled (new_loop 5)" "lp_cursor (new_loop 5) = 5"
    by (simp_all add: loop_inv_def new_loop_def settled_def)
  moreover have "\<forall>cmds \<in> set [[numbered 6, numbered 7], ?full]. prefix cmds ?full" by simp
  ultimately show ?thesis
    using stream_gap_loses [of ?full "new_loop 5" "numbered 6" "numbered 7" "\<lambda>_ _. True" "\<lambda>_. True"
        "fst (handleStreamCmd (\<lambda>_ _. True) (\<lambda>_. True) (numbered 7) (new_loop 5))"
        "snd (handleStreamCmd (\<lambda>_ _. True) (\<lambda>_. True) (numbered 7) (new_loop 5))"
        "[[numbered 6, numbered 7], ?full]" "\<lambda>_ _. True" "\<lambda>_. True"]
    by simp
qed

theorem hol_block_ends_witness:
  "lp_cursor (poll_all (\<lambda>_ c. cmd_Offset c \<noteq> 5) (\<lambda>_. True) (replicate 120 [numbered 4, numbered 5, numbered 6]) (new_loop 4)) = 6"
proof -
  have "filter (\<lambda>c. lp_cursor (new_loop 4) < cmd_Offset c) [numbered 4, numbered 5, numbered 6] = [numbered 5, numbered 6]"
    "lp_stuckFails (new_loop 4) = 0"
    by (simp_all add: new_loop_def)
  from hol_block_ends [OF _ _ this(1) _ this(2), of "\<lambda>_ c. cmd_Offset c \<noteq> 5" "\<lambda>_. True"]
  show ?thesis by simp
qed

end
