(* ===== verification/Authz_Registry.thy ===== *)
theory Authz_Registry
  imports Row_Time
begin

section \<open>Subjects, resources and the permission registry (authorization/types.go, registry.go)\<close>

text \<open>
  A subject is a string with a kind prefix, a permission is a dotted key, and a resource is
  a kind with identifiers.  An error is the sentinel that it wraps, which is what
  \<open>errors.Is\<close> sees; the text after it is left out.
\<close>

type_synonym subject_ref = gostring
type_synonym permission_key = gostring

datatype decision_source =
    SourceNone
  | SourceOrgRole
  | SourceProjectMember
  | SourceTeamMember
  | SourceTeamMemoryPolicy
  | SourceConversationParticipant
  | SourceFileScope
  | SourceAdminTokenScope
  | SourceWorkerOwner
  | SourceAgentWorkerBinding
  | SourceSystem
  | SourceCustomRole
  | SourceTeamRoleRAM

datatype enforcement_mode = EnforcementLegacy | EnforcementShadow | EnforcementEnforce | OtherMode gostring

datatype auth_error =
    ErrDenied
  | ErrAuthNotFound
  | ErrAuthInvalid
  | ErrAuthConflict
  | ErrNotDelegatable
  | ErrPermissionUndefined
  | ErrRoleNotFound
  | ErrAssignmentNotFound
  | ErrSystemRoleImmutable
  | ErrIdempotencyRequired
  | ErrIdempotencyConflict
  | ErrEnforceNotReady
  | ErrMalformedJSON
  | ErrConstraint

record file_ref =
  fr_Scope :: gostring
  fr_ScopeID :: gostring

record resource_scope =
  rs_Kind :: gostring
  rs_ID :: gostring
  rs_OrgID :: gostring
  rs_ProjectID :: gostring
  rs_URI :: gostring
  rs_OwnerRef :: gostring
  rs_IdentityMemberID :: gostring
  rs_Refs :: "file_ref list"

record check_request =
  cr_SubjectRef :: subject_ref
  cr_Transport :: gostring
  cr_BearerScope :: gostring
  cr_Permission :: permission_key
  cr_Resource :: resource_scope

record access_decision =
  ad_Allowed :: bool
  ad_SubjectRef :: subject_ref
  ad_Permission :: permission_key
  ad_Resource :: resource_scope
  ad_Source :: decision_source
  ad_Reason :: gostring
  ad_EvidenceRef :: gostring

record effective_permission =
  ep_Key :: permission_key
  ep_Source :: decision_source
  ep_EvidenceRef :: gostring
  ep_Delegatable :: bool
  ep_RoleID :: gostring
  ep_AssignmentID :: gostring
  ep_ExpiresAt :: "time option"

record explain_result =
  er_Decision :: access_decision
  er_Effective :: "effective_permission list"
  er_DeniedBy :: "gostring list"
  er_ResolvedOrg :: gostring

definition empty_resource :: resource_scope where
  "empty_resource = \<lparr>rs_Kind = [], rs_ID = [], rs_OrgID = [], rs_ProjectID = [], rs_URI = [],
     rs_OwnerRef = [], rs_IdentityMemberID = [], rs_Refs = []\<rparr>"

text \<open>The text of the sentinel, which is the start of the error's message.\<close>

fun error_text :: "auth_error \<Rightarrow> gostring" where
  "error_text ErrDenied = ''authorization: permission denied''"
| "error_text ErrAuthNotFound = ''authorization: resource not found''"
| "error_text ErrAuthInvalid = ''authorization: invalid request''"
| "error_text ErrAuthConflict = ''authorization: conflict''"
| "error_text ErrNotDelegatable = ''authorization: permission is not delegatable by actor''"
| "error_text ErrPermissionUndefined = ''authorization: permission is not defined''"
| "error_text ErrRoleNotFound = ''authorization: role not found''"
| "error_text ErrAssignmentNotFound = ''authorization: role assignment not found''"
| "error_text ErrSystemRoleImmutable = ''authorization: system role is immutable''"
| "error_text ErrIdempotencyRequired = ''authorization: idempotency key required''"
| "error_text ErrIdempotencyConflict = ''authorization: idempotency key reused with different request''"
| "error_text ErrEnforceNotReady = ''authorization: enforce readiness check failed''"
| "error_text ErrMalformedJSON = ''invalid character''"
| "error_text ErrConstraint = ''constraint failed''"

subsection \<open>Suffixes and index of a byte\<close>

definition HasSuffix :: "gostring \<Rightarrow> gostring \<Rightarrow> bool" where
  "HasSuffix s p \<longleftrightarrow> suffix p s"

definition TrimSuffix :: "gostring \<Rightarrow> gostring \<Rightarrow> gostring" where
  "TrimSuffix s p = (if suffix p s then take (length s - length p) s else s)"

subsection \<open>SubjectRef\<close>

definition subject_Validate :: "subject_ref \<Rightarrow> auth_error option" where
  "subject_Validate s =
     (let v = TrimSpace s in
      if v = ''system'' then None
      else if list_ex (\<lambda>p. HasPrefix v p \<and> length p < length v) [''user:'', ''agent:'', ''worker:''] then None
      else Some ErrAuthInvalid)"

definition BareID :: "subject_ref \<Rightarrow> gostring" where
  "BareID s = (case dropWhile (\<lambda>c. c \<noteq> CHR '':'') s of [] \<Rightarrow> s | _ # rest \<Rightarrow> rest)"

definition IsUser :: "subject_ref \<Rightarrow> bool" where
  "IsUser s = HasPrefix s ''user:''"

definition IsAgent :: "subject_ref \<Rightarrow> bool" where
  "IsAgent s = HasPrefix s ''agent:''"

definition IsWorker :: "subject_ref \<Rightarrow> bool" where
  "IsWorker s = HasPrefix s ''worker:''"

definition UserSubject :: "gostring \<Rightarrow> subject_ref" where
  "UserSubject i = ''user:'' @ TrimSpace i"

definition AgentSubject :: "gostring \<Rightarrow> subject_ref" where
  "AgentSubject i = ''agent:'' @ TrimSpace i"

definition WorkerSubject :: "gostring \<Rightarrow> subject_ref" where
  "WorkerSubject i = ''worker:'' @ TrimSpace i"

definition scope_Key :: "resource_scope \<Rightarrow> gostring \<times> gostring" where
  "scope_Key r =
     (let i = (if rs_Kind r = ''file'' then rs_URI r else rs_ID r) in (TrimSpace (rs_Kind r), TrimSpace i))"

subsection \<open>Enforcement modes (authorization/service.go)\<close>

definition NormalizeEnforcementMode :: "enforcement_mode \<Rightarrow> enforcement_mode" where
  "NormalizeEnforcementMode m = (case m of OtherMode _ \<Rightarrow> EnforcementShadow | _ \<Rightarrow> m)"

definition ParseEnforcementMode :: "(gostring \<Rightarrow> gostring) \<Rightarrow> gostring \<Rightarrow> auth_error + enforcement_mode" where
  "ParseEnforcementMode ulower raw =
     (let m = TrimSpace (ToLower ulower raw) in
      if m = [] then Ok EnforcementShadow
      else if m = ''legacy'' then Ok EnforcementLegacy
      else if m = ''shadow'' then Ok EnforcementShadow
      else if m = ''enforce'' then Ok EnforcementEnforce
      else Err ErrAuthInvalid)"

subsection \<open>The registry\<close>

record permission_definition =
  pd_Key :: permission_key
  pd_Category :: gostring
  pd_ResourceKinds :: "gostring list"
  pd_Actions :: "gostring list"
  pd_LegacySources :: "gostring list"

definition def_permission :: "gostring \<Rightarrow> gostring list \<Rightarrow> gostring list \<Rightarrow> gostring list \<Rightarrow> permission_definition" where
  "def_permission key kinds actions sources =
     \<lparr>pd_Key = key, pd_Category = ''access'', pd_ResourceKinds = kinds, pd_Actions = actions,
      pd_LegacySources = sources\<rparr>"

definition permission_definitions :: "permission_definition list" where
  "permission_definitions = [
     def_permission ''org.read'' [''org''] [''read''] [''members''],
     def_permission ''org.settings.manage'' [''org''] [''manage''] [''members.role''],
     def_permission ''org.lifecycle.manage'' [''org''] [''manage''] [''members.role''],
     def_permission ''org.member.list'' [''org''] [''list''] [''members''],
     def_permission ''org.member.create.human'' [''org''] [''create''] [''members.role''],
     def_permission ''org.member.create.agent'' [''org''] [''create''] [''members.role''],
     def_permission ''org.member.role.manage'' [''org''] [''manage''] [''members.role''],
     def_permission ''org.member.disable'' [''org''] [''manage''] [''members.role''],
     def_permission ''org.invitation.manage'' [''org''] [''manage''] [''members.role''],
     def_permission ''org.analytics.read'' [''org''] [''read''] [''members.role''],
     def_permission ''org.work_items.read'' [''org''] [''read''] [''members''],
     def_permission ''project.read'' [''project''] [''read''] [''pm_project_members''],
     def_permission ''project.write'' [''project''] [''update''] [''pm_project_members''],
     def_permission ''project.member.add'' [''project''] [''create''] [''pm_project_members''],
     def_permission ''project.member.remove'' [''project''] [''delete''] [''pm_project_members.role''],
     def_permission ''project.repo_ref.manage'' [''project''] [''manage''] [''pm_project_members''],
     def_permission ''project.stage.manage'' [''project''] [''manage''] [''pm_project_members.role''],
     def_permission ''team.read'' [''team''] [''read''] [''members''],
     def_permission ''team.create'' [''org''] [''create''] [''members''],
     def_permission ''team.write'' [''team''] [''update''] [''members''],
     def_permission ''team.member.manage'' [''team''] [''manage''] [''members''],
     def_permission ''team.project.link.manage'' [''team''] [''manage''] [''members''],
     def_permission ''team.runtime_config.manage'' [''team''] [''manage''] [''members''],
     def_permission ''team.memory.read'' [''team''] [''read''] [''members'', ''team_members''],
     def_permission ''team.memory.propose'' [''team''] [''create''] [''members.role'', ''team_members''],
     def_permission ''team.memory.review'' [''team''] [''review''] [''members.role'', ''team_memory_policy_curators''],
     def_permission ''team.git.read'' [''team''] [''read''] [''team_members''],
     def_permission ''team.git.write'' [''team''] [''update''] [''team_members''],
     def_permission ''conversation.read'' [''conversation''] [''read''] [''conversations.participants''],
     def_permission ''conversation.post'' [''conversation''] [''create''] [''conversations.participants''],
     def_permission ''file.upload'' [''file''] [''upload''] [''file_references''],
     def_permission ''file.download'' [''file''] [''download''] [''file_references''],
     def_permission ''file.attach'' [''file''] [''attach''] [''file_references''],
     def_permission ''agent.operate.self'' [''agent''] [''manage''] [''agents.worker_id''],
     def_permission ''worker.capability.report'' [''worker''] [''report''] [''admin_tokens.owner''],
     def_permission ''worker.heartbeat'' [''worker''] [''heartbeat''] [''admin_tokens.owner''],
     def_permission ''worker.enroll'' [''worker''] [''create''] [''admin_tokens.scopes_json''],
     def_permission ''dispatch.pull'' [''worker''] [''pull''] [''admin_tokens.scopes_json''],
     def_permission ''task.internal.report'' [''task''] [''report''] [''admin_tokens.scopes_json''],
     def_permission ''task.read'' [''task''] [''read''] [''pm_project_members'', ''pm_tasks.assignee''],
     def_permission ''task.write'' [''task''] [''update''] [''pm_project_members''],
     def_permission ''task.start.self'' [''task''] [''start''] [''pm_tasks.assignee''],
     def_permission ''task.heartbeat.self'' [''task''] [''heartbeat''] [''pm_tasks.assignee''],
     def_permission ''task.complete.self'' [''task''] [''complete''] [''pm_tasks.assignee''],
     def_permission ''task.block.self'' [''task''] [''block''] [''pm_tasks.assignee''],
     def_permission ''issue.read'' [''issue''] [''read''] [''pm_project_members''],
     def_permission ''issue.write'' [''issue''] [''update''] [''pm_project_members''],
     def_permission ''plan.read'' [''plan''] [''read''] [''pm_project_members''],
     def_permission ''plan.write'' [''plan''] [''update''] [''pm_project_members''],
     def_permission ''template.read'' [''org''] [''read''] [''members''],
     def_permission ''template.write'' [''org''] [''update''] [''members''],
     def_permission ''coderepo.workspace.read'' [''org''] [''read''] [''members''],
     def_permission ''coderepo.workspace.manage'' [''org''] [''manage''] [''members.role''],
     def_permission ''coderepo.project_ref.read'' [''project''] [''read''] [''pm_project_members''],
     def_permission ''ai_runtime.catalog.read'' [''org''] [''read''] [''members''],
     def_permission ''ai_runtime.catalog.export'' [''org''] [''export''] [''members''],
     def_permission ''ai_runtime.catalog.manage'' [''org''] [''manage''] [''members.role''],
     def_permission ''model_catalog.manage'' [''org''] [''manage''] [''agent_worker_binding''],
     def_permission ''secret.resolve'' [''secret''] [''read''] [''admin_tokens.scopes_json''],
     def_permission ''blob.put'' [''blob''] [''put''] [''admin_tokens.scopes_json''],
     def_permission ''admin_token.manage'' [''admin_token''] [''manage''] [''admin_tokens.scopes_json''],
     def_permission ''git.global.read'' [''git''] [''read''] [''system''],
     def_permission ''git.agent.read.self'' [''agent''] [''read''] [''agents.identity_member_id''],
     def_permission ''git.agent.write.self'' [''agent''] [''update''] [''agents.identity_member_id'']]"

definition Definition :: "permission_key \<Rightarrow> permission_definition option" where
  "Definition key = find (\<lambda>d. pd_Key d = key) permission_definitions"

definition PermissionDefinedForResource :: "permission_key \<Rightarrow> gostring \<Rightarrow> bool" where
  "PermissionDefinedForResource key kind =
     (case Definition key of None \<Rightarrow> False | Some d \<Rightarrow> TrimSpace kind \<in> set (pd_ResourceKinds d))"

definition PermissionForBearerScope :: "gostring \<Rightarrow> permission_key option" where
  "PermissionForBearerScope scope =
     map_of [(''*'', ''*''), (''admin:token'', ''admin_token.manage''), (''secret:resolve'', ''secret.resolve''),
             (''blob:put'', ''blob.put''), (''dispatch:pull'', ''dispatch.pull''),
             (''task:*'', ''task.internal.report''), (''workforce:enroll'', ''worker.enroll'')] (TrimSpace scope)"

definition BearerScopeAllows :: "gostring list \<Rightarrow> gostring \<Rightarrow> bool" where
  "BearerScopeAllows have required0 =
     (let required = TrimSpace required0 in
      list_ex (\<lambda>scope0. let scope = TrimSpace scope0 in
        scope = ''*'' \<or> scope = required \<or>
        (HasSuffix scope '':*'' \<and> HasPrefix required (TrimSuffix scope ''*''))) have)"

subsection \<open>Facts\<close>

lemma registry_keys_distinct: "distinct (map pd_Key permission_definitions)"
  by code_simp

lemma subject_kinds_exclusive:
  "\<not> (IsUser s \<and> IsAgent s)" "\<not> (IsUser s \<and> IsWorker s)" "\<not> (IsAgent s \<and> IsWorker s)"
  by (auto simp: IsUser_def IsAgent_def IsWorker_def HasPrefix_def prefix_def)

lemma system_no_kind [simp]:
  "\<not> IsUser ''system''" "\<not> IsAgent ''system''" "\<not> IsWorker ''system''"
  by (simp_all add: IsUser_def IsAgent_def IsWorker_def HasPrefix_def)

lemma BareID_prefixed [simp]:
  "BareID (''user:'' @ i) = i" "BareID (''agent:'' @ i) = i" "BareID (''worker:'' @ i) = i"
  by (simp_all add: BareID_def)

lemma subject_Validate_cases:
  assumes "subject_Validate s = None" and "TrimSpace s = s"
  obtains "s = ''system''" | "IsUser s" | "IsAgent s" | "IsWorker s"
  using assms unfolding subject_Validate_def IsUser_def IsAgent_def IsWorker_def
  by (auto split: if_splits)

end
