(* ===== verification/Authz_Store.thy ===== *)
theory Authz_Store
  imports Authz_Registry
begin

section \<open>The tables that decide access (authorization/store.go, service.go)\<close>

text \<open>
  The service reads the membership tables of the other packages and owns the tables of roles,
  role permissions and assignments.  A table is the list of its rows; a time column is its
  instant; a JSON column is its decoded value, \<open>None\<close> when it does not decode.  Statements do not
  fail for reasons of their own here; a constraint that refuses an insert is written out.
\<close>

record org_row =
  og_id :: gostring
  og_disabled_at :: "gostring option"
  og_deleted :: bool

record member_row =
  mb_id :: gostring
  mb_organization_id :: gostring
  mb_identity_id :: gostring
  mb_role :: gostring
  mb_status :: gostring

record project_member_row =
  pj_id :: gostring
  pj_project_id :: gostring
  pj_identity_id :: gostring
  pj_role :: gostring

record task_row =
  tk_id :: gostring
  tk_project_id :: gostring
  tk_assignee :: "gostring option"
  tk_created_by :: gostring

record conversation_row =
  cv_id :: gostring
  cv_organization_id :: gostring
  cv_owner_ref :: "gostring option"
  cv_participants :: "(gostring \<times> gostring) list option"

record agent_row =
  ag_id :: gostring
  ag_organization_id :: gostring
  ag_worker_id :: gostring
  ag_identity_member_id :: "gostring option"

record file_reference_row =
  fl_file_uri :: gostring
  fl_scope :: gostring
  fl_scope_id :: gostring
  fl_deleted :: bool

record team_member_row =
  tm_team_id :: gostring
  tm_member_ref :: gostring
  tm_role :: gostring
  tm_created_at :: time

record role_row =
  ro_ID :: gostring
  ro_OrgID :: gostring
  ro_Kind :: gostring
  ro_Visibility :: gostring
  ro_Name :: gostring
  ro_Description :: gostring
  ro_CreatedBy :: gostring
  ro_CreatedAt :: time
  ro_UpdatedAt :: time
  ro_Version :: int
  ro_RevokedAt :: "time option"

record role_permission =
  rp_RoleID :: gostring
  rp_PermissionKey :: permission_key
  rp_ResourceKind :: gostring
  rp_Delegatable :: bool

record role_assignment =
  as_ID :: gostring
  as_OrgID :: gostring
  as_SubjectRef :: subject_ref
  as_RoleID :: gostring
  as_ResourceKind :: gostring
  as_ResourceID :: gostring
  as_CreatedBy :: gostring
  as_CreatedAt :: time
  as_ExpiresAt :: "time option"
  as_RevokedAt :: "time option"
  as_RevokedBy :: gostring
  as_RevokedReason :: gostring
  as_Version :: int

text \<open>
  Issues and plans are read for their project, projects and teams for their organization.  The
  triples are a team, a role of the team or a project or a member, and a time or a RAM role.
\<close>

record auth_db =
  db_organizations :: "org_row list"
  db_members :: "member_row list"
  db_projects :: "(gostring \<times> gostring) list"
  db_project_members :: "project_member_row list"
  db_tasks :: "task_row list"
  db_issues :: "(gostring \<times> gostring) list"
  db_plans :: "(gostring \<times> gostring) list"
  db_conversations :: "conversation_row list"
  db_agents :: "agent_row list"
  db_file_references :: "file_reference_row list"
  db_teams :: "(gostring \<times> gostring) list"
  db_team_members :: "team_member_row list"
  db_team_projects :: "(gostring \<times> gostring \<times> time) list"
  db_role_mappings :: "(gostring \<times> gostring \<times> gostring \<times> time) list"
  db_role_mapping_versions :: "(gostring \<times> gostring \<times> int \<times> time) list"
  db_curators :: "(gostring \<times> gostring \<times> time) list"
  db_roles :: "role_row list"
  db_role_permissions :: "role_permission list"
  db_assignments :: "role_assignment list"

subsection \<open>Reading one row\<close>

definition ensureOrg :: "auth_db \<Rightarrow> gostring \<Rightarrow> auth_error option" where
  "ensureOrg db orgID =
     (if list_ex (\<lambda>o'. og_id o' = orgID \<and> \<not> og_deleted o') (db_organizations db) then None else Some ErrAuthNotFound)"

definition orgDisabled :: "auth_db \<Rightarrow> gostring \<Rightarrow> auth_error + bool" where
  "orgDisabled db orgID =
     (case find (\<lambda>o'. og_id o' = orgID \<and> \<not> og_deleted o') (db_organizations db) of
        None \<Rightarrow> Err ErrAuthNotFound
      | Some row \<Rightarrow> Ok (case og_disabled_at row of None \<Rightarrow> False | Some t \<Rightarrow> \<not> blank t))"

definition lookup_row :: "(gostring \<times> gostring) list \<Rightarrow> gostring \<Rightarrow> auth_error + gostring" where
  "lookup_row rows key = (case map_of rows key of None \<Rightarrow> Err ErrAuthNotFound | Some v \<Rightarrow> Ok v)"

definition projectOrg :: "auth_db \<Rightarrow> gostring \<Rightarrow> auth_error + gostring" where
  "projectOrg db projectID = lookup_row (db_projects db) projectID"

definition teamOrg :: "auth_db \<Rightarrow> gostring \<Rightarrow> auth_error + gostring" where
  "teamOrg db teamID = lookup_row (db_teams db) teamID"

definition find_task :: "auth_db \<Rightarrow> gostring \<Rightarrow> task_row option" where
  "find_task db i = find (\<lambda>t. tk_id t = i) (db_tasks db)"

definition parentProject :: "auth_db \<Rightarrow> gostring \<Rightarrow> gostring \<Rightarrow> auth_error + gostring" where
  "parentProject db kind i =
     (if kind = ''task'' then (case find_task db i of None \<Rightarrow> Err ErrAuthNotFound | Some t \<Rightarrow> Ok (tk_project_id t))
      else if kind = ''issue'' then lookup_row (db_issues db) i
      else if kind = ''plan'' then lookup_row (db_plans db) i
      else Err ErrAuthInvalid)"

definition find_conversation :: "auth_db \<Rightarrow> gostring \<Rightarrow> conversation_row option" where
  "find_conversation db i = find (\<lambda>c. cv_id c = i) (db_conversations db)"

definition conversationScope :: "auth_db \<Rightarrow> gostring \<Rightarrow> auth_error + gostring \<times> gostring" where
  "conversationScope db i =
     (case find_conversation db i of
        None \<Rightarrow> Err ErrAuthNotFound
      | Some c \<Rightarrow> Ok (cv_organization_id c, case cv_owner_ref c of None \<Rightarrow> [] | Some r \<Rightarrow> r))"

definition find_agent :: "auth_db \<Rightarrow> gostring \<Rightarrow> agent_row option" where
  "find_agent db i = find (\<lambda>a. ag_id a = i) (db_agents db)"

definition agentOrg :: "auth_db \<Rightarrow> gostring \<Rightarrow> auth_error + gostring \<times> gostring" where
  "agentOrg db i =
     (case find_agent db i of
        None \<Rightarrow> Err ErrAuthNotFound
      | Some a \<Rightarrow> Ok (ag_organization_id a, case ag_identity_member_id a of None \<Rightarrow> [] | Some m \<Rightarrow> m))"

text \<open>Members and project members: the row's id, its role and the evidence.\<close>

record member_record =
  mr_ID :: gostring
  mr_Role :: gostring
  mr_EvidenceRef :: gostring

definition orgMember :: "auth_db \<Rightarrow> gostring \<Rightarrow> subject_ref \<Rightarrow> member_record option" where
  "orgMember db orgID subject =
     map_option (\<lambda>m. \<lparr>mr_ID = mb_id m, mr_Role = mb_role m, mr_EvidenceRef = ''members:'' @ mb_id m\<rparr>)
       (if IsUser subject then
          find (\<lambda>m. mb_organization_id m = orgID \<and> mb_identity_id m = BareID subject \<and> mb_status m = ''joined'')
            (db_members db)
        else if IsAgent subject then
          find (\<lambda>m. mb_organization_id m = orgID \<and> mb_id m = BareID subject \<and> mb_status m = ''joined'') (db_members db)
        else None)"

definition projectMember :: "auth_db \<Rightarrow> gostring \<Rightarrow> subject_ref \<Rightarrow> member_record option" where
  "projectMember db projectID subject =
     (if \<not> (IsUser subject \<or> IsAgent subject) then None
      else map_option
        (\<lambda>m. \<lparr>mr_ID = pj_id m, mr_Role = pj_role m, mr_EvidenceRef = ''pm_project_members:'' @ pj_id m\<rparr>)
        (find (\<lambda>m. pj_project_id m = projectID \<and> pj_identity_id m = subject) (db_project_members db)))"

subsection \<open>Roles, their permissions and assignments (store.go)\<close>

definition role_visibility :: "role_row \<Rightarrow> gostring" where
  "role_visibility r = (if ro_Visibility r = [] then ''reusable'' else ro_Visibility r)"

definition scanRole :: "role_row option \<Rightarrow> auth_error + role_row" where
  "scanRole row = (case row of None \<Rightarrow> Err ErrRoleNotFound | Some r \<Rightarrow> Ok (r\<lparr>ro_Visibility := role_visibility r\<rparr>))"

definition getRole :: "auth_db \<Rightarrow> gostring \<Rightarrow> auth_error + role_row" where
  "getRole db i = scanRole (find (\<lambda>r. ro_ID r = TrimSpace i \<and> ro_RevokedAt r = None) (db_roles db))"

definition rolePermissions :: "auth_db \<Rightarrow> gostring \<Rightarrow> role_permission list" where
  "rolePermissions db roleID =
     sort_key (\<lambda>p. (rp_PermissionKey p, rp_ResourceKind p)) (filter (\<lambda>p. rp_RoleID p = roleID) (db_role_permissions db))"

definition clean_ids :: "gostring list \<Rightarrow> gostring list" where
  "clean_ids ids = dedup_acc [] (filter (\<lambda>i. i \<noteq> []) (map TrimSpace ids))"

definition activeAssignmentsForResourceIDs ::
  "auth_db \<Rightarrow> gostring \<Rightarrow> subject_ref \<Rightarrow> gostring \<Rightarrow> gostring list \<Rightarrow> role_assignment list" where
  "activeAssignmentsForResourceIDs db orgID subject kind ids =
     (case clean_ids ids of
        [] \<Rightarrow> []
      | first # rest \<Rightarrow>
          sort_key (\<lambda>a. (if as_ResourceID a = first then 0 else 1 :: nat, created_key (as_CreatedAt a), as_ID a))
            (filter (\<lambda>a. as_OrgID a = orgID \<and> as_SubjectRef a = subject \<and> as_ResourceKind a = TrimSpace kind \<and>
                         as_ResourceID a \<in> set (first # rest) \<and> as_RevokedAt a = None) (db_assignments db)))"

subsection \<open>The version of the decision tables\<close>

text \<open>
  Eight queries concatenate, row by row, the columns that a cached decision depends on.  The
  version is that list of columns: it names the assignments, roles, role permissions and team
  tables, and nothing else.
\<close>

record auth_version =
  av_assignments :: "(gostring \<times> gostring \<times> gostring \<times> gostring \<times> gostring \<times> gostring \<times> int \<times> time option \<times> time option) list"
  av_roles :: "(gostring \<times> gostring \<times> gostring \<times> gostring \<times> int \<times> time option) list"
  av_role_permissions :: "(gostring \<times> gostring \<times> gostring \<times> bool) list"
  av_team_members :: "(gostring \<times> gostring \<times> gostring \<times> time) list"
  av_team_projects :: "(gostring \<times> gostring \<times> time) list"
  av_role_mappings :: "(gostring \<times> gostring \<times> gostring \<times> time) list"
  av_role_mapping_versions :: "(gostring \<times> gostring \<times> int \<times> time) list"
  av_curators :: "(gostring \<times> gostring \<times> time) list"

definition effectiveVersion :: "auth_db \<Rightarrow> auth_version" where
  "effectiveVersion db =
     \<lparr>av_assignments = map (\<lambda>a. (as_ID a, as_OrgID a, as_SubjectRef a, as_RoleID a, as_ResourceKind a,
        as_ResourceID a, as_Version a, as_RevokedAt a, as_ExpiresAt a)) (sort_key as_ID (db_assignments db)),
      av_roles = map (\<lambda>r. (ro_ID r, ro_OrgID r, ro_Kind r, ro_Name r, ro_Version r, ro_RevokedAt r))
        (sort_key ro_ID (db_roles db)),
      av_role_permissions = map (\<lambda>p. (rp_RoleID p, rp_PermissionKey p, rp_ResourceKind p, rp_Delegatable p))
        (sort_key (\<lambda>p. (rp_RoleID p, rp_PermissionKey p, rp_ResourceKind p)) (db_role_permissions db)),
      av_team_members = map (\<lambda>m. (tm_team_id m, tm_member_ref m, tm_role m, tm_created_at m))
        (sort_key (\<lambda>m. (tm_team_id m, tm_member_ref m)) (db_team_members db)),
      av_team_projects = sort_key (\<lambda>(t, p, _). (t, p)) (db_team_projects db),
      av_role_mappings = sort_key (\<lambda>(t, r, m, _). (t, r, m)) (db_role_mappings db),
      av_role_mapping_versions = sort_key (\<lambda>(t, r, _). (t, r)) (db_role_mapping_versions db),
      av_curators = sort_key (\<lambda>(t, a, _). (t, a)) (db_curators db)\<rparr>"

subsection \<open>Facts\<close>

lemma set_rolePermissions:
  "set (rolePermissions db i) = {p \<in> set (db_role_permissions db). rp_RoleID p = i}"
  by (auto simp: rolePermissions_def)

lemma set_clean_ids: "set (clean_ids ids) = TrimSpace ` set ids - {[]}"
  by (auto simp: clean_ids_def set_dedup_acc)

lemma set_activeAssignments:
  "set (activeAssignmentsForResourceIDs db orgID subject kind ids) =
     {a \<in> set (db_assignments db). as_OrgID a = orgID \<and> as_SubjectRef a = subject \<and>
        as_ResourceKind a = TrimSpace kind \<and> as_ResourceID a \<in> TrimSpace ` set ids - {[]} \<and> as_RevokedAt a = None}"
  unfolding activeAssignmentsForResourceIDs_def set_clean_ids [symmetric]
  by (cases "clean_ids ids") auto

lemma orgMember_worker [simp]: "IsWorker s \<Longrightarrow> orgMember db o' s = None"
  using subject_kinds_exclusive [of s] by (auto simp: orgMember_def)

end
