(* ===== verification/Authz_Derive.thy ===== *)
theory Authz_Derive
  imports Authz_Store
begin

section \<open>Deriving the effective permissions of a request (authorization/service.go)\<close>

text \<open>
  The code threads a slice of effective permissions and a slice of denials through a chain of
  functions, most of which take an \<open>add\<close> callback.  Here both slices are one record, and a
  step is a function on it that may stop with an error and keeps what was added before.
\<close>

record derivation =
  dv_out :: "effective_permission list"
  dv_denied :: "gostring list"

type_synonym step_result = "derivation \<times> auth_error option"
type_synonym adder = "permission_key \<Rightarrow> decision_source \<Rightarrow> gostring \<Rightarrow> bool \<Rightarrow> derivation \<Rightarrow> derivation"

definition empty_derivation :: derivation where
  "empty_derivation = \<lparr>dv_out = [], dv_denied = []\<rparr>"

definition and_then :: "step_result \<Rightarrow> (derivation \<Rightarrow> step_result) \<Rightarrow> step_result" where
  "and_then r f = (case r of (d, None) \<Rightarrow> f d | (d, Some e) \<Rightarrow> (d, Some e))"

definition deny :: "gostring \<Rightarrow> derivation \<Rightarrow> derivation" where
  "deny m d = d\<lparr>dv_denied := dv_denied d @ [m]\<rparr>"

subsection \<open>The add callback\<close>

definition addEffectivePermission :: "effective_permission \<Rightarrow> derivation \<Rightarrow> derivation" where
  "addEffectivePermission p d =
     (if ep_Key p = [] then d
      else if list_ex (\<lambda>q. ep_Key q = ep_Key p \<and> ep_Source q = ep_Source p \<and> ep_EvidenceRef q = ep_EvidenceRef p)
                (dv_out d) then d
      else d\<lparr>dv_out := dv_out d @ [p]\<rparr>)"

definition add :: adder where
  "add key source evidence delegatable =
     addEffectivePermission \<lparr>ep_Key = key, ep_Source = source, ep_EvidenceRef = evidence,
       ep_Delegatable = delegatable, ep_RoleID = [], ep_AssignmentID = [], ep_ExpiresAt = None\<rparr>"

definition add_all :: "adder \<Rightarrow> decision_source \<Rightarrow> gostring \<Rightarrow> (permission_key \<times> bool) list \<Rightarrow> derivation \<Rightarrow> derivation" where
  "add_all ad source evidence ps = fold (\<lambda>(k, b). ad k source evidence b) ps"

definition bearer_step :: "check_request \<Rightarrow> derivation \<Rightarrow> derivation" where
  "bearer_step req d =
     (if cr_BearerScope req = [] then d
      else case PermissionForBearerScope (cr_BearerScope req) of
        None \<Rightarrow> deny ''bearer scope has no permission mapping'' d
      | Some key \<Rightarrow>
          if key = ''*'' then add (cr_Permission req) SourceAdminTokenScope ''admin_tokens:*'' False d
          else add key SourceAdminTokenScope (''admin_tokens:'' @ cr_BearerScope req) False d)"

subsection \<open>Organization and team roles\<close>

definition org_role_grants :: "gostring \<Rightarrow> (permission_key \<times> bool) list" where
  "org_role_grants role =
     (let owner = (role = ''owner'') in
      [(''org.read'', owner), (''org.member.list'', owner), (''org.work_items.read'', owner),
       (''team.create'', owner), (''template.read'', owner), (''template.write'', owner),
       (''coderepo.workspace.read'', owner), (''ai_runtime.catalog.read'', owner),
       (''ai_runtime.catalog.export'', owner)] @
      (if role = ''admin'' \<or> owner then
        [(''org.member.create.human'', True), (''org.member.create.agent'', True),
         (''org.invitation.manage'', True), (''org.analytics.read'', owner),
         (''coderepo.workspace.manage'', owner), (''ai_runtime.catalog.manage'', owner)] else []) @
      (if owner then
        [(''org.settings.manage'', True), (''org.lifecycle.manage'', True),
         (''org.member.role.manage'', True), (''org.member.disable'', True)] else []))"

definition addOrgRole :: "gostring \<Rightarrow> gostring \<Rightarrow> adder \<Rightarrow> derivation \<Rightarrow> derivation" where
  "addOrgRole role evidence ad = add_all ad SourceOrgRole evidence (org_role_grants role)"

definition team_human_grants :: "gostring \<Rightarrow> (permission_key \<times> bool) list" where
  "team_human_grants role =
     (let owner = (role = ''owner'') in
      [(''team.read'', owner), (''team.write'', owner), (''team.member.manage'', owner),
       (''team.project.link.manage'', owner), (''team.runtime_config.manage'', owner),
       (''team.memory.read'', owner)] @
      (if role = ''admin'' \<or> owner then
        [(''team.memory.propose'', owner), (''team.memory.review'', owner)] else []))"

definition addTeamHumanRole :: "gostring \<Rightarrow> gostring \<Rightarrow> adder \<Rightarrow> derivation \<Rightarrow> derivation" where
  "addTeamHumanRole role evidence ad = add_all ad SourceOrgRole evidence (team_human_grants role)"

subsection \<open>Projects and their children\<close>

definition project_grants :: "gostring \<Rightarrow> (permission_key \<times> bool) list" where
  "project_grants role =
     (let owner = (role = ''owner'') in
      [(''project.read'', owner), (''project.write'', owner), (''project.member.add'', owner),
       (''project.repo_ref.manage'', owner)] @
      (if owner then [(''project.member.remove'', True), (''project.stage.manage'', True)] else []))"

definition addProjectEffective ::
  "auth_db \<Rightarrow> subject_ref \<Rightarrow> gostring \<Rightarrow> adder \<Rightarrow> derivation \<Rightarrow> step_result" where
  "addProjectEffective db subject projectID ad d =
     (case projectMember db projectID subject of
        None \<Rightarrow> (deny ''subject is not a project member'' d, None)
      | Some pm \<Rightarrow> (add_all ad SourceProjectMember (mr_EvidenceRef pm) (project_grants (mr_Role pm)) d, None))"

text \<open>The callback of a child of a project: only read and write pass, under the child's own keys.\<close>

definition child_adder :: "permission_key \<Rightarrow> permission_key \<Rightarrow> adder \<Rightarrow> adder" where
  "child_adder rd wr ad key source evidence delegatable d =
     (if key = ''project.read'' then ad rd source evidence delegatable d
      else if key = ''project.write'' then ad wr source evidence delegatable d
      else d)"

definition task_self_steps :: "task_row \<Rightarrow> gostring \<Rightarrow> subject_ref \<Rightarrow> adder \<Rightarrow> derivation \<Rightarrow> derivation" where
  "task_self_steps t taskID subject ad d0 =
     (let d1 = (if (case tk_assignee t of None \<Rightarrow> [] | Some a \<Rightarrow> a) = subject
                then add_all ad SourceProjectMember (''pm_tasks:'' @ taskID @ ''/assignee'')
                       [(''task.read'', False), (''task.start.self'', False), (''task.heartbeat.self'', False),
                        (''task.complete.self'', False), (''task.block.self'', False)] d0
                else d0)
      in if tk_created_by t = subject
         then ad ''task.read'' SourceProjectMember (''pm_tasks:'' @ taskID @ ''/created_by'') False d1
         else d1)"

definition addTaskEffective ::
  "auth_db \<Rightarrow> subject_ref \<Rightarrow> gostring \<Rightarrow> adder \<Rightarrow> derivation \<Rightarrow> step_result" where
  "addTaskEffective db subject taskID ad d =
     (case find_task db taskID of
        None \<Rightarrow> (d, Some ErrAuthNotFound)
      | Some t \<Rightarrow>
          addProjectEffective db subject (tk_project_id t) (child_adder ''task.read'' ''task.write'' ad)
            (task_self_steps t taskID subject ad d))"

definition addIssueEffective ::
  "auth_db \<Rightarrow> subject_ref \<Rightarrow> gostring \<Rightarrow> adder \<Rightarrow> derivation \<Rightarrow> step_result" where
  "addIssueEffective db subject issueID ad d =
     (case parentProject db ''issue'' issueID of
        Err e \<Rightarrow> (d, Some e)
      | Ok projectID \<Rightarrow> addProjectEffective db subject projectID (child_adder ''issue.read'' ''issue.write'' ad) d)"

definition addPlanEffective ::
  "auth_db \<Rightarrow> subject_ref \<Rightarrow> gostring \<Rightarrow> adder \<Rightarrow> derivation \<Rightarrow> step_result" where
  "addPlanEffective db subject planID ad d =
     (case parentProject db ''plan'' planID of
        Err e \<Rightarrow> (d, Some e)
      | Ok projectID \<Rightarrow> addProjectEffective db subject projectID (child_adder ''plan.read'' ''plan.write'' ad) d)"

subsection \<open>Teams\<close>

definition team_agent_grants :: "(permission_key \<times> bool) list" where
  "team_agent_grants =
     [(''team.memory.read'', False), (''team.memory.propose'', False), (''team.git.read'', False),
      (''team.git.write'', False)]"

definition team_roles :: "auth_db \<Rightarrow> gostring \<Rightarrow> subject_ref \<Rightarrow> gostring list" where
  "team_roles db teamID subject =
     map tm_role (filter (\<lambda>m. tm_team_id m = teamID \<and> tm_member_ref m = subject) (db_team_members db))"

definition team_evidence :: "gostring \<Rightarrow> subject_ref \<Rightarrow> gostring \<Rightarrow> gostring" where
  "team_evidence teamID subject role = ''team_members:'' @ teamID @ ''/'' @ subject @ ''/'' @ role"

definition curator_step :: "auth_db \<Rightarrow> subject_ref \<Rightarrow> gostring \<Rightarrow> adder \<Rightarrow> derivation \<Rightarrow> derivation" where
  "curator_step db subject teamID ad d =
     (if list_ex (\<lambda>(t, a, _). t = teamID \<and> a = subject) (db_curators db)
      then ad ''team.memory.review'' SourceTeamMemoryPolicy
             (''team_memory_policy_curators:'' @ teamID @ ''/'' @ subject) False d
      else d)"

definition addTeamEffective ::
  "auth_db \<Rightarrow> subject_ref \<Rightarrow> gostring \<Rightarrow> adder \<Rightarrow> derivation \<Rightarrow> step_result" where
  "addTeamEffective db subject teamID ad d =
     (if \<not> IsAgent subject then (d, None)
      else case team_roles db teamID subject of
        [] \<Rightarrow> (deny ''agent is not a current team member'' d, None)
      | roles \<Rightarrow>
          (curator_step db subject teamID ad
            (fold (\<lambda>role. add_all ad SourceTeamMember (team_evidence teamID subject role) team_agent_grants) roles d), None))"

subsection \<open>Conversations\<close>

definition pmOwnerRef :: "gostring \<Rightarrow> (gostring \<times> gostring) option" where
  "pmOwnerRef ownerRef0 =
     (let ownerRef = TrimSpace ownerRef0 in
      case find (\<lambda>(p, _). HasPrefix ownerRef p)
             [(''pm://tasks/'', ''task''), (''pm://issues/'', ''issue''), (''pm://plans/'', ''plan'')] of
        None \<Rightarrow> None
      | Some (p, kind) \<Rightarrow>
          let i = TrimSpace (TrimPrefix ownerRef p) in if i = [] then None else Some (kind, i))"

text \<open>What reads or writes the owner reads or posts in the conversation it owns.\<close>

definition bridge_adder :: "gostring \<Rightarrow> adder \<Rightarrow> adder" where
  "bridge_adder convID ad key source evidence delegatable d =
     (if key \<in> set [''task.read'', ''issue.read'', ''plan.read''] then
        ad ''conversation.read'' source (evidence @ ''/conversation:'' @ convID) delegatable d
      else if key \<in> set [''task.write'', ''issue.write'', ''plan.write''] then
        ad ''conversation.post'' source (evidence @ ''/conversation:'' @ convID) delegatable d
      else d)"

definition addOwnedConversationEffective ::
  "auth_db \<Rightarrow> subject_ref \<Rightarrow> gostring \<Rightarrow> gostring \<Rightarrow> adder \<Rightarrow> derivation \<Rightarrow> step_result" where
  "addOwnedConversationEffective db subject convID ownerRef ad d =
     (case pmOwnerRef ownerRef of
        None \<Rightarrow> (d, None)
      | Some (kind, i) \<Rightarrow>
          let bridge = bridge_adder convID ad in
          if kind = ''task'' then addTaskEffective db subject i bridge d
          else if kind = ''issue'' then addIssueEffective db subject i bridge d
          else if kind = ''plan'' then addPlanEffective db subject i bridge d
          else (d, None))"

definition participant_step ::
  "(gostring \<times> gostring) list option \<Rightarrow> subject_ref \<Rightarrow> gostring \<Rightarrow> adder \<Rightarrow> derivation \<Rightarrow> step_result" where
  "participant_step participants subject convID ad d =
     (case participants of
        None \<Rightarrow> (d, Some ErrMalformedJSON)
      | Some ps \<Rightarrow>
          if (subject, []) \<in> set ps then
            (add_all ad SourceConversationParticipant (''conversations:'' @ convID @ ''/participants/'' @ subject)
              [(''conversation.read'', False), (''conversation.post'', False)] d, None)
          else (deny ''subject is not an active conversation participant'' d, None))"

definition addConversationEffective ::
  "auth_db \<Rightarrow> subject_ref \<Rightarrow> gostring \<Rightarrow> adder \<Rightarrow> derivation \<Rightarrow> step_result" where
  "addConversationEffective db subject convID ad d =
     (case find_conversation db convID of
        None \<Rightarrow> (d, Some ErrAuthNotFound)
      | Some c \<Rightarrow>
          and_then (addOwnedConversationEffective db subject convID
                      (case cv_owner_ref c of None \<Rightarrow> [] | Some r \<Rightarrow> r) ad d)
            (participant_step (cv_participants c) subject convID ad))"

subsection \<open>Files, agents, workers\<close>

text \<open>
  A file is reachable through a placement.  Whether the subject reaches the placement is a decision of the
  same service on another resource, so it is a parameter \<open>reach\<close> that reads and fills the cache
  \<open>'c\<close>; the service closes the knot below.
\<close>

definition file_grants :: "(permission_key \<times> bool) list" where
  "file_grants = [(''file.download'', False), (''file.attach'', False), (''file.upload'', False)]"

definition file_refs :: "auth_db \<Rightarrow> resource_scope \<Rightarrow> file_ref list" where
  "file_refs db r =
     (if rs_Refs r = [] \<and> rs_URI r \<noteq> [] then
        map (\<lambda>f. \<lparr>fr_Scope = fl_scope f, fr_ScopeID = fl_scope_id f\<rparr>)
          (filter (\<lambda>f. fl_file_uri f = rs_URI r \<and> \<not> fl_deleted f) (db_file_references db))
      else rs_Refs r)"

definition file_evidence :: "file_ref \<Rightarrow> gostring" where
  "file_evidence ref = ''file_references:'' @ fr_Scope ref @ ''/'' @ fr_ScopeID ref"

definition agent_ref_matches :: "subject_ref \<Rightarrow> resource_scope \<Rightarrow> file_ref \<Rightarrow> bool" where
  "agent_ref_matches subject r ref \<longleftrightarrow>
     fr_Scope ref = ''agent'' \<and>
     (fr_ScopeID ref = BareID subject \<or> fr_ScopeID ref = rs_OwnerRef r \<or> fr_ScopeID ref = rs_IdentityMemberID r)"

fun file_loop ::
  "('c \<Rightarrow> subject_ref \<Rightarrow> file_ref \<Rightarrow> bool \<times> 'c) \<Rightarrow> subject_ref \<Rightarrow> resource_scope \<Rightarrow> adder \<Rightarrow>
   file_ref list \<Rightarrow> derivation \<Rightarrow> 'c \<Rightarrow> step_result \<times> 'c" where
  "file_loop reach subject r ad [] d c = ((deny ''no live reachable file reference for subject'' d, None), c)"
| "file_loop reach subject r ad (ref # refs) d c =
     (if agent_ref_matches subject r ref
      then ((add_all ad SourceFileScope (file_evidence ref) file_grants d, None), c)
      else case reach c subject ref of (reachable, c') \<Rightarrow>
        if reachable then ((add_all ad SourceFileScope (file_evidence ref) file_grants d, None), c')
        else file_loop reach subject r ad refs d c')"

definition addFileEffective ::
  "('c \<Rightarrow> subject_ref \<Rightarrow> file_ref \<Rightarrow> bool \<times> 'c) \<Rightarrow> auth_db \<Rightarrow> subject_ref \<Rightarrow> resource_scope \<Rightarrow> adder \<Rightarrow>
   derivation \<Rightarrow> 'c \<Rightarrow> step_result \<times> 'c" where
  "addFileEffective reach db subject r ad d c = file_loop reach subject r ad (file_refs db r) d c"

definition addAgentEffective :: "auth_db \<Rightarrow> check_request \<Rightarrow> adder \<Rightarrow> derivation \<Rightarrow> step_result" where
  "addAgentEffective db req ad d0 =
     (let i = rs_ID (cr_Resource req); subject = cr_SubjectRef req in
      case find_agent db i of
        None \<Rightarrow> (d0, Some ErrAuthNotFound)
      | Some a \<Rightarrow>
          let d1 = (if IsWorker subject then
                      if BareID subject = ag_worker_id a
                      then ad ''agent.operate.self'' SourceAgentWorkerBinding (''agents:'' @ i @ ''/worker_id'') False d0
                      else deny ''worker token owner does not match agent worker binding'' d0
                    else d0);
              member = (case ag_identity_member_id a of None \<Rightarrow> [] | Some m \<Rightarrow> m)
          in (if IsAgent subject \<and> member \<noteq> [] \<and> BareID subject = member
              then add_all ad SourceAgentWorkerBinding (''agents:'' @ i @ ''/identity_member_id'')
                     [(''git.agent.read.self'', False), (''git.agent.write.self'', False)] d1
              else d1, None))"

definition addWorkerEffective :: "check_request \<Rightarrow> adder \<Rightarrow> derivation \<Rightarrow> step_result" where
  "addWorkerEffective req ad d =
     (if \<not> IsWorker (cr_SubjectRef req) then (d, None)
      else if rs_ID (cr_Resource req) = [] \<or> BareID (cr_SubjectRef req) \<noteq> rs_ID (cr_Resource req)
        then (deny ''worker token owner does not match worker resource'' d, None)
      else (add_all ad SourceWorkerOwner (''admin_tokens.owner:'' @ cr_SubjectRef req)
              [(''worker.heartbeat'', False), (''worker.capability.report'', False)] d, None))"

end
