(* ===== verification/Authz_Service.thy ===== *)
theory Authz_Service
  imports Authz_Derive
begin

section \<open>The decision service (authorization/service.go, readiness.go)\<close>

text \<open>
  The two derivations (from the membership tables, and from the tables of built-in roles), the
  grants that both share, the comparison of the two, the resolution of a resource, the cache
  and the decision.
\<close>

subsection \<open>Grants through a team's RAM roles\<close>

definition teamRAMScopeMatches :: "resource_scope \<Rightarrow> gostring \<Rightarrow> gostring \<Rightarrow> (gostring \<Rightarrow> bool) \<Rightarrow> bool" where
  "teamRAMScopeMatches r teamID permissionResourceKind linkedProject =
     (if rs_Kind r \<noteq> ''conversation'' \<and> permissionResourceKind \<noteq> rs_Kind r then False
      else if rs_Kind r = ''team'' then rs_ID r = teamID
      else if rs_Kind r = ''project'' then rs_ID r \<noteq> [] \<and> linkedProject (rs_ID r)
      else if rs_Kind r \<in> set [''task'', ''issue'', ''plan''] then rs_ProjectID r \<noteq> [] \<and> linkedProject (rs_ProjectID r)
      else if rs_Kind r = ''conversation'' then
        (case pmOwnerRef (rs_OwnerRef r) of
           None \<Rightarrow> False
         | Some (kind, _) \<Rightarrow>
             if rs_ProjectID r = [] \<or> \<not> linkedProject (rs_ProjectID r) then False
             else permissionResourceKind = ''project'' \<or> permissionResourceKind = kind)
      else False)"

record ram_row =
  rr_team :: gostring
  rr_team_role :: gostring
  rr_role :: gostring
  rr_key :: permission_key
  rr_kind :: gostring
  rr_delegatable :: bool
  rr_project :: gostring

definition linked_projects :: "auth_db \<Rightarrow> gostring \<Rightarrow> gostring list" where
  "linked_projects db teamID =
     (case map (\<lambda>(_, p, _). p) (filter (\<lambda>(t, _, _). t = teamID) (db_team_projects db)) of [] \<Rightarrow> [[]] | ps \<Rightarrow> ps)"

text \<open>The join of memberships, mappings, live roles, role permissions and linked projects.\<close>

definition ram_join :: "auth_db \<Rightarrow> subject_ref \<Rightarrow> gostring \<Rightarrow> ram_row list" where
  "ram_join db subject orgID =
     [\<lparr>rr_team = tm_team_id tm, rr_team_role = tm_role tm, rr_role = ro_ID ar, rr_key = rp_PermissionKey arp,
       rr_kind = rp_ResourceKind arp, rr_delegatable = rp_Delegatable arp, rr_project = p\<rparr>.
      tm \<leftarrow> db_team_members db, tm_member_ref tm = subject,
      (team, torg) \<leftarrow> db_teams db, team = tm_team_id tm \<and> torg = orgID,
      (mteam, mrole, ram, _) \<leftarrow> db_role_mappings db, mteam = tm_team_id tm \<and> mrole = tm_role tm,
      ar \<leftarrow> db_roles db, ro_ID ar = ram \<and> ro_RevokedAt ar = None \<and> ro_Kind ar \<in> set [''system'', ''custom''] \<and>
        (ro_OrgID ar = [] \<or> ro_OrgID ar = torg),
      arp \<leftarrow> db_role_permissions db, rp_RoleID arp = ro_ID ar,
      p \<leftarrow> linked_projects db (tm_team_id tm)]"

definition ram_rows :: "auth_db \<Rightarrow> subject_ref \<Rightarrow> gostring \<Rightarrow> ram_row list" where
  "ram_rows db subject orgID =
     sort_key (\<lambda>r. [rr_team r, rr_team_role r, rr_role r, rr_key r, rr_project r]) (ram_join db subject orgID)"

definition ram_permission :: "permission_key \<Rightarrow> ram_row \<Rightarrow> effective_permission" where
  "ram_permission key row =
     \<lparr>ep_Key = key, ep_Source = SourceTeamRoleRAM,
      ep_EvidenceRef = ''team_role_ram_role_mappings:'' @ rr_team row @ ''/'' @ rr_team_role row @ ''/'' @ rr_role row,
      ep_Delegatable = rr_delegatable row, ep_RoleID = rr_role row, ep_AssignmentID = [], ep_ExpiresAt = None\<rparr>"

definition ram_row_step :: "resource_scope \<Rightarrow> ram_row \<Rightarrow> derivation \<Rightarrow> derivation" where
  "ram_row_step r row d =
     (if \<not> teamRAMScopeMatches r (rr_team row) (rr_kind row) (\<lambda>projectID. rr_project row = projectID) then d
      else if rs_Kind r = ''conversation'' then
        (if rr_key row \<in> set [''project.read'', ''task.read'', ''issue.read'', ''plan.read'']
         then addEffectivePermission (ram_permission ''conversation.read'' row) d else d)
      else if \<not> PermissionDefinedForResource (rr_key row) (rs_Kind r) then d
      else addEffectivePermission (ram_permission (rr_key row) row) d)"

definition addTeamRAMEffective :: "auth_db \<Rightarrow> check_request \<Rightarrow> derivation \<Rightarrow> derivation" where
  "addTeamRAMEffective db req d =
     (if \<not> (IsUser (cr_SubjectRef req) \<or> IsAgent (cr_SubjectRef req)) \<or> rs_OrgID (cr_Resource req) = [] then d
      else fold (ram_row_step (cr_Resource req)) (ram_rows db (cr_SubjectRef req) (rs_OrgID (cr_Resource req))) d)"

subsection \<open>Grants through assignments\<close>

definition customAssignmentResourceIDs :: "resource_scope \<Rightarrow> gostring list" where
  "customAssignmentResourceIDs r =
     (case scope_Key r of (kind, i) \<Rightarrow>
        if kind = [] \<or> i = [] then []
        else [i] @
          (if kind \<in> set [''project'', ''team''] then (if i \<noteq> ''*'' then [''*''] else [])
           else if kind \<in> set [''task'', ''issue'', ''plan''] then
             (let w = ''project:'' @ rs_ProjectID r @ '':*'' in
              (if rs_ProjectID r \<noteq> [] \<and> i \<noteq> w then [w] else []) @ (if i \<noteq> ''*'' then [''*''] else []))
           else []))"

definition custom_permission :: "role_assignment \<Rightarrow> role_permission \<Rightarrow> effective_permission" where
  "custom_permission a p =
     \<lparr>ep_Key = rp_PermissionKey p, ep_Source = SourceCustomRole,
      ep_EvidenceRef = ''authorization_role_assignments:'' @ as_ID a, ep_Delegatable = rp_Delegatable p,
      ep_RoleID = as_RoleID a, ep_AssignmentID = as_ID a, ep_ExpiresAt = as_ExpiresAt a\<rparr>"

definition assignment_live :: "time \<Rightarrow> role_assignment \<Rightarrow> bool" where
  "assignment_live now a = (case as_ExpiresAt a of None \<Rightarrow> True | Some t \<Rightarrow> now < t)"

definition custom_permissions :: "auth_db \<Rightarrow> time \<Rightarrow> gostring \<Rightarrow> role_assignment list \<Rightarrow> effective_permission list" where
  "custom_permissions db now kind as =
     concat (map (\<lambda>a. map (custom_permission a) (filter (\<lambda>p. rp_ResourceKind p = kind) (rolePermissions db (as_RoleID a))))
       (filter (assignment_live now) as))"

definition addCustomEffective :: "auth_db \<Rightarrow> time \<Rightarrow> check_request \<Rightarrow> derivation \<Rightarrow> derivation" where
  "addCustomEffective db now req d =
     (let r = cr_Resource req; subject = cr_SubjectRef req in
      case scope_Key r of (kind, i) \<Rightarrow>
        if kind = [] \<or> i = [] \<or> rs_OrgID r = [] then d
        else if kind \<noteq> ''worker'' \<and> (IsUser subject \<or> IsAgent subject) \<and> orgMember db (rs_OrgID r) subject = None then d
        else d\<lparr>dv_out := dv_out d @ custom_permissions db now kind
                 (activeAssignmentsForResourceIDs db (rs_OrgID r) subject kind (customAssignmentResourceIDs r))\<rparr>)"

subsection \<open>The derivation from the membership tables\<close>

text \<open>The part that both derivations share: the organization gate.\<close>

definition org_scoped :: "resource_scope \<Rightarrow> bool" where
  "org_scoped r \<longleftrightarrow> rs_OrgID r \<noteq> [] \<and> rs_Kind r \<notin> set [''worker'', ''admin_token'', ''secret'', ''blob'']"

type_synonym 'c reach = "'c \<Rightarrow> subject_ref \<Rightarrow> file_ref \<Rightarrow> bool \<times> 'c"

definition legacy_kind_step :: "'c reach \<Rightarrow> auth_db \<Rightarrow> check_request \<Rightarrow> derivation \<Rightarrow> 'c \<Rightarrow> step_result \<times> 'c" where
  "legacy_kind_step reach db req d c =
     (let r = cr_Resource req; subject = cr_SubjectRef req; kind = rs_Kind r in
      if kind = ''file'' then addFileEffective reach db subject r add d c
      else (if kind = ''project'' then addProjectEffective db subject (rs_ID r) add d
        else if kind = ''task'' then addTaskEffective db subject (rs_ID r) add d
        else if kind = ''issue'' then addIssueEffective db subject (rs_ID r) add d
        else if kind = ''plan'' then addPlanEffective db subject (rs_ID r) add d
        else if kind = ''team'' then addTeamEffective db subject (rs_ID r) add d
        else if kind = ''conversation'' then addConversationEffective db subject (rs_ID r) add d
        else if kind = ''agent'' then addAgentEffective db req add d
        else if kind = ''worker'' then addWorkerEffective req add d
        else if kind = ''git'' then (add ''git.global.read'' SourceSystem ''system:global_git_read'' False d, None)
        else (d, None), c))"

definition addLegacyEffective :: "'c reach \<Rightarrow> auth_db \<Rightarrow> check_request \<Rightarrow> derivation \<Rightarrow> 'c \<Rightarrow> step_result \<times> 'c" where
  "addLegacyEffective reach db req d c =
     (let r = cr_Resource req; subject = cr_SubjectRef req in
      if rs_ID r = ''*'' \<and> cr_BearerScope req \<noteq> [] then ((d, None), c)
      else if \<not> org_scoped r then legacy_kind_step reach db req d c
      else case orgMember db (rs_OrgID r) subject of
        None \<Rightarrow>
          legacy_kind_step reach db req
            (if IsUser subject \<or> IsAgent subject then deny ''subject is not a joined org member'' d else d) c
      | Some m \<Rightarrow>
          (case orgDisabled db (rs_OrgID r) of
             Err e \<Rightarrow> ((d, Some e), c)
           | Ok disabled \<Rightarrow>
               if disabled \<and> mr_Role m \<noteq> ''owner''
                 then ((deny ''disabled org admits only owner members'' d, None), c)
               else legacy_kind_step reach db req
                 (if rs_Kind r = ''org'' then addOrgRole (mr_Role m) (mr_EvidenceRef m) add d
                  else if rs_Kind r = ''team'' then addTeamHumanRole (mr_Role m) (mr_EvidenceRef m) add d
                  else d) c))"

text \<open>What both derivations append after their membership part.\<close>

definition shared_steps :: "auth_db \<Rightarrow> time \<Rightarrow> check_request \<Rightarrow> step_result \<Rightarrow> step_result" where
  "shared_steps db now req res =
     and_then res (\<lambda>d. (addCustomEffective db now req (addTeamRAMEffective db req d), None))"

definition deriveLegacyEffective ::
  "'c reach \<Rightarrow> auth_db \<Rightarrow> time \<Rightarrow> check_request \<Rightarrow> 'c \<Rightarrow> step_result \<times> 'c" where
  "deriveLegacyEffective reach db now req c =
     (case addLegacyEffective reach db req (bearer_step req empty_derivation) c of
        (res, c') \<Rightarrow> (shared_steps db now req res, c'))"

subsection \<open>The derivation from the built-in roles\<close>

definition orgBuiltinRoleID :: "gostring \<Rightarrow> gostring" where
  "orgBuiltinRoleID role =
     (if role = ''owner'' then ''sys-org-owner'' else if role = ''admin'' then ''sys-org-admin'' else ''sys-org-member'')"

definition projectBuiltinRoleID :: "gostring \<Rightarrow> gostring" where
  "projectBuiltinRoleID role = (if role = ''owner'' then ''sys-project-owner'' else ''sys-project-member'')"

definition teamWebBuiltinRoleID :: "gostring \<Rightarrow> gostring" where
  "teamWebBuiltinRoleID role =
     (if role = ''owner'' then ''sys-team-web-owner'' else if role = ''admin'' then ''sys-team-web-admin''
      else ''sys-team-web-member'')"

text \<open>
  The code falls back to a table of its own when \<open>rolePermissions\<close> reports a missing role; it
  never does, since a role without rows reads as the empty list.
\<close>

definition expandBuiltinRole ::
  "auth_db \<Rightarrow> gostring \<Rightarrow> decision_source \<Rightarrow> gostring \<Rightarrow> gostring \<Rightarrow> adder \<Rightarrow> derivation \<Rightarrow> derivation" where
  "expandBuiltinRole db roleID source evidence resourceKind ad d =
     (if roleID = [] then d
      else add_all ad source evidence
        (map (\<lambda>p. (rp_PermissionKey p, rp_Delegatable p))
          (filter (\<lambda>p. rp_ResourceKind p = resourceKind) (rolePermissions db roleID))) d)"

definition addProjectEquivalent ::
  "auth_db \<Rightarrow> subject_ref \<Rightarrow> gostring \<Rightarrow> adder \<Rightarrow> derivation \<Rightarrow> step_result" where
  "addProjectEquivalent db subject projectID ad d =
     (case projectMember db projectID subject of
        None \<Rightarrow> (deny ''subject is not a project member'' d, None)
      | Some pm \<Rightarrow>
          (expandBuiltinRole db (projectBuiltinRoleID (mr_Role pm)) SourceProjectMember (mr_EvidenceRef pm)
             ''project'' ad d, None))"

definition addTaskEquivalent ::
  "auth_db \<Rightarrow> subject_ref \<Rightarrow> gostring \<Rightarrow> adder \<Rightarrow> derivation \<Rightarrow> step_result" where
  "addTaskEquivalent db subject taskID ad d =
     (case find_task db taskID of
        None \<Rightarrow> (d, Some ErrAuthNotFound)
      | Some t \<Rightarrow>
          addProjectEquivalent db subject (tk_project_id t) (child_adder ''task.read'' ''task.write'' ad)
            (task_self_steps t taskID subject ad d))"

definition addChildProjectEquivalent ::
  "auth_db \<Rightarrow> subject_ref \<Rightarrow> gostring \<Rightarrow> gostring \<Rightarrow> adder \<Rightarrow> derivation \<Rightarrow> step_result" where
  "addChildProjectEquivalent db subject kind i ad d =
     (case parentProject db kind i of
        Err e \<Rightarrow> (d, Some e)
      | Ok projectID \<Rightarrow>
          addProjectEquivalent db subject projectID
            (if kind = ''issue'' then child_adder ''issue.read'' ''issue.write'' ad
             else if kind = ''plan'' then child_adder ''plan.read'' ''plan.write'' ad
             else (\<lambda>_ _ _ _ d. d)) d)"

definition addTeamEquivalent ::
  "auth_db \<Rightarrow> subject_ref \<Rightarrow> gostring \<Rightarrow> adder \<Rightarrow> derivation \<Rightarrow> step_result" where
  "addTeamEquivalent db subject teamID ad d =
     (if \<not> IsAgent subject then (d, None)
      else case team_roles db teamID subject of
        [] \<Rightarrow> (deny ''agent is not a current team member'' d, None)
      | roles \<Rightarrow>
          (curator_step db subject teamID ad
            (fold (\<lambda>role. expandBuiltinRole db ''sys-team-member'' SourceTeamMember (team_evidence teamID subject role)
                     ''team'' ad) roles d), None))"

definition addOwnedConversationEquivalent ::
  "auth_db \<Rightarrow> subject_ref \<Rightarrow> gostring \<Rightarrow> gostring \<Rightarrow> adder \<Rightarrow> derivation \<Rightarrow> step_result" where
  "addOwnedConversationEquivalent db subject convID ownerRef ad d =
     (case pmOwnerRef ownerRef of
        None \<Rightarrow> (d, None)
      | Some (kind, i) \<Rightarrow>
          let bridge = bridge_adder convID ad in
          if kind = ''task'' then addTaskEquivalent db subject i bridge d
          else if kind = ''issue'' then addChildProjectEquivalent db subject ''issue'' i bridge d
          else if kind = ''plan'' then addChildProjectEquivalent db subject ''plan'' i bridge d
          else (d, None))"

definition addConversationEquivalent ::
  "auth_db \<Rightarrow> subject_ref \<Rightarrow> gostring \<Rightarrow> adder \<Rightarrow> derivation \<Rightarrow> step_result" where
  "addConversationEquivalent db subject convID ad d =
     (case find_conversation db convID of
        None \<Rightarrow> (d, Some ErrAuthNotFound)
      | Some c \<Rightarrow>
          and_then (addOwnedConversationEquivalent db subject convID
                      (case cv_owner_ref c of None \<Rightarrow> [] | Some r \<Rightarrow> r) ad d)
            (participant_step (cv_participants c) subject convID ad))"

definition equivalent_kind_step :: "'c reach \<Rightarrow> auth_db \<Rightarrow> check_request \<Rightarrow> derivation \<Rightarrow> 'c \<Rightarrow> step_result \<times> 'c" where
  "equivalent_kind_step reach db req d c =
     (let r = cr_Resource req; subject = cr_SubjectRef req; kind = rs_Kind r in
      if kind = ''file'' then addFileEffective reach db subject r add d c
      else (if kind = ''project'' then addProjectEquivalent db subject (rs_ID r) add d
        else if kind = ''task'' then addTaskEquivalent db subject (rs_ID r) add d
        else if kind = ''issue'' then addChildProjectEquivalent db subject ''issue'' (rs_ID r) add d
        else if kind = ''plan'' then addChildProjectEquivalent db subject ''plan'' (rs_ID r) add d
        else if kind = ''team'' then addTeamEquivalent db subject (rs_ID r) add d
        else if kind = ''conversation'' then addConversationEquivalent db subject (rs_ID r) add d
        else if kind = ''agent'' then addAgentEffective db req add d
        else if kind = ''worker'' then addWorkerEffective req add d
        else if kind = ''git'' then (add ''git.global.read'' SourceSystem ''system:global_git_read'' False d, None)
        else (d, None), c))"

definition addBuiltinEquivalentEffective ::
  "'c reach \<Rightarrow> auth_db \<Rightarrow> check_request \<Rightarrow> derivation \<Rightarrow> 'c \<Rightarrow> step_result \<times> 'c" where
  "addBuiltinEquivalentEffective reach db req d c =
     (let r = cr_Resource req; subject = cr_SubjectRef req in
      if rs_ID r = ''*'' \<and> cr_BearerScope req \<noteq> [] then ((d, None), c)
      else if \<not> org_scoped r then equivalent_kind_step reach db req d c
      else case orgMember db (rs_OrgID r) subject of
        None \<Rightarrow>
          equivalent_kind_step reach db req
            (if IsUser subject \<or> IsAgent subject then deny ''subject is not a joined org member'' d else d) c
      | Some m \<Rightarrow>
          (case orgDisabled db (rs_OrgID r) of
             Err e \<Rightarrow> ((d, Some e), c)
           | Ok disabled \<Rightarrow>
               if disabled \<and> mr_Role m \<noteq> ''owner''
                 then ((deny ''disabled org admits only owner members'' d, None), c)
               else if rs_Kind r = ''org''
                 then ((expandBuiltinRole db (orgBuiltinRoleID (mr_Role m)) SourceOrgRole (mr_EvidenceRef m)
                          (rs_Kind r) add d, None), c)
               else equivalent_kind_step reach db req
                 (if rs_Kind r = ''team''
                  then expandBuiltinRole db (teamWebBuiltinRoleID (mr_Role m)) SourceOrgRole (mr_EvidenceRef m)
                         (rs_Kind r) add d
                  else d) c))"

definition deriveEquivalentEffective ::
  "'c reach \<Rightarrow> auth_db \<Rightarrow> time \<Rightarrow> check_request \<Rightarrow> 'c \<Rightarrow> step_result \<times> 'c" where
  "deriveEquivalentEffective reach db now req c =
     (case addBuiltinEquivalentEffective reach db req (bearer_step req empty_derivation) c of
        (res, c') \<Rightarrow> (shared_steps db now req res, c'))"

end
