(* ===== verification/Authz_Resolve.thy ===== *)
theory Authz_Resolve
  imports Authz_Service
begin

section \<open>Comparison, cache and decision (authorization/service.go, readiness.go)\<close>

subsection \<open>The shadow comparison\<close>

record shadow_comparison =
  sc_Request :: check_request
  sc_LegacyAllowed :: bool
  sc_EquivalentAllowed :: bool
  sc_Mismatch :: bool
  sc_LegacyOnly :: "permission_key list"
  sc_EquivalentOnly :: "permission_key list"

definition permissionSet :: "effective_permission list \<Rightarrow> permission_key list" where
  "permissionSet ps = dedup_acc [] (map ep_Key ps)"

definition hasPermissionKey :: "permission_key list \<Rightarrow> permission_key \<Rightarrow> bool" where
  "hasPermissionKey ks key = (if key = ''*'' then ks \<noteq> [] else key \<in> set ks)"

definition compareEffective ::
  "check_request \<Rightarrow> effective_permission list \<Rightarrow> effective_permission list \<Rightarrow> shadow_comparison" where
  "compareEffective req legacy equivalent =
     (let ls = permissionSet legacy; es = permissionSet equivalent;
          la = hasPermissionKey ls (cr_Permission req); ea = hasPermissionKey es (cr_Permission req);
          lo = sort (filter (\<lambda>k. k \<notin> set es) ls); eo = sort (filter (\<lambda>k. k \<notin> set ls) es)
      in \<lparr>sc_Request = req, sc_LegacyAllowed = la, sc_EquivalentAllowed = ea,
          sc_Mismatch = (la \<noteq> ea \<or> lo \<noteq> [] \<or> eo \<noteq> []), sc_LegacyOnly = lo, sc_EquivalentOnly = eo\<rparr>)"

text \<open>
  The counters, the audit rows of the comparisons and the readiness row.  Each comparison adds
  to the counters and overwrites the row, which keeps its first start and all transports.
\<close>

record readiness_row =
  rd_Mode :: enforcement_mode
  rd_WindowStartedAt :: time
  rd_WindowEndedAt :: time
  rd_Transports :: "gostring list"
  rd_Checks :: int
  rd_Mismatches :: int
  rd_LegacyOnly :: int
  rd_EquivalentOnly :: int
  rd_Ready :: bool

record shadow_state =
  sh_checks :: int
  sh_mismatches :: int
  sh_legacyOnly :: int
  sh_equivalentOnly :: int
  sh_audit :: "(time \<times> shadow_comparison) list"
  sh_readiness :: "readiness_row option"

definition dedupeStrings :: "gostring list \<Rightarrow> gostring list" where
  "dedupeStrings xs = sort (dedup_acc [] (filter (\<lambda>v. v \<noteq> []) (map TrimSpace xs)))"

definition persistShadowReadiness :: "enforcement_mode \<Rightarrow> time \<Rightarrow> shadow_comparison \<Rightarrow> shadow_state \<Rightarrow> shadow_state" where
  "persistShadowReadiness mode now cmp sh =
     (let old = (case sh_readiness sh of None \<Rightarrow> [] | Some r \<Rightarrow> rd_Transports r);
          start = (case sh_readiness sh of None \<Rightarrow> now
                   | Some r \<Rightarrow> if is_zero_time (rd_WindowStartedAt r) then now else rd_WindowStartedAt r)
      in sh\<lparr>sh_readiness := Some
           \<lparr>rd_Mode = mode, rd_WindowStartedAt = start, rd_WindowEndedAt = now,
            rd_Transports = dedupeStrings (cr_Transport (sc_Request cmp) # old),
            rd_Checks = sh_checks sh, rd_Mismatches = sh_mismatches sh, rd_LegacyOnly = sh_legacyOnly sh,
            rd_EquivalentOnly = sh_equivalentOnly sh, rd_Ready = (0 < sh_checks sh \<and> sh_mismatches sh = 0)\<rparr>\<rparr>)"

definition recordShadowComparison :: "enforcement_mode \<Rightarrow> time \<Rightarrow> shadow_comparison \<Rightarrow> shadow_state \<Rightarrow> shadow_state" where
  "recordShadowComparison mode now cmp sh0 =
     (if mode = EnforcementLegacy then sh0
      else let sh1 = sh0\<lparr>sh_checks := sh_checks sh0 + 1\<rparr>;
               sh2 = (if sc_Mismatch cmp
                      then sh1\<lparr>sh_mismatches := sh_mismatches sh1 + 1,
                               sh_legacyOnly := sh_legacyOnly sh1 + int (length (sc_LegacyOnly cmp)),
                               sh_equivalentOnly := sh_equivalentOnly sh1 + int (length (sc_EquivalentOnly cmp))\<rparr>
                      else sh1)
           in persistShadowReadiness mode now cmp (sh2\<lparr>sh_audit := sh_audit sh2 @ [(now, cmp)]\<rparr>))"

subsection \<open>The resource of a request\<close>

definition projectWildcardResourceID :: "gostring \<Rightarrow> gostring option" where
  "projectWildcardResourceID i =
     (if \<not> HasPrefix i ''project:'' \<or> \<not> HasSuffix i '':*'' then None
      else let p = TrimSuffix (TrimPrefix i ''project:'') '':*'' in if p = [] then None else Some p)"

definition isWildcardResource :: "resource_scope \<Rightarrow> bool" where
  "isWildcardResource r \<longleftrightarrow> rs_ID r = ''*'' \<or> (HasPrefix (rs_ID r) ''project:'' \<and> HasSuffix (rs_ID r) '':*'')"

type_synonym resolve_result = "resource_scope \<times> gostring list \<times> auth_error option"

text \<open>The four lines that follow each lookup: the resource must not belong to another organization.\<close>

definition check_org :: "resource_scope \<Rightarrow> gostring \<Rightarrow> gostring \<Rightarrow> (resource_scope \<Rightarrow> resource_scope) \<Rightarrow> resolve_result" where
  "check_org r what orgID set_fields =
     (if rs_OrgID r \<noteq> [] \<and> rs_OrgID r \<noteq> orgID then (r, [what @ '' belongs to another org''], Some ErrAuthNotFound)
      else (set_fields (r\<lparr>rs_OrgID := orgID\<rparr>), [], None))"

definition resolve_wildcard :: "auth_db \<Rightarrow> resource_scope \<Rightarrow> resolve_result" where
  "resolve_wildcard db r =
     (if rs_OrgID r = [] then (r, [], None)
      else case ensureOrg db (rs_OrgID r) of
        Some e \<Rightarrow> (r, [''org not found''], Some e)
      | None \<Rightarrow> (r, [], None))"

definition trim_resource :: "resource_scope \<Rightarrow> resource_scope" where
  "trim_resource r = r\<lparr>rs_Kind := TrimSpace (rs_Kind r), rs_ID := TrimSpace (rs_ID r),
     rs_OrgID := TrimSpace (rs_OrgID r), rs_ProjectID := TrimSpace (rs_ProjectID r), rs_URI := TrimSpace (rs_URI r)\<rparr>"

definition resolve_child :: "auth_db \<Rightarrow> resource_scope \<Rightarrow> resolve_result" where
  "resolve_child db r =
     (let kind = rs_Kind r in
      if rs_ID r = ''*'' then resolve_wildcard db r
      else case projectWildcardResourceID (rs_ID r) of
        Some projectID \<Rightarrow>
          (case projectOrg db projectID of
             Err e \<Rightarrow> (r, [''parent project not found''], Some e)
           | Ok orgID \<Rightarrow> check_org r (kind @ '' wildcard'') orgID (\<lambda>r. r\<lparr>rs_ProjectID := projectID\<rparr>))
      | None \<Rightarrow>
          (case parentProject db kind (rs_ID r) of
             Err e \<Rightarrow> (r, [kind @ '' not found''], Some e)
           | Ok projectID \<Rightarrow>
               (case projectOrg db projectID of
                  Err e \<Rightarrow> (r, [''parent project not found''], Some e)
                | Ok orgID \<Rightarrow> check_org r kind orgID (\<lambda>r. r\<lparr>rs_ProjectID := projectID\<rparr>))))"

definition resolve_conversation :: "auth_db \<Rightarrow> resource_scope \<Rightarrow> resolve_result" where
  "resolve_conversation db r =
     (case conversationScope db (rs_ID r) of
        Err e \<Rightarrow> (r, [''conversation not found''], Some e)
      | Ok (orgID, ownerRef) \<Rightarrow>
          check_org r ''conversation'' orgID (\<lambda>r. r\<lparr>rs_OwnerRef := ownerRef,
            rs_ProjectID := (case pmOwnerRef ownerRef of
                None \<Rightarrow> rs_ProjectID r
              | Some (kind, i) \<Rightarrow> (case parentProject db kind i of Err _ \<Rightarrow> rs_ProjectID r | Ok p \<Rightarrow> p))\<rparr>))"

definition resolve_org :: "auth_db \<Rightarrow> resource_scope \<Rightarrow> resolve_result" where
  "resolve_org db r0 =
     (let r = (if rs_ID r0 = [] then r0\<lparr>rs_ID := rs_OrgID r0\<rparr> else r0) in
      if rs_ID r = [] then (r, [''org id required''], Some ErrAuthInvalid)
      else case ensureOrg db (rs_ID r) of
        Some e \<Rightarrow> (r, [''org not found''], Some e)
      | None \<Rightarrow> (r\<lparr>rs_OrgID := rs_ID r\<rparr>, [], None))"

definition resolveResource :: "auth_db \<Rightarrow> resource_scope \<Rightarrow> resolve_result" where
  "resolveResource db r0 =
     (let r = trim_resource r0; kind = rs_Kind r in
      if kind = [] then (r, [''resource.kind required''], Some ErrAuthInvalid)
      else if kind = ''org'' then resolve_org db r
      else if kind = ''project'' then
        (if rs_ID r = ''*'' then resolve_wildcard db r
         else case projectOrg db (rs_ID r) of
           Err e \<Rightarrow> (r, [''project not found''], Some e)
         | Ok orgID \<Rightarrow> check_org r ''project'' orgID (\<lambda>r. r))
      else if kind \<in> set [''task'', ''issue'', ''plan''] then resolve_child db r
      else if kind = ''team'' then
        (if rs_ID r = ''*'' then resolve_wildcard db r
         else case teamOrg db (rs_ID r) of
           Err e \<Rightarrow> (r, [''team not found''], Some e)
         | Ok orgID \<Rightarrow> check_org r ''team'' orgID (\<lambda>r. r))
      else if kind = ''conversation'' then resolve_conversation db r
      else if kind = ''file'' then
        (let r = (if rs_URI r = [] then r\<lparr>rs_URI := rs_ID r\<rparr> else r) in
         if rs_URI r = [] \<and> rs_Refs r = [] then (r, [''file uri required''], Some ErrAuthInvalid) else (r, [], None))
      else if kind = ''agent'' then
        (case agentOrg db (rs_ID r) of
           Err e \<Rightarrow> (r, [''agent not found''], Some e)
         | Ok (orgID, memberID) \<Rightarrow> check_org r ''agent'' orgID (\<lambda>r. r\<lparr>rs_IdentityMemberID := memberID\<rparr>))
      else if kind \<in> set [''worker'', ''admin_token'', ''secret'', ''blob'', ''git''] then
        ((if rs_ID r = [] then r\<lparr>rs_ID := ''*''\<rparr> else r), [], None)
      else (r, [''unsupported resource kind''], Some ErrAuthInvalid))"

subsection \<open>The cache of effective permissions\<close>

definition effectiveCacheKey :: "check_request \<Rightarrow> gostring" where
  "effectiveCacheKey req =
     (let r = cr_Resource req in
      Join [cr_SubjectRef req, cr_Transport req, cr_BearerScope req, cr_Permission req, rs_Kind r, rs_ID r,
            rs_OrgID r, rs_ProjectID r, rs_URI r, rs_OwnerRef r, rs_IdentityMemberID r] [CHR 0x00])"

record cache_entry =
  ce_version :: auth_version
  ce_effective :: "effective_permission list"
  ce_denied :: "gostring list"
  ce_resolvedOrg :: gostring

record auth_state =
  au_cache :: "(gostring \<times> cache_entry) list"
  au_shadow :: shadow_state

definition empty_auth_state :: auth_state where
  "empty_auth_state = \<lparr>au_cache = [],
     au_shadow = \<lparr>sh_checks = 0, sh_mismatches = 0, sh_legacyOnly = 0, sh_equivalentOnly = 0, sh_audit = [],
                  sh_readiness = None\<rparr>\<rparr>"

definition getCachedEffective :: "gostring \<Rightarrow> auth_version \<Rightarrow> auth_state \<Rightarrow> cache_entry option" where
  "getCachedEffective key version st =
     (case map_of (au_cache st) key of
        None \<Rightarrow> None
      | Some entry \<Rightarrow> if ce_version entry \<noteq> version then None else Some entry)"

definition putCachedEffective :: "gostring \<Rightarrow> cache_entry \<Rightarrow> auth_state \<Rightarrow> auth_state" where
  "putCachedEffective key entry st = st\<lparr>au_cache := AList.update key entry (au_cache st)\<rparr>"

definition invalidateEffectiveCache :: "auth_state \<Rightarrow> auth_state" where
  "invalidateEffectiveCache st = st\<lparr>au_cache := []\<rparr>"

definition deriveEffectiveUncached ::
  "auth_state reach \<Rightarrow> enforcement_mode \<Rightarrow> auth_db \<Rightarrow> time \<Rightarrow> check_request \<Rightarrow> auth_state \<Rightarrow> step_result \<times> auth_state" where
  "deriveEffectiveUncached reach mode db now req st =
     (case deriveLegacyEffective reach db now req st of
        (legacy, st1) \<Rightarrow>
          if mode = EnforcementLegacy then (legacy, st1)
          else case deriveEquivalentEffective reach db now req st1 of
            (equivalent, st2) \<Rightarrow>
              (if mode = EnforcementEnforce then equivalent else legacy,
               st2\<lparr>au_shadow := recordShadowComparison mode now
                     (compareEffective req (dv_out (fst legacy)) (dv_out (fst equivalent))) (au_shadow st2)\<rparr>))"

definition deriveEffective ::
  "auth_state reach \<Rightarrow> enforcement_mode \<Rightarrow> auth_db \<Rightarrow> time \<Rightarrow> check_request \<Rightarrow> auth_state \<Rightarrow> step_result \<times> auth_state" where
  "deriveEffective reach mode db now req st =
     (let version = effectiveVersion db; key = effectiveCacheKey req in
      case getCachedEffective key version st of
        Some entry \<Rightarrow> ((\<lparr>dv_out = ce_effective entry, dv_denied = ce_denied entry\<rparr>, None), st)
      | None \<Rightarrow>
          (case deriveEffectiveUncached reach mode db now req st of
             ((d, None), st1) \<Rightarrow>
               ((d, None), putCachedEffective key \<lparr>ce_version = version, ce_effective = dv_out d,
                  ce_denied = dv_denied d, ce_resolvedOrg = rs_OrgID (cr_Resource req)\<rparr> st1)
           | ((d, Some e), st1) \<Rightarrow> ((d, Some e), st1)))"

subsection \<open>The decision\<close>

definition source_text :: "decision_source \<Rightarrow> gostring" where
  "source_text s = (case s of
       SourceNone \<Rightarrow> [] | SourceOrgRole \<Rightarrow> ''org_role'' | SourceProjectMember \<Rightarrow> ''project_member''
     | SourceTeamMember \<Rightarrow> ''team_member'' | SourceTeamMemoryPolicy \<Rightarrow> ''team_memory_policy''
     | SourceConversationParticipant \<Rightarrow> ''conversation_participant'' | SourceFileScope \<Rightarrow> ''file_scope''
     | SourceAdminTokenScope \<Rightarrow> ''admin_token_scope'' | SourceWorkerOwner \<Rightarrow> ''worker_owner''
     | SourceAgentWorkerBinding \<Rightarrow> ''agent_worker_binding'' | SourceSystem \<Rightarrow> ''system''
     | SourceCustomRole \<Rightarrow> ''custom_role'' | SourceTeamRoleRAM \<Rightarrow> ''team_role_ram'')"

definition ResolveEffective_with ::
  "auth_state reach \<Rightarrow> enforcement_mode \<Rightarrow> auth_db \<Rightarrow> time \<Rightarrow> check_request \<Rightarrow> auth_state \<Rightarrow>
   (explain_result \<times> auth_error option) \<times> auth_state" where
  "ResolveEffective_with reach mode db now req0 st =
     (let decision = \<lparr>ad_Allowed = False, ad_SubjectRef = cr_SubjectRef req0, ad_Permission = cr_Permission req0,
            ad_Resource = cr_Resource req0, ad_Source = SourceNone, ad_Reason = ''permission_denied'',
            ad_EvidenceRef = []\<rparr>;
          answer = (\<lambda>d effective denied org e. ((\<lparr>er_Decision = d, er_Effective = effective,
            er_DeniedBy = denied, er_ResolvedOrg = org\<rparr>, e)));
          req = req0\<lparr>cr_SubjectRef := TrimSpace (cr_SubjectRef req0)\<rparr>
      in case subject_Validate (cr_SubjectRef req) of
        Some e \<Rightarrow> (answer (decision\<lparr>ad_Reason := ''invalid_subject''\<rparr>) [] [error_text e] [] (Some e), st)
      | None \<Rightarrow>
        if cr_SubjectRef req = ''system'' then
          (answer (decision\<lparr>ad_Allowed := True, ad_Source := SourceSystem, ad_Reason := ''system actor'',
             ad_EvidenceRef := ''system''\<rparr>) [] [] [] None, st)
        else if blank (cr_Permission req) then
          (answer (decision\<lparr>ad_Reason := ''permission_required''\<rparr>) [] [''permission is required''] [] (Some ErrAuthInvalid), st)
        else case resolveResource db (cr_Resource req) of
          (resolved, denied, Some e) \<Rightarrow>
            (answer (decision\<lparr>ad_Resource := resolved, ad_Reason := ''resource_not_found''\<rparr>) [] denied
               (rs_OrgID resolved) (Some e), st)
        | (resolved, _, None) \<Rightarrow>
          let req = req\<lparr>cr_Resource := resolved\<rparr>; decision = decision\<lparr>ad_Resource := resolved\<rparr>;
              org = rs_OrgID resolved
          in if cr_Permission req \<noteq> ''*'' \<and> \<not> PermissionDefinedForResource (cr_Permission req) (rs_Kind resolved) then
               (answer (decision\<lparr>ad_Reason := ''permission_undefined''\<rparr>) []
                  [cr_Permission req @ '' is not defined for '' @ rs_Kind resolved] org (Some ErrPermissionUndefined), st)
             else case deriveEffective reach mode db now req st of
               ((d, Some e), st1) \<Rightarrow>
                 (answer (decision\<lparr>ad_Reason := ''derive_failed''\<rparr>) (dv_out d) (dv_denied d @ [error_text e]) org (Some e), st1)
             | ((d, None), st1) \<Rightarrow>
                 (case find (\<lambda>p. ep_Key p = cr_Permission req \<or> cr_Permission req = ''*'') (dv_out d) of
                    Some p \<Rightarrow>
                      (answer (decision\<lparr>ad_Allowed := True, ad_Source := ep_Source p,
                         ad_Reason := ''matched '' @ source_text (ep_Source p), ad_EvidenceRef := ep_EvidenceRef p\<rparr>)
                         (dv_out d) (dv_denied d) org None, st1)
                  | None \<Rightarrow> (answer decision (dv_out d) (dv_denied d) org None, st1)))"

text \<open>
  A placement of a file asks for a conversation, a project, a task or an issue, never for a file, so the inner
  decision does not ask again and its own \<open>reach\<close> is never called.
\<close>

definition reach_nothing :: "auth_state reach" where
  "reach_nothing st subject ref = (False, st)"

definition ref_permission :: "gostring \<Rightarrow> permission_key option" where
  "ref_permission scope =
     map_of [(''conversation'', ''conversation.read''), (''project'', ''project.read''), (''task'', ''task.read''),
             (''issue'', ''issue.read'')] scope"

definition fileRefReachable :: "enforcement_mode \<Rightarrow> auth_db \<Rightarrow> time \<Rightarrow> auth_state reach" where
  "fileRefReachable mode db now st subject ref =
     (if fr_Scope ref = ''uploader'' then (fr_ScopeID ref = subject, st)
      else case ref_permission (fr_Scope ref) of
        None \<Rightarrow> (False, st)
      | Some permission \<Rightarrow>
          (case ResolveEffective_with reach_nothing mode db now
             \<lparr>cr_SubjectRef = subject, cr_Transport = ''system'', cr_BearerScope = [], cr_Permission = permission,
              cr_Resource = empty_resource\<lparr>rs_Kind := fr_Scope ref, rs_ID := fr_ScopeID ref\<rparr>\<rparr> st of
             ((result, _), st') \<Rightarrow> (ad_Allowed (er_Decision result), st')))"

definition ResolveEffective ::
  "enforcement_mode \<Rightarrow> auth_db \<Rightarrow> time \<Rightarrow> check_request \<Rightarrow> auth_state \<Rightarrow>
   (explain_result \<times> auth_error option) \<times> auth_state" where
  "ResolveEffective mode db now = ResolveEffective_with (fileRefReachable mode db now) mode db now"

definition Check :: "enforcement_mode \<Rightarrow> auth_db \<Rightarrow> time \<Rightarrow> check_request \<Rightarrow> auth_state \<Rightarrow>
   (access_decision \<times> auth_error option) \<times> auth_state" where
  "Check mode db now req st =
     (case ResolveEffective mode db now req st of
        ((result, e), st') \<Rightarrow>
          ((er_Decision result,
            case e of Some e' \<Rightarrow> Some e' | None \<Rightarrow> if ad_Allowed (er_Decision result) then None else Some ErrDenied), st'))"

definition ListEffective :: "enforcement_mode \<Rightarrow> auth_db \<Rightarrow> time \<Rightarrow> subject_ref \<Rightarrow> resource_scope \<Rightarrow> auth_state \<Rightarrow>
   (effective_permission list \<times> auth_error option) \<times> auth_state" where
  "ListEffective mode db now subject resource st =
     (case resolveResource db resource of
        (resolved, _, Some e) \<Rightarrow> (([], Some e), st)
      | (resolved, _, None) \<Rightarrow>
          (case deriveEffective (fileRefReachable mode db now) mode db now
             \<lparr>cr_SubjectRef = subject, cr_Transport = ''web'', cr_BearerScope = [], cr_Permission = ''org.read'',
              cr_Resource = resolved\<rparr> st of
             ((d, Some e), st') \<Rightarrow> ((dv_out d, Some e), st')
           | ((d, None), st') \<Rightarrow> ((sort_key (\<lambda>p. (ep_Key p, ep_EvidenceRef p)) (dv_out d), None), st')))"

subsection \<open>Readiness of the role tables (readiness.go)\<close>

definition role_perm :: "gostring \<Rightarrow> permission_key \<Rightarrow> gostring \<Rightarrow> bool \<Rightarrow> role_permission" where
  "role_perm roleID key kind delegatable =
     \<lparr>rp_RoleID = roleID, rp_PermissionKey = key, rp_ResourceKind = kind, rp_Delegatable = delegatable\<rparr>"

definition builtinRolePermissionsFallback :: "gostring \<Rightarrow> role_permission list" where
  "builtinRolePermissionsFallback roleID =
     map (\<lambda>(key, kind, delegatable). role_perm roleID key kind delegatable)
      (if roleID = ''sys-org-owner'' then
        [(''org.read'', ''org'', True),
         (''org.settings.manage'', ''org'', True),
         (''org.lifecycle.manage'', ''org'', True),
         (''org.member.list'', ''org'', True),
         (''org.member.create.human'', ''org'', True),
         (''org.member.create.agent'', ''org'', True),
         (''org.member.role.manage'', ''org'', True),
         (''org.member.disable'', ''org'', True),
         (''org.invitation.manage'', ''org'', True),
         (''org.analytics.read'', ''org'', True),
         (''org.work_items.read'', ''org'', True),
         (''team.create'', ''org'', True),
         (''template.read'', ''org'', True),
         (''template.write'', ''org'', True),
         (''coderepo.workspace.read'', ''org'', True),
         (''coderepo.workspace.manage'', ''org'', True),
         (''ai_runtime.catalog.read'', ''org'', True),
         (''ai_runtime.catalog.export'', ''org'', True),
         (''ai_runtime.catalog.manage'', ''org'', True)]
       else if roleID = ''sys-org-admin'' then
        [(''org.read'', ''org'', False),
         (''org.member.list'', ''org'', False),
         (''org.member.create.human'', ''org'', True),
         (''org.member.create.agent'', ''org'', True),
         (''org.invitation.manage'', ''org'', True),
         (''org.analytics.read'', ''org'', False),
         (''org.work_items.read'', ''org'', False),
         (''team.create'', ''org'', False),
         (''template.read'', ''org'', False),
         (''template.write'', ''org'', False),
         (''coderepo.workspace.read'', ''org'', False),
         (''coderepo.workspace.manage'', ''org'', False),
         (''ai_runtime.catalog.read'', ''org'', False),
         (''ai_runtime.catalog.export'', ''org'', False),
         (''ai_runtime.catalog.manage'', ''org'', False)]
       else if roleID = ''sys-org-member'' then
        [(''org.read'', ''org'', False),
         (''org.member.list'', ''org'', False),
         (''org.work_items.read'', ''org'', False),
         (''team.create'', ''org'', False),
         (''template.read'', ''org'', False),
         (''template.write'', ''org'', False),
         (''coderepo.workspace.read'', ''org'', False),
         (''ai_runtime.catalog.read'', ''org'', False),
         (''ai_runtime.catalog.export'', ''org'', False)]
       else if roleID = ''sys-team-web-owner'' then
        [(''team.read'', ''team'', True),
         (''team.write'', ''team'', True),
         (''team.member.manage'', ''team'', True),
         (''team.project.link.manage'', ''team'', True),
         (''team.runtime_config.manage'', ''team'', True),
         (''team.memory.read'', ''team'', True),
         (''team.memory.propose'', ''team'', True),
         (''team.memory.review'', ''team'', True)]
       else if roleID = ''sys-team-web-admin'' then
        [(''team.read'', ''team'', False),
         (''team.write'', ''team'', False),
         (''team.member.manage'', ''team'', False),
         (''team.project.link.manage'', ''team'', False),
         (''team.runtime_config.manage'', ''team'', False),
         (''team.memory.read'', ''team'', False),
         (''team.memory.propose'', ''team'', False),
         (''team.memory.review'', ''team'', False)]
       else if roleID = ''sys-team-web-member'' then
        [(''team.read'', ''team'', False),
         (''team.write'', ''team'', False),
         (''team.member.manage'', ''team'', False),
         (''team.project.link.manage'', ''team'', False),
         (''team.runtime_config.manage'', ''team'', False),
         (''team.memory.read'', ''team'', False)]
       else [])"

definition readinessSystemRolePermissions :: "gostring \<Rightarrow> role_permission list" where
  "readinessSystemRolePermissions roleID =
     (if builtinRolePermissionsFallback roleID \<noteq> [] then builtinRolePermissionsFallback roleID
      else map (\<lambda>(key, kind). role_perm roleID key kind False)
        (if roleID = ''sys-project-owner'' then
           [(''project.read'', ''project''), (''project.write'', ''project''), (''project.member.add'', ''project''),
            (''project.member.remove'', ''project''), (''project.repo_ref.manage'', ''project''),
            (''project.stage.manage'', ''project'')]
         else if roleID = ''sys-project-member'' then
           [(''project.read'', ''project''), (''project.write'', ''project''), (''project.member.add'', ''project''),
            (''project.repo_ref.manage'', ''project'')]
         else if roleID = ''sys-admin-token'' then
           [(''admin_token.manage'', ''admin_token''), (''secret.resolve'', ''secret''), (''blob.put'', ''blob''),
            (''dispatch.pull'', ''worker''), (''task.internal.report'', ''task''), (''worker.enroll'', ''worker''),
            (''worker.heartbeat'', ''worker''), (''worker.capability.report'', ''worker'')]
         else []))"

definition system_roles :: "gostring list" where
  "system_roles = [''sys-org-owner'', ''sys-org-admin'', ''sys-org-member'', ''sys-project-owner'',
     ''sys-project-member'', ''sys-team-web-owner'', ''sys-team-web-admin'', ''sys-team-web-member'',
     ''sys-team-member'', ''sys-admin-token'']"

definition system_role_ready :: "auth_db \<Rightarrow> gostring \<Rightarrow> bool" where
  "system_role_ready db roleID =
     (case getRole db roleID of
        Err _ \<Rightarrow> False
      | Ok role \<Rightarrow>
          ro_Kind role = ''system'' \<and>
          list_all (\<lambda>w. list_ex (\<lambda>p. rp_PermissionKey p = rp_PermissionKey w \<and> rp_ResourceKind p = rp_ResourceKind w)
                          (rolePermissions db roleID)) (readinessSystemRolePermissions roleID))"

definition requireSystemRolesReady :: "auth_db \<Rightarrow> auth_error option" where
  "requireSystemRolesReady db =
     (if list_all (system_role_ready db) system_roles then None else Some ErrEnforceNotReady)"

text \<open>The request as the derivation sees it: its subject trimmed and its resource resolved.\<close>

definition as_asked :: "auth_db \<Rightarrow> check_request \<Rightarrow> check_request" where
  "as_asked db req = req\<lparr>cr_SubjectRef := TrimSpace (cr_SubjectRef req), cr_Resource := fst (resolveResource db (cr_Resource req))\<rparr>"

end
