(* ===== verification/Authz_Grants.thy ===== *)
theory Authz_Grants
  imports Authz_Resolve
begin

section \<open>What each step of a derivation grants\<close>

text \<open>
  A grant is a key with the source and the evidence it was given for, which is what the callback
  compares to avoid duplicates.  The interface \<open>grant_adder\<close> is what every step may rely on in a
  callback: it adds a fixed set of grants for each call and denies nothing.  The plain callback,
  the one of a child of a project and the one of a conversation with an owner satisfy it.
\<close>

type_synonym grant = "permission_key \<times> decision_source \<times> gostring"

definition grant_of :: "effective_permission \<Rightarrow> grant" where
  "grant_of p = (ep_Key p, ep_Source p, ep_EvidenceRef p)"

definition grants :: "derivation \<Rightarrow> grant set" where
  "grants d = grant_of ` set (dv_out d)"

definition named :: "grant \<Rightarrow> grant set" where
  "named g = (if fst g = [] then {} else {g})"

named_theorems grant_sets "the grants of each step"

lemma grants_empty [simp]: "grants empty_derivation = {}" "dv_denied empty_derivation = []"
  by (simp_all add: grants_def empty_derivation_def)

lemma deny_simps [simp]:
  "grants (deny m d) = grants d" "dv_out (deny m d) = dv_out d" "dv_denied (deny m d) = dv_denied d @ [m]"
  by (simp_all add: grants_def deny_def)

lemma addEffectivePermission_grants [simp]:
  "grants (addEffectivePermission p d) = grants d \<union> named (grant_of p)"
  "dv_denied (addEffectivePermission p d) = dv_denied d"
proof -
  show "dv_denied (addEffectivePermission p d) = dv_denied d"
    by (simp add: addEffectivePermission_def)
  consider "ep_Key p = []" | "ep_Key p \<noteq> []" "grant_of p \<in> grants d" | "ep_Key p \<noteq> []" "grant_of p \<notin> grants d" by blast
  then show "grants (addEffectivePermission p d) = grants d \<union> named (grant_of p)"
  proof cases
    case 2
    then have "list_ex (\<lambda>q. ep_Key q = ep_Key p \<and> ep_Source q = ep_Source p \<and> ep_EvidenceRef q = ep_EvidenceRef p) (dv_out d)"
      by (force simp: grants_def grant_of_def list_ex_iff)
    with 2 show ?thesis
      by (simp add: addEffectivePermission_def named_def grant_of_def insert_absorb)
  next
    case 3
    then have "\<not> list_ex (\<lambda>q. ep_Key q = ep_Key p \<and> ep_Source q = ep_Source p \<and> ep_EvidenceRef q = ep_EvidenceRef p) (dv_out d)"
      by (auto simp: grants_def grant_of_def list_ex_iff image_iff)
    with 3 show ?thesis
      by (simp add: addEffectivePermission_def named_def grants_def) (simp add: grant_of_def)
  qed (simp add: addEffectivePermission_def named_def grant_of_def)
qed

subsection \<open>The interface of a callback\<close>

definition keys_img :: "(grant \<Rightarrow> grant set) \<Rightarrow> decision_source \<Rightarrow> gostring \<Rightarrow> permission_key set \<Rightarrow> grant set" where
  "keys_img img s e ks = (\<Union>k \<in> ks. img (k, s, e))"

definition self_img :: "(grant \<Rightarrow> grant set) \<Rightarrow> task_row \<Rightarrow> gostring \<Rightarrow> subject_ref \<Rightarrow> grant set" where
  "self_img img t i u =
     (if (case tk_assignee t of None \<Rightarrow> [] | Some a \<Rightarrow> a) = u
      then keys_img img SourceProjectMember (''pm_tasks:'' @ i @ ''/assignee'')
             {''task.read'', ''task.start.self'', ''task.heartbeat.self'', ''task.complete.self'', ''task.block.self''}
      else {}) \<union>
     (if tk_created_by t = u then img (''task.read'', SourceProjectMember, ''pm_tasks:'' @ i @ ''/created_by'') else {})"

locale grant_adder =
  fixes ad :: adder and img :: "grant \<Rightarrow> grant set"
  assumes ad_grants: "grants (ad k s e b d) = grants d \<union> img (k, s, e)"
    and ad_denied: "dv_denied (ad k s e b d) = dv_denied d"
begin

lemma add_all_grants: "grants (add_all ad s e ps d) = grants d \<union> keys_img img s e (fst ` set ps)"
proof (induction ps arbitrary: d)
  case Nil
  show ?case by (simp add: add_all_def keys_img_def)
next
  case (Cons p ps)
  have "add_all ad s e (p # ps) d = add_all ad s e ps (ad (fst p) s e (snd p) d)"
    by (simp add: add_all_def split_beta)
  then show ?case by (auto simp: Cons.IH ad_grants keys_img_def)
qed

lemma add_all_denied: "dv_denied (add_all ad s e ps d) = dv_denied d"
  by (induction ps arbitrary: d) (simp_all add: add_all_def split_beta ad_denied)

lemma project_grants_set:
  "grants (fst (addProjectEffective db u p ad d)) =
     grants d \<union> (case projectMember db p u of None \<Rightarrow> {}
       | Some pm \<Rightarrow> keys_img img SourceProjectMember (mr_EvidenceRef pm) (fst ` set (project_grants (mr_Role pm))))"
  "snd (addProjectEffective db u p ad d) = None"
  by (simp_all add: addProjectEffective_def add_all_grants split: option.split)

lemma self_grants:
  "grants (task_self_steps t i u ad d) = grants d \<union> self_img img t i u"
  "dv_denied (task_self_steps t i u ad d) = dv_denied d"
  by (simp_all add: task_self_steps_def Let_def add_all_grants add_all_denied ad_grants ad_denied self_img_def ac_simps)

lemma curator_grants:
  "grants (curator_step db u t ad d) = grants d \<union>
     (if \<exists>x. (t, u, x) \<in> set (db_curators db)
      then img (''team.memory.review'', SourceTeamMemoryPolicy, ''team_memory_policy_curators:'' @ t @ ''/'' @ u) else {})"
  "dv_denied (curator_step db u t ad d) = dv_denied d"
  by (auto simp: curator_step_def list_ex_iff ad_grants ad_denied split_beta)

lemma fold_roles_grants:
  "grants (fold (\<lambda>role. add_all ad s (ev role) (ps role)) roles d) =
     grants d \<union> (\<Union>role \<in> set roles. keys_img img s (ev role) (fst ` set (ps role)))"
  by (induction roles arbitrary: d) (auto simp: add_all_grants)

lemma fold_roles_denied:
  "dv_denied (fold (\<lambda>role. add_all ad s (ev role) (ps role)) roles d) = dv_denied d"
  by (induction roles arbitrary: d) (simp_all add: add_all_denied)

end

text \<open>A callback that renames keys before it calls another one.\<close>

definition renamed :: "(permission_key \<Rightarrow> gostring \<Rightarrow> (permission_key \<times> gostring) option) \<Rightarrow> (grant \<Rightarrow> grant set) \<Rightarrow> grant \<Rightarrow> grant set" where
  "renamed ren img = (\<lambda>(k, s, e). case ren k e of None \<Rightarrow> {} | Some (k', e') \<Rightarrow> img (k', s, e'))"

lemma renamed_adder:
  assumes "grant_adder ad img"
    and "\<And>k s e b d. ad' k s e b d = (case ren k e of None \<Rightarrow> d | Some (k', e') \<Rightarrow> ad k' s e' b d)"
  shows "grant_adder ad' (renamed ren img)"
  by unfold_locales
    (auto simp: renamed_def assms(2) grant_adder.ad_grants [OF assms(1)] grant_adder.ad_denied [OF assms(1)] split: option.split)

definition child_ren :: "permission_key \<Rightarrow> permission_key \<Rightarrow> permission_key \<Rightarrow> gostring \<Rightarrow> (permission_key \<times> gostring) option" where
  "child_ren rd wr k e =
     (if k = ''project.read'' then Some (rd, e) else if k = ''project.write'' then Some (wr, e) else None)"

definition bridge_ren :: "gostring \<Rightarrow> permission_key \<Rightarrow> gostring \<Rightarrow> (permission_key \<times> gostring) option" where
  "bridge_ren c k e =
     (if k \<in> {''task.read'', ''issue.read'', ''plan.read''} then Some (''conversation.read'', e @ ''/conversation:'' @ c)
      else if k \<in> {''task.write'', ''issue.write'', ''plan.write''} then Some (''conversation.post'', e @ ''/conversation:'' @ c)
      else None)"

interpretation plain: grant_adder add named
  by unfold_locales (simp_all add: add_def grant_of_def)

lemma child_grant_adder: "grant_adder ad img \<Longrightarrow> grant_adder (child_adder rd wr ad) (renamed (child_ren rd wr) img)"
  by (rule renamed_adder, assumption) (simp add: child_adder_def child_ren_def)

interpretation child: grant_adder "child_adder rd wr add" "renamed (child_ren rd wr) named" for rd wr
  by (rule child_grant_adder) (rule plain.grant_adder_axioms)

interpretation bridge: grant_adder "bridge_adder c add" "renamed (bridge_ren c) named" for c
  by (rule renamed_adder [OF plain.grant_adder_axioms]) (simp add: bridge_adder_def bridge_ren_def)

interpretation owned: grant_adder "child_adder rd wr (bridge_adder c add)"
  "renamed (child_ren rd wr) (renamed (bridge_ren c) named)" for rd wr c
  by (rule child_grant_adder) (rule bridge.grant_adder_axioms)

end
