(* ===== verification/Authz_Equivalence.thy ===== *)
theory Authz_Equivalence
  imports Authz_Grants
begin

section \<open>The two derivations agree\<close>

text \<open>
  Enforce mode decides from the rows of the built-in roles instead of the code's own lists.  When
  the rows are those of the lists, the two derivations grant the same and deny for the same
  reasons, on every request and with every answer of the file placements.
\<close>

definition role_keys :: "auth_db \<Rightarrow> gostring \<Rightarrow> gostring \<Rightarrow> permission_key set" where
  "role_keys db roleID kind =
     rp_PermissionKey ` {p \<in> set (rolePermissions db roleID). rp_ResourceKind p = kind}"

definition builtin_seed :: "gostring \<Rightarrow> (permission_key \<times> gostring) list" where
  "builtin_seed roleID =
     (if roleID = ''sys-team-member'' then map (\<lambda>(k, _). (k, ''team'')) team_agent_grants
      else map (\<lambda>p. (rp_PermissionKey p, rp_ResourceKind p)) (readinessSystemRolePermissions roleID))"

definition roles_seeded :: "auth_db \<Rightarrow> bool" where
  "roles_seeded db \<longleftrightarrow>
     list_all (\<lambda>i. set (map (\<lambda>p. (rp_PermissionKey p, rp_ResourceKind p)) (rolePermissions db i)) = set (builtin_seed i))
       system_roles"

lemma role_keys_seeded:
  assumes "roles_seeded db" and "i \<in> set system_roles"
  shows "role_keys db i kind = fst ` set (filter (\<lambda>(k, q). q = kind) (builtin_seed i))"
proof -
  have *: "(\<lambda>p. (rp_PermissionKey p, rp_ResourceKind p)) ` set (rolePermissions db i) = set (builtin_seed i)"
    using assms by (simp add: roles_seeded_def list_all_iff)
  show ?thesis
    unfolding role_keys_def set_filter * [symmetric] by force
qed

lemma seeded_role:
  assumes "roles_seeded db" and "i \<in> set system_roles" and "fst ` set (filter (\<lambda>(k, q). q = kind) (builtin_seed i)) = K"
  shows "role_keys db i kind = K"
  using role_keys_seeded [OF assms(1,2)] assms(3) by simp

lemma seeded_org:
  assumes "roles_seeded db"
  shows "role_keys db (orgBuiltinRoleID role) ''org'' = fst ` set (org_role_grants role)"
proof -
  have "role_keys db ''sys-org-owner'' ''org'' = fst ` set (org_role_grants ''owner'')"
    by (rule seeded_role [OF assms]) code_simp+
  moreover have "role_keys db ''sys-org-admin'' ''org'' = fst ` set (org_role_grants ''admin'')"
    by (rule seeded_role [OF assms]) code_simp+
  moreover have "role_keys db ''sys-org-member'' ''org'' = fst ` set (org_role_grants ''member'')"
    by (rule seeded_role [OF assms]) code_simp+
  moreover have "org_role_grants role = org_role_grants ''member''" if "role \<noteq> ''owner''" "role \<noteq> ''admin''"
    using that by (simp add: org_role_grants_def)
  ultimately show ?thesis by (simp add: orgBuiltinRoleID_def)
qed

lemma seeded_team:
  assumes "roles_seeded db"
  shows "role_keys db (teamWebBuiltinRoleID role) ''team'' = fst ` set (team_human_grants role)"
proof -
  have "role_keys db ''sys-team-web-owner'' ''team'' = fst ` set (team_human_grants ''owner'')"
    by (rule seeded_role [OF assms]) code_simp+
  moreover have "role_keys db ''sys-team-web-admin'' ''team'' = fst ` set (team_human_grants ''admin'')"
    by (rule seeded_role [OF assms]) code_simp+
  moreover have "role_keys db ''sys-team-web-member'' ''team'' = fst ` set (team_human_grants ''member'')"
    by (rule seeded_role [OF assms]) code_simp+
  moreover have "team_human_grants role = team_human_grants ''member''" if "role \<noteq> ''owner''" "role \<noteq> ''admin''"
    using that by (simp add: team_human_grants_def)
  ultimately show ?thesis by (simp add: teamWebBuiltinRoleID_def)
qed

lemma seeded_project:
  assumes "roles_seeded db"
  shows "role_keys db (projectBuiltinRoleID role) ''project'' = fst ` set (project_grants role)"
proof -
  have "role_keys db ''sys-project-owner'' ''project'' = fst ` set (project_grants ''owner'')"
    by (rule seeded_role [OF assms]) code_simp+
  moreover have "role_keys db ''sys-project-member'' ''project'' = fst ` set (project_grants ''member'')"
    by (rule seeded_role [OF assms]) code_simp+
  moreover have "project_grants role = project_grants ''member''" if "role \<noteq> ''owner''"
    using that by (simp add: project_grants_def)
  ultimately show ?thesis by (simp add: projectBuiltinRoleID_def)
qed

lemma seeded_team_member:
  assumes "roles_seeded db"
  shows "role_keys db ''sys-team-member'' ''team'' = fst ` set team_agent_grants"
  by (rule seeded_role [OF assms]) code_simp+

lemmas seeded_keys = seeded_org seeded_team seeded_project seeded_team_member

subsection \<open>Steps from similar derivations\<close>

definition similar :: "derivation \<Rightarrow> derivation \<Rightarrow> bool" where
  "similar d d' \<longleftrightarrow> grants d = grants d' \<and> dv_denied d = dv_denied d'"

definition same_result :: "step_result \<Rightarrow> step_result \<Rightarrow> bool" where
  "same_result r r' \<longleftrightarrow> similar (fst r) (fst r') \<and> snd r = snd r'"

lemma same_result_pair [simp]: "same_result (d, e) (d', e') \<longleftrightarrow> similar d d' \<and> e = e'"
  by (simp add: same_result_def)

lemma similar_refl [simp]: "similar d d"
  by (simp add: similar_def)

lemma similar_deny [intro]: "similar d d' \<Longrightarrow> similar (deny m d) (deny m d')"
  by (simp add: similar_def)

lemma same_and_then:
  assumes "same_result r r'" and "\<And>d d'. similar d d' \<Longrightarrow> same_result (f d) (f' d')"
  shows "same_result (and_then r f) (and_then r' f')"
  using assms by (cases r; cases r'; cases "snd r") (auto simp: and_then_def)

context grant_adder
begin

lemma similar_ad [intro]: "similar d d' \<Longrightarrow> similar (ad k s e b d) (ad k s e b' d')"
  by (simp add: similar_def ad_grants ad_denied)

lemma similar_add_all:
  "similar d d' \<Longrightarrow> fst ` set ps = fst ` set ps' \<Longrightarrow> similar (add_all ad s e ps d) (add_all ad s e ps' d')"
  by (simp add: similar_def add_all_grants add_all_denied)

lemma similar_expand:
  assumes "similar d d'" and "i \<noteq> []" and "role_keys db i kind = fst ` set ps"
  shows "similar (add_all ad s e ps d) (expandBuiltinRole db i s e kind ad d')"
proof -
  have "fst ` set (map (\<lambda>p. (rp_PermissionKey p, rp_Delegatable p))
      (filter (\<lambda>p. rp_ResourceKind p = kind) (rolePermissions db i))) = role_keys db i kind"
    by (force simp: role_keys_def)
  with assms similar_add_all [OF assms(1)] show ?thesis
    by (simp only: expandBuiltinRole_def if_False)
qed

lemma same_project:
  assumes "roles_seeded db" and "similar d d'"
  shows "same_result (addProjectEffective db u p ad d) (addProjectEquivalent db u p ad d')"
proof (cases "projectMember db p u")
  case None
  with assms(2) show ?thesis by (auto simp: addProjectEffective_def addProjectEquivalent_def)
next
  case (Some pm)
  have "projectBuiltinRoleID (mr_Role pm) \<noteq> []" by (simp add: projectBuiltinRoleID_def)
  from similar_expand [OF assms(2) this seeded_project [OF assms(1)]] Some show ?thesis
    by (simp add: addProjectEffective_def addProjectEquivalent_def)
qed

lemma similar_self: "similar d d' \<Longrightarrow> similar (task_self_steps t i u ad d) (task_self_steps t i u ad d')"
  by (simp add: similar_def self_grants)

lemma similar_curator: "similar d d' \<Longrightarrow> similar (curator_step db u t ad d) (curator_step db u t ad d')"
  by (simp add: similar_def curator_grants)

lemma similar_team_roles:
  assumes "roles_seeded db" and "similar d d'"
  shows "similar (fold (\<lambda>role. add_all ad s (ev role) team_agent_grants) roles d)
    (fold (\<lambda>role. expandBuiltinRole db ''sys-team-member'' s (ev role) ''team'' ad) roles d')"
  using assms(2)
  by (induction roles arbitrary: d d') (simp_all add: similar_expand seeded_team_member [OF assms(1)])

lemma same_team:
  assumes "roles_seeded db" and "similar d d'"
  shows "same_result (addTeamEffective db u t ad d) (addTeamEquivalent db u t ad d')"
proof (cases "team_roles db t u")
  case Nil
  with assms show ?thesis by (auto simp: addTeamEffective_def addTeamEquivalent_def)
next
  case (Cons role roles)
  show ?thesis
    unfolding addTeamEffective_def addTeamEquivalent_def Cons
    using similar_curator [OF similar_team_roles [OF assms, of SourceTeamMember "team_evidence t u" "role # roles"], of db u t]
      assms(2) by simp
qed

lemma same_participant:
  "similar d d' \<Longrightarrow> same_result (participant_step ps u c ad d) (participant_step ps u c ad d')"
  by (auto simp: participant_step_def intro!: similar_add_all split: option.split)

end

context grant_adder
begin

lemma same_task:
  assumes "roles_seeded db" and "similar d d'"
  shows "same_result (addTaskEffective db u i ad d) (addTaskEquivalent db u i ad d')"
  using grant_adder.same_project [OF child_grant_adder [OF grant_adder_axioms] assms(1) similar_self [OF assms(2)]] assms(2)
  by (auto simp: addTaskEffective_def addTaskEquivalent_def split: option.split)

lemma same_issue:
  assumes "roles_seeded db" and "similar d d'"
  shows "same_result (addIssueEffective db u i ad d) (addChildProjectEquivalent db u ''issue'' i ad d')"
  using grant_adder.same_project [OF child_grant_adder [OF grant_adder_axioms] assms] assms(2)
  by (auto simp: addIssueEffective_def addChildProjectEquivalent_def split: sum.split)

lemma same_plan:
  assumes "roles_seeded db" and "similar d d'"
  shows "same_result (addPlanEffective db u i ad d) (addChildProjectEquivalent db u ''plan'' i ad d')"
  using grant_adder.same_project [OF child_grant_adder [OF grant_adder_axioms] assms] assms(2)
  by (auto simp: addPlanEffective_def addChildProjectEquivalent_def split: sum.split)

end

lemma same_owned_conversation:
  assumes "roles_seeded db" and "similar d d'"
  shows "same_result (addOwnedConversationEffective db u c o' add d) (addOwnedConversationEquivalent db u c o' add d')"
  using bridge.same_task [OF assms] bridge.same_issue [OF assms] bridge.same_plan [OF assms] assms(2)
  by (simp add: addOwnedConversationEffective_def addOwnedConversationEquivalent_def Let_def split: option.split)

lemma same_conversation:
  assumes "roles_seeded db" and "similar d d'"
  shows "same_result (addConversationEffective db u c add d) (addConversationEquivalent db u c add d')"
  using assms(2)
  by (auto simp: addConversationEffective_def addConversationEquivalent_def plain.same_participant
      intro!: same_and_then same_owned_conversation [OF assms] split: option.split)

definition agree :: "step_result \<times> 'c \<Rightarrow> step_result \<times> 'c \<Rightarrow> bool" where
  "agree x y \<longleftrightarrow> same_result (fst x) (fst y) \<and> snd x = snd y"

lemma agree_pair [simp]: "agree (r, c) (r', c') \<longleftrightarrow> same_result r r' \<and> c = c'"
  by (simp add: agree_def)

lemma agree_file_loop:
  "similar d d' \<Longrightarrow> agree (file_loop reach u r add refs d c) (file_loop reach u r add refs d' c)"
  by (induction refs arbitrary: c) (auto simp: plain.similar_add_all split: prod.splits)

lemma same_agent:
  "similar d d' \<Longrightarrow> same_result (addAgentEffective db req add d) (addAgentEffective db req add d')"
  by (auto simp: addAgentEffective_def Let_def split: option.split intro!: plain.similar_add_all)

lemma same_worker:
  "similar d d' \<Longrightarrow> same_result (addWorkerEffective req add d) (addWorkerEffective req add d')"
  by (auto simp: addWorkerEffective_def intro!: plain.similar_add_all)

lemma agree_kind_step:
  assumes "roles_seeded db" and "similar d d'"
  shows "agree (legacy_kind_step reach db req d c) (equivalent_kind_step reach db req d' c)"
proof (cases "rs_Kind (cr_Resource req) = ''file''")
  case True
  with agree_file_loop [OF assms(2)] show ?thesis
    by (simp add: legacy_kind_step_def equivalent_kind_step_def addFileEffective_def Let_def)
next
  case False
  then show ?thesis
    unfolding legacy_kind_step_def equivalent_kind_step_def Let_def
    using plain.same_project [OF assms] plain.same_task [OF assms] plain.same_issue [OF assms]
      plain.same_plan [OF assms] plain.same_team [OF assms] same_conversation [OF assms] same_agent [OF assms(2)]
      same_worker [OF assms(2)] plain.similar_ad [OF assms(2)] assms(2)
    by simp
qed

lemma ram_row_grants:
  "grants (ram_row_step r row d) = grants d \<union> grants (ram_row_step r row empty_derivation)"
  "dv_denied (ram_row_step r row d) = dv_denied d"
  by (auto simp: ram_row_step_def)

lemma fold_ram_grants:
  "grants (fold (ram_row_step r) rows d) = grants d \<union> (\<Union>row \<in> set rows. grants (ram_row_step r row empty_derivation))"
  "dv_denied (fold (ram_row_step r) rows d) = dv_denied d"
proof (induction rows arbitrary: d)
  case (Cons row rows)
  { case 1 show ?case by (simp add: Cons.IH(1)) (simp add: ram_row_grants(1) [of r row d] Un_ac) }
  { case 2 show ?case by (simp add: Cons.IH(2) ram_row_grants(2)) }
qed simp_all

lemma similar_team_RAM:
  assumes "similar d d'"
  shows "similar (addTeamRAMEffective db req d) (addTeamRAMEffective db req d')"
  using assms by (simp add: addTeamRAMEffective_def similar_def fold_ram_grants)

lemma similar_custom:
  assumes "similar d d'"
  shows "similar (addCustomEffective db now req d) (addCustomEffective db now req d')"
  using assms by (auto simp: addCustomEffective_def Let_def similar_def grants_def split: prod.split)

lemma same_shared: "same_result r r' \<Longrightarrow> same_result (shared_steps db now req r) (shared_steps db now req r')"
  unfolding shared_steps_def by (erule same_and_then) (simp add: similar_custom similar_team_RAM)

lemma agree_membership_part:
  assumes "roles_seeded db" and "similar d d'"
  shows "agree (addLegacyEffective reach db req d c) (addBuiltinEquivalentEffective reach db req d' c)"
proof -
  let ?r = "cr_Resource req" and ?u = "cr_SubjectRef req"
  note defs = addLegacyEffective_def addBuiltinEquivalentEffective_def Let_def
  note step = agree_kind_step [OF assms(1), where reach = reach and req = req and c = c]
  consider (bearer) "rs_ID ?r = ''*'' \<and> cr_BearerScope req \<noteq> []"
    | (unscoped) "\<not> (rs_ID ?r = ''*'' \<and> cr_BearerScope req \<noteq> [])" "\<not> org_scoped ?r"
    | (stranger) "\<not> (rs_ID ?r = ''*'' \<and> cr_BearerScope req \<noteq> [])" "org_scoped ?r" "orgMember db (rs_OrgID ?r) ?u = None"
    | (member) m where "\<not> (rs_ID ?r = ''*'' \<and> cr_BearerScope req \<noteq> [])" "org_scoped ?r"
        "orgMember db (rs_OrgID ?r) ?u = Some m"
    by blast
  then show ?thesis
  proof cases
    case bearer
    with assms(2) show ?thesis by (simp add: defs)
  next
    case unscoped
    then show ?thesis unfolding defs by (simp only: if_True if_False not_False_eq_True step [OF assms(2)])
  next
    case stranger
    have "similar (if IsUser ?u \<or> IsAgent ?u then deny m d else d) (if IsUser ?u \<or> IsAgent ?u then deny m d' else d')" for m
      using assms(2) by auto
    from step [OF this] stranger show ?thesis
      unfolding defs by (simp only: if_True if_False not_True_eq_False option.case)
  next
    case (member m)
    have ids: "orgBuiltinRoleID (mr_Role m) \<noteq> []" "teamWebBuiltinRoleID (mr_Role m) \<noteq> []"
      by (simp_all add: orgBuiltinRoleID_def teamWebBuiltinRoleID_def)
    have org: "similar (addOrgRole (mr_Role m) e add d) (expandBuiltinRole db (orgBuiltinRoleID (mr_Role m)) SourceOrgRole e ''org'' add d')" for e
      unfolding addOrgRole_def by (rule plain.similar_expand [OF assms(2) ids(1) seeded_org [OF assms(1)]])
    have team: "similar (addTeamHumanRole (mr_Role m) e add d)
        (expandBuiltinRole db (teamWebBuiltinRoleID (mr_Role m)) SourceOrgRole e ''team'' add d')" for e
      unfolding addTeamHumanRole_def by (rule plain.similar_expand [OF assms(2) ids(2) seeded_team [OF assms(1)]])
    have org_step: "legacy_kind_step reach db req d c = ((d, None), c)" if "rs_Kind ?r = ''org''" for d
      using that by (simp add: legacy_kind_step_def)
    have guard: "(rs_ID ?r = ''*'' \<and> cr_BearerScope req \<noteq> []) = False" using member(1) by simp
    show ?thesis
      unfolding defs guard if_False
      using member(2,3) org org_step step [OF team] step [OF assms(2)] assms(2)
      by (simp add: similar_deny split: sum.split)
  qed
qed

lemma bearer_similar: "similar d d' \<Longrightarrow> similar (bearer_step req d) (bearer_step req d')"
  by (auto simp: bearer_step_def split: option.split)

lemma agree_derivations:
  assumes "roles_seeded db"
  shows "agree (deriveLegacyEffective reach db now req c) (deriveEquivalentEffective reach db now req c)"
proof -
  let ?d = "bearer_step req empty_derivation"
  from agree_membership_part [OF assms similar_refl, of reach req ?d c] show ?thesis
    unfolding deriveLegacyEffective_def deriveEquivalentEffective_def agree_def
    by (simp add: same_shared split_beta)
qed

subsection \<open>No mismatch\<close>

lemma keys_of_grants: "ep_Key ` set (dv_out d) = fst ` grants d"
  by (force simp: grants_def grant_of_def)

lemma set_permissionSet: "set (permissionSet ps) = ep_Key ` set ps"
  by (simp add: permissionSet_def set_dedup_acc)

lemma compare_same:
  assumes "ep_Key ` set ps = ep_Key ` set qs"
  shows "\<not> sc_Mismatch (compareEffective req ps qs)"
proof -
  have "set (permissionSet ps) = set (permissionSet qs)" using assms by (simp add: set_permissionSet)
  moreover from this have "permissionSet ps = [] \<longleftrightarrow> permissionSet qs = []"
    by (metis set_empty2)
  ultimately show ?thesis
    by (simp add: compareEffective_def Let_def hasPermissionKey_def filter_empty_conv)
qed

end
