(* ===== verification/Authz_Policy.thy ===== *)
theory Authz_Policy
  imports Authz_Equivalence
begin

section \<open>The access policy\<close>

text \<open>
  The policy says who may do what, and why, over the membership tables and the tables of roles:
  no order, no list of permissions, no callback.  The derivation grants a key for a source if and only if the
  policy gives it.  Files are left out: a file is reached through decisions on other resources.
\<close>

definition entered :: "auth_db \<Rightarrow> check_request \<Rightarrow> bool" where
  "entered db req \<longleftrightarrow>
     (let r = cr_Resource req in
      \<not> (rs_ID r = ''*'' \<and> cr_BearerScope req \<noteq> []) \<and>
      \<not> (org_scoped r \<and> orgDisabled db (rs_OrgID r) = Ok True \<and>
         (\<exists>m. orgMember db (rs_OrgID r) (cr_SubjectRef req) = Some m \<and> mr_Role m \<noteq> ''owner'')))"

text \<open>Reading and writing a task, an issue or a plan: through its project, or as assignee or creator of a task.\<close>

datatype work_access = Reads | Writes

definition item_key :: "gostring \<Rightarrow> work_access \<Rightarrow> permission_key" where
  "item_key kind act = kind @ (case act of Reads \<Rightarrow> ''.read'' | Writes \<Rightarrow> ''.write'')"

definition talk_key :: "work_access \<Rightarrow> permission_key" where
  "talk_key act = (case act of Reads \<Rightarrow> ''conversation.read'' | Writes \<Rightarrow> ''conversation.post'')"

inductive works_on :: "auth_db \<Rightarrow> subject_ref \<Rightarrow> gostring \<Rightarrow> gostring \<Rightarrow> work_access \<Rightarrow> bool"
  for db u kind i where
  member: "kind \<in> {''task'', ''issue'', ''plan''} \<Longrightarrow> parentProject db kind i = Ok p \<Longrightarrow> projectMember db p u = Some m
    \<Longrightarrow> works_on db u kind i act"
| assignee: "kind = ''task'' \<Longrightarrow> find_task db i = Some t \<Longrightarrow> tk_assignee t = Some u \<Longrightarrow> works_on db u kind i Reads"
| creator: "kind = ''task'' \<Longrightarrow> find_task db i = Some t \<Longrightarrow> tk_created_by t = u \<Longrightarrow> works_on db u kind i Reads"

text \<open>What the kind of the resource gives to a subject that has entered.\<close>

inductive kind_policy :: "auth_db \<Rightarrow> check_request \<Rightarrow> permission_key \<Rightarrow> decision_source \<Rightarrow> bool"
  for db req where
  team_agent: "rs_Kind (cr_Resource req) = ''team'' \<Longrightarrow> IsAgent (cr_SubjectRef req)
    \<Longrightarrow> team_roles db (rs_ID (cr_Resource req)) (cr_SubjectRef req) \<noteq> []
    \<Longrightarrow> k \<in> fst ` set team_agent_grants \<Longrightarrow> kind_policy db req k SourceTeamMember"
| curator: "rs_Kind (cr_Resource req) = ''team'' \<Longrightarrow> IsAgent (cr_SubjectRef req)
    \<Longrightarrow> team_roles db (rs_ID (cr_Resource req)) (cr_SubjectRef req) \<noteq> []
    \<Longrightarrow> (rs_ID (cr_Resource req), cr_SubjectRef req, since) \<in> set (db_curators db)
    \<Longrightarrow> kind_policy db req ''team.memory.review'' SourceTeamMemoryPolicy"
| project: "rs_Kind (cr_Resource req) = ''project''
    \<Longrightarrow> projectMember db (rs_ID (cr_Resource req)) (cr_SubjectRef req) = Some m
    \<Longrightarrow> k \<in> fst ` set (project_grants (mr_Role m)) \<Longrightarrow> kind_policy db req k SourceProjectMember"
| work_item: "works_on db (cr_SubjectRef req) (rs_Kind (cr_Resource req)) (rs_ID (cr_Resource req)) act
    \<Longrightarrow> kind_policy db req (item_key (rs_Kind (cr_Resource req)) act) SourceProjectMember"
| task_self: "rs_Kind (cr_Resource req) = ''task'' \<Longrightarrow> find_task db (rs_ID (cr_Resource req)) = Some t
    \<Longrightarrow> tk_assignee t = Some (cr_SubjectRef req) \<Longrightarrow> k \<in> {''task.start.self'', ''task.heartbeat.self'', ''task.complete.self'', ''task.block.self''} \<Longrightarrow> kind_policy db req k SourceProjectMember"
| participant: "rs_Kind (cr_Resource req) = ''conversation''
    \<Longrightarrow> find_conversation db (rs_ID (cr_Resource req)) = Some c \<Longrightarrow> cv_participants c = Some ps
    \<Longrightarrow> (cr_SubjectRef req, []) \<in> set ps \<Longrightarrow> k \<in> {''conversation.read'', ''conversation.post''}
    \<Longrightarrow> kind_policy db req k SourceConversationParticipant"
| owner_reader: "rs_Kind (cr_Resource req) = ''conversation''
    \<Longrightarrow> find_conversation db (rs_ID (cr_Resource req)) = Some c \<Longrightarrow> cv_owner_ref c = Some ref
    \<Longrightarrow> pmOwnerRef ref = Some (kind, i) \<Longrightarrow> works_on db (cr_SubjectRef req) kind i act
    \<Longrightarrow> kind_policy db req (talk_key act) SourceProjectMember"
| agent_worker: "rs_Kind (cr_Resource req) = ''agent'' \<Longrightarrow> find_agent db (rs_ID (cr_Resource req)) = Some a
    \<Longrightarrow> IsWorker (cr_SubjectRef req) \<Longrightarrow> BareID (cr_SubjectRef req) = ag_worker_id a
    \<Longrightarrow> kind_policy db req ''agent.operate.self'' SourceAgentWorkerBinding"
| agent_self: "rs_Kind (cr_Resource req) = ''agent'' \<Longrightarrow> find_agent db (rs_ID (cr_Resource req)) = Some a
    \<Longrightarrow> IsAgent (cr_SubjectRef req) \<Longrightarrow> ag_identity_member_id a = Some (BareID (cr_SubjectRef req))
    \<Longrightarrow> BareID (cr_SubjectRef req) \<noteq> [] \<Longrightarrow> k \<in> {''git.agent.read.self'', ''git.agent.write.self''}
    \<Longrightarrow> kind_policy db req k SourceAgentWorkerBinding"
| worker: "rs_Kind (cr_Resource req) = ''worker'' \<Longrightarrow> IsWorker (cr_SubjectRef req)
    \<Longrightarrow> rs_ID (cr_Resource req) \<noteq> [] \<Longrightarrow> BareID (cr_SubjectRef req) = rs_ID (cr_Resource req)
    \<Longrightarrow> k \<in> {''worker.heartbeat'', ''worker.capability.report''} \<Longrightarrow> kind_policy db req k SourceWorkerOwner"
| git: "rs_Kind (cr_Resource req) = ''git'' \<Longrightarrow> kind_policy db req ''git.global.read'' SourceSystem"

text \<open>Holding a key through a role of a team: the role is live, in scope of the organization, and covers the resource.\<close>

definition ram_covers :: "resource_scope \<Rightarrow> ram_row \<Rightarrow> permission_key \<Rightarrow> bool" where
  "ram_covers r row k \<longleftrightarrow>
     teamRAMScopeMatches r (rr_team row) (rr_kind row) (\<lambda>p. rr_project row = p) \<and>
     (if rs_Kind r = ''conversation''
      then k = ''conversation.read'' \<and> rr_key row \<in> {''project.read'', ''task.read'', ''issue.read'', ''plan.read''}
      else k = rr_key row \<and> k \<noteq> [] \<and> PermissionDefinedForResource k (rs_Kind r))"

inductive policy :: "auth_db \<Rightarrow> time \<Rightarrow> check_request \<Rightarrow> permission_key \<Rightarrow> decision_source \<Rightarrow> bool"
  for db now req where
  bearer_all: "cr_BearerScope req \<noteq> [] \<Longrightarrow> PermissionForBearerScope (cr_BearerScope req) = Some ''*''
    \<Longrightarrow> cr_Permission req \<noteq> [] \<Longrightarrow> policy db now req (cr_Permission req) SourceAdminTokenScope"
| bearer: "cr_BearerScope req \<noteq> [] \<Longrightarrow> PermissionForBearerScope (cr_BearerScope req) = Some k \<Longrightarrow> k \<noteq> ''*''
    \<Longrightarrow> policy db now req k SourceAdminTokenScope"
| org_role: "entered db req \<Longrightarrow> rs_Kind (cr_Resource req) = ''org'' \<Longrightarrow> rs_OrgID (cr_Resource req) \<noteq> []
    \<Longrightarrow> orgMember db (rs_OrgID (cr_Resource req)) (cr_SubjectRef req) = Some m
    \<Longrightarrow> k \<in> fst ` set (org_role_grants (mr_Role m)) \<Longrightarrow> policy db now req k SourceOrgRole"
| team_web: "entered db req \<Longrightarrow> rs_Kind (cr_Resource req) = ''team'' \<Longrightarrow> rs_OrgID (cr_Resource req) \<noteq> []
    \<Longrightarrow> orgMember db (rs_OrgID (cr_Resource req)) (cr_SubjectRef req) = Some m
    \<Longrightarrow> k \<in> fst ` set (team_human_grants (mr_Role m)) \<Longrightarrow> policy db now req k SourceOrgRole"
| membership: "entered db req \<Longrightarrow> kind_policy db req k s \<Longrightarrow> policy db now req k s"
| team_ram: "IsUser (cr_SubjectRef req) \<or> IsAgent (cr_SubjectRef req) \<Longrightarrow> rs_OrgID (cr_Resource req) \<noteq> []
    \<Longrightarrow> row \<in> set (ram_join db (cr_SubjectRef req) (rs_OrgID (cr_Resource req)))
    \<Longrightarrow> ram_covers (cr_Resource req) row k \<Longrightarrow> policy db now req k SourceTeamRoleRAM"
| custom: "scope_Key (cr_Resource req) = (kind, i) \<Longrightarrow> kind \<noteq> [] \<Longrightarrow> i \<noteq> [] \<Longrightarrow> rs_OrgID (cr_Resource req) \<noteq> []
    \<Longrightarrow> kind = ''worker'' \<or> \<not> (IsUser (cr_SubjectRef req) \<or> IsAgent (cr_SubjectRef req)) \<or> orgMember db (rs_OrgID (cr_Resource req)) (cr_SubjectRef req) \<noteq> None
    \<Longrightarrow> a \<in> set (db_assignments db) \<Longrightarrow> as_OrgID a = rs_OrgID (cr_Resource req) \<Longrightarrow> as_SubjectRef a = cr_SubjectRef req
    \<Longrightarrow> as_ResourceKind a = kind \<Longrightarrow> as_ResourceID a \<in> set (map TrimSpace (customAssignmentResourceIDs (cr_Resource req)))
    \<Longrightarrow> as_ResourceID a \<noteq> [] \<Longrightarrow> as_RevokedAt a = None \<Longrightarrow> assignment_live now a
    \<Longrightarrow> p \<in> set (db_role_permissions db) \<Longrightarrow> rp_RoleID p = as_RoleID a \<Longrightarrow> rp_ResourceKind p = kind
    \<Longrightarrow> policy db now req (rp_PermissionKey p) SourceCustomRole"

subsection \<open>Keys and sources of a set of grants\<close>

definition has :: "grant set \<Rightarrow> permission_key \<Rightarrow> decision_source \<Rightarrow> bool" where
  "has G k s \<longleftrightarrow> (\<exists>e. (k, s, e) \<in> G)"

lemma has_simps [simp]:
  "\<not> has {} k s" "has (G \<union> H) k s \<longleftrightarrow> has G k s \<or> has H k s"
  "has (named (k', s', e')) k s \<longleftrightarrow> k = k' \<and> s = s' \<and> k' \<noteq> []"
  "has (if b then G else H) k s \<longleftrightarrow> (if b then has G k s else has H k s)"
  by (auto simp: has_def named_def)

lemma has_keys [simp]: "has (keys_img img s' e ks) k s \<longleftrightarrow> (\<exists>k' \<in> ks. has (img (k', s', e)) k s)"
  by (auto simp: has_def keys_img_def)

lemma has_UN [simp]: "has (\<Union>x \<in> A. f x) k s \<longleftrightarrow> (\<exists>x \<in> A. has (f x) k s)"
  by (auto simp: has_def)

lemma has_renamed [simp]:
  "has (renamed ren img (k', s', e)) k s \<longleftrightarrow> (case ren k' e of None \<Rightarrow> False | Some (k'', e') \<Rightarrow> has (img (k'', s', e')) k s)"
  by (auto simp: renamed_def split: option.split)

lemma org_keys_nonempty: "[] \<notin> fst ` set (org_role_grants role)"
  by (auto simp: org_role_grants_def Let_def split: if_splits)

lemma team_keys_nonempty: "[] \<notin> fst ` set (team_human_grants role)"
  by (auto simp: team_human_grants_def Let_def split: if_splits)

lemma project_keys_nonempty: "[] \<notin> fst ` set (project_grants role)"
  by (auto simp: project_grants_def Let_def split: if_splits)

lemma child_keys:
  "(\<exists>k' \<in> set (project_grants role). case child_ren rd wr (fst k') e of None \<Rightarrow> False
      | Some (k'', e') \<Rightarrow> has (img (k'', s', e')) k s) \<longleftrightarrow> has (img (rd, s', e)) k s \<or> has (img (wr, s', e)) k s"
  by (auto simp: project_grants_def Let_def child_ren_def)

subsection \<open>Work items\<close>

definition work_has :: "(grant \<Rightarrow> grant set) \<Rightarrow> auth_db \<Rightarrow> subject_ref \<Rightarrow> gostring \<Rightarrow> gostring \<Rightarrow> permission_key \<Rightarrow> decision_source \<Rightarrow> bool" where
  "work_has img db u kind p k s \<longleftrightarrow>
     (\<exists>m. projectMember db p u = Some m \<and>
        (has (img (kind @ ''.read'', SourceProjectMember, mr_EvidenceRef m)) k s \<or>
         has (img (kind @ ''.write'', SourceProjectMember, mr_EvidenceRef m)) k s))"

context grant_adder
begin

lemma project_has:
  "has (grants (fst (addProjectEffective db u p ad d))) k s \<longleftrightarrow> has (grants d) k s \<or>
     (\<exists>m. projectMember db p u = Some m \<and>
        (\<exists>k' \<in> fst ` set (project_grants (mr_Role m)). has (img (k', SourceProjectMember, mr_EvidenceRef m)) k s))"
  by (auto simp: project_grants_set split: option.split)

lemma self_has:
  "has (self_img img t i u) k s \<longleftrightarrow>
     (case tk_assignee t of None \<Rightarrow> [] | Some a \<Rightarrow> a) = u \<and>
       (\<exists>k' \<in> {''task.read'', ''task.start.self'', ''task.heartbeat.self'', ''task.complete.self'', ''task.block.self''}.
          has (img (k', SourceProjectMember, ''pm_tasks:'' @ i @ ''/assignee'')) k s) \<or>
     tk_created_by t = u \<and> has (img (''task.read'', SourceProjectMember, ''pm_tasks:'' @ i @ ''/created_by'')) k s"
  by (auto simp: self_img_def)

lemma task_has:
  assumes "find_task db i = Some t"
  shows "has (grants (fst (addTaskEffective db u i ad d))) k s \<longleftrightarrow>
      has (grants d) k s \<or> has (self_img img t i u) k s \<or> work_has img db u ''task'' (tk_project_id t) k s"
    and "snd (addTaskEffective db u i ad d) = None"
  by (simp_all add: addTaskEffective_def assms work_has_def child_keys self_grants(1)
      grant_adder.project_has [OF child_grant_adder [OF grant_adder_axioms]]
      grant_adder.project_grants_set(2) [OF child_grant_adder [OF grant_adder_axioms]])

lemma issue_has:
  assumes "parentProject db ''issue'' i = Ok p"
  shows "has (grants (fst (addIssueEffective db u i ad d))) k s \<longleftrightarrow> has (grants d) k s \<or> work_has img db u ''issue'' p k s"
    and "snd (addIssueEffective db u i ad d) = None"
  by (simp_all add: addIssueEffective_def assms work_has_def child_keys
      grant_adder.project_has [OF child_grant_adder [OF grant_adder_axioms]]
      grant_adder.project_grants_set(2) [OF child_grant_adder [OF grant_adder_axioms]])

lemma plan_has:
  assumes "parentProject db ''plan'' i = Ok p"
  shows "has (grants (fst (addPlanEffective db u i ad d))) k s \<longleftrightarrow> has (grants d) k s \<or> work_has img db u ''plan'' p k s"
    and "snd (addPlanEffective db u i ad d) = None"
  by (simp_all add: addPlanEffective_def assms work_has_def child_keys
      grant_adder.project_has [OF child_grant_adder [OF grant_adder_axioms]]
      grant_adder.project_grants_set(2) [OF child_grant_adder [OF grant_adder_axioms]])

end

subsection \<open>Each kind of resource\<close>

lemma ex_access: "(\<exists>act. P act) \<longleftrightarrow> P Reads \<or> P Writes"
  by (metis work_access.exhaust)

lemma works_on_task:
  assumes "find_task db i = Some t"
  shows "works_on db u ''task'' i Writes \<longleftrightarrow> (\<exists>m. projectMember db (tk_project_id t) u = Some m)"
    and "works_on db u ''task'' i Reads \<longleftrightarrow>
      (\<exists>m. projectMember db (tk_project_id t) u = Some m) \<or> tk_assignee t = Some u \<or> tk_created_by t = u"
  by (simp_all add: works_on.simps parentProject_def assms)

lemma works_on_child:
  assumes "kind \<in> {''issue'', ''plan''}" and "parentProject db kind i = Ok p"
  shows "works_on db u kind i act \<longleftrightarrow> (\<exists>m. projectMember db p u = Some m)"
proof -
  from assms(1) have "kind \<noteq> ''task''" "kind \<in> {''task'', ''issue'', ''plan''}" by auto
  with assms(2) show ?thesis by (simp add: works_on.simps)
qed

lemma assignee_is: "u \<noteq> [] \<Longrightarrow> (case x of None \<Rightarrow> [] | Some a \<Rightarrow> a) = u \<longleftrightarrow> x = Some u"
  by (auto split: option.split)

definition self_keys :: "permission_key set" where
  "self_keys = {''task.start.self'', ''task.heartbeat.self'', ''task.complete.self'', ''task.block.self''}"

lemma self_keys_split:
  "{''task.read'', ''task.start.self'', ''task.heartbeat.self'', ''task.complete.self'', ''task.block.self''} = insert (item_key ''task'' Reads) self_keys"
  "[] \<notin> self_keys"
  by (simp_all add: self_keys_def item_key_def)

lemma item_key_nonempty [simp]: "item_key kind act \<noteq> []" "talk_key act \<noteq> []"
  by (simp_all add: item_key_def talk_key_def split: work_access.split)

lemma task_kind:
  assumes "find_task db i = Some t" and "u \<noteq> []"
  shows "has (grants (fst (addTaskEffective db u i add d))) k s \<longleftrightarrow> has (grants d) k s \<or>
    s = SourceProjectMember \<and>
      ((\<exists>act. works_on db u ''task'' i act \<and> k = item_key ''task'' act) \<or> tk_assignee t = Some u \<and> k \<in> self_keys)"
proof -
  have keys: "''task.read'' = item_key ''task'' Reads" by (simp add: item_key_def)
  have self: "has (self_img named t i u) k s \<longleftrightarrow> s = SourceProjectMember \<and>
      (tk_assignee t = Some u \<and> (k = item_key ''task'' Reads \<or> k \<in> self_keys) \<or> tk_created_by t = u \<and> k = item_key ''task'' Reads)"
    unfolding plain.self_has assignee_is [OF assms(2)] self_keys_split
    unfolding keys using self_keys_split(2) by auto
  have work: "work_has named db u ''task'' p k s \<longleftrightarrow> s = SourceProjectMember \<and> (\<exists>m. projectMember db p u = Some m) \<and>
      (k = item_key ''task'' Reads \<or> k = item_key ''task'' Writes)" for p
    by (auto simp: work_has_def item_key_def)
  show ?thesis
    unfolding plain.task_has(1) [OF assms(1)] self work ex_access works_on_task [OF assms(1)] by blast
qed

lemma child_kind:
  assumes "parentProject db kind i = Ok p" and "kind \<in> {''issue'', ''plan''}"
  shows "work_has named db u kind p k s \<longleftrightarrow>
    s = SourceProjectMember \<and> (\<exists>act. works_on db u kind i act \<and> k = item_key kind act)"
  unfolding ex_access works_on_child [OF assms(2,1)] by (auto simp: work_has_def item_key_def)

lemma bridge_ren_keys:
  assumes "kind \<in> {''task'', ''issue'', ''plan''}"
  shows "bridge_ren c (item_key kind act) e = Some (talk_key act, e @ ''/conversation:'' @ c)"
  using assms by (cases act) (auto simp: bridge_ren_def item_key_def talk_key_def)

lemma bridge_ren_self: "k \<in> self_keys \<Longrightarrow> bridge_ren c k e = None"
  by (auto simp: self_keys_def bridge_ren_def)

lemma bridge_work:
  assumes "kind \<in> {''task'', ''issue'', ''plan''}"
  shows "work_has (renamed (bridge_ren c) named) db u kind p k s \<longleftrightarrow>
    s = SourceProjectMember \<and> (\<exists>m. projectMember db p u = Some m) \<and> (k = talk_key Reads \<or> k = talk_key Writes)"
proof -
  have keys: "kind @ ''.read'' = item_key kind Reads" "kind @ ''.write'' = item_key kind Writes"
    by (simp_all add: item_key_def)
  show ?thesis
    unfolding work_has_def keys has_renamed bridge_ren_keys [OF assms] by auto
qed

lemma bridge_task:
  assumes "find_task db i = Some t" and "u \<noteq> []"
  shows "has (grants (fst (addTaskEffective db u i (bridge_adder c add) d))) k s \<longleftrightarrow> has (grants d) k s \<or>
    s = SourceProjectMember \<and> (\<exists>act. works_on db u ''task'' i act \<and> k = talk_key act)"
proof -
  have keys: "''task.read'' = item_key ''task'' Reads" by (simp add: item_key_def)
  have self: "has (self_img (renamed (bridge_ren c) named) t i u) k s \<longleftrightarrow>
      s = SourceProjectMember \<and> (tk_assignee t = Some u \<or> tk_created_by t = u) \<and> k = talk_key Reads"
    unfolding bridge.self_has assignee_is [OF assms(2)] self_keys_split
    unfolding keys has_renamed by (auto simp: bridge_ren_keys bridge_ren_self)
  show ?thesis
    unfolding bridge.task_has(1) [OF assms(1)] self bridge_work [of "''task''", simplified] ex_access works_on_task [OF assms(1)]
    by blast
qed

lemma bridge_child:
  assumes "parentProject db kind i = Ok p" and "kind \<in> {''issue'', ''plan''}"
  shows "work_has (renamed (bridge_ren c) named) db u kind p k s \<longleftrightarrow>
    s = SourceProjectMember \<and> (\<exists>act. works_on db u kind i act \<and> k = talk_key act)"
proof -
  from assms(2) have "kind \<in> {''task'', ''issue'', ''plan''}" by auto
  from bridge_work [OF this] show ?thesis unfolding ex_access works_on_child [OF assms(2,1)] by blast
qed

lemma owned_conversation_has:
  assumes "u \<noteq> []" and "snd (addOwnedConversationEffective db u c ref add d) = None"
  shows "has (grants (fst (addOwnedConversationEffective db u c ref add d))) k s \<longleftrightarrow> has (grants d) k s \<or>
    s = SourceProjectMember \<and> (\<exists>kind i act. pmOwnerRef ref = Some (kind, i) \<and> works_on db u kind i act \<and>
      k = talk_key act)"
proof (cases "pmOwnerRef ref")
  case None
  then show ?thesis by (simp add: addOwnedConversationEffective_def)
next
  case (Some kind_i)
  then obtain kind i where ref: "pmOwnerRef ref = Some (kind, i)" by (cases kind_i) auto
  show ?thesis
  proof (cases "kind = ''task''")
    case True
    with assms(2) ref obtain t where t: "find_task db i = Some t"
      by (auto simp: addOwnedConversationEffective_def addTaskEffective_def Let_def split: option.splits)
    from bridge_task [OF t assms(1)] True ref show ?thesis
      by (simp add: addOwnedConversationEffective_def)
  next
    case not_task: False
    show ?thesis
    proof (cases "kind \<in> {''issue'', ''plan''}")
      case True
      with assms(2) ref obtain p where p: "parentProject db kind i = Ok p"
        by (auto simp: addOwnedConversationEffective_def addIssueEffective_def addPlanEffective_def Let_def split: sum.splits)
      from bridge_child [OF p True] p True ref show ?thesis
        by (auto simp: addOwnedConversationEffective_def bridge.issue_has(1) bridge.plan_has(1))
    next
      case False
      with not_task ref show ?thesis
        by (auto simp: addOwnedConversationEffective_def works_on.simps)
    qed
  qed
qed

lemma participant_has:
  "participant_step ps u c add d = (d', None) \<Longrightarrow> has (grants d') k s \<longleftrightarrow> has (grants d) k s \<or>
     s = SourceConversationParticipant \<and> k \<in> {''conversation.read'', ''conversation.post''} \<and>
       (\<exists>xs. ps = Some xs \<and> (u, []) \<in> set xs)"
  by (auto simp: participant_step_def plain.add_all_grants split: option.splits if_splits)

lemma conversation_has:
  assumes "u \<noteq> []" and "addConversationEffective db u i add d = (d', None)"
  obtains c where "find_conversation db i = Some c"
    and "has (grants d') k s \<longleftrightarrow> has (grants d) k s \<or>
      s = SourceProjectMember \<and> (\<exists>kind j act. pmOwnerRef (case cv_owner_ref c of None \<Rightarrow> [] | Some r \<Rightarrow> r) = Some (kind, j) \<and>
        works_on db u kind j act \<and> k = talk_key act) \<or>
      s = SourceConversationParticipant \<and> k \<in> {''conversation.read'', ''conversation.post''} \<and>
        (\<exists>xs. cv_participants c = Some xs \<and> (u, []) \<in> set xs)"
proof -
  from assms(2) obtain c where c: "find_conversation db i = Some c"
    by (auto simp: addConversationEffective_def split: option.splits)
  let ?ref = "case cv_owner_ref c of None \<Rightarrow> [] | Some r \<Rightarrow> r"
  from assms(2) c obtain d1 where d1: "addOwnedConversationEffective db u i ?ref add d = (d1, None)"
      "participant_step (cv_participants c) u i add d1 = (d', None)"
    by (auto simp: addConversationEffective_def and_then_def split: prod.splits option.splits)
  from owned_conversation_has [OF assms(1), of db i ?ref d k s] d1(1) participant_has [OF d1(2), of k s]
  show ?thesis by (intro that [OF c]) simp
qed

subsection \<open>The membership part\<close>

lemma works_on_kind: "works_on db u kind i act \<Longrightarrow> kind \<in> {''task'', ''issue'', ''plan''}"
  by (cases rule: works_on.cases) auto

lemma kind_policy_other:
  assumes "rs_Kind (cr_Resource req) \<notin> {''team'', ''project'', ''task'', ''issue'', ''plan'', ''conversation'', ''agent'', ''worker'', ''git''}"
  shows "\<not> kind_policy db req k s"
proof
  assume "kind_policy db req k s"
  then show False
    using assms by cases (auto dest: works_on_kind)
qed

lemma works_on_other [simp]:
  "\<not> works_on db u ''team'' i act" "\<not> works_on db u ''project'' i act" "\<not> works_on db u ''conversation'' i act"
  "\<not> works_on db u ''agent'' i act" "\<not> works_on db u ''worker'' i act" "\<not> works_on db u ''git'' i act"
  by (auto dest: works_on_kind)

lemma worker_kind_has:
  assumes "rs_Kind (cr_Resource req) = ''worker''" and "addWorkerEffective req add d = (d', None)"
  shows "has (grants d') k s \<longleftrightarrow> has (grants d) k s \<or> kind_policy db req k s"
  using assms by (auto simp: addWorkerEffective_def plain.add_all_grants kind_policy.simps split: if_splits)

lemma agent_kind_has:
  assumes "rs_Kind (cr_Resource req) = ''agent''" and "addAgentEffective db req add d = (d', None)"
  shows "has (grants d') k s \<longleftrightarrow> has (grants d) k s \<or> kind_policy db req k s"
  using assms subject_kinds_exclusive(3) [of "cr_SubjectRef req"]
  by (auto simp: addAgentEffective_def Let_def plain.add_all_grants plain.ad_grants kind_policy.simps split: if_splits option.splits)

lemma keys_named: "[] \<notin> ks \<Longrightarrow> (\<exists>k' \<in> ks. has (named (k', s', e)) k s) \<longleftrightarrow> s = s' \<and> k \<in> ks"
  by auto

lemma team_kind_has:
  assumes "rs_Kind (cr_Resource req) = ''team''"
    and "addTeamEffective db (cr_SubjectRef req) (rs_ID (cr_Resource req)) add d = (d', None)"
  shows "has (grants d') k s \<longleftrightarrow> has (grants d) k s \<or> kind_policy db req k s"
proof -
  let ?u = "cr_SubjectRef req" and ?t = "rs_ID (cr_Resource req)"
  have policy: "kind_policy db req k s \<longleftrightarrow> IsAgent ?u \<and> team_roles db ?t ?u \<noteq> [] \<and>
      (s = SourceTeamMember \<and> k \<in> fst ` set team_agent_grants \<or>
       s = SourceTeamMemoryPolicy \<and> k = ''team.memory.review'' \<and> (\<exists>x. (?t, ?u, x) \<in> set (db_curators db)))"
    by (simp only: kind_policy.simps) (use assms(1) in auto)
  have keys: "[] \<notin> fst ` set team_agent_grants" by (simp add: team_agent_grants_def)
  show ?thesis
  proof (cases "IsAgent ?u \<and> team_roles db ?t ?u \<noteq> []")
    case True
    then obtain role roles where roles: "team_roles db ?t ?u = role # roles"
      by (cases "team_roles db ?t ?u") auto
    with True assms(2) have "d' = curator_step db ?u ?t add
        (fold (\<lambda>role. add_all add SourceTeamMember (team_evidence ?t ?u role) team_agent_grants) (role # roles) d)"
      unfolding addTeamEffective_def roles list.case by simp
    moreover have "has (grants (curator_step db ?u ?t add
        (fold (\<lambda>role. add_all add SourceTeamMember (team_evidence ?t ?u role) team_agent_grants) (role # roles) d))) k s \<longleftrightarrow>
        has (grants d) k s \<or> s = SourceTeamMember \<and> k \<in> fst ` set team_agent_grants \<or>
        (\<exists>x. (?t, ?u, x) \<in> set (db_curators db)) \<and> k = ''team.memory.review'' \<and> s = SourceTeamMemoryPolicy"
      unfolding plain.curator_grants plain.fold_roles_grants has_simps has_UN has_keys keys_named [OF keys]
      by (auto simp: team_agent_grants_def)
    ultimately have "has (grants d') k s \<longleftrightarrow>
        has (grants d) k s \<or> s = SourceTeamMember \<and> k \<in> fst ` set team_agent_grants \<or>
        (\<exists>x. (?t, ?u, x) \<in> set (db_curators db)) \<and> k = ''team.memory.review'' \<and> s = SourceTeamMemoryPolicy"
      by (simp only:)
    with True show ?thesis unfolding policy by auto
  next
    case False
    with assms(2) have "d' = d \<or> (\<exists>m. d' = deny m d)"
      by (auto simp: addTeamEffective_def split: if_splits list.splits)
    with False show ?thesis unfolding policy by auto
  qed
qed

lemma project_kind_has:
  assumes "rs_Kind (cr_Resource req) = ''project''"
    and "addProjectEffective db (cr_SubjectRef req) (rs_ID (cr_Resource req)) add d = (d', None)"
  shows "has (grants d') k s \<longleftrightarrow> has (grants d) k s \<or> kind_policy db req k s"
proof -
  have policy: "kind_policy db req k s \<longleftrightarrow> s = SourceProjectMember \<and>
      (\<exists>m. projectMember db (rs_ID (cr_Resource req)) (cr_SubjectRef req) = Some m \<and> k \<in> fst ` set (project_grants (mr_Role m)))"
    by (simp only: kind_policy.simps) (use assms(1) in auto)
  have "d' = fst (addProjectEffective db (cr_SubjectRef req) (rs_ID (cr_Resource req)) add d)"
    by (simp add: assms(2))
  then show ?thesis
    unfolding policy by (simp only: plain.project_has keys_named [OF project_keys_nonempty]) blast
qed

lemma task_kind_has:
  assumes "rs_Kind (cr_Resource req) = ''task''" and "cr_SubjectRef req \<noteq> []"
    and "addTaskEffective db (cr_SubjectRef req) (rs_ID (cr_Resource req)) add d = (d', None)"
  shows "has (grants d') k s \<longleftrightarrow> has (grants d) k s \<or> kind_policy db req k s"
proof -
  from assms(3) obtain t where t: "find_task db (rs_ID (cr_Resource req)) = Some t"
    by (auto simp: addTaskEffective_def split: option.splits)
  have "kind_policy db req k s \<longleftrightarrow> s = SourceProjectMember \<and>
      ((\<exists>act. works_on db (cr_SubjectRef req) ''task'' (rs_ID (cr_Resource req)) act \<and> k = item_key ''task'' act) \<or>
       tk_assignee t = Some (cr_SubjectRef req) \<and> k \<in> self_keys)"
    using assms(1) t by (auto simp: kind_policy.simps self_keys_def)
  with task_kind [OF t assms(2), of d k s] assms(3) show ?thesis by simp
qed

lemma child_kind_has:
  assumes "rs_Kind (cr_Resource req) = ''issue'' \<and>
      addIssueEffective db (cr_SubjectRef req) (rs_ID (cr_Resource req)) add d = (d', None) \<or>
      rs_Kind (cr_Resource req) = ''plan'' \<and>
      addPlanEffective db (cr_SubjectRef req) (rs_ID (cr_Resource req)) add d = (d', None)"
  shows "has (grants d') k s \<longleftrightarrow> has (grants d) k s \<or> kind_policy db req k s"
  using assms
proof
  let ?u = "cr_SubjectRef req" and ?i = "rs_ID (cr_Resource req)"
  have policy: "kind_policy db req k s \<longleftrightarrow> s = SourceProjectMember \<and>
      (\<exists>act. works_on db ?u (rs_Kind (cr_Resource req)) ?i act \<and> k = item_key (rs_Kind (cr_Resource req)) act)"
    (is "_ \<longleftrightarrow> ?R") if kind: "rs_Kind (cr_Resource req) = ''issue'' \<or> rs_Kind (cr_Resource req) = ''plan''"
  proof
    assume "kind_policy db req k s"
    then show ?R
    proof cases
      case (work_item act)
      then show ?thesis by blast
    qed (use kind in simp_all)
  next
    assume ?R
    then show "kind_policy db req k s" by (auto intro: kind_policy.work_item)
  qed
  {
    assume *: "rs_Kind (cr_Resource req) = ''issue'' \<and> addIssueEffective db ?u ?i add d = (d', None)"
    then obtain p where p: "parentProject db ''issue'' ?i = Ok p"
      by (auto simp: addIssueEffective_def split: sum.splits)
    from plain.issue_has(1) [OF p, of ?u d k s] child_kind [OF p, of ?u k s] policy * show ?thesis by simp
  next
    assume *: "rs_Kind (cr_Resource req) = ''plan'' \<and> addPlanEffective db ?u ?i add d = (d', None)"
    then obtain p where p: "parentProject db ''plan'' ?i = Ok p"
      by (auto simp: addPlanEffective_def split: sum.splits)
    from plain.plan_has(1) [OF p, of ?u d k s] child_kind [OF p, of ?u k s] policy * show ?thesis by simp
  }
qed

lemma conversation_kind_has:
  assumes "rs_Kind (cr_Resource req) = ''conversation''" and "cr_SubjectRef req \<noteq> []"
    and "addConversationEffective db (cr_SubjectRef req) (rs_ID (cr_Resource req)) add d = (d', None)"
  shows "has (grants d') k s \<longleftrightarrow> has (grants d) k s \<or> kind_policy db req k s"
proof (rule conversation_has [OF assms(2,3), where k = k and s = s])
  fix c assume c: "find_conversation db (rs_ID (cr_Resource req)) = Some c"
    and *: "has (grants d') k s \<longleftrightarrow> has (grants d) k s \<or>
      s = SourceProjectMember \<and> (\<exists>kind j act. pmOwnerRef (case cv_owner_ref c of None \<Rightarrow> [] | Some r \<Rightarrow> r) = Some (kind, j) \<and>
        works_on db (cr_SubjectRef req) kind j act \<and> k = talk_key act) \<or>
      s = SourceConversationParticipant \<and> k \<in> {''conversation.read'', ''conversation.post''} \<and>
        (\<exists>xs. cv_participants c = Some xs \<and> (cr_SubjectRef req, []) \<in> set xs)"
  have "pmOwnerRef [] = None" by code_simp
  then have owner: "pmOwnerRef (case cv_owner_ref c of None \<Rightarrow> [] | Some r \<Rightarrow> r) = Some x \<longleftrightarrow>
      (\<exists>r. cv_owner_ref c = Some r \<and> pmOwnerRef r = Some x)" for x
    by (simp split: option.split)
  have policy: "kind_policy db req k s \<longleftrightarrow>
      s = SourceProjectMember \<and> (\<exists>ref kind j act. cv_owner_ref c = Some ref \<and> pmOwnerRef ref = Some (kind, j) \<and>
        works_on db (cr_SubjectRef req) kind j act \<and> k = talk_key act) \<or>
      s = SourceConversationParticipant \<and> k \<in> {''conversation.read'', ''conversation.post''} \<and>
        (\<exists>xs. cv_participants c = Some xs \<and> (cr_SubjectRef req, []) \<in> set xs)"
    (is "_ \<longleftrightarrow> ?R")
  proof
    assume "kind_policy db req k s"
    then show ?R
    proof cases
      case (participant c' ps)
      with c show ?thesis by (intro disjI2) simp
    next
      case (owner_reader c' ref kind i act)
      with c show ?thesis by (intro disjI1) auto
    qed (use assms(1) in simp_all)
  next
    assume ?R
    with assms(1) c show "kind_policy db req k s"
      by (elim disjE exE conjE) (simp_all only:, (rule kind_policy.owner_reader kind_policy.participant; assumption)+)
  qed
  show ?thesis unfolding * owner policy by blast
qed

lemma other_kind_has:
  assumes "rs_Kind (cr_Resource req) \<notin> {''team'', ''project'', ''task'', ''issue'', ''plan'', ''conversation'', ''agent'',
      ''worker'', ''git''}"
  shows "has (grants d) k s \<longleftrightarrow> has (grants d) k s \<or> kind_policy db req k s"
  using kind_policy_other [OF assms] by blast

lemma git_policy: "rs_Kind (cr_Resource req) = ''git'' \<Longrightarrow> kind_policy db req k s \<longleftrightarrow> k = ''git.global.read'' \<and> s = SourceSystem"
  by (subst kind_policy.simps) simp

lemma legacy_kind_has:
  assumes "rs_Kind (cr_Resource req) \<noteq> ''file''" and u: "cr_SubjectRef req \<noteq> []"
    and step: "fst (legacy_kind_step reach db req d c) = (d', None)"
  shows "has (grants d') k s \<longleftrightarrow> has (grants d) k s \<or> kind_policy db req k s"
proof -
  let ?kind = "rs_Kind (cr_Resource req)"
  consider "?kind = ''project''" | "?kind = ''task''" | "?kind = ''issue''" | "?kind = ''plan''" | "?kind = ''team''"
    | "?kind = ''conversation''" | "?kind = ''agent''" | "?kind = ''worker''" | "?kind = ''git''"
    | (other) "?kind \<notin> {''team'', ''project'', ''task'', ''issue'', ''plan'', ''conversation'', ''agent'', ''worker'', ''git''}"
    by blast
  then show ?thesis
  proof cases
    case 1
    with step show ?thesis by (intro project_kind_has) (simp_all add: legacy_kind_step_def)
  next
    case 2
    with step u show ?thesis by (intro task_kind_has) (simp_all add: legacy_kind_step_def)
  next
    case 3
    with step show ?thesis by (intro child_kind_has) (simp add: legacy_kind_step_def)
  next
    case 4
    with step show ?thesis by (intro child_kind_has) (simp add: legacy_kind_step_def)
  next
    case 5
    with step show ?thesis by (intro team_kind_has) (simp_all add: legacy_kind_step_def)
  next
    case 6
    with step u show ?thesis by (intro conversation_kind_has) (simp_all add: legacy_kind_step_def)
  next
    case 7
    with step show ?thesis by (intro agent_kind_has) (simp_all add: legacy_kind_step_def)
  next
    case 8
    with step show ?thesis by (intro worker_kind_has) (simp_all add: legacy_kind_step_def)
  next
    case 9
    with step git_policy [of req db k s] show ?thesis
      by (auto simp: legacy_kind_step_def plain.ad_grants)
  next
    case other
    with step assms(1) have "d' = d" by (simp add: legacy_kind_step_def)
    with other_kind_has [OF other] show ?thesis by simp
  qed
qed

text \<open>The organization gate: roles of the organization and of its teams, then the kind of the resource.\<close>

definition role_policy :: "auth_db \<Rightarrow> check_request \<Rightarrow> permission_key \<Rightarrow> decision_source \<Rightarrow> bool" where
  "role_policy db req k s \<longleftrightarrow> s = SourceOrgRole \<and> rs_OrgID (cr_Resource req) \<noteq> [] \<and>
     (\<exists>m. orgMember db (rs_OrgID (cr_Resource req)) (cr_SubjectRef req) = Some m \<and>
        (rs_Kind (cr_Resource req) = ''org'' \<and> k \<in> fst ` set (org_role_grants (mr_Role m)) \<or>
         rs_Kind (cr_Resource req) = ''team'' \<and> k \<in> fst ` set (team_human_grants (mr_Role m))))"

lemma role_steps_has:
  "has (grants (if kind = ''org'' then addOrgRole role e add d else if kind = ''team'' then addTeamHumanRole role e add d else d)) k s
     \<longleftrightarrow> has (grants d) k s \<or> s = SourceOrgRole \<and>
       (kind = ''org'' \<and> k \<in> fst ` set (org_role_grants role) \<or> kind = ''team'' \<and> k \<in> fst ` set (team_human_grants role))"
proof -
  have "has (grants (addOrgRole role e add d)) k s \<longleftrightarrow> has (grants d) k s \<or> s = SourceOrgRole \<and> k \<in> fst ` set (org_role_grants role)"
    unfolding addOrgRole_def plain.add_all_grants has_simps(2) has_keys by (simp only: keys_named [OF org_keys_nonempty])
  moreover have "has (grants (addTeamHumanRole role e add d)) k s \<longleftrightarrow>
      has (grants d) k s \<or> s = SourceOrgRole \<and> k \<in> fst ` set (team_human_grants role)"
    unfolding addTeamHumanRole_def plain.add_all_grants has_simps(2) has_keys by (simp only: keys_named [OF team_keys_nonempty])
  ultimately show ?thesis by (cases "kind = ''org''") simp_all
qed

lemma membership_part_has:
  assumes no_file: "rs_Kind (cr_Resource req) \<noteq> ''file''" and u: "cr_SubjectRef req \<noteq> []"
    and step: "fst (addLegacyEffective reach db req d c) = (d', None)"
  shows "has (grants d') k s \<longleftrightarrow> has (grants d) k s \<or> entered db req \<and> (role_policy db req k s \<or> kind_policy db req k s)"
proof -
  let ?r = "cr_Resource req" and ?u = "cr_SubjectRef req"
  note kind = legacy_kind_has [OF no_file u, of reach db _ c d' k s]
  have scoped: "role_policy db req k s \<Longrightarrow> org_scoped ?r"
    by (auto simp: role_policy_def org_scoped_def)
  consider (bearer) "(rs_ID ?r = ''*'' \<and> cr_BearerScope req \<noteq> []) = True"
    | (unscoped) "(rs_ID ?r = ''*'' \<and> cr_BearerScope req \<noteq> []) = False" "org_scoped ?r = False"
    | (stranger) "(rs_ID ?r = ''*'' \<and> cr_BearerScope req \<noteq> []) = False" "org_scoped ?r = True"
        "orgMember db (rs_OrgID ?r) ?u = None"
    | (member) m disabled where "(rs_ID ?r = ''*'' \<and> cr_BearerScope req \<noteq> []) = False" "org_scoped ?r = True"
        "orgMember db (rs_OrgID ?r) ?u = Some m" "orgDisabled db (rs_OrgID ?r) = Ok disabled"
    | (gone) m e where "(rs_ID ?r = ''*'' \<and> cr_BearerScope req \<noteq> []) = False" "org_scoped ?r = True"
        "orgMember db (rs_OrgID ?r) ?u = Some m" "orgDisabled db (rs_OrgID ?r) = Err e"
    by (cases "orgMember db (rs_OrgID ?r) ?u"; cases "orgDisabled db (rs_OrgID ?r)") blast+
  then show ?thesis
  proof cases
    case bearer
    then have "\<not> entered db req" by (simp add: entered_def)
    with bearer step show ?thesis by (simp add: addLegacyEffective_def Let_def)
  next
    case unscoped
    then have "entered db req" by (simp add: entered_def)
    moreover from step have "fst (legacy_kind_step reach db req d c) = (d', None)"
      unfolding addLegacyEffective_def Let_def unscoped by simp
    ultimately show ?thesis using kind [of d] scoped unscoped(2) by auto
  next
    case stranger
    then have "entered db req" "\<not> role_policy db req k s" by (auto simp: entered_def role_policy_def)
    moreover from step obtain m where
      "fst (legacy_kind_step reach db req (if IsUser ?u \<or> IsAgent ?u then deny m d else d) c) = (d', None)"
      unfolding addLegacyEffective_def Let_def stranger by simp
    from kind [OF this] have "has (grants d') k s \<longleftrightarrow> has (grants d) k s \<or> kind_policy db req k s"
      by (cases "IsUser ?u \<or> IsAgent ?u") simp_all
    ultimately show ?thesis by blast
  next
    case gone
    with step show ?thesis by (simp add: addLegacyEffective_def Let_def)
  next
    case (member m disabled)
    show ?thesis
    proof (cases "disabled \<and> mr_Role m \<noteq> ''owner''")
      case True
      with member have "\<not> entered db req" by (auto simp: entered_def)
      with True step show ?thesis
        unfolding addLegacyEffective_def Let_def member by auto
    next
      case False
      then have guard: "(disabled \<and> mr_Role m \<noteq> ''owner'') = False" by simp
      from step have "fst (legacy_kind_step reach db req
          (if rs_Kind ?r = ''org'' then addOrgRole (mr_Role m) (mr_EvidenceRef m) add d
           else if rs_Kind ?r = ''team'' then addTeamHumanRole (mr_Role m) (mr_EvidenceRef m) add d else d) c) = (d', None)"
        unfolding addLegacyEffective_def Let_def member
        by (simp only: guard if_False not_True_eq_False option.case sum.case)
      from kind [OF this] have "has (grants d') k s \<longleftrightarrow> has (grants d) k s \<or> s = SourceOrgRole \<and>
          (rs_Kind ?r = ''org'' \<and> k \<in> fst ` set (org_role_grants (mr_Role m)) \<or>
           rs_Kind ?r = ''team'' \<and> k \<in> fst ` set (team_human_grants (mr_Role m))) \<or> kind_policy db req k s"
        unfolding role_steps_has by blast
      moreover have "entered db req" using False member by (simp add: entered_def)
      moreover have "rs_OrgID ?r \<noteq> []" using member(2) by (simp add: org_scoped_def)
      ultimately show ?thesis using member(3) by (simp add: role_policy_def)
    qed
  qed
qed

subsection \<open>The bearer scope and the shared grants\<close>

lemma bearer_key_nonempty: "PermissionForBearerScope b = Some k \<Longrightarrow> k \<noteq> []"
  by (auto simp: PermissionForBearerScope_def split: if_splits)

definition bearer_policy :: "check_request \<Rightarrow> permission_key \<Rightarrow> decision_source \<Rightarrow> bool" where
  "bearer_policy req k s \<longleftrightarrow> s = SourceAdminTokenScope \<and> cr_BearerScope req \<noteq> [] \<and>
     (PermissionForBearerScope (cr_BearerScope req) = Some ''*'' \<and> k = cr_Permission req \<and> k \<noteq> [] \<or>
      PermissionForBearerScope (cr_BearerScope req) = Some k \<and> k \<noteq> ''*'')"

lemma bearer_has: "has (grants (bearer_step req empty_derivation)) k s \<longleftrightarrow> bearer_policy req k s"
proof (cases "cr_BearerScope req = [] \<or> PermissionForBearerScope (cr_BearerScope req) = None")
  case True
  then show ?thesis by (auto simp: bearer_step_def bearer_policy_def)
next
  case False
  then obtain b where b: "PermissionForBearerScope (cr_BearerScope req) = Some b" by auto
  with False bearer_key_nonempty [OF b] show ?thesis
    by (cases "b = ''*''") (auto simp: bearer_step_def bearer_policy_def plain.ad_grants)
qed

definition ram_policy :: "auth_db \<Rightarrow> check_request \<Rightarrow> permission_key \<Rightarrow> decision_source \<Rightarrow> bool" where
  "ram_policy db req k s \<longleftrightarrow> s = SourceTeamRoleRAM \<and>
     (IsUser (cr_SubjectRef req) \<or> IsAgent (cr_SubjectRef req)) \<and> rs_OrgID (cr_Resource req) \<noteq> [] \<and>
     (\<exists>row \<in> set (ram_join db (cr_SubjectRef req) (rs_OrgID (cr_Resource req))). ram_covers (cr_Resource req) row k)"

lemma ram_row_has: "has (grants (ram_row_step r row empty_derivation)) k s \<longleftrightarrow> s = SourceTeamRoleRAM \<and> ram_covers r row k"
proof (cases "teamRAMScopeMatches r (rr_team row) (rr_kind row) (\<lambda>p. rr_project row = p)")
  case False
  then show ?thesis by (simp add: ram_row_step_def ram_covers_def)
next
  case True
  then show ?thesis
    by (cases "rs_Kind r = ''conversation''") (auto simp: ram_row_step_def ram_covers_def ram_permission_def grant_of_def)
qed

lemma ram_has: "has (grants (addTeamRAMEffective db req d)) k s \<longleftrightarrow> has (grants d) k s \<or> ram_policy db req k s"
  by (auto simp: addTeamRAMEffective_def fold_ram_grants ram_row_has ram_policy_def ram_rows_def)

definition custom_policy :: "auth_db \<Rightarrow> time \<Rightarrow> check_request \<Rightarrow> permission_key \<Rightarrow> decision_source \<Rightarrow> bool" where
  "custom_policy db now req k s \<longleftrightarrow> s = SourceCustomRole \<and>
     (\<exists>kind i a p. scope_Key (cr_Resource req) = (kind, i) \<and> kind \<noteq> [] \<and> i \<noteq> [] \<and> rs_OrgID (cr_Resource req) \<noteq> [] \<and>
        (kind = ''worker'' \<or> \<not> (IsUser (cr_SubjectRef req) \<or> IsAgent (cr_SubjectRef req)) \<or>
         orgMember db (rs_OrgID (cr_Resource req)) (cr_SubjectRef req) \<noteq> None) \<and>
        a \<in> set (db_assignments db) \<and> as_OrgID a = rs_OrgID (cr_Resource req) \<and> as_SubjectRef a = cr_SubjectRef req \<and>
        as_ResourceKind a = kind \<and> as_ResourceID a \<in> set (map TrimSpace (customAssignmentResourceIDs (cr_Resource req))) \<and>
        as_ResourceID a \<noteq> [] \<and> as_RevokedAt a = None \<and> assignment_live now a \<and>
        p \<in> set (db_role_permissions db) \<and> rp_RoleID p = as_RoleID a \<and> rp_ResourceKind p = kind \<and> k = rp_PermissionKey p)"

lemma custom_permissions_has:
  "has (grant_of ` set (custom_permissions db now kind as)) k s \<longleftrightarrow> s = SourceCustomRole \<and>
     (\<exists>a \<in> set as. assignment_live now a \<and>
        (\<exists>p \<in> set (db_role_permissions db). rp_RoleID p = as_RoleID a \<and> rp_ResourceKind p = kind \<and> k = rp_PermissionKey p))"
  unfolding has_def custom_permissions_def
  by (auto simp: grant_of_def custom_permission_def set_rolePermissions image_iff)

lemma scope_Key_trimmed: "scope_Key r = (kind, i) \<Longrightarrow> TrimSpace kind = kind"
  by (auto simp: scope_Key_def Let_def)

lemma custom_has: "has (grants (addCustomEffective db now req d)) k s \<longleftrightarrow> has (grants d) k s \<or> custom_policy db now req k s"
proof -
  obtain kind i where key: "scope_Key (cr_Resource req) = (kind, i)" by (cases "scope_Key (cr_Resource req)") auto
  let ?guard = "kind = [] \<or> i = [] \<or> rs_OrgID (cr_Resource req) = [] \<or>
    kind \<noteq> ''worker'' \<and> (IsUser (cr_SubjectRef req) \<or> IsAgent (cr_SubjectRef req)) \<and>
      orgMember db (rs_OrgID (cr_Resource req)) (cr_SubjectRef req) = None"
  show ?thesis
  proof (cases ?guard)
    case True
    then have "addCustomEffective db now req d = d" by (auto simp: addCustomEffective_def Let_def key)
    moreover have "\<not> custom_policy db now req k s" using True by (auto simp: custom_policy_def key)
    ultimately show ?thesis by simp
  next
    case False
    then have step: "grants (addCustomEffective db now req d) = grants d \<union> grant_of ` set (custom_permissions db now kind
        (activeAssignmentsForResourceIDs db (rs_OrgID (cr_Resource req)) (cr_SubjectRef req) kind
          (customAssignmentResourceIDs (cr_Resource req))))"
      by (auto simp: addCustomEffective_def Let_def key grants_def)
    have "has (grants (addCustomEffective db now req d)) k s \<longleftrightarrow> has (grants d) k s \<or> s = SourceCustomRole \<and>
        (\<exists>a. (a \<in> set (db_assignments db) \<and> as_OrgID a = rs_OrgID (cr_Resource req) \<and> as_SubjectRef a = cr_SubjectRef req \<and>
           as_ResourceKind a = kind \<and> as_ResourceID a \<in> TrimSpace ` set (customAssignmentResourceIDs (cr_Resource req)) - {[]} \<and>
           as_RevokedAt a = None) \<and> assignment_live now a \<and>
          (\<exists>p \<in> set (db_role_permissions db). rp_RoleID p = as_RoleID a \<and> rp_ResourceKind p = kind \<and> k = rp_PermissionKey p))"
      unfolding step has_simps(2) custom_permissions_has set_activeAssignments scope_Key_trimmed [OF key] Bex_def mem_Collect_eq
      by simp
    moreover have "custom_policy db now req k s \<longleftrightarrow> s = SourceCustomRole \<and>
        (\<exists>a. (a \<in> set (db_assignments db) \<and> as_OrgID a = rs_OrgID (cr_Resource req) \<and> as_SubjectRef a = cr_SubjectRef req \<and>
           as_ResourceKind a = kind \<and> as_ResourceID a \<in> TrimSpace ` set (customAssignmentResourceIDs (cr_Resource req)) - {[]} \<and>
           as_RevokedAt a = None) \<and> assignment_live now a \<and>
          (\<exists>p \<in> set (db_role_permissions db). rp_RoleID p = as_RoleID a \<and> rp_ResourceKind p = kind \<and> k = rp_PermissionKey p))"
      using False unfolding custom_policy_def key prod.inject set_map by blast
    ultimately show ?thesis by blast
  qed
qed

subsection \<open>The derivation is the policy\<close>

lemma policy_parts:
  "policy db now req k s \<longleftrightarrow> bearer_policy req k s \<or> entered db req \<and> (role_policy db req k s \<or> kind_policy db req k s) \<or>
     ram_policy db req k s \<or> custom_policy db now req k s"
proof
  assume "policy db now req k s"
  then show "bearer_policy req k s \<or> entered db req \<and> (role_policy db req k s \<or> kind_policy db req k s) \<or>
     ram_policy db req k s \<or> custom_policy db now req k s"
  proof cases
    case (custom kind i a p)
    then have "custom_policy db now req k s" unfolding custom_policy_def by blast
    then show ?thesis by blast
  next
    case (team_ram row)
    then show ?thesis by (auto simp: ram_policy_def)
  next
    case bearer
    then show ?thesis by (simp add: bearer_policy_def)
  qed (auto simp: bearer_policy_def role_policy_def)
next
  assume "bearer_policy req k s \<or> entered db req \<and> (role_policy db req k s \<or> kind_policy db req k s) \<or>
     ram_policy db req k s \<or> custom_policy db now req k s"
  then consider "bearer_policy req k s" | "entered db req" "role_policy db req k s" | "entered db req" "kind_policy db req k s"
    | "ram_policy db req k s" | "custom_policy db now req k s" by blast
  then show "policy db now req k s"
  proof cases
    case 1
    then show ?thesis by (auto simp: bearer_policy_def intro: policy.bearer_all policy.bearer)
  next
    case 2
    then show ?thesis by (auto simp: role_policy_def intro: policy.org_role policy.team_web)
  next
    case 3
    then show ?thesis by (rule policy.membership)
  next
    case 4
    then show ?thesis by (auto simp: ram_policy_def intro: policy.team_ram)
  next
    case 5
    then obtain kind i a p where *: "s = SourceCustomRole" "k = rp_PermissionKey p"
      "scope_Key (cr_Resource req) = (kind, i)" "kind \<noteq> []" "i \<noteq> []" "rs_OrgID (cr_Resource req) \<noteq> []"
      "kind = ''worker'' \<or> \<not> (IsUser (cr_SubjectRef req) \<or> IsAgent (cr_SubjectRef req)) \<or>
         orgMember db (rs_OrgID (cr_Resource req)) (cr_SubjectRef req) \<noteq> None"
      "a \<in> set (db_assignments db)" "as_OrgID a = rs_OrgID (cr_Resource req)" "as_SubjectRef a = cr_SubjectRef req"
      "as_ResourceKind a = kind" "as_ResourceID a \<in> set (map TrimSpace (customAssignmentResourceIDs (cr_Resource req)))"
      "as_ResourceID a \<noteq> []" "as_RevokedAt a = None" "assignment_live now a"
      "p \<in> set (db_role_permissions db)" "rp_RoleID p = as_RoleID a" "rp_ResourceKind p = kind"
      unfolding custom_policy_def by blast
    show ?thesis unfolding *(1,2) by (rule policy.custom [OF *(3-)])
  qed
qed

lemma derive_policy:
  assumes "rs_Kind (cr_Resource req) \<noteq> ''file''" and "cr_SubjectRef req \<noteq> []"
    and "fst (deriveLegacyEffective reach db now req c) = (d, None)"
  shows "has (grants d) k s \<longleftrightarrow> policy db now req k s"
proof -
  let ?b = "bearer_step req empty_derivation"
  obtain d1 where d1: "fst (addLegacyEffective reach db req ?b c) = (d1, None)"
      "d = addCustomEffective db now req (addTeamRAMEffective db req d1)"
    using assms(3) unfolding deriveLegacyEffective_def shared_steps_def and_then_def
    by (auto split: prod.splits option.splits)
  show ?thesis
    unfolding d1(2) custom_has ram_has membership_part_has [OF assms(1,2) d1(1)] bearer_has policy_parts by blast
qed

end
