(* ===== verification/Authz_Properties.thy ===== *)
theory Authz_Properties
  imports Authz_Policy
begin

section \<open>Decisions\<close>

text \<open>
  The properties of the decision service: a decision is the policy, both derivations agree, and what the
  cache and the readiness check miss.
\<close>

subsection \<open>A request that reaches the derivation\<close>

definition asks :: "auth_db \<Rightarrow> check_request \<Rightarrow> resource_scope \<Rightarrow> bool" where
  "asks db req r \<longleftrightarrow>
     TrimSpace (cr_SubjectRef req) = cr_SubjectRef req \<and> subject_Validate (cr_SubjectRef req) = None \<and>
     cr_SubjectRef req \<noteq> ''system'' \<and> \<not> blank (cr_Permission req) \<and>
     (\<exists>den. resolveResource db (cr_Resource req) = (r, den, None))"

definition defined_at :: "check_request \<Rightarrow> resource_scope \<Rightarrow> bool" where
  "defined_at req r \<longleftrightarrow> cr_Permission req = ''*'' \<or> PermissionDefinedForResource (cr_Permission req) (rs_Kind r)"

abbreviation allowed :: "(explain_result \<times> auth_error option) \<times> auth_state \<Rightarrow> bool" where
  "allowed x \<equiv> ad_Allowed (er_Decision (fst (fst x)))"

lemma asks_subject: "asks db req r \<Longrightarrow> cr_SubjectRef req \<noteq> []"
  by (auto simp: asks_def subject_Validate_def HasPrefix_def split: if_splits)

definition answers :: "check_request \<Rightarrow> derivation \<Rightarrow> bool" where
  "answers req d \<longleftrightarrow> (\<exists>p \<in> set (dv_out d). ep_Key p = cr_Permission req \<or> cr_Permission req = ''*'')"

lemma find_answer:
  "find (\<lambda>p. ep_Key p = k \<or> k = ''*'') ps = None \<longleftrightarrow> \<not> (\<exists>p \<in> set ps. ep_Key p = k \<or> k = ''*'')"
  by (auto simp: find_None_iff)

lemma ResolveEffective_undefined:
  assumes "asks db req r" and "\<not> defined_at req r"
  shows "\<not> allowed (ResolveEffective_with reach mode db now req st)"
  using assms unfolding asks_def defined_at_def ResolveEffective_with_def Let_def by auto

lemma ResolveEffective_asked:
  assumes asks: "asks db req r" and "defined_at req r"
    and "deriveEffective reach mode db now (req\<lparr>cr_Resource := r\<rparr>) st = ((d, e), st1)"
  shows "allowed (ResolveEffective_with reach mode db now req st) \<longleftrightarrow> e = None \<and> answers req d"
    and "er_Effective (fst (fst (ResolveEffective_with reach mode db now req st))) = dv_out d"
    and "snd (fst (ResolveEffective_with reach mode db now req st)) = e"
    and "snd (ResolveEffective_with reach mode db now req st) = st1"
    and "allowed (ResolveEffective_with reach mode db now req st) \<Longrightarrow>
      \<exists>p \<in> set (dv_out d). (ep_Key p = cr_Permission req \<or> cr_Permission req = ''*'') \<and>
        ad_Source (er_Decision (fst (fst (ResolveEffective_with reach mode db now req st)))) = ep_Source p"
proof -
  obtain den where r: "resolveResource db (cr_Resource req) = (r, den, None)"
    using asks by (auto simp: asks_def)
  have subject: "req\<lparr>cr_SubjectRef := TrimSpace (cr_SubjectRef req)\<rparr> = req"
    using asks by (simp add: asks_def)
  have guards: "subject_Validate (cr_SubjectRef req) = None" "(cr_SubjectRef req = ''system'') = False"
      "blank (cr_Permission req) = False"
    using asks by (auto simp: asks_def)
  have perm: "(cr_Permission req \<noteq> ''*'' \<and> \<not> PermissionDefinedForResource (cr_Permission req) (rs_Kind r)) = False"
    using assms(2) by (auto simp: defined_at_def)
  have perm': "cr_Permission (req\<lparr>cr_Resource := r\<rparr>) = cr_Permission req" by simp
  define out where "out = ResolveEffective_with reach mode db now req st"
  have out: "out = (let decision = \<lparr>ad_Allowed = False, ad_SubjectRef = cr_SubjectRef req,
        ad_Permission = cr_Permission req, ad_Resource = r, ad_Source = SourceNone,
        ad_Reason = ''permission_denied'', ad_EvidenceRef = []\<rparr> in
      case e of
        Some e' \<Rightarrow> ((\<lparr>er_Decision = decision\<lparr>ad_Reason := ''derive_failed''\<rparr>, er_Effective = dv_out d,
            er_DeniedBy = dv_denied d @ [error_text e'], er_ResolvedOrg = rs_OrgID r\<rparr>, Some e'), st1)
      | None \<Rightarrow> (case find (\<lambda>p. ep_Key p = cr_Permission req \<or> cr_Permission req = ''*'') (dv_out d) of
          Some p \<Rightarrow> ((\<lparr>er_Decision = decision\<lparr>ad_Allowed := True, ad_Source := ep_Source p,
              ad_Reason := ''matched '' @ source_text (ep_Source p), ad_EvidenceRef := ep_EvidenceRef p\<rparr>,
              er_Effective = dv_out d, er_DeniedBy = dv_denied d, er_ResolvedOrg = rs_OrgID r\<rparr>, None), st1)
        | None \<Rightarrow> ((\<lparr>er_Decision = decision, er_Effective = dv_out d, er_DeniedBy = dv_denied d,
              er_ResolvedOrg = rs_OrgID r\<rparr>, None), st1)))"
    unfolding out_def ResolveEffective_with_def subject Let_def guards if_False option.case r prod.case perm perm' assms(3)
    by (simp split: option.split)
  consider (failed) e' where "e = Some e'" | (none) "e = None" "\<not> answers req d"
    | (some) p where "e = None" "find (\<lambda>p. ep_Key p = cr_Permission req \<or> cr_Permission req = ''*'') (dv_out d) = Some p"
    by (cases e; cases "find (\<lambda>p. ep_Key p = cr_Permission req \<or> cr_Permission req = ''*'') (dv_out d)")
      (auto simp: find_answer answers_def)
  then have "(allowed out \<longleftrightarrow> e = None \<and> answers req d) \<and> er_Effective (fst (fst out)) = dv_out d \<and> snd (fst out) = e \<and>
      snd out = st1 \<and> (allowed out \<longrightarrow> (\<exists>p \<in> set (dv_out d). (ep_Key p = cr_Permission req \<or> cr_Permission req = ''*'') \<and>
        ad_Source (er_Decision (fst (fst out))) = ep_Source p))"
  proof cases
    case (some p)
    then have "p \<in> set (dv_out d)" "ep_Key p = cr_Permission req \<or> cr_Permission req = ''*''"
      by (auto simp: find_Some_iff)
    with some show ?thesis by (auto simp: out answers_def)
  next
    case none
    then have "find (\<lambda>p. ep_Key p = cr_Permission req \<or> cr_Permission req = ''*'') (dv_out d) = None"
      by (simp add: find_answer answers_def)
    with none show ?thesis by (simp add: out)
  qed (simp add: out)
  then show "allowed (ResolveEffective_with reach mode db now req st) \<longleftrightarrow> e = None \<and> answers req d"
    and "er_Effective (fst (fst (ResolveEffective_with reach mode db now req st))) = dv_out d"
    and "snd (fst (ResolveEffective_with reach mode db now req st)) = e"
    and "snd (ResolveEffective_with reach mode db now req st) = st1"
    and "allowed (ResolveEffective_with reach mode db now req st) \<Longrightarrow>
      \<exists>p \<in> set (dv_out d). (ep_Key p = cr_Permission req \<or> cr_Permission req = ''*'') \<and>
        ad_Source (er_Decision (fst (fst (ResolveEffective_with reach mode db now req st)))) = ep_Source p"
    unfolding out_def by blast+
qed

subsection \<open>A miss derives, a hit repeats\<close>

lemma deriveEffective_miss:
  assumes "getCachedEffective (effectiveCacheKey req) (effectiveVersion db) st = None"
  shows "fst (deriveEffective reach mode db now req st) = fst (deriveEffectiveUncached reach mode db now req st)"
  using assms by (auto simp: deriveEffective_def Let_def split: prod.split option.split)

lemma deriveEffective_stores:
  assumes "deriveEffective reach mode db now req st = ((d, None), st1)"
  obtains entry where "getCachedEffective (effectiveCacheKey req) (effectiveVersion db) st1 = Some entry"
    and "ce_effective entry = dv_out d" and "ce_denied entry = dv_denied d"
proof (cases "getCachedEffective (effectiveCacheKey req) (effectiveVersion db) st")
  case (Some entry)
  with assms have "st1 = st" "d = \<lparr>dv_out = ce_effective entry, dv_denied = ce_denied entry\<rparr>"
    by (auto simp: deriveEffective_def Let_def)
  with Some show ?thesis by (intro that [of entry]) simp_all
next
  case None
  with assms have "\<exists>st0. st1 = putCachedEffective (effectiveCacheKey req) \<lparr>ce_version = effectiveVersion db,
      ce_effective = dv_out d, ce_denied = dv_denied d, ce_resolvedOrg = rs_OrgID (cr_Resource req)\<rparr> st0"
    by (auto simp: deriveEffective_def Let_def split: prod.splits option.splits)
  then obtain st0 where "st1 = putCachedEffective (effectiveCacheKey req) \<lparr>ce_version = effectiveVersion db,
      ce_effective = dv_out d, ce_denied = dv_denied d, ce_resolvedOrg = rs_OrgID (cr_Resource req)\<rparr> st0" by blast
  then show ?thesis
    by (intro that [of "\<lparr>ce_version = effectiveVersion db, ce_effective = dv_out d, ce_denied = dv_denied d,
          ce_resolvedOrg = rs_OrgID (cr_Resource req)\<rparr>"])
      (simp_all add: getCachedEffective_def putCachedEffective_def update_conv' cache_entry.defs)
qed

lemma deriveEffective_repeats:
  assumes "deriveEffective reach mode db now req st = ((d, None), st1)"
    and "effectiveCacheKey req' = effectiveCacheKey req" and "effectiveVersion db' = effectiveVersion db"
  shows "deriveEffective reach' mode' db' now' req' st1 = ((d, None), st1)"
proof -
  obtain entry where "getCachedEffective (effectiveCacheKey req) (effectiveVersion db) st1 = Some entry"
      "ce_effective entry = dv_out d" "ce_denied entry = dv_denied d"
    using deriveEffective_stores [OF assms(1)] by blast
  then show ?thesis by (simp add: deriveEffective_def Let_def assms(2,3))
qed

lemma legacy_keeps_state:
  assumes "rs_Kind (cr_Resource req) \<noteq> ''file''"
  shows "snd (deriveLegacyEffective reach db now req c) = c"
proof -
  have kind: "snd (legacy_kind_step reach db req d c) = c" for d
    using assms by (simp add: legacy_kind_step_def Let_def)
  have "snd (addLegacyEffective reach db req d c) = c" for d
    unfolding addLegacyEffective_def Let_def by (simp add: kind split: option.split sum.split)
  then show ?thesis by (simp add: deriveLegacyEffective_def split_beta)
qed

lemma uncached_grants:
  assumes "rs_Kind (cr_Resource req) \<noteq> ''file''" and "mode = EnforcementEnforce \<Longrightarrow> roles_seeded db"
  shows "grants (fst (fst (deriveEffectiveUncached reach mode db now req st))) =
      grants (fst (fst (deriveLegacyEffective reach db now req st)))"
    and "snd (fst (deriveEffectiveUncached reach mode db now req st)) = snd (fst (deriveLegacyEffective reach db now req st))"
proof -
  obtain l st1 where l: "deriveLegacyEffective reach db now req st = (l, st1)" by fastforce
  with legacy_keeps_state [OF assms(1), of reach db now st] have "st1 = st" by simp
  obtain q st2 where q: "deriveEquivalentEffective reach db now req st = (q, st2)" by fastforce
  have out: "fst (deriveEffectiveUncached reach mode db now req st) = (if mode = EnforcementEnforce then q else l)"
    using l q \<open>st1 = st\<close> by (auto simp: deriveEffectiveUncached_def)
  have same: "same_result l q" if "mode = EnforcementEnforce"
    using agree_derivations [OF assms(2) [OF that], of reach now req st] l q by (simp add: agree_def)
  show "grants (fst (fst (deriveEffectiveUncached reach mode db now req st))) =
      grants (fst (fst (deriveLegacyEffective reach db now req st)))"
    and "snd (fst (deriveEffectiveUncached reach mode db now req st)) = snd (fst (deriveLegacyEffective reach db now req st))"
    using same unfolding out l by (auto simp: same_result_def similar_def)
qed

lemma answers_has: "answers req d \<longleftrightarrow> (\<exists>k s. has (grants d) k s \<and> (k = cr_Permission req \<or> cr_Permission req = ''*''))"
  unfolding answers_def has_def grants_def grant_of_def by force

subsection \<open>Missing rows\<close>

text \<open>The rows that a derivation needs, so that it fails and denies when one of them is missing.\<close>

definition kind_row_missing :: "auth_db \<Rightarrow> gostring \<Rightarrow> gostring \<Rightarrow> bool" where
  "kind_row_missing db kind i \<longleftrightarrow>
     kind = ''task'' \<and> find_task db i = None \<or>
     kind \<in> {''issue'', ''plan''} \<and> (\<exists>e. parentProject db kind i = Err e) \<or>
     kind = ''agent'' \<and> find_agent db i = None \<or>
     kind = ''conversation'' \<and>
       (case find_conversation db i of
          None \<Rightarrow> True
        | Some c \<Rightarrow> cv_participants c = None \<or>
            (\<exists>k j e. pmOwnerRef (case cv_owner_ref c of None \<Rightarrow> [] | Some r \<Rightarrow> r) = Some (k, j) \<and> parentProject db k j = Err e))"

definition row_missing :: "auth_db \<Rightarrow> check_request \<Rightarrow> bool" where
  "row_missing db req \<longleftrightarrow>
     (let r = cr_Resource req in
      \<not> (rs_ID r = ''*'' \<and> cr_BearerScope req \<noteq> []) \<and>
      (if org_scoped r \<and> orgMember db (rs_OrgID r) (cr_SubjectRef req) \<noteq> None \<and> (\<exists>e. orgDisabled db (rs_OrgID r) = Err e)
       then True else entered db req \<and> kind_row_missing db (rs_Kind r) (rs_ID r)))"

lemma project_no_error [simp]:
  "snd (addProjectEffective db u p ad d) = None"
  by (simp add: addProjectEffective_def split: option.split)

lemma child_errors [simp]:
  "snd (addTaskEffective db u i ad d) = None \<longleftrightarrow> find_task db i \<noteq> None"
  "snd (addIssueEffective db u i ad d) = None \<longleftrightarrow> (\<exists>p. parentProject db ''issue'' i = Ok p)"
  "snd (addPlanEffective db u i ad d) = None \<longleftrightarrow> (\<exists>p. parentProject db ''plan'' i = Ok p)"
  by (auto simp: addTaskEffective_def addIssueEffective_def addPlanEffective_def split: option.split sum.split)

lemma participant_error [simp]: "snd (participant_step ps u c ad d) = None \<longleftrightarrow> ps \<noteq> None"
  by (simp add: participant_step_def split: option.split)

lemma and_then_error [simp]: "snd (and_then r f) = None \<longleftrightarrow> snd r = None \<and> snd (f (fst r)) = None"
  by (cases r) (simp add: and_then_def split: option.split)

lemma not_err: "(\<forall>e. x \<noteq> Inl e) \<longleftrightarrow> (\<exists>p. x = Inr p)"
  by (cases x) auto

lemma find_task_parent: "find_task db i = None \<longleftrightarrow> (\<exists>e. parentProject db ''task'' i = Err e)"
  by (simp add: parentProject_def split: option.split)

lemma pmOwnerRef_kind: "pmOwnerRef ref = Some (kind, i) \<Longrightarrow> kind = ''task'' \<or> kind = ''issue'' \<or> kind = ''plan''"
  by (auto simp: pmOwnerRef_def Let_def split: option.splits prod.splits if_splits)

lemma owned_error [simp]:
  "snd (addOwnedConversationEffective db u c ref ad d) = None \<longleftrightarrow>
     \<not> (\<exists>k j e. pmOwnerRef ref = Some (k, j) \<and> parentProject db k j = Err e)"
proof (cases "pmOwnerRef ref")
  case (Some x)
  then obtain kind i where x: "pmOwnerRef ref = Some (kind, i)" by (cases x) auto
  from pmOwnerRef_kind [OF x] x show ?thesis
    by (elim disjE) (simp_all add: addOwnedConversationEffective_def Let_def find_task_parent not_err)
qed (simp add: addOwnedConversationEffective_def)

lemma kind_error:
  assumes "rs_Kind (cr_Resource req) \<noteq> ''file''"
  shows "snd (fst (legacy_kind_step reach db req d c)) = None \<longleftrightarrow>
    \<not> kind_row_missing db (rs_Kind (cr_Resource req)) (rs_ID (cr_Resource req))"
proof -
  let ?kind = "rs_Kind (cr_Resource req)" and ?i = "rs_ID (cr_Resource req)"
  have team: "snd (addTeamEffective db u t add d) = None" for u t
    by (simp add: addTeamEffective_def split: list.split)
  have agent: "snd (addAgentEffective db req add d) = None \<longleftrightarrow> find_agent db ?i \<noteq> None"
    by (simp add: addAgentEffective_def Let_def split: option.split)
  have worker: "snd (addWorkerEffective req add d) = None"
    by (simp add: addWorkerEffective_def)
  have conversation: "snd (addConversationEffective db u ?i add d) = None \<longleftrightarrow>
      \<not> kind_row_missing db ''conversation'' ?i" for u
    by (simp add: addConversationEffective_def kind_row_missing_def split: option.split) blast
  consider "?kind = ''project''" | "?kind = ''task''" | "?kind = ''issue''" | "?kind = ''plan''" | "?kind = ''team''"
    | "?kind = ''conversation''" | "?kind = ''agent''" | "?kind = ''worker''" | "?kind = ''git''"
    | (other) "?kind \<notin> {''team'', ''project'', ''task'', ''issue'', ''plan'', ''conversation'', ''agent'', ''worker'', ''git''}"
    by blast
  then show ?thesis
  proof cases
    case 6
    with conversation show ?thesis by (simp add: legacy_kind_step_def)
  next
    case other
    with assms show ?thesis by (simp add: legacy_kind_step_def kind_row_missing_def)
  qed (simp_all add: legacy_kind_step_def kind_row_missing_def team agent worker not_err)
qed

lemma membership_error:
  assumes "rs_Kind (cr_Resource req) \<noteq> ''file''"
  shows "snd (fst (addLegacyEffective reach db req d c)) = None \<longleftrightarrow> \<not> row_missing db req"
proof -
  let ?r = "cr_Resource req" and ?u = "cr_SubjectRef req"
  note kind = kind_error [OF assms, of reach db _ c]
  show ?thesis
  proof (cases "rs_ID ?r = ''*'' \<and> cr_BearerScope req \<noteq> []")
    case True
    then show ?thesis by (simp add: addLegacyEffective_def Let_def row_missing_def)
  next
    case False
    then have guard: "(rs_ID ?r = ''*'' \<and> cr_BearerScope req \<noteq> []) = False" by simp
    consider "\<not> org_scoped ?r" | "org_scoped ?r" "orgMember db (rs_OrgID ?r) ?u = None"
      | m e where "org_scoped ?r" "orgMember db (rs_OrgID ?r) ?u = Some m" "orgDisabled db (rs_OrgID ?r) = Err e"
      | m b where "org_scoped ?r" "orgMember db (rs_OrgID ?r) ?u = Some m" "orgDisabled db (rs_OrgID ?r) = Ok b"
      by (cases "orgMember db (rs_OrgID ?r) ?u"; cases "orgDisabled db (rs_OrgID ?r)") auto
    then show ?thesis
      unfolding addLegacyEffective_def row_missing_def entered_def Let_def guard
      by cases (simp_all add: kind, blast?)
  qed
qed

lemma derive_error:
  assumes "rs_Kind (cr_Resource req) \<noteq> ''file''"
  shows "snd (fst (deriveLegacyEffective reach db now req c)) = None \<longleftrightarrow> \<not> row_missing db req"
  using membership_error [OF assms, of reach db "bearer_step req empty_derivation" c]
  by (simp add: deriveLegacyEffective_def shared_steps_def split_beta)

subsection \<open>The decision\<close>

lemma asked_policy:
  assumes "asks db req r" and "rs_Kind r \<noteq> ''file''"
    and "getCachedEffective (effectiveCacheKey (req\<lparr>cr_Resource := r\<rparr>)) (effectiveVersion db) st = None"
    and "mode = EnforcementEnforce \<Longrightarrow> roles_seeded db"
  shows "ad_Allowed (er_Decision (fst (fst (ResolveEffective mode db now req st)))) \<longleftrightarrow>
    defined_at req r \<and> \<not> row_missing db (req\<lparr>cr_Resource := r\<rparr>) \<and>
    (\<exists>k s. policy db now (req\<lparr>cr_Resource := r\<rparr>) k s \<and> (k = cr_Permission req \<or> cr_Permission req = ''*''))"
proof (cases "defined_at req r")
  case False
  with ResolveEffective_undefined [OF assms(1)] show ?thesis by (simp add: ResolveEffective_def)
next
  case True
  let ?req = "req\<lparr>cr_Resource := r\<rparr>" and ?reach = "fileRefReachable mode db now"
  have no_file: "rs_Kind (cr_Resource ?req) \<noteq> ''file''" and subject: "cr_SubjectRef ?req \<noteq> []"
    using assms(2) asks_subject [OF assms(1)] by simp_all
  obtain d e st1 where out: "deriveEffective ?reach mode db now ?req st = ((d, e), st1)"
    by (metis surj_pair)
  have x: "fst (deriveEffectiveUncached ?reach mode db now ?req st) = (d, e)"
    using deriveEffective_miss [OF assms(3), of ?reach mode now] out by simp
  have grants: "grants d = grants (fst (fst (deriveLegacyEffective ?reach db now ?req st)))"
    using uncached_grants(1) [where mode = mode and reach = ?reach and now = now and st = st, OF no_file assms(4)] by (simp only: x fst_conv)
  have err: "e = snd (fst (deriveLegacyEffective ?reach db now ?req st))"
    using uncached_grants(2) [where mode = mode and reach = ?reach and now = now and st = st, OF no_file assms(4)] by (simp only: x snd_conv)
  have error: "e = None \<longleftrightarrow> \<not> row_missing db ?req"
    using derive_error [OF no_file] err by simp
  have "answers req d \<longleftrightarrow> (\<exists>k s. policy db now ?req k s \<and> (k = cr_Permission req \<or> cr_Permission req = ''*''))"
    if none: "e = None"
  proof -
    obtain l where l: "fst (deriveLegacyEffective ?reach db now ?req st) = (l, None)"
      using none err by (cases "fst (deriveLegacyEffective ?reach db now ?req st)") simp
    show ?thesis unfolding answers_has grants l fst_conv derive_policy [OF no_file subject l] by simp
  qed
  with ResolveEffective_asked(1) [OF assms(1) True out] error True show ?thesis
    unfolding ResolveEffective_def by blast
qed

lemma trimmed_allowed:
  "allowed (ResolveEffective_with reach mode db now req st) \<longleftrightarrow>
   allowed (ResolveEffective_with reach mode db now (req\<lparr>cr_SubjectRef := TrimSpace (cr_SubjectRef req)\<rparr>) st)"
  by (simp add: ResolveEffective_with_def Let_def split: option.splits prod.splits)

lemma refused_early:
  assumes "subject_Validate (cr_SubjectRef (as_asked db req)) \<noteq> None \<or>
      cr_SubjectRef (as_asked db req) \<noteq> ''system'' \<and>
        (blank (cr_Permission req) \<or> snd (snd (resolveResource db (cr_Resource req))) \<noteq> None)"
  shows "\<not> allowed (ResolveEffective_with reach mode db now req st)"
  using assms by (auto simp: ResolveEffective_with_def as_asked_def Let_def split: option.splits prod.splits)

lemma system_allowed:
  assumes "subject_Validate (cr_SubjectRef (as_asked db req)) = None" "cr_SubjectRef (as_asked db req) = ''system''"
  shows "allowed (ResolveEffective_with reach mode db now req st)"
  using assms by (simp add: ResolveEffective_with_def as_asked_def Let_def)

text \<open>
  C8: A decision is the policy.  For every request whose resource is not a file, in every mode, when the
  service has not cached it: the service allows the request exactly when its trimmed subject is valid and
  either is the system, or the request names a permission, the resource is found, the permission is defined
  for the kind of the resource, no row that the derivation needs is missing, and the policy of the
  membership, role and assignment tables gives the subject that permission (any permission at all, when the
  request asks for the star).  In enforce mode this asks for role tables that hold the built-in roles.
\<close>

theorem decision_policy:
  assumes "rs_Kind (cr_Resource (as_asked db req)) \<noteq> ''file''"
    and "getCachedEffective (effectiveCacheKey (as_asked db req)) (effectiveVersion db) st = None"
    and "mode = EnforcementEnforce \<Longrightarrow> roles_seeded db"
  shows "ad_Allowed (er_Decision (fst (fst (ResolveEffective mode db now req st)))) \<longleftrightarrow>
    subject_Validate (cr_SubjectRef (as_asked db req)) = None \<and>
    (cr_SubjectRef (as_asked db req) = ''system'' \<or>
     \<not> blank (cr_Permission req) \<and> snd (snd (resolveResource db (cr_Resource req))) = None \<and>
     defined_at req (cr_Resource (as_asked db req)) \<and> \<not> row_missing db (as_asked db req) \<and>
     (\<exists>k s. policy db now (as_asked db req) k s \<and> (k = cr_Permission req \<or> cr_Permission req = ''*'')))"
    (is "?allowed \<longleftrightarrow> ?valid \<and> (?system \<or> ?named \<and> ?found \<and> ?rest)")
proof (cases "?valid \<and> \<not> ?system \<and> ?named \<and> ?found")
  case False
  then show ?thesis
    using refused_early [of db req] system_allowed [of db req] unfolding ResolveEffective_def by blast
next
  case True
  let ?req = "req\<lparr>cr_SubjectRef := TrimSpace (cr_SubjectRef req)\<rparr>" and ?r = "cr_Resource (as_asked db req)"
  have q: "?req\<lparr>cr_Resource := ?r\<rparr> = as_asked db req" by (simp add: as_asked_def)
  have asks: "asks db ?req ?r"
    using True by (simp add: asks_def as_asked_def prod_eq_iff)
  have "allowed (ResolveEffective mode db now ?req st) \<longleftrightarrow> defined_at ?req ?r \<and> \<not> row_missing db (?req\<lparr>cr_Resource := ?r\<rparr>) \<and>
      (\<exists>k s. policy db now (?req\<lparr>cr_Resource := ?r\<rparr>) k s \<and> (k = cr_Permission ?req \<or> cr_Permission ?req = ''*''))"
    by (rule asked_policy [OF asks]) (use assms in \<open>simp_all add: q\<close>)
  then have "?allowed \<longleftrightarrow> ?rest"
    using trimmed_allowed [of _ mode db now req st] unfolding q ResolveEffective_def by (simp add: defined_at_def)
  with True show ?thesis by blast
qed

subsection \<open>A concrete organization\<close>

text \<open>
  One organization with an owner, a member and an agent, one project with the member and the agent, a team
  with the agent, a conversation of the agent, and the role tables as the migrations fill them.
\<close>

definition seeded_permissions :: "role_permission list" where
  "seeded_permissions =
     concat (map (\<lambda>i. map (\<lambda>(k, kind). role_perm i k kind False) (builtin_seed i)) system_roles)"

definition system_role_row :: "gostring \<Rightarrow> role_row" where
  "system_role_row i = \<lparr>ro_ID = i, ro_OrgID = [], ro_Kind = ''system'', ro_Visibility = ''reusable'', ro_Name = i,
     ro_Description = [], ro_CreatedBy = ''system'', ro_CreatedAt = 1, ro_UpdatedAt = 1, ro_Version = 1, ro_RevokedAt = None\<rparr>"

definition demo_db :: auth_db where
  "demo_db =
     \<lparr>db_organizations = [\<lparr>og_id = ''o1'', og_disabled_at = None, og_deleted = False\<rparr>],
      db_members =
        [\<lparr>mb_id = ''m1'', mb_organization_id = ''o1'', mb_identity_id = ''ann'', mb_role = ''owner'', mb_status = ''joined''\<rparr>,
         \<lparr>mb_id = ''m2'', mb_organization_id = ''o1'', mb_identity_id = ''bob'', mb_role = ''member'', mb_status = ''joined''\<rparr>,
         \<lparr>mb_id = ''m3'', mb_organization_id = ''o1'', mb_identity_id = ''bot'', mb_role = ''member'', mb_status = ''joined''\<rparr>],
      db_projects = [(''p1'', ''o1''), (''p2'', ''o1'')],
      db_project_members =
        [\<lparr>pj_id = ''pm1'', pj_project_id = ''p1'', pj_identity_id = ''user:bob'', pj_role = ''member''\<rparr>],
      db_tasks = [\<lparr>tk_id = ''t1'', tk_project_id = ''p1'', tk_assignee = Some ''agent:m3'', tk_created_by = ''user:bob''\<rparr>],
      db_issues = [], db_plans = [],
      db_conversations = [\<lparr>cv_id = ''c1'', cv_organization_id = ''o1'', cv_owner_ref = None,
        cv_participants = Some [(''agent:m3'', [])]\<rparr>],
      db_agents = [\<lparr>ag_id = ''a1'', ag_organization_id = ''o1'', ag_worker_id = ''w1'', ag_identity_member_id = Some ''m3''\<rparr>],
      db_file_references = [],
      db_teams = [(''g1'', ''o1'')],
      db_team_members = [\<lparr>tm_team_id = ''g1'', tm_member_ref = ''agent:m3'', tm_role = ''dev'', tm_created_at = 1\<rparr>],
      db_team_projects = [], db_role_mappings = [], db_role_mapping_versions = [], db_curators = [],
      db_roles = map system_role_row system_roles, db_role_permissions = seeded_permissions, db_assignments = []\<rparr>"

definition demo_request :: "subject_ref \<Rightarrow> permission_key \<Rightarrow> gostring \<Rightarrow> gostring \<Rightarrow> check_request" where
  "demo_request u p kind i =
     \<lparr>cr_SubjectRef = u, cr_Transport = ''web'', cr_BearerScope = [], cr_Permission = p,
      cr_Resource = empty_resource\<lparr>rs_Kind := kind, rs_ID := i\<rparr>\<rparr>"

lemma seeded_permissions_seed:
  assumes "db_role_permissions db = seeded_permissions"
  shows "roles_seeded db"
proof -
  have "set (rolePermissions db i) = (\<lambda>(k, kind). role_perm i k kind False) ` set (builtin_seed i)"
    if "i \<in> set system_roles" for i
    using that by (auto simp: set_rolePermissions assms seeded_permissions_def role_perm_def)
  then show ?thesis
    unfolding roles_seeded_def list_all_iff set_map
    by (auto simp: image_image role_perm_def split_beta)
qed

lemma demo_seeded: "roles_seeded demo_db"
  by (rule seeded_permissions_seed) (simp add: demo_db_def)

text \<open>A request of the member for the project, before any other.\<close>

theorem decision_policy_witness:
  "ad_Allowed (er_Decision (fst (fst (ResolveEffective EnforcementEnforce demo_db 0
     (demo_request ''user:bob'' ''project.read'' ''project'' ''p1'') empty_auth_state))))"
proof -
  let ?r = "empty_resource\<lparr>rs_Kind := ''project'', rs_ID := ''p1'', rs_OrgID := ''o1''\<rparr>"
    and ?q = "demo_request ''user:bob'' ''project.read'' ''project'' ''p1''"
  have subject: "TrimSpace ''user:bob'' = ''user:bob''" "subject_Validate ''user:bob'' = None"
    "\<not> blank ''project.read''" by code_simp+
  have resolved: "resolveResource demo_db (cr_Resource ?q) = (?r, [], None)"
    by code_simp
  have asked: "as_asked demo_db ?q = ?q\<lparr>cr_Resource := ?r\<rparr>"
    using resolved by (simp add: as_asked_def subject demo_request_def)
  have member: "projectMember demo_db ''p1'' ''user:bob'' = Some \<lparr>mr_ID = ''pm1'', mr_Role = ''member'', mr_EvidenceRef = ''pm_project_members:pm1''\<rparr>"
    by (simp add: projectMember_def demo_db_def IsUser_def HasPrefix_def)
  have enabled: "orgDisabled demo_db ''o1'' = Ok False"
    by (simp add: orgDisabled_def demo_db_def)
  have entered: "entered demo_db (?q\<lparr>cr_Resource := ?r\<rparr>)"
    by (simp add: entered_def demo_request_def enabled empty_resource_def)
  have "kind_policy demo_db (?q\<lparr>cr_Resource := ?r\<rparr>) ''project.read'' SourceProjectMember"
    by (rule kind_policy.project [where m = "\<lparr>mr_ID = ''pm1'', mr_Role = ''member'', mr_EvidenceRef = ''pm_project_members:pm1''\<rparr>"])
      (simp_all add: demo_request_def member empty_resource_def project_grants_def)
  then have "policy demo_db 0 (?q\<lparr>cr_Resource := ?r\<rparr>) ''project.read'' SourceProjectMember"
    by (rule policy.membership [OF entered])
  moreover have "\<not> row_missing demo_db (?q\<lparr>cr_Resource := ?r\<rparr>)"
    by (simp add: row_missing_def kind_row_missing_def demo_request_def empty_resource_def enabled)
  moreover have "defined_at ?q ?r"
    by (simp add: defined_at_def demo_request_def empty_resource_def PermissionDefinedForResource_def Definition_def
      permission_definitions_def def_permission_def subject(2) TrimSpace_def) code_simp?
  moreover have "snd (snd (resolveResource demo_db (cr_Resource ?q))) = None" using resolved by simp
  moreover have "rs_Kind ?r \<noteq> ''file''" "getCachedEffective k v empty_auth_state = None" for k v
    by (simp_all add: getCachedEffective_def empty_auth_state_def empty_resource_def)
  ultimately show ?thesis
    using decision_policy [where db = demo_db and req = ?q and mode = EnforcementEnforce and now = 0 and st = empty_auth_state,
        unfolded asked] demo_seeded subject
    by (auto simp: demo_request_def)
qed

subsection \<open>Both derivations\<close>

text \<open>
  C9: Enforce mode decides as the membership tables do.  When the rows of the built-in roles are those that
  the readiness check and the code name, the derivation from the role tables makes the same
  grants as the legacy one, with the same sources, evidence, denials and errors and the same use
  of the cache, on every request of every subject; the shadow comparison then never reports a mismatch.
\<close>

theorem enforce_matches_legacy:
  assumes "roles_seeded db"
  shows "grants (fst (fst (deriveEquivalentEffective reach db now req c))) = grants (fst (fst (deriveLegacyEffective reach db now req c))) \<and>
    dv_denied (fst (fst (deriveEquivalentEffective reach db now req c))) = dv_denied (fst (fst (deriveLegacyEffective reach db now req c))) \<and>
    snd (fst (deriveEquivalentEffective reach db now req c)) = snd (fst (deriveLegacyEffective reach db now req c)) \<and>
    snd (deriveEquivalentEffective reach db now req c) = snd (deriveLegacyEffective reach db now req c) \<and>
    \<not> sc_Mismatch (compareEffective req (dv_out (fst (fst (deriveLegacyEffective reach db now req c))))
        (dv_out (fst (fst (deriveEquivalentEffective reach db now req c)))))"
proof -
  have same: "same_result (fst (deriveLegacyEffective reach db now req c)) (fst (deriveEquivalentEffective reach db now req c))"
    and state: "snd (deriveLegacyEffective reach db now req c) = snd (deriveEquivalentEffective reach db now req c)"
    using agree_derivations [OF assms, of reach now req c] by (simp_all add: agree_def)
  then have "ep_Key ` set (dv_out (fst (fst (deriveLegacyEffective reach db now req c)))) =
      ep_Key ` set (dv_out (fst (fst (deriveEquivalentEffective reach db now req c))))"
    by (simp add: keys_of_grants same_result_def similar_def)
  from compare_same [OF this] same state show ?thesis by (simp add: same_result_def similar_def)
qed

theorem enforce_matches_legacy_witness:
  "\<not> sc_Mismatch (compareEffective (demo_request ''agent:m3'' ''team.git.read'' ''team'' ''g1'')
     (dv_out (fst (fst (deriveLegacyEffective reach_nothing demo_db 0
        (demo_request ''agent:m3'' ''team.git.read'' ''team'' ''g1'') empty_auth_state))))
     (dv_out (fst (fst (deriveEquivalentEffective reach_nothing demo_db 0
        (demo_request ''agent:m3'' ''team.git.read'' ''team'' ''g1'') empty_auth_state)))))"
  using enforce_matches_legacy [OF demo_seeded, where reach = reach_nothing and now = 0 and c = empty_auth_state
      and req = "demo_request ''agent:m3'' ''team.git.read'' ''team'' ''g1''"] by blast

subsection \<open>What the cache repeats\<close>

lemma repeated_answer:
  assumes "asks db req r" and "defined_at req r" and "snd (fst (ResolveEffective mode db now req st)) = None"
    and "asks db' req' r'" and "cr_Permission req' = cr_Permission req" and "rs_Kind r' = rs_Kind r"
    and key: "effectiveCacheKey (req'\<lparr>cr_Resource := r'\<rparr>) = effectiveCacheKey (req\<lparr>cr_Resource := r\<rparr>)"
    and version: "effectiveVersion db' = effectiveVersion db"
  shows "allowed (ResolveEffective mode' db' now' req' (snd (ResolveEffective mode db now req st))) =
      allowed (ResolveEffective mode db now req st) \<and>
    er_Effective (fst (fst (ResolveEffective mode' db' now' req' (snd (ResolveEffective mode db now req st))))) =
      er_Effective (fst (fst (ResolveEffective mode db now req st)))"
proof -
  have defined': "defined_at req' r'" using assms(2,5,6) by (simp add: defined_at_def)
  obtain d e st1 where first: "deriveEffective (fileRefReachable mode db now) mode db now (req\<lparr>cr_Resource := r\<rparr>) st = ((d, e), st1)"
    by (metis surj_pair)
  note one = ResolveEffective_asked [OF assms(1,2) first, folded ResolveEffective_def]
  from one(3) assms(3) have "e = None" by (simp add: ResolveEffective_def)
  from deriveEffective_repeats [OF first [unfolded this] key version]
  have second: "deriveEffective (fileRefReachable mode' db' now') mode' db' now' (req'\<lparr>cr_Resource := r'\<rparr>) st1 = ((d, None), st1)" .
  note two = ResolveEffective_asked [OF assms(4) defined' second]
  show ?thesis
    using one two \<open>e = None\<close> assms(5) unfolding ResolveEffective_def by (simp add: answers_def)
qed

lemma key_ignores_refs: "effectiveCacheKey (req\<lparr>cr_Resource := r\<lparr>rs_Refs := refs\<rparr>\<rparr>) = effectiveCacheKey (req\<lparr>cr_Resource := r\<rparr>)"
  by (simp add: effectiveCacheKey_def)

text \<open>
  C40: A removed member keeps what it had.  The version that guards the cache does not cover the tables of members and of
  project members.  So once a request has been answered, then whatever rows those two tables hold later, and at
  whatever later time, the same request gets the same permissions and the same decision, until an
  assignment, a role or a team table changes.
\<close>

theorem removed_member_keeps_access:
  assumes "asks db req r" and "defined_at req r" and "snd (fst (ResolveEffective mode db now req st)) = None"
  shows "ad_Allowed (er_Decision (fst (fst (ResolveEffective mode (db\<lparr>db_members := ms, db_project_members := pms\<rparr>) later req
      (snd (ResolveEffective mode db now req st)))))) =
      ad_Allowed (er_Decision (fst (fst (ResolveEffective mode db now req st)))) \<and>
    er_Effective (fst (fst (ResolveEffective mode (db\<lparr>db_members := ms, db_project_members := pms\<rparr>) later req
      (snd (ResolveEffective mode db now req st))))) = er_Effective (fst (fst (ResolveEffective mode db now req st)))"
proof -
  let ?db = "db\<lparr>db_members := ms, db_project_members := pms\<rparr>"
  have "resolveResource ?db x = resolveResource db x" for x
    by (simp add: resolveResource_def resolve_org_def resolve_wildcard_def resolve_child_def resolve_conversation_def
        ensureOrg_def projectOrg_def teamOrg_def parentProject_def find_task_def conversationScope_def
        find_conversation_def agentOrg_def find_agent_def Let_def cong: if_cong option.case_cong sum.case_cong)
  then have "asks ?db req r" using assms(1) by (simp add: asks_def)
  moreover have "effectiveVersion ?db = effectiveVersion db" by (simp add: effectiveVersion_def)
  ultimately show ?thesis using repeated_answer [OF assms, of ?db req r mode later] by simp
qed

lemma check_org_kind: "(\<And>x. rs_Kind (f x) = rs_Kind x) \<Longrightarrow> rs_Kind (fst (check_org r w o' f)) = rs_Kind r"
  by (simp add: check_org_def)

lemma resolve_wildcard_kind: "rs_Kind (fst (resolve_wildcard db r)) = rs_Kind r"
  by (simp add: resolve_wildcard_def split: option.split)

lemma resolve_kind: "rs_Kind (fst (resolveResource db x)) = TrimSpace (rs_Kind x)"
proof -
  have trim: "rs_Kind (trim_resource x) = TrimSpace (rs_Kind x)" by (simp add: trim_resource_def)
  have org: "rs_Kind (fst (resolve_org db r)) = rs_Kind r" for r
    by (simp add: resolve_org_def Let_def split: option.split)
  have child: "rs_Kind (fst (resolve_child db r)) = rs_Kind r" for r
    by (simp add: resolve_child_def Let_def resolve_wildcard_kind check_org_kind split: option.split sum.split)
  have conversation: "rs_Kind (fst (resolve_conversation db r)) = rs_Kind r" for r
    by (simp add: resolve_conversation_def check_org_kind split: sum.split prod.split)
  show ?thesis
    unfolding resolveResource_def Let_def
    by (simp add: trim org child conversation resolve_wildcard_kind check_org_kind split: sum.split prod.split)
qed

lemma resolve_file:
  assumes "TrimSpace (rs_Kind x) = ''file''"
  shows "resolveResource db x =
    (let r = trim_resource x; r = (if rs_URI r = [] then r\<lparr>rs_URI := rs_ID r\<rparr> else r) in
     if rs_URI r = [] \<and> rs_Refs r = [] then (r, [''file uri required''], Some ErrAuthInvalid) else (r, [], None))"
  using assms by (simp add: resolveResource_def trim_resource_def Let_def)

text \<open>
  One placement answers for all.  The cache key leaves out the placements of a file.  Two requests about a
  file that differ in nothing but their placements, so in particular two uploads that have no URI yet, share
  one entry: once the first has been answered, the second gets its decision, though it asks about another
  conversation, project or task.
\<close>

theorem placements_share_decision:
  assumes "asks db req r" and "rs_Kind r = ''file''" and "refs \<noteq> []"
    and "snd (fst (ResolveEffective mode db now req st)) = None" and "defined_at req r"
  shows "ad_Allowed (er_Decision (fst (fst (ResolveEffective mode db later
      (req\<lparr>cr_Resource := (cr_Resource req)\<lparr>rs_Refs := refs\<rparr>\<rparr>) (snd (ResolveEffective mode db now req st)))))) =
    ad_Allowed (er_Decision (fst (fst (ResolveEffective mode db now req st))))"
proof -
  let ?q = "req\<lparr>cr_Resource := (cr_Resource req)\<lparr>rs_Refs := refs\<rparr>\<rparr>"
  obtain den where r: "resolveResource db (cr_Resource req) = (r, den, None)" using assms(1) by (auto simp: asks_def)
  with resolve_kind [of db "cr_Resource req"] assms(2) have "TrimSpace (rs_Kind (cr_Resource req)) = ''file''" by simp
  then have "resolveResource db (cr_Resource ?q) = (r\<lparr>rs_Refs := refs\<rparr>, [], None)"
    using r assms(3) by (auto simp: resolve_file Let_def trim_resource_def split: if_splits)
  then have "asks db ?q (r\<lparr>rs_Refs := refs\<rparr>)" using assms(1) by (simp add: asks_def)
  from repeated_answer [OF assms(1,5,4) this, of mode later] show ?thesis
    by (simp add: effectiveCacheKey_def)
qed

text \<open>
  The agent uploads to its own conversation and then to a project where it is nobody.
\<close>

definition small_db :: auth_db where
  "small_db = demo_db\<lparr>db_roles := [], db_role_permissions := []\<rparr>"

definition upload_request :: "file_ref list \<Rightarrow> check_request" where
  "upload_request refs =
     \<lparr>cr_SubjectRef = ''agent:m3'', cr_Transport = ''mcp'', cr_BearerScope = [], cr_Permission = ''file.upload'',
      cr_Resource = empty_resource\<lparr>rs_Kind := ''file'', rs_OrgID := ''o1'', rs_OwnerRef := ''a1'',
        rs_IdentityMemberID := ''m3'', rs_Refs := refs\<rparr>\<rparr>"

lemma own_upload:
  "ad_Allowed (er_Decision (fst (fst (ResolveEffective EnforcementLegacy small_db 0
     (upload_request [\<lparr>fr_Scope = ''conversation'', fr_ScopeID = ''c1''\<rparr>]) empty_auth_state))))"
  by code_simp

definition conversation_upload :: check_request where
  "conversation_upload = upload_request [\<lparr>fr_Scope = ''conversation'', fr_ScopeID = ''c1''\<rparr>]"

definition project_upload :: check_request where
  "project_upload = upload_request [\<lparr>fr_Scope = ''project'', fr_ScopeID = ''p1''\<rparr>]"

theorem placements_share_decision_witness:
  "ad_Allowed (er_Decision (fst (fst (ResolveEffective EnforcementLegacy small_db 5 project_upload
     (snd (ResolveEffective EnforcementLegacy small_db 0 conversation_upload empty_auth_state)))))) \<and>
   \<not> ad_Allowed (er_Decision (fst (fst (ResolveEffective EnforcementLegacy small_db 5 project_upload empty_auth_state))))"
proof -
  let ?r = "cr_Resource conversation_upload"
  have "resolveResource small_db ?r = (?r, [], None)" by code_simp
  moreover have "TrimSpace (cr_SubjectRef conversation_upload) = cr_SubjectRef conversation_upload"
    "subject_Validate (cr_SubjectRef conversation_upload) = None"
    "\<not> blank (cr_Permission conversation_upload)" "cr_SubjectRef conversation_upload \<noteq> ''system''" by code_simp+
  ultimately have asks: "asks small_db conversation_upload ?r" by (simp add: asks_def)
  have answered: "snd (fst (ResolveEffective EnforcementLegacy small_db 0 conversation_upload empty_auth_state)) = None"
    by code_simp
  have "defined_at conversation_upload ?r" unfolding defined_at_def by code_simp
  from placements_share_decision [OF asks _ _ answered this, of "[\<lparr>fr_Scope = ''project'', fr_ScopeID = ''p1''\<rparr>]" 5]
  have "ad_Allowed (er_Decision (fst (fst (ResolveEffective EnforcementLegacy small_db 5 project_upload
     (snd (ResolveEffective EnforcementLegacy small_db 0 conversation_upload empty_auth_state))))))"
    using own_upload by (simp add: conversation_upload_def project_upload_def upload_request_def empty_resource_def)
  moreover have "\<not> ad_Allowed (er_Decision (fst (fst (ResolveEffective EnforcementLegacy small_db 5 project_upload empty_auth_state))))"
    by code_simp
  ultimately show ?thesis by blast
qed

theorem removed_member_keeps_access_witness:
  "ad_Allowed (er_Decision (fst (fst (ResolveEffective EnforcementLegacy (small_db\<lparr>db_members := [], db_project_members := []\<rparr>) 7
     (demo_request ''user:bob'' ''project.write'' ''project'' ''p1'')
     (snd (ResolveEffective EnforcementLegacy small_db 0 (demo_request ''user:bob'' ''project.write'' ''project'' ''p1'')
        empty_auth_state)))))) \<and>
   \<not> ad_Allowed (er_Decision (fst (fst (ResolveEffective EnforcementLegacy (small_db\<lparr>db_members := [], db_project_members := []\<rparr>) 7
     (demo_request ''user:bob'' ''project.write'' ''project'' ''p1'') empty_auth_state))))"
proof -
  let ?q = "demo_request ''user:bob'' ''project.write'' ''project'' ''p1''"
    and ?r = "empty_resource\<lparr>rs_Kind := ''project'', rs_ID := ''p1'', rs_OrgID := ''o1''\<rparr>"
  have "resolveResource small_db (cr_Resource ?q) = (?r, [], None)" by code_simp
  moreover have "TrimSpace (cr_SubjectRef ?q) = cr_SubjectRef ?q" "subject_Validate (cr_SubjectRef ?q) = None"
    "\<not> blank (cr_Permission ?q)" "cr_SubjectRef ?q \<noteq> ''system''" by code_simp+
  ultimately have asks: "asks small_db ?q ?r" by (simp add: asks_def)
  have answered: "snd (fst (ResolveEffective EnforcementLegacy small_db 0 ?q empty_auth_state)) = None"
    "ad_Allowed (er_Decision (fst (fst (ResolveEffective EnforcementLegacy small_db 0 ?q empty_auth_state))))"
    by code_simp+
  have "defined_at ?q ?r" unfolding defined_at_def by code_simp
  from removed_member_keeps_access [OF asks this answered(1), of "[]" "[]" 7] answered(2)
  have "ad_Allowed (er_Decision (fst (fst (ResolveEffective EnforcementLegacy (small_db\<lparr>db_members := [], db_project_members := []\<rparr>) 7
      ?q (snd (ResolveEffective EnforcementLegacy small_db 0 ?q empty_auth_state))))))" by simp
  moreover have "\<not> ad_Allowed (er_Decision (fst (fst (ResolveEffective EnforcementLegacy
      (small_db\<lparr>db_members := [], db_project_members := []\<rparr>) 7 ?q empty_auth_state))))"
    by code_simp
  ultimately show ?thesis by blast
qed

subsection \<open>What the readiness check misses\<close>

definition drop_team_member_rows :: "auth_db \<Rightarrow> auth_db" where
  "drop_team_member_rows db =
     db\<lparr>db_role_permissions := filter (\<lambda>p. rp_RoleID p \<noteq> ''sys-team-member'') (db_role_permissions db)\<rparr>"

lemma dropped_roles:
  "getRole (drop_team_member_rows db) i = getRole db i"
  "i \<noteq> ''sys-team-member'' \<Longrightarrow> rolePermissions (drop_team_member_rows db) i = rolePermissions db i"
  "rolePermissions (drop_team_member_rows db) ''sys-team-member'' = []"
  "team_roles (drop_team_member_rows db) t u = team_roles db t u"
proof -
  show "getRole (drop_team_member_rows db) i = getRole db i"
    "team_roles (drop_team_member_rows db) t u = team_roles db t u"
    by (simp_all add: getRole_def drop_team_member_rows_def team_roles_def)
  show "rolePermissions (drop_team_member_rows db) ''sys-team-member'' = []"
    by (simp add: rolePermissions_def drop_team_member_rows_def filter_empty_conv)
  assume "i \<noteq> ''sys-team-member''"
  then have "(\<lambda>p :: role_permission. rp_RoleID p \<noteq> ''sys-team-member'' \<and> rp_RoleID p = i) = (\<lambda>p. rp_RoleID p = i)"
    by auto
  then show "rolePermissions (drop_team_member_rows db) i = rolePermissions db i"
    by (simp add: rolePermissions_def drop_team_member_rows_def)
qed

lemma team_member_not_required: "readinessSystemRolePermissions ''sys-team-member'' = []"
  by code_simp

lemma demo_ready: "requireSystemRolesReady demo_db = None"
proof -
  have "list_all (\<lambda>i. case getRole demo_db i of Err _ \<Rightarrow> False | Ok role \<Rightarrow> ro_Kind role = ''system'') system_roles"
    by code_simp
  moreover have "list_all (\<lambda>w. list_ex (\<lambda>p. rp_PermissionKey p = rp_PermissionKey w \<and> rp_ResourceKind p = rp_ResourceKind w)
      (rolePermissions demo_db i)) (readinessSystemRolePermissions i)" if "i \<in> set system_roles" for i
  proof (cases "i = ''sys-team-member''")
    case False
    have "(\<lambda>p. (rp_PermissionKey p, rp_ResourceKind p)) ` set (rolePermissions demo_db i) =
        (\<lambda>p. (rp_PermissionKey p, rp_ResourceKind p)) ` set (readinessSystemRolePermissions i)"
      using demo_seeded that False by (simp add: roles_seeded_def builtin_seed_def list_all_iff)
    then have "(rp_PermissionKey w, rp_ResourceKind w) \<in> (\<lambda>p. (rp_PermissionKey p, rp_ResourceKind p)) ` set (rolePermissions demo_db i)"
      if "w \<in> set (readinessSystemRolePermissions i)" for w
      using that by (simp only:) blast
    then show ?thesis unfolding list_all_iff list_ex_iff by fastforce
  qed (simp add: team_member_not_required)
  ultimately show ?thesis
    by (auto simp: requireSystemRolesReady_def list_all_iff system_role_ready_def split: sum.splits)
qed

text \<open>
  The readiness check misses team members.  It lists the role of team members but asks for none of its rows, so
  it passes or fails alike when they are all gone.  An agent that is in a team then has the four
  permissions of its team from the membership tables, and in enforce mode its team gives it nothing but what a curator has.
\<close>

theorem readiness_misses_team_members:
  assumes "IsAgent u" and "team_roles db t u \<noteq> []"
  shows "requireSystemRolesReady (drop_team_member_rows db) = requireSystemRolesReady db \<and>
    addTeamEquivalent (drop_team_member_rows db) u t add d = (curator_step (drop_team_member_rows db) u t add d, None) \<and>
    {''team.memory.read'', ''team.memory.propose'', ''team.git.read'', ''team.git.write''}
      \<subseteq> ep_Key ` set (dv_out (fst (addTeamEffective (drop_team_member_rows db) u t add d)))"
proof -
  obtain role roles where roles: "team_roles db t u = role # roles" using assms(2) by (cases "team_roles db t u") auto
  have ready: "system_role_ready (drop_team_member_rows db) i \<longleftrightarrow> system_role_ready db i" for i
    by (cases "i = ''sys-team-member''")
      (simp_all add: system_role_ready_def dropped_roles team_member_not_required split: sum.split)
  have none: "expandBuiltinRole (drop_team_member_rows db) ''sys-team-member'' s e k add d = d" for s e k d
    by (simp add: expandBuiltinRole_def dropped_roles(3) add_all_def)
  have all: "fold (\<lambda>role. expandBuiltinRole (drop_team_member_rows db) ''sys-team-member'' s (ev role) k add) rs d = d" for s ev k rs d
    by (induction rs arbitrary: d) (simp_all add: none)
  have "addTeamEquivalent (drop_team_member_rows db) u t add d = (curator_step (drop_team_member_rows db) u t add d, None)"
    using assms(1) unfolding addTeamEquivalent_def dropped_roles(4) roles list.case all by simp
  moreover have "fst ` set team_agent_grants \<subseteq> fst ` grants (fst (addTeamEffective (drop_team_member_rows db) u t add d))"
    using assms(1) unfolding addTeamEffective_def dropped_roles(4) roles list.case
    by (simp add: plain.curator_grants plain.fold_roles_grants plain.add_all_grants keys_img_def team_agent_grants_def named_def)
  then have "{''team.memory.read'', ''team.memory.propose'', ''team.git.read'', ''team.git.write''}
      \<subseteq> ep_Key ` set (dv_out (fst (addTeamEffective (drop_team_member_rows db) u t add d)))"
    unfolding keys_of_grants by (simp add: team_agent_grants_def)
  moreover have "system_role_ready (drop_team_member_rows db) = system_role_ready db" by (rule ext) (rule ready)
  ultimately show ?thesis by (simp add: requireSystemRolesReady_def)
qed

theorem readiness_misses_team_members_witness:
  "requireSystemRolesReady (drop_team_member_rows demo_db) = None \<and>
   addTeamEquivalent (drop_team_member_rows demo_db) ''agent:m3'' ''g1'' add empty_derivation = (empty_derivation, None) \<and>
   ''team.git.write'' \<in> ep_Key ` set (dv_out (fst (addTeamEffective (drop_team_member_rows demo_db) ''agent:m3'' ''g1'' add empty_derivation)))"
proof -
  have "IsAgent ''agent:m3''" "team_roles demo_db ''g1'' ''agent:m3'' \<noteq> []"
    by (simp_all add: IsAgent_def HasPrefix_def team_roles_def demo_db_def)
  from readiness_misses_team_members [OF this, of empty_derivation] demo_ready show ?thesis
    by (simp add: curator_step_def drop_team_member_rows_def demo_db_def)
qed

end
