(* ===== verification/Authz_Batch.thy ===== *)
theory Authz_Batch
  imports Authz_Resolve
begin

section \<open>Changing roles and assignments (authorization/service.go, store.go)\<close>

text \<open>
  A batch is a list of operations that run in one transaction.  The database is the value that the
  transaction works on, and an error throws it away; the cache of decisions is not part of the
  transaction and keeps what its checks have put in.  The environment holds the mode, the clock with
  its text for the rows, and the hashes, which are parameters: \<open>shortHash\<close> and the 16 digits of a managed role's id are prefixes of a SHA-256.
  The generated ids and the payloads of audit rows, and the rows of the observability sink, are left out.
\<close>

record auth_env =
  en_mode :: enforcement_mode
  en_now :: time
  en_ts :: gostring
  en_shortHash :: "gostring \<Rightarrow> gostring"
  en_roleHash :: "gostring \<Rightarrow> gostring"

record audit_row =
  au_EventType :: gostring
  au_ActorRef :: subject_ref
  au_SubjectRef :: subject_ref
  au_PermissionKey :: permission_key
  au_RoleID :: gostring
  au_AssignmentID :: gostring
  au_ResourceKind :: gostring
  au_ResourceID :: gostring
  au_RequestID :: gostring
  au_CreatedAt :: time

record tx_db =
  tx_db :: auth_db
  tx_audit :: "audit_row list"

record role_permission_input =
  ri_PermissionKey :: permission_key
  ri_ResourceKind :: gostring
  ri_Delegatable :: bool

record revoke_input =
  rv_AssignmentID :: gostring
  rv_SubjectRef :: subject_ref
  rv_RoleID :: gostring
  rv_Resource :: resource_scope
  rv_Reason :: gostring
  rv_Message :: gostring
  rv_ExpectedVersion :: int

record op_result =
  op_ID :: gostring
  op_Type :: gostring
  op_Status :: gostring
  op_RoleID :: gostring
  op_AssignmentID :: gostring
  op_Reason :: gostring

subsection \<open>Roles (store.go)\<close>

definition normalizeRoleKindVisibility :: "gostring \<Rightarrow> gostring \<Rightarrow> auth_error + gostring \<times> gostring" where
  "normalizeRoleKindVisibility kind0 visibility0 =
     (let kind = (if TrimSpace kind0 = [] then ''custom'' else TrimSpace kind0);
          visibility = (if TrimSpace visibility0 = [] then (if kind = ''managed'' then ''internal'' else ''reusable'')
                        else TrimSpace visibility0)
      in if kind = ''system'' \<or> kind = ''custom'' then
           (if visibility \<noteq> ''reusable'' then Err ErrAuthInvalid else Ok (kind, visibility))
         else if kind = ''managed'' then
           (if visibility \<noteq> ''internal'' then Err ErrAuthInvalid else Ok (kind, visibility))
         else Err ErrAuthInvalid)"

definition findCustomRoleByName :: "auth_db \<Rightarrow> gostring \<Rightarrow> gostring \<Rightarrow> auth_error + role_row" where
  "findCustomRoleByName db orgID name =
     scanRole (find (\<lambda>r. ro_OrgID r = TrimSpace orgID \<and> ro_Name r = TrimSpace name \<and> ro_Kind r = ''custom'' \<and>
                         role_visibility r = ''reusable'' \<and> ro_RevokedAt r = None) (db_roles db))"

text \<open>
  The partial unique index on the names of the reusable custom roles of an organization, and the check on
  reserved names, whose LIKE ignores the case of ASCII letters.  Stable keys and their index are left out.
\<close>

definition role_name_taken :: "auth_db \<Rightarrow> gostring \<Rightarrow> gostring \<Rightarrow> gostring \<Rightarrow> bool" where
  "role_name_taken db roleID orgID name \<longleftrightarrow>
     list_ex (\<lambda>r. ro_ID r \<noteq> roleID \<and> ro_OrgID r = orgID \<and> ro_Name r = name \<and> ro_Kind r = ''custom'' \<and>
                  ro_Visibility r = ''reusable'' \<and> ro_RevokedAt r = None) (db_roles db)"

definition lower_ascii :: "char \<Rightarrow> char" where
  "lower_ascii c = (if 65 \<le> byte c \<and> byte c \<le> 90 then char_of (byte c + 32) else c)"

definition name_reserved :: "gostring \<Rightarrow> bool" where
  "name_reserved name \<longleftrightarrow> HasPrefix (map lower_ascii name) ''access grant''"

definition insert_role :: "role_row \<Rightarrow> auth_db \<Rightarrow> auth_error + auth_db" where
  "insert_role r db =
     (if list_ex (\<lambda>q. ro_ID q = ro_ID r) (db_roles db) then Err ErrConstraint
      else if ro_Kind r = ''custom'' \<and> ro_Visibility r = ''reusable'' \<and>
              (role_name_taken db (ro_ID r) (ro_OrgID r) (ro_Name r) \<or> name_reserved (ro_Name r))
        then Err ErrConstraint
      else Ok (db\<lparr>db_roles := db_roles db @ [r]\<rparr>))"

definition update_roles :: "(role_row \<Rightarrow> bool) \<Rightarrow> (role_row \<Rightarrow> role_row) \<Rightarrow> auth_db \<Rightarrow> auth_db" where
  "update_roles P f db = db\<lparr>db_roles := map (\<lambda>r. if P r then f r else r) (db_roles db)\<rparr>"

definition upsertCustomRole :: "auth_env \<Rightarrow> role_row \<Rightarrow> auth_db \<Rightarrow> auth_error + role_row \<times> gostring \<times> auth_db" where
  "upsertCustomRole en role0 db =
     (let orgID = TrimSpace (ro_OrgID role0); name = TrimSpace (ro_Name role0) in
      if orgID = [] \<or> name = [] \<or> blank (ro_CreatedBy role0) then Err ErrAuthInvalid
      else case normalizeRoleKindVisibility (ro_Kind role0) (ro_Visibility role0) of
        Err e \<Rightarrow> Err e
      | Ok (kind, visibility) \<Rightarrow>
        if kind = ''system'' then Err ErrSystemRoleImmutable
        else if kind = ''custom'' \<and> visibility = ''reusable'' \<and> HasPrefix name ''Access grant'' then Err ErrAuthInvalid
        else let roleID = (if ro_ID role0 = []
                    then (case findCustomRoleByName db orgID name of Ok r \<Rightarrow> ro_ID r | Err _ \<Rightarrow> []) else ro_ID role0);
                 existing = (if roleID = [] then Err ErrRoleNotFound else getRole db roleID)
        in case existing of
          Ok r \<Rightarrow>
            if ro_Kind r = ''system'' then Err ErrSystemRoleImmutable
            else if ro_OrgID r \<noteq> orgID then Err ErrAuthInvalid
            else if ro_Kind r \<noteq> kind \<or> ro_Visibility r \<noteq> visibility then Err ErrAuthInvalid
            else if kind = ''custom'' \<and> visibility = ''reusable'' \<and> (role_name_taken db roleID orgID name \<or> name_reserved name)
              then Err ErrConstraint
            else let db' = update_roles
                       (\<lambda>q. ro_ID q = roleID \<and> ro_Kind q = kind \<and> ro_Visibility q = visibility \<and> ro_RevokedAt q = None)
                       (\<lambda>q. q\<lparr>ro_Name := name, ro_Description := ro_Description role0, ro_UpdatedAt := en_now en,
                              ro_Version := ro_Version q + 1\<rparr>) db
                 in (case getRole db' roleID of Err e \<Rightarrow> Err e | Ok r' \<Rightarrow> Ok (r', ''updated'', db'))
        | Err _ \<Rightarrow>
            let newID = (if roleID = [] then ''role-'' @ en_shortHash en (orgID @ ''|'' @ name @ ''|'' @ en_ts en) else roleID)
            in case insert_role \<lparr>ro_ID = newID, ro_OrgID = orgID, ro_Kind = kind, ro_Visibility = visibility, ro_Name = name,
                   ro_Description = ro_Description role0, ro_CreatedBy = ro_CreatedBy role0, ro_CreatedAt = en_now en,
                   ro_UpdatedAt = en_now en, ro_Version = 1, ro_RevokedAt = None\<rparr> db of
                Err e \<Rightarrow> Err e
              | Ok db' \<Rightarrow> (case getRole db' newID of Err e \<Rightarrow> Err e | Ok r' \<Rightarrow> Ok (r', ''created'', db')))"

definition input_rows :: "gostring \<Rightarrow> role_permission_input list \<Rightarrow> role_permission list" where
  "input_rows roleID ps =
     fold (\<lambda>p rows.
        if list_ex (\<lambda>q. rp_PermissionKey q = TrimSpace (ri_PermissionKey p) \<and> rp_ResourceKind q = TrimSpace (ri_ResourceKind p)) rows
        then rows
        else rows @ [role_perm roleID (TrimSpace (ri_PermissionKey p)) (TrimSpace (ri_ResourceKind p)) (ri_Delegatable p)])
       ps []"

definition replaceRolePermissions :: "auth_env \<Rightarrow> gostring \<Rightarrow> role_permission_input list \<Rightarrow> auth_db \<Rightarrow> auth_error + auth_db" where
  "replaceRolePermissions en roleID ps db =
     (case getRole db roleID of
        Err e \<Rightarrow> Err e
      | Ok role \<Rightarrow>
          if ro_Kind role = ''system'' then Err ErrSystemRoleImmutable
          else if list_ex (\<lambda>p. blank (ri_PermissionKey p) \<or> blank (ri_ResourceKind p)) ps then Err ErrAuthInvalid
          else Ok (update_roles (\<lambda>q. ro_ID q = roleID) (\<lambda>q. q\<lparr>ro_UpdatedAt := en_now en, ro_Version := ro_Version q + 1\<rparr>)
                 (db\<lparr>db_role_permissions := filter (\<lambda>p. rp_RoleID p \<noteq> roleID) (db_role_permissions db) @ input_rows roleID ps\<rparr>)))"

definition managedDirectRoleID :: "auth_env \<Rightarrow> auth_db \<Rightarrow> gostring \<Rightarrow> permission_key \<Rightarrow> gostring \<Rightarrow> gostring" where
  "managedDirectRoleID en db orgID permission kind =
     (let legacyID = ''role-access-'' @ en_roleHash en (permission @ ''|'' @ kind) in
      case getRole db legacyID of
        Ok r \<Rightarrow> if ro_OrgID r = orgID then legacyID
                 else ''role-access-'' @ en_roleHash en (orgID @ ''|'' @ permission @ ''|'' @ kind)
      | Err _ \<Rightarrow> legacyID)"

definition upsertManagedInternalRole ::
  "auth_env \<Rightarrow> gostring \<Rightarrow> permission_key \<Rightarrow> gostring \<Rightarrow> auth_db \<Rightarrow> auth_error + role_row \<times> gostring \<times> auth_db" where
  "upsertManagedInternalRole en orgID0 permission0 kind0 db =
     (let orgID = TrimSpace orgID0; permission = TrimSpace permission0; kind = TrimSpace kind0;
          roleID = managedDirectRoleID en db orgID permission kind;
          name = ''Managed direct grant '' @ permission @ '' on '' @ kind;
          finish = (\<lambda>status db. case replaceRolePermissions en roleID
                       [\<lparr>ri_PermissionKey = permission, ri_ResourceKind = kind, ri_Delegatable = False\<rparr>] db of
                       Err e \<Rightarrow> Err e
                     | Ok db' \<Rightarrow> (case getRole db' roleID of Err e \<Rightarrow> Err e | Ok r \<Rightarrow> Ok (r, status, db')))
      in if orgID = [] \<or> permission = [] \<or> kind = [] then Err ErrAuthInvalid
         else if \<not> PermissionDefinedForResource permission kind then Err ErrPermissionUndefined
         else case getRole db roleID of
           Ok r \<Rightarrow>
             if ro_OrgID r \<noteq> orgID then Err ErrAuthInvalid
             else if ro_Kind r \<noteq> ''managed'' \<or> ro_Visibility r \<noteq> ''internal'' then
               (if list_ex (\<lambda>(_, _, m, _). m = roleID) (db_role_mappings db) then Err ErrAuthConflict
                else finish ''updated'' (update_roles (\<lambda>q. ro_ID q = roleID \<and> ro_OrgID q = orgID \<and> ro_RevokedAt q = None)
                  (\<lambda>q. q\<lparr>ro_Kind := ''managed'', ro_Visibility := ''internal'', ro_Name := name, ro_UpdatedAt := en_now en,
                         ro_Version := ro_Version q + 1\<rparr>) db))
             else finish ''set'' db
         | Err _ \<Rightarrow>
             (case insert_role \<lparr>ro_ID = roleID, ro_OrgID = orgID, ro_Kind = ''managed'', ro_Visibility = ''internal'',
                  ro_Name = name, ro_Description = ''Internal carrier for direct permission grants.'',
                  ro_CreatedBy = ''system'', ro_CreatedAt = en_now en, ro_UpdatedAt = en_now en, ro_Version = 1,
                  ro_RevokedAt = None\<rparr> db of
                Err e \<Rightarrow> Err e
              | Ok db' \<Rightarrow> finish ''created'' db'))"

subsection \<open>Assignments (store.go)\<close>

definition same_identity :: "role_assignment \<Rightarrow> role_assignment \<Rightarrow> bool" where
  "same_identity a b \<longleftrightarrow> as_OrgID a = as_OrgID b \<and> as_SubjectRef a = as_SubjectRef b \<and> as_RoleID a = as_RoleID b \<and>
     as_ResourceKind a = as_ResourceKind b \<and> as_ResourceID a = as_ResourceID b"

definition scan_assignment :: "role_assignment option \<Rightarrow> auth_error + role_assignment" where
  "scan_assignment x = (case x of None \<Rightarrow> Err ErrAssignmentNotFound | Some a \<Rightarrow> Ok a)"

definition getAssignmentInOrg :: "auth_db \<Rightarrow> gostring \<Rightarrow> gostring \<Rightarrow> auth_error + role_assignment" where
  "getAssignmentInOrg db orgID i =
     scan_assignment (find (\<lambda>a. as_OrgID a = TrimSpace orgID \<and> as_ID a = TrimSpace i) (db_assignments db))"

text \<open>The row that is inserted; the insert is refused by the primary key and by the unique index on the identity
  of the live assignments.\<close>

definition trim_assignment :: "role_assignment \<Rightarrow> role_assignment" where
  "trim_assignment a = a\<lparr>as_OrgID := TrimSpace (as_OrgID a), as_SubjectRef := TrimSpace (as_SubjectRef a),
     as_RoleID := TrimSpace (as_RoleID a), as_ResourceKind := TrimSpace (as_ResourceKind a),
     as_ResourceID := TrimSpace (as_ResourceID a)\<rparr>"

definition assignment_row :: "auth_env \<Rightarrow> role_assignment \<Rightarrow> role_assignment" where
  "assignment_row en a =
     a\<lparr>as_ID := (if as_ID a = [] then ''asgn-'' @ en_shortHash en (Join [as_OrgID a, as_SubjectRef a,
          as_RoleID a, as_ResourceKind a, as_ResourceID a] ''|'') else as_ID a),
       as_CreatedAt := en_now en, as_RevokedAt := None, as_RevokedBy := [], as_RevokedReason := [], as_Version := 1\<rparr>"

definition findActiveAssignment :: "auth_db \<Rightarrow> role_assignment \<Rightarrow> auth_error + role_assignment" where
  "findActiveAssignment db key =
     scan_assignment (find (\<lambda>a. same_identity a key \<and> as_RevokedAt a = None) (db_assignments db))"

definition insert_assignment :: "role_assignment \<Rightarrow> auth_db \<Rightarrow> auth_error + auth_db" where
  "insert_assignment new db =
     (if list_ex (\<lambda>a. as_ID a = as_ID new \<or> same_identity a new \<and> as_RevokedAt a = None) (db_assignments db)
      then Err ErrConstraint else Ok (db\<lparr>db_assignments := db_assignments db @ [new]\<rparr>))"

definition assignRole :: "auth_env \<Rightarrow> role_assignment \<Rightarrow> auth_db \<Rightarrow> auth_error + role_assignment \<times> gostring \<times> auth_db" where
  "assignRole en in0 db =
     (let a = trim_assignment in0 in
      if [] \<in> set [as_OrgID a, as_SubjectRef a, as_RoleID a, as_ResourceKind a, as_ResourceID a] \<or> blank (as_CreatedBy a)
        then Err ErrAuthInvalid
      else let new = assignment_row en a in
        case insert_assignment new db of
          Err e \<Rightarrow> (case findActiveAssignment db new of Ok b \<Rightarrow> Ok (b, ''unchanged'', db) | Err _ \<Rightarrow> Err e)
        | Ok db' \<Rightarrow>
            (case getAssignmentInOrg db' (as_OrgID new) (as_ID new) of Err e \<Rightarrow> Err e | Ok b \<Rightarrow> Ok (b, ''created'', db')))"

definition findAssignmentForRevoke :: "auth_db \<Rightarrow> role_assignment \<Rightarrow> auth_error + role_assignment" where
  "findAssignmentForRevoke db key =
     scan_assignment (case sort_key (\<lambda>a. if as_RevokedAt a = None then 0 else 1 :: nat)
         (rev (sort_key (\<lambda>a. (created_key (as_CreatedAt a), as_ID a)) (filter (\<lambda>a. same_identity a key) (db_assignments db)))) of
       [] \<Rightarrow> None | a # _ \<Rightarrow> Some a)"

definition assignment_key :: "gostring \<Rightarrow> subject_ref \<Rightarrow> gostring \<Rightarrow> gostring \<Rightarrow> gostring \<Rightarrow> role_assignment" where
  "assignment_key orgID subject roleID kind i =
     \<lparr>as_ID = [], as_OrgID = orgID, as_SubjectRef = subject, as_RoleID = roleID, as_ResourceKind = kind, as_ResourceID = i,
      as_CreatedBy = [], as_CreatedAt = 0, as_ExpiresAt = None, as_RevokedAt = None, as_RevokedBy = [],
      as_RevokedReason = [], as_Version = 0\<rparr>"

definition assignmentForRevoke :: "auth_db \<Rightarrow> gostring \<Rightarrow> revoke_input \<Rightarrow> auth_error + role_assignment" where
  "assignmentForRevoke db orgID0 rv =
     (let orgID = TrimSpace orgID0 in
      if orgID = [] then Err ErrAuthInvalid
      else if TrimSpace (rv_AssignmentID rv) \<noteq> [] then getAssignmentInOrg db orgID (TrimSpace (rv_AssignmentID rv))
      else case scope_Key (rv_Resource rv) of (kind, i) \<Rightarrow>
        let subject = TrimSpace (rv_SubjectRef rv); roleID = TrimSpace (rv_RoleID rv) in
        if subject = [] \<or> roleID = [] \<or> kind = [] \<or> i = [] then Err ErrAuthInvalid
        else findAssignmentForRevoke db (assignment_key orgID subject roleID kind i))"

definition revokeAssignment ::
  "auth_env \<Rightarrow> revoke_input \<Rightarrow> subject_ref \<Rightarrow> gostring \<Rightarrow> auth_db \<Rightarrow> auth_error + role_assignment \<times> gostring \<times> auth_db" where
  "revokeAssignment en rv actor orgID db =
     (case assignmentForRevoke db orgID rv of
        Err e \<Rightarrow> Err e
      | Ok a \<Rightarrow>
          if as_OrgID a \<noteq> TrimSpace orgID then Err ErrAssignmentNotFound
          else if as_RevokedAt a \<noteq> None then Ok (a, ''unchanged'', db)
          else let hit = (\<lambda>b. as_OrgID b = TrimSpace orgID \<and> as_ID b = as_ID a \<and> as_RevokedAt b = None \<and>
                           (0 < rv_ExpectedVersion rv \<longrightarrow> as_Version b = rv_ExpectedVersion rv));
                   db' = db\<lparr>db_assignments := map (\<lambda>b. if hit b
                           then b\<lparr>as_RevokedAt := Some (en_now en), as_RevokedBy := actor,
                                  as_RevokedReason := TrimSpace (rv_Reason rv), as_Version := as_Version b + 1\<rparr>
                           else b) (db_assignments db)\<rparr>
          in if \<not> list_ex hit (db_assignments db) then
               (case getAssignmentInOrg db orgID (as_ID a) of
                  Err e \<Rightarrow> Err e
                | Ok b \<Rightarrow> if as_RevokedAt b \<noteq> None then Ok (b, ''unchanged'', db) else Err ErrAuthConflict)
             else (case getAssignmentInOrg db' orgID (as_ID a) of
                     Err e \<Rightarrow> Err e | Ok b \<Rightarrow> Ok (b, ''revoked'', db')))"

end
