(* ===== verification/Authz_Operations.thy ===== *)
theory Authz_Operations
  imports Authz_Batch
begin

section \<open>Batches of access changes (authorization/service.go)\<close>

text \<open>
  One operation checks that the actor may do it, changes the tables through the store and appends an audit
  row.  The checks are decisions of the same service: they read the tables inside the transaction and fill
  the cache, so an operation is a function of the transaction and of the cache.  A batch runs its
  operations in one transaction that an error rolls back with everything it wrote; only the cache and the
  counters of the shadow comparison outlive it.  The idempotency row is written in the same transaction; its
  response is kept decoded, and the digest of a request is a parameter.  One reading of the clock serves a
  whole batch.
\<close>

record role_input =
  in_ID :: gostring
  in_Kind :: gostring
  in_Visibility :: gostring
  in_Name :: gostring
  in_Description :: gostring

record assignment_input =
  ai_ID :: gostring
  ai_SubjectRef :: subject_ref
  ai_RoleID :: gostring
  ai_Resource :: resource_scope
  ai_ExpiresAt :: "time option"

record direct_grant_input =
  dg_ID :: gostring
  dg_SubjectRef :: subject_ref
  dg_PermissionKey :: permission_key
  dg_Resource :: resource_scope
  dg_ExpiresAt :: "time option"

record batch_operation =
  bo_ID :: gostring
  bo_Type :: gostring
  bo_Role :: role_input
  bo_Permissions :: "role_permission_input list"
  bo_Assignment :: assignment_input
  bo_DirectGrant :: direct_grant_input
  bo_Revoke :: revoke_input

record batch_request =
  br_IdempotencyKey :: gostring
  br_ActorRef :: subject_ref
  br_OrgID :: gostring
  br_Operations :: "batch_operation list"

record batch_result =
  bs_IdempotencyKey :: gostring
  bs_Replayed :: bool
  bs_Preview :: bool
  bs_Operations :: "op_result list"

record idempotency_row =
  ik_key :: gostring
  ik_actor :: subject_ref
  ik_operation :: gostring
  ik_hash :: gostring
  ik_response :: "batch_result option"

record access_db =
  ac_tx :: tx_db
  ac_idempotency :: "idempotency_row list"

text \<open>A check, or an operation with its result and the transaction after it, and the cache.\<close>

type_synonym check_result = "auth_error option \<times> auth_state"
type_synonym operation_result = "(auth_error + op_result \<times> tx_db) \<times> auth_state"

subsection \<open>Who may change access\<close>

definition org_resource :: "gostring \<Rightarrow> resource_scope" where
  "org_resource orgID = empty_resource\<lparr>rs_Kind := ''org'', rs_ID := orgID\<rparr>"

definition system_request :: "subject_ref \<Rightarrow> permission_key \<Rightarrow> resource_scope \<Rightarrow> check_request" where
  "system_request actor permission r =
     \<lparr>cr_SubjectRef = actor, cr_Transport = ''system'', cr_BearerScope = [], cr_Permission = permission, cr_Resource = r\<rparr>"

definition check_manage :: "auth_env \<Rightarrow> auth_db \<Rightarrow> subject_ref \<Rightarrow> gostring \<Rightarrow> auth_state \<Rightarrow> check_result" where
  "check_manage en db actor orgID st =
     (case Check (en_mode en) db (en_now en)
             (system_request actor ''org.member.role.manage'' (org_resource orgID)) st of
        ((_, e), st') \<Rightarrow> (e, st'))"

definition requireManageRBAC :: "auth_env \<Rightarrow> auth_db \<Rightarrow> subject_ref \<Rightarrow> gostring \<Rightarrow> auth_state \<Rightarrow> check_result" where
  "requireManageRBAC en db actor orgID st =
     (if actor = ''system'' then (None, st) else check_manage en db actor orgID st)"

text \<open>The actor holds the permission on the resource and may delegate it.\<close>

definition delegatable :: "permission_key \<Rightarrow> effective_permission list \<Rightarrow> bool" where
  "delegatable key ps \<longleftrightarrow> list_ex (\<lambda>p. ep_Key p = key \<and> ep_Delegatable p) ps"

definition explain_delegatable ::
  "auth_env \<Rightarrow> auth_db \<Rightarrow> subject_ref \<Rightarrow> permission_key \<Rightarrow> resource_scope \<Rightarrow> auth_state \<Rightarrow> check_result" where
  "explain_delegatable en db actor key r st =
     (case ResolveEffective (en_mode en) db (en_now en) (system_request actor key r) st of
        ((x, e), st') \<Rightarrow>
          (if e \<noteq> None \<and> e \<noteq> Some ErrDenied then e
           else if \<not> ad_Allowed (er_Decision x) \<or> \<not> delegatable key (er_Effective x) then Some ErrNotDelegatable
           else None, st'))"

fun delegatable_loop ::
  "auth_env \<Rightarrow> auth_db \<Rightarrow> subject_ref \<Rightarrow> resource_scope \<Rightarrow> role_permission list \<Rightarrow> auth_state \<Rightarrow> check_result" where
  "delegatable_loop en db actor r [] st = (None, st)"
| "delegatable_loop en db actor r (p # ps) st =
     (if rp_ResourceKind p \<noteq> rs_Kind r then (Some ErrAuthInvalid, st)
      else if \<not> PermissionDefinedForResource (rp_PermissionKey p) (rp_ResourceKind p) then (Some ErrPermissionUndefined, st)
      else case explain_delegatable en db actor (rp_PermissionKey p) (r\<lparr>rs_Kind := rp_ResourceKind p\<rparr>) st of
        (Some e, st') \<Rightarrow> (Some e, st')
      | (None, st') \<Rightarrow> delegatable_loop en db actor r ps st')"

definition requireDelegatableRole ::
  "auth_env \<Rightarrow> auth_db \<Rightarrow> subject_ref \<Rightarrow> gostring \<Rightarrow> resource_scope \<Rightarrow> auth_state \<Rightarrow> check_result" where
  "requireDelegatableRole en db actor roleID r st =
     (if actor = ''system'' then (None, st)
      else case rolePermissions db roleID of
        [] \<Rightarrow> (Some ErrAuthInvalid, st)
      | ps \<Rightarrow> delegatable_loop en db actor r ps st)"

definition agentForbiddenPermissions :: "permission_key list" where
  "agentForbiddenPermissions = [''org.settings.manage'', ''org.lifecycle.manage'', ''org.member.role.manage'',
     ''org.member.disable'', ''admin_token.manage'', ''secret.resolve'']"

definition requireAssignmentSubjectApplicable ::
  "auth_db \<Rightarrow> subject_ref \<Rightarrow> gostring \<Rightarrow> resource_scope \<Rightarrow> auth_error option" where
  "requireAssignmentSubjectApplicable db subject roleID r =
     (if \<not> (IsUser subject \<or> IsAgent subject) then Some ErrAuthInvalid
      else if orgMember db (rs_OrgID r) subject = None then Some ErrAuthNotFound
      else if \<not> IsAgent subject then None
      else if list_ex (\<lambda>p. rp_PermissionKey p \<in> set agentForbiddenPermissions) (rolePermissions db roleID)
        then Some ErrAuthInvalid
      else None)"

definition requireAssignmentSubjectApplicableForPermission ::
  "auth_db \<Rightarrow> subject_ref \<Rightarrow> permission_key \<Rightarrow> resource_scope \<Rightarrow> auth_error option" where
  "requireAssignmentSubjectApplicableForPermission db subject permission r =
     (if \<not> (IsUser subject \<or> IsAgent subject) then Some ErrAuthInvalid
      else if orgMember db (rs_OrgID r) subject = None then Some ErrAuthNotFound
      else if IsAgent subject \<and> permission \<in> set agentForbiddenPermissions then Some ErrAuthInvalid
      else None)"

definition assignment_resource :: "role_assignment \<Rightarrow> resource_scope" where
  "assignment_resource a = empty_resource\<lparr>rs_Kind := as_ResourceKind a, rs_ID := as_ResourceID a, rs_OrgID := as_OrgID a\<rparr>"

definition resolveRevokeTarget :: "auth_db \<Rightarrow> gostring \<Rightarrow> revoke_input \<Rightarrow> auth_error + role_assignment" where
  "resolveRevokeTarget db orgID0 rv =
     (let orgID = TrimSpace orgID0 in
      if orgID = [] then Err ErrAuthInvalid
      else case assignmentForRevoke db orgID rv of
        Err e \<Rightarrow> Err (if e = ErrAssignmentNotFound then ErrAuthNotFound else e)
      | Ok a \<Rightarrow>
          if as_OrgID a \<noteq> orgID then Err ErrAuthNotFound
          else case resolveResource db (assignment_resource a) of
            (_, _, Some e) \<Rightarrow> Err e
          | (r, _, None) \<Rightarrow> if rs_OrgID r \<noteq> orgID then Err ErrAuthNotFound else Ok a)"

definition remainingOrgOwners :: "auth_db \<Rightarrow> gostring \<Rightarrow> gostring \<Rightarrow> nat" where
  "remainingOrgOwners db orgID excluding =
     length (filter (\<lambda>m. mb_organization_id m = orgID \<and> mb_role m = ''owner'' \<and> mb_status m = ''joined'') (db_members db)) +
     length (filter (\<lambda>a. as_OrgID a = orgID \<and> as_RoleID a = ''sys-org-owner'' \<and> as_ID a \<noteq> excluding \<and> as_RevokedAt a = None)
       (db_assignments db))"

definition requireRevokeAllowed ::
  "auth_env \<Rightarrow> auth_db \<Rightarrow> subject_ref \<Rightarrow> gostring \<Rightarrow> revoke_input \<Rightarrow> auth_state \<Rightarrow> check_result" where
  "requireRevokeAllowed en db actor orgID rv st =
     (case resolveRevokeTarget db orgID rv of
        Err e \<Rightarrow> (Some e, st)
      | Ok a \<Rightarrow>
          if as_OrgID a \<noteq> TrimSpace orgID then (Some ErrAuthNotFound, st)
          else if as_RoleID a = ''sys-org-owner'' \<and> remainingOrgOwners db orgID (as_ID a) = 0 then (Some ErrAuthConflict, st)
          else if actor = ''system'' then (None, st)
          else case check_manage en db actor orgID st of
            (None, st') \<Rightarrow> (None, st')
          | (Some _, st') \<Rightarrow> requireDelegatableRole en db actor (as_RoleID a) (assignment_resource a) st')"

subsection \<open>The five operations\<close>

definition audit :: "auth_env \<Rightarrow> audit_row \<Rightarrow> tx_db \<Rightarrow> tx_db" where
  "audit en row t = t\<lparr>tx_audit := tx_audit t @ [row\<lparr>au_CreatedAt := en_now en\<rparr>]\<rparr>"

definition audit_event :: "gostring \<Rightarrow> subject_ref \<Rightarrow> gostring \<Rightarrow> gostring \<Rightarrow> gostring \<Rightarrow> audit_row" where
  "audit_event ty actor roleID kind i =
     \<lparr>au_EventType = ty, au_ActorRef = actor, au_SubjectRef = [], au_PermissionKey = [], au_RoleID = roleID,
      au_AssignmentID = [], au_ResourceKind = kind, au_ResourceID = i, au_RequestID = [], au_CreatedAt = zero_time\<rparr>"

definition op_answer :: "batch_operation \<Rightarrow> gostring \<Rightarrow> gostring \<Rightarrow> gostring \<Rightarrow> op_result" where
  "op_answer op status roleID assignmentID =
     \<lparr>op_ID = bo_ID op, op_Type = bo_Type op, op_Status = status, op_RoleID = roleID, op_AssignmentID = assignmentID,
      op_Reason = []\<rparr>"

text \<open>What follows a check: its error, or the rest of the operation.\<close>

definition checked :: "check_result \<Rightarrow> (auth_state \<Rightarrow> operation_result) \<Rightarrow> operation_result" where
  "checked c f = (case c of (Some e, st) \<Rightarrow> (Err e, st) | (None, st) \<Rightarrow> f st)"

definition op_upsert_role ::
  "auth_env \<Rightarrow> subject_ref \<Rightarrow> gostring \<Rightarrow> batch_operation \<Rightarrow> tx_db \<Rightarrow> auth_state \<Rightarrow> operation_result" where
  "op_upsert_role en actor orgID op t st =
     checked (requireManageRBAC en (tx_db t) actor orgID st) (\<lambda>st.
       (let ri = bo_Role op;
            i = (if TrimSpace (in_ID ri) = [] then ''role-'' @ en_shortHash en (orgID @ ''|'' @ in_Name ri) else TrimSpace (in_ID ri))
        in case upsertCustomRole en \<lparr>ro_ID = i, ro_OrgID = orgID, ro_Kind = in_Kind ri, ro_Visibility = in_Visibility ri,
               ro_Name = in_Name ri, ro_Description = in_Description ri, ro_CreatedBy = actor, ro_CreatedAt = zero_time,
               ro_UpdatedAt = zero_time, ro_Version = 0, ro_RevokedAt = None\<rparr> (tx_db t) of
             Err e \<Rightarrow> Err e
           | Ok (role, status, db) \<Rightarrow>
               Ok (op_answer op status (ro_ID role) [],
                   audit en (audit_event ''authorization.role.upserted'' actor (ro_ID role) ''org'' orgID) (t\<lparr>tx_db := db\<rparr>)), st))"

definition op_set_role_permissions ::
  "auth_env \<Rightarrow> subject_ref \<Rightarrow> gostring \<Rightarrow> batch_operation \<Rightarrow> tx_db \<Rightarrow> auth_state \<Rightarrow> operation_result" where
  "op_set_role_permissions en actor orgID op t st =
     checked (requireManageRBAC en (tx_db t) actor orgID st) (\<lambda>st.
       (let roleID = (if TrimSpace (in_ID (bo_Role op)) = [] then TrimSpace (ai_RoleID (bo_Assignment op))
                      else TrimSpace (in_ID (bo_Role op)))
        in if roleID = [] then Err ErrAuthInvalid
           else case getRole (tx_db t) roleID of
             Err e \<Rightarrow> Err e
           | Ok role \<Rightarrow>
               if ro_Kind role \<noteq> ''system'' \<and> ro_OrgID role \<noteq> orgID then Err ErrAuthNotFound
               else if \<not> list_all (\<lambda>p. PermissionDefinedForResource (ri_PermissionKey p) (ri_ResourceKind p)) (bo_Permissions op)
                 then Err ErrPermissionUndefined
               else case replaceRolePermissions en roleID (bo_Permissions op) (tx_db t) of
                 Err e \<Rightarrow> Err e
               | Ok db \<Rightarrow>
                   Ok (op_answer op ''set'' roleID [],
                       audit en (audit_event ''authorization.role_permissions.set'' actor roleID ''org'' orgID)
                         (t\<lparr>tx_db := db\<rparr>)), st))"

definition derived_assignment_id ::
  "auth_env \<Rightarrow> gostring \<Rightarrow> subject_ref \<Rightarrow> gostring \<Rightarrow> gostring \<Rightarrow> gostring \<Rightarrow> gostring" where
  "derived_assignment_id en orgID subject roleID kind i =
     ''asgn-'' @ en_shortHash en (Join [orgID, subject, roleID, kind, i] ''|'')"

definition new_assignment ::
  "gostring \<Rightarrow> gostring \<Rightarrow> subject_ref \<Rightarrow> gostring \<Rightarrow> gostring \<Rightarrow> gostring \<Rightarrow> subject_ref \<Rightarrow> time option \<Rightarrow> role_assignment" where
  "new_assignment i orgID subject roleID kind resourceID actor expires =
     \<lparr>as_ID = i, as_OrgID = orgID, as_SubjectRef = subject, as_RoleID = roleID, as_ResourceKind = kind,
      as_ResourceID = resourceID, as_CreatedBy = actor, as_CreatedAt = zero_time, as_ExpiresAt = expires,
      as_RevokedAt = None, as_RevokedBy = [], as_RevokedReason = [], as_Version = 0\<rparr>"

definition op_assign_role ::
  "auth_env \<Rightarrow> subject_ref \<Rightarrow> gostring \<Rightarrow> batch_operation \<Rightarrow> tx_db \<Rightarrow> auth_state \<Rightarrow> operation_result" where
  "op_assign_role en actor orgID op t st =
     (let ai = bo_Assignment op; roleID = TrimSpace (ai_RoleID ai); subject = ai_SubjectRef ai; db = tx_db t in
      case getRole db roleID of
        Err e \<Rightarrow> (Err e, st)
      | Ok role \<Rightarrow>
      if ro_Kind role = ''custom'' \<and> ro_OrgID role \<noteq> orgID then (Err ErrAuthInvalid, st)
      else case scope_Key (ai_Resource ai) of (kind, resourceID) \<Rightarrow>
      if kind = [] \<or> resourceID = [] then (Err ErrAuthInvalid, st)
      else case subject_Validate subject of
        Some e \<Rightarrow> (Err e, st)
      | None \<Rightarrow>
      case resolveResource db (ai_Resource ai) of
        (_, _, Some e) \<Rightarrow> (Err e, st)
      | (resolved, _, None) \<Rightarrow>
      if rs_OrgID resolved = [] \<or> rs_OrgID resolved \<noteq> orgID then (Err ErrAuthNotFound, st)
      else case requireAssignmentSubjectApplicable db subject roleID resolved of
        Some e \<Rightarrow> (Err e, st)
      | None \<Rightarrow>
      checked (requireDelegatableRole en db actor roleID resolved st) (\<lambda>st.
        (let i = (if TrimSpace (ai_ID ai) = [] then derived_assignment_id en orgID subject roleID kind resourceID
                  else TrimSpace (ai_ID ai))
         in case assignRole en (new_assignment i orgID subject roleID kind resourceID actor (ai_ExpiresAt ai)) db of
              Err e \<Rightarrow> Err e
            | Ok (a, status, db') \<Rightarrow>
                Ok (op_answer op status roleID (as_ID a),
                    audit en ((audit_event ''authorization.assignment.created'' actor roleID kind resourceID)
                      \<lparr>au_SubjectRef := as_SubjectRef a, au_AssignmentID := as_ID a\<rparr>) (t\<lparr>tx_db := db'\<rparr>)), st)))"

definition direct_grant_check ::
  "auth_env \<Rightarrow> auth_db \<Rightarrow> subject_ref \<Rightarrow> gostring \<Rightarrow> permission_key \<Rightarrow> resource_scope \<Rightarrow> auth_state \<Rightarrow> check_result" where
  "direct_grant_check en db actor orgID permission resolved st =
     (if actor = ''system'' then (None, st)
      else if \<not> isWildcardResource resolved then explain_delegatable en db actor permission resolved st
      else case check_manage en db actor orgID st of
        (None, st') \<Rightarrow> (None, st')
      | (Some _, st') \<Rightarrow> (Some ErrNotDelegatable, st'))"

definition op_direct_grant ::
  "auth_env \<Rightarrow> subject_ref \<Rightarrow> gostring \<Rightarrow> gostring \<Rightarrow> batch_operation \<Rightarrow> tx_db \<Rightarrow> auth_state \<Rightarrow> operation_result" where
  "op_direct_grant en actor orgID requestID op t st =
     (let dg = bo_DirectGrant op; subject = TrimSpace (dg_SubjectRef dg); permission = TrimSpace (dg_PermissionKey dg);
          db = tx_db t in
      case subject_Validate subject of
        Some e \<Rightarrow> (Err e, st)
      | None \<Rightarrow>
      case scope_Key (dg_Resource dg) of (kind, resourceID) \<Rightarrow>
      if kind = [] \<or> resourceID = [] then (Err ErrAuthInvalid, st)
      else if \<not> PermissionDefinedForResource permission kind then (Err ErrPermissionUndefined, st)
      else case resolveResource db (dg_Resource dg) of
        (_, _, Some e) \<Rightarrow> (Err e, st)
      | (resolved, _, None) \<Rightarrow>
      if rs_OrgID resolved = [] \<or> rs_OrgID resolved \<noteq> orgID then (Err ErrAuthNotFound, st)
      else case requireAssignmentSubjectApplicableForPermission db subject permission resolved of
        Some e \<Rightarrow> (Err e, st)
      | None \<Rightarrow>
      checked (direct_grant_check en db actor orgID permission resolved st) (\<lambda>st.
        (case upsertManagedInternalRole en orgID permission kind db of
           Err e \<Rightarrow> Err e
         | Ok (role, roleStatus, db1) \<Rightarrow>
             let i = (if TrimSpace (dg_ID dg) = [] then derived_assignment_id en orgID subject (ro_ID role) kind resourceID
                      else TrimSpace (dg_ID dg))
             in case assignRole en (new_assignment i orgID subject (ro_ID role) kind resourceID actor (dg_ExpiresAt dg)) db1 of
                  Err e \<Rightarrow> Err e
                | Ok (a, status, db2) \<Rightarrow>
                    Ok (op_answer op status (ro_ID role) (as_ID a),
                        audit en ((audit_event ''authorization.direct_grant.created'' actor (ro_ID role) kind resourceID)
                          \<lparr>au_SubjectRef := as_SubjectRef a, au_PermissionKey := permission, au_AssignmentID := as_ID a,
                           au_RequestID := requestID\<rparr>) (t\<lparr>tx_db := db2\<rparr>)), st)))"

definition op_revoke_assignment ::
  "auth_env \<Rightarrow> subject_ref \<Rightarrow> gostring \<Rightarrow> gostring \<Rightarrow> batch_operation \<Rightarrow> tx_db \<Rightarrow> auth_state \<Rightarrow> operation_result" where
  "op_revoke_assignment en actor orgID requestID op t st =
     checked (requireRevokeAllowed en (tx_db t) actor orgID (bo_Revoke op) st) (\<lambda>st.
       (case revokeAssignment en (bo_Revoke op) actor orgID (tx_db t) of
          Err e \<Rightarrow> Err e
        | Ok (a, status, db) \<Rightarrow>
            Ok (op_answer op status (as_RoleID a) (as_ID a),
                audit en ((audit_event ''authorization.assignment.revoked'' actor (as_RoleID a) (as_ResourceKind a) (as_ResourceID a))
                  \<lparr>au_SubjectRef := as_SubjectRef a, au_AssignmentID := as_ID a, au_RequestID := requestID\<rparr>)
                  (t\<lparr>tx_db := db\<rparr>)), st))"

definition runOperation ::
  "auth_env \<Rightarrow> subject_ref \<Rightarrow> gostring \<Rightarrow> gostring \<Rightarrow> batch_operation \<Rightarrow> tx_db \<Rightarrow> auth_state \<Rightarrow> operation_result" where
  "runOperation en actor orgID requestID op t st =
     (let ty = TrimSpace (bo_Type op) in
      if ty = ''upsert_role'' then op_upsert_role en actor orgID op t st
      else if ty = ''set_role_permissions'' then op_set_role_permissions en actor orgID op t st
      else if ty = ''assign_role'' then op_assign_role en actor orgID op t st
      else if ty = ''direct_grant'' then op_direct_grant en actor orgID requestID op t st
      else if ty = ''revoke_assignment'' then op_revoke_assignment en actor orgID requestID op t st
      else (Err ErrAuthInvalid, st))"

subsection \<open>The batch\<close>

fun run_operations ::
  "auth_env \<Rightarrow> subject_ref \<Rightarrow> gostring \<Rightarrow> gostring \<Rightarrow> batch_operation list \<Rightarrow> tx_db \<Rightarrow> auth_state \<Rightarrow>
   (auth_error + op_result list \<times> tx_db) \<times> auth_state" where
  "run_operations en actor orgID requestID [] t st = (Ok ([], t), st)"
| "run_operations en actor orgID requestID (op # ops) t st =
     (case runOperation en actor orgID requestID op t st of
        (Err e, st') \<Rightarrow> (Err e, st')
      | (Ok (x, t'), st') \<Rightarrow>
          (case run_operations en actor orgID requestID ops t' st' of
             (Err e, st'') \<Rightarrow> (Err e, st'')
           | (Ok (xs, t''), st'') \<Rightarrow> (Ok (x # xs, t''), st'')))"

definition runBatchInTx ::
  "auth_env \<Rightarrow> batch_request \<Rightarrow> tx_db \<Rightarrow> auth_state \<Rightarrow> (auth_error + batch_result \<times> tx_db) \<times> auth_state" where
  "runBatchInTx en req t st =
     (let actor = TrimSpace (br_ActorRef req); orgID = TrimSpace (br_OrgID req) in
      if actor = [] \<or> orgID = [] then (Err ErrAuthInvalid, st)
      else case subject_Validate actor of
        Some e \<Rightarrow> (Err e, st)
      | None \<Rightarrow>
          (case run_operations en actor orgID (br_IdempotencyKey req) (br_Operations req) t st of
             (Err e, st') \<Rightarrow> (Err e, st')
           | (Ok (xs, t'), st') \<Rightarrow>
               (Ok (\<lparr>bs_IdempotencyKey = br_IdempotencyKey req, bs_Replayed = False, bs_Preview = False,
                    bs_Operations = xs\<rparr>, t'), st')))"

text \<open>The row of a key is inserted before the batch runs and completed after it, in the same transaction.\<close>

definition beginIdempotency ::
  "gostring \<Rightarrow> subject_ref \<Rightarrow> gostring \<Rightarrow> gostring \<Rightarrow> idempotency_row list \<Rightarrow>
   auth_error + batch_result option \<times> idempotency_row list" where
  "beginIdempotency key0 actor operation hash rows =
     (let key = TrimSpace key0 in
      if key = [] then Err ErrIdempotencyRequired
      else case find (\<lambda>r. ik_key r = key) rows of
        Some r \<Rightarrow>
          if ik_hash r \<noteq> hash then Err ErrIdempotencyConflict
          else (case ik_response r of None \<Rightarrow> Err ErrAuthConflict | Some res \<Rightarrow> Ok (Some res, rows))
      | None \<Rightarrow> Ok (None, rows @ [\<lparr>ik_key = key, ik_actor = actor, ik_operation = operation, ik_hash = hash,
                                ik_response = None\<rparr>]))"

definition completeIdempotency :: "gostring \<Rightarrow> batch_result \<Rightarrow> idempotency_row list \<Rightarrow> idempotency_row list" where
  "completeIdempotency key res rows = map (\<lambda>r. if ik_key r = TrimSpace key then r\<lparr>ik_response := Some res\<rparr> else r) rows"

text \<open>A rollback takes back the rows of the shadow comparisons; the counters and the cache stay.\<close>

definition rollback_state :: "auth_state \<Rightarrow> auth_state \<Rightarrow> auth_state" where
  "rollback_state st0 st =
     st\<lparr>au_shadow := (au_shadow st)\<lparr>sh_audit := sh_audit (au_shadow st0), sh_readiness := sh_readiness (au_shadow st0)\<rparr>\<rparr>"

definition ApplyBatch ::
  "auth_env \<Rightarrow> (batch_request \<Rightarrow> gostring) \<Rightarrow> batch_request \<Rightarrow> access_db \<Rightarrow> auth_state \<Rightarrow>
   ((auth_error + batch_result) \<times> access_db) \<times> auth_state" where
  "ApplyBatch en digest req db st =
     (if blank (br_IdempotencyKey req) then ((Err ErrIdempotencyRequired, db), st)
      else case beginIdempotency (br_IdempotencyKey req) (br_ActorRef req) ''apply'' (digest req) (ac_idempotency db) of
        Err e \<Rightarrow> ((Err e, db), st)
      | Ok (Some res, _) \<Rightarrow> ((Ok (res\<lparr>bs_Replayed := True\<rparr>), db), invalidateEffectiveCache st)
      | Ok (None, rows) \<Rightarrow>
          (case runBatchInTx en req (ac_tx db) st of
             (Err e, st') \<Rightarrow> ((Err e, db), rollback_state st st')
           | (Ok (res, t), st') \<Rightarrow>
               ((Ok res, \<lparr>ac_tx = t, ac_idempotency = completeIdempotency (br_IdempotencyKey req) res rows\<rparr>),
                invalidateEffectiveCache st')))"

definition RevokeBatch ::
  "auth_env \<Rightarrow> (batch_request \<Rightarrow> gostring) \<Rightarrow> batch_request \<Rightarrow> access_db \<Rightarrow> auth_state \<Rightarrow>
   ((auth_error + batch_result) \<times> access_db) \<times> auth_state" where
  "RevokeBatch en digest req =
     ApplyBatch en digest (req\<lparr>br_Operations := map (\<lambda>op. op\<lparr>bo_Type := ''revoke_assignment''\<rparr>) (br_Operations req)\<rparr>)"

end
