(* ===== verification/Authz_Changes.thy ===== *)
theory Authz_Changes
  imports Authz_Operations
begin

section \<open>What a batch can do to the tables\<close>

text \<open>
  Behind its checks every operation is a sequence of three kinds of change: roles and their permissions are
  rewritten with defined permissions, one assignment with a fresh id and identity is added, one live
  assignment is revoked.  Each operation of the service is shown to refine these changes, and the
  invariants of the tables are then proved for the changes alone, and hold for every history of batches.
\<close>

definition revoke_row :: "time \<Rightarrow> subject_ref \<Rightarrow> gostring \<Rightarrow> role_assignment \<Rightarrow> role_assignment" where
  "revoke_row t who why b =
     b\<lparr>as_RevokedAt := Some t, as_RevokedBy := who, as_RevokedReason := why, as_Version := as_Version b + 1\<rparr>"

inductive access_change :: "auth_db \<Rightarrow> auth_db \<Rightarrow> bool" where
  roles: "(\<And>p. p \<in> set ps \<Longrightarrow> p \<in> set (db_role_permissions db) \<or>
             PermissionDefinedForResource (rp_PermissionKey p) (rp_ResourceKind p)) \<Longrightarrow>
     access_change db (db\<lparr>db_role_permissions := ps, db_roles := rs\<rparr>)"
| grant: "as_RevokedAt a = None \<Longrightarrow> as_ID a \<notin> as_ID ` set (db_assignments db) \<Longrightarrow>
     (\<And>b. b \<in> set (db_assignments db) \<Longrightarrow> same_identity b a \<Longrightarrow> as_RevokedAt b \<noteq> None) \<Longrightarrow>
     access_change db (db\<lparr>db_assignments := db_assignments db @ [a]\<rparr>)"
| revoke: "a \<in> set (db_assignments db) \<Longrightarrow>
     (as_RoleID a = ''sys-org-owner'' \<Longrightarrow> remainingOrgOwners db (as_OrgID a) (as_ID a) \<noteq> 0) \<Longrightarrow>
     access_change db (db\<lparr>db_assignments := map (\<lambda>b. if as_ID b = as_ID a \<and> as_OrgID b = as_OrgID a \<and>
        as_RevokedAt b = None \<and> ok b then revoke_row t who why b else b) (db_assignments db)\<rparr>)"

abbreviation access_changes :: "auth_db \<Rightarrow> auth_db \<Rightarrow> bool" where
  "access_changes \<equiv> access_change\<^sup>*\<^sup>*"

subsection \<open>The operations refine the changes\<close>

lemma registry_key_trimmed:
  assumes "PermissionDefinedForResource k kind"
  shows "TrimSpace k = k" and "PermissionDefinedForResource k (TrimSpace kind)"
proof -
  obtain d where "Definition k = Some d"
    using assms by (auto simp: PermissionDefinedForResource_def split: option.splits)
  then have "k \<in> set (map pd_Key permission_definitions)"
    by (auto simp: Definition_def find_Some_iff)
  moreover have "list_all (\<lambda>k. TrimSpace k = k) (map pd_Key permission_definitions)" by code_simp
  ultimately show "TrimSpace k = k" by (auto simp: list_all_iff)
  show "PermissionDefinedForResource k (TrimSpace kind)"
    using assms by (simp add: PermissionDefinedForResource_def split: option.splits)
qed

lemma set_input_rows:
  "q \<in> set (input_rows roleID ps) \<Longrightarrow> \<exists>p\<in>set ps. rp_RoleID q = roleID \<and>
     rp_PermissionKey q = TrimSpace (ri_PermissionKey p) \<and> rp_ResourceKind q = TrimSpace (ri_ResourceKind p)"
proof -
  let ?step = "\<lambda>p rows. if list_ex (\<lambda>q. rp_PermissionKey q = TrimSpace (ri_PermissionKey p) \<and>
      rp_ResourceKind q = TrimSpace (ri_ResourceKind p)) rows then rows
    else rows @ [role_perm roleID (TrimSpace (ri_PermissionKey p)) (TrimSpace (ri_ResourceKind p)) (ri_Delegatable p)]"
  have "q \<in> set (fold ?step ps rows) \<Longrightarrow> q \<in> set rows \<or> (\<exists>p\<in>set ps. rp_RoleID q = roleID \<and>
     rp_PermissionKey q = TrimSpace (ri_PermissionKey p) \<and> rp_ResourceKind q = TrimSpace (ri_ResourceKind p))" for rows
  proof (induction ps arbitrary: rows)
    case (Cons p ps)
    from Cons.IH [of "?step p rows"] Cons.prems show ?case
      by (auto simp: role_perm_def split: if_splits)
  qed simp
  from this [of "[]"] show "q \<in> set (input_rows roleID ps) \<Longrightarrow> ?thesis"
    unfolding input_rows_def by auto
qed

lemma roles_only:
  "access_change db (db\<lparr>db_roles := rs\<rparr>)"
  using access_change.roles [of "db_role_permissions db" db rs] by simp

lemma insert_role_changes:
  "insert_role r db = Ok db' \<Longrightarrow> access_change db db'"
  by (auto simp: insert_role_def roles_only split: if_splits)

lemma update_roles_changes: "access_change db (update_roles P f db)"
  by (simp add: update_roles_def roles_only)

lemma upsertCustomRole_changes:
  assumes "upsertCustomRole en r db = Ok (q, status, db')"
  shows "access_change db db'"
  using assms unfolding upsertCustomRole_def Let_def
  by (auto intro: update_roles_changes insert_role_changes split: if_splits sum.splits prod.splits)

lemma replaceRolePermissions_changes:
  assumes "replaceRolePermissions en roleID ps db = Ok db'"
    and "list_all (\<lambda>p. PermissionDefinedForResource (ri_PermissionKey p) (ri_ResourceKind p)) ps"
  shows "access_change db db'"
proof -
  let ?rows = "filter (\<lambda>p. rp_RoleID p \<noteq> roleID) (db_role_permissions db) @ input_rows roleID ps"
  obtain rs where db': "db' = db\<lparr>db_role_permissions := ?rows, db_roles := rs\<rparr>"
    using assms(1) unfolding replaceRolePermissions_def
    by (auto simp: update_roles_def split: if_splits sum.splits)
  have "p \<in> set (db_role_permissions db) \<or> PermissionDefinedForResource (rp_PermissionKey p) (rp_ResourceKind p)"
    if "p \<in> set ?rows" for p
  proof (cases "p \<in> set (db_role_permissions db)")
    case False
    then have "p \<in> set (input_rows roleID ps)" using that by auto
    then obtain r where r: "r \<in> set ps" "rp_PermissionKey p = TrimSpace (ri_PermissionKey r)"
        "rp_ResourceKind p = TrimSpace (ri_ResourceKind r)"
      using set_input_rows by blast
    with assms(2) have "PermissionDefinedForResource (ri_PermissionKey r) (ri_ResourceKind r)"
      by (simp add: list_all_iff)
    with r show ?thesis using registry_key_trimmed by simp
  qed simp
  then show ?thesis unfolding db' by (rule access_change.roles)
qed

lemma upsertManagedInternalRole_changes:
  assumes "upsertManagedInternalRole en orgID permission kind db = Ok (r, status, db')"
  shows "access_changes db db'"
proof -
  have defined: "PermissionDefinedForResource (TrimSpace permission) (TrimSpace kind)"
    using assms by (auto simp: upsertManagedInternalRole_def Let_def split: if_splits)
  have "access_changes db db'" if "access_changes db d" and "replaceRolePermissions en i
     [\<lparr>ri_PermissionKey = TrimSpace permission, ri_ResourceKind = TrimSpace kind, ri_Delegatable = False\<rparr>] d = Ok db'" for i d
  proof -
    have "access_change d db'"
      by (rule replaceRolePermissions_changes [OF that(2)]) (simp add: defined)
    with that(1) show ?thesis by (rule rtranclp.rtrancl_into_rtrancl)
  qed
  note finish = this
  show ?thesis
    using assms unfolding upsertManagedInternalRole_def Let_def
    by (auto split: if_splits sum.splits intro: finish update_roles_changes insert_role_changes)
qed

lemma insert_assignment_changes:
  assumes "insert_assignment new db = Ok db'" and "as_RevokedAt new = None"
  shows "access_change db db'"
proof -
  have "access_change db (db\<lparr>db_assignments := db_assignments db @ [new]\<rparr>)"
    using assms by (intro access_change.grant) (auto simp: insert_assignment_def list_ex_iff split: if_splits)
  then show ?thesis using assms by (simp add: insert_assignment_def split: if_splits)
qed

lemma assignRole_changes:
  assumes "assignRole en a db = Ok (b, status, db')"
  shows "db' = db \<or> access_change db db'"
proof -
  have "as_RevokedAt (assignment_row en (trim_assignment a)) = None" by (simp add: assignment_row_def)
  then show ?thesis
    using assms insert_assignment_changes unfolding assignRole_def Let_def
    by (auto split: if_splits sum.splits)
qed

lemma getAssignmentInOrg_Ok:
  "getAssignmentInOrg db orgID i = Ok a \<Longrightarrow> a \<in> set (db_assignments db) \<and> as_OrgID a = TrimSpace orgID \<and> as_ID a = TrimSpace i"
  by (auto simp: getAssignmentInOrg_def scan_assignment_def find_Some_iff split: option.splits)

lemma assignmentForRevoke_Ok:
  assumes "assignmentForRevoke db orgID rv = Ok a"
  shows "a \<in> set (db_assignments db)" and "as_OrgID a = TrimSpace orgID"
proof -
  have "a \<in> set (db_assignments db) \<and> as_OrgID a = TrimSpace orgID"
  proof (cases "TrimSpace (rv_AssignmentID rv) = []")
    case False
    then show ?thesis using assms
      by (auto simp: assignmentForRevoke_def Let_def dest: getAssignmentInOrg_Ok split: if_splits)
  next
    case True
    obtain key where key: "findAssignmentForRevoke db key = Ok a" "as_OrgID key = TrimSpace orgID"
      using assms True by (auto simp: assignmentForRevoke_def Let_def assignment_key_def split: if_splits prod.splits)
    let ?xs = "sort_key (\<lambda>a. if as_RevokedAt a = None then 0 else 1 :: nat)
         (rev (sort_key (\<lambda>a. (created_key (as_CreatedAt a), as_ID a)) (filter (\<lambda>a. same_identity a key) (db_assignments db))))"
    have "a \<in> set ?xs"
      using key(1) unfolding findAssignmentForRevoke_def scan_assignment_def by (cases ?xs) auto
    then show ?thesis using key(2) by (auto simp: same_identity_def)
  qed
  then show "a \<in> set (db_assignments db)" "as_OrgID a = TrimSpace orgID" by auto
qed

lemma revokeAssignment_changes:
  assumes "revokeAssignment en rv actor orgID db = Ok (b, status, db')"
    and "\<And>a. assignmentForRevoke db orgID rv = Ok a \<Longrightarrow> as_RoleID a = ''sys-org-owner'' \<Longrightarrow>
           remainingOrgOwners db (as_OrgID a) (as_ID a) \<noteq> 0"
  shows "db' = db \<or> access_change db db'"
proof (cases "assignmentForRevoke db orgID rv")
  case (Inl e)
  then show ?thesis using assms(1) by (simp add: revokeAssignment_def)
next
  case (Inr a)
  note a = assignmentForRevoke_Ok [OF Inr]
  let ?ok = "\<lambda>b. 0 < rv_ExpectedVersion rv \<longrightarrow> as_Version b = rv_ExpectedVersion rv"
  define rows where "rows = map (\<lambda>b. if as_ID b = as_ID a \<and> as_OrgID b = as_OrgID a \<and>
        as_RevokedAt b = None \<and> ?ok b then revoke_row (en_now en) actor (TrimSpace (rv_Reason rv)) b else b) (db_assignments db)"
  have "rows = map (\<lambda>b. if as_OrgID b = TrimSpace orgID \<and> as_ID b = as_ID a \<and> as_RevokedAt b = None \<and> ?ok b
      then b\<lparr>as_RevokedAt := Some (en_now en), as_RevokedBy := actor, as_RevokedReason := TrimSpace (rv_Reason rv),
             as_Version := as_Version b + 1\<rparr> else b) (db_assignments db)"
    unfolding rows_def by (rule map_cong) (auto simp: revoke_row_def a(2))
  then have "db' = db \<or> db' = db\<lparr>db_assignments := rows\<rparr>"
    using assms(1) Inr unfolding revokeAssignment_def Let_def by (auto split: if_splits sum.splits)
  moreover have "access_change db (db\<lparr>db_assignments := rows\<rparr>)"
    unfolding rows_def using a(1) assms(2) [OF Inr] by (rule access_change.revoke)
  ultimately show ?thesis by auto
qed

lemma checked_Ok:
  assumes "checked c f = (Ok x, st')"
  obtains st where "c = (None, st)" and "f st = (Ok x, st')"
  using assms by (cases c; cases "fst c") (auto simp: checked_def)

lemma audit_tx [simp]: "tx_db (audit en row t) = tx_db t"
  by (simp add: audit_def)

lemma op_upsert_role_changes:
  assumes "op_upsert_role en actor orgID op t st = (Ok (x, t'), st')"
  shows "access_changes (tx_db t) (tx_db t')"
  using assms unfolding op_upsert_role_def Let_def
  by (auto elim!: checked_Ok dest!: upsertCustomRole_changes split: sum.splits)

lemma op_set_role_permissions_changes:
  assumes "op_set_role_permissions en actor orgID op t st = (Ok (x, t'), st')"
  shows "access_changes (tx_db t) (tx_db t')"
  using assms unfolding op_set_role_permissions_def Let_def
  by (auto elim!: checked_Ok dest!: replaceRolePermissions_changes split: sum.splits if_splits)

text \<open>What a successful assignment went through.\<close>

lemma op_assign_role_Ok:
  assumes "op_assign_role en actor orgID op t st = (Ok (x, t'), st')"
  obtains resolved st1 st2 i kind resourceID a status db' d where
      "scope_Key (ai_Resource (bo_Assignment op)) = (kind, resourceID)"
      "resolveResource (tx_db t) (ai_Resource (bo_Assignment op)) = (resolved, d, None)"
      "rs_OrgID resolved = orgID"
      "requireAssignmentSubjectApplicable (tx_db t) (ai_SubjectRef (bo_Assignment op))
         (TrimSpace (ai_RoleID (bo_Assignment op))) resolved = None"
      "requireDelegatableRole en (tx_db t) actor (TrimSpace (ai_RoleID (bo_Assignment op))) resolved st = (None, st1)"
      "assignRole en (new_assignment i orgID (ai_SubjectRef (bo_Assignment op)) (TrimSpace (ai_RoleID (bo_Assignment op)))
         kind resourceID actor (ai_ExpiresAt (bo_Assignment op))) (tx_db t) = Ok (a, status, db')"
      "i = (if TrimSpace (ai_ID (bo_Assignment op)) = []
            then derived_assignment_id en orgID (ai_SubjectRef (bo_Assignment op)) (TrimSpace (ai_RoleID (bo_Assignment op))) kind resourceID
            else TrimSpace (ai_ID (bo_Assignment op)))"
      "tx_db t' = db'" "op_Status x = status"
  using assms unfolding op_assign_role_def Let_def
  by (auto elim!: checked_Ok simp: op_answer_def split: sum.splits if_splits option.splits prod.splits)

lemma op_assign_role_changes:
  assumes "op_assign_role en actor orgID op t st = (Ok (x, t'), st')"
  shows "access_changes (tx_db t) (tx_db t')"
  using assms by (elim op_assign_role_Ok) (auto dest!: assignRole_changes)

lemma op_direct_grant_changes:
  assumes "op_direct_grant en actor orgID requestID op t st = (Ok (x, t'), st')"
  shows "access_changes (tx_db t) (tx_db t')"
proof -
  obtain permission kind role roleStatus db1 a b status db2 where
      "upsertManagedInternalRole en orgID permission kind (tx_db t) = Ok (role, roleStatus, db1)"
      "assignRole en a db1 = Ok (b, status, db2)" "tx_db t' = db2"
    using assms unfolding op_direct_grant_def Let_def
    by (auto elim!: checked_Ok split: sum.splits if_splits option.splits prod.splits)
  then show ?thesis
    using upsertManagedInternalRole_changes assignRole_changes
    by (metis rtranclp.rtrancl_into_rtrancl)
qed

lemma op_revoke_assignment_changes:
  assumes "op_revoke_assignment en actor orgID requestID op t st = (Ok (x, t'), st')" and "TrimSpace orgID = orgID"
  shows "access_changes (tx_db t) (tx_db t')"
proof -
  obtain st1 b status db' where allowed: "requireRevokeAllowed en (tx_db t) actor orgID (bo_Revoke op) st = (None, st1)"
      and revoked: "revokeAssignment en (bo_Revoke op) actor orgID (tx_db t) = Ok (b, status, db')" and "tx_db t' = db'"
    using assms unfolding op_revoke_assignment_def
    by (auto elim!: checked_Ok split: sum.splits prod.splits)
  have "remainingOrgOwners (tx_db t) (as_OrgID a) (as_ID a) \<noteq> 0"
    if "assignmentForRevoke (tx_db t) orgID (bo_Revoke op) = Ok a" "as_RoleID a = ''sys-org-owner''" for a
    using allowed that assms(2) assignmentForRevoke_Ok [OF that(1)]
    unfolding requireRevokeAllowed_def resolveRevokeTarget_def Let_def
    by (auto split: if_splits option.splits prod.splits)
  from revokeAssignment_changes [OF revoked this] show ?thesis
    using \<open>tx_db t' = db'\<close> by auto
qed

lemma runOperation_changes:
  assumes "runOperation en actor orgID requestID op t st = (Ok (x, t'), st')" and "TrimSpace orgID = orgID"
  shows "access_changes (tx_db t) (tx_db t')"
  using assms unfolding runOperation_def Let_def
  by (auto split: if_splits dest: op_upsert_role_changes op_set_role_permissions_changes op_assign_role_changes
        op_direct_grant_changes op_revoke_assignment_changes)

lemma run_operations_changes:
  assumes "run_operations en actor orgID requestID ops t st = (Ok (xs, t'), st')" and "TrimSpace orgID = orgID"
  shows "access_changes (tx_db t) (tx_db t')"
  using assms
proof (induction ops arbitrary: t st xs)
  case (Cons op ops)
  obtain x t1 st1 ys where "runOperation en actor orgID requestID op t st = (Ok (x, t1), st1)"
      and "run_operations en actor orgID requestID ops t1 st1 = (Ok (ys, t'), st')"
    using Cons.prems(1) by (auto split: prod.splits sum.splits)
  then show ?case
    using Cons.IH Cons.prems(2) runOperation_changes by (meson rtranclp_trans)
qed simp

lemma runBatchInTx_changes:
  assumes "runBatchInTx en req t st = (Ok (res, t'), st')"
  shows "access_changes (tx_db t) (tx_db t')"
  using assms unfolding runBatchInTx_def Let_def
  by (auto split: if_splits option.splits prod.splits sum.splits dest!: run_operations_changes)

end
