(* ===== verification/Authz_History.thy ===== *)
theory Authz_History
  imports Authz_Changes
begin

section \<open>Histories of batches\<close>

text \<open>
  A history is a sequence of batches, each with any clock, mode, request and cache, and with either
  outcome.  What holds of one change of the tables holds of every history.
\<close>

inductive access_history :: "(batch_request \<Rightarrow> gostring) \<Rightarrow> access_db \<Rightarrow> access_db \<Rightarrow> bool"
  for digest db where
  start: "access_history digest db db"
| batch: "access_history digest db db1 \<Longrightarrow> ApplyBatch en digest req db1 st = ((res, db2), st') \<Longrightarrow>
     access_history digest db db2"

abbreviation tables :: "access_db \<Rightarrow> auth_db" where
  "tables db \<equiv> tx_db (ac_tx db)"

text \<open>The three outcomes of a batch: refused, replayed, committed.\<close>

lemma ApplyBatch_cases:
  assumes "ApplyBatch en digest req db st = ((res, db'), st')"
  obtains (unchanged) "db' = db"
  | (committed) r t rows st1 where "res = Ok r" "runBatchInTx en req (ac_tx db) st = (Ok (r, t), st1)"
      "beginIdempotency (br_IdempotencyKey req) (br_ActorRef req) ''apply'' (digest req) (ac_idempotency db) = Ok (None, rows)"
      "db' = \<lparr>ac_tx = t, ac_idempotency = completeIdempotency (br_IdempotencyKey req) r rows\<rparr>"
  using assms unfolding ApplyBatch_def
  by (auto split: if_splits sum.splits prod.splits option.splits)

lemma history_changes:
  "access_history digest db db' \<Longrightarrow> access_changes (tables db) (tables db')"
proof (induction rule: access_history.induct)
  case (batch db1 en req st res db2 st')
  from batch.hyps(2) show ?case
  proof (cases rule: ApplyBatch_cases)
    case committed
    with runBatchInTx_changes batch.IH show ?thesis by (auto intro: rtranclp_trans)
  qed (use batch.IH in simp)
qed simp

subsection \<open>Assignments\<close>

text \<open>Ids are unique and so is the identity of a live assignment, as the two indexes of the table demand.\<close>

definition assignments_wf :: "auth_db \<Rightarrow> bool" where
  "assignments_wf db \<longleftrightarrow> distinct (map as_ID (db_assignments db)) \<and>
     (\<forall>a\<in>set (db_assignments db). \<forall>b\<in>set (db_assignments db).
        as_RevokedAt a = None \<and> as_RevokedAt b = None \<and> same_identity a b \<longrightarrow> a = b)"

text \<open>A row is revoked once or never changes; rows are only added.\<close>

definition row_evolves :: "role_assignment \<Rightarrow> role_assignment \<Rightarrow> bool" where
  "row_evolves a b \<longleftrightarrow> a = b \<or> (as_RevokedAt a = None \<and> (\<exists>t who why. b = revoke_row t who why a))"

definition assignments_evolve :: "auth_db \<Rightarrow> auth_db \<Rightarrow> bool" where
  "assignments_evolve db db' \<longleftrightarrow>
     (\<exists>xs ys. db_assignments db' = xs @ ys \<and> list_all2 row_evolves (db_assignments db) xs)"

lemma revoke_row_fields [simp]:
  "as_ID (revoke_row t who why a) = as_ID a" "as_OrgID (revoke_row t who why a) = as_OrgID a"
  "as_SubjectRef (revoke_row t who why a) = as_SubjectRef a" "as_RoleID (revoke_row t who why a) = as_RoleID a"
  "as_ResourceKind (revoke_row t who why a) = as_ResourceKind a" "as_ResourceID (revoke_row t who why a) = as_ResourceID a"
  "as_RevokedAt (revoke_row t who why a) = Some t" "as_ExpiresAt (revoke_row t who why a) = as_ExpiresAt a"
  by (simp_all add: revoke_row_def)

lemma row_evolves_refl [simp]: "row_evolves a a"
  by (simp add: row_evolves_def)

lemma row_evolves_trans: "row_evolves a b \<Longrightarrow> row_evolves b c \<Longrightarrow> row_evolves a c"
  by (auto simp: row_evolves_def)

lemma row_evolves_fields:
  assumes "row_evolves a b"
  shows "as_ID b = as_ID a" and "same_identity b a" and "as_ExpiresAt b = as_ExpiresAt a"
    and "as_RevokedAt a \<noteq> None \<Longrightarrow> b = a"
  using assms by (auto simp: row_evolves_def same_identity_def)

lemma assignments_evolve_refl: "assignments_evolve db db"
  unfolding assignments_evolve_def by (intro exI [of _ "db_assignments db"] exI [of _ "[]"]) (simp add: list.rel_refl)

lemma assignments_evolve_trans:
  assumes "assignments_evolve a b" and "assignments_evolve b c"
  shows "assignments_evolve a c"
proof -
  obtain xs ys where b: "db_assignments b = xs @ ys" "list_all2 row_evolves (db_assignments a) xs"
    using assms(1) by (auto simp: assignments_evolve_def)
  obtain us vs where c: "db_assignments c = us @ vs" "list_all2 row_evolves (db_assignments b) us"
    using assms(2) by (auto simp: assignments_evolve_def)
  from c(2) b(1) obtain us1 us2 where us: "us = us1 @ us2" "list_all2 row_evolves xs us1"
    by (auto simp: list_all2_append1)
  have "list_all2 row_evolves (db_assignments a) us1"
    using b(2) us(2) by (rule list_all2_trans [rotated]) (rule row_evolves_trans)
  then show ?thesis using c us by (auto simp: assignments_evolve_def)
qed

lemma change_evolves: "access_change db db' \<Longrightarrow> assignments_evolve db db'"
proof (induction rule: access_change.induct)
  case (roles ps db rs)
  then show ?case using assignments_evolve_refl by (simp add: assignments_evolve_def)
next
  case (grant a db)
  then show ?case
    unfolding assignments_evolve_def
    by (intro exI [of _ "db_assignments db"] exI [of _ "[a]"]) (simp add: list.rel_refl)
next
  case (revoke a db ok t who why)
  have "list_all2 row_evolves (db_assignments db) (map (\<lambda>b. if as_ID b = as_ID a \<and> as_OrgID b = as_OrgID a \<and>
      as_RevokedAt b = None \<and> ok b then revoke_row t who why b else b) (db_assignments db))"
    by (auto simp: list_all2_conv_all_nth row_evolves_def)
  then show ?case
    unfolding assignments_evolve_def by (intro exI conjI [rotated]) (assumption, simp)
qed

lemma changes_evolve: "access_changes db db' \<Longrightarrow> assignments_evolve db db'"
  by (induction rule: rtranclp_induct)
    (auto intro: assignments_evolve_refl assignments_evolve_trans change_evolves)

lemma change_wf: "access_change db db' \<Longrightarrow> assignments_wf db \<Longrightarrow> assignments_wf db'"
proof (induction rule: access_change.induct)
  case (grant a db)
  have other: "\<not> same_identity b a \<and> \<not> same_identity a b" if "b \<in> set (db_assignments db)" "as_RevokedAt b = None" for b
    using grant.hyps(3) that unfolding same_identity_def by metis
  show ?case
    using grant.prems grant.hyps(2) other by (auto simp: assignments_wf_def)
next
  case (revoke a db ok t who why)
  define f where "f = (\<lambda>b. if as_ID b = as_ID a \<and> as_OrgID b = as_OrgID a \<and> as_RevokedAt b = None \<and> ok b
    then revoke_row t who why b else b)"
  have ids: "as_ID (f b) = as_ID b" and live: "as_RevokedAt (f b) = None \<Longrightarrow> f b = b" for b
    by (auto simp: f_def split: if_splits)
  have wf: "distinct (map as_ID (db_assignments db))"
      "\<And>b c. b \<in> set (db_assignments db) \<Longrightarrow> c \<in> set (db_assignments db) \<Longrightarrow> as_RevokedAt b = None \<Longrightarrow>
         as_RevokedAt c = None \<Longrightarrow> same_identity b c \<Longrightarrow> b = c"
    using revoke.prems by (auto simp: assignments_wf_def)
  have "as_ID \<circ> f = as_ID"
    by (auto simp: ids)
  moreover have "f b = f c" if "b \<in> set (db_assignments db)" "c \<in> set (db_assignments db)"
      "as_RevokedAt (f b) = None" "as_RevokedAt (f c) = None" "same_identity (f b) (f c)" for b c
    using wf(2) [of b c] that live [of b] live [of c] by simp
  ultimately show ?case
    using wf(1) unfolding f_def [symmetric] assignments_wf_def by auto
qed (simp add: assignments_wf_def)

lemma changes_wf: "access_changes db db' \<Longrightarrow> assignments_wf db \<Longrightarrow> assignments_wf db'"
  by (induction rule: rtranclp_induct) (auto intro: change_wf)

subsection \<open>The frame\<close>

definition only_roles_changed :: "auth_db \<Rightarrow> auth_db \<Rightarrow> bool" where
  "only_roles_changed db db' \<longleftrightarrow>
     db'\<lparr>db_roles := [], db_role_permissions := [], db_assignments := []\<rparr> =
     db\<lparr>db_roles := [], db_role_permissions := [], db_assignments := []\<rparr>"

lemma changes_frame: "access_changes db db' \<Longrightarrow> only_roles_changed db db'"
proof (induction rule: rtranclp_induct)
  case (step y z)
  from step.hyps(2) have "only_roles_changed y z"
    by (cases rule: access_change.cases) (simp_all add: only_roles_changed_def)
  with step.IH show ?case by (simp add: only_roles_changed_def)
qed (simp add: only_roles_changed_def)

lemma only_roles_changed_members: "only_roles_changed db db' \<Longrightarrow> db_members db' = db_members db"
  unfolding only_roles_changed_def by (drule arg_cong [where f = db_members]) simp

subsection \<open>Owners\<close>

definition org_has_owner :: "auth_db \<Rightarrow> gostring \<Rightarrow> bool" where
  "org_has_owner db org \<longleftrightarrow>
     (\<exists>m\<in>set (db_members db). mb_organization_id m = org \<and> mb_role m = ''owner'' \<and> mb_status m = ''joined'') \<or>
     (\<exists>a\<in>set (db_assignments db). as_OrgID a = org \<and> as_RoleID a = ''sys-org-owner'' \<and> as_RevokedAt a = None)"

lemma remainingOrgOwners_positive:
  "0 < remainingOrgOwners db org i \<longleftrightarrow>
     (\<exists>m\<in>set (db_members db). mb_organization_id m = org \<and> mb_role m = ''owner'' \<and> mb_status m = ''joined'') \<or>
     (\<exists>a\<in>set (db_assignments db). as_OrgID a = org \<and> as_RoleID a = ''sys-org-owner'' \<and> as_ID a \<noteq> i \<and> as_RevokedAt a = None)"
  by (auto simp: remainingOrgOwners_def filter_empty_conv)

lemma change_keeps_owner:
  "access_change db db' \<Longrightarrow> assignments_wf db \<Longrightarrow> org_has_owner db org \<Longrightarrow> org_has_owner db' org"
proof (induction rule: access_change.induct)
  case (revoke a db ok t who why)
  define f where "f = (\<lambda>b. if as_ID b = as_ID a \<and> as_OrgID b = as_OrgID a \<and> as_RevokedAt b = None \<and> ok b
    then revoke_row t who why b else b)"
  show ?case
  proof (cases "\<exists>m\<in>set (db_members db). mb_organization_id m = org \<and> mb_role m = ''owner'' \<and> mb_status m = ''joined''")
    case False
    then obtain b where b: "b \<in> set (db_assignments db)" "as_OrgID b = org" "as_RoleID b = ''sys-org-owner''" "as_RevokedAt b = None"
      using revoke.prems(2) by (auto simp: org_has_owner_def)
    have "\<exists>c\<in>set (db_assignments db). as_OrgID c = org \<and> as_RoleID c = ''sys-org-owner'' \<and> as_RevokedAt c = None \<and> as_ID c \<noteq> as_ID a"
    proof (cases "as_ID b = as_ID a")
      case True
      then have "b = a"
        using revoke.prems(1) revoke.hyps(1) b(1) by (auto simp: assignments_wf_def distinct_map inj_on_def)
      then show ?thesis using revoke.hyps(2) b False by (auto simp: remainingOrgOwners_positive)
    qed (use b in auto)
    then obtain c where "c \<in> set (db_assignments db)" "f c = c" "as_OrgID c = org" "as_RoleID c = ''sys-org-owner''"
        "as_RevokedAt c = None"
      by (auto simp: f_def)
    then have "c \<in> f ` set (db_assignments db)" by (metis imageI)
    then show ?thesis
      using \<open>as_OrgID c = org\<close> \<open>as_RoleID c = ''sys-org-owner''\<close> \<open>as_RevokedAt c = None\<close>
      unfolding f_def [symmetric] org_has_owner_def by auto
  qed (auto simp: org_has_owner_def)
qed (auto simp: org_has_owner_def)

lemma changes_keep_owner:
  assumes "access_changes db db'" and "assignments_wf db" and "org_has_owner db org"
  shows "org_has_owner db' org"
  using assms by (induction rule: rtranclp_induct) (auto intro: change_keeps_owner changes_wf)

subsection \<open>Types of the permissions\<close>

definition permissions_defined :: "auth_db \<Rightarrow> bool" where
  "permissions_defined db \<longleftrightarrow>
     (\<forall>p\<in>set (db_role_permissions db). PermissionDefinedForResource (rp_PermissionKey p) (rp_ResourceKind p))"

lemma changes_defined: "access_changes db db' \<Longrightarrow> permissions_defined db \<Longrightarrow> permissions_defined db'"
proof (induction rule: rtranclp_induct)
  case (step y z)
  from step.hyps(2) show ?case
    by (cases rule: access_change.cases) (use step.IH step.prems in \<open>auto simp: permissions_defined_def\<close>)
qed simp

lemma addCustomEffective_defined:
  assumes "permissions_defined db" and "p \<in> set (dv_out (addCustomEffective db now req d))"
  shows "p \<in> set (dv_out d) \<or> PermissionDefinedForResource (ep_Key p) (rs_Kind (cr_Resource req))"
proof -
  have "PermissionDefinedForResource k (TrimSpace kind) \<longleftrightarrow> PermissionDefinedForResource k kind" for k kind
    by (simp add: PermissionDefinedForResource_def split: option.splits)
  then show ?thesis
    using assms unfolding addCustomEffective_def custom_permissions_def Let_def
    by (auto simp: custom_permission_def set_rolePermissions permissions_defined_def scope_Key_def
        split: if_splits prod.splits) metis+
qed

subsection \<open>Idempotency rows\<close>

lemma find_map_key:
  "(\<And>r. ik_key (f r) = ik_key r) \<Longrightarrow> find (\<lambda>r. ik_key r = k) (map f rows) = map_option f (find (\<lambda>r. ik_key r = k) rows)"
  by (induction rows) auto

lemma find_append: "find P (xs @ ys) = (case find P xs of None \<Rightarrow> find P ys | Some x \<Rightarrow> Some x)"
  by (induction xs) auto

text \<open>The row of a committed key.\<close>

definition answered :: "gostring \<Rightarrow> gostring \<Rightarrow> batch_result \<Rightarrow> access_db \<Rightarrow> bool" where
  "answered key hash res db \<longleftrightarrow>
     (\<exists>r. find (\<lambda>r. ik_key r = TrimSpace key) (ac_idempotency db) = Some r \<and> ik_hash r = hash \<and> ik_response r = Some res)"

lemma begin_new:
  assumes "beginIdempotency key actor operation hash rows = Ok (None, rows')"
  shows "find (\<lambda>r. ik_key r = TrimSpace key) rows = None" and "TrimSpace key \<noteq> []" and
    "rows' = rows @ [\<lparr>ik_key = TrimSpace key, ik_actor = actor, ik_operation = operation, ik_hash = hash, ik_response = None\<rparr>]"
  using assms by (auto simp: beginIdempotency_def Let_def split: if_splits option.splits)

lemma answered_committed:
  assumes "beginIdempotency key actor operation hash rows = Ok (None, rows')"
  shows "answered key hash res \<lparr>ac_tx = t, ac_idempotency = completeIdempotency key res rows'\<rparr>"
  using begin_new [OF assms]
  by (simp add: answered_def completeIdempotency_def find_map_key find_append)

lemma answered_kept:
  assumes "answered key hash res db" and "ApplyBatch en digest req db st = ((r, db'), st')"
  shows "answered key hash res db'"
  using assms(2)
proof (cases rule: ApplyBatch_cases)
  case (committed r t rows st1)
  note new = begin_new [OF committed(3)]
  obtain row where row: "find (\<lambda>r. ik_key r = TrimSpace key) (ac_idempotency db) = Some row" "ik_hash row = hash"
      "ik_response row = Some res"
    using assms(1) by (auto simp: answered_def)
  then have "ik_key row = TrimSpace key" by (auto simp: find_Some_iff)
  moreover have "TrimSpace key \<noteq> TrimSpace (br_IdempotencyKey req)"
    using new(1) row(1) by auto
  ultimately show ?thesis
    using row unfolding committed(4) answered_def completeIdempotency_def new(3)
    by (simp add: find_map_key find_append)
qed (use assms(1) in simp)

lemma answered_history: "access_history digest db db' \<Longrightarrow> answered key hash res db \<Longrightarrow> answered key hash res db'"
  by (induction rule: access_history.induct) (auto intro: answered_kept)

lemma answered_replays:
  assumes "answered (br_IdempotencyKey req) (digest req) res db" and "\<not> blank (br_IdempotencyKey req)"
  shows "ApplyBatch en digest req db st = ((Ok (res\<lparr>bs_Replayed := True\<rparr>), db), invalidateEffectiveCache st)"
  using assms by (auto simp: answered_def ApplyBatch_def beginIdempotency_def Let_def blank_def)

text \<open>An accepted batch leaves the row of its key answered, whether it ran or was replayed.\<close>

lemma accepted_answered:
  assumes "ApplyBatch en digest req db st = ((Ok res, db'), st')"
  obtains res0 where "answered (br_IdempotencyKey req) (digest req) res0 db'" and "res\<lparr>bs_Replayed := True\<rparr> = res0\<lparr>bs_Replayed := True\<rparr>"
    and "\<not> blank (br_IdempotencyKey req)"
proof -
  have key: "\<not> blank (br_IdempotencyKey req)"
    using assms by (auto simp: ApplyBatch_def split: if_splits)
  consider (replay) res0 where "answered (br_IdempotencyKey req) (digest req) res0 db" "res = res0\<lparr>bs_Replayed := True\<rparr>" "db' = db"
    | (run) rows t where
      "beginIdempotency (br_IdempotencyKey req) (br_ActorRef req) ''apply'' (digest req) (ac_idempotency db) = Ok (None, rows)"
      "db' = \<lparr>ac_tx = t, ac_idempotency = completeIdempotency (br_IdempotencyKey req) res rows\<rparr>"
    using assms key unfolding ApplyBatch_def
    by (auto simp: answered_def beginIdempotency_def Let_def split: if_splits sum.splits prod.splits option.splits)
  then show thesis
  proof cases
    case replay
    then show thesis using that key by simp
  next
    case run
    then show thesis using that key answered_committed by blast
  qed
qed

end
