(* ===== verification/Authz_Delegation.thy ===== *)
theory Authz_Delegation
  imports Authz_History
begin

section \<open>What an actor may delegate\<close>

text \<open>
  Whoever assigns a role must hold each of its permissions and be allowed to delegate it.  The
  lemmas trace the loop of \<open>requireDelegatableRole\<close> back to the derivation from the tables: on
  a resource that is not a file the derivation does not read the state of the service, and
  what the loop reads from the cache is what it has put there.
\<close>

subsection \<open>The derivation reads the tables only\<close>

lemma resolved_kind: "rs_Kind (fst (resolveResource db r)) = TrimSpace (rs_Kind r)"
proof -
  have w: "rs_Kind (fst (resolve_wildcard db s)) = rs_Kind s" for s
    by (simp add: resolve_wildcard_def split: option.split)
  have c: "rs_Kind (fst (check_org s what org f)) = rs_Kind s" if "\<And>x. rs_Kind (f x) = rs_Kind x" for s what org f
    using that by (simp add: check_org_def)
  have child: "rs_Kind (fst (resolve_child db s)) = rs_Kind s" for s
    by (simp add: resolve_child_def Let_def w c split: option.split sum.split)
  have conv: "rs_Kind (fst (resolve_conversation db s)) = rs_Kind s" for s
    by (simp add: resolve_conversation_def c split: sum.split)
  have org: "rs_Kind (fst (resolve_org db s)) = rs_Kind s" for s
    by (simp add: resolve_org_def Let_def split: option.split)
  have if_kind: "rs_Kind (fst (if b then x else y)) = k" if "rs_Kind (fst x) = k" "rs_Kind (fst y) = k" for b k and x y :: resolve_result
    using that by simp
  show ?thesis
    unfolding resolveResource_def Let_def
    by (intro if_kind) (simp_all add: w c child conv org trim_resource_def split: sum.split)
qed

lemma asked_kind: "rs_Kind (cr_Resource (as_asked db req)) = TrimSpace (rs_Kind (cr_Resource req))"
  by (simp add: as_asked_def resolved_kind)

lemma legacy_state_free:
  assumes "rs_Kind (cr_Resource req) \<noteq> ''file''"
  shows "deriveLegacyEffective reach db now req c = (fst (deriveLegacyEffective reach db now req c'), c)"
proof -
  have kind: "legacy_kind_step reach db req d c = (fst (legacy_kind_step reach db req d c'), c)" for d
    using assms by (simp add: legacy_kind_step_def Let_def)
  have "addLegacyEffective reach db req d c = (fst (addLegacyEffective reach db req d c'), c)" for d
    unfolding addLegacyEffective_def Let_def by (simp add: kind split: option.split sum.split)
  from this [of "bearer_step req empty_derivation"] show ?thesis
    by (simp add: deriveLegacyEffective_def split_beta)
qed

lemma equivalent_state_free:
  assumes "rs_Kind (cr_Resource req) \<noteq> ''file''"
  shows "deriveEquivalentEffective reach db now req c = (fst (deriveEquivalentEffective reach db now req c'), c)"
proof -
  have kind: "equivalent_kind_step reach db req d c = (fst (equivalent_kind_step reach db req d c'), c)" for d
    using assms by (simp add: equivalent_kind_step_def Let_def)
  have "addBuiltinEquivalentEffective reach db req d c = (fst (addBuiltinEquivalentEffective reach db req d c'), c)" for d
    unfolding addBuiltinEquivalentEffective_def Let_def by (simp add: kind split: option.split sum.split)
  from this [of "bearer_step req empty_derivation"] show ?thesis
    by (simp add: deriveEquivalentEffective_def split_beta)
qed

lemma uncached_state_free:
  assumes "rs_Kind (cr_Resource req) \<noteq> ''file''"
  shows "fst (deriveEffectiveUncached reach mode db now req st) = fst (deriveEffectiveUncached reach mode db now req st')"
    and "au_cache (snd (deriveEffectiveUncached reach mode db now req st)) = au_cache st"
  using legacy_state_free [OF assms, of reach db now st st'] equivalent_state_free [OF assms, of reach db now st st']
    legacy_state_free [OF assms, of reach db now st' st'] equivalent_state_free [OF assms, of reach db now st' st']
  unfolding deriveEffectiveUncached_def by (simp_all split: prod.split) (metis fst_conv snd_conv)+

subsection \<open>One permission\<close>

lemma explain_delegatable_derived:
  assumes "explain_delegatable en db actor key r st = (None, st')"
  shows "\<exists>d. deriveEffective (fileRefReachable (en_mode en) db (en_now en)) (en_mode en) db (en_now en)
      (as_asked db (system_request actor key r)) st = ((d, None), st') \<and> (\<exists>q \<in> set (dv_out d). ep_Key q = key \<and> ep_Delegatable q)"
  using assms unfolding explain_delegatable_def delegatable_def ResolveEffective_def ResolveEffective_with_def Let_def
  by (auto simp: list_ex_iff as_asked_def system_request_def split: prod.splits option.splits if_splits)

text \<open>
  A state tells the truth about a request when it holds no decision for it at the current
  version of the tables, or holds what the derivation yields.
\<close>

definition truthful :: "auth_env \<Rightarrow> auth_db \<Rightarrow> auth_state \<Rightarrow> check_request \<Rightarrow> bool" where
  "truthful en db st req \<longleftrightarrow>
     (case getCachedEffective (effectiveCacheKey req) (effectiveVersion db) st of
        None \<Rightarrow> True
      | Some entry \<Rightarrow> \<exists>d. fst (deriveEffectiveUncached (fileRefReachable (en_mode en) db (en_now en)) (en_mode en) db (en_now en) req st)
          = (d, None) \<and> dv_out d = ce_effective entry)"

lemma cache_key_permission:
  "effectiveCacheKey (as_asked db (system_request actor k r)) = effectiveCacheKey (as_asked db (system_request actor k' r)) \<longleftrightarrow> k = k'"
  by (simp add: effectiveCacheKey_def as_asked_def system_request_def Let_def)

lemma truthful_derives:
  assumes "rs_Kind (cr_Resource req) \<noteq> ''file''" and "truthful en db st req"
    and "deriveEffective (fileRefReachable (en_mode en) db (en_now en)) (en_mode en) db (en_now en) req st = ((d, None), st')"
  shows "\<exists>d'. fst (deriveEffectiveUncached (fileRefReachable (en_mode en) db (en_now en)) (en_mode en) db (en_now en) req st0)
      = (d', None) \<and> dv_out d' = dv_out d"
proof (cases "getCachedEffective (effectiveCacheKey req) (effectiveVersion db) st")
  case None
  with assms(3) have "fst (deriveEffectiveUncached (fileRefReachable (en_mode en) db (en_now en)) (en_mode en) db (en_now en) req st) = (d, None)"
    by (auto simp: deriveEffective_def Let_def split: prod.splits option.splits)
  then show ?thesis using uncached_state_free(1) [OF assms(1), of _ _ _ _ st st0] by simp
next
  case (Some entry)
  with assms(3) have "dv_out d = ce_effective entry" by (auto simp: deriveEffective_def Let_def)
  moreover obtain d' where "fst (deriveEffectiveUncached (fileRefReachable (en_mode en) db (en_now en)) (en_mode en) db (en_now en) req st)
      = (d', None)" "dv_out d' = ce_effective entry"
    using Some assms(2) by (auto simp: truthful_def)
  moreover note uncached_state_free(1) [OF assms(1), of _ _ _ _ st st0]
  ultimately show ?thesis by simp
qed

lemma derive_keeps_truth:
  assumes "TrimSpace (rs_Kind r) \<noteq> ''file''" and "\<And>key. key \<in> K \<Longrightarrow> truthful en db st (as_asked db (system_request actor key r))"
    and "k \<in> K" and "deriveEffective (fileRefReachable (en_mode en) db (en_now en)) (en_mode en) db (en_now en)
      (as_asked db (system_request actor k r)) st = ((d, None), st')"
  shows "\<And>key. key \<in> K \<Longrightarrow> truthful en db st' (as_asked db (system_request actor key r))"
proof -
  fix key assume key: "key \<in> K"
  let ?q = "\<lambda>key. as_asked db (system_request actor key r)"
  let ?un = "\<lambda>key. deriveEffectiveUncached (fileRefReachable (en_mode en) db (en_now en)) (en_mode en) db (en_now en) (?q key)"
  have nf: "rs_Kind (cr_Resource (?q key)) \<noteq> ''file''" for key
    using assms(1) by (simp add: asked_kind system_request_def)
  obtain d' where d': "fst (?un k st') = (d', None)" "dv_out d' = dv_out d"
    using truthful_derives [OF nf assms(2) [OF assms(3)] assms(4)] by blast
  have cache: "st' = st \<or> (\<exists>e. ce_effective e = dv_out d \<and> au_cache st' = AList.update (effectiveCacheKey (?q k)) e (au_cache st))"
  proof (cases "getCachedEffective (effectiveCacheKey (?q k)) (effectiveVersion db) st")
    case None
    obtain x st1 where x: "?un k st = (x, st1)" by fastforce
    have c: "au_cache st1 = au_cache st"
      using uncached_state_free(2) [OF nf [of k], of "fileRefReachable (en_mode en) db (en_now en)" "en_mode en" db "en_now en" st] x by simp
    let ?e = "\<lparr>ce_version = effectiveVersion db, ce_effective = dv_out d, ce_denied = dv_denied d,
         ce_resolvedOrg = rs_OrgID (cr_Resource (?q k))\<rparr>"
    from None assms(4) x have "au_cache st' = AList.update (effectiveCacheKey (?q k)) ?e (au_cache st1)"
      by (auto simp: deriveEffective_def Let_def putCachedEffective_def split: prod.splits option.splits)
    then show ?thesis
      unfolding c by (intro disjI2 exI [of _ ?e] conjI) simp_all
  next
    case (Some e)
    with assms(4) show ?thesis by (simp add: deriveEffective_def Let_def)
  qed
  show "truthful en db st' (?q key)"
  proof (cases "key = k \<and> st' \<noteq> st")
    case True
    with cache d' show ?thesis
      by (auto simp: truthful_def getCachedEffective_def update_conv' split: option.splits if_splits)
  next
    case False
    then have "getCachedEffective (effectiveCacheKey (?q key)) (effectiveVersion db) st' =
        getCachedEffective (effectiveCacheKey (?q key)) (effectiveVersion db) st"
      using cache by (auto simp: getCachedEffective_def update_conv' cache_key_permission)
    then show ?thesis
      using assms(2) [OF key] uncached_state_free(1) [OF nf [of key], of _ _ _ _ st' st] unfolding truthful_def
      by (auto split: option.splits)
  qed
qed

subsection \<open>The loop\<close>

lemma delegatable_loop_derived:
  assumes "TrimSpace (rs_Kind r) \<noteq> ''file''" and "rp_PermissionKey ` set ps \<subseteq> K"
    and "\<And>key. key \<in> K \<Longrightarrow> truthful en db st (as_asked db (system_request actor key r))"
    and "delegatable_loop en db actor r ps st = (None, st')" and "p \<in> set ps"
  shows "rp_ResourceKind p = rs_Kind r \<and> PermissionDefinedForResource (rp_PermissionKey p) (rs_Kind r) \<and>
    (\<exists>d. fst (deriveEffectiveUncached (fileRefReachable (en_mode en) db (en_now en)) (en_mode en) db (en_now en)
           (as_asked db (system_request actor (rp_PermissionKey p) r)) st0) = (d, None) \<and>
         (\<exists>q \<in> set (dv_out d). ep_Key q = rp_PermissionKey p \<and> ep_Delegatable q))"
  using assms(2-)
proof (induction ps arbitrary: st)
  case (Cons x ps)
  have same: "r\<lparr>rs_Kind := rs_Kind r\<rparr> = r" by simp
  from Cons.prems(3) obtain st1 where first: "rp_ResourceKind x = rs_Kind r"
      "PermissionDefinedForResource (rp_PermissionKey x) (rs_Kind r)"
      "explain_delegatable en db actor (rp_PermissionKey x) r st = (None, st1)"
      and rest: "delegatable_loop en db actor r ps st1 = (None, st')"
    by (auto split: if_splits prod.splits option.splits)
  obtain d where d: "deriveEffective (fileRefReachable (en_mode en) db (en_now en)) (en_mode en) db (en_now en)
      (as_asked db (system_request actor (rp_PermissionKey x) r)) st = ((d, None), st1)"
      "\<exists>q \<in> set (dv_out d). ep_Key q = rp_PermissionKey x \<and> ep_Delegatable q"
    using explain_delegatable_derived [OF first(3)] by blast
  have x: "rp_PermissionKey x \<in> K" using Cons.prems(1) by simp
  show ?case
  proof (cases "p = x")
    case True
    have "rs_Kind (cr_Resource (as_asked db (system_request actor (rp_PermissionKey x) r))) \<noteq> ''file''"
      using assms(1) by (simp add: asked_kind system_request_def)
    from truthful_derives [OF this Cons.prems(2) [OF x] d(1), of st0] d(2) first True show ?thesis by auto
  next
    case False
    show ?thesis
    proof (rule Cons.IH)
      show "rp_PermissionKey ` set ps \<subseteq> K" "p \<in> set ps" using Cons.prems(1,4) False by auto
      show "truthful en db st1 (as_asked db (system_request actor key r))" if "key \<in> K" for key
        by (rule derive_keeps_truth [OF assms(1) Cons.prems(2) x d(1) that])
      show "delegatable_loop en db actor r ps st1 = (None, st')" by (rule rest)
    qed
  qed
qed simp

end
