(* ===== verification/Authz_Access.thy ===== *)
theory Authz_Access
  imports Authz_Delegation
begin

section \<open>Properties of the access changes\<close>

text \<open>
  The invariants of every history of batches, the replay of a batch, what an assignment requires, and two
  behaviours that the callers do not expect: a derived assignment id is used once for good, and the
  permissions that no agent may be assigned reach an agent through the role that it already has.
\<close>

subsection \<open>An organization to try them on\<close>

definition access_env :: auth_env where
  "access_env = \<lparr>en_mode = EnforcementLegacy, en_now = 5, en_ts = ''t5'', en_shortHash = (\<lambda>s. s), en_roleHash = (\<lambda>s. s)\<rparr>"

definition reader_role :: role_row where
  "reader_role = \<lparr>ro_ID = ''r1'', ro_OrgID = ''o1'', ro_Kind = ''custom'', ro_Visibility = ''reusable'', ro_Name = ''reader'',
     ro_Description = [], ro_CreatedBy = ''user:ann'', ro_CreatedAt = 1, ro_UpdatedAt = 1, ro_Version = 1, ro_RevokedAt = None\<rparr>"

definition bot_assignment :: role_assignment where
  "bot_assignment = (new_assignment ''asgn-o1|agent:m3|r1|org|o1'' ''o1'' ''agent:m3'' ''r1'' ''org'' ''o1'' ''user:ann'' (Some 3))
     \<lparr>as_CreatedAt := 1, as_Version := 1\<rparr>"

definition lasting_assignment :: role_assignment where
  "lasting_assignment = bot_assignment\<lparr>as_ExpiresAt := None\<rparr>"

definition access_tables :: "role_assignment list \<Rightarrow> auth_db" where
  "access_tables assignments =
     \<lparr>db_organizations = [\<lparr>og_id = ''o1'', og_disabled_at = None, og_deleted = False\<rparr>],
      db_members =
        [\<lparr>mb_id = ''m1'', mb_organization_id = ''o1'', mb_identity_id = ''ann'', mb_role = ''owner'', mb_status = ''joined''\<rparr>,
         \<lparr>mb_id = ''m3'', mb_organization_id = ''o1'', mb_identity_id = ''bot'', mb_role = ''member'', mb_status = ''joined''\<rparr>],
      db_projects = [], db_project_members = [], db_tasks = [], db_issues = [], db_plans = [], db_conversations = [],
      db_agents = [], db_file_references = [], db_teams = [], db_team_members = [], db_team_projects = [],
      db_role_mappings = [], db_role_mapping_versions = [], db_curators = [], db_roles = [reader_role],
      db_role_permissions = [role_perm ''r1'' ''org.read'' ''org'' False], db_assignments = assignments\<rparr>"

definition access_start :: "role_assignment list \<Rightarrow> access_db" where
  "access_start assignments = \<lparr>ac_tx = \<lparr>tx_db = access_tables assignments, tx_audit = []\<rparr>, ac_idempotency = []\<rparr>"

definition blank_operation :: "gostring \<Rightarrow> batch_operation" where
  "blank_operation ty =
     \<lparr>bo_ID = ''op'', bo_Type = ty,
      bo_Role = \<lparr>in_ID = [], in_Kind = [], in_Visibility = [], in_Name = [], in_Description = []\<rparr>, bo_Permissions = [],
      bo_Assignment = \<lparr>ai_ID = [], ai_SubjectRef = [], ai_RoleID = [], ai_Resource = empty_resource, ai_ExpiresAt = None\<rparr>,
      bo_DirectGrant = \<lparr>dg_ID = [], dg_SubjectRef = [], dg_PermissionKey = [], dg_Resource = empty_resource, dg_ExpiresAt = None\<rparr>,
      bo_Revoke = \<lparr>rv_AssignmentID = [], rv_SubjectRef = [], rv_RoleID = [], rv_Resource = empty_resource, rv_Reason = [],
        rv_Message = [], rv_ExpectedVersion = 0\<rparr>\<rparr>"

definition assign_operation :: "subject_ref \<Rightarrow> gostring \<Rightarrow> time option \<Rightarrow> batch_operation" where
  "assign_operation subject roleID expires =
     (blank_operation ''assign_role'')\<lparr>bo_Assignment := \<lparr>ai_ID = [], ai_SubjectRef = subject, ai_RoleID = roleID,
        ai_Resource = org_resource ''o1'', ai_ExpiresAt = expires\<rparr>\<rparr>"

definition set_permissions_operation :: "gostring \<Rightarrow> role_permission_input list \<Rightarrow> batch_operation" where
  "set_permissions_operation roleID ps =
     (blank_operation ''set_role_permissions'')\<lparr>bo_Role := (bo_Role (blank_operation []))\<lparr>in_ID := roleID\<rparr>, bo_Permissions := ps\<rparr>"

definition access_request :: "gostring \<Rightarrow> batch_operation list \<Rightarrow> batch_request" where
  "access_request key ops = \<lparr>br_IdempotencyKey = key, br_ActorRef = ''system'', br_OrgID = ''o1'', br_Operations = ops\<rparr>"

definition first_batch :: "((auth_error + batch_result) \<times> access_db) \<times> auth_state" where
  "first_batch = ApplyBatch access_env (\<lambda>_. ''h'') (access_request ''k1'' [assign_operation ''agent:m3'' ''r1'' None])
     (access_start []) empty_auth_state"

lemma first_batch_Ok:
  "first_batch = ((Ok \<lparr>bs_IdempotencyKey = ''k1'', bs_Replayed = False, bs_Preview = False,
       bs_Operations = [\<lparr>op_ID = ''op'', op_Type = ''assign_role'', op_Status = ''created'', op_RoleID = ''r1'',
         op_AssignmentID = as_ID bot_assignment, op_Reason = []\<rparr>]\<rparr>, snd (fst first_batch)), snd first_batch)"
  by code_simp

lemma first_batch_run:
  "ApplyBatch access_env (\<lambda>_. ''h'') (access_request ''k1'' [assign_operation ''agent:m3'' ''r1'' None])
     (access_start []) empty_auth_state = ((fst (fst first_batch), snd (fst first_batch)), snd first_batch)"
  by (simp add: first_batch_def)

lemma first_history: "access_history (\<lambda>_. ''h'') (access_start []) (snd (fst first_batch))"
  by (rule access_history.batch [OF access_history.start first_batch_run])

subsection \<open>Invariants of every history\<close>

text \<open>
  C14: the assignment table over any history of batches, whatever the operations, actors, clocks and outcomes.  Ids stay
  unique and a subject holds a role on a resource through one live row at most; no row is deleted, a row is changed at
  most once, by its revocation, and a revoked row never comes back; and no other table but the roles, their
  permissions and the assignments is written.
\<close>

theorem access_history_sound:
  assumes "access_history digest db db'" and "assignments_wf (tables db)"
  shows "assignments_wf (tables db') \<and> assignments_evolve (tables db) (tables db') \<and>
    only_roles_changed (tables db) (tables db')"
  using assms history_changes changes_wf changes_evolve changes_frame by blast

theorem access_history_sound_witness:
  "assignments_evolve (access_tables []) (tables (snd (fst first_batch))) \<and>
   assignments_wf (tables (snd (fst first_batch)))"
  using access_history_sound [OF first_history] by (simp add: access_start_def assignments_wf_def access_tables_def)

text \<open>
  C15: no history of batches takes the last owner from an organization: when it has a joined member with the owner role
  or an unrevoked assignment of sys-org-owner, it still has one afterwards.  The guard and the statement count an
  assignment that has expired as an owner.
\<close>

theorem owner_remains:
  assumes "access_history digest db db'" and "assignments_wf (tables db)" and "org_has_owner (tables db) org"
  shows "org_has_owner (tables db') org"
  using assms history_changes changes_keep_owner by blast

theorem owner_remains_witness:
  "org_has_owner (tables (snd (fst first_batch))) ''o1''"
  using owner_remains [OF first_history, of "''o1''"]
  by (simp add: access_start_def assignments_wf_def access_tables_def org_has_owner_def)

text \<open>
  C19: the role tables stay well typed.  When every stored permission is registered for the kind it is stored with, so is
  every stored permission after any history of batches, and every permission that the decision then derives from the
  assignments is registered for the kind of the resource it is asked for.
\<close>

theorem permissions_stay_defined:
  assumes "access_history digest db db'" and "permissions_defined (tables db)"
  shows "permissions_defined (tables db') \<and>
    (\<forall>p \<in> set (dv_out (addCustomEffective (tables db') now req d)).
       p \<in> set (dv_out d) \<or> PermissionDefinedForResource (ep_Key p) (rs_Kind (cr_Resource req)))"
  using changes_defined [OF history_changes [OF assms(1)] assms(2)] addCustomEffective_defined by blast

theorem permissions_stay_defined_witness:
  "permissions_defined (tables (snd (fst first_batch)))"
proof -
  have "permissions_defined (tables (access_start []))"
    unfolding permissions_defined_def list_all_iff [symmetric] by code_simp
  then show ?thesis using permissions_stay_defined [OF first_history] by blast
qed

subsection \<open>Replay\<close>

text \<open>
  C17: an accepted batch is never run again.  After any history that follows it, a request with the same key and the same
  digest is answered with the stored result, marked as replayed, and writes nothing, whatever the tables hold by then.
  A caller that derives the key from the new state alone therefore cannot return to an earlier state: setting a role to
  one set of permissions, to another and back leaves the second set in force and reports success.
\<close>

theorem batch_replay:
  assumes "ApplyBatch en digest req db st = ((Ok res, db1), st1)" and "access_history digest db1 db2"
  shows "ApplyBatch en' digest req db2 st2 = ((Ok (res\<lparr>bs_Replayed := True\<rparr>), db2), invalidateEffectiveCache st2)"
proof -
  obtain res0 where "answered (br_IdempotencyKey req) (digest req) res0 db1"
      and res0: "res\<lparr>bs_Replayed := True\<rparr> = res0\<lparr>bs_Replayed := True\<rparr>" and key: "\<not> blank (br_IdempotencyKey req)"
    using accepted_answered [OF assms(1)] by blast
  then have "answered (br_IdempotencyKey req) (digest req) res0 db2"
    using answered_history [OF assms(2)] by blast
  from answered_replays [where digest = digest and req = req, OF this key] show ?thesis by (simp only: res0)
qed

theorem batch_replay_witness:
  "\<exists>res. ApplyBatch access_env (\<lambda>_. ''h'') (access_request ''k1'' [assign_operation ''agent:m3'' ''r1'' None])
     (snd (fst first_batch)) empty_auth_state =
     ((Ok (res\<lparr>bs_Replayed := True\<rparr>), snd (fst first_batch)), invalidateEffectiveCache empty_auth_state)"
proof -
  obtain res where "fst (fst first_batch) = Ok res"
    using first_batch_Ok by (metis fst_conv)
  then have "ApplyBatch access_env (\<lambda>_. ''h'') (access_request ''k1'' [assign_operation ''agent:m3'' ''r1'' None])
     (access_start []) empty_auth_state = ((Ok res, snd (fst first_batch)), snd first_batch)"
    using first_batch_run by simp
  from batch_replay [OF this access_history.start] show ?thesis by blast
qed

subsection \<open>Assignments\<close>

lemma find_in: "find P xs = Some x \<Longrightarrow> x \<in> set xs \<and> P x"
  by (induction xs) (auto split: if_splits)

lemma scope_Key_fixed:
  "scope_Key r = (kind, i) \<Longrightarrow> TrimSpace kind = kind \<and> TrimSpace i = i"
  by (auto simp: scope_Key_def Let_def split: if_splits)

lemma runOperation_assign:
  "TrimSpace (bo_Type op) = ''assign_role'' \<Longrightarrow> runOperation en actor orgID requestID op t st = op_assign_role en actor orgID op t st"
  by (simp add: runOperation_def)

lemma new_assignment_fields [simp]:
  "as_ID (new_assignment i orgID subject roleID kind rid actor e) = i"
  "as_ID (assignment_row en (trim_assignment (new_assignment i orgID subject roleID kind rid actor e))) =
     (if i = [] then ''asgn-'' @ en_shortHash en (Join [TrimSpace orgID, TrimSpace subject, TrimSpace roleID, TrimSpace kind, TrimSpace rid] ''|'') else i)"
  by (simp_all add: new_assignment_def assignment_row_def trim_assignment_def)

text \<open>
  C21: without an id of its own an assignment gets the hash of its identity as its id, and that id is good for one row.
  Once the row exists, an accepted assign_role of the same identity never writes the assignment table: it answers
  unchanged, with the row that is still unrevoked and keeps its old expiry, and when no such row is left the operation
  fails on the primary key.  A revoked grant cannot be given again and an expired one cannot be renewed.
\<close>

theorem grant_never_renewed:
  assumes "runOperation en actor orgID requestID op t st = (Ok (x, t'), st')"
    and "TrimSpace (bo_Type op) = ''assign_role''" and "ai = bo_Assignment op" and "TrimSpace (ai_ID ai) = []"
    and "scope_Key (ai_Resource ai) = (kind, i)" and "b \<in> set (db_assignments (tx_db t))"
    and "as_ID b = derived_assignment_id en orgID (ai_SubjectRef ai) (TrimSpace (ai_RoleID ai)) kind i"
  shows "op_Status x = ''unchanged'' \<and> db_assignments (tx_db t') = db_assignments (tx_db t) \<and>
    (\<exists>c\<in>set (db_assignments (tx_db t)). as_RevokedAt c = None \<and> as_RoleID c = TrimSpace (ai_RoleID ai) \<and>
       as_SubjectRef c = TrimSpace (ai_SubjectRef ai) \<and> (as_ResourceKind c, as_ResourceID c) = (kind, i))"
proof -
  let ?new = "assignment_row en (trim_assignment (new_assignment (as_ID b) orgID (ai_SubjectRef ai)
      (TrimSpace (ai_RoleID ai)) kind i actor (ai_ExpiresAt ai)))"
  obtain a db' where assigned: "assignRole en (new_assignment (as_ID b) orgID (ai_SubjectRef ai) (TrimSpace (ai_RoleID ai))
      kind i actor (ai_ExpiresAt ai)) (tx_db t) = Ok (a, op_Status x, db')" and db': "tx_db t' = db'"
    using assms(1) unfolding runOperation_assign [OF assms(2)]
    by (elim op_assign_role_Ok) (use assms(3-5,7) in auto)
  have id: "as_ID ?new = as_ID b"
    unfolding assms(7) by (simp add: derived_assignment_id_def)
  then have "insert_assignment ?new (tx_db t) = Err ErrConstraint"
    using assms(6) by (auto simp: insert_assignment_def list_ex_iff)
  then have "findActiveAssignment (tx_db t) ?new = Ok a" "op_Status x = ''unchanged''" "db' = tx_db t"
    using assigned unfolding assignRole_def Let_def by (auto split: if_splits sum.splits)
  then obtain c where "c \<in> set (db_assignments (tx_db t))" "same_identity c ?new" "as_RevokedAt c = None"
    by (auto simp: findActiveAssignment_def scan_assignment_def split: option.splits dest!: find_in)
  moreover have "TrimSpace kind = kind" "TrimSpace i = i"
    using scope_Key_fixed [OF assms(5)] by simp_all
  ultimately show ?thesis
    using \<open>op_Status x = ''unchanged''\<close> \<open>db' = tx_db t\<close> db'
    by (auto simp: same_identity_def assignment_row_def trim_assignment_def new_assignment_def)
qed

text \<open>The agent's grant ended at 3; at 5 the system grants it again without an end.\<close>

theorem grant_never_renewed_witness:
  "\<exists>x t st. runOperation access_env ''system'' ''o1'' ''k'' (assign_operation ''agent:m3'' ''r1'' None)
      (ac_tx (access_start [bot_assignment])) empty_auth_state = (Ok (x, t), st) \<and>
     op_Status x = ''unchanged'' \<and> db_assignments (tx_db t) = [bot_assignment] \<and> \<not> assignment_live 5 bot_assignment"
proof -
  let ?op = "assign_operation ''agent:m3'' ''r1'' None" and ?t = "ac_tx (access_start [bot_assignment])"
  let ?run = "runOperation access_env ''system'' ''o1'' ''k'' ?op ?t empty_auth_state"
  have "case fst ?run of Ok _ \<Rightarrow> True | Err _ \<Rightarrow> False" by code_simp
  then obtain x t st where run: "?run = (Ok (x, t), st)" by (cases ?run) (auto split: sum.splits)
  have type: "TrimSpace (bo_Type ?op) = ''assign_role''" and id: "TrimSpace (ai_ID (bo_Assignment ?op)) = []"
    and key: "scope_Key (ai_Resource (bo_Assignment ?op)) = (''org'', ''o1'')"
    and derived: "as_ID bot_assignment = derived_assignment_id access_env ''o1'' (ai_SubjectRef (bo_Assignment ?op))
       (TrimSpace (ai_RoleID (bo_Assignment ?op))) ''org'' ''o1''"
    by code_simp+
  have rows: "db_assignments (tx_db ?t) = [bot_assignment]" by (simp add: access_start_def access_tables_def)
  then have "op_Status x = ''unchanged'' \<and> db_assignments (tx_db t) = [bot_assignment]"
    using grant_never_renewed [OF run type refl id key _ derived] by simp
  moreover have "\<not> assignment_live 5 bot_assignment" by code_simp
  ultimately show ?thesis using run by blast
qed

subsection \<open>Delegation\<close>

text \<open>
  C16: assigning a role gives away nothing that the actor does not hold.  When an assignment by anyone but the system is
  accepted, on a resource that is not a file and with no decision cached for what is asked of the actor, the subject is a
  user or an agent that has joined the organization, the role has permissions, each is registered for the kind of the
  resource, and the derivation from the membership, role and assignment tables gives each to the actor on that resource
  and lets him delegate it; an agent gets no permission of the forbidden list.
\<close>

theorem assign_only_delegated:
  assumes "runOperation en actor orgID requestID op t st = (Ok (x, t'), st')"
    and "TrimSpace (bo_Type op) = ''assign_role''" and "actor \<noteq> ''system''" and "ai = bo_Assignment op" and "db = tx_db t"
    and "r = fst (resolveResource db (ai_Resource ai))" and "rs_Kind r \<noteq> ''file''"
    and "ps = rolePermissions db (TrimSpace (ai_RoleID ai))"
    and "\<forall>p \<in> set ps. getCachedEffective (effectiveCacheKey (as_asked db (system_request actor (rp_PermissionKey p) r)))
      (effectiveVersion db) st = None"
  shows "snd (snd (resolveResource db (ai_Resource ai))) = None \<and> rs_OrgID r = orgID \<and>
    (IsUser (ai_SubjectRef ai) \<or> IsAgent (ai_SubjectRef ai)) \<and> orgMember db orgID (ai_SubjectRef ai) \<noteq> None \<and> ps \<noteq> [] \<and>
    (\<forall>p\<in>set ps.
       rp_ResourceKind p = rs_Kind r \<and> PermissionDefinedForResource (rp_PermissionKey p) (rs_Kind r) \<and>
       (IsAgent (ai_SubjectRef ai) \<longrightarrow> rp_PermissionKey p \<notin> set agentForbiddenPermissions) \<and>
       (\<exists>d. fst (deriveEffectiveUncached (fileRefReachable (en_mode en) db (en_now en)) (en_mode en) db (en_now en)
              (as_asked db (system_request actor (rp_PermissionKey p) r)) st) = (d, None) \<and>
          (\<exists>q\<in>set (dv_out d). ep_Key q = rp_PermissionKey p \<and> ep_Delegatable q)))"
proof -
  obtain r' d st1 where r: "resolveResource db (ai_Resource ai) = (r', d, None)" "rs_OrgID r' = orgID"
      and subject: "requireAssignmentSubjectApplicable db (ai_SubjectRef ai) (TrimSpace (ai_RoleID ai)) r' = None"
      and loop: "requireDelegatableRole en db actor (TrimSpace (ai_RoleID ai)) r' st = (None, st1)"
    using assms(1) unfolding runOperation_assign [OF assms(2)] assms(4,5) by (elim op_assign_role_Ok) blast
  have r': "r' = r" using r(1) assms(6) by simp
  have member: "IsUser (ai_SubjectRef ai) \<or> IsAgent (ai_SubjectRef ai)" "orgMember db orgID (ai_SubjectRef ai) \<noteq> None"
    and harmless: "\<And>p. p \<in> set ps \<Longrightarrow> IsAgent (ai_SubjectRef ai) \<Longrightarrow> rp_PermissionKey p \<notin> set agentForbiddenPermissions"
    using subject r(2) unfolding requireAssignmentSubjectApplicable_def assms(8) by (auto simp: list_ex_iff split: if_splits)
  have perms: "ps \<noteq> []" "delegatable_loop en db actor r ps st = (None, st1)"
    using loop assms(3) unfolding requireDelegatableRole_def assms(8) r' by (auto split: list.splits)
  have kind: "TrimSpace (rs_Kind r) \<noteq> ''file''" using assms(7) by (simp add: assms(6) resolved_kind)
  have "rp_ResourceKind p = rs_Kind r \<and> PermissionDefinedForResource (rp_PermissionKey p) (rs_Kind r) \<and>
    (\<exists>d. fst (deriveEffectiveUncached (fileRefReachable (en_mode en) db (en_now en)) (en_mode en) db (en_now en)
           (as_asked db (system_request actor (rp_PermissionKey p) r)) st) = (d, None) \<and>
         (\<exists>q \<in> set (dv_out d). ep_Key q = rp_PermissionKey p \<and> ep_Delegatable q))" if "p \<in> set ps" for p
    by (rule delegatable_loop_derived [OF kind order.refl _ perms(2) that]) (use assms(9) in \<open>auto simp: truthful_def\<close>)
  with r r' member harmless perms(1) show ?thesis by auto
qed

text \<open>The owner gives the reader role to the agent.\<close>

theorem assign_only_delegated_witness:
  "\<exists>d. fst (deriveEffectiveUncached (fileRefReachable EnforcementLegacy (access_tables []) 5) EnforcementLegacy (access_tables []) 5
        (as_asked (access_tables []) (system_request ''user:ann'' ''org.read'' ((org_resource ''o1'')\<lparr>rs_OrgID := ''o1''\<rparr>)))
        empty_auth_state) = (d, None) \<and>
     (\<exists>q\<in>set (dv_out d). ep_Key q = ''org.read'' \<and> ep_Delegatable q)"
proof -
  let ?op = "assign_operation ''agent:m3'' ''r1'' None" and ?t = "ac_tx (access_start [])"
  let ?run = "runOperation access_env ''user:ann'' ''o1'' ''k'' ?op ?t empty_auth_state"
  have "case fst ?run of Ok _ \<Rightarrow> True | Err _ \<Rightarrow> False" by code_simp
  then obtain x t st where run: "?run = (Ok (x, t), st)" by (cases ?run) (auto split: sum.splits)
  have type: "TrimSpace (bo_Type ?op) = ''assign_role''"
    and resolved: "resolveResource (tx_db ?t) (ai_Resource (bo_Assignment ?op)) = ((org_resource ''o1'')\<lparr>rs_OrgID := ''o1''\<rparr>, [], None)"
    and perms: "rolePermissions (tx_db ?t) (TrimSpace (ai_RoleID (bo_Assignment ?op))) = [role_perm ''r1'' ''org.read'' ''org'' False]"
    by code_simp+
  have env: "en_mode access_env = EnforcementLegacy" "en_now access_env = 5" "tx_db ?t = access_tables []"
    by (simp_all add: access_env_def access_start_def)
  have org: "rs_Kind ((org_resource ''o1'')\<lparr>rs_OrgID := ''o1''\<rparr>) \<noteq> ''file''" by (simp add: org_resource_def)
  have fresh: "getCachedEffective k v empty_auth_state = None" for k v
    by (simp add: getCachedEffective_def empty_auth_state_def)
  have "rp_PermissionKey (role_perm ''r1'' ''org.read'' ''org'' False) = ''org.read''" by (simp add: role_perm_def)
  then show ?thesis
    using assign_only_delegated [OF run type _ refl refl refl _ refl] resolved perms org fresh unfolding env by auto
qed

text \<open>
  C20: the list of permissions that agents cannot receive is tested when a role is assigned and not when its permissions
  are set.  Whoever may manage access can put any permission into a custom role of the organization, and an agent that
  already holds the role, through an assignment that would now be refused, is given it by the derivation from custom roles that the next
  uncached decision runs.
\<close>

theorem manager_empowers_agent:
  assumes "requireManageRBAC en (tx_db t) actor orgID st = (None, st1)"
    and "getRole (tx_db t) roleID = Ok role" and "TrimSpace roleID = roleID" and "roleID \<noteq> []"
    and "ro_Kind role = ''custom''" and "ro_OrgID role = orgID"
    and "PermissionDefinedForResource key kind" and "key \<in> set agentForbiddenPermissions"
    and "a \<in> set (db_assignments (tx_db t))" and "as_RevokedAt a = None" and "assignment_live now a"
    and "as_OrgID a = orgID" and "as_RoleID a = roleID" and "IsAgent (as_SubjectRef a)"
    and "as_SubjectRef a = cr_SubjectRef req" and "rs_OrgID (cr_Resource req) = orgID" and "orgID \<noteq> []"
    and "scope_Key (cr_Resource req) = (as_ResourceKind a, as_ResourceID a)" and "as_ResourceKind a = kind"
    and "kind \<noteq> []" and "as_ResourceID a \<noteq> []" and "orgMember (tx_db t) orgID (as_SubjectRef a) \<noteq> None"
    and "op = set_permissions_operation roleID [\<lparr>ri_PermissionKey = key, ri_ResourceKind = kind, ri_Delegatable = False\<rparr>]"
  shows "\<exists>x t'. runOperation en actor orgID requestID op t st = (Ok (x, t'), st1) \<and>
    requireAssignmentSubjectApplicable (tx_db t') (as_SubjectRef a) roleID (cr_Resource req) = Some ErrAuthInvalid \<and>
    key \<in> set (map ep_Key (dv_out (addCustomEffective (tx_db t') now req d)))"
proof -
  let ?in = "\<lparr>ri_PermissionKey = key, ri_ResourceKind = kind, ri_Delegatable = False\<rparr>"
  have trimmed: "TrimSpace kind = kind" "TrimSpace (as_ResourceID a) = as_ResourceID a" "TrimSpace key = key"
    using scope_Key_fixed [OF assms(18)] assms(19) registry_key_trimmed(1) [OF assms(7)] by simp_all
  have "key \<noteq> []" using assms(8) by (auto simp: agentForbiddenPermissions_def)
  then have rows: "input_rows roleID [?in] = [role_perm roleID key kind False]" "\<not> blank key" "\<not> blank kind"
    using trimmed assms(20) by (simp_all add: input_rows_def blank_def)
  obtain db' where set: "replaceRolePermissions en roleID [?in] (tx_db t) = Ok db'"
      and db': "db_assignments db' = db_assignments (tx_db t)" "db_members db' = db_members (tx_db t)"
        "db_role_permissions db' = filter (\<lambda>p. rp_RoleID p \<noteq> roleID) (db_role_permissions (tx_db t)) @ [role_perm roleID key kind False]"
    using assms(2,5) rows by (simp add: replaceRolePermissions_def update_roles_def)
  have ty: "TrimSpace ''set_role_permissions'' = ''set_role_permissions''" by code_simp
  let ?t = "audit en (audit_event ''authorization.role_permissions.set'' actor roleID ''org'' orgID) (t\<lparr>tx_db := db'\<rparr>)"
  have "runOperation en actor orgID requestID op t st = (Ok (op_answer op ''set'' roleID [], ?t), st1)"
    unfolding assms(23)
    using ty assms(1-7) set
    by (simp add: Let_def runOperation_def op_set_role_permissions_def checked_def set_permissions_operation_def blank_operation_def)
  moreover have perms: "role_perm roleID key kind False \<in> set (rolePermissions db' roleID)"
    by (simp add: set_rolePermissions db'(3) role_perm_def)
  then have "requireAssignmentSubjectApplicable db' (as_SubjectRef a) roleID (cr_Resource req) = Some ErrAuthInvalid"
    using assms(8,14,16,22) subject_kinds_exclusive db'(2)
    by (auto simp: requireAssignmentSubjectApplicable_def orgMember_def list_ex_iff role_perm_def intro: bexI [rotated])
  moreover have "key \<in> set (map ep_Key (dv_out (addCustomEffective db' now req d)))"
  proof -
    have "as_ResourceID a \<in> set (customAssignmentResourceIDs (cr_Resource req))"
      using assms(18-21) by (simp add: customAssignmentResourceIDs_def)
    then have "a \<in> set (activeAssignmentsForResourceIDs db' orgID (as_SubjectRef a) kind (customAssignmentResourceIDs (cr_Resource req)))"
      using assms(9-13,19,21) trimmed db'(1) by (auto simp: set_activeAssignments image_iff intro: bexI [rotated])
    then have "custom_permission a (role_perm roleID key kind False) \<in>
        set (custom_permissions db' now kind (activeAssignmentsForResourceIDs db' orgID (as_SubjectRef a) kind (customAssignmentResourceIDs (cr_Resource req))))"
      using perms assms(11,13) by (auto simp: custom_permissions_def role_perm_def)
    moreover have "orgMember db' orgID (as_SubjectRef a) \<noteq> None"
      unfolding orgMember_def db'(2) using assms(22) [unfolded orgMember_def] .
    ultimately show ?thesis
      using assms(15-21) unfolding addCustomEffective_def Let_def
      by (auto simp: custom_permission_def role_perm_def image_iff intro: bexI [rotated])
  qed
  ultimately show ?thesis by auto
qed

theorem manager_empowers_agent_witness:
  "\<exists>x t'. runOperation access_env ''user:ann'' ''o1'' ''k'' (set_permissions_operation ''r1''
       [\<lparr>ri_PermissionKey = ''org.lifecycle.manage'', ri_ResourceKind = ''org'', ri_Delegatable = False\<rparr>])
       (ac_tx (access_start [lasting_assignment])) empty_auth_state = (Ok (x, t'), snd (requireManageRBAC access_env
          (access_tables [lasting_assignment]) ''user:ann'' ''o1'' empty_auth_state)) \<and>
    ''org.lifecycle.manage'' \<in> set (map ep_Key (dv_out (addCustomEffective (tx_db t') 9
       (system_request ''agent:m3'' ''org.lifecycle.manage'' ((org_resource ''o1'')\<lparr>rs_OrgID := ''o1''\<rparr>)) empty_derivation)))"
proof -
  let ?db = "access_tables [lasting_assignment]"
  have db: "tx_db (ac_tx (access_start [lasting_assignment])) = ?db" by (simp add: access_start_def)
  have "fst (requireManageRBAC access_env ?db ''user:ann'' ''o1'' empty_auth_state) = None" by code_simp
  then have manager: "requireManageRBAC access_env (tx_db (ac_tx (access_start [lasting_assignment]))) ''user:ann'' ''o1'' empty_auth_state =
      (None, snd (requireManageRBAC access_env ?db ''user:ann'' ''o1'' empty_auth_state))"
    unfolding db by (cases "requireManageRBAC access_env ?db ''user:ann'' ''o1'' empty_auth_state") simp
  have facts: "getRole (tx_db (ac_tx (access_start [lasting_assignment]))) ''r1'' = Ok reader_role" "TrimSpace ''r1'' = ''r1''"
      "ro_Kind reader_role = ''custom''" "ro_OrgID reader_role = ''o1''"
      "PermissionDefinedForResource ''org.lifecycle.manage'' ''org''" "''org.lifecycle.manage'' \<in> set agentForbiddenPermissions"
      "as_RevokedAt lasting_assignment = None" "assignment_live 9 lasting_assignment" "as_OrgID lasting_assignment = ''o1''"
      "as_RoleID lasting_assignment = ''r1''" "IsAgent (as_SubjectRef lasting_assignment)"
      "as_ResourceKind lasting_assignment = ''org''" "as_ResourceID lasting_assignment = ''o1''"
      "as_SubjectRef lasting_assignment = ''agent:m3''"
      "orgMember (tx_db (ac_tx (access_start [lasting_assignment]))) ''o1'' ''agent:m3'' \<noteq> None"
      "scope_Key ((org_resource ''o1'')\<lparr>rs_OrgID := ''o1''\<rparr>) = (''org'', ''o1'')"
    by code_simp+
  have "lasting_assignment \<in> set (db_assignments (tx_db (ac_tx (access_start [lasting_assignment]))))"
    by (simp add: access_start_def access_tables_def)
  from manager_empowers_agent [OF manager facts(1,2) _ facts(3-6) this facts(7-11), where
      req = "system_request ''agent:m3'' ''org.lifecycle.manage'' ((org_resource ''o1'')\<lparr>rs_OrgID := ''o1''\<rparr>)" and d = empty_derivation]
  show ?thesis using facts by (simp add: system_request_def org_resource_def) blast
qed

end
