(* ===== verification/Agent.thy ===== *)
theory Agent
  imports Complex_Main Row_Time Lifecycle
begin

section \<open>Agents (internal/agent)\<close>

text \<open>
  The agent aggregate: its profile, the lifecycle the operators intend, and the feedback of
  the worker.  A profile's environment is the association list of its map, its costs are the rationals that
  finite floats denote, and \<open>ulower\<close> is the Unicode case table of \<open>strings.ToLower\<close>.
\<close>

subsection \<open>Lifecycles, errors, profiles\<close>

datatype agent_lifecycle =
    LifecycleStopped | LifecycleRunning | LifecycleStopping | LifecycleResetting | LifecycleError
  | LifecycleFailed | LifecycleArchived | LifecycleOther gostring

definition lifecycle_IsValid :: "agent_lifecycle \<Rightarrow> bool" where
  "lifecycle_IsValid l = (case l of LifecycleOther _ \<Rightarrow> False | _ \<Rightarrow> True)"

fun lifecycle_text :: "agent_lifecycle \<Rightarrow> gostring" where
  "lifecycle_text LifecycleStopped = ''stopped''"
| "lifecycle_text LifecycleRunning = ''running''"
| "lifecycle_text LifecycleStopping = ''stopping''"
| "lifecycle_text LifecycleResetting = ''resetting''"
| "lifecycle_text LifecycleError = ''error''"
| "lifecycle_text LifecycleFailed = ''failed''"
| "lifecycle_text LifecycleArchived = ''archived''"
| "lifecycle_text (LifecycleOther s) = s"

datatype reset_scope = ResetMemory | ResetWorkspace | ResetAll | ResetOther gostring

definition scope_IsValid :: "reset_scope \<Rightarrow> bool" where
  "scope_IsValid s \<longleftrightarrow> s = ResetMemory \<or> s = ResetWorkspace \<or> s = ResetAll"

fun scope_text :: "reset_scope \<Rightarrow> gostring" where
  "scope_text ResetMemory = ''memory''"
| "scope_text ResetWorkspace = ''workspace''"
| "scope_text ResetAll = ''all''"
| "scope_text (ResetOther s) = s"

datatype agent_error =
    ErrAgentNotFound | ErrAgentExists | ErrAgentNotStopped | ErrWorkerRequired | ErrInvalidLifecycle
  | ErrIllegalLifecycle | ErrInvalidResetScope | ErrResetRequiresStopped
  | ErrInvalidExecutorProfile gostring | ErrUnsupportedCLI | ErrUnsupportedReasoning
  | ErrUnsupportedSandboxProvider | ErrAgentNotStoppedForArchive | ErrAgentAlreadyArchived
  | ErrAgentArchived | ErrInvalidSkillLayer | ErrWorkerNotInOrg | ErrResetNotConfirmed
  | ErrNotBoundToWorker | ErrEventExists | ErrAgentText gostring

record executor_profile =
  xp_CLI :: gostring
  xp_Model :: gostring
  xp_DisplayName :: gostring
  xp_InputCost :: rat
  xp_OutputCost :: rat
  xp_ContextWindow :: int
  xp_Tier :: gostring

record agent_profile =
  pf_Name :: gostring
  pf_Description :: gostring
  pf_Model :: gostring
  pf_CLI :: gostring
  pf_Reasoning :: gostring
  pf_Mode :: gostring
  pf_Provider :: gostring
  pf_EnvVars :: "(gostring \<times> gostring) list"
  pf_OrchestratorModel :: gostring
  pf_DefaultExecutorModel :: gostring
  pf_MaxConcurrentTasks :: int
  pf_JudgeEnabled :: bool
  pf_ExecutorGitWorktree :: bool
  pf_SandboxEnabled :: bool
  pf_SandboxProvider :: gostring
  pf_AllowedExecutors :: "executor_profile list"
  pf_AllowedModels :: "gostring list"
  pf_AutoAssignable :: bool
  pf_IncludeDescription :: bool

definition agent_IdentityRef_Validate :: "gostring \<Rightarrow> agent_error option" where
  "agent_IdentityRef_Validate s =
     (if s = [] then Some (ErrAgentText ''identity ref required'')
      else if s = ''system'' then None
      else if \<exists>p \<in> set [''user:'', ''agent:'']. HasPrefix s p \<and> length p < length s then None
      else Some (ErrAgentText ''identity ref must be 'system' or 'user:<id>' / 'agent:<id>' (ADR-0033)''))"

definition IsSupportedExecutionCLI :: "gostring \<Rightarrow> bool" where
  "IsSupportedExecutionCLI cli \<longleftrightarrow> cli \<in> {''claude-code'', ''codex''}"

definition IsSupportedExecutorCLI :: "gostring \<Rightarrow> bool" where
  "IsSupportedExecutorCLI cli \<longleftrightarrow> cli \<in> {''claude-code'', ''codex''}"

definition IsSupportedReasoning :: "gostring \<Rightarrow> bool" where
  "IsSupportedReasoning r \<longleftrightarrow> r = [] \<or> r \<in> {''minimal'', ''low'', ''medium'', ''high''}"

subsection \<open>Executor candidates and concurrency\<close>

fun normalize_execs :: "executor_profile list \<Rightarrow> executor_profile list \<Rightarrow>
    agent_error + executor_profile list" where
  "normalize_execs seen [] = Ok []"
| "normalize_execs seen (x # xs) =
     (let e = x\<lparr>xp_Model := TrimSpace (xp_Model x)\<rparr> in
      if \<not> IsSupportedExecutorCLI (xp_CLI e) then Err (ErrInvalidExecutorProfile ''unsupported cli'')
      else if xp_Model e = [] then Err (ErrInvalidExecutorProfile ''empty model'')
      else if e \<in> set seen then normalize_execs seen xs
      else case normalize_execs (e # seen) xs of Err err \<Rightarrow> Err err | Ok out \<Rightarrow> Ok (e # out))"

definition NormalizeAllowedExecutors :: "executor_profile list \<Rightarrow> agent_error + executor_profile list" where
  "NormalizeAllowedExecutors xs = normalize_execs [] xs"

definition ExecutorsFromModels :: "gostring list \<Rightarrow> gostring \<Rightarrow> executor_profile list" where
  "ExecutorsFromModels models cli =
     map (\<lambda>m. \<lparr>xp_CLI = (if cli = [] then ''claude-code'' else cli), xp_Model = m, xp_DisplayName = [],
       xp_InputCost = 0, xp_OutputCost = 0, xp_ContextWindow = 0, xp_Tier = []\<rparr>) models"

definition ModelsOf :: "executor_profile list \<Rightarrow> gostring list" where
  "ModelsOf xs = dedup_acc [] (map xp_Model xs)"

definition EffectiveMaxConcurrentTasks :: "agent_profile \<Rightarrow> int" where
  "EffectiveMaxConcurrentTasks p =
     (if pf_MaxConcurrentTasks p \<le> 0 then 3 else pf_MaxConcurrentTasks p)"

definition ConcurrencyEnabled :: "agent_profile \<Rightarrow> bool" where
  "ConcurrencyEnabled p \<longleftrightarrow> 0 < pf_MaxConcurrentTasks p \<and> pf_AllowedExecutors p \<noteq> []"

definition EffectiveConcurrencyCap :: "agent_profile \<Rightarrow> int" where
  "EffectiveConcurrencyCap p = (if \<not> ConcurrencyEnabled p then 1 else EffectiveMaxConcurrentTasks p)"

definition NormalizeSandboxConfig :: "bool \<Rightarrow> gostring \<Rightarrow> agent_error + bool \<times> gostring" where
  "NormalizeSandboxConfig enabled provider =
     (if \<not> enabled then Ok (False, [])
      else let provider = (if TrimSpace provider = [] then ''tart_macos_vm'' else TrimSpace provider) in
        if provider \<noteq> ''tart_macos_vm'' then Err ErrUnsupportedSandboxProvider
        else Ok (True, provider))"

subsection \<open>Capability tags\<close>

fun tags_loop :: "(gostring \<Rightarrow> gostring) \<Rightarrow> gostring list \<Rightarrow> gostring list \<Rightarrow> gostring list" where
  "tags_loop ulower seen [] = []"
| "tags_loop ulower seen (x # xs) =
     (let t = TrimSpace x; key = ToLower ulower t in
      if t = [] then tags_loop ulower seen xs
      else if key \<in> set seen then tags_loop ulower seen xs
      else t # tags_loop ulower (key # seen) xs)"

definition normalizeTags :: "(gostring \<Rightarrow> gostring) \<Rightarrow> gostring list \<Rightarrow> gostring list" where
  "normalizeTags ulower xs = tags_loop ulower [] xs"

subsection \<open>The aggregate\<close>

record agent =
  ag_id :: gostring
  ag_organizationID :: gostring
  ag_profile :: agent_profile
  ag_capabilityTags :: "gostring list"
  ag_workerID :: gostring
  ag_lifecycle :: agent_lifecycle
  ag_lifecycleError :: gostring
  ag_createdBy :: gostring
  ag_identityMemberID :: gostring
  ag_createdAt :: time
  ag_updatedAt :: time
  ag_lastLifecycleTransitionAt :: time
  ag_version :: int

record new_agent_input =
  na_ID :: gostring
  na_OrganizationID :: gostring
  na_Profile :: agent_profile
  na_CapabilityTags :: "gostring list"
  na_WorkerID :: gostring
  na_CreatedBy :: gostring
  na_IdentityMemberID :: gostring
  na_CreatedAt :: time

definition NewAgent :: "(gostring \<Rightarrow> gostring) \<Rightarrow> new_agent_input \<Rightarrow> agent_error + agent" where
  "NewAgent ulower inp =
     (if blank (na_ID inp) then Err (ErrAgentText ''id required'')
      else if blank (na_OrganizationID inp) then Err (ErrAgentText ''organization_id required'')
      else if blank (pf_Name (na_Profile inp)) then Err (ErrAgentText ''profile name required'')
      else if blank (na_WorkerID inp) then Err ErrWorkerRequired
      else case agent_IdentityRef_Validate (na_CreatedBy inp) of
        Some e \<Rightarrow> Err e
      | None \<Rightarrow>
          if is_zero_time (na_CreatedAt inp) then Err (ErrAgentText ''created_at required'')
          else Ok \<lparr>ag_id = na_ID inp, ag_organizationID = na_OrganizationID inp, ag_profile = na_Profile inp,
            ag_capabilityTags = normalizeTags ulower (na_CapabilityTags inp), ag_workerID = na_WorkerID inp,
            ag_lifecycle = LifecycleStopped, ag_lifecycleError = [], ag_createdBy = na_CreatedBy inp,
            ag_identityMemberID = na_IdentityMemberID inp, ag_createdAt = na_CreatedAt inp,
            ag_updatedAt = na_CreatedAt inp, ag_lastLifecycleTransitionAt = na_CreatedAt inp,
            ag_version = 1\<rparr>)"

definition lifecycleTransitionOrFallback :: "time \<Rightarrow> time \<Rightarrow> time" where
  "lifecycleTransitionOrFallback t fallback = (if is_zero_time t then fallback else t)"

definition RehydrateAgent :: "(gostring \<Rightarrow> gostring) \<Rightarrow> agent \<Rightarrow> agent_error + agent" where
  "RehydrateAgent ulower row =
     (if \<not> lifecycle_IsValid (ag_lifecycle row) then Err ErrInvalidLifecycle
      else if ag_version row < 1 then Err (ErrAgentText ''version must be >= 1'')
      else Ok (row\<lparr>ag_capabilityTags := normalizeTags ulower (ag_capabilityTags row),
        ag_lastLifecycleTransitionAt :=
          lifecycleTransitionOrFallback (ag_lastLifecycleTransitionAt row) (ag_updatedAt row)\<rparr>))"

definition agent_touch :: "time \<Rightarrow> time \<Rightarrow> agent \<Rightarrow> agent" where
  "agent_touch now t a = a\<lparr>ag_updatedAt := stamp now t, ag_version := ag_version a + 1\<rparr>"

definition agent_touchLifecycle :: "time \<Rightarrow> time \<Rightarrow> agent \<Rightarrow> agent" where
  "agent_touchLifecycle now t a =
     agent_touch now (stamp now t) (a\<lparr>ag_lastLifecycleTransitionAt := stamp now t\<rparr>)"

definition agent_Start :: "time \<Rightarrow> time \<Rightarrow> agent \<Rightarrow> agent_error + agent" where
  "agent_Start now t a =
     (if ag_lifecycle a = LifecycleArchived then Err ErrAgentArchived
      else if ag_lifecycle a \<noteq> LifecycleStopped \<and> ag_lifecycle a \<noteq> LifecycleError \<and>
          ag_lifecycle a \<noteq> LifecycleFailed then Err ErrIllegalLifecycle
      else Ok (agent_touchLifecycle now t (a\<lparr>ag_lifecycle := LifecycleRunning, ag_lifecycleError := []\<rparr>)))"

definition agent_Stop :: "time \<Rightarrow> time \<Rightarrow> agent \<Rightarrow> agent_error + agent" where
  "agent_Stop now t a =
     (if ag_lifecycle a \<noteq> LifecycleRunning then Err ErrIllegalLifecycle
      else Ok (agent_touchLifecycle now t (a\<lparr>ag_lifecycle := LifecycleStopping\<rparr>)))"

definition agent_Restart :: "time \<Rightarrow> time \<Rightarrow> agent \<Rightarrow> agent_error + agent" where
  "agent_Restart now t a =
     (if ag_lifecycle a \<noteq> LifecycleRunning then Err ErrIllegalLifecycle
      else Ok (agent_touchLifecycle now t a))"

definition agent_Reset :: "time \<Rightarrow> reset_scope \<Rightarrow> time \<Rightarrow> agent \<Rightarrow> agent_error + agent" where
  "agent_Reset now scope t a =
     (if \<not> scope_IsValid scope then Err ErrInvalidResetScope
      else if ag_lifecycle a \<in> {LifecycleStopped, LifecycleError, LifecycleFailed} then
        Ok (agent_touchLifecycle now t (a\<lparr>ag_lifecycle := LifecycleResetting\<rparr>))
      else Err ErrResetRequiresStopped)"

definition agent_Archive :: "time \<Rightarrow> time \<Rightarrow> agent \<Rightarrow> agent_error + agent" where
  "agent_Archive now t a =
     (if ag_lifecycle a = LifecycleArchived then Err ErrAgentAlreadyArchived
      else if ag_lifecycle a \<in> {LifecycleStopped, LifecycleError, LifecycleFailed} then
        Ok (agent_touchLifecycle now t
          (a\<lparr>ag_lifecycle := LifecycleArchived, ag_lifecycleError := [], ag_workerID := []\<rparr>))
      else Err ErrAgentNotStoppedForArchive)"

definition agent_MarkStopped :: "time \<Rightarrow> time \<Rightarrow> agent \<Rightarrow> agent_error + agent" where
  "agent_MarkStopped now t a =
     (if ag_lifecycle a \<noteq> LifecycleStopping \<and> ag_lifecycle a \<noteq> LifecycleResetting then Err ErrIllegalLifecycle
      else Ok (agent_touchLifecycle now t (a\<lparr>ag_lifecycle := LifecycleStopped\<rparr>)))"

definition agent_MarkError :: "time \<Rightarrow> gostring \<Rightarrow> time \<Rightarrow> agent \<Rightarrow> agent" where
  "agent_MarkError now msg t a =
     agent_touchLifecycle now t (a\<lparr>ag_lifecycle := LifecycleError, ag_lifecycleError := msg\<rparr>)"

definition agent_MarkRecovered :: "time \<Rightarrow> time \<Rightarrow> agent \<Rightarrow> agent" where
  "agent_MarkRecovered now t a =
     (if ag_lifecycle a \<noteq> LifecycleError then a
      else agent_touchLifecycle now t (a\<lparr>ag_lifecycle := LifecycleRunning, ag_lifecycleError := []\<rparr>))"

definition agent_MarkFailed :: "time \<Rightarrow> gostring \<Rightarrow> time \<Rightarrow> agent \<Rightarrow> agent_error + agent" where
  "agent_MarkFailed now msg t a =
     (if ag_lifecycle a \<noteq> LifecycleRunning \<and> ag_lifecycle a \<noteq> LifecycleError then Err ErrIllegalLifecycle
      else Ok (agent_touchLifecycle now t (a\<lparr>ag_lifecycle := LifecycleFailed, ag_lifecycleError := msg\<rparr>)))"

definition agent_UpdateProfile :: "time \<Rightarrow> agent_profile \<Rightarrow> time \<Rightarrow> agent \<Rightarrow> agent_error + agent" where
  "agent_UpdateProfile now p t a =
     (if blank (pf_Name p) then Err (ErrAgentText ''profile name required'')
      else Ok (agent_touch now t (a\<lparr>ag_profile := p\<rparr>)))"

definition agent_SetCapabilityTags ::
  "(gostring \<Rightarrow> gostring) \<Rightarrow> time \<Rightarrow> gostring list \<Rightarrow> time \<Rightarrow> agent \<Rightarrow> agent" where
  "agent_SetCapabilityTags ulower now tags t a =
     agent_touch now t (a\<lparr>ag_capabilityTags := normalizeTags ulower tags\<rparr>)"

subsection \<open>Availability\<close>

datatype availability = Available | Busy | Unavailable

definition DeriveAvailability :: "bool \<Rightarrow> agent_lifecycle \<Rightarrow> bool \<Rightarrow> availability" where
  "DeriveAvailability workerOnline l hasActiveTask =
     (if \<not> workerOnline then Unavailable
      else if l \<noteq> LifecycleRunning then Unavailable
      else if hasActiveTask then Busy else Available)"

subsection \<open>Facts about the normalisers\<close>

definition valid_exec :: "executor_profile \<Rightarrow> bool" where
  "valid_exec e \<longleftrightarrow> IsSupportedExecutorCLI (xp_CLI e) \<and> \<not> blank (xp_Model e)"

abbreviation trim_exec :: "executor_profile \<Rightarrow> executor_profile" where
  "trim_exec e \<equiv> e\<lparr>xp_Model := TrimSpace (xp_Model e)\<rparr>"

lemma normalize_execs_exact:
  "(list_all valid_exec xs \<longrightarrow> normalize_execs seen xs = Ok (dedup_acc seen (map trim_exec xs))) \<and>
   (\<not> list_all valid_exec xs \<longrightarrow> (\<exists>m. normalize_execs seen xs = Err (ErrInvalidExecutorProfile m)))"
proof (induction xs arbitrary: seen)
  case (Cons x xs)
  show ?case
    using Cons.IH [of seen] Cons.IH [of "trim_exec x # seen"]
    by (auto simp: valid_exec_def blank_def Let_def)
qed simp

text \<open>One invalid candidate refuses the list; otherwise the trimmed distinct ones remain.\<close>

lemma NormalizeAllowedExecutors_exact:
  "list_all valid_exec xs \<Longrightarrow> NormalizeAllowedExecutors xs = Ok (dedup_acc [] (map trim_exec xs))"
  "\<not> list_all valid_exec xs \<Longrightarrow> \<exists>m. NormalizeAllowedExecutors xs = Err (ErrInvalidExecutorProfile m)"
  using normalize_execs_exact [of xs "[]"] by (simp_all add: NormalizeAllowedExecutors_def)

lemma tags_loop_fixed:
  assumes "\<forall>t \<in> set xs. TrimSpace t = t \<and> t \<noteq> []" "distinct (map (ToLower ulower) xs)"
    and "ToLower ulower ` set xs \<inter> set seen = {}"
  shows "tags_loop ulower seen xs = xs"
  using assms by (induction xs arbitrary: seen) (auto simp: Let_def)

lemma tags_loop_normal:
  "(\<forall>t \<in> set (tags_loop ulower seen xs). TrimSpace t = t \<and> t \<noteq> []) \<and>
   distinct (map (ToLower ulower) (tags_loop ulower seen xs)) \<and>
   ToLower ulower ` set (tags_loop ulower seen xs) \<inter> set seen = {}"
proof (induction xs arbitrary: seen)
  case (Cons x xs)
  show ?case
    using Cons.IH [of seen] Cons.IH [of "ToLower ulower (TrimSpace x) # seen"]
    by (auto simp: Let_def)
qed simp

lemma normalizeTags_idem [simp]: "normalizeTags ulower (normalizeTags ulower xs) = normalizeTags ulower xs"
  unfolding normalizeTags_def
  using tags_loop_normal [of ulower "[]" xs] by (intro tags_loop_fixed) auto

lemma agent_touch_simps [simp]:
  "ag_id (agent_touch now t a) = ag_id a" "ag_lifecycle (agent_touch now t a) = ag_lifecycle a"
  "ag_version (agent_touch now t a) = ag_version a + 1" "ag_workerID (agent_touch now t a) = ag_workerID a"
  "ag_organizationID (agent_touch now t a) = ag_organizationID a"
  "ag_createdBy (agent_touch now t a) = ag_createdBy a" "ag_createdAt (agent_touch now t a) = ag_createdAt a"
  "ag_identityMemberID (agent_touch now t a) = ag_identityMemberID a"
  "ag_capabilityTags (agent_touch now t a) = ag_capabilityTags a"
  "ag_profile (agent_touch now t a) = ag_profile a"
  "ag_lifecycleError (agent_touch now t a) = ag_lifecycleError a"
  by (simp_all add: agent_touch_def)

lemma agent_touchLifecycle_simps [simp]:
  "ag_id (agent_touchLifecycle now t a) = ag_id a"
  "ag_lifecycle (agent_touchLifecycle now t a) = ag_lifecycle a"
  "ag_version (agent_touchLifecycle now t a) = ag_version a + 1"
  "ag_workerID (agent_touchLifecycle now t a) = ag_workerID a"
  "ag_organizationID (agent_touchLifecycle now t a) = ag_organizationID a"
  "ag_createdBy (agent_touchLifecycle now t a) = ag_createdBy a"
  "ag_createdAt (agent_touchLifecycle now t a) = ag_createdAt a"
  "ag_identityMemberID (agent_touchLifecycle now t a) = ag_identityMemberID a"
  "ag_capabilityTags (agent_touchLifecycle now t a) = ag_capabilityTags a"
  "ag_profile (agent_touchLifecycle now t a) = ag_profile a"
  "ag_lifecycleError (agent_touchLifecycle now t a) = ag_lifecycleError a"
  by (simp_all add: agent_touchLifecycle_def)

lemma DeriveAvailability_available:
  "DeriveAvailability online l busy \<noteq> Unavailable \<longleftrightarrow> online \<and> l = LifecycleRunning"
  by (simp add: DeriveAvailability_def)

end
