(* ===== verification/Agent_Service.thy ===== *)
theory Agent_Service
  imports Agent Outbox
begin

section \<open>The agent service and its tables (internal/agent/service, internal/agent/sqlite)\<close>

text \<open>
  The table of agents, the stream of lifecycle activity and the outbox they share a database
  with.  A call runs in one transaction, so an error leaves the database as it was; the ids
  it has drawn are then drawn again, which no row shows.  Parameters of a call are the clock
  reading \<open>now\<close> and what tables of other contexts answer.  The environment of the service
  holds the id generator and the two JSON encodings of an event.
\<close>

record agent_event_payload =
  pl_AgentID :: gostring
  pl_OrgID :: gostring
  pl_WorkerID :: gostring
  pl_Lifecycle :: gostring
  pl_Version :: int
  pl_ResetScope :: gostring
  pl_Model :: gostring
  pl_DisplayName :: gostring
  pl_CLI :: gostring
  pl_Reasoning :: gostring
  pl_Mode :: gostring
  pl_Provider :: gostring
  pl_OrchestratorModel :: gostring
  pl_DefaultExecutorModel :: gostring
  pl_MaxConcurrentTasks :: int
  pl_AllowedModels :: "gostring list"
  pl_AllowedExecutors :: "executor_profile list"
  pl_JudgeEnabled :: bool
  pl_ExecutorGitWorktree :: bool
  pl_SandboxEnabled :: bool
  pl_SandboxProvider :: gostring
  pl_EnvVars :: "(gostring \<times> gostring) list"
  pl_PromptDescription :: gostring

record agent_env =
  ae_lower :: "gostring \<Rightarrow> gostring"
  ae_gen :: "nat \<Rightarrow> gostring"
  ae_payload :: "agent_event_payload \<Rightarrow> gostring"
  ae_refs :: "gostring \<Rightarrow> gostring \<Rightarrow> gostring \<Rightarrow> gostring"

record lifecycle_activity =
  la_ID :: gostring
  la_AgentID :: gostring
  la_event :: gostring
  la_summary :: gostring
  la_cli :: gostring
  la_model :: gostring
  la_worker_id :: gostring
  la_concurrency :: gostring
  la_max_concurrent_tasks :: int
  la_env_overrides_count :: nat
  la_scope :: "gostring option"
  la_OccurredAt :: time

record 'w agent_db =
  ad_rows :: "agent list"
  ad_activity :: "lifecycle_activity list"
  ad_outbox :: "'w relay"
  ad_minted :: nat

subsection \<open>The repository\<close>

definition agent_nullString :: "gostring \<Rightarrow> gostring" where
  "agent_nullString s = (if blank s then [] else s)"

definition mirror_models :: "agent_profile \<Rightarrow> gostring list" where
  "mirror_models p = (if pf_AllowedExecutors p \<noteq> [] then ModelsOf (pf_AllowedExecutors p) else pf_AllowedModels p)"

definition profile_row :: "agent_profile \<Rightarrow> agent_profile" where
  "profile_row p = p\<lparr>pf_Description := agent_nullString (pf_Description p), pf_Model := agent_nullString (pf_Model p),
     pf_CLI := agent_nullString (pf_CLI p), pf_Reasoning := agent_nullString (pf_Reasoning p),
     pf_Mode := agent_nullString (pf_Mode p), pf_Provider := agent_nullString (pf_Provider p),
     pf_OrchestratorModel := agent_nullString (pf_OrchestratorModel p),
     pf_DefaultExecutorModel := agent_nullString (pf_DefaultExecutorModel p),
     pf_SandboxProvider := agent_nullString (pf_SandboxProvider p), pf_AllowedModels := mirror_models p\<rparr>"

definition stored_agent :: "agent \<Rightarrow> agent" where
  "stored_agent a = a\<lparr>ag_profile := profile_row (ag_profile a),
     ag_lifecycleError := agent_nullString (ag_lifecycleError a),
     ag_identityMemberID := agent_nullString (ag_identityMemberID a)\<rparr>"

definition agent_Save :: "agent \<Rightarrow> 'w agent_db \<Rightarrow> agent_error + 'w agent_db" where
  "agent_Save a db =
     (if list_ex (\<lambda>r. ag_id r = ag_id a) (ad_rows db) then Err ErrAgentExists
      else Ok (db\<lparr>ad_rows := ad_rows db @ [stored_agent a]\<rparr>))"

text \<open>The update writes neither the binding nor the columns that never change.\<close>

definition update_row :: "agent \<Rightarrow> agent \<Rightarrow> agent" where
  "update_row a old = (stored_agent a)\<lparr>ag_id := ag_id old, ag_organizationID := ag_organizationID old, ag_workerID := ag_workerID old,
     ag_createdBy := ag_createdBy old, ag_identityMemberID := ag_identityMemberID old,
     ag_createdAt := ag_createdAt old\<rparr>"

definition map_row :: "gostring \<Rightarrow> (agent \<Rightarrow> agent) \<Rightarrow> 'w agent_db \<Rightarrow> 'w agent_db" where
  "map_row i f db = db\<lparr>ad_rows := map (\<lambda>r. if ag_id r = i then f r else r) (ad_rows db)\<rparr>"

definition agent_Update :: "agent \<Rightarrow> 'w agent_db \<Rightarrow> agent_error + 'w agent_db" where
  "agent_Update a db =
     (if list_ex (\<lambda>r. ag_id r = ag_id a) (ad_rows db) then Ok (map_row (ag_id a) (update_row a) db)
      else Err ErrAgentNotFound)"

definition repo_Archive :: "agent \<Rightarrow> 'w agent_db \<Rightarrow> agent_error + 'w agent_db" where
  "repo_Archive a db =
     (if list_ex (\<lambda>r. ag_id r = ag_id a) (ad_rows db) then
        Ok (map_row (ag_id a) (\<lambda>r. r\<lparr>ag_workerID := [], ag_lifecycle := ag_lifecycle a, ag_lifecycleError := [],
          ag_updatedAt := ag_updatedAt a,
          ag_lastLifecycleTransitionAt := ag_lastLifecycleTransitionAt a, ag_version := ag_version a\<rparr>) db)
      else Err ErrAgentNotFound)"

definition agent_FindByID :: "agent_env \<Rightarrow> gostring \<Rightarrow> 'w agent_db \<Rightarrow> agent_error + agent" where
  "agent_FindByID en i db =
     (case List.find (\<lambda>r. ag_id r = i) (ad_rows db) of
        None \<Rightarrow> Err ErrAgentNotFound
      | Some r \<Rightarrow> RehydrateAgent (ae_lower en) r)"

definition agent_order :: "agent list \<Rightarrow> agent list" where
  "agent_order rs = sort_key (\<lambda>r. created_key (ag_createdAt r)) (sort_key ag_id rs)"

definition FindByIdentityMemberID :: "agent_env \<Rightarrow> gostring \<Rightarrow> 'w agent_db \<Rightarrow> agent_error + agent" where
  "FindByIdentityMemberID en member db =
     (if blank member then Err ErrAgentNotFound
      else case agent_order (filter (\<lambda>r. ag_identityMemberID r = TrimSpace member) (ad_rows db)) of
        [] \<Rightarrow> Err ErrAgentNotFound
      | r # _ \<Rightarrow> RehydrateAgent (ae_lower en) r)"

definition repo_Delete :: "gostring \<Rightarrow> 'w agent_db \<Rightarrow> 'w agent_db" where
  "repo_Delete i db = db\<lparr>ad_rows := filter (\<lambda>r. ag_id r \<noteq> i) (ad_rows db)\<rparr>"

fun rehydrate_all :: "agent_env \<Rightarrow> agent list \<Rightarrow> agent_error + agent list" where
  "rehydrate_all en [] = Ok []"
| "rehydrate_all en (r # rs) =
     (case RehydrateAgent (ae_lower en) r of
        Err e \<Rightarrow> Err e
      | Ok a \<Rightarrow> (case rehydrate_all en rs of Err e \<Rightarrow> Err e | Ok xs \<Rightarrow> Ok (a # xs)))"

definition agent_ListByOrg :: "agent_env \<Rightarrow> gostring \<Rightarrow> 'w agent_db \<Rightarrow> agent_error + agent list" where
  "agent_ListByOrg en org db =
     rehydrate_all en (agent_order (filter (\<lambda>r. ag_organizationID r = org) (ad_rows db)))"

definition agent_ListByWorker :: "agent_env \<Rightarrow> gostring \<Rightarrow> 'w agent_db \<Rightarrow> agent_error + agent list" where
  "agent_ListByWorker en w db =
     rehydrate_all en (agent_order (filter (\<lambda>r. ag_workerID r = w) (ad_rows db)))"

definition ClearWorkerBindings :: "gostring \<Rightarrow> time \<Rightarrow> 'w agent_db \<Rightarrow> nat \<times> 'w agent_db" where
  "ClearWorkerBindings w t db =
     (if blank w then (0, db)
      else (length (filter (\<lambda>r. ag_workerID r = w) (ad_rows db)),
        db\<lparr>ad_rows := map (\<lambda>r. if ag_workerID r = w
             then r\<lparr>ag_workerID := [], ag_updatedAt := t, ag_version := ag_version r + 1\<rparr> else r) (ad_rows db)\<rparr>))"

subsection \<open>The directory\<close>

definition directory_resolve :: "agent_env \<Rightarrow> gostring \<Rightarrow> 'w agent_db \<Rightarrow> agent_error + agent" where
  "directory_resolve en i db =
     (case agent_FindByID en i db of
        Ok a \<Rightarrow> Ok a
      | Err e \<Rightarrow> if e \<noteq> ErrAgentNotFound then Err e else FindByIdentityMemberID en i db)"

definition OrgOfAgent :: "agent_env \<Rightarrow> gostring \<Rightarrow> 'w agent_db \<Rightarrow> agent_error + gostring" where
  "OrgOfAgent en i db =
     (case directory_resolve en i db of Err e \<Rightarrow> Err e | Ok a \<Rightarrow> Ok (ag_organizationID a))"

definition ConcurrencyCapOfAgent :: "agent_env \<Rightarrow> gostring \<Rightarrow> 'w agent_db \<Rightarrow> agent_error + int" where
  "ConcurrencyCapOfAgent en i db =
     (case directory_resolve en i db of
        Err e \<Rightarrow> if e = ErrAgentNotFound then Ok 1 else Err e
      | Ok a \<Rightarrow> Ok (EffectiveConcurrencyCap (ag_profile a)))"

subsection \<open>Events and activity\<close>

definition promptDescription :: "agent_profile \<Rightarrow> gostring" where
  "promptDescription p = (if \<not> pf_IncludeDescription p then [] else TrimSpace (pf_Description p))"

definition event_payload :: "agent \<Rightarrow> gostring \<Rightarrow> agent_event_payload" where
  "event_payload a resetScope = (let p = ag_profile a in
     \<lparr>pl_AgentID = ag_id a, pl_OrgID = ag_organizationID a, pl_WorkerID = ag_workerID a,
      pl_Lifecycle = lifecycle_text (ag_lifecycle a), pl_Version = ag_version a, pl_ResetScope = resetScope,
      pl_Model = pf_Model p, pl_DisplayName = pf_Name p, pl_CLI = pf_CLI p, pl_Reasoning = pf_Reasoning p,
      pl_Mode = pf_Mode p, pl_Provider = pf_Provider p, pl_OrchestratorModel = pf_OrchestratorModel p,
      pl_DefaultExecutorModel = pf_DefaultExecutorModel p, pl_MaxConcurrentTasks = pf_MaxConcurrentTasks p,
      pl_AllowedModels = pf_AllowedModels p, pl_AllowedExecutors = pf_AllowedExecutors p,
      pl_JudgeEnabled = pf_JudgeEnabled p, pl_ExecutorGitWorktree = pf_ExecutorGitWorktree p,
      pl_SandboxEnabled = pf_SandboxEnabled p, pl_SandboxProvider = pf_SandboxProvider p,
      pl_EnvVars = pf_EnvVars p, pl_PromptDescription = promptDescription p\<rparr>)"

definition draw_id :: "'w agent_db \<Rightarrow> 'w agent_db" where
  "draw_id db = db\<lparr>ad_minted := ad_minted db + 1\<rparr>"

definition emit :: "agent_env \<Rightarrow> time \<Rightarrow> gostring \<Rightarrow> agent \<Rightarrow> gostring \<Rightarrow> 'w agent_db \<Rightarrow>
    agent_error + 'w agent_db" where
  "emit en now eventType a resetScope db =
     (case outbox_Append \<lparr>ob_ID = ae_gen en (ad_minted db), ob_EventType = eventType,
         ob_Refs = ae_refs en (ag_id a) (ag_workerID a) (ag_organizationID a),
         ob_Payload = ae_payload en (event_payload a resetScope), ob_CreatedAt = now, ob_ProcessedAt = None\<rparr>
         (ad_outbox db) of
        Err _ \<Rightarrow> Err ErrEventExists
      | Ok ob \<Rightarrow> Ok (draw_id (db\<lparr>ad_outbox := ob\<rparr>)))"

definition lifecycleControlSummary ::
  "gostring \<Rightarrow> agent_profile \<Rightarrow> gostring \<Rightarrow> gostring \<Rightarrow> nat \<Rightarrow> gostring" where
  "lifecycleControlSummary verb p workerID concurrency envCount =
     ''control '' @ verb @ '': cli='' @ pf_CLI p @ '' model='' @ pf_Model p @ '' worker='' @ workerID @
     '' executor_pool='' @ concurrency @ '' env_overrides='' @ Itoa (int envCount)"

text \<open>The entry is dropped when its id is blank or taken, or the clock reads zero.\<close>

definition recordLifecycleActivity ::
  "agent_env \<Rightarrow> time \<Rightarrow> agent \<Rightarrow> gostring \<Rightarrow> gostring \<Rightarrow> 'w agent_db \<Rightarrow> 'w agent_db" where
  "recordLifecycleActivity en now a verb scope db =
     (if verb = [] then db
      else let p = ag_profile a; i = ae_gen en (ad_minted db);
               concurrency = (if ConcurrencyEnabled p then ''on'' else ''off'');
               ev = \<lparr>la_ID = i, la_AgentID = ag_id a, la_event = verb,
                 la_summary = lifecycleControlSummary verb p (ag_workerID a) concurrency (length (pf_EnvVars p)),
                 la_cli = pf_CLI p, la_model = pf_Model p, la_worker_id = ag_workerID a,
                 la_concurrency = concurrency, la_max_concurrent_tasks = EffectiveMaxConcurrentTasks p,
                 la_env_overrides_count = length (pf_EnvVars p),
                 la_scope = (if verb = ''reset'' \<and> scope \<noteq> [] then Some scope else None), la_OccurredAt = now\<rparr>
           in if blank i \<or> blank (ag_id a) \<or> is_zero_time now then draw_id db
              else if list_ex (\<lambda>x. la_ID x = i) (ad_activity db) then draw_id db
              else draw_id (db\<lparr>ad_activity := ad_activity db @ [ev]\<rparr>))"

subsection \<open>Creation and configuration\<close>

definition resolveAllowedExecutors :: "executor_profile list \<Rightarrow> gostring list \<Rightarrow> gostring \<Rightarrow>
    agent_error + executor_profile list \<times> gostring list" where
  "resolveAllowedExecutors execs models cli =
     (case NormalizeAllowedExecutors (if execs = [] then ExecutorsFromModels models cli else execs) of
        Err e \<Rightarrow> Err e
      | Ok out \<Rightarrow> Ok (out, ModelsOf out))"

record create_agent_command =
  cr_OrganizationID :: gostring
  cr_Name :: gostring
  cr_Description :: gostring
  cr_Model :: gostring
  cr_CLI :: gostring
  cr_Reasoning :: gostring
  cr_Mode :: gostring
  cr_Provider :: gostring
  cr_OrchestratorModel :: gostring
  cr_DefaultExecutorModel :: gostring
  cr_MaxConcurrentTasks :: int
  cr_AllowedModels :: "gostring list"
  cr_AllowedExecutors :: "executor_profile list"
  cr_JudgeEnabled :: bool
  cr_SandboxEnabled :: bool
  cr_SandboxProvider :: gostring
  cr_AutoAssignable :: "bool option"
  cr_IncludeDescription :: "bool option"
  cr_EnvVars :: "(gostring \<times> gostring) list"
  cr_WorkerID :: gostring
  cr_CreatedBy :: gostring
  cr_IdentityMemberID :: gostring

definition create_profile :: "create_agent_command \<Rightarrow> bool \<times> gostring \<Rightarrow>
    executor_profile list \<times> gostring list \<Rightarrow> agent_profile" where
  "create_profile cmd sandbox execs =
     \<lparr>pf_Name = cr_Name cmd, pf_Description = cr_Description cmd, pf_Model = cr_Model cmd,
      pf_CLI = cr_CLI cmd, pf_Reasoning = cr_Reasoning cmd, pf_Mode = cr_Mode cmd,
      pf_Provider = cr_Provider cmd, pf_EnvVars = cr_EnvVars cmd,
      pf_OrchestratorModel = cr_OrchestratorModel cmd, pf_DefaultExecutorModel = cr_DefaultExecutorModel cmd,
      pf_MaxConcurrentTasks = cr_MaxConcurrentTasks cmd, pf_JudgeEnabled = cr_JudgeEnabled cmd,
      pf_ExecutorGitWorktree = False, pf_SandboxEnabled = fst sandbox, pf_SandboxProvider = snd sandbox,
      pf_AllowedExecutors = fst execs, pf_AllowedModels = snd execs,
      pf_AutoAssignable = (cr_AutoAssignable cmd = None \<or> cr_AutoAssignable cmd = Some True),
      pf_IncludeDescription = (cr_IncludeDescription cmd = None \<or> cr_IncludeDescription cmd = Some True)\<rparr>"

text \<open>\<open>worker_org\<close> is the organization of the row that the workers table has for the chosen worker.\<close>

definition CreateAgent :: "agent_env \<Rightarrow> time \<Rightarrow> gostring option \<Rightarrow> create_agent_command \<Rightarrow>
    'w agent_db \<Rightarrow> agent_error + 'w agent_db" where
  "CreateAgent en now worker_org cmd db =
     (if \<not> IsSupportedExecutionCLI (cr_CLI cmd) then Err ErrUnsupportedCLI
      else if \<not> IsSupportedReasoning (cr_Reasoning cmd) then Err ErrUnsupportedReasoning
      else case NormalizeSandboxConfig (cr_SandboxEnabled cmd) (cr_SandboxProvider cmd) of
        Err e \<Rightarrow> Err e
      | Ok sandbox \<Rightarrow>
     (case resolveAllowedExecutors (cr_AllowedExecutors cmd) (cr_AllowedModels cmd) (cr_CLI cmd) of
        Err e \<Rightarrow> Err e
      | Ok execs \<Rightarrow>
     (case NewAgent (ae_lower en) \<lparr>na_ID = ae_gen en (ad_minted db), na_OrganizationID = cr_OrganizationID cmd,
         na_Profile = create_profile cmd sandbox execs, na_CapabilityTags = [], na_WorkerID = cr_WorkerID cmd,
         na_CreatedBy = cr_CreatedBy cmd, na_IdentityMemberID = cr_IdentityMemberID cmd, na_CreatedAt = now\<rparr> of
        Err e \<Rightarrow> Err e
      | Ok a \<Rightarrow>
          if worker_org \<noteq> Some (cr_OrganizationID cmd) then Err ErrWorkerNotInOrg
          else (case agent_Save a (draw_id db) of
             Err e \<Rightarrow> Err e
           | Ok db1 \<Rightarrow> emit en now ''agent.created'' a [] db1))))"

record update_config_command =
  uc_Model :: gostring
  uc_CLI :: gostring
  uc_Reasoning :: gostring
  uc_Mode :: gostring
  uc_Provider :: gostring
  uc_EnvVars :: "(gostring \<times> gostring) list option"
  uc_OrchestratorModel :: gostring
  uc_DefaultExecutorModel :: gostring
  uc_MaxConcurrentTasks :: int
  uc_AllowedModels :: "gostring list"
  uc_AllowedExecutors :: "executor_profile list"
  uc_AutoAssignable :: "bool option"
  uc_Description :: "gostring option"
  uc_IncludeDescription :: "bool option"
  uc_JudgeEnabled :: "bool option"
  uc_ExecutorGitWorktree :: "bool option"
  uc_SandboxEnabled :: "bool option"
  uc_SandboxProvider :: "gostring option"

text \<open>The loop over the map visits its entries in the order of the list, which Go leaves open.\<close>

definition normalizeEnvVars :: "(gostring \<times> gostring) list \<Rightarrow> (gostring \<times> gostring) list" where
  "normalizeEnvVars vars =
     fold (\<lambda>(k, v) out. if TrimSpace k = [] \<or> Contains (TrimSpace k) ''='' then out
                        else AList.update (TrimSpace k) v out) vars []"

definition or_keep :: "'a option \<Rightarrow> 'a \<Rightarrow> 'a" where
  "or_keep new old = (case new of None \<Rightarrow> old | Some x \<Rightarrow> x)"

definition config_profile :: "update_config_command \<Rightarrow> executor_profile list \<times> gostring list \<Rightarrow>
    agent_profile \<Rightarrow> agent_error + agent_profile" where
  "config_profile cmd execs p =
     (let p = p\<lparr>pf_Description := or_keep (uc_Description cmd) (pf_Description p),
        pf_Model := uc_Model cmd, pf_CLI := uc_CLI cmd, pf_Reasoning := uc_Reasoning cmd,
        pf_Mode := uc_Mode cmd, pf_Provider := uc_Provider cmd,
        pf_EnvVars := (case uc_EnvVars cmd of None \<Rightarrow> pf_EnvVars p | Some vs \<Rightarrow> normalizeEnvVars vs),
        pf_OrchestratorModel := uc_OrchestratorModel cmd,
        pf_DefaultExecutorModel := uc_DefaultExecutorModel cmd,
        pf_MaxConcurrentTasks := uc_MaxConcurrentTasks cmd,
        pf_JudgeEnabled := or_keep (uc_JudgeEnabled cmd) (pf_JudgeEnabled p),
        pf_ExecutorGitWorktree := or_keep (uc_ExecutorGitWorktree cmd) (pf_ExecutorGitWorktree p),
        pf_AllowedExecutors := fst execs, pf_AllowedModels := snd execs,
        pf_AutoAssignable := or_keep (uc_AutoAssignable cmd) (pf_AutoAssignable p),
        pf_IncludeDescription := or_keep (uc_IncludeDescription cmd) (pf_IncludeDescription p)\<rparr>
      in if uc_SandboxEnabled cmd = None \<and> uc_SandboxProvider cmd = None then Ok p
         else case NormalizeSandboxConfig (or_keep (uc_SandboxEnabled cmd) (pf_SandboxEnabled p))
             (or_keep (uc_SandboxProvider cmd) (pf_SandboxProvider p)) of
           Err e \<Rightarrow> Err e
         | Ok (enabled, provider) \<Rightarrow> Ok (p\<lparr>pf_SandboxEnabled := enabled, pf_SandboxProvider := provider\<rparr>))"

definition UpdateAgentConfig :: "agent_env \<Rightarrow> time \<Rightarrow> gostring \<Rightarrow> update_config_command \<Rightarrow>
    'w agent_db \<Rightarrow> agent_error + 'w agent_db" where
  "UpdateAgentConfig en now i cmd db =
     (if \<not> IsSupportedExecutionCLI (uc_CLI cmd) then Err ErrUnsupportedCLI
      else if \<not> IsSupportedReasoning (uc_Reasoning cmd) then Err ErrUnsupportedReasoning
      else case resolveAllowedExecutors (uc_AllowedExecutors cmd) (uc_AllowedModels cmd) (uc_CLI cmd) of
        Err e \<Rightarrow> Err e
      | Ok execs \<Rightarrow>
     (case agent_FindByID en i db of
        Err e \<Rightarrow> Err e
      | Ok a \<Rightarrow>
     (case config_profile cmd execs (ag_profile a) of
        Err e \<Rightarrow> Err e
      | Ok p \<Rightarrow>
     (case agent_UpdateProfile now p now a of
        Err e \<Rightarrow> Err e
      | Ok a1 \<Rightarrow>
     (case agent_Update a1 db of
        Err e \<Rightarrow> Err e
      | Ok db1 \<Rightarrow>
          if ag_lifecycle a1 = LifecycleRunning then emit en now ''agent.lifecycle_changed'' a1 [] db1
          else Ok db1)))))"

definition SetAgentCapabilityTags :: "agent_env \<Rightarrow> time \<Rightarrow> gostring \<Rightarrow> gostring list \<Rightarrow>
    'w agent_db \<Rightarrow> agent_error + 'w agent_db" where
  "SetAgentCapabilityTags en now i tags db =
     (case agent_FindByID en i db of
        Err e \<Rightarrow> Err e
      | Ok a \<Rightarrow> agent_Update (agent_SetCapabilityTags (ae_lower en) now tags now a) db)"

subsection \<open>Lifecycle verbs\<close>

definition lifecycleOp :: "agent_env \<Rightarrow> time \<Rightarrow> gostring \<Rightarrow> (agent \<Rightarrow> agent_error + agent) \<Rightarrow>
    gostring \<Rightarrow> gostring \<Rightarrow> 'w agent_db \<Rightarrow> agent_error + 'w agent_db" where
  "lifecycleOp en now i mutate resetScope verb db =
     (case agent_FindByID en i db of
        Err e \<Rightarrow> Err e
      | Ok a \<Rightarrow>
     (case mutate a of
        Err e \<Rightarrow> Err e
      | Ok a1 \<Rightarrow>
     (case agent_Update a1 db of
        Err e \<Rightarrow> Err e
      | Ok db1 \<Rightarrow> emit en now ''agent.lifecycle_changed'' a1 resetScope
          (recordLifecycleActivity en now a1 verb resetScope db1))))"

definition StartAgent :: "agent_env \<Rightarrow> time \<Rightarrow> gostring \<Rightarrow> 'w agent_db \<Rightarrow> agent_error + 'w agent_db" where
  "StartAgent en now i db = lifecycleOp en now i (agent_Start now now) [] ''started'' db"

definition StopAgent :: "agent_env \<Rightarrow> time \<Rightarrow> gostring \<Rightarrow> 'w agent_db \<Rightarrow> agent_error + 'w agent_db" where
  "StopAgent en now i db = lifecycleOp en now i (agent_Stop now now) [] ''stopped'' db"

definition RestartAgent :: "agent_env \<Rightarrow> time \<Rightarrow> gostring \<Rightarrow> 'w agent_db \<Rightarrow> agent_error + 'w agent_db" where
  "RestartAgent en now i db = lifecycleOp en now i (agent_Restart now now) [] ''restarted'' db"

definition ResetAgent :: "agent_env \<Rightarrow> time \<Rightarrow> gostring \<Rightarrow> reset_scope \<Rightarrow> bool \<Rightarrow> 'w agent_db \<Rightarrow>
    agent_error + 'w agent_db" where
  "ResetAgent en now i scope confirm db =
     (if \<not> confirm then Err ErrResetNotConfirmed
      else lifecycleOp en now i (agent_Reset now scope now) (scope_text scope) ''reset'' db)"

definition feedbackPersist :: "agent_env \<Rightarrow> gostring \<Rightarrow> (agent \<Rightarrow> agent_error + agent) \<Rightarrow>
    'w agent_db \<Rightarrow> agent_error + 'w agent_db" where
  "feedbackPersist en i mutate db =
     (case agent_FindByID en i db of
        Err e \<Rightarrow> Err e
      | Ok a \<Rightarrow> (case mutate a of Err e \<Rightarrow> Err e | Ok a1 \<Rightarrow> agent_Update a1 db))"

definition MarkAgentStopped :: "agent_env \<Rightarrow> time \<Rightarrow> gostring \<Rightarrow> time \<Rightarrow> 'w agent_db \<Rightarrow> agent_error + 'w agent_db" where
  "MarkAgentStopped en now i t db = feedbackPersist en i (agent_MarkStopped now t) db"

definition MarkAgentError :: "agent_env \<Rightarrow> time \<Rightarrow> gostring \<Rightarrow> gostring \<Rightarrow> time \<Rightarrow> 'w agent_db \<Rightarrow>
    agent_error + 'w agent_db" where
  "MarkAgentError en now i msg t db = feedbackPersist en i (\<lambda>a. Ok (agent_MarkError now msg t a)) db"

definition MarkAgentRecovered :: "agent_env \<Rightarrow> time \<Rightarrow> gostring \<Rightarrow> time \<Rightarrow> 'w agent_db \<Rightarrow> agent_error + 'w agent_db" where
  "MarkAgentRecovered en now i t db = feedbackPersist en i (\<lambda>a. Ok (agent_MarkRecovered now t a)) db"

definition MarkAgentFailed :: "agent_env \<Rightarrow> time \<Rightarrow> gostring \<Rightarrow> gostring \<Rightarrow> time \<Rightarrow> 'w agent_db \<Rightarrow>
    agent_error + 'w agent_db" where
  "MarkAgentFailed en now i msg t db = feedbackPersist en i (agent_MarkFailed now msg t) db"

definition ArchiveAgent :: "agent_env \<Rightarrow> time \<Rightarrow> gostring \<Rightarrow> 'w agent_db \<Rightarrow> agent_error + 'w agent_db" where
  "ArchiveAgent en now i db =
     (case agent_FindByID en i db of
        Err e \<Rightarrow> Err e
      | Ok a \<Rightarrow>
     (case agent_Archive now now a of
        Err e \<Rightarrow> if e = ErrAgentAlreadyArchived then Ok db else Err e
      | Ok a1 \<Rightarrow> repo_Archive a1 db))"

definition DeleteAgent :: "agent_env \<Rightarrow> gostring \<Rightarrow> bool \<Rightarrow> 'w agent_db \<Rightarrow> agent_error + 'w agent_db" where
  "DeleteAgent en i force db =
     (case agent_FindByID en i db of
        Err e \<Rightarrow> Err e
      | Ok a \<Rightarrow> if \<not> force \<and> ag_lifecycle a \<noteq> LifecycleStopped then Err ErrAgentNotStopped
                else Ok (repo_Delete i db))"

definition UnbindAgentsFromWorker :: "time \<Rightarrow> gostring \<Rightarrow> 'w agent_db \<Rightarrow> nat \<times> 'w agent_db" where
  "UnbindAgentsFromWorker now w db = ClearWorkerBindings w now db"

subsection \<open>The worker's feedback (internal/admin/api)\<close>

text \<open>
  A worker may speak only for agents bound to it.  \<open>worker\<close> is the id in its token and
  \<open>allowed\<close> what the authorizer answers for \<open>agent.operate.self\<close>.
\<close>

definition requireAgentOnWorker :: "agent_env \<Rightarrow> bool \<Rightarrow> gostring \<Rightarrow> gostring \<Rightarrow> 'w agent_db \<Rightarrow>
    agent_error + agent" where
  "requireAgentOnWorker en allowed worker i db =
     (if worker = [] then Err (ErrAgentText ''worker token has empty worker id'')
      else if blank i then Err (ErrAgentText ''missing_agent_id'')
      else case agent_FindByID en i db of
        Err e \<Rightarrow> Err e
      | Ok a \<Rightarrow> if ag_workerID a \<noteq> worker then Err ErrNotBoundToWorker
                else if \<not> allowed then Err (ErrAgentText ''forbidden'') else Ok a)"

definition lifecycleFeedback :: "agent_env \<Rightarrow> time \<Rightarrow> bool \<Rightarrow> gostring \<Rightarrow> gostring \<Rightarrow> gostring \<Rightarrow> gostring \<Rightarrow>
    time \<Rightarrow> 'w agent_db \<Rightarrow> agent_error + 'w agent_db" where
  "lifecycleFeedback en now allowed worker i state msg reported db =
     (case requireAgentOnWorker en allowed worker i db of
        Err e \<Rightarrow> Err e
      | Ok a \<Rightarrow>
          let t = stamp now reported; st = ToLower (ae_lower en) (TrimSpace state) in
          if st = ''running'' then MarkAgentRecovered en now (ag_id a) t db
          else if st = ''stopped'' then MarkAgentStopped en now (ag_id a) t db
          else if st = ''error'' then MarkAgentError en now (ag_id a) msg t db
          else if st = ''failed'' then MarkAgentFailed en now (ag_id a) msg t db
          else Err (ErrAgentText ''invalid_state''))"

end
