(* ===== verification/Agent_History.thy ===== *)
theory Agent_History
  imports Agent_Service
begin

section \<open>Histories of calls on the agents\<close>

text \<open>
  What every call of the service and every report of a worker keeps of the table: the rows
  have different ids, hold valid lifecycles and normal tags, and move only along the
  transitions of the call.  \<open>row_of\<close> is the row with an id.
\<close>

subsection \<open>Rows\<close>

definition row_of :: "'w agent_db \<Rightarrow> gostring \<Rightarrow> agent option" where
  "row_of db i = List.find (\<lambda>r. ag_id r = i) (ad_rows db)"

definition row_wf :: "agent_env \<Rightarrow> agent \<Rightarrow> bool" where
  "row_wf en r \<longleftrightarrow> lifecycle_IsValid (ag_lifecycle r) \<and> 1 \<le> ag_version r \<and>
     normalizeTags (ae_lower en) (ag_capabilityTags r) = ag_capabilityTags r"

definition rows_wf :: "agent_env \<Rightarrow> 'w agent_db \<Rightarrow> bool" where
  "rows_wf en db \<longleftrightarrow> distinct (map ag_id (ad_rows db)) \<and> (\<forall>r \<in> set (ad_rows db). row_wf en r)"

definition loaded :: "agent \<Rightarrow> agent" where
  "loaded r = r\<lparr>ag_lastLifecycleTransitionAt :=
     lifecycleTransitionOrFallback (ag_lastLifecycleTransitionAt r) (ag_updatedAt r)\<rparr>"

lemma loaded_simps [simp]:
  "ag_id (loaded r) = ag_id r" "ag_lifecycle (loaded r) = ag_lifecycle r" "ag_version (loaded r) = ag_version r"
  "ag_workerID (loaded r) = ag_workerID r" "ag_capabilityTags (loaded r) = ag_capabilityTags r"
  "ag_profile (loaded r) = ag_profile r" "ag_organizationID (loaded r) = ag_organizationID r"
  by (simp_all add: loaded_def)

lemma Rehydrate_wf: "row_wf en r \<Longrightarrow> RehydrateAgent (ae_lower en) r = Ok (loaded r)"
  by (simp add: row_wf_def RehydrateAgent_def loaded_def)

lemma find_ids: "List.find (\<lambda>r. ag_id r = i) rs = Some r \<Longrightarrow> r \<in> set rs \<and> ag_id r = i"
  by (induction rs) (auto split: if_splits)

lemma row_of_in: "row_of db i = Some r \<Longrightarrow> r \<in> set (ad_rows db) \<and> ag_id r = i"
  unfolding row_of_def by (rule find_ids)

lemma row_of_None: "row_of db i = None \<longleftrightarrow> i \<notin> ag_id ` set (ad_rows db)"
  by (auto simp: row_of_def find_None_iff)

lemma FindByID_cases:
  assumes "rows_wf en db"
  obtains "row_of db i = None" "agent_FindByID en i db = Err ErrAgentNotFound"
  | r where "row_of db i = Some r" "agent_FindByID en i db = Ok (loaded r)"
proof (cases "row_of db i")
  case None
  then show ?thesis using that(1) by (simp add: row_of_def agent_FindByID_def)
next
  case (Some r)
  with assms have "row_wf en r" using row_of_in [OF Some] by (simp add: rows_wf_def)
  with Some that(2) show ?thesis by (simp add: row_of_def agent_FindByID_def Rehydrate_wf)
qed

lemma row_of_simps [simp]:
  "row_of (draw_id db) i = row_of db i" "ad_rows (draw_id db) = ad_rows db"
  "row_of (db\<lparr>ad_outbox := ob\<rparr>) i = row_of db i"
  by (simp_all add: row_of_def draw_id_def)

lemma row_of_map_row:
  assumes "\<And>r. ag_id (f r) = ag_id r"
  shows "row_of (map_row j f db) i = (if i = j then map_option f (row_of db i) else row_of db i)"
proof -
  have "List.find (\<lambda>r. ag_id r = i) (map (\<lambda>r. if ag_id r = j then f r else r) rs) =
    (if i = j then map_option f (List.find (\<lambda>r. ag_id r = i) rs) else List.find (\<lambda>r. ag_id r = i) rs)" for rs
    using assms by (induction rs) auto
  then show ?thesis by (simp add: row_of_def map_row_def)
qed

lemma find_map_same:
  assumes "\<And>r. ag_id (f r) = ag_id r"
  shows "List.find (\<lambda>r. ag_id r = i) (map f rs) = map_option f (List.find (\<lambda>r. ag_id r = i) rs)"
  using assms by (induction rs) auto

lemma row_of_Delete: "row_of (repo_Delete j db) i = (if i = j then None else row_of db i)"
proof -
  have "List.find (\<lambda>r. ag_id r = i) (filter (\<lambda>r. ag_id r \<noteq> j) rs) =
    (if i = j then None else List.find (\<lambda>r. ag_id r = i) rs)" for rs
    by (induction rs) auto
  from this [of "ad_rows db"] show ?thesis by (auto simp: row_of_def repo_Delete_def)
qed

lemma find_append_row:
  "List.find P (rs @ [r]) = (case List.find P rs of None \<Rightarrow> if P r then Some r else None | Some x \<Rightarrow> Some x)"
  by (induction rs) auto

lemma row_kept [simp]:
  "ag_id (update_row a r) = ag_id r" "ag_id (stored_agent a) = ag_id a"
  "ag_lifecycle (stored_agent a) = ag_lifecycle a" "ag_version (stored_agent a) = ag_version a"
  "ag_workerID (stored_agent a) = ag_workerID a" "ag_organizationID (stored_agent a) = ag_organizationID a"
  "ag_capabilityTags (stored_agent a) = ag_capabilityTags a"
  "ag_lifecycle (update_row a r) = ag_lifecycle a" "ag_version (update_row a r) = ag_version a"
  "ag_workerID (update_row a r) = ag_workerID r" "ag_organizationID (update_row a r) = ag_organizationID r"
  "ag_createdBy (update_row a r) = ag_createdBy r" "ag_createdAt (update_row a r) = ag_createdAt r"
  "ag_identityMemberID (update_row a r) = ag_identityMemberID r"
  "ag_capabilityTags (update_row a r) = ag_capabilityTags a"
  by (simp_all add: update_row_def stored_agent_def)

subsection \<open>Emission and activity touch nothing else\<close>

definition appended :: "agent_env \<Rightarrow> time \<Rightarrow> gostring \<Rightarrow> agent \<Rightarrow> gostring \<Rightarrow> nat \<Rightarrow> outbox_event" where
  "appended en now ty a scope k = \<lparr>ob_ID = ae_gen en k, ob_EventType = ty,
     ob_Refs = or_empty_object (ae_refs en (ag_id a) (ag_workerID a) (ag_organizationID a)),
     ob_Payload = or_empty_object (ae_payload en (event_payload a scope)), ob_CreatedAt = now,
     ob_ProcessedAt = None\<rparr>"

lemma list_ex_id: "list_ex (\<lambda>x. f x = k) es \<longleftrightarrow> k \<in> f ` set es"
  by (auto simp: list_ex_iff)

lemma emit_cases:
  "emit en now ty a scope db = Ok db' \<longleftrightarrow>
     ae_gen en (ad_minted db) \<notin> ob_ID ` set (rs_events (ad_outbox db)) \<and>
     db' = draw_id (db\<lparr>ad_outbox := (ad_outbox db)\<lparr>rs_events := rs_events (ad_outbox db) @
       [appended en now ty a scope (ad_minted db)]\<rparr>\<rparr>)"
  by (auto simp: emit_def outbox_Append_def appended_def list_ex_id split: sum.splits)

lemma record_keeps [simp]:
  "ad_rows (recordLifecycleActivity en now a verb scope db) = ad_rows db"
  "ad_outbox (recordLifecycleActivity en now a verb scope db) = ad_outbox db"
  "ad_minted db \<le> ad_minted (recordLifecycleActivity en now a verb scope db)"
  by (simp_all add: recordLifecycleActivity_def draw_id_def Let_def)

lemma row_of_record [simp]: "row_of (recordLifecycleActivity en now a verb scope db) i = row_of db i"
  by (simp add: row_of_def)

subsection \<open>The calls\<close>

datatype agent_op =
    AgCreate time "gostring option" create_agent_command
  | AgConfig time gostring update_config_command
  | AgTags time gostring "gostring list"
  | AgStart time gostring
  | AgStop time gostring
  | AgRestart time gostring
  | AgReset time gostring reset_scope bool
  | AgArchive time gostring
  | AgDelete gostring bool
  | AgUnbind time gostring
  | AgFeedback time bool gostring gostring gostring gostring time

fun agent_exec :: "agent_env \<Rightarrow> agent_op \<Rightarrow> 'w agent_db \<Rightarrow> agent_error + 'w agent_db" where
  "agent_exec en (AgCreate now wo cmd) db = CreateAgent en now wo cmd db"
| "agent_exec en (AgConfig now i cmd) db = UpdateAgentConfig en now i cmd db"
| "agent_exec en (AgTags now i tags) db = SetAgentCapabilityTags en now i tags db"
| "agent_exec en (AgStart now i) db = StartAgent en now i db"
| "agent_exec en (AgStop now i) db = StopAgent en now i db"
| "agent_exec en (AgRestart now i) db = RestartAgent en now i db"
| "agent_exec en (AgReset now i scope confirm) db = ResetAgent en now i scope confirm db"
| "agent_exec en (AgArchive now i) db = ArchiveAgent en now i db"
| "agent_exec en (AgDelete i force) db = DeleteAgent en i force db"
| "agent_exec en (AgUnbind now w) db = Ok (snd (UnbindAgentsFromWorker now w db))"
| "agent_exec en (AgFeedback now allowed w i state msg t) db = lifecycleFeedback en now allowed w i state msg t db"

definition no_agents :: "'w \<Rightarrow> time \<Rightarrow> 'w agent_db" where
  "no_agents w now = \<lparr>ad_rows = [], ad_activity = [], ad_outbox = fresh_relay w now, ad_minted = 0\<rparr>"

subsection \<open>How a row moves\<close>

text \<open>The transitions that a call allows, read off the aggregate.\<close>

definition settled :: "agent_lifecycle set" where
  "settled = {LifecycleStopped, LifecycleError, LifecycleFailed}"

fun moves :: "agent_env \<Rightarrow> agent_op \<Rightarrow> agent_lifecycle \<Rightarrow> agent_lifecycle \<Rightarrow> bool" where
  "moves en (AgStart _ _) l l' \<longleftrightarrow> l \<in> settled \<and> l' = LifecycleRunning"
| "moves en (AgStop _ _) l l' \<longleftrightarrow> l = LifecycleRunning \<and> l' = LifecycleStopping"
| "moves en (AgReset _ _ _ _) l l' \<longleftrightarrow> l \<in> settled \<and> l' = LifecycleResetting"
| "moves en (AgArchive _ _) l l' \<longleftrightarrow> l \<in> settled \<and> l' = LifecycleArchived"
| "moves en (AgFeedback _ _ _ _ state _ _) l l' \<longleftrightarrow>
     ToLower (ae_lower en) (TrimSpace state) = ''running'' \<and> l = LifecycleError \<and> l' = LifecycleRunning \<or>
     ToLower (ae_lower en) (TrimSpace state) = ''stopped'' \<and> l \<in> {LifecycleStopping, LifecycleResetting} \<and>
       l' = LifecycleStopped \<or>
     ToLower (ae_lower en) (TrimSpace state) = ''error'' \<and> l' = LifecycleError \<or>
     ToLower (ae_lower en) (TrimSpace state) = ''failed'' \<and> l \<in> {LifecycleRunning, LifecycleError} \<and>
       l' = LifecycleFailed"
| "moves en _ l l' \<longleftrightarrow> False"

fun target :: "agent_op \<Rightarrow> gostring option" where
  "target (AgCreate _ _ _) = None"
| "target (AgConfig _ i _) = Some i"
| "target (AgTags _ i _) = Some i"
| "target (AgStart _ i) = Some i"
| "target (AgStop _ i) = Some i"
| "target (AgRestart _ i) = Some i"
| "target (AgReset _ i _ _) = Some i"
| "target (AgArchive _ i) = Some i"
| "target (AgDelete i _) = Some i"
| "target (AgUnbind _ _) = None"
| "target (AgFeedback _ _ _ i _ _ _) = Some i"

text \<open>
  A worker reports only on its own agents: the guard of the report is part of the step.
\<close>

fun spoken_for :: "agent_op \<Rightarrow> agent \<Rightarrow> bool" where
  "spoken_for (AgFeedback _ _ w _ _ _ _) r \<longleftrightarrow> ag_workerID r = w \<and> w \<noteq> []"
| "spoken_for _ r \<longleftrightarrow> True"

definition same_agent :: "agent \<Rightarrow> agent \<Rightarrow> bool" where
  "same_agent r r' \<longleftrightarrow> ag_id r' = ag_id r \<and> ag_organizationID r' = ag_organizationID r \<and>
     ag_createdBy r' = ag_createdBy r \<and> ag_createdAt r' = ag_createdAt r \<and>
     ag_identityMemberID r' = ag_identityMemberID r"

definition row_step :: "agent_env \<Rightarrow> agent_op \<Rightarrow> agent \<Rightarrow> agent \<Rightarrow> bool" where
  "row_step en op r r' \<longleftrightarrow> row_wf en r' \<and> same_agent r r' \<and> ag_version r \<le> ag_version r' \<and>
     ag_workerID r' \<in> {ag_workerID r, []} \<and>
     (ag_lifecycle r' = ag_lifecycle r \<or>
        target op = Some (ag_id r) \<and> spoken_for op r \<and> moves en op (ag_lifecycle r) (ag_lifecycle r')) \<and>
     (ag_lifecycle r' = LifecycleArchived \<and> ag_lifecycle r \<noteq> LifecycleArchived \<longrightarrow> ag_workerID r' = [])"

lemma row_step_refl: "row_wf en r \<Longrightarrow> row_step en op r r"
  by (simp add: row_step_def same_agent_def)

text \<open>What a call makes of the table, row by row.\<close>

definition table_step :: "agent_env \<Rightarrow> agent_op \<Rightarrow> 'w agent_db \<Rightarrow> 'w agent_db \<Rightarrow> bool" where
  "table_step en op db db' \<longleftrightarrow>
     distinct (map ag_id (ad_rows db')) \<and> (\<forall>i.
       case (row_of db i, row_of db' i) of
         (None, None) \<Rightarrow> True
       | (None, Some a) \<Rightarrow> row_wf en a \<and> (\<exists>now wo cmd. op = AgCreate now wo cmd) \<and>
           i = ae_gen en (ad_minted db) \<and> ag_lifecycle a = LifecycleStopped \<and> ag_version a = 1
       | (Some r, None) \<Rightarrow> \<exists>force. op = AgDelete i force
       | (Some r, Some r') \<Rightarrow> row_step en op r r')"

lemma table_step_same:
  "rows_wf en db \<Longrightarrow> ad_rows db' = ad_rows db \<Longrightarrow> table_step en op db db'"
  by (auto simp: table_step_def rows_wf_def row_of_def dest: find_ids intro!: row_step_refl split: option.splits)

lemma table_step_map:
  assumes wf: "rows_wf en db" and rows: "ad_rows db' = ad_rows (map_row j f db)"
    and f: "\<And>r. ag_id (f r) = ag_id r"
    and st: "\<And>r. row_of db j = Some r \<Longrightarrow> row_step en op r (f r)"
  shows "table_step en op db db'"
proof -
  have "map ag_id (ad_rows db') = map ag_id (ad_rows db)"
    unfolding rows map_row_def using f by (simp add: comp_def)
  moreover have "row_of db' i = row_of (map_row j f db) i" for i by (simp add: row_of_def rows)
  ultimately show ?thesis
    using wf st by (auto simp: table_step_def rows_wf_def row_of_map_row [OF f] split: option.splits
      dest: row_of_in intro!: row_step_refl)
qed

lemma table_step_all:
  assumes wf: "rows_wf en db" and rows: "ad_rows db' = map f (ad_rows db)"
    and f: "\<And>r. ag_id (f r) = ag_id r"
    and st: "\<And>r. row_wf en r \<Longrightarrow> row_step en op r (f r)"
  shows "table_step en op db db'"
proof -
  have "row_of db' i = map_option f (row_of db i)" for i
    unfolding row_of_def rows by (rule find_map_same) (rule f)
  moreover have "map ag_id (ad_rows db') = map ag_id (ad_rows db)"
    using f by (simp add: rows comp_def)
  ultimately show ?thesis
    using wf st by (fastforce simp: table_step_def rows_wf_def split: option.splits dest: row_of_in)
qed

lemma Update_step:
  assumes wf: "rows_wf en db" and up: "agent_Update a db = Ok db1" and rows: "ad_rows db' = ad_rows db1"
    and r: "row_of db i = Some r" and a: "ag_id a = i" "row_step en op r (update_row a r)"
  shows "table_step en op db db'"
proof (rule table_step_map [OF wf])
  show "ad_rows db' = ad_rows (map_row i (update_row a) db)"
    using up rows a(1) by (auto simp: agent_Update_def split: if_splits)
qed (use r a(2) in auto)

named_theorems agent_mutators "definitions of the mutators of the aggregate"

lemmas [agent_mutators] = agent_Start_def agent_Stop_def agent_Restart_def agent_Reset_def agent_Archive_def
  agent_MarkStopped_def agent_MarkError_def agent_MarkRecovered_def agent_MarkFailed_def
  agent_UpdateProfile_def agent_SetCapabilityTags_def

lemmas step_defs = row_step_def same_agent_def row_wf_def settled_def lifecycle_IsValid_def

lemma lifecycleOp_step:
  assumes wf: "rows_wf en db" and run: "lifecycleOp en now i mutate sc verb db = Ok db'"
    and st: "\<And>r a. row_wf en r \<Longrightarrow> ag_id r = i \<Longrightarrow> mutate (loaded r) = Ok a \<Longrightarrow>
      ag_id a = i \<and> row_step en op r (update_row a r)"
  shows "table_step en op db db'"
proof -
  from run obtain r a db1 where r: "row_of db i = Some r" "mutate (loaded r) = Ok a"
    and up: "agent_Update a db = Ok db1" "ad_rows db' = ad_rows db1"
    by - (rule FindByID_cases [OF wf, where i = i], auto simp: lifecycleOp_def emit_cases split: sum.splits)
  then show ?thesis
    using Update_step [OF wf up r(1)] st [of r a] wf row_of_in [OF r(1)] by (auto simp: rows_wf_def)
qed

lemma feedback_step:
  assumes wf: "rows_wf en db" and run: "feedbackPersist en i mutate db = Ok db'" and r0: "row_of db i = Some r"
    and st: "\<And>a. row_wf en r \<Longrightarrow> ag_id r = i \<Longrightarrow> mutate (loaded r) = Ok a \<Longrightarrow>
      ag_id a = i \<and> row_step en op r (update_row a r)"
  shows "table_step en op db db' \<and> ad_outbox db' = ad_outbox db"
proof -
  from run r0 obtain a where a: "mutate (loaded r) = Ok a" "agent_Update a db = Ok db'"
    by - (rule FindByID_cases [OF wf, where i = i], auto simp: feedbackPersist_def split: sum.splits)
  then have "table_step en op db db'"
    using Update_step [OF wf a(2) refl r0] st [of a] wf row_of_in [OF r0] by (auto simp: rows_wf_def)
  moreover have "ad_outbox db' = ad_outbox db"
    using a(2) by (auto simp: agent_Update_def map_row_def split: if_splits)
  ultimately show ?thesis by simp
qed

lemma verb_steps:
  assumes "rows_wf en db"
  shows "StartAgent en now i db = Ok db' \<Longrightarrow> table_step en (AgStart now i) db db'"
    and "StopAgent en now i db = Ok db' \<Longrightarrow> table_step en (AgStop now i) db db'"
    and "RestartAgent en now i db = Ok db' \<Longrightarrow> table_step en (AgRestart now i) db db'"
    and "ResetAgent en now i scope confirm db = Ok db' \<Longrightarrow> table_step en (AgReset now i scope confirm) db db'"
  unfolding StartAgent_def StopAgent_def RestartAgent_def ResetAgent_def
  by ((erule lifecycleOp_step [OF assms] | (simp split: if_splits, erule lifecycleOp_step [OF assms])),
      auto simp: agent_mutators step_defs split: if_splits)+

lemma tags_step:
  assumes "rows_wf en db" "SetAgentCapabilityTags en now i tags db = Ok db'"
  shows "table_step en (AgTags now i tags) db db' \<and> ad_outbox db' = ad_outbox db"
proof -
  have "feedbackPersist en i (\<lambda>a. Ok (agent_SetCapabilityTags (ae_lower en) now tags now a)) db = Ok db'"
    using assms(2) by (simp add: SetAgentCapabilityTags_def feedbackPersist_def split: sum.splits)
  moreover from this obtain r where "row_of db i = Some r"
    by - (rule FindByID_cases [OF assms(1), where i = i], auto simp: feedbackPersist_def)
  ultimately show ?thesis
    by (rule feedback_step [OF assms(1)]) (auto simp: agent_mutators step_defs)
qed

lemma archive_step:
  assumes wf: "rows_wf en db" and run: "ArchiveAgent en now i db = Ok db'"
  shows "table_step en (AgArchive now i) db db' \<and> ad_outbox db' = ad_outbox db"
proof -
  obtain r where r: "row_of db i = Some r" "agent_FindByID en i db = Ok (loaded r)"
    using run by - (rule FindByID_cases [OF wf, where i = i], auto simp: ArchiveAgent_def)
  have wfr: "row_wf en r" "ag_id r = i" using wf row_of_in [OF r(1)] by (auto simp: rows_wf_def)
  show ?thesis
  proof (cases "agent_Archive now now (loaded r)")
    case (Inl e)
    with run r have "db' = db" by (auto simp: ArchiveAgent_def split: if_splits)
    with wf show ?thesis by (simp add: table_step_same)
  next
    case (Inr a)
    with run r have up: "repo_Archive a db = Ok db'" by (simp add: ArchiveAgent_def)
    define f :: "agent \<Rightarrow> agent" where "f = (\<lambda>r. r\<lparr>ag_workerID := [], ag_lifecycle := ag_lifecycle a, ag_lifecycleError := [],
      ag_updatedAt := ag_updatedAt a,
      ag_lastLifecycleTransitionAt := ag_lastLifecycleTransitionAt a, ag_version := ag_version a\<rparr>)"
    have a: "ag_id a = i" "ag_lifecycle a = LifecycleArchived" "ag_lifecycle r \<in> settled"
      "ag_version a = ag_version r + 1"
      using Inr wfr by (auto simp: agent_Archive_def settled_def split: if_splits)
    then have "db' = map_row i f db"
      using up by (auto simp: repo_Archive_def f_def split: if_splits)
    moreover have "row_step en (AgArchive now i) r (f r)"
      using a wfr by (auto simp: step_defs f_def)
    ultimately show ?thesis
      using r(1) by (auto intro!: table_step_map [OF wf, of _ i f] simp: f_def) (auto simp: map_row_def)
  qed
qed

lemma config_step:
  assumes wf: "rows_wf en db" and run: "UpdateAgentConfig en now i cmd db = Ok db'"
  shows "table_step en (AgConfig now i cmd) db db'"
proof -
  from run obtain r p a db1 where r: "row_of db i = Some r" "agent_UpdateProfile now p now (loaded r) = Ok a"
    and up: "agent_Update a db = Ok db1" "ad_rows db' = ad_rows db1"
    by - (rule FindByID_cases [OF wf, where i = i],
      auto simp: UpdateAgentConfig_def emit_cases split: sum.splits if_splits)
  have "row_wf en r" "ag_id r = i" using wf row_of_in [OF r(1)] by (auto simp: rows_wf_def)
  with r(2) have "ag_id a = i" "row_step en (AgConfig now i cmd) r (update_row a r)"
    by (auto simp: agent_mutators step_defs split: if_splits)
  then show ?thesis by (rule Update_step [OF wf up r(1)])
qed

lemma unbind_step:
  assumes wf: "rows_wf en db"
  shows "table_step en (AgUnbind now w) db (snd (UnbindAgentsFromWorker now w db))"
proof (cases "blank w")
  case True
  then show ?thesis using wf by (simp add: UnbindAgentsFromWorker_def ClearWorkerBindings_def table_step_same)
next
  case False
  define f :: "agent \<Rightarrow> agent" where
    "f = (\<lambda>r. if ag_workerID r = w then r\<lparr>ag_workerID := [], ag_updatedAt := now, ag_version := ag_version r + 1\<rparr> else r)"
  show ?thesis
  proof (rule table_step_all [OF wf, of _ f])
    show "ad_rows (snd (UnbindAgentsFromWorker now w db)) = map f (ad_rows db)"
      using False by (simp add: UnbindAgentsFromWorker_def ClearWorkerBindings_def f_def)
  qed (auto simp: f_def step_defs)
qed

lemma create_step:
  assumes wf: "rows_wf en db" and run: "CreateAgent en now wo cmd db = Ok db'"
  obtains a where "table_step en (AgCreate now wo cmd) db db'" "ag_id a = ae_gen en (ad_minted db)"
    "emit en now ''agent.created'' a [] ((draw_id db)\<lparr>ad_rows := ad_rows db @ [stored_agent a]\<rparr>) = Ok db'"
proof -
  from run obtain inp a where a: "NewAgent (ae_lower en) inp = Ok a" "na_ID inp = ae_gen en (ad_minted db)"
      "ag_id a \<notin> ag_id ` set (ad_rows db)"
    and em: "emit en now ''agent.created'' a [] ((draw_id db)\<lparr>ad_rows := ad_rows db @ [stored_agent a]\<rparr>) = Ok db'"
    by (auto simp: CreateAgent_def agent_Save_def list_ex_id split: sum.splits if_splits)
  have new: "ag_id a = ae_gen en (ad_minted db)" "ag_lifecycle a = LifecycleStopped" "ag_version a = 1"
    "row_wf en (stored_agent a)"
    using a(1,2) by (auto simp: NewAgent_def row_wf_def lifecycle_IsValid_def split: option.splits if_splits)
  have rows: "ad_rows db' = ad_rows db @ [stored_agent a]" using em by (auto simp: emit_cases)
  then have "row_of db' i = (case row_of db i of None \<Rightarrow> if i = ag_id a then Some (stored_agent a) else None
      | Some r \<Rightarrow> Some r)" for i
    by (auto simp: row_of_def find_append_row split: option.splits)
  then have "table_step en (AgCreate now wo cmd) db db'"
    using wf a(3) rows new
    by (auto simp: table_step_def rows_wf_def split: option.splits dest: row_of_in intro!: row_step_refl)
  from this new(1) em show thesis by (rule that)
qed

lemma delete_step:
  assumes wf: "rows_wf en db" and run: "DeleteAgent en i force db = Ok db'"
  shows "table_step en (AgDelete i force) db db' \<and> ad_outbox db' = ad_outbox db \<and> ad_minted db' = ad_minted db"
proof -
  have db': "db' = repo_Delete i db" using run by (auto simp: DeleteAgent_def split: sum.splits if_splits)
  have "distinct (map ag_id (ad_rows db'))"
    using wf by (simp add: db' repo_Delete_def rows_wf_def distinct_map_filter)
  then have "table_step en (AgDelete i force) db db'"
    using wf by (auto simp: table_step_def db' row_of_Delete rows_wf_def split: option.splits
      dest: row_of_in intro!: row_step_refl)
  then show ?thesis by (simp add: db' repo_Delete_def)
qed

lemma report_step:
  assumes wf: "rows_wf en db" and run: "lifecycleFeedback en now allowed w i state msg t db = Ok db'"
  shows "table_step en (AgFeedback now allowed w i state msg t) db db' \<and> ad_outbox db' = ad_outbox db"
proof -
  obtain r where r: "row_of db i = Some r" and w: "ag_workerID r = w" "w \<noteq> []"
    and req: "requireAgentOnWorker en allowed w i db = Ok (loaded r)"
    using run by - (rule FindByID_cases [OF wf, where i = i],
      auto simp: lifecycleFeedback_def requireAgentOnWorker_def split: sum.splits if_splits)
  have i: "ag_id r = i" using row_of_in [OF r] by simp
  have wfr: "row_wf en r" using wf row_of_in [OF r] by (simp add: rows_wf_def)
  define mutate where "mutate = (\<lambda>a. let t = stamp now t; st = ToLower (ae_lower en) (TrimSpace state) in
    if st = ''running'' then Ok (agent_MarkRecovered now t a)
    else if st = ''stopped'' then agent_MarkStopped now t a
    else if st = ''error'' then Ok (agent_MarkError now msg t a) else agent_MarkFailed now msg t a)"
  have "feedbackPersist en i mutate db = Ok db'"
    using run unfolding lifecycleFeedback_def req mutate_def MarkAgentRecovered_def MarkAgentStopped_def
      MarkAgentError_def MarkAgentFailed_def
    by (simp add: Let_def i eta_contract_eq split: if_splits)
  moreover have "ToLower (ae_lower en) (TrimSpace state) \<in> {''running'', ''stopped'', ''error'', ''failed''}"
    using run unfolding lifecycleFeedback_def req by (auto simp: Let_def split: if_splits)
  then have "ag_id a = i \<and> row_step en (AgFeedback now allowed w i state msg t) r (update_row a r)"
    if "mutate (loaded r) = Ok a" for a
    using that wfr i w by (auto simp: mutate_def Let_def agent_mutators step_defs split: if_splits)
  ultimately show ?thesis by (rule feedback_step [OF wf _ r])
qed

lemma agent_exec_step:
  assumes wf: "rows_wf en db" and run: "agent_exec en op db = Ok db'"
  shows "table_step en op db db'"
  using run by (cases op) (auto dest: verb_steps [OF wf] tags_step [OF wf] archive_step [OF wf]
    config_step [OF wf] delete_step [OF wf] report_step [OF wf] intro: unbind_step [OF wf] elim: create_step [OF wf])

lemma row_of_self: "distinct (map ag_id (ad_rows db)) \<Longrightarrow> r \<in> set (ad_rows db) \<Longrightarrow> row_of db (ag_id r) = Some r"
proof -
  have "distinct (map ag_id rs) \<Longrightarrow> r \<in> set rs \<Longrightarrow> List.find (\<lambda>x. ag_id x = ag_id r) rs = Some r" for rs
    by (induction rs) force+
  then show "distinct (map ag_id (ad_rows db)) \<Longrightarrow> r \<in> set (ad_rows db) \<Longrightarrow> row_of db (ag_id r) = Some r"
    by (simp add: row_of_def)
qed

lemma table_step_wf:
  assumes "table_step en op db db'"
  shows "rows_wf en db'"
proof -
  have d: "distinct (map ag_id (ad_rows db'))" using assms by (simp add: table_step_def)
  have "row_wf en r" if "r \<in> set (ad_rows db')" for r
    using assms row_of_self [OF d that]
    by (auto simp: table_step_def row_step_def split: option.splits dest!: spec [of _ "ag_id r"])
  with d show ?thesis by (simp add: rows_wf_def)
qed

lemma agent_exec_wf: "agent_exec en op db = Ok db' \<Longrightarrow> rows_wf en db \<Longrightarrow> rows_wf en db'"
  by (rule table_step_wf) (rule agent_exec_step)

lemma no_agents_wf: "rows_wf en (no_agents w now)"
  by (simp add: rows_wf_def no_agents_def)

end
