(* ===== verification/Agent_Properties.thy ===== *)
theory Agent_Properties
  imports Agent_History
begin

section \<open>What the agents' histories guarantee\<close>

text \<open>
  Which calls can bring an agent up again, what archiving fixes for good, and what the reports
  of a worker can do to an agent that an operator has stopped.
\<close>

subsection \<open>Histories without some calls\<close>

definition barring :: "('op \<Rightarrow> bool) \<Rightarrow> ('op \<Rightarrow> 's \<Rightarrow> 'e + 's) \<Rightarrow> 'e \<Rightarrow> 'op \<Rightarrow> 's \<Rightarrow> 'e + 's" where
  "barring bad exec e op s = (if bad op then Err e else exec op s)"

lemma run_barring: "\<forall>op \<in> set ops. \<not> bad op \<Longrightarrow> run_ops (barring bad exec e) ops s = run_ops exec ops s"
  by (induction ops arbitrary: s) (auto simp: barring_def split: sum.splits)

definition evolves :: "agent_env \<Rightarrow> ('w agent_db \<Rightarrow> 'w agent_db \<Rightarrow> bool) \<Rightarrow> 'w agent_db \<Rightarrow> 'w agent_db \<Rightarrow> bool" where
  "evolves en rel db db' \<longleftrightarrow> (rows_wf en db \<longrightarrow> rows_wf en db' \<and> rel db db')"

definition archived_free :: "'w agent_db \<Rightarrow> bool" where
  "archived_free db \<longleftrightarrow> (\<forall>i a. row_of db i = Some a \<and> ag_lifecycle a = LifecycleArchived \<longrightarrow> ag_workerID a = [])"

definition frees_archived :: "'w agent_db \<Rightarrow> 'w agent_db \<Rightarrow> bool" where
  "frees_archived db db' \<longleftrightarrow> (archived_free db \<longrightarrow> archived_free db')"

lemma table_step_row:
  assumes "table_step en op db db'" "row_of db' i = Some a"
  obtains "row_of db i = None" "ag_lifecycle a = LifecycleStopped" "ag_version a = 1"
  | r where "row_of db i = Some r" "ag_id r = i" "row_step en op r a"
proof (cases "row_of db i")
  case None
  with assms that(1) show ?thesis by (auto simp: table_step_def dest!: spec [of _ i])
next
  case (Some r)
  with assms have "row_step en op r a" by (auto simp: table_step_def dest!: spec [of _ i])
  with Some row_of_in [OF Some] that(2) show ?thesis by blast
qed

lemma table_step_frees:
  assumes "table_step en op db db'"
  shows "frees_archived db db'"
  unfolding frees_archived_def archived_free_def
proof (intro impI allI)
  fix i a
  assume free: "\<forall>i a. row_of db i = Some a \<and> ag_lifecycle a = LifecycleArchived \<longrightarrow> ag_workerID a = []"
    and a: "row_of db' i = Some a \<and> ag_lifecycle a = LifecycleArchived"
  then have "row_of db' i = Some a" by simp
  with assms show "ag_workerID a = []"
    by (rule table_step_row) (use a free in \<open>auto simp: row_step_def\<close>)
qed

lemma evolves_refl: "rel s s \<Longrightarrow> evolves en rel s s"
  by (simp add: evolves_def)

lemma evolves_trans:
  "evolves en rel a b \<Longrightarrow> evolves en rel b c \<Longrightarrow> (rel a b \<Longrightarrow> rel b c \<Longrightarrow> rel a c) \<Longrightarrow> evolves en rel a c"
  by (simp add: evolves_def)

lemma evolves_exec:
  assumes "agent_exec en op s = Ok s'" "table_step en op s s' \<Longrightarrow> rel s s'"
  shows "evolves en rel s s'"
  using agent_exec_wf [OF assms(1)] agent_exec_step [OF _ assms(1)] assms(2) by (auto simp: evolves_def)

interpretation table: history "agent_exec en" "evolves en frees_archived" for en
proof unfold_locales
  show "agent_exec en op s = Ok s' \<Longrightarrow> evolves en frees_archived s s'" for op s s'
    by (erule evolves_exec) (rule table_step_frees)
qed (auto intro!: evolves_refl elim!: evolves_trans simp: frees_archived_def)

lemma agent_history_wf:
  "rows_wf en (run_ops (agent_exec en) ops (no_agents w now)) \<and>
   archived_free (run_ops (agent_exec en) ops (no_agents w now))"
proof -
  have "archived_free (no_agents w now)" by (simp add: archived_free_def no_agents_def row_of_def)
  with table.run_rel [of en "no_agents w now" ops] no_agents_wf [of en w now] show ?thesis
    unfolding evolves_def frees_archived_def by blast
qed

subsection \<open>Asleep until started\<close>

definition dormant_states :: "agent_lifecycle set" where
  "dormant_states = {LifecycleStopped, LifecycleResetting, LifecycleFailed, LifecycleArchived}"

text \<open>The two calls that can lead out of these states: a start, and the report of an error.\<close>

fun wakes :: "agent_env \<Rightarrow> gostring \<Rightarrow> agent_op \<Rightarrow> bool" where
  "wakes en i (AgStart _ j) \<longleftrightarrow> j = i"
| "wakes en i (AgFeedback _ _ _ j state _ _) \<longleftrightarrow> j = i \<and> ToLower (ae_lower en) (TrimSpace state) = ''error''"
| "wakes en i _ \<longleftrightarrow> False"

definition stays_dormant :: "gostring \<Rightarrow> 'w agent_db \<Rightarrow> 'w agent_db \<Rightarrow> bool" where
  "stays_dormant i db db' \<longleftrightarrow>
     ((\<forall>a. row_of db i = Some a \<longrightarrow> ag_lifecycle a \<in> dormant_states) \<longrightarrow>
      (\<forall>a. row_of db' i = Some a \<longrightarrow> ag_lifecycle a \<in> dormant_states))"

lemma moves_dormant:
  "moves en op l l' \<Longrightarrow> target op = Some i \<Longrightarrow> \<not> wakes en i op \<Longrightarrow> l \<in> dormant_states \<Longrightarrow> l' \<in> dormant_states"
  by (cases op) (auto simp: dormant_states_def settled_def)

lemma table_step_dormant:
  assumes "table_step en op db db'" "\<not> wakes en i op"
  shows "stays_dormant i db db'"
  unfolding stays_dormant_def
proof (intro impI allI)
  fix a assume d: "\<forall>a. row_of db i = Some a \<longrightarrow> ag_lifecycle a \<in> dormant_states" and a: "row_of db' i = Some a"
  from assms(1) a show "ag_lifecycle a \<in> dormant_states"
  proof (rule table_step_row)
    fix r assume r: "row_of db i = Some r" "ag_id r = i" "row_step en op r a"
    then have "ag_lifecycle a = ag_lifecycle r \<or> moves en op (ag_lifecycle r) (ag_lifecycle a) \<and> target op = Some i"
      by (auto simp: row_step_def)
    then show ?thesis using moves_dormant [OF _ _ assms(2)] d r(1) by metis
  qed (simp add: dormant_states_def)
qed

lemma stays_dormant_refl: "stays_dormant i db db"
  by (simp add: stays_dormant_def)

lemma stays_dormant_trans: "stays_dormant i a b \<Longrightarrow> stays_dormant i b c \<Longrightarrow> stays_dormant i a c"
  unfolding stays_dormant_def by blast

interpretation asleep: history "barring (wakes en i) (agent_exec en) e" "evolves en (stays_dormant i)" for en i e
proof unfold_locales
  show "barring (wakes en i) (agent_exec en) e op s = Ok s' \<Longrightarrow> evolves en (stays_dormant i) s s'" for op s s'
    by (auto simp: barring_def split: if_splits intro!: evolves_exec dest: table_step_dormant)
qed (auto intro!: evolves_refl elim!: evolves_trans simp: stays_dormant_refl dest: stays_dormant_trans)

text \<open>
  C22: only a start wakes an agent.  Once an agent is stopped, resetting, failed or archived, no
  sequence of configuration edits, stops, resets, archivings, unbindings, deletions and reports
  brings it to running, stopping or error, as long as nobody starts it and no worker reports an
  error for it.
\<close>

theorem agent_needs_start:
  assumes "db = run_ops (agent_exec en) ops (no_agents w now)"
    and "row_of db i = Some a" "ag_lifecycle a \<in> dormant_states"
    and "\<forall>op \<in> set later. \<not> wakes en i op"
    and "row_of (run_ops (agent_exec en) later db) i = Some a'"
  shows "ag_lifecycle a' \<in> dormant_states"
proof -
  have wf: "rows_wf en db" unfolding assms(1) by (rule conjunct1 [OF agent_history_wf])
  have "evolves en (stays_dormant i) db (run_ops (agent_exec en) later db)"
    using asleep.run_rel [of en i db ErrIllegalLifecycle later] unfolding run_barring [OF assms(4)] .
  with wf assms(2,3,5) show ?thesis by (simp add: evolves_def stays_dormant_def)
qed

subsection \<open>Archived for good\<close>

fun deletes :: "gostring \<Rightarrow> agent_op \<Rightarrow> bool" where
  "deletes i (AgDelete j _) \<longleftrightarrow> j = i"
| "deletes i _ \<longleftrightarrow> False"

definition retired :: "agent \<Rightarrow> bool" where
  "retired a \<longleftrightarrow> ag_lifecycle a = LifecycleArchived \<and> ag_workerID a = []"

definition keeps_retired :: "gostring \<Rightarrow> 'w agent_db \<Rightarrow> 'w agent_db \<Rightarrow> bool" where
  "keeps_retired i db db' \<longleftrightarrow> (\<forall>a. row_of db i = Some a \<and> retired a \<longrightarrow>
     (\<exists>a'. row_of db' i = Some a' \<and> retired a' \<and> same_agent a a' \<and> ag_version a \<le> ag_version a'))"

lemma same_agent_trans: "same_agent a b \<Longrightarrow> same_agent b c \<Longrightarrow> same_agent a c"
  by (simp add: same_agent_def)

lemma moves_archived: "moves en op LifecycleArchived l' \<Longrightarrow> spoken_for op a \<Longrightarrow> ag_workerID a \<noteq> []"
  by (cases op) (auto simp: settled_def)

lemma table_step_retired:
  assumes "table_step en op db db'" "\<not> deletes i op"
  shows "keeps_retired i db db'"
  unfolding keeps_retired_def
proof (intro allI impI)
  fix a assume a: "row_of db i = Some a \<and> retired a"
  with assms obtain a' where a': "row_of db' i = Some a'" "row_step en op a a'"
    by (auto simp: table_step_def dest!: spec [of _ i] split: option.splits)
  with a moves_archived [of en op _ a] show "\<exists>a'. row_of db' i = Some a' \<and> retired a' \<and> same_agent a a' \<and> ag_version a \<le> ag_version a'"
    by (auto simp: row_step_def retired_def)
qed

lemma keeps_retired_refl: "keeps_retired i db db"
  by (simp add: keeps_retired_def same_agent_def)

lemma keeps_retired_trans: "keeps_retired i a b \<Longrightarrow> keeps_retired i b c \<Longrightarrow> keeps_retired i a c"
  unfolding keeps_retired_def by (meson order_trans same_agent_trans)

interpretation archived: history "barring (deletes i) (agent_exec en) e" "evolves en (keeps_retired i)" for en i e
proof unfold_locales
  show "barring (deletes i) (agent_exec en) e op s = Ok s' \<Longrightarrow> evolves en (keeps_retired i) s s'" for op s s'
    by (auto simp: barring_def split: if_splits intro!: evolves_exec dest: table_step_retired)
qed (auto intro!: evolves_refl elim!: evolves_trans simp: keeps_retired_refl dest: keeps_retired_trans)

text \<open>
  C23: archiving is final.  An archived agent has no worker, and short of being deleted it
  stays archived without one, with its organization and creator, through every later call: in
  particular no report can reach it, since no worker has it.
\<close>

theorem archived_is_final:
  assumes "db = run_ops (agent_exec en) ops (no_agents w now)"
    and "row_of db i = Some a" "ag_lifecycle a = LifecycleArchived"
    and "\<forall>op \<in> set later. \<not> deletes i op"
  shows "\<exists>a'. row_of (run_ops (agent_exec en) later db) i = Some a' \<and> ag_lifecycle a' = LifecycleArchived \<and>
    ag_workerID a' = [] \<and> same_agent a a' \<and> ag_version a \<le> ag_version a'"
proof -
  have wf: "rows_wf en db" "archived_free db" using agent_history_wf [of en ops w now] by (simp_all add: assms(1))
  then have "retired a" using assms(2,3) by (simp add: retired_def archived_free_def)
  moreover have "evolves en (keeps_retired i) db (run_ops (agent_exec en) later db)"
    using archived.run_rel [of en i db ErrIllegalLifecycle later] unfolding run_barring [OF assms(4)] .
  ultimately show ?thesis using wf(1) assms(2) by (auto simp: evolves_def keeps_retired_def retired_def)
qed

subsection \<open>A stopped agent that its worker revives\<close>

lemma report_runs:
  assumes wf: "rows_wf en db" and r: "row_of db i = Some a" and w: "ag_workerID a = w" "w \<noteq> []" and i: "\<not> blank i"
  shows "TrimSpace state = ''error'' \<Longrightarrow> lifecycleFeedback en now True w i state msg t db =
      Ok (map_row i (update_row (agent_MarkError now msg (stamp now t) (loaded a))) db)"
    and "TrimSpace state = ''running'' \<Longrightarrow> lifecycleFeedback en now True w i state msg t db =
      Ok (map_row i (update_row (agent_MarkRecovered now (stamp now t) (loaded a))) db)"
proof -
  have found: "agent_FindByID en i db = Ok (loaded a)" and ai: "ag_id a = i" "list_ex (\<lambda>r. ag_id r = i) (ad_rows db)"
    using row_of_in [OF r] r by (auto intro: FindByID_cases [OF wf, of i] simp: list_ex_iff)
  have low: "ToLower (ae_lower en) ''error'' = ''error''" "ToLower (ae_lower en) ''running'' = ''running''"
    by (simp_all add: ToLower_def is_ascii_def ascii_lower_def byte_def)
  have "ag_id (agent_MarkRecovered now t (loaded a)) = i" for t using ai by (simp add: agent_MarkRecovered_def)
  with ai found w i show
    "TrimSpace state = ''error'' \<Longrightarrow> lifecycleFeedback en now True w i state msg t db =
      Ok (map_row i (update_row (agent_MarkError now msg (stamp now t) (loaded a))) db)"
    "TrimSpace state = ''running'' \<Longrightarrow> lifecycleFeedback en now True w i state msg t db =
      Ok (map_row i (update_row (agent_MarkRecovered now (stamp now t) (loaded a))) db)"
    by (simp_all add: lifecycleFeedback_def requireAgentOnWorker_def Let_def low MarkAgentError_def
      MarkAgentRecovered_def feedbackPersist_def agent_Update_def agent_MarkError_def)
qed

text \<open>
  C25: a worker can revive an agent that was stopped.  The report of an error has no
  precondition, so whatever state the agent is in, \<open>error\<close> followed by \<open>running\<close> leaves it
  running: an operator's stop is undone, and so is the circuit breaker.  No event is sent.
\<close>

theorem error_report_revives:
  assumes "db = run_ops (agent_exec en) ops (no_agents w0 now0)"
    and "row_of db i = Some a" "ag_workerID a = w" "w \<noteq> []" "\<not> blank i"
    and "db' = run_ops (agent_exec en)
      [AgFeedback now True w i ''error'' msg t, AgFeedback now True w i ''running'' [] t] db"
  shows "(\<exists>a'. row_of db' i = Some a' \<and> ag_lifecycle a' = LifecycleRunning \<and> ag_version a' = ag_version a + 2) \<and>
    ad_outbox db' = ad_outbox db"
proof -
  have trim: "TrimSpace ''error'' = ''error''" "TrimSpace ''running'' = ''running''" by code_simp+
  have wf: "rows_wf en db" unfolding assms(1) by (rule conjunct1 [OF agent_history_wf])
  define f1 where "f1 = update_row (agent_MarkError now msg (stamp now t) (loaded a))"
  define db1 where "db1 = map_row i f1 db"
  have 1: "agent_exec en (AgFeedback now True w i ''error'' msg t) db = Ok db1"
    using report_runs(1) [OF wf assms(2-5) trim(1)] by (simp add: db1_def f1_def)
  have r1: "row_of db1 i = Some (f1 a)" using assms(2) by (simp add: db1_def row_of_map_row f1_def)
  define f2 where "f2 = update_row (agent_MarkRecovered now (stamp now t) (loaded (f1 a)))"
  have 2: "agent_exec en (AgFeedback now True w i ''running'' [] t) db1 = Ok (map_row i f2 db1)"
    using report_runs(2) [OF agent_exec_wf [OF 1 wf] r1 _ assms(4,5) trim(2)] assms(3)
    by (simp add: f1_def f2_def)
  have "row_of (map_row i f2 db1) i = Some (f2 (f1 a))" using r1 by (simp add: row_of_map_row f2_def)
  moreover have "ag_lifecycle (f2 (f1 a)) = LifecycleRunning" "ag_version (f2 (f1 a)) = ag_version a + 2"
    by (simp_all add: f1_def f2_def agent_MarkError_def agent_MarkRecovered_def)
  moreover have "ad_outbox (map_row i f2 db1) = ad_outbox db" by (simp add: db1_def map_row_def)
  ultimately show ?thesis using 1 2 assms(6) by simp
qed

subsection \<open>Witnesses\<close>

definition sample_env :: agent_env where
  "sample_env = \<lparr>ae_lower = id, ae_gen = (\<lambda>k. [char_of (65 + k)]), ae_payload = (\<lambda>_. ''{}''),
     ae_refs = (\<lambda>_ _ _. ''{}'')\<rparr>"

definition sample_command :: create_agent_command where
  "sample_command = \<lparr>cr_OrganizationID = ''o'', cr_Name = ''dev'', cr_Description = [], cr_Model = ''m'',
     cr_CLI = ''codex'', cr_Reasoning = [], cr_Mode = [], cr_Provider = [], cr_OrchestratorModel = [],
     cr_DefaultExecutorModel = [], cr_MaxConcurrentTasks = 2, cr_AllowedModels = [''m'', ''n'', ''m''],
     cr_AllowedExecutors = [], cr_JudgeEnabled = False, cr_SandboxEnabled = False, cr_SandboxProvider = [],
     cr_AutoAssignable = None, cr_IncludeDescription = None, cr_EnvVars = [], cr_WorkerID = ''w'',
     cr_CreatedBy = ''user:u'', cr_IdentityMemberID = []\<rparr>"

definition stopping_ops :: "agent_op list" where
  "stopping_ops = [AgCreate 5 (Some ''o'') sample_command, AgStart 6 ''A'', AgStop 7 ''A'',
     AgFeedback 8 True ''w'' ''A'' ''stopped'' [] 8]"

abbreviation state_of :: "'w agent_db \<Rightarrow> gostring \<Rightarrow> (agent_lifecycle \<times> gostring) option" where
  "state_of db i \<equiv> map_option (\<lambda>a. (ag_lifecycle a, ag_workerID a)) (row_of db i)"

lemma sample_stopped:
  "state_of (run_ops (agent_exec sample_env) stopping_ops (no_agents () 1)) ''A'' = Some (LifecycleStopped, ''w'')"
  by code_simp

lemma sample_archived:
  "state_of (run_ops (agent_exec sample_env) (stopping_ops @ [AgArchive 9 ''A'']) (no_agents () 1)) ''A'' =
     Some (LifecycleArchived, [])"
  by code_simp

theorem agent_needs_start_witness:
  "\<exists>a. row_of (run_ops (agent_exec sample_env) [AgReset 9 ''A'' ResetAll True, AgRestart 10 ''A'',
       AgFeedback 11 True ''w'' ''A'' ''running'' [] 11]
     (run_ops (agent_exec sample_env) stopping_ops (no_agents () 1))) ''A'' = Some a \<and>
     ag_lifecycle a \<in> dormant_states"
proof -
  let ?later = "[AgReset 9 ''A'' ResetAll True, AgRestart 10 ''A'', AgFeedback 11 True ''w'' ''A'' ''running'' [] 11]"
  let ?db = "run_ops (agent_exec sample_env) stopping_ops (no_agents () 1)"
  obtain a where a: "row_of ?db ''A'' = Some a" "ag_lifecycle a \<in> dormant_states"
    using sample_stopped by (auto simp: dormant_states_def)
  have quiet: "\<forall>op \<in> set ?later. \<not> wakes sample_env ''A'' op"
    unfolding list.set by (simp del: One_nat_def) code_simp
  have "row_of (run_ops (agent_exec sample_env) ?later ?db) ''A'' \<noteq> None" by code_simp
  then obtain a' where a': "row_of (run_ops (agent_exec sample_env) ?later ?db) ''A'' = Some a'" by blast
  with agent_needs_start [OF refl a quiet a'] show ?thesis by blast
qed

theorem archived_is_final_witness:
  "state_of (run_ops (agent_exec sample_env) [AgStart 10 ''A'', AgFeedback 11 True ''w'' ''A'' ''error'' [] 11]
     (run_ops (agent_exec sample_env) (stopping_ops @ [AgArchive 9 ''A'']) (no_agents () 1))) ''A'' =
     Some (LifecycleArchived, [])"
proof -
  let ?later = "[AgStart 10 ''A'', AgFeedback 11 True ''w'' ''A'' ''error'' [] 11]"
  let ?db = "run_ops (agent_exec sample_env) (stopping_ops @ [AgArchive 9 ''A'']) (no_agents () 1)"
  obtain a where a: "row_of ?db ''A'' = Some a" "ag_lifecycle a = LifecycleArchived"
    using sample_archived by auto
  have "\<forall>op \<in> set ?later. \<not> deletes ''A'' op" by simp
  from archived_is_final [OF refl a this] show ?thesis by auto
qed

theorem error_report_revives_witness:
  "map_option fst (state_of (run_ops (agent_exec sample_env)
     [AgFeedback 9 True ''w'' ''A'' ''error'' ''boom'' 9, AgFeedback 9 True ''w'' ''A'' ''running'' [] 9]
     (run_ops (agent_exec sample_env) stopping_ops (no_agents () 1))) ''A'') = Some LifecycleRunning"
proof -
  let ?db = "run_ops (agent_exec sample_env) stopping_ops (no_agents () 1)"
  obtain a where a: "row_of ?db ''A'' = Some a" "ag_workerID a = ''w''"
    using sample_stopped by auto
  have "\<not> blank ''A''" by code_simp
  from error_report_revives [OF refl a _ this refl, of 9 "''boom''" 9] show ?thesis by auto
qed

end
