(* ===== verification/Agent_Control.thy ===== *)
theory Agent_Control
  imports Agent_Properties Control_Log
begin

section \<open>The agent control projector (internal/environment/service/agent_control_projector.go)\<close>

text \<open>
  The projector of the outbox that turns the events of the agent service into commands of the
  worker's control log.  Its two JSON types are \<open>lifecycle_evt\<close> and \<open>reconcile_command\<close>, read
  and written by the parameters \<open>ke_decode\<close> and \<open>ke_encode\<close>; the list of executors passes as
  raw text.  The call runs inside its own transaction, so no other client commits between the
  reads and the insert of \<open>AppendCommand\<close>.
\<close>

record lifecycle_evt =
  le_AgentID :: gostring
  le_WorkerID :: gostring
  le_Lifecycle :: gostring
  le_Version :: int
  le_ResetScope :: gostring
  le_Model :: gostring
  le_DisplayName :: gostring
  le_CLI :: gostring
  le_Reasoning :: gostring
  le_Mode :: gostring
  le_Provider :: gostring
  le_OrchestratorModel :: gostring
  le_DefaultExecutorModel :: gostring
  le_MaxConcurrentTasks :: int
  le_AllowedModels :: "gostring list"
  le_AllowedExecutors :: gostring
  le_JudgeEnabled :: bool
  le_ExecutorGitWorktree :: bool
  le_SandboxEnabled :: bool
  le_SandboxProvider :: gostring
  le_EnvVars :: "(gostring \<times> gostring) list"
  le_PromptDescription :: gostring

record reconcile_command =
  rc_AgentID :: gostring
  rc_DesiredLifecycle :: gostring
  rc_Model :: gostring
  rc_DisplayName :: gostring
  rc_CLI :: gostring
  rc_Reasoning :: gostring
  rc_Mode :: gostring
  rc_Provider :: gostring
  rc_OrchestratorModel :: gostring
  rc_DefaultExecutorModel :: gostring
  rc_MaxConcurrentTasks :: int
  rc_AllowedModels :: "gostring list"
  rc_AllowedExecutors :: gostring
  rc_JudgeEnabled :: bool
  rc_ExecutorGitWorktree :: bool
  rc_SandboxEnabled :: bool
  rc_SandboxProvider :: gostring
  rc_EnvVars :: "(gostring \<times> gostring) list"
  rc_PromptDescription :: gostring
  rc_Version :: int
  rc_ResetScope :: gostring

record control_env =
  ke_decode :: "gostring \<Rightarrow> lifecycle_evt option"
  ke_encode :: "reconcile_command \<Rightarrow> gostring"
  ke_ids :: json_ids
  ke_key_first :: bool
  ke_gen :: "nat \<Rightarrow> gostring"
  ke_now :: time

record control_world =
  cw_db :: control_db
  cw_minted :: nat

definition reconcile_payload :: "lifecycle_evt \<Rightarrow> reconcile_command" where
  "reconcile_payload pl =
     \<lparr>rc_AgentID = le_AgentID pl, rc_DesiredLifecycle = le_Lifecycle pl, rc_Model = le_Model pl,
      rc_DisplayName = le_DisplayName pl, rc_CLI = le_CLI pl, rc_Reasoning = le_Reasoning pl,
      rc_Mode = le_Mode pl, rc_Provider = le_Provider pl, rc_OrchestratorModel = le_OrchestratorModel pl,
      rc_DefaultExecutorModel = le_DefaultExecutorModel pl, rc_MaxConcurrentTasks = le_MaxConcurrentTasks pl,
      rc_AllowedModels = le_AllowedModels pl, rc_AllowedExecutors = le_AllowedExecutors pl,
      rc_JudgeEnabled = le_JudgeEnabled pl, rc_ExecutorGitWorktree = le_ExecutorGitWorktree pl,
      rc_SandboxEnabled = le_SandboxEnabled pl, rc_SandboxProvider = le_SandboxProvider pl,
      rc_EnvVars = le_EnvVars pl, rc_PromptDescription = le_PromptDescription pl,
      rc_Version = le_Version pl, rc_ResetScope = le_ResetScope pl\<rparr>"

definition reconcile_key :: "lifecycle_evt \<Rightarrow> gostring" where
  "reconcile_key pl = ''agent.lifecycle:'' @ le_AgentID pl @ '':'' @ Itoa (le_Version pl)"

definition reconcile_input :: "control_env \<Rightarrow> lifecycle_evt \<Rightarrow> append_input" where
  "reconcile_input ke pl = \<lparr>ai_WorkerID = le_WorkerID pl, ai_CommandType = ''agent.reconcile'',
     ai_Payload = ke_encode ke (reconcile_payload pl), ai_IdempotencyKey = reconcile_key pl,
     ai_AgentID = [], ai_TaskID = [], ai_Status = []\<rparr>"

definition control_Project :: "control_env \<Rightarrow> outbox_event \<Rightarrow> control_world \<Rightarrow> bool \<times> control_world" where
  "control_Project ke e w =
     (if ob_EventType e \<noteq> ''agent.lifecycle_changed'' then (True, w)
      else case ke_decode ke (ob_Payload e) of
        None \<Rightarrow> (False, w)
      | Some pl \<Rightarrow>
          (case AppendCommand (ke_ids ke) (ke_key_first ke) id (ke_gen ke (cw_minted w)) (ke_now ke)
              (reconcile_input ke pl) (cw_db w) of
             (Err _, _) \<Rightarrow> (False, w)
           | (Ok _, db) \<Rightarrow> (True, w\<lparr>cw_db := db, cw_minted := cw_minted w + 1\<rparr>)))"

text \<open>
  The code tests the ledger again inside its transaction; the relay has just done so.  For an
  event of another type the ledger row is the relay's own.
\<close>

definition agent_control :: "control_env \<Rightarrow> control_world projector" where
  "agent_control ke = \<lparr>pj_Name = ''env-agent-control'', pj_Project = control_Project ke, pj_in_tx = True\<rparr>"

subsection \<open>Keys\<close>

lemma trim_with_chunks: "trim_with ps s = [] \<Longrightarrow> \<exists>qs. set qs \<subseteq> set ps \<and> s = concat qs"
proof (induction ps s rule: trim_with.induct)
  case (1 ps s)
  show ?case
  proof (cases "strip_one ps s")
    case None
    with 1(2) have "s = []" by (simp add: trim_with_fixed)
    then show ?thesis by (intro exI [of _ "[]"]) simp
  next
    case (Some r)
    then obtain p where p: "p \<in> set ps" "s = p @ r"
      by (auto simp: strip_one_def find_Some_iff prefix_def split: option.splits) (metis nth_mem)
    from Some 1(2) have "trim_with ps r = []" by (subst (asm) trim_with.simps) simp
    with 1(1) [OF Some] obtain qs where "set qs \<subseteq> set ps" "r = concat qs" by blast
    with p show ?thesis by (intro exI [of _ "p # qs"]) simp
  qed
qed

lemma image_rev_rev: "rev ` rev ` A = A"
  by (simp add: image_image)

lemma blank_starts_with_space:
  assumes "blank s" "s \<noteq> []"
  shows "strip_one space_encodings s \<noteq> None"
proof
  assume none: "strip_one space_encodings s = None"
  then have "TrimLeft s = s" by (simp add: TrimLeft_def trim_with_fixed)
  with assms(1) have t: "trim_with (map rev space_encodings) (rev s) = []"
    by (simp add: blank_def TrimSpace_def TrimRight_def)
  obtain qs where qs: "set qs \<subseteq> rev ` set space_encodings" "rev s = concat qs"
    using trim_with_chunks [OF t] by (metis set_map)
  have "s = rev (concat qs)" using qs(2) by (metis rev_rev_ident)
  then have s: "s = concat (map rev (rev qs))" by (simp add: rev_concat)
  have sub: "set (map rev (rev qs)) \<subseteq> set space_encodings"
    using qs(1) by (simp only: set_map set_rev) (metis image_mono image_rev_rev)
  have "\<exists>p \<in> set space_encodings. p \<noteq> [] \<and> prefix p (concat ps)"
    if "set ps \<subseteq> set space_encodings" "concat ps \<noteq> []" for ps
    using that
  proof (induction ps)
    case (Cons p ps)
    then show ?case by (cases "p = []") auto
  qed simp
  from this [OF sub] s assms(2) none show False by (auto simp: strip_one_None)
qed

lemma reconcile_key_not_blank: "\<not> blank (reconcile_key pl)"
proof
  assume "blank (reconcile_key pl)"
  then have "strip_one space_encodings (reconcile_key pl) \<noteq> None"
    by (rule blank_starts_with_space) (simp add: reconcile_key_def)
  then show False by (auto simp: strip_one_None reconcile_key_def space_encodings_def)
qed

lemma reconcile_key_inj:
  assumes "reconcile_key p = reconcile_key q"
  shows "le_AgentID p = le_AgentID q \<and> le_Version p = le_Version q"
proof -
  have "rev (Itoa (le_Version p)) @ CHR '':'' # rev (le_AgentID p) = rev (Itoa (le_Version q)) @ CHR '':'' # rev (le_AgentID q)"
    using arg_cong [OF assms, of rev] by (simp add: reconcile_key_def)
  then have "rev (Itoa (le_Version p)) = rev (Itoa (le_Version q)) \<and> rev (le_AgentID p) = rev (le_AgentID q)"
    by (rule split_first [rotated 2]) (simp_all add: Itoa_no)
  then show ?thesis using Itoa_inj by simp
qed

subsection \<open>An event without a worker\<close>

lemma blank_worker_refused:
  assumes "blank (ai_WorkerID inp)"
  shows "\<exists>e db'. AppendCommand ids kf others i now inp db = (Err e, db')"
proof -
  have scan: "scanEvent ids now r = Err ErrWorkerNotFound" if "ce_workerID r = ai_WorkerID inp" for r
    using that assms by (simp add: scanEvent_def NewWorkerControlEvent_def split: prod.split)
  have new: "NewWorkerControlEvent now (new_command i now n inp) = Err ErrWorkerNotFound" for n
    using assms by (simp add: NewWorkerControlEvent_def new_command_def)
  show ?thesis
  proof (cases "List.find (\<lambda>r. ce_workerID r = ai_WorkerID inp \<and> ce_idempotencyKey r = ai_IdempotencyKey inp) (cd_rows db)")
    case None
    with new show ?thesis by (simp add: AppendCommand_def FindByIdempotencyKey_def read_one_def)
  next
    case (Some r)
    then have "ce_workerID r = ai_WorkerID inp" by (auto simp: find_Some_iff)
    with Some scan show ?thesis by (simp add: AppendCommand_def FindByIdempotencyKey_def read_one_def)
  qed
qed

lemma control_refuses:
  assumes "ob_EventType e = ''agent.lifecycle_changed''" "ke_decode ke (ob_Payload e) = Some pl" "blank (le_WorkerID pl)"
  shows "\<not> fst (control_Project ke e w)"
  using assms blank_worker_refused [of "reconcile_input ke pl" "ke_ids ke" "ke_key_first ke" id
      "ke_gen ke (cw_minted w)" "ke_now ke" "cw_db w"]
  by (auto simp: control_Project_def reconcile_input_def split: prod.splits sum.splits)

text \<open>
  What the two sides owe each other: the projector reads the four fields that drive it as the
  service wrote them.
\<close>

definition reads_back :: "agent_env \<Rightarrow> control_env \<Rightarrow> bool" where
  "reads_back en ke \<longleftrightarrow> (\<forall>p. ae_payload en p \<noteq> [] \<and> (\<exists>q. ke_decode ke (ae_payload en p) = Some q \<and>
     le_AgentID q = pl_AgentID p \<and> le_WorkerID q = pl_WorkerID p \<and> le_Lifecycle q = pl_Lifecycle p \<and>
     le_Version q = pl_Version p))"

lemma decode_appended:
  assumes "reads_back en ke"
  obtains q where "ke_decode ke (ob_Payload (appended en now ty a sc k)) = Some q"
    "le_AgentID q = ag_id a" "le_WorkerID q = ag_workerID a" "le_Version q = ag_version a"
    "le_Lifecycle q = lifecycle_text (ag_lifecycle a)"
  using assms [unfolded reads_back_def, rule_format, of "event_payload a sc"] that
  by (auto simp: appended_def or_empty_object_def event_payload_def Let_def)

text \<open>An agent that runs without a worker, in a database whose id supply is ahead of the outbox.\<close>

definition orphan :: "agent_env \<Rightarrow> gostring \<Rightarrow> 'w agent_db \<Rightarrow> bool" where
  "orphan en i db \<longleftrightarrow> rows_wf en db \<and>
     (\<exists>r. row_of db i = Some r \<and> ag_lifecycle r = LifecycleRunning \<and> ag_workerID r = []) \<and>
     (\<forall>e \<in> set (rs_events (ad_outbox db)). \<forall>k \<ge> ad_minted db. ob_ID e < ae_gen en k)"

lemma restart_orphan:
  assumes o: "orphan en i db" and gen: "strict_mono (ae_gen en)"
  obtains db' now' a k where "RestartAgent en now i db = Ok db'" "orphan en i db'"
    "ad_outbox db' = (ad_outbox db)\<lparr>rs_events := rs_events (ad_outbox db) @
       [appended en now ''agent.lifecycle_changed'' a [] k]\<rparr>"
    "ag_workerID a = []" "ad_minted db \<le> k" "k < ad_minted db'"
proof -
  obtain r where wf: "rows_wf en db" and r: "row_of db i = Some r" "ag_lifecycle r = LifecycleRunning" "ag_workerID r = []"
    and ahead: "\<And>e k. e \<in> set (rs_events (ad_outbox db)) \<Longrightarrow> ad_minted db \<le> k \<Longrightarrow> ob_ID e < ae_gen en k"
    using o by (auto simp: orphan_def)
  define a where "a = agent_touchLifecycle now now (loaded r)"
  define db1 where "db1 = map_row i (update_row a) db"
  define db2 where "db2 = recordLifecycleActivity en now a ''restarted'' [] db1"
  define k where "k = ad_minted db2"
  define db' where "db' = draw_id (db2\<lparr>ad_outbox := (ad_outbox db2)\<lparr>rs_events := rs_events (ad_outbox db2) @
    [appended en now ''agent.lifecycle_changed'' a [] k]\<rparr>\<rparr>)"
  have ai: "ag_id a = i" "list_ex (\<lambda>r. ag_id r = i) (ad_rows db)"
    using row_of_in [OF r(1)] by (auto simp: a_def list_ex_iff)
  have found: "agent_FindByID en i db = Ok (loaded r)"
    using r(1) by (auto intro: FindByID_cases [OF wf, of i])
  have ob: "ad_outbox db2 = ad_outbox db" "ad_minted db \<le> k"
    using record_keeps(3) [of db1 en now a "''restarted''" "[]"]
    by (simp_all add: db2_def db1_def k_def map_row_def)
  have fresh: "ae_gen en k \<notin> ob_ID ` set (rs_events (ad_outbox db2))"
    using ahead ob by (metis imageE order_less_irrefl)
  have run: "RestartAgent en now i db = Ok db'"
    using found r(2) ai fresh
    by (simp add: RestartAgent_def lifecycleOp_def agent_Restart_def a_def [symmetric] agent_Update_def
      db1_def [symmetric] db2_def [symmetric] emit_cases db'_def k_def)
  have wf': "rows_wf en db'" using agent_exec_wf [of en "AgRestart now i" db db'] run wf by simp
  have row: "row_of db' i = Some (update_row a r)"
    using r(1) by (simp add: db'_def db2_def db1_def row_of_map_row)
  have out: "ad_outbox db' = (ad_outbox db)\<lparr>rs_events := rs_events (ad_outbox db) @
       [appended en now ''agent.lifecycle_changed'' a [] k]\<rparr>" "ad_minted db' = k + 1"
    by (simp_all add: db'_def draw_id_def ob k_def)
  have "ob_ID e < ae_gen en j" if "e \<in> set (rs_events (ad_outbox db'))" "ad_minted db' \<le> j" for e j
    using that out ahead ob(2) strict_monoD [OF gen, of k j] by (auto simp: appended_def)
  with wf' row r have "orphan en i db'" by (simp add: orphan_def a_def)
  from that [OF run this out(1)] r(3) ob(2) out(2) show thesis by (simp add: a_def)
qed

definition orphan_event :: "control_env \<Rightarrow> outbox_event \<Rightarrow> bool" where
  "orphan_event ke e \<longleftrightarrow> ob_ProcessedAt e = None \<and> ob_EventType e = ''agent.lifecycle_changed'' \<and>
     (\<exists>q. ke_decode ke (ob_Payload e) = Some q \<and> le_WorkerID q = [])"

lemma restarts_pile_up:
  assumes rb: "reads_back en ke" and gen: "strict_mono (ae_gen en)" and o: "orphan en i db"
  shows "\<exists>evs. let db' = run_ops (agent_exec en) (replicate n (AgRestart now i)) db in
    orphan en i db' \<and> ad_minted db \<le> ad_minted db' \<and> ad_outbox db' = (ad_outbox db)\<lparr>rs_events := rs_events (ad_outbox db) @ evs\<rparr> \<and>
    length evs = n \<and> list_all (orphan_event ke) evs \<and> sorted_wrt (<) (map ob_ID evs) \<and>
    (\<forall>e \<in> set evs. \<exists>k. ad_minted db \<le> k \<and> k < ad_minted db' \<and> ob_ID e = ae_gen en k)"
  using o
proof (induction n arbitrary: db)
  case 0
  then show ?case by (intro exI [of _ "[]"]) (simp add: Let_def)
next
  case (Suc n)
  obtain db1 a k where run: "RestartAgent en now i db = Ok db1" and o1: "orphan en i db1"
    and out: "ad_outbox db1 = (ad_outbox db)\<lparr>rs_events := rs_events (ad_outbox db) @
       [appended en now ''agent.lifecycle_changed'' a [] k]\<rparr>" (is "_ = _\<lparr>rs_events := _ @ [?e]\<rparr>")
    and a: "ag_workerID a = []" and k: "ad_minted db \<le> k" "k < ad_minted db1"
    using restart_orphan [OF Suc.prems gen] by blast
  define db' where "db' = run_ops (agent_exec en) (replicate n (AgRestart now i)) db1"
  obtain evs where evs: "orphan en i db'" "ad_minted db1 \<le> ad_minted db'" "ad_outbox db' = (ad_outbox db1)\<lparr>rs_events := rs_events (ad_outbox db1) @ evs\<rparr>"
    "length evs = n" "list_all (orphan_event ke) evs" "sorted_wrt (<) (map ob_ID evs)"
    "\<forall>e \<in> set evs. \<exists>k. ad_minted db1 \<le> k \<and> k < ad_minted db' \<and> ob_ID e = ae_gen en k"
    using Suc.IH [OF o1] by (auto simp: Let_def db'_def)
  have final: "run_ops (agent_exec en) (replicate (Suc n) (AgRestart now i)) db = db'"
    using run by (simp add: db'_def)
  have "orphan_event ke ?e"
    using a by (auto intro: decode_appended [OF rb] simp: orphan_event_def appended_def)
      (metis decode_appended [OF rb, of now "''agent.lifecycle_changed''" a "[]" k] appended_def outbox_event.select_convs(4))
  moreover have "ob_ID ?e < ob_ID e" if e: "e \<in> set evs" for e
  proof -
    obtain m where "ad_minted db1 \<le> m" "ob_ID e = ae_gen en m" using evs(7) e by blast
    with k(2) show ?thesis by (simp add: appended_def strict_monoD [OF gen])
  qed
  moreover have "\<exists>m. ad_minted db \<le> m \<and> m < ad_minted db' \<and> ob_ID e = ae_gen en m" if "e \<in> set (?e # evs)" for e
  proof (cases "e = ?e")
    case True
    with k evs(2) show ?thesis by (intro exI [of _ k]) (simp add: appended_def)
  next
    case False
    with that obtain m where "ad_minted db1 \<le> m" "m < ad_minted db'" "ob_ID e = ae_gen en m" using evs(7) by auto
    with k show ?thesis by (intro exI [of _ m]) simp
  qed
  ultimately show ?case
    unfolding final Let_def using evs(1-6) out k
    by (intro exI [of _ "?e # evs"]) simp
qed

lemma sort_key_prefix:
  assumes "sorted_wrt (<) (map f xs)" "\<forall>x \<in> set xs. \<forall>y \<in> set ys. f x \<le> f y"
  shows "sort_key f (xs @ ys) = xs @ sort_key f ys"
  using assms
proof (induction xs)
  case (Cons x xs)
  then have "sort_key f (xs @ ys) = xs @ sort_key f ys" by simp
  moreover have "\<forall>y \<in> set (xs @ sort_key f ys). f x \<le> f y" using Cons.prems by (auto intro: less_imp_le)
  ultimately show ?case by (simp add: insort_is_Cons)
qed simp

text \<open>The relay's database holds the control log, and one of its projectors is agent control.\<close>

definition runs_control :: "control_env \<Rightarrow> ('w \<Rightarrow> control_world) \<Rightarrow> 'w projector \<Rightarrow> bool" where
  "runs_control ke view p \<longleftrightarrow> pj_Name p = pj_Name (agent_control ke) \<and>
     (\<forall>e w. fst (pj_Project p e w) = fst (pj_Project (agent_control ke) e (view w)))"

lemma orphan_event_stuck:
  assumes "runs_control ke view p" "p \<in> set ps" "orphan_event ke e" "(pj_Name p, ob_ID e) \<notin> set (rs_applied s)"
  shows "stuck ps s e"
proof -
  have "\<not> fst (pj_Project p e w)" for w
    using assms(1,3) control_refuses [of e ke _ "view w"]
    by (auto simp: runs_control_def agent_control_def orphan_event_def)
  with assms(2,4) show ?thesis by (auto simp: stuck_def)
qed

text \<open>
  C24: restarting an agent that lost its worker stops all delivery.  Removing a worker by force
  leaves its agents running without one, and a restart of such an agent succeeds and emits an
  event that no control log can take.  As many restarts as the relay's batch holds, in an
  otherwise drained outbox, and no event of any context is delivered any more, whatever is
  appended later and however often the pump runs.
\<close>

theorem orphan_restarts_starve:
  assumes "reads_back en ke" "strict_mono (ae_gen en)" "inj_on pj_Name (set ps)"
    and "p \<in> set ps" "runs_control ke view p"
    and "rows_wf en db" "row_of db i = Some r" "ag_lifecycle r = LifecycleRunning" "ag_workerID r = w" "\<not> blank w"
    and "\<forall>e \<in> set (rs_events (ad_outbox db)). ob_IsProcessed e \<and> (\<forall>k \<ge> ad_minted db. ob_ID e < ae_gen en k)"
    and "distinct (map ob_ID (rs_events (ad_outbox db)))"
    and "\<forall>k \<ge> ad_minted db. (pj_Name p, ae_gen en k) \<notin> set (rs_applied (ad_outbox db))"
    and "db' = run_ops (agent_exec en) (AgUnbind now w # replicate (batch_of b) (AgRestart now i)) db"
    and "\<forall>e \<in> set later. \<forall>k < ad_minted db'. ae_gen en k < ob_ID e"
    and "s = (ad_outbox db')\<lparr>rs_events := rs_events (ad_outbox db') @ later\<rparr>" "distinct (map ob_ID (rs_events s))"
  shows "rs_events (pump_drain ctx io ps b s) = rs_events s"
proof -
  define db1 where "db1 = snd (UnbindAgentsFromWorker now w db)"
  have keep: "ad_outbox db1 = ad_outbox db" "ad_minted db1 = ad_minted db"
    using assms(10) by (simp_all add: db1_def UnbindAgentsFromWorker_def ClearWorkerBindings_def)
  have "row_of db1 i = Some (r\<lparr>ag_workerID := [], ag_updatedAt := now, ag_version := ag_version r + 1\<rparr>)"
    using assms(7,9,10) unfolding db1_def UnbindAgentsFromWorker_def ClearWorkerBindings_def row_of_def
    by (simp add: find_map_same)
  moreover have "rows_wf en db1" using table_step_wf [OF unbind_step [OF assms(6)]] by (simp add: db1_def)
  ultimately have o: "orphan en i db1" using assms(8,11) keep by (simp add: orphan_def)
  have db': "db' = run_ops (agent_exec en) (replicate (batch_of b) (AgRestart now i)) db1"
    by (simp add: assms(14) db1_def)
  obtain evs where evs: "ad_outbox db' = (ad_outbox db)\<lparr>rs_events := rs_events (ad_outbox db) @ evs\<rparr>"
    "length evs = batch_of b" "list_all (orphan_event ke) evs" "sorted_wrt (<) (map ob_ID evs)"
    "\<forall>e \<in> set evs. \<exists>k. ad_minted db \<le> k \<and> k < ad_minted db' \<and> ob_ID e = ae_gen en k"
    using restarts_pile_up [OF assms(1,2) o, of "batch_of b" now] unfolding db' [symmetric] keep Let_def by blast
  have "unprocessed s = evs @ sort_key ob_ID (filter (\<lambda>e. \<not> ob_IsProcessed e) later)"
  proof -
    have "filter (\<lambda>e. \<not> ob_IsProcessed e) (rs_events (ad_outbox db)) = []"
      using assms(11) by (simp add: filter_empty_conv)
    moreover have "filter (\<lambda>e. \<not> ob_IsProcessed e) evs = evs"
      using evs(3) by (auto simp: list_all_iff orphan_event_def ob_IsProcessed_def intro!: filter_True)
    moreover have "\<forall>x \<in> set evs. \<forall>y \<in> set (filter (\<lambda>e. \<not> ob_IsProcessed e) later). ob_ID x \<le> ob_ID y"
      using evs(5) assms(15) by (fastforce intro: less_imp_le)
    ultimately show ?thesis using sort_key_prefix [OF evs(4)] by (simp add: unprocessed_def assms(16) evs(1))
  qed
  then have fetched: "FetchUnprocessed (batch_of b) s = evs" by (simp add: FetchUnprocessed_def evs(2))
  have "stuck ps s e" if "e \<in> set evs" for e
  proof (rule orphan_event_stuck [OF assms(5,4)])
    show "orphan_event ke e" using evs(3) that by (simp add: list_all_iff)
    show "(pj_Name p, ob_ID e) \<notin> set (rs_applied s)" using evs(1,5) that assms(13,16) by fastforce
  qed
  then show ?thesis using outbox_starvation [OF assms(3,17), of b ctx io] fetched by simp
qed

subsection \<open>Witnesses\<close>

text \<open>An encoding of the four fields that the projector acts on.\<close>

definition put_field :: "gostring \<Rightarrow> gostring" where
  "put_field s = concat (map (\<lambda>c. [CHR ''x'', c]) s) @ ''.''"

fun take_field :: "gostring \<Rightarrow> (gostring \<times> gostring) option" where
  "take_field (a # c # s) =
     (if a = CHR ''.'' then Some ([], c # s) else map_option (\<lambda>(f, r). (c # f, r)) (take_field s))"
| "take_field [a] = (if a = CHR ''.'' then Some ([], []) else None)"
| "take_field [] = None"

lemma take_put [simp]: "take_field (put_field s @ r) = Some (s, r)"
proof (induction s)
  case Nil
  then show ?case by (cases r) (simp_all add: put_field_def)
next
  case (Cons c s)
  then show ?case by (simp add: put_field_def)
qed

lemma put_field_facts [simp]: "take_field (put_field s) = Some (s, [])" "put_field s \<noteq> []"
  using take_put [of s "[]"] by (simp_all add: put_field_def)

definition sample_encode :: "agent_event_payload \<Rightarrow> gostring" where
  "sample_encode p = put_field (pl_AgentID p) @ put_field (pl_WorkerID p) @ put_field (pl_Lifecycle p) @
     put_field (replicate (nat (pl_Version p)) (CHR ''1'')) @
     put_field (replicate (nat (- pl_Version p)) (CHR ''1''))"

definition sample_evt :: "gostring \<Rightarrow> gostring \<Rightarrow> gostring \<Rightarrow> int \<Rightarrow> lifecycle_evt" where
  "sample_evt i w l v = \<lparr>le_AgentID = i, le_WorkerID = w, le_Lifecycle = l, le_Version = v, le_ResetScope = [],
     le_Model = [], le_DisplayName = [], le_CLI = [], le_Reasoning = [], le_Mode = [], le_Provider = [],
     le_OrchestratorModel = [], le_DefaultExecutorModel = [], le_MaxConcurrentTasks = 0, le_AllowedModels = [],
     le_AllowedExecutors = [], le_JudgeEnabled = False, le_ExecutorGitWorktree = False,
     le_SandboxEnabled = False, le_SandboxProvider = [], le_EnvVars = [], le_PromptDescription = []\<rparr>"

definition sample_decode :: "gostring \<Rightarrow> lifecycle_evt option" where
  "sample_decode s =
     Option.bind (take_field s) (\<lambda>(i, s). Option.bind (take_field s) (\<lambda>(w, s).
     Option.bind (take_field s) (\<lambda>(l, s). Option.bind (take_field s) (\<lambda>(m, s).
     Option.bind (take_field s) (\<lambda>(n, s). Some (sample_evt i w l (int (length m) - int (length n))))))))"

definition wired_env :: agent_env where
  "wired_env = sample_env\<lparr>ae_gen := (\<lambda>k. replicate (Suc k) (CHR ''a'')), ae_payload := sample_encode\<rparr>"

definition wired_control :: control_env where
  "wired_control = \<lparr>ke_decode = sample_decode, ke_encode = (\<lambda>c. rc_DesiredLifecycle c), ke_ids = (\<lambda>_. ([], [])),
     ke_key_first = True, ke_gen = (\<lambda>k. replicate (Suc k) (CHR ''c'')), ke_now = 7\<rparr>"

lemma wired_reads_back: "reads_back wired_env wired_control"
  by (simp add: reads_back_def wired_env_def wired_control_def sample_encode_def sample_decode_def sample_evt_def)

lemma wired_ids:
  "strict_mono (ae_gen wired_env)" "ae_gen wired_env k < ''b''"
proof -
  have "replicate (Suc m) (CHR ''a'') < replicate (Suc n) (CHR ''a'')" if "m < n" for m n
  proof -
    from that obtain j where "n = m + Suc j" by (metis add_Suc_right less_iff_Suc_add)
    then have "replicate (Suc n) (CHR ''a'') = replicate (Suc m) (CHR ''a'') @ replicate (Suc j) (CHR ''a'')"
      by (metis add_Suc replicate_add)
    then show ?thesis by (simp add: list_less_def lexord_append_rightI)
  qed
  then show "strict_mono (ae_gen wired_env)" by (simp add: strict_mono_def wired_env_def)
  show "ae_gen wired_env k < ''b''" by (simp add: wired_env_def less_char_def)
qed

definition empty_world :: control_world where
  "empty_world = \<lparr>cw_db = empty_control_db, cw_minted = 0\<rparr>"

definition running_db :: "control_world agent_db" where
  "running_db = (run_ops (agent_exec wired_env) [AgCreate 5 (Some ''o'') sample_command, AgStart 6 ''a'']
     (no_agents empty_world 1))\<lparr>ad_outbox := fresh_relay empty_world 1\<rparr>"

definition young :: outbox_event where
  "young = \<lparr>ob_ID = ''b'', ob_EventType = ''task.created'', ob_Refs = ''{}'', ob_Payload = ''{}'', ob_CreatedAt = 9, ob_ProcessedAt = None\<rparr>"

theorem orphan_restarts_starve_witness:
  "map ob_IsProcessed (rs_events (pump_drain (\<lambda>_. True) (\<lambda>_. True) [agent_control wired_control] 1
     (let ob = ad_outbox (run_ops (agent_exec wired_env) (AgUnbind 7 ''w'' # replicate (batch_of 1) (AgRestart 7 ''a'')) running_db)
      in ob\<lparr>rs_events := rs_events ob @ [young]\<rparr>))) = [False, False]"
proof -
  define db' where "db' = run_ops (agent_exec wired_env) (AgUnbind 7 ''w'' # replicate (batch_of 1) (AgRestart 7 ''a'')) running_db"
  define s where "s = (ad_outbox db')\<lparr>rs_events := rs_events (ad_outbox db') @ [young]\<rparr>"
  have "state_of running_db ''a'' = Some (LifecycleRunning, ''w'')" by code_simp
  then obtain r where r: "row_of running_db ''a'' = Some r" "ag_lifecycle r = LifecycleRunning" "ag_workerID r = ''w''"
    by auto
  have wf: "rows_wf wired_env running_db"
    using agent_history_wf [of wired_env "[AgCreate 5 (Some ''o'') sample_command, AgStart 6 ''a'']" empty_world 1]
    by (simp add: rows_wf_def running_db_def del: run_ops.simps)
  have none: "rs_events (ad_outbox running_db) = []" "rs_applied (ad_outbox running_db) = []"
    by (simp_all add: running_db_def fresh_relay_def)
  have w: "\<not> blank ''w''" by code_simp
  have s: "map ob_ID (rs_events s) = [''aaaaaa'', ''b'']" "map ob_IsProcessed (rs_events s) = [False, False]"
    unfolding s_def db'_def by code_simp+
  have same: "rs_events (pump_drain (\<lambda>_. True) (\<lambda>_. True) [agent_control wired_control] 1 s) = rs_events s"
    by (rule orphan_restarts_starve [OF wired_reads_back wired_ids(1) _ _ _ wf r w _ _ _ db'_def _ s_def,
        where p = "agent_control wired_control" and view = id])
      (use s(1) none wired_ids(2) in \<open>simp_all add: runs_control_def young_def\<close>)
  then show ?thesis unfolding Let_def db'_def [symmetric] s_def [symmetric] same s(2) by simp
qed

end
