(* ===== verification/Agent_Delivery.thy ===== *)
theory Agent_Delivery
  imports Agent_Control
begin

section \<open>From the intent of an operator to the command of a worker\<close>

text \<open>
  The composition of the agent service, the relay and the agent control projector: each change
  of an agent's intent reaches the control log of its worker as one command, in order.
\<close>

subsection \<open>Every intent becomes one command\<close>

definition cw_keys :: "control_world \<Rightarrow> (gostring \<times> gostring) set" where
  "cw_keys w = row_key ` set (cd_rows (cw_db w))"

text \<open>A control log whose ids and offsets are in order, with fresh ids ahead.\<close>

definition cw_ok :: "control_env \<Rightarrow> control_world \<Rightarrow> bool" where
  "cw_ok ke w \<longleftrightarrow> control_ok (cw_db w) \<and>
     (\<forall>r \<in> set (cd_rows (cw_db w)). \<forall>k \<ge> cw_minted w. ce_id r \<noteq> ke_gen ke k)"

definition command_of :: "control_env \<Rightarrow> lifecycle_evt \<Rightarrow> gostring \<times> gostring \<times> gostring \<times> gostring" where
  "command_of ke q = (le_WorkerID q, ''agent.reconcile'', reconcile_key q, nullString (ke_encode ke (reconcile_payload q)))"

definition row_command :: "control_event \<Rightarrow> gostring \<times> gostring \<times> gostring \<times> gostring" where
  "row_command r = (ce_workerID r, ce_commandType r, ce_idempotencyKey r, ce_payload r)"

lemma append_fresh:
  assumes ok: "control_ok db" and key: "(ai_WorkerID inp, ai_IdempotencyKey inp) \<notin> row_key ` set (cd_rows db)"
    and i: "\<forall>r \<in> set (cd_rows db). ce_id r \<noteq> i" "\<not> blank i"
    and nb: "\<not> blank (ai_WorkerID inp)" "\<not> blank (ai_CommandType inp)" "\<not> blank (ai_IdempotencyKey inp)"
  obtains evt db' where "AppendCommand ids kf id i now inp db = (Ok (evt, True), db')" "control_ok db'"
    "cd_rows db' = cd_rows db @ [evt\<lparr>ce_payload := nullString (ce_payload evt)\<rparr>]"
    "ce_id evt = i" "row_key evt = (ai_WorkerID inp, ai_IdempotencyKey inp)"
    "ce_commandType evt = ai_CommandType inp" "ce_payload evt = ai_Payload inp"
    "\<forall>r \<in> set (cd_rows db). ce_workerID r = ai_WorkerID inp \<longrightarrow> ce_offset r < ce_offset evt"
proof -
  let ?n = "MaxOffset (ai_WorkerID inp) db + 1"
  have n: "1 \<le> ?n" using MaxOffset_ge(1) [of "ai_WorkerID inp" db] by simp
  obtain evt where evt: "NewWorkerControlEvent now (new_command i now ?n inp) = Ok evt"
    using i(2) nb n by (auto simp: NewWorkerControlEvent_def new_command_def)
  note e = new_command_ok [OF evt]
  have offs: "\<forall>r \<in> set (cd_rows db). ce_workerID r = ai_WorkerID inp \<longrightarrow> ce_offset r < ce_offset evt"
    using MaxOffset_ge(3) [of _ db "ai_WorkerID inp"] e(2) by fastforce
  have ids: "ce_workerID evt = ai_WorkerID inp" "ce_idempotencyKey evt = ai_IdempotencyKey inp"
    using e(3) by (simp_all add: row_key_def)
  then have "\<not> list_ex (\<lambda>r. ce_workerID r = ce_workerID evt \<and> ce_idempotencyKey r = ce_idempotencyKey evt) (cd_rows db)"
    using key by (auto simp: list_ex_iff row_key_def image_iff)
  moreover have "\<not> list_ex (\<lambda>r. ce_id r = ce_id evt \<or> ce_workerID r = ce_workerID evt \<and> ce_offset r = ce_offset evt) (cd_rows db)"
    using i(1) offs e(4) ids(1) by (auto simp: list_ex_iff)
  ultimately obtain db' where app: "events_Append kf evt db = Ok db'" by (simp add: events_Append_def Let_def)
  note a = events_Append_ok [OF app ok e(1)]
  have "FindByIdempotencyKey ids now (ai_WorkerID inp) (ai_IdempotencyKey inp) db = Ok None"
    using find_key(1) [OF ok] key by blast
  with nb evt app have "AppendCommand ids kf id i now inp db = (Ok (evt, True), db')"
    by (auto simp: AppendCommand_def Let_def)
  from that [OF this a(1,2) e(4,3,5,6) offs] show thesis .
qed

lemma control_accepts:
  assumes ty: "ob_EventType e = ''agent.lifecycle_changed''" and q: "ke_decode ke (ob_Payload e) = Some q"
    and ok: "cw_ok ke w" and gen: "inj (ke_gen ke)" "\<forall>k. \<not> blank (ke_gen ke k)"
    and new: "(le_WorkerID q, reconcile_key q) \<notin> cw_keys w" and nb: "\<not> blank (le_WorkerID q)"
  obtains w' r where "control_Project ke e w = (True, w')" "cw_ok ke w'"
    "cd_rows (cw_db w') = cd_rows (cw_db w) @ [r]" "row_command r = command_of ke q"
    "\<forall>x \<in> set (cd_rows (cw_db w)). ce_workerID x = ce_workerID r \<longrightarrow> ce_offset x < ce_offset r"
proof -
  have "\<not> blank (''agent.reconcile'')" by code_simp
  then obtain evt db' where app: "AppendCommand (ke_ids ke) (ke_key_first ke) id (ke_gen ke (cw_minted w)) (ke_now ke)
      (reconcile_input ke q) (cw_db w) = (Ok (evt, True), db')" and db': "control_ok db'"
      "cd_rows db' = cd_rows (cw_db w) @ [evt\<lparr>ce_payload := nullString (ce_payload evt)\<rparr>]"
    and evt: "ce_id evt = ke_gen ke (cw_minted w)" "row_key evt = (le_WorkerID q, reconcile_key q)"
      "ce_commandType evt = ''agent.reconcile''" "ce_payload evt = ke_encode ke (reconcile_payload q)"
      "\<forall>r \<in> set (cd_rows (cw_db w)). ce_workerID r = le_WorkerID q \<longrightarrow> ce_offset r < ce_offset evt"
    using append_fresh [of "cw_db w" "reconcile_input ke q" "ke_gen ke (cw_minted w)" "ke_ids ke" "ke_key_first ke" "ke_now ke"]
      ok new nb gen(2) reconcile_key_not_blank by (auto simp: cw_ok_def cw_keys_def reconcile_input_def)
  let ?w = "w\<lparr>cw_db := db', cw_minted := cw_minted w + 1\<rparr>"
  have "control_Project ke e w = (True, ?w)" using ty q app by (simp add: control_Project_def)
  moreover have "cw_ok ke ?w"
    using ok db' evt(1) injD [OF gen(1)] by (fastforce simp: cw_ok_def)
  ultimately show thesis
    using evt db'(2) by (intro that [of ?w "evt\<lparr>ce_payload := nullString (ce_payload evt)\<rparr>"])
      (auto simp: row_command_def command_of_def row_key_def)
qed

lemma relay_one:
  assumes acc: "pj_Project p e (rs_world s) = (True, w')" and new: "(pj_Name p, ob_ID e) \<notin> set (rs_applied s)"
  obtains s' where "relay_events (\<lambda>_. True) [p] (e # es) n s = relay_events (\<lambda>_. True) [p] es (n + 1) s'"
    "rs_world s' = w'" "set (rs_applied s') = insert (pj_Name p, ob_ID e) (set (rs_applied s))"
    "pending s' = filter (\<lambda>x. ob_ID x \<noteq> ob_ID e) (pending s)"
proof -
  obtain s1 where run: "run_projector p e (tick_call s) = (True, s1)" and same: "rs_world s1 = w'" "rs_events s1 = rs_events s"
    "insert (pj_Name p, ob_ID e) (set (rs_applied s1)) = insert (pj_Name p, ob_ID e) (set (rs_applied s))"
    using acc by (auto simp: run_projector_def MarkApplied_def)
  let ?s' = "tick_call (MarkProcessed (ob_ID e) (tick_call (MarkApplied (pj_Name p) (ob_ID e) s1)))"
  have "dispatch (\<lambda>_. True) [p] e s = (AllApplied, tick_call (MarkApplied (pj_Name p) (ob_ID e) s1))"
    using new run by (simp add: IsApplied_def)
  then have "relay_events (\<lambda>_. True) [p] (e # es) n s = relay_events (\<lambda>_. True) [p] es (n + 1) ?s'" by simp
  moreover have "pending ?s' = filter (\<lambda>x. ob_ID x \<noteq> ob_ID e) (pending s)"
  proof -
    have "pending (MarkApplied (pj_Name p) (ob_ID e) s1) = pending s"
      by (simp add: pending_def same(2))
    then show ?thesis by (simp only: pending_simps)
  qed
  moreover have "rs_world ?s' = w'" using same(1) by (simp add: MarkProcessed_def MarkApplied_def)
  ultimately show thesis using same(3) by (intro that [of ?s']) simp_all
qed

abbreviation is_intent :: "outbox_event \<Rightarrow> bool" where
  "is_intent e \<equiv> ob_EventType e = ''agent.lifecycle_changed''"

definition told :: "control_env \<Rightarrow> outbox_event list \<Rightarrow> lifecycle_evt list" where
  "told ke es = List.map_filter (\<lambda>e. if is_intent e then ke_decode ke (ob_Payload e) else None) es"

definition in_order :: "control_event \<Rightarrow> control_event \<Rightarrow> bool" where
  "in_order r r' \<longleftrightarrow> (ce_workerID r = ce_workerID r' \<longrightarrow> ce_offset r < ce_offset r')"

lemma relay_commands:
  assumes "cw_ok ke (rs_world s)" "inj (ke_gen ke)" "\<forall>k. \<not> blank (ke_gen ke k)"
    and "distinct (map ob_ID es)" "\<forall>e \<in> set es. (''env-agent-control'', ob_ID e) \<notin> set (rs_applied s)"
    and "\<forall>e \<in> set es. is_intent e \<longrightarrow> ke_decode ke (ob_Payload e) \<noteq> None"
    and "\<forall>q \<in> set (told ke es). \<not> blank (le_WorkerID q) \<and> (le_WorkerID q, reconcile_key q) \<notin> cw_keys (rs_world s)"
    and "distinct (map reconcile_key (told ke es))"
  shows "\<exists>s' rows. relay_events (\<lambda>_. True) [agent_control ke] es n s = ((n + length es, None), s') \<and>
    pending s' = filter (\<lambda>x. ob_ID x \<notin> ob_ID ` set es) (pending s) \<and>
    cd_rows (cw_db (rs_world s')) = cd_rows (cw_db (rs_world s)) @ rows \<and>
    map row_command rows = map (command_of ke) (told ke es) \<and> sorted_wrt in_order rows \<and>
    (\<forall>x \<in> set (cd_rows (cw_db (rs_world s))). \<forall>r \<in> set rows. in_order x r)"
  using assms
proof (induction es arbitrary: n s)
  case Nil
  then show ?case by (simp add: told_def map_filter_simps)
next
  case (Cons e es)
  have name: "pj_Name (agent_control ke) = ''env-agent-control''" "pj_Project (agent_control ke) = control_Project ke"
    by (simp_all add: agent_control_def)
  have other: "ob_ID x \<noteq> ob_ID e" if "x \<in> set es" for x
    using Cons.prems(4) that by (metis distinct.simps(2) image_eqI list.simps(9) set_map)
  show ?case
  proof (cases "is_intent e")
    case False
    then have told: "told ke (e # es) = told ke es" by (simp add: told_def map_filter_simps)
    have w0: "control_Project ke e (rs_world s) = (True, rs_world s)"
      using False by (simp add: control_Project_def)
    then obtain s1 where s1: "relay_events (\<lambda>_. True) [agent_control ke] (e # es) n s =
        relay_events (\<lambda>_. True) [agent_control ke] es (n + 1) s1" "rs_world s1 = rs_world s"
        "set (rs_applied s1) = insert (''env-agent-control'', ob_ID e) (set (rs_applied s))"
        "pending s1 = filter (\<lambda>x. ob_ID x \<noteq> ob_ID e) (pending s)"
      using relay_one [of "agent_control ke" e s "rs_world s" es n, unfolded name] Cons.prems(5) w0
      unfolding name by (metis list.set_intros(1))
    have "\<exists>s' rows. relay_events (\<lambda>_. True) [agent_control ke] es (n + 1) s1 = ((n + 1 + length es, None), s') \<and>
      pending s' = filter (\<lambda>x. ob_ID x \<notin> ob_ID ` set es) (pending s1) \<and>
      cd_rows (cw_db (rs_world s')) = cd_rows (cw_db (rs_world s1)) @ rows \<and>
      map row_command rows = map (command_of ke) (told ke es) \<and> sorted_wrt in_order rows \<and>
      (\<forall>x \<in> set (cd_rows (cw_db (rs_world s1))). \<forall>r \<in> set rows. in_order x r)"
      using Cons.prems s1(2,3) told other by (intro Cons.IH) auto
    then show ?thesis unfolding s1(1) s1(2) s1(4) told by (simp add: filter_filter conj_commute)
  next
    case True
    then obtain q where q: "ke_decode ke (ob_Payload e) = Some q" using Cons.prems(6) by auto
    then have told: "told ke (e # es) = q # told ke es" using True by (simp add: told_def map_filter_simps)
    obtain w1 r where w1: "control_Project ke e (rs_world s) = (True, w1)" "cw_ok ke w1"
      "cd_rows (cw_db w1) = cd_rows (cw_db (rs_world s)) @ [r]" "row_command r = command_of ke q"
      "\<forall>x \<in> set (cd_rows (cw_db (rs_world s))). in_order x r"
      using control_accepts [OF True q Cons.prems(1-3)] Cons.prems(7) told unfolding in_order_def by (metis list.set_intros(1))
    obtain s1 where s1: "relay_events (\<lambda>_. True) [agent_control ke] (e # es) n s =
        relay_events (\<lambda>_. True) [agent_control ke] es (n + 1) s1" "rs_world s1 = w1"
        "set (rs_applied s1) = insert (''env-agent-control'', ob_ID e) (set (rs_applied s))"
        "pending s1 = filter (\<lambda>x. ob_ID x \<noteq> ob_ID e) (pending s)"
      using relay_one [of "agent_control ke" e s w1 es n, unfolded name] Cons.prems(5) w1(1)
      unfolding name by (metis list.set_intros(1))
    have "row_key r = (le_WorkerID q, reconcile_key q)" using w1(4) by (simp add: row_command_def command_of_def row_key_def)
    then have keys: "cw_keys w1 = insert (le_WorkerID q, reconcile_key q) (cw_keys (rs_world s))"
      by (simp add: cw_keys_def w1(3))
    obtain s' rows where s': "relay_events (\<lambda>_. True) [agent_control ke] es (n + 1) s1 = ((n + 1 + length es, None), s')"
      "pending s' = filter (\<lambda>x. ob_ID x \<notin> ob_ID ` set es) (pending s1)"
      "cd_rows (cw_db (rs_world s')) = cd_rows (cw_db (rs_world s1)) @ rows"
      "map row_command rows = map (command_of ke) (told ke es)" "sorted_wrt in_order rows"
      "\<forall>x \<in> set (cd_rows (cw_db (rs_world s1))). \<forall>r \<in> set rows. in_order x r"
      using Cons.IH [of s1 "n + 1"] Cons.prems w1(2) s1(2,3) keys told other by (fastforce simp: image_iff)
    then show ?thesis
      using w1 s1 told by (intro exI [of _ s'] exI [of _ "r # rows"]) (auto simp: filter_filter conj_commute)
  qed
qed

subsection \<open>What a history of calls has told the outbox\<close>

definition emits :: "agent_env \<Rightarrow> 'w agent_db \<Rightarrow> 'w agent_db \<Rightarrow> bool" where
  "emits en db db' \<longleftrightarrow> (\<exists>now ty a sc k.
     ad_outbox db' = (ad_outbox db)\<lparr>rs_events := rs_events (ad_outbox db) @ [appended en now ty a sc k]\<rparr> \<and>
     ad_minted db \<le> k \<and> ad_minted db' = k + 1 \<and>
     (ty = ''agent.created'' \<or> ty = ''agent.lifecycle_changed'' \<and>
       (\<exists>r r'. row_of db (ag_id a) = Some r \<and> row_of db' (ag_id a) = Some r' \<and>
          ag_version r' = ag_version a \<and> ag_version r < ag_version a)))"

definition silent :: "'w agent_db \<Rightarrow> 'w agent_db \<Rightarrow> bool" where
  "silent db db' \<longleftrightarrow> ad_outbox db' = ad_outbox db \<and> ad_minted db' = ad_minted db"

lemma Update_silent: "agent_Update a db = Ok db' \<Longrightarrow> silent db db'"
  by (auto simp: agent_Update_def map_row_def silent_def split: if_splits)

lemma emits_after:
  assumes r: "row_of db i = Some r" and a: "ag_id a = i" "ag_version r < ag_version a"
    and up: "agent_Update a db = Ok db1" and rows: "ad_rows db2 = ad_rows db1" "ad_outbox db2 = ad_outbox db1"
      "ad_minted db1 \<le> ad_minted db2"
    and em: "emit en now ''agent.lifecycle_changed'' a sc db2 = Ok db'"
  shows "emits en db db'"
proof -
  have s: "ad_outbox db1 = ad_outbox db" "ad_minted db1 = ad_minted db" using Update_silent [OF up] by (simp_all add: silent_def)
  have "db1 = map_row i (update_row a) db" using up a(1) by (auto simp: agent_Update_def split: if_splits)
  then have "row_of db2 i = Some (update_row a r)" using r rows(1) by (simp add: row_of_def) (simp add: row_of_def [symmetric] row_of_map_row)
  moreover from em have "db' = draw_id (db2\<lparr>ad_outbox := (ad_outbox db2)\<lparr>rs_events := rs_events (ad_outbox db2) @
      [appended en now ''agent.lifecycle_changed'' a sc (ad_minted db2)]\<rparr>\<rparr>)" by (simp add: emit_cases)
  ultimately show ?thesis
    unfolding emits_def using r a rows(2,3) s
    by (intro exI [of _ now] exI [of _ "''agent.lifecycle_changed''"] exI [of _ a] exI [of _ sc] exI [of _ "ad_minted db2"])
      (simp add: draw_id_def [of "_\<lparr>ad_outbox := _\<rparr>"] row_of_def)
qed

lemma lifecycleOp_emits:
  assumes wf: "rows_wf en db" and run: "lifecycleOp en now i mutate sc verb db = Ok db'"
    and m: "\<And>r a. mutate (loaded r) = Ok a \<Longrightarrow> ag_id a = ag_id r \<and> ag_version r < ag_version a"
  shows "emits en db db'"
proof -
  from run obtain r a db1 where r: "row_of db i = Some r" "mutate (loaded r) = Ok a" and up: "agent_Update a db = Ok db1"
    and em: "emit en now ''agent.lifecycle_changed'' a sc (recordLifecycleActivity en now a verb sc db1) = Ok db'"
    by - (rule FindByID_cases [OF wf, where i = i], auto simp: lifecycleOp_def split: sum.splits)
  show ?thesis
    by (rule emits_after [OF r(1) _ _ up _ _ _ em]) (use m [OF r(2)] row_of_in [OF r(1)] in auto)
qed

lemma verbs_emit:
  assumes "rows_wf en db"
  shows "StartAgent en now i db = Ok db' \<Longrightarrow> emits en db db'" "StopAgent en now i db = Ok db' \<Longrightarrow> emits en db db'"
    "RestartAgent en now i db = Ok db' \<Longrightarrow> emits en db db'"
    "ResetAgent en now i scope confirm db = Ok db' \<Longrightarrow> emits en db db'"
  unfolding StartAgent_def StopAgent_def RestartAgent_def ResetAgent_def
  by ((erule lifecycleOp_emits [OF assms] | (simp split: if_splits, erule lifecycleOp_emits [OF assms])),
      auto simp: agent_mutators split: if_splits)+

lemma config_emits:
  assumes wf: "rows_wf en db" and run: "UpdateAgentConfig en now i cmd db = Ok db'"
  shows "emits en db db' \<or> silent db db'"
proof -
  from run obtain r p a db1 where r: "row_of db i = Some r" "agent_UpdateProfile now p now (loaded r) = Ok a"
    and up: "agent_Update a db = Ok db1"
    and em: "emit en now ''agent.lifecycle_changed'' a [] db1 = Ok db' \<or> db' = db1"
    by - (rule FindByID_cases [OF wf, where i = i],
      auto simp: UpdateAgentConfig_def split: sum.splits if_splits)
  have a: "ag_id a = i" "ag_version r < ag_version a"
    using r(2) row_of_in [OF r(1)] by (auto simp: agent_UpdateProfile_def split: if_splits)
  from em show ?thesis
  proof
    assume "emit en now ''agent.lifecycle_changed'' a [] db1 = Ok db'"
    then show ?thesis using emits_after [OF r(1) a up] by blast
  qed (use Update_silent [OF up] in simp)
qed

lemma create_emits:
  assumes wf: "rows_wf en db" and run: "CreateAgent en now wo cmd db = Ok db'"
  shows "emits en db db'"
  using wf run
proof (rule create_step)
  fix a assume "emit en now ''agent.created'' a [] ((draw_id db)\<lparr>ad_rows := ad_rows db @ [stored_agent a]\<rparr>) = Ok db'"
  then have "db' = draw_id ((draw_id db)\<lparr>ad_rows := ad_rows db @ [stored_agent a], ad_outbox := (ad_outbox db)\<lparr>rs_events :=
      rs_events (ad_outbox db) @ [appended en now ''agent.created'' a [] (ad_minted db + 1)]\<rparr>\<rparr>)"
    by (simp add: emit_cases draw_id_def)
  then show ?thesis
    unfolding emits_def
    by (intro exI [of _ now] exI [of _ "''agent.created''"] exI [of _ a] exI [of _ "[]"] exI [of _ "ad_minted db + 1"])
      (simp add: draw_id_def)
qed

lemma feedbackPersist_silent: "feedbackPersist en i m db = Ok db' \<Longrightarrow> silent db db'"
  by (auto simp: feedbackPersist_def dest: Update_silent split: sum.splits)

lemma report_silent: "lifecycleFeedback en now allowed w i state msg t db = Ok db' \<Longrightarrow> silent db db'"
  by (auto simp: lifecycleFeedback_def Let_def MarkAgentRecovered_def MarkAgentStopped_def MarkAgentError_def
    MarkAgentFailed_def dest: feedbackPersist_silent split: sum.splits if_splits)

lemma exec_told:
  assumes wf: "rows_wf en db" and run: "agent_exec en op db = Ok db'"
  shows "emits en db db' \<or> silent db db'"
  using run
proof (cases op)
  case (AgTags now i tags)
  with run show ?thesis by (auto simp: SetAgentCapabilityTags_def dest: Update_silent split: sum.splits)
next
  case (AgArchive now i)
  with run show ?thesis
    by (auto simp: ArchiveAgent_def repo_Archive_def map_row_def silent_def split: sum.splits if_splits)
next
  case (AgUnbind now w)
  with run show ?thesis by (auto simp: UnbindAgentsFromWorker_def ClearWorkerBindings_def silent_def)
next
  case (AgDelete i force)
  with run delete_step [OF wf, of i force db'] show ?thesis by (simp add: silent_def)
next
  case (AgFeedback now allowed w i state msg t)
  with run show ?thesis by (auto dest: report_silent)
qed (use run verbs_emit [OF wf] config_emits [OF wf] create_emits [OF wf] in \<open>auto\<close>)

definition intents_wf :: "agent_env \<Rightarrow> control_env \<Rightarrow> 'w \<Rightarrow> 'w agent_db \<Rightarrow> bool" where
  "intents_wf en ke w0 db \<longleftrightarrow>
     (\<forall>i a. row_of db i = Some a \<longrightarrow> (\<exists>k < ad_minted db. i = ae_gen en k)) \<and>
     (\<exists>ks. map ob_ID (rs_events (ad_outbox db)) = map (ae_gen en) ks \<and> sorted_wrt (<) ks \<and> (\<forall>k \<in> set ks. k < ad_minted db)) \<and>
     (\<forall>e \<in> set (rs_events (ad_outbox db)). ob_ProcessedAt e = None \<and> (is_intent e \<longrightarrow> ke_decode ke (ob_Payload e) \<noteq> None)) \<and>
     (\<forall>q \<in> set (told ke (rs_events (ad_outbox db))). (\<exists>k < ad_minted db. le_AgentID q = ae_gen en k) \<and>
        (\<forall>a. row_of db (le_AgentID q) = Some a \<longrightarrow> le_Version q \<le> ag_version a)) \<and>
     distinct (map (\<lambda>q. (le_AgentID q, le_Version q)) (told ke (rs_events (ad_outbox db)))) \<and>
     rs_applied (ad_outbox db) = [] \<and> rs_world (ad_outbox db) = w0"

lemma told_append: "told ke (es @ [e]) = told ke es @ told ke [e]"
  by (induction es) (simp_all add: told_def map_filter_simps split: option.splits)

lemma versions_grow:
  assumes ts: "table_step en op db db'" and inj: "inj (ae_gen en)"
    and q: "\<exists>k < ad_minted db. le_AgentID q = ae_gen en k" "\<forall>a. row_of db (le_AgentID q) = Some a \<longrightarrow> le_Version q \<le> ag_version a"
    and a: "row_of db' (le_AgentID q) = Some a"
  shows "le_Version q \<le> ag_version a"
proof (cases "row_of db (le_AgentID q)")
  case None
  with ts a have "le_AgentID q = ae_gen en (ad_minted db)"
    by (auto simp: table_step_def dest!: spec [of _ "le_AgentID q"])
  with q(1) injD [OF inj] show ?thesis by (metis order_less_irrefl)
next
  case (Some r)
  with ts a have "row_step en op r a" by (auto simp: table_step_def dest!: spec [of _ "le_AgentID q"])
  with Some q(2) show ?thesis by (fastforce simp: row_step_def)
qed

definition keeps_intents :: "agent_env \<Rightarrow> control_env \<Rightarrow> 'w \<Rightarrow> 'w agent_db \<Rightarrow> 'w agent_db \<Rightarrow> bool" where
  "keeps_intents en ke w0 db db' \<longleftrightarrow>
     (reads_back en ke \<and> inj (ae_gen en) \<and> intents_wf en ke w0 db \<longrightarrow> intents_wf en ke w0 db')"

text \<open>Both ways of a call: no event and no new row, or one event.\<close>

lemma call_keeps_intents:
  assumes ts: "table_step en op db db'" and rb: "reads_back en ke" and inj: "inj (ae_gen en)"
    and inv: "intents_wf en ke w0 db" and step: "emits en db db' \<or> silent db db' \<and> (\<forall>i. row_of db' i \<noteq> None \<longrightarrow> row_of db i \<noteq> None)"
  shows "intents_wf en ke w0 db'"
proof -
  let ?es = "rs_events (ad_outbox db)" and ?es' = "rs_events (ad_outbox db')"
  have rows: "\<forall>i a. row_of db i = Some a \<longrightarrow> (\<exists>k < ad_minted db. i = ae_gen en k)"
    and old: "\<forall>q \<in> set (told ke ?es). (\<exists>k < ad_minted db. le_AgentID q = ae_gen en k) \<and>
        (\<forall>a. row_of db (le_AgentID q) = Some a \<longrightarrow> le_Version q \<le> ag_version a)"
    and dist: "distinct (map (\<lambda>q. (le_AgentID q, le_Version q)) (told ke ?es))"
    using inv unfolding intents_wf_def by blast+
  have grow: "le_Version q \<le> ag_version a" if "q \<in> set (told ke ?es)" "row_of db' (le_AgentID q) = Some a" for q a
    using versions_grow [OF ts inj] old that by blast
  from step show ?thesis
  proof
    assume quiet: "silent db db' \<and> (\<forall>i. row_of db' i \<noteq> None \<longrightarrow> row_of db i \<noteq> None)"
    then have "\<exists>k < ad_minted db'. i = ae_gen en k" if "row_of db' i = Some a" for i a
      using rows that unfolding silent_def by (metis not_None_eq)
    with quiet inv grow show ?thesis unfolding intents_wf_def silent_def by simp
  next
    assume "emits en db db'"
    then obtain now ty a sc k where out: "ad_outbox db' = (ad_outbox db)\<lparr>rs_events := ?es @ [appended en now ty a sc k]\<rparr>"
      and k: "ad_minted db \<le> k" "ad_minted db' = k + 1"
      and ty: "ty = ''agent.created'' \<or> ty = ''agent.lifecycle_changed'' \<and>
        (\<exists>r r'. row_of db (ag_id a) = Some r \<and> row_of db' (ag_id a) = Some r' \<and>
          ag_version r' = ag_version a \<and> ag_version r < ag_version a)"
      unfolding emits_def by blast
    obtain q where q: "ke_decode ke (ob_Payload (appended en now ty a sc k)) = Some q"
      "le_AgentID q = ag_id a" "le_Version q = ag_version a"
      using decode_appended [OF rb] by metis
    have told: "told ke ?es' = told ke ?es @ (if ty = ''agent.lifecycle_changed'' then [q] else [])"
      using q(1) by (simp add: out told_append) (simp add: told_def map_filter_simps appended_def)
    have ids: "\<exists>j < ad_minted db'. i = ae_gen en j" if x: "row_of db' i = Some x" for i x
    proof (cases "row_of db i")
      case None
      with ts x have "i = ae_gen en (ad_minted db)" by (auto simp: table_step_def dest!: spec [of _ i])
      with k show ?thesis by (intro exI [of _ "ad_minted db"]) simp
    next
      case (Some r)
      with rows k show ?thesis by (metis add.commute le_less_trans less_add_one nat_less_le order_le_less_trans order_less_le_trans plus_1_eq_Suc lessI)
    qed
    have new: "(\<exists>j < ad_minted db'. le_AgentID q = ae_gen en j) \<and>
        (\<forall>x. row_of db' (le_AgentID q) = Some x \<longrightarrow> le_Version q \<le> ag_version x) \<and>
        (le_AgentID q, le_Version q) \<notin> (\<lambda>q. (le_AgentID q, le_Version q)) ` set (told ke ?es)"
      if "ty = ''agent.lifecycle_changed''"
    proof -
      from ty that obtain r r' where r: "row_of db (ag_id a) = Some r" "row_of db' (ag_id a) = Some r'"
        "ag_version r' = ag_version a" "ag_version r < ag_version a" by auto
      have "le_Version p < le_Version q" if "p \<in> set (told ke ?es)" "le_AgentID p = le_AgentID q" for p
        using old that r(1,4) q(2,3) by fastforce
      with r q ids [of "ag_id a" r'] show ?thesis by fastforce
    qed
    obtain ks where ks: "map ob_ID ?es = map (ae_gen en) ks" "sorted_wrt (<) ks" "\<forall>j \<in> set ks. j < ad_minted db"
      using inv unfolding intents_wf_def by blast
    have "map ob_ID ?es' = map (ae_gen en) (ks @ [k])" "sorted_wrt (<) (ks @ [k])" "\<forall>j \<in> set (ks @ [k]). j < ad_minted db'"
      using ks k by (auto simp: out appended_def sorted_wrt_append)
    moreover have "\<forall>e \<in> set ?es'. ob_ProcessedAt e = None \<and> (is_intent e \<longrightarrow> ke_decode ke (ob_Payload e) \<noteq> None)"
      using inv q(1) by (auto simp: out intents_wf_def appended_def)
    moreover have "\<forall>p \<in> set (told ke ?es'). (\<exists>j < ad_minted db'. le_AgentID p = ae_gen en j) \<and>
        (\<forall>x. row_of db' (le_AgentID p) = Some x \<longrightarrow> le_Version p \<le> ag_version x)"
    proof
      fix p assume "p \<in> set (told ke ?es')"
      then consider "p \<in> set (told ke ?es)" | "p = q" "ty = ''agent.lifecycle_changed''"
        unfolding told by (auto split: if_splits)
      then show "(\<exists>j < ad_minted db'. le_AgentID p = ae_gen en j) \<and>
        (\<forall>x. row_of db' (le_AgentID p) = Some x \<longrightarrow> le_Version p \<le> ag_version x)"
      proof cases
        case 1
        with old obtain j where "j < ad_minted db" "le_AgentID p = ae_gen en j" by blast
        with k grow [OF 1] show ?thesis by (intro conjI exI [of _ j]) simp_all
      qed (use new in simp)
    qed
    moreover have "distinct (map (\<lambda>q. (le_AgentID q, le_Version q)) (told ke ?es'))"
      using dist new unfolding told by auto
    moreover have "rs_applied (ad_outbox db') = [] \<and> rs_world (ad_outbox db') = w0"
      using inv by (simp add: out intents_wf_def)
    ultimately show ?thesis
      unfolding intents_wf_def by (intro conjI allI impI exI [of _ "ks @ [k]"]) (assumption | blast intro: ids)+
  qed
qed

lemma silent_rows:
  assumes wf: "rows_wf en db" and run: "agent_exec en op db = Ok db'" and quiet: "silent db db'" and i: "row_of db' i \<noteq> None"
  shows "row_of db i \<noteq> None"
proof
  assume none: "row_of db i = None"
  with i agent_exec_step [OF wf run] obtain now wo cmd where "op = AgCreate now wo cmd"
    by (auto simp: table_step_def dest!: spec [of _ i])
  with run create_emits [OF wf] have "emits en db db'" by simp
  with quiet show False by (auto simp: emits_def silent_def)
qed

lemma exec_keeps_intents:
  assumes run: "agent_exec en op s = Ok s'"
  shows "evolves en (keeps_intents en ke w0) s s'"
  unfolding evolves_def keeps_intents_def
proof (intro impI conjI)
  assume wf: "rows_wf en s"
  then show "rows_wf en s'" by (rule agent_exec_wf [OF run])
  assume inv: "reads_back en ke \<and> inj (ae_gen en) \<and> intents_wf en ke w0 s"
  have "emits en s s' \<or> silent s s' \<and> (\<forall>i. row_of s' i \<noteq> None \<longrightarrow> row_of s i \<noteq> None)"
    using exec_told [OF wf run] silent_rows [OF wf run] by blast
  with inv show "intents_wf en ke w0 s'" using call_keeps_intents [OF agent_exec_step [OF wf run]] by blast
qed

interpretation intents: history "agent_exec en" "evolves en (keeps_intents en ke w0)" for en ke w0
  by unfold_locales (auto intro: exec_keeps_intents intro!: evolves_refl elim!: evolves_trans simp: keeps_intents_def)

lemma history_intents:
  assumes "reads_back en ke" "inj (ae_gen en)"
  shows "intents_wf en ke w0 (run_ops (agent_exec en) ops (no_agents w0 now))"
proof -
  have "intents_wf en ke w0 (no_agents w0 now)"
    by (simp add: intents_wf_def no_agents_def row_of_def fresh_relay_def told_def map_filter_simps)
  with intents.run_rel [of en ke w0 "no_agents w0 now" ops] no_agents_wf [of en w0 now] assms show ?thesis
    unfolding evolves_def keeps_intents_def by blast
qed

lemma distinct_map_finer:
  "distinct (map g xs) \<Longrightarrow> (\<And>x y. f x = f y \<Longrightarrow> g x = g y) \<Longrightarrow> distinct (map f xs)"
  unfolding distinct_map inj_on_def by blast

text \<open>
  C18: every change of intent that names a worker reaches it once and in order.  Take a history
  of the agents, over a sound log without earlier lifecycle commands, in which every lifecycle
  event names a worker and whose events fit one batch of the relay.  Then one pass of the relay
  over a working store turns each lifecycle event into exactly one reconcile command for the
  worker that the event names, carrying the intended lifecycle: no two changes collapse into one
  key, no command is refused, and each worker's commands have rising offsets.
\<close>

theorem intents_become_commands:
  assumes "reads_back en ke" "strict_mono (ae_gen en)" "inj (ke_gen ke)" "\<forall>k. \<not> blank (ke_gen ke k)"
    and "cw_ok ke w0" "\<forall>r \<in> set (cd_rows (cw_db w0)). \<not> HasPrefix (ce_idempotencyKey r) ''agent.lifecycle:''"
    and "db = run_ops (agent_exec en) ops (no_agents w0 now)" "es = rs_events (ad_outbox db)"
    and "\<forall>q \<in> set (told ke es). \<not> blank (le_WorkerID q)" "length es \<le> batch_of b"
  shows "\<exists>s' rows. RunOnce (\<lambda>_. True) [agent_control ke] b (ad_outbox db) = ((length es, None), s') \<and>
    pending s' = [] \<and> cd_rows (cw_db (rs_world s')) = cd_rows (cw_db w0) @ rows \<and>
    map row_command rows = map (command_of ke) (told ke es) \<and> sorted_wrt in_order rows"
proof -
  let ?s = "ad_outbox db"
  have "inj (ae_gen en)" using assms(2) by (rule strict_mono_imp_inj_on)
  then have inv: "intents_wf en ke w0 db" unfolding assms(7) by (rule history_intents [OF assms(1)])
  obtain ks where ks: "map ob_ID es = map (ae_gen en) ks" "sorted_wrt (<) ks"
    using inv unfolding intents_wf_def assms(8) by blast
  have sorted: "sorted_wrt (<) (map ob_ID es)"
    unfolding ks(1) sorted_wrt_map using ks(2) by (rule sorted_wrt_mono_rel [rotated]) (rule strict_monoD [OF assms(2)])
  have un: "filter (\<lambda>e. \<not> ob_IsProcessed e) es = es"
    using inv by (auto simp: intents_wf_def assms(8) ob_IsProcessed_def intro!: filter_True)
  have fetch: "FetchUnprocessed (batch_of b) ?s = es"
    using sort_key_prefix [OF sorted, of "[]"] un assms(10) by (simp add: FetchUnprocessed_def unprocessed_def assms(8) [symmetric])
  have facts: "rs_world ?s = w0" "rs_applied ?s = []" "\<forall>e \<in> set es. is_intent e \<longrightarrow> ke_decode ke (ob_Payload e) \<noteq> None"
    "distinct (map (\<lambda>q. (le_AgentID q, le_Version q)) (told ke es))"
    using inv by (simp_all add: intents_wf_def assms(8))
  have keys: "distinct (map reconcile_key (told ke es))"
    using facts(4) by (rule distinct_map_finer) (auto dest: reconcile_key_inj)
  have ids: "distinct (map ob_ID es)" using sorted strict_sorted_iff by blast
  have "(le_WorkerID q, reconcile_key q) \<notin> cw_keys w0" for q
  proof
    assume "(le_WorkerID q, reconcile_key q) \<in> cw_keys w0"
    then obtain r where "r \<in> set (cd_rows (cw_db w0))" "ce_idempotencyKey r = reconcile_key q"
      by (auto simp: cw_keys_def row_key_def)
    moreover have "HasPrefix (reconcile_key q) ''agent.lifecycle:''" by (simp add: HasPrefix_def reconcile_key_def)
    ultimately show False using assms(6) by metis
  qed
  then obtain s' rows where
    "relay_events (\<lambda>_. True) [agent_control ke] es 0 (tick_call ?s) = ((0 + length es, None), s')"
    "pending s' = filter (\<lambda>x. ob_ID x \<notin> ob_ID ` set es) (pending (tick_call ?s))"
    "cd_rows (cw_db (rs_world s')) = cd_rows (cw_db w0) @ rows"
    "map row_command rows = map (command_of ke) (told ke es)" "sorted_wrt in_order rows"
    using relay_commands [of ke "tick_call ?s" es 0, OF _ assms(3,4) ids _ facts(3) _ keys] assms(5,9)
    unfolding tick_call_simps facts(1,2) by auto
  moreover have "pending ?s = es" using un by (simp add: pending_def assms(8))
  ultimately show ?thesis by (intro exI [of _ s'] exI [of _ rows]) (simp add: RunOnce_def fetch)
qed

theorem intents_become_commands_witness:
  "map ce_commandType (cd_rows (cw_db (rs_world (snd (RunOnce (\<lambda>_. True) [agent_control wired_control] 10
     (ad_outbox (run_ops (agent_exec wired_env) [AgCreate 5 (Some ''o'') sample_command, AgStart 6 ''a'', AgStop 7 ''a'']
       (no_agents empty_world 1)))))))) = [''agent.reconcile'', ''agent.reconcile'']"
proof -
  define db where "db = run_ops (agent_exec wired_env) [AgCreate 5 (Some ''o'') sample_command, AgStart 6 ''a'', AgStop 7 ''a'']
       (no_agents empty_world 1)"
  define es where "es = rs_events (ad_outbox db)"
  have told: "map le_WorkerID (told wired_control es) = [''w'', ''w'']" unfolding es_def db_def by code_simp
  have len: "length es \<le> batch_of 10" unfolding es_def db_def by code_simp
  have w: "\<not> blank ''w''" by code_simp
  have gens: "inj (ke_gen wired_control)" "\<forall>k. \<not> blank (ke_gen wired_control k)"
  proof -
    show "inj (ke_gen wired_control)" by (rule injI) (simp add: wired_control_def)
    have "strip_one space_encodings (CHR ''c'' # s) = None" for s
      by (auto simp: strip_one_None space_encodings_def)
    then show "\<forall>k. \<not> blank (ke_gen wired_control k)"
      using blank_starts_with_space by (fastforce simp: wired_control_def)
  qed
  have "cw_ok wired_control empty_world" "\<forall>r \<in> set (cd_rows (cw_db empty_world)). \<not> HasPrefix (ce_idempotencyKey r) ''agent.lifecycle:''"
    by (simp_all add: cw_ok_def empty_world_def empty_control_db_def control_ok_def)
  moreover have "\<forall>q \<in> set (told wired_control es). \<not> blank (le_WorkerID q)"
    using told w by (metis empty_iff insert_iff list.set(1,2) image_eqI set_map)
  ultimately obtain s' rows where s': "RunOnce (\<lambda>_. True) [agent_control wired_control] 10 (ad_outbox db) = ((length es, None), s')"
    "cd_rows (cw_db (rs_world s')) = cd_rows (cw_db empty_world) @ rows"
    "map row_command rows = map (command_of wired_control) (told wired_control es)"
    using intents_become_commands [OF wired_reads_back wired_ids(1) gens _ _ db_def es_def _ len] by metis
  have "map (\<lambda>r. fst (snd (row_command r))) rows = map (\<lambda>q. fst (snd (command_of wired_control q))) (told wired_control es)"
    using arg_cong [OF s'(3), of "map (\<lambda>x. fst (snd x))"] by (simp add: comp_def)
  then have "map ce_commandType rows = map (\<lambda>_. ''agent.reconcile'') (map le_WorkerID (told wired_control es))"
    by (simp add: row_command_def command_of_def comp_def)
  with s'(1,2) told show ?thesis unfolding db_def [symmetric] by (simp add: empty_world_def empty_control_db_def)
qed

end
