(* ===== verification/Agent_Skills.thy ===== *)
theory Agent_Skills
  imports Agent_Service
begin

section \<open>The skills a runtime reports (internal/agent, internal/agent/sqlite, internal/agent/service)\<close>

text \<open>
  What the center does with a report: it trims and canonicalises the set
  (\<open>NormalizeInstalledSkills\<close>), replaces the rows of the agent (\<open>ReplaceForAgent\<close>) and
  reads them back in the order of the layers (\<open>ListByAgent\<close>).  A layer is a string, as in the
  code, because a report may carry any.  The lemmas show that a canonical set is sorted, has
  one copy of a name per layer and exactly one effective copy of each name, that it is a
  fixed point, that storing it never meets a key that is taken, and that the list read back
  is the set that was stored.
\<close>

type_synonym skill_layer = gostring

record installed_skill =
  is_AgentRef :: gostring
  is_Layer :: skill_layer
  is_Name :: gostring
  is_Description :: gostring
  is_Shadowed :: bool
  is_CollectedAt :: time

definition skillLayerRank :: "(skill_layer \<times> int) list" where
  "skillLayerRank = [(''built-in'', 0), (''plugin'', 1), (''user'', 2), (''project'', 3)]"

definition skill_IsValid :: "skill_layer \<Rightarrow> bool" where
  "skill_IsValid l \<longleftrightarrow> map_of skillLayerRank l \<noteq> None"

definition skill_Rank :: "skill_layer \<Rightarrow> int" where
  "skill_Rank l = (case map_of skillLayerRank l of Some r \<Rightarrow> r | None \<Rightarrow> - 1)"

definition ErrInvalidSkillLayer :: agent_error where
  "ErrInvalidSkillLayer = ErrAgentText ''agent: invalid skill layer (want built-in|plugin|user|project)''"

subsection \<open>NormalizeInstalledSkills\<close>

definition unit_sep :: gostring where
  "unit_sep = [CHR 0x1F]"

definition skill_lk :: "(gostring \<Rightarrow> gostring) \<Rightarrow> installed_skill \<Rightarrow> gostring" where
  "skill_lk ul s = is_Layer s @ unit_sep @ ToLower ul (is_Name s)"

definition trim_skill :: "installed_skill \<Rightarrow> installed_skill" where
  "trim_skill s = s\<lparr>is_Name := TrimSpace (is_Name s), is_Description := TrimSpace (is_Description s)\<rparr>"

text \<open>The first loop: \<open>seen\<close> is the map of the keys met.\<close>

fun collapse_skills :: "(gostring \<Rightarrow> gostring) \<Rightarrow> gostring list \<Rightarrow> installed_skill list \<Rightarrow>
    agent_error + installed_skill list" where
  "collapse_skills ul seen [] = Ok []"
| "collapse_skills ul seen (s0 # xs) =
     (let s = trim_skill s0 in
      if is_Name s = [] then collapse_skills ul seen xs
      else if \<not> skill_IsValid (is_Layer s) then Err ErrInvalidSkillLayer
      else if skill_lk ul s \<in> set seen then collapse_skills ul seen xs
      else case collapse_skills ul (skill_lk ul s # seen) xs of
             Err e \<Rightarrow> Err e
           | Ok ys \<Rightarrow> Ok (s # ys))"

text \<open>The second: the best rank of each name.\<close>

definition raise_rank :: "gostring \<Rightarrow> int \<Rightarrow> (gostring \<rightharpoonup> int) \<Rightarrow> (gostring \<rightharpoonup> int)" where
  "raise_rank k r m = (case m k of Some r' \<Rightarrow> if r > r' then m(k \<mapsto> r) else m | None \<Rightarrow> m(k \<mapsto> r))"

definition best_ranks :: "(gostring \<Rightarrow> gostring) \<Rightarrow> installed_skill list \<Rightarrow> (gostring \<rightharpoonup> int)" where
  "best_ranks ul xs = fold (\<lambda>s. raise_rank (ToLower ul (is_Name s)) (skill_Rank (is_Layer s))) xs Map.empty"

text \<open>An absent key of a Go map reads as zero.\<close>

definition shadow_skills :: "(gostring \<Rightarrow> gostring) \<Rightarrow> installed_skill list \<Rightarrow> installed_skill list" where
  "shadow_skills ul xs =
     map (\<lambda>s. s\<lparr>is_Shadowed := skill_Rank (is_Layer s) <
       (case best_ranks ul xs (ToLower ul (is_Name s)) of Some r \<Rightarrow> r | None \<Rightarrow> 0)\<rparr>) xs"

definition skill_order :: "(gostring \<Rightarrow> gostring) \<Rightarrow> installed_skill \<Rightarrow> int \<times> gostring" where
  "skill_order ul s = (skill_Rank (is_Layer s), ToLower ul (is_Name s))"

definition NormalizeInstalledSkills :: "(gostring \<Rightarrow> gostring) \<Rightarrow> installed_skill list \<Rightarrow>
    agent_error + installed_skill list" where
  "NormalizeInstalledSkills ul xs =
     (case collapse_skills ul [] xs of
        Err e \<Rightarrow> Err e
      | Ok out \<Rightarrow> Ok (sort_key (skill_order ul) (shadow_skills ul out)))"

subsection \<open>The table agent_installed_skills\<close>

record skill_row =
  sr_id :: gostring
  sr_agent_ref :: gostring
  sr_layer :: gostring
  sr_name :: gostring
  sr_description :: gostring
  sr_shadowed :: int
  sr_collected_at :: time

definition skill_insert :: "gostring \<Rightarrow> installed_skill \<Rightarrow> skill_row" where
  "skill_insert a s =
     \<lparr>sr_id = a @ unit_sep @ is_Layer s @ unit_sep @ is_Name s, sr_agent_ref = a, sr_layer = is_Layer s,
      sr_name = is_Name s, sr_description = is_Description s, sr_shadowed = (if is_Shadowed s then 1 else 0),
      sr_collected_at = is_CollectedAt s\<rparr>"

fun insert_skills :: "gostring \<Rightarrow> installed_skill list \<Rightarrow> skill_row list \<Rightarrow> agent_error + skill_row list" where
  "insert_skills a [] db = Ok db"
| "insert_skills a (s # xs) db =
     (if list_ex (\<lambda>r. sr_id r = sr_id (skill_insert a s)) db
      then Err (ErrAgentText ''UNIQUE constraint failed: agent_installed_skills.id'')
      else insert_skills a xs (db @ [skill_insert a s]))"

definition ReplaceForAgent :: "gostring \<Rightarrow> installed_skill list \<Rightarrow> skill_row list \<Rightarrow> agent_error + skill_row list" where
  "ReplaceForAgent a xs db = insert_skills a xs (filter (\<lambda>r. sr_agent_ref r \<noteq> a) db)"

definition sql_layer_case :: "skill_layer \<Rightarrow> int" where
  "sql_layer_case l = (if l = ''built-in'' then 0 else if l = ''plugin'' then 1 else if l = ''user'' then 2
     else if l = ''project'' then 3 else 4)"

definition skill_scan :: "skill_row \<Rightarrow> installed_skill" where
  "skill_scan r =
     \<lparr>is_AgentRef = sr_agent_ref r, is_Layer = sr_layer r, is_Name = sr_name r, is_Description = sr_description r,
      is_Shadowed = (sr_shadowed r \<noteq> 0), is_CollectedAt = sr_collected_at r\<rparr>"

definition ListByAgent :: "gostring \<Rightarrow> skill_row list \<Rightarrow> installed_skill list" where
  "ListByAgent a db =
     map skill_scan (sort_key (\<lambda>r. (sql_layer_case (sr_layer r), sr_name r)) (filter (\<lambda>r. sr_agent_ref r = a) db))"

subsection \<open>The service and the endpoint\<close>

definition ReportInstalledSkills :: "(gostring \<Rightarrow> gostring) \<Rightarrow> time \<Rightarrow> gostring \<Rightarrow> installed_skill list \<Rightarrow> time \<Rightarrow>
    skill_row list option \<Rightarrow> agent_error + skill_row list option" where
  "ReportInstalledSkills ul now a xs collectedAt skills =
     (case skills of
        None \<Rightarrow> Ok None
      | Some db \<Rightarrow>
          let t = (if is_zero_time collectedAt then now else collectedAt) in
          (case NormalizeInstalledSkills ul xs of
             Err e \<Rightarrow> Err e
           | Ok canon \<Rightarrow>
               (case ReplaceForAgent a (map (\<lambda>s. s\<lparr>is_AgentRef := a, is_CollectedAt := t\<rparr>) canon) db of
                  Err e \<Rightarrow> Err e
                | Ok db' \<Rightarrow> Ok (Some db'))))"

definition ListInstalledSkills :: "gostring \<Rightarrow> skill_row list option \<Rightarrow> installed_skill list" where
  "ListInstalledSkills a skills = (case skills of None \<Rightarrow> [] | Some db \<Rightarrow> ListByAgent a db)"

record report_entry =
  re_Layer :: gostring
  re_Name :: gostring
  re_Description :: gostring
  re_Shadowed :: bool

definition entry_skill :: "report_entry \<Rightarrow> installed_skill" where
  "entry_skill e = \<lparr>is_AgentRef = [], is_Layer = re_Layer e, is_Name = re_Name e, is_Description = re_Description e,
     is_Shadowed = re_Shadowed e, is_CollectedAt = zero_time\<rparr>"

text \<open>
  \<open>parsed\<close> is what \<open>time.Parse\<close> makes of \<open>collected_at\<close>: the zero time when it fails.  The answer
  carries the number of entries the request held.
\<close>

definition reportInstalledSkillsHandler :: "agent_env \<Rightarrow> time \<Rightarrow> bool \<Rightarrow> gostring \<Rightarrow> gostring \<Rightarrow> report_entry list \<Rightarrow>
    time \<Rightarrow> 'w agent_db \<Rightarrow> skill_row list option \<Rightarrow> agent_error + nat \<times> skill_row list option" where
  "reportInstalledSkillsHandler en now allowed worker i entries parsed db skills =
     (case requireAgentOnWorker en allowed worker i db of
        Err e \<Rightarrow> Err e
      | Ok a \<Rightarrow>
          (case ReportInstalledSkills (ae_lower en) now (ag_id a) (map entry_skill entries) parsed skills of
             Err e \<Rightarrow> Err e
           | Ok skills' \<Rightarrow> Ok (length entries, skills')))"

subsection \<open>The canonical set\<close>

lemma skill_IsValid_iff: "skill_IsValid l \<longleftrightarrow> l \<in> {''built-in'', ''plugin'', ''user'', ''project''}"
  by (auto simp: skill_IsValid_def skillLayerRank_def)

lemma skill_Rank_inj: "skill_IsValid l \<Longrightarrow> skill_IsValid m \<Longrightarrow> skill_Rank l = skill_Rank m \<longleftrightarrow> l = m"
  by (auto simp: skill_IsValid_iff skill_Rank_def skillLayerRank_def)

lemma skill_Rank_valid: "skill_IsValid l \<Longrightarrow> 0 \<le> skill_Rank l \<and> skill_Rank l = sql_layer_case l"
  by (auto simp: skill_IsValid_iff skill_Rank_def skillLayerRank_def sql_layer_case_def)

lemma unit_sep_layer: "skill_IsValid l \<Longrightarrow> CHR 0x1F \<notin> set l"
  by (auto simp: skill_IsValid_iff)

lemma sep_inj: "c \<notin> set a \<Longrightarrow> c \<notin> set b \<Longrightarrow> a @ c # x = b @ c # y \<longleftrightarrow> a = b \<and> x = y"
proof (induction a arbitrary: b)
  case Nil then show ?case by (cases b) auto
next
  case (Cons d a) then show ?case by (cases b) auto
qed

lemma skill_lk_inj:
  "skill_IsValid (is_Layer s) \<Longrightarrow> skill_IsValid (is_Layer t) \<Longrightarrow>
     skill_lk ul s = skill_lk ul t \<longleftrightarrow> skill_order ul s = skill_order ul t"
  by (simp add: skill_lk_def unit_sep_def skill_order_def sep_inj unit_sep_layer skill_Rank_inj)

lemma trim_skill_idem [simp]: "trim_skill (trim_skill s) = trim_skill s"
  by (simp add: trim_skill_def)

definition canonical_entry :: "installed_skill \<Rightarrow> bool" where
  "canonical_entry s \<longleftrightarrow> is_Name s \<noteq> [] \<and> skill_IsValid (is_Layer s) \<and> trim_skill s = s"

lemma trim_skill_layer [simp]: "is_Layer (trim_skill s) = is_Layer s"
  by (simp add: trim_skill_def)

lemma collapse_skills_step:
  "is_Name (trim_skill s) = [] \<or> skill_IsValid (is_Layer s) \<and> skill_lk ul (trim_skill s) \<in> set seen \<Longrightarrow>
     collapse_skills ul seen (s # xs) = collapse_skills ul seen xs"
  "is_Name (trim_skill s) \<noteq> [] \<Longrightarrow> skill_IsValid (is_Layer s) \<Longrightarrow> skill_lk ul (trim_skill s) \<notin> set seen \<Longrightarrow>
     collapse_skills ul seen (s # xs) =
       map_sum id ((#) (trim_skill s)) (collapse_skills ul (skill_lk ul (trim_skill s) # seen) xs)"
  "is_Name (trim_skill s) \<noteq> [] \<Longrightarrow> \<not> skill_IsValid (is_Layer s) \<Longrightarrow>
     collapse_skills ul seen (s # xs) = Err ErrInvalidSkillLayer"
  by (auto simp: Let_def split: sum.splits)

declare collapse_skills.simps(2) [simp del]

lemma collapse_skills_cases:
  obtains (skip) "is_Name (trim_skill s) = [] \<or> skill_IsValid (is_Layer s) \<and> skill_lk ul (trim_skill s) \<in> set seen"
  | (keep) "is_Name (trim_skill s) \<noteq> []" "skill_IsValid (is_Layer s)" "skill_lk ul (trim_skill s) \<notin> set seen"
  | (bad) "is_Name (trim_skill s) \<noteq> []" "\<not> skill_IsValid (is_Layer s)"
  by blast

text \<open>
  What a successful first loop returns: canonical entries, one per key and none of a key met
  before, and a key for every entry with a name.
\<close>

definition collapsed :: "(gostring \<Rightarrow> gostring) \<Rightarrow> gostring list \<Rightarrow> installed_skill list \<Rightarrow> installed_skill list \<Rightarrow> bool" where
  "collapsed ul seen xs ys \<longleftrightarrow>
     (\<forall>s \<in> set ys. canonical_entry s \<and> skill_lk ul s \<notin> set seen \<and> s \<in> trim_skill ` set xs) \<and>
     distinct (map (skill_lk ul) ys) \<and>
     (\<forall>x \<in> set xs. is_Name (trim_skill x) \<noteq> [] \<longrightarrow>
        skill_IsValid (is_Layer x) \<and> skill_lk ul (trim_skill x) \<in> set seen \<union> skill_lk ul ` set ys)"

lemma collapse_skills_ok: "collapse_skills ul seen xs = Ok ys \<Longrightarrow> collapsed ul seen xs ys"
proof (induction xs arbitrary: seen ys)
  case (Cons s xs)
  show ?case
  proof (cases rule: collapse_skills_cases [of s ul seen])
    case skip
    with Cons have "collapsed ul seen xs ys" by (simp add: collapse_skills_step(1))
    with skip show ?thesis by (auto simp: collapsed_def)
  next
    case keep
    with Cons.prems obtain zs where zs: "collapse_skills ul (skill_lk ul (trim_skill s) # seen) xs = Ok zs" "ys = trim_skill s # zs"
      by (cases "collapse_skills ul (skill_lk ul (trim_skill s) # seen) xs") (auto simp: collapse_skills_step(2))
    from Cons.IH [OF zs(1)] keep show ?thesis by (auto simp: collapsed_def zs(2) canonical_entry_def)
  next
    case bad
    with Cons.prems show ?thesis by (simp add: collapse_skills_step(3))
  qed
qed (simp add: collapsed_def)

lemma collapse_skills_error:
  "collapse_skills ul seen xs = Err e \<Longrightarrow>
     e = ErrInvalidSkillLayer \<and> (\<exists>x \<in> set xs. is_Name (trim_skill x) \<noteq> [] \<and> \<not> skill_IsValid (is_Layer x))"
proof (induction xs arbitrary: seen)
  case (Cons s xs)
  show ?case
  proof (cases rule: collapse_skills_cases [of s ul seen])
    case skip
    with Cons show ?thesis by (fastforce simp: collapse_skills_step(1))
  next
    case keep
    then have "collapse_skills ul (skill_lk ul (trim_skill s) # seen) xs = Err e"
      using Cons.prems
      by (cases "collapse_skills ul (skill_lk ul (trim_skill s) # seen) xs") (auto simp: collapse_skills_step(2))
    from Cons.IH [OF this] show ?thesis by auto
  next
    case bad
    with Cons.prems show ?thesis by (auto simp: collapse_skills_step(3))
  qed
qed simp

lemma collapse_skills_fixed:
  "\<forall>s \<in> set ys. canonical_entry s \<and> skill_lk ul s \<notin> set seen \<Longrightarrow> distinct (map (skill_lk ul) ys) \<Longrightarrow>
     collapse_skills ul seen ys = Ok ys"
proof (induction ys arbitrary: seen)
  case (Cons s ys)
  have "collapse_skills ul (skill_lk ul s # seen) ys = Ok ys"
    by (rule Cons.IH) (use Cons.prems in \<open>auto simp: image_iff\<close>)
  with Cons.prems show ?case by (simp add: canonical_entry_def collapse_skills_step(2))
qed simp

text \<open>The best rank of a name is the greatest among its copies.\<close>

lemma raise_rank_apply:
  "raise_rank j r m k = (if j = k then Some (case m k of None \<Rightarrow> r | Some r' \<Rightarrow> max r r') else m k)"
  by (auto simp: raise_rank_def max_def split: option.splits)

lemma best_ranks_fold:
  "fold (\<lambda>s. raise_rank (f s) (g s)) xs m k =
     (case m k of
        None \<Rightarrow> (case map g (filter (\<lambda>s. f s = k) xs) of [] \<Rightarrow> None | y # ys \<Rightarrow> Some (fold max ys y))
      | Some r \<Rightarrow> Some (fold max (map g (filter (\<lambda>s. f s = k) xs)) r))"
  by (induction xs arbitrary: m) (auto simp: raise_rank_apply split: option.splits)

lemma raise_rank_less:
  assumes "s \<in> set xs"
  shows "g s < (case fold (\<lambda>s. raise_rank (f s) (g s)) xs Map.empty (f s) of Some r \<Rightarrow> r | None \<Rightarrow> 0)
     \<longleftrightarrow> (\<exists>t \<in> set xs. f t = f s \<and> g s < g t)"
proof -
  let ?L = "map g (filter (\<lambda>t. f t = f s) xs)"
  have "?L \<noteq> []" using assms by (auto simp: filter_empty_conv)
  then obtain y ys where L: "?L = y # ys" by (cases ?L) auto
  have "fold (\<lambda>s. raise_rank (f s) (g s)) xs Map.empty (f s) = Some (Max (set ?L))"
    by (simp only: best_ranks_fold L Max.set_eq_fold) simp
  moreover have "z < Max (set ?L) \<longleftrightarrow> (\<exists>r \<in> set ?L. z < r)" for z
    by (rule Max_gr_iff) (simp_all only: L list.set finite.intros finite_set insert_not_empty not_False_eq_True)
  ultimately show ?thesis by (simp only: option.case) auto
qed

lemma shadowed_iff:
  assumes "s \<in> set xs"
  shows "skill_Rank (is_Layer s) < (case best_ranks ul xs (ToLower ul (is_Name s)) of Some r \<Rightarrow> r | None \<Rightarrow> 0)
     \<longleftrightarrow> (\<exists>t \<in> set xs. ToLower ul (is_Name t) = ToLower ul (is_Name s) \<and> skill_Rank (is_Layer s) < skill_Rank (is_Layer t))"
  unfolding best_ranks_def using assms by (rule raise_rank_less)

lemma shadow_skills_mem:
  "s \<in> set (shadow_skills ul xs) \<longleftrightarrow>
     (\<exists>u \<in> set xs. s = u\<lparr>is_Shadowed := \<exists>t \<in> set xs. ToLower ul (is_Name t) = ToLower ul (is_Name u) \<and>
        skill_Rank (is_Layer u) < skill_Rank (is_Layer t)\<rparr>)"
  by (auto simp: shadow_skills_def shadowed_iff)

lemma shadow_skills_keys:
  "map (skill_order ul) (shadow_skills ul xs) = map (skill_order ul) xs"
  by (simp add: shadow_skills_def skill_order_def)

definition canonical_skills :: "(gostring \<Rightarrow> gostring) \<Rightarrow> installed_skill list \<Rightarrow> bool" where
  "canonical_skills ul ys \<longleftrightarrow>
     sorted (map (skill_order ul) ys) \<and> distinct (map (skill_order ul) ys) \<and>
     (\<forall>s \<in> set ys. canonical_entry s \<and> (is_Shadowed s \<longleftrightarrow>
        (\<exists>t \<in> set ys. ToLower ul (is_Name t) = ToLower ul (is_Name s) \<and> skill_Rank (is_Layer s) < skill_Rank (is_Layer t))))"

lemma lk_order_distinct:
  assumes "\<forall>s \<in> set ys. skill_IsValid (is_Layer s)"
  shows "distinct (map (skill_lk ul) ys) \<longleftrightarrow> distinct (map (skill_order ul) ys)"
  using assms by (auto simp: distinct_map inj_on_def skill_lk_inj)

lemma trim_skill_fixed: "trim_skill s = s \<longleftrightarrow> TrimSpace (is_Name s) = is_Name s \<and> TrimSpace (is_Description s) = is_Description s"
  by (cases s) (simp add: trim_skill_def)

lemma canonical_entry_shadow [simp]: "canonical_entry (s\<lparr>is_Shadowed := b\<rparr>) \<longleftrightarrow> canonical_entry s"
  by (simp add: canonical_entry_def trim_skill_fixed)

lemma normalize_canonical:
  assumes "NormalizeInstalledSkills ul xs = Ok ys"
  shows "canonical_skills ul ys"
proof -
  from assms obtain out where out: "collapse_skills ul [] xs = Ok out" "ys = sort_key (skill_order ul) (shadow_skills ul out)"
    by (auto simp: NormalizeInstalledSkills_def split: sum.splits)
  from collapse_skills_ok [OF out(1)] have C: "\<forall>s \<in> set out. canonical_entry s" "distinct (map (skill_lk ul) out)"
    by (auto simp: collapsed_def)
  then have d: "distinct (map (skill_order ul) out)" by (subst (asm) lk_order_distinct) (auto simp: canonical_entry_def)
  have "distinct (map (skill_order ul) (shadow_skills ul out))" using d by (simp only: shadow_skills_keys)
  then have "distinct (map (skill_order ul) ys)" by (simp add: out(2) distinct_map)
  moreover have "sorted (map (skill_order ul) ys)" by (simp add: out(2))
  moreover have S: "set ys = set (shadow_skills ul out)" by (simp add: out(2))
  ultimately show ?thesis
    using C(1) by (simp add: canonical_skills_def) (simp add: shadow_skills_def shadowed_iff)
qed

text \<open>A report is refused exactly for an entry with a name and a layer that is none of the four.\<close>

lemma normalize_error_iff:
  "NormalizeInstalledSkills ul xs = Err e \<longleftrightarrow>
     e = ErrInvalidSkillLayer \<and> (\<exists>x \<in> set xs. is_Name (trim_skill x) \<noteq> [] \<and> \<not> skill_IsValid (is_Layer x))"
proof (cases "collapse_skills ul [] xs")
  case (Inl e')
  with collapse_skills_error [OF Inl] show ?thesis by (auto simp: NormalizeInstalledSkills_def)
next
  case (Inr ys)
  with collapse_skills_ok [OF Inr] show ?thesis by (auto simp: NormalizeInstalledSkills_def collapsed_def)
qed

lemma canonical_collapse: "canonical_skills ul ys \<Longrightarrow> collapse_skills ul [] ys = Ok ys"
  by (intro collapse_skills_fixed) (auto simp: canonical_skills_def lk_order_distinct canonical_entry_def)

lemma normalize_fixed:
  assumes "canonical_skills ul ys"
  shows "NormalizeInstalledSkills ul ys = Ok ys"
proof -
  have "collapse_skills ul [] ys = Ok ys" by (rule canonical_collapse [OF assms])
  moreover have "shadow_skills ul ys = ys"
    using assms by (auto simp: shadow_skills_def canonical_skills_def shadowed_iff intro!: map_idI)
  ultimately show ?thesis
    using assms by (simp add: NormalizeInstalledSkills_def canonical_skills_def sorted_sort_id sort_key_id_if_sorted)
qed

text \<open>Every name has one effective copy, in the highest layer that has the name.\<close>

lemma effective_unique:
  assumes c: "canonical_skills ul ys" and u: "u \<in> set ys"
  shows "\<exists>!s. s \<in> set ys \<and> ToLower ul (is_Name s) = ToLower ul (is_Name u) \<and> \<not> is_Shadowed s"
proof -
  let ?S = "{s \<in> set ys. ToLower ul (is_Name s) = ToLower ul (is_Name u)}"
  let ?r = "\<lambda>s. skill_Rank (is_Layer s)"
  have "Max (?r ` ?S) \<in> ?r ` ?S" by (rule Max_in) (use u in auto)
  then obtain s where m: "s \<in> ?S" "Max (?r ` ?S) = ?r s" by blast
  have "?r t \<le> Max (?r ` ?S)" if "t \<in> ?S" for t by (rule Max_ge) (use that in auto)
  with m have s: "s \<in> ?S" "\<forall>t \<in> ?S. ?r t \<le> ?r s" by auto
  show ?thesis
  proof (rule ex1I [of _ s])
    show "s \<in> set ys \<and> ToLower ul (is_Name s) = ToLower ul (is_Name u) \<and> \<not> is_Shadowed s"
      using s c by (fastforce simp: canonical_skills_def)
  next
    fix t assume t: "t \<in> set ys \<and> ToLower ul (is_Name t) = ToLower ul (is_Name u) \<and> \<not> is_Shadowed t"
    then have "skill_Rank (is_Layer t) = skill_Rank (is_Layer s)"
      using s c by (force simp: canonical_skills_def)
    then have "skill_order ul t = skill_order ul s" using t s by (simp add: skill_order_def)
    then show "t = s" using c t s by (auto simp: canonical_skills_def distinct_map inj_on_def)
  qed
qed

subsection \<open>The table after a report\<close>

text \<open>Every row is one that an insert wrote, for an agent id and a layer free of the separator.\<close>

definition skill_row_ok :: "skill_row \<Rightarrow> bool" where
  "skill_row_ok r \<longleftrightarrow> CHR 0x1F \<notin> set (sr_agent_ref r) \<and> CHR 0x1F \<notin> set (sr_layer r) \<and>
     sr_id r = sr_agent_ref r @ unit_sep @ sr_layer r @ unit_sep @ sr_name r"

definition skill_table_ok :: "skill_row list \<Rightarrow> bool" where
  "skill_table_ok db \<longleftrightarrow> list_all skill_row_ok db \<and> distinct (map sr_id db)"

lemma skill_id_inj:
  "skill_row_ok r \<Longrightarrow> skill_row_ok r' \<Longrightarrow>
     sr_id r = sr_id r' \<longleftrightarrow> sr_agent_ref r = sr_agent_ref r' \<and> sr_layer r = sr_layer r' \<and> sr_name r = sr_name r'"
  by (simp add: skill_row_ok_def unit_sep_def sep_inj)

lemma skill_insert_simps [simp]:
  "sr_agent_ref (skill_insert a s) = a" "sr_layer (skill_insert a s) = is_Layer s" "sr_name (skill_insert a s) = is_Name s"
  by (simp_all add: skill_insert_def)

lemma skill_insert_ok: "CHR 0x1F \<notin> set a \<Longrightarrow> skill_IsValid (is_Layer s) \<Longrightarrow> skill_row_ok (skill_insert a s)"
  by (simp add: skill_row_ok_def unit_sep_layer) (simp add: skill_insert_def)

lemma scan_insert: "skill_scan (skill_insert a s) = s\<lparr>is_AgentRef := a\<rparr>"
  by (cases s) (simp add: skill_scan_def skill_insert_def)

lemma insert_skills_ok:
  "distinct (map sr_id db @ map (\<lambda>s. sr_id (skill_insert a s)) xs) \<Longrightarrow>
     insert_skills a xs db = Ok (db @ map (skill_insert a) xs)"
  by (induction xs arbitrary: db) (auto simp: list_ex_iff image_iff)

lemma canonical_row_ids:
  assumes a: "CHR 0x1F \<notin> set a" and c: "canonical_skills ul ys"
  shows "distinct (map (\<lambda>s. sr_id (skill_insert a s)) ys)"
proof -
  have inj: "inj_on (skill_order ul) (set ys)" "distinct ys" and lay: "s \<in> set ys \<Longrightarrow> skill_IsValid (is_Layer s)" for s
    using c by (simp_all add: canonical_skills_def distinct_map canonical_entry_def)
  have "inj_on (\<lambda>s. sr_id (skill_insert a s)) (set ys)"
  proof (rule inj_onI)
    fix s t assume st: "s \<in> set ys" "t \<in> set ys" "sr_id (skill_insert a s) = sr_id (skill_insert a t)"
    then have "is_Layer s = is_Layer t \<and> is_Name s = is_Name t"
      by (simp add: skill_id_inj [OF skill_insert_ok [OF a lay] skill_insert_ok [OF a lay]])
    then show "s = t" using st by (intro inj_onD [OF inj(1)]) (simp_all add: skill_order_def)
  qed
  with inj(2) show ?thesis by (simp add: distinct_map)
qed

lemma ReplaceForAgent_ok:
  assumes a: "CHR 0x1F \<notin> set a" and c: "canonical_skills ul ys" and t: "skill_table_ok db"
  shows "ReplaceForAgent a (map (\<lambda>s. s\<lparr>is_AgentRef := a, is_CollectedAt := tm\<rparr>) ys) db =
      Ok (filter (\<lambda>r. sr_agent_ref r \<noteq> a) db @ map (\<lambda>s. skill_insert a (s\<lparr>is_CollectedAt := tm\<rparr>)) ys)"
    and "skill_table_ok (filter (\<lambda>r. sr_agent_ref r \<noteq> a) db @ map (\<lambda>s. skill_insert a (s\<lparr>is_CollectedAt := tm\<rparr>)) ys)"
proof -
  let ?new = "map (\<lambda>s. skill_insert a (s\<lparr>is_CollectedAt := tm\<rparr>)) ys" and ?old = "filter (\<lambda>r. sr_agent_ref r \<noteq> a) db"
  have ids: "map sr_id ?new = map (\<lambda>s. sr_id (skill_insert a s)) ys" by (simp add: skill_insert_def)
  have ok: "list_all skill_row_ok (?old @ ?new)"
    using t c a by (auto simp: skill_table_ok_def list_all_iff canonical_skills_def canonical_entry_def intro!: skill_insert_ok)
  have "sr_id r \<noteq> sr_id r'" if "r \<in> set ?old" "r' \<in> set ?new" for r r'
  proof -
    from ok that have "skill_row_ok r" "skill_row_ok r'" by (auto simp: list_all_iff)
    then show ?thesis using that by (auto simp: skill_id_inj)
  qed
  then have "set (map sr_id ?old) \<inter> set (map sr_id ?new) = {}" by (auto 4 3)
  moreover have "distinct (map sr_id ?old)" using t by (simp add: skill_table_ok_def distinct_map_filter)
  moreover have "distinct (map sr_id ?new)" unfolding ids by (rule canonical_row_ids [OF a c])
  ultimately have d: "distinct (map sr_id (?old @ ?new))" by simp
  with ok show "skill_table_ok (?old @ ?new)" by (simp add: skill_table_ok_def)
  have i: "skill_insert a (s\<lparr>is_AgentRef := a, is_CollectedAt := tm\<rparr>) = skill_insert a (s\<lparr>is_CollectedAt := tm\<rparr>)" for s
    by (simp add: skill_insert_def)
  show "ReplaceForAgent a (map (\<lambda>s. s\<lparr>is_AgentRef := a, is_CollectedAt := tm\<rparr>) ys) db = Ok (?old @ ?new)"
    unfolding ReplaceForAgent_def
    by (subst insert_skills_ok) (use d in \<open>simp_all add: comp_def i\<close>)
qed

lemma sort_key_map: "sort_key k (map g xs) = map g (sort_key (\<lambda>x. k (g x)) xs)"
proof -
  have "insort_key k (g x) (map g ys) = map g (insort_key (\<lambda>x. k (g x)) x ys)" for x ys
    by (induction ys) auto
  then show ?thesis by (induction xs) simp_all
qed

lemma ListByAgent_other:
  "b \<noteq> a \<Longrightarrow> ListByAgent b (filter (\<lambda>r. sr_agent_ref r \<noteq> a) db @ map (\<lambda>s. skill_insert a (f s)) ys) = ListByAgent b db"
  by (simp add: ListByAgent_def filter_empty_conv comp_def conj_commute)
     (metis (mono_tags, lifting) filter_cong)

lemma ListByAgent_new:
  "ListByAgent a (filter (\<lambda>r. sr_agent_ref r \<noteq> a) db @ map (\<lambda>s. skill_insert a (f s)) ys) =
     map (\<lambda>s. (f s)\<lparr>is_AgentRef := a\<rparr>) (sort_key (\<lambda>s. (sql_layer_case (is_Layer (f s)), is_Name (f s))) ys)"
  by (simp add: ListByAgent_def filter_map comp_def scan_insert sort_key_map flip: map_map)
     (simp add: scan_insert)

end
