(* ===== verification/Skill_Scan.thy ===== *)
theory Skill_Scan
  imports Agent_Skills "HOL-Library.Multiset"
begin

section \<open>Resolving the skills on disk (internal/agentruntime/skillscan, installed\_skills\_report.go)\<close>

text \<open>
  The runtime walks the roots of the four layers, reads the front matter of each SKILL.md,
  marks the copies that a higher layer or an earlier dir shadows, and hashes the result.
  The host is a parameter: the directory and file reads of package os, the YAML and JSON
  decoders, the hash, the case table and the environment.  The lemmas show which copy of a
  name the scan leaves effective, that the bytes it hashes determine the set when no value
  holds the field separator, and that the order of the roots of a layer does not matter as
  long as no two skills of a layer share a name.
\<close>

subsection \<open>Paths and lines\<close>

fun split_char :: "char \<Rightarrow> gostring \<Rightarrow> gostring list" where
  "split_char c [] = [[]]"
| "split_char c (x # xs) =
     (if x = c then [] # split_char c xs
      else case split_char c xs of [] \<Rightarrow> [[x]] | w # ws \<Rightarrow> (x # w) # ws)"

fun clean_segs :: "bool \<Rightarrow> gostring list \<Rightarrow> gostring list \<Rightarrow> gostring list" where
  "clean_segs rooted stack [] = rev stack"
| "clean_segs rooted stack (s # ss) =
     (if s = [] \<or> s = ''.'' then clean_segs rooted stack ss
      else if s = ''..'' then
        (case stack of
           t # ts \<Rightarrow> if t \<noteq> ''..'' then clean_segs rooted ts ss else clean_segs rooted (s # stack) ss
         | [] \<Rightarrow> if rooted then clean_segs rooted [] ss else clean_segs rooted [s] ss)
      else clean_segs rooted (s # stack) ss)"

definition path_Clean :: "gostring \<Rightarrow> gostring" where
  "path_Clean p =
     (let rooted = (take 1 p = ''/'');
          out = (if rooted then ''/'' else []) @ Join (clean_segs rooted [] (split_char CHR ''/'' p)) ''/''
      in if out = [] then ''.'' else out)"

definition path_Join :: "gostring list \<Rightarrow> gostring" where
  "path_Join elems = (case dropWhile (\<lambda>e. e = []) elems of [] \<Rightarrow> [] | es \<Rightarrow> path_Clean (Join es ''/''))"

subsection \<open>The host\<close>

record dir_entry =
  de_Name :: gostring
  de_IsDir :: bool
  de_Symlink :: bool

record host =
  h_ReadDir :: "gostring \<Rightarrow> dir_entry list option"
  h_Stat_IsDir :: "gostring \<Rightarrow> bool option"
  h_ReadFile :: "gostring \<Rightarrow> gostring option"
  h_yaml :: "gostring \<Rightarrow> (gostring \<times> gostring) option"
  h_manifest :: "gostring \<Rightarrow> gostring list list option"
  h_sha256hex :: "gostring \<Rightarrow> gostring"
  h_lower :: "gostring \<Rightarrow> gostring"
  h_Getenv :: "gostring \<Rightarrow> gostring"
  h_UserHomeDir :: "gostring option"

subsection \<open>Front matter\<close>

definition bom :: gostring where
  "bom = [CHR 0xEF, CHR 0xBB, CHR 0xBF]"

fun fence_body :: "gostring list \<Rightarrow> gostring list option" where
  "fence_body [] = None"
| "fence_body (l # ls) = (if TrimSpace l = ''---'' then Some [] else map_option ((#) l) (fence_body ls))"

definition extractFrontmatter :: "gostring \<Rightarrow> gostring" where
  "extractFrontmatter b =
     (case dropWhile (\<lambda>l. TrimSpace l = []) (split_char (CHR 0x0A) (TrimPrefix b bom)) of
        [] \<Rightarrow> []
      | l # ls \<Rightarrow>
          if TrimSpace l \<noteq> ''---'' then []
          else (case fence_body ls of None \<Rightarrow> [] | Some body \<Rightarrow> Join body [CHR 0x0A]))"

definition readSkillMD :: "host \<Rightarrow> gostring \<Rightarrow> (gostring \<times> gostring) option" where
  "readSkillMD h path =
     (case h_ReadFile h path of
        None \<Rightarrow> None
      | Some b \<Rightarrow>
          let fm = extractFrontmatter b in
          if fm = [] then Some ([], [])
          else (case h_yaml h fm of
                  None \<Rightarrow> Some ([], [])
                | Some (name, desc) \<Rightarrow> Some (TrimSpace name, TrimSpace desc)))"

subsection \<open>Scan\<close>

record skill =
  sk_Layer :: skill_layer
  sk_Name :: gostring
  sk_Description :: gostring
  sk_Shadowed :: bool

definition layerRank :: "skill_layer \<Rightarrow> int" where
  "layerRank l = (if l = ''built-in'' then 0 else if l = ''plugin'' then 1 else if l = ''user'' then 2
     else if l = ''project'' then 3 else 0)"

definition orderedLayers :: "skill_layer list" where
  "orderedLayers = [''built-in'', ''plugin'', ''user'', ''project'']"

record layer_roots =
  lr_Builtin :: "gostring list"
  lr_Plugin :: "gostring list"
  lr_User :: "gostring list"
  lr_Project :: "gostring list"

definition rootsFor :: "layer_roots \<Rightarrow> skill_layer \<Rightarrow> gostring list" where
  "rootsFor lr l = (if l = ''built-in'' then lr_Builtin lr else if l = ''plugin'' then lr_Plugin lr
     else if l = ''user'' then lr_User lr else if l = ''project'' then lr_Project lr else [])"

definition entryIsDir :: "host \<Rightarrow> gostring \<Rightarrow> dir_entry \<Rightarrow> bool" where
  "entryIsDir h dir e = (de_IsDir e \<or> de_Symlink e \<and> h_Stat_IsDir h (path_Join [dir, de_Name e]) = Some True)"

definition scan_entry :: "host \<Rightarrow> skill_layer \<Rightarrow> gostring \<Rightarrow> dir_entry \<Rightarrow> skill option" where
  "scan_entry h layer dir e =
     (if \<not> entryIsDir h dir e then None
      else case readSkillMD h (path_Join [dir, de_Name e, ''SKILL.md'']) of
             None \<Rightarrow> None
           | Some (name, desc) \<Rightarrow>
               Some \<lparr>sk_Layer = layer, sk_Name = (if name = [] then de_Name e else name),
                     sk_Description = desc, sk_Shadowed = False\<rparr>)"

definition scanRoot :: "host \<Rightarrow> skill_layer \<Rightarrow> gostring \<Rightarrow> skill list" where
  "scanRoot h layer dir =
     (if blank dir then []
      else case h_ReadDir h dir of
             None \<Rightarrow> []
           | Some entries \<Rightarrow> List.map_filter (scan_entry h layer dir) entries)"

definition scan_key :: "(gostring \<Rightarrow> gostring) \<Rightarrow> skill \<Rightarrow> gostring" where
  "scan_key ul s = ToLower ul (sk_Name s)"

definition scan_layers :: "host \<Rightarrow> layer_roots \<Rightarrow> skill list" where
  "scan_layers h lr = concat (map (\<lambda>l. concat (map (scanRoot h l) (rootsFor lr l))) orderedLayers)"

definition scan_best :: "(gostring \<Rightarrow> gostring) \<Rightarrow> skill list \<Rightarrow> gostring \<Rightarrow> int" where
  "scan_best ul xs k =
     (case fold (\<lambda>s. raise_rank (scan_key ul s) (layerRank (sk_Layer s))) xs Map.empty k of Some r \<Rightarrow> r | None \<Rightarrow> 0)"

fun mark_shadowed :: "(gostring \<Rightarrow> gostring) \<Rightarrow> (gostring \<Rightarrow> int) \<Rightarrow> gostring list \<Rightarrow> skill list \<Rightarrow> skill list" where
  "mark_shadowed ul best taken [] = []"
| "mark_shadowed ul best taken (s # xs) =
     (if layerRank (sk_Layer s) < best (scan_key ul s) then s\<lparr>sk_Shadowed := True\<rparr> # mark_shadowed ul best taken xs
      else if scan_key ul s \<in> set taken then s\<lparr>sk_Shadowed := True\<rparr> # mark_shadowed ul best taken xs
      else s # mark_shadowed ul best (scan_key ul s # taken) xs)"

definition scan_order :: "(gostring \<Rightarrow> gostring) \<Rightarrow> skill \<Rightarrow> int \<times> gostring" where
  "scan_order ul s = (layerRank (sk_Layer s), scan_key ul s)"

definition resolve_skills :: "(gostring \<Rightarrow> gostring) \<Rightarrow> skill list \<Rightarrow> skill list" where
  "resolve_skills ul out = sort_key (scan_order ul) (mark_shadowed ul (scan_best ul out) [] out)"

definition Scan :: "host \<Rightarrow> layer_roots \<Rightarrow> skill list" where
  "Scan h lr = resolve_skills (h_lower h) (scan_layers h lr)"

subsection \<open>Fingerprint\<close>

definition fp_record :: "skill \<Rightarrow> gostring" where
  "fp_record s = sk_Layer s @ [CHR 0x1F] @ sk_Name s @ [CHR 0x1F] @ sk_Description s @ [CHR 0x1F] @
     [if sk_Shadowed s then CHR 0x01 else CHR 0x00] @ [CHR 0x1E]"

definition Fingerprint :: "host \<Rightarrow> skill list \<Rightarrow> gostring" where
  "Fingerprint h xs = h_sha256hex h (concat (map fp_record xs))"

subsection \<open>The roots of an agent\<close>

text \<open>\<open>installs\<close> is the manifest in the order in which the map is walked, which Go does not fix.\<close>

fun install_roots :: "gostring list \<Rightarrow> gostring list \<Rightarrow> gostring list" where
  "install_roots seen [] = []"
| "install_roots seen (p # ps) =
     (if p = [] then install_roots seen ps
      else let dir = path_Join [p, ''skills''] in
        if dir \<in> set seen then install_roots seen ps else dir # install_roots (dir # seen) ps)"

definition pluginSkillRoots :: "host \<Rightarrow> gostring \<Rightarrow> gostring list" where
  "pluginSkillRoots h pluginsDir =
     (case h_ReadFile h (path_Join [pluginsDir, ''installed_plugins.json'']) of
        None \<Rightarrow> []
      | Some b \<Rightarrow> (case h_manifest h b of None \<Rightarrow> [] | Some installs \<Rightarrow> install_roots [] (concat installs)))"

definition claudeConfigDir :: "host \<Rightarrow> gostring" where
  "claudeConfigDir h =
     (let c = h_Getenv h ''CLAUDE_CONFIG_DIR'' in
      if c = [] then (case h_UserHomeDir h of Some d \<Rightarrow> path_Join [d, ''.claude''] | None \<Rightarrow> []) else c)"

definition defaultSkillLayerRoots :: "host \<Rightarrow> gostring \<Rightarrow> gostring \<Rightarrow> layer_roots" where
  "defaultSkillLayerRoots h home tasksDir =
     (let c = claudeConfigDir h; b = h_Getenv h ''CLAUDE_BUILTIN_SKILLS_DIR''; x = h_Getenv h ''AC_AGENT_SKILLS_DIR'' in
      \<lparr>lr_Builtin = (if b \<noteq> [] then [b] else []),
       lr_Plugin = (if c \<noteq> [] then pluginSkillRoots h (path_Join [c, ''plugins'']) else []),
       lr_User = (if c \<noteq> [] then [path_Join [c, ''skills'']] else []) @ (if x \<noteq> [] then [x] else []),
       lr_Project = [path_Join [home, ''skills''], path_Join [tasksDir, ''.claude'', ''skills'']]\<rparr>)"

subsection \<open>Lines and front matter\<close>

lemma split_char_nonempty [simp]: "split_char c s \<noteq> []"
  by (induction s) (auto split: list.splits)

lemma split_char_append:
  "c \<notin> set l \<Longrightarrow> split_char c (l @ c # s) = l # split_char c s"
  by (induction l) auto

lemma split_char_free: "c \<notin> set l \<Longrightarrow> split_char c l = [l]"
  by (induction l) auto

lemma Join_Cons: "xs \<noteq> [] \<Longrightarrow> Join (x # xs) sep = x @ sep @ Join xs sep"
  by (cases xs) simp_all

text \<open>Splitting undoes joining, and joining undoes splitting.\<close>

lemma split_Join: "xs \<noteq> [] \<Longrightarrow> \<forall>x \<in> set xs. c \<notin> set x \<Longrightarrow> split_char c (Join xs [c]) = xs"
proof (induction xs)
  case (Cons x xs)
  then show ?case
    by (cases "xs = []") (simp_all add: split_char_free Join_Cons split_char_append)
qed simp

lemma Join_split: "Join (split_char c s) [c] = s"
proof (induction s)
  case (Cons x s)
  then show ?case
    by (cases "split_char c s"; cases "tl (split_char c s)") (auto simp: Join_Cons)
qed simp

lemma fence_body_at: "\<forall>l \<in> set body. TrimSpace l \<noteq> ''---'' \<Longrightarrow> TrimSpace l = ''---'' \<Longrightarrow> fence_body (body @ l # ls) = Some body"
  by (induction body) auto

lemma TrimSpace_fence: "TrimSpace ''---'' = ''---''"
  by code_simp

lemma front_matter_roundtrip:
  assumes "\<forall>l \<in> set body \<union> set rest. CHR 0x0A \<notin> set l" "\<forall>l \<in> set body. TrimSpace l \<noteq> ''---''"
  shows "extractFrontmatter (Join ([''---''] @ body @ [''---''] @ rest) [CHR 0x0A]) = Join body [CHR 0x0A]"
proof -
  let ?ls = "[''---''] @ body @ [''---''] @ rest"
  let ?s = "Join ?ls [CHR 0x0A]"
  have "take 1 ?s = ''-''" by (cases "body @ [''---''] @ rest") auto
  then have "\<not> prefix bom ?s" by (cases ?s) (auto simp: bom_def)
  then have "split_char (CHR 0x0A) (TrimPrefix ?s bom) = ?ls"
    unfolding TrimPrefix_def using assms(1) by (simp only: if_False) (rule split_Join, auto)
  then show ?thesis
    using fence_body_at [OF assms(2) TrimSpace_fence, of rest] by (simp add: extractFrontmatter_def TrimSpace_fence)
qed

subsection \<open>What the hash covers\<close>

definition separable :: "skill \<Rightarrow> bool" where
  "separable s \<longleftrightarrow> CHR 0x1F \<notin> set (sk_Layer s) \<and> CHR 0x1F \<notin> set (sk_Name s) \<and> CHR 0x1F \<notin> set (sk_Description s)"

lemma fp_record_inj:
  assumes "separable s" "separable t" "fp_record s @ x = fp_record t @ y"
  shows "s = t \<and> x = y"
  using assms by (cases s; cases t) (auto simp: separable_def fp_record_def sep_inj split: if_splits)

lemma fp_records_inj:
  "\<forall>s \<in> set xs. separable s \<Longrightarrow> \<forall>s \<in> set ys. separable s \<Longrightarrow>
     concat (map fp_record xs) = concat (map fp_record ys) \<Longrightarrow> xs = ys"
proof (induction xs arbitrary: ys)
  case Nil
  then show ?case by (cases ys) (auto simp: fp_record_def)
next
  case (Cons x xs)
  then obtain y ys' where ys: "ys = y # ys'" by (cases ys) (auto simp: fp_record_def)
  with Cons.prems have "x = y \<and> concat (map fp_record xs) = concat (map fp_record ys')"
    by (intro fp_record_inj) auto
  with Cons.IH [of ys'] Cons.prems ys show ?case by simp
qed

text \<open>A value that holds the separator can hide a change.\<close>

lemma fp_records_collide:
  "fp_record \<lparr>sk_Layer = ''user'', sk_Name = [CHR 0x1F], sk_Description = [], sk_Shadowed = False\<rparr> =
   fp_record \<lparr>sk_Layer = ''user'', sk_Name = [], sk_Description = [CHR 0x1F], sk_Shadowed = False\<rparr>"
  by (simp add: fp_record_def)

subsection \<open>Which copy stays effective\<close>

text \<open>The first element of each key.\<close>

fun keep_first :: "('a \<Rightarrow> 'b) \<Rightarrow> 'b list \<Rightarrow> 'a list \<Rightarrow> 'a list" where
  "keep_first f seen [] = []"
| "keep_first f seen (x # xs) =
     (if f x \<in> set seen then keep_first f seen xs else x # keep_first f (f x # seen) xs)"

lemma keep_first_keys: "f ` set (keep_first f seen xs) = f ` set xs - set seen"
  by (induction f seen xs rule: keep_first.induct) auto

lemma keep_first_distinct: "distinct (map f (keep_first f seen xs)) \<and> set (map f (keep_first f seen xs)) \<inter> set seen = {}"
  using keep_first_keys [of f] by (induction f seen xs rule: keep_first.induct) (auto simp: image_iff)

lemma keep_first_subset: "set (keep_first f seen xs) \<subseteq> set xs"
  by (induction f seen xs rule: keep_first.induct) auto

lemma keep_first_seen: "f x \<in> set seen \<Longrightarrow> s \<in> set (keep_first f seen xs) \<Longrightarrow> f s \<noteq> f x"
  using keep_first_distinct [of f seen xs] imageI [of s "set (keep_first f seen xs)" f] by auto

lemma keep_first_hd:
  "s \<in> set (keep_first f seen xs) \<Longrightarrow> \<exists>ys. filter (\<lambda>x. f x = f s) xs = s # ys"
proof (induction xs arbitrary: seen)
  case (Cons x xs)
  then consider "f x \<in> set seen" "s \<in> set (keep_first f seen xs)" | "s = x"
    | "s \<in> set (keep_first f (f x # seen) xs)"
    by (auto split: if_splits)
  then show ?case
  proof cases
    case 1
    with Cons.IH keep_first_seen [OF 1] show ?thesis by simp
  next
    case 2
    then show ?thesis by simp
  next
    case 3
    with Cons.IH keep_first_seen [OF _ 3, of x] show ?thesis by simp
  qed
qed simp

lemma keep_first_id: "distinct (map f xs) \<Longrightarrow> f ` set xs \<inter> set seen = {} \<Longrightarrow> keep_first f seen xs = xs"
  by (induction f seen xs rule: keep_first.induct) auto

lemma mark_keys: "map (\<lambda>s. s\<lparr>sk_Shadowed := b\<rparr>) (mark_shadowed ul best taken xs) = map (\<lambda>s. s\<lparr>sk_Shadowed := b\<rparr>) xs"
  by (induction ul best taken xs rule: mark_shadowed.induct) auto

lemma scan_order_shadow [simp]: "scan_order ul (s\<lparr>sk_Shadowed := b\<rparr>) = scan_order ul s"
  by (simp add: scan_order_def scan_key_def)

lemma mark_orders: "map (scan_order ul) (mark_shadowed ul best taken xs) = map (scan_order ul) xs"
  by (induction ul best taken xs rule: mark_shadowed.induct) auto

text \<open>The first copy of a key is shadowed exactly when a better rank has its name.\<close>

lemma mark_first:
  assumes "\<forall>x \<in> set xs. layerRank (sk_Layer x) \<le> best (scan_key ul x)"
    and "filter (\<lambda>x. scan_order ul x = scan_order ul s) xs = s # ys"
    and "scan_key ul s \<in> set taken \<Longrightarrow> layerRank (sk_Layer s) < best (scan_key ul s)"
  shows "\<exists>zs. filter (\<lambda>x. scan_order ul x = scan_order ul s) (mark_shadowed ul best taken xs) =
     s\<lparr>sk_Shadowed := sk_Shadowed s \<or> layerRank (sk_Layer s) < best (scan_key ul s)\<rparr> # zs"
  using assms
proof (induction xs arbitrary: taken)
  case (Cons x xs)
  show ?case
  proof (cases "scan_order ul x = scan_order ul s")
    case True
    with Cons.prems(2) have [simp]: "x = s" by simp
    show ?thesis using Cons.prems(3) by auto
  next
    case False
    then have f: "filter (\<lambda>x. scan_order ul x = scan_order ul s) xs = s # ys" using Cons.prems(2) by simp
    have "s \<in> set (filter (\<lambda>x. scan_order ul x = scan_order ul s) xs)" unfolding f by simp
    then have s: "layerRank (sk_Layer s) \<le> best (scan_key ul s)" using Cons.prems(1) by auto
    have tk: "layerRank (sk_Layer s) < best (scan_key ul s)"
      if "scan_key ul s = scan_key ul x" "\<not> layerRank (sk_Layer x) < best (scan_key ul x)"
      using that False s Cons.prems(1) by (auto simp: scan_order_def)
    have IH: "\<exists>zs. filter (\<lambda>x. scan_order ul x = scan_order ul s) (mark_shadowed ul best tk xs) =
        s\<lparr>sk_Shadowed := sk_Shadowed s \<or> layerRank (sk_Layer s) < best (scan_key ul s)\<rparr> # zs"
      if "scan_key ul s \<in> set tk \<Longrightarrow> layerRank (sk_Layer s) < best (scan_key ul s)" for tk
      by (rule Cons.IH) (use Cons.prems(1) f that in auto)
    show ?thesis
    proof (cases "layerRank (sk_Layer x) < best (scan_key ul x) \<or> scan_key ul x \<in> set taken")
      case True
      with IH [OF Cons.prems(3)] False show ?thesis by auto
    next
      case new: False
      have "layerRank (sk_Layer s) < best (scan_key ul s)" if "scan_key ul s \<in> set (scan_key ul x # taken)"
        using that Cons.prems(3) tk new set_ConsD by metis
      from IH [of "scan_key ul x # taken", OF this] False new show ?thesis by auto
    qed
  qed
qed simp

text \<open>So, whatever order the entries come in, when no two have the same key.\<close>

lemma mark_distinct:
  assumes "\<forall>x \<in> set xs. layerRank (sk_Layer x) \<le> best (scan_key ul x)" "distinct (map (scan_order ul) xs)"
    and "\<forall>x \<in> set xs. scan_key ul x \<in> set taken \<longrightarrow> layerRank (sk_Layer x) < best (scan_key ul x)"
  shows "mark_shadowed ul best taken xs =
     map (\<lambda>s. s\<lparr>sk_Shadowed := sk_Shadowed s \<or> layerRank (sk_Layer s) < best (scan_key ul s)\<rparr>) xs"
  using assms
proof (induction xs arbitrary: taken)
  case (Cons x xs)
  have tk: "layerRank (sk_Layer y) < best (scan_key ul y)"
    if "y \<in> set xs" "scan_key ul y = scan_key ul x" "\<not> layerRank (sk_Layer x) < best (scan_key ul x)" for y
  proof -
    have "layerRank (sk_Layer y) \<le> best (scan_key ul y)" "layerRank (sk_Layer x) \<le> best (scan_key ul x)"
      using that Cons.prems(1) by auto
    moreover have "scan_order ul x \<noteq> scan_order ul y" using that Cons.prems(2) by auto
    ultimately show ?thesis using that by (auto simp: scan_order_def)
  qed
  show ?case
    using Cons.IH [of taken] Cons.IH [of "scan_key ul x # taken"] Cons.prems tk by (cases x) auto
qed simp

lemma scan_best_less:
  "s \<in> set xs \<Longrightarrow> layerRank (sk_Layer s) < scan_best ul xs (scan_key ul s) \<longleftrightarrow>
     (\<exists>t \<in> set xs. scan_key ul t = scan_key ul s \<and> layerRank (sk_Layer s) < layerRank (sk_Layer t))"
  unfolding scan_best_def by (rule raise_rank_less)

text \<open>The scan starts from entries that no copy has shadowed yet.\<close>

definition fresh :: "skill list \<Rightarrow> bool" where
  "fresh xs \<longleftrightarrow> (\<forall>s \<in> set xs. \<not> sk_Shadowed s)"

definition outranked :: "(gostring \<Rightarrow> gostring) \<Rightarrow> skill list \<Rightarrow> skill \<Rightarrow> bool" where
  "outranked ul xs s \<longleftrightarrow>
     (\<exists>t \<in> set xs. scan_key ul t = scan_key ul s \<and> layerRank (sk_Layer s) < layerRank (sk_Layer t))"

lemma scan_best_ge: "\<forall>x \<in> set xs. layerRank (sk_Layer x) \<le> scan_best ul xs (scan_key ul x)"
proof (rule ballI, rule ccontr)
  fix x assume x: "x \<in> set xs" and n: "\<not> layerRank (sk_Layer x) \<le> scan_best ul xs (scan_key ul x)"
  let ?L = "map (\<lambda>s. layerRank (sk_Layer s)) (filter (\<lambda>s. scan_key ul s = scan_key ul x) xs)"
  have "?L \<noteq> []" using x by (auto simp: filter_empty_conv)
  then obtain y ys where L: "?L = y # ys" by (cases ?L) auto
  have "scan_best ul xs (scan_key ul x) = Max (set ?L)"
    by (simp only: scan_best_def best_ranks_fold L Max.set_eq_fold) simp
  moreover have "layerRank (sk_Layer x) \<le> Max (set ?L)" by (rule Max_ge) (use x in auto)
  ultimately show False using n by simp
qed

lemma resolve_first:
  assumes "fresh out" "s \<in> set (keep_first (scan_order ul) [] (resolve_skills ul out))"
  shows "sk_Shadowed s \<longleftrightarrow> outranked ul (resolve_skills ul out) s"
proof -
  let ?M = "mark_shadowed ul (scan_best ul out) [] out" and ?f = "scan_order ul"
  have M: "filter (\<lambda>x. ?f x = ?f s) (resolve_skills ul out) = filter (\<lambda>x. ?f x = ?f s) ?M"
    using sort_key_stable [of ?f "?f s" ?M] by (simp add: resolve_skills_def eq_commute)
  obtain ys where ys: "filter (\<lambda>x. ?f x = ?f s) ?M = s # ys"
    using keep_first_hd [OF assms(2)] M by auto
  have "s \<in> set (filter (\<lambda>x. ?f x = ?f s) ?M)" unfolding ys by simp
  then have "?f s \<in> set (map ?f ?M)" by auto
  then have "?f s \<in> set (map ?f out)" by (simp only: mark_orders)
  then have "filter (\<lambda>x. ?f x = ?f s) out \<noteq> []" by (auto simp: filter_empty_conv)
  then obtain u us where u: "filter (\<lambda>x. ?f x = ?f s) out = u # us" by (cases "filter (\<lambda>x. ?f x = ?f s) out") auto
  have "u \<in> set (filter (\<lambda>x. ?f x = ?f s) out)" unfolding u by simp
  then have "u \<in> set out" "?f u = ?f s" by simp_all
  then have uf: "\<not> sk_Shadowed u" "scan_key ul u = scan_key ul s" "layerRank (sk_Layer u) = layerRank (sk_Layer s)"
    using assms(1) by (auto simp: fresh_def scan_order_def)
  have "\<exists>zs. filter (\<lambda>x. ?f x = ?f u) ?M =
      u\<lparr>sk_Shadowed := sk_Shadowed u \<or> layerRank (sk_Layer u) < scan_best ul out (scan_key ul u)\<rparr> # zs"
    by (rule mark_first [OF scan_best_ge, where ys = us]) (use u \<open>?f u = ?f s\<close> in simp_all)
  then have "s = u\<lparr>sk_Shadowed := layerRank (sk_Layer u) < scan_best ul out (scan_key ul u)\<rparr>"
    using uf(1) ys unfolding \<open>?f u = ?f s\<close> by auto
  then have "sk_Shadowed s \<longleftrightarrow> outranked ul out u"
    using scan_best_less [OF \<open>u \<in> set out\<close>, of ul] by (auto simp: outranked_def)
  also have "\<dots> \<longleftrightarrow> (scan_key ul s, layerRank (sk_Layer s)) \<in>
      {(k, r). \<exists>p \<in> ?f ` set out. snd p = k \<and> r < fst p}"
    using uf by (force simp: outranked_def scan_order_def)
  also have "?f ` set out = ?f ` set (resolve_skills ul out)"
    using arg_cong [OF mark_orders [of ul "scan_best ul out" "[]" out], of set] by (simp add: resolve_skills_def)
  also have "(scan_key ul s, layerRank (sk_Layer s)) \<in>
      {(k, r). \<exists>p \<in> ?f ` set (resolve_skills ul out). snd p = k \<and> r < fst p} \<longleftrightarrow> outranked ul (resolve_skills ul out) s"
    by (force simp: outranked_def scan_order_def)
  finally show ?thesis .
qed

lemma resolve_sorted: "sorted (map (scan_order ul) (resolve_skills ul out))"
  by (simp add: resolve_skills_def)

text \<open>Without two entries of one key, the order of the entries does not matter.\<close>

lemma resolve_order:
  assumes "mset xs = mset ys" "distinct (map (scan_order ul) xs)" "fresh xs"
  shows "resolve_skills ul xs = resolve_skills ul ys"
proof -
  have S: "set xs = set ys" using assms(1) by (rule mset_eq_setD)
  have dy: "distinct (map (scan_order ul) ys)" using assms(1,2) by (metis mset_eq_imp_distinct_iff mset_map)
  let ?m = "\<lambda>zs s. s\<lparr>sk_Shadowed := outranked ul zs s\<rparr>"
  have mk: "mark_shadowed ul (scan_best ul zs) [] zs = map (?m zs) zs"
    if "distinct (map (scan_order ul) zs)" "fresh zs" for zs
    using mark_distinct [of zs "scan_best ul zs" ul "[]"] scan_best_ge [of zs ul] that
    by (auto simp: fresh_def outranked_def scan_best_less)
  have eq: "?m xs = ?m ys" by (simp add: outranked_def S)
  have "mset (map (?m xs) xs) = mset (map (?m ys) ys)" unfolding eq using assms(1) by simp
  moreover have "distinct (map (scan_order ul) (map (?m xs) xs))" using assms(2) by (simp add: comp_def)
  then have "inj_on (scan_order ul) (set (map (?m xs) xs))" by (simp only: distinct_map)
  ultimately have "sort_key (scan_order ul) (map (?m xs) xs) = sort_key (scan_order ul) (map (?m ys) ys)"
    by (intro sort_key_inj_key_eq) simp_all
  then show ?thesis
    using mk [OF assms(2,3)] mk [OF dy] assms(3) S by (simp add: resolve_skills_def fresh_def)
qed

text \<open>A later copy of a key is always shadowed.\<close>

lemma mark_later_shadowed:
  "scan_key ul k \<in> set taken \<or> layerRank (sk_Layer k) < best (scan_key ul k) \<Longrightarrow>
     z \<in> set (mark_shadowed ul best taken xs) \<Longrightarrow> scan_order ul z = scan_order ul k \<Longrightarrow> sk_Shadowed z"
proof (induction xs arbitrary: taken)
  case (Cons x xs)
  then show ?case
    using Cons.IH [of taken] Cons.IH [of "scan_key ul x # taken"] by (auto simp: scan_order_def scan_key_def split: if_splits)
qed simp

lemma mark_rest_shadowed:
  "filter (\<lambda>x. scan_order ul x = k) (mark_shadowed ul best taken xs) = u # zs \<Longrightarrow> z \<in> set zs \<Longrightarrow> sk_Shadowed z"
proof (induction xs arbitrary: taken)
  case (Cons x xs)
  show ?case
  proof (cases "scan_order ul x = k")
    case True
    then obtain tk where tk: "z \<in> set (filter (\<lambda>x. scan_order ul x = k) (mark_shadowed ul best tk xs))"
        "scan_key ul x \<in> set tk \<or> layerRank (sk_Layer x) < best (scan_key ul x)"
      using Cons.prems by (auto split: if_splits)
    then show ?thesis using mark_later_shadowed [of ul x tk best z xs] tk True by simp
  next
    case False
    then show ?thesis
      using Cons.prems Cons.IH [of taken] Cons.IH [of "scan_key ul x # taken"] by (auto split: if_splits)
  qed
qed simp

lemma keep_first_has_hd:
  "filter (\<lambda>x. f x = k) xs = u # zs \<Longrightarrow> k \<notin> set seen \<Longrightarrow> u \<in> set (keep_first f seen xs)"
  by (induction f seen xs rule: keep_first.induct) (auto split: if_splits)

lemma effective_kept:
  assumes "s \<in> set (resolve_skills ul out)" "\<not> sk_Shadowed s"
  shows "s \<in> set (keep_first (scan_order ul) [] (resolve_skills ul out))"
proof -
  let ?M = "mark_shadowed ul (scan_best ul out) [] out" and ?f = "scan_order ul"
  have M: "filter (\<lambda>x. ?f x = ?f s) (resolve_skills ul out) = filter (\<lambda>x. ?f x = ?f s) ?M"
    using sort_key_stable [of ?f "?f s" ?M] by (simp add: resolve_skills_def eq_commute)
  have "s \<in> set (filter (\<lambda>x. ?f x = ?f s) ?M)" unfolding M [symmetric] using assms(1) by simp
  then obtain u zs where u: "filter (\<lambda>x. ?f x = ?f s) ?M = u # zs" "s \<in> set (u # zs)"
    by (cases "filter (\<lambda>x. ?f x = ?f s) ?M") auto
  have "s = u" using u(2) mark_rest_shadowed [OF u(1)] assms(2) by auto
  then show ?thesis using keep_first_has_hd [of ?f "?f s" "resolve_skills ul out" u zs "[]"] M u(1) by simp
qed

lemma mset_layers:
  assumes "\<forall>l \<in> set orderedLayers. mset (rootsFor lr l) = mset (rootsFor lr' l)"
  shows "mset (scan_layers h lr) = mset (scan_layers h lr')"
proof -
  have "mset (concat (map (scanRoot h l) (rootsFor lr l))) = mset (concat (map (scanRoot h l) (rootsFor lr' l)))"
    if "l \<in> set orderedLayers" for l
    using assms that by (simp add: mset_concat) (metis (no_types, lifting) bspec mset_map sum_mset_sum_list)
  then show ?thesis by (simp add: scan_layers_def mset_concat comp_def cong: map_cong)
qed

lemma fresh_layers: "fresh (scan_layers h lr)"
  by (auto simp: fresh_def scan_layers_def scanRoot_def scan_entry_def List.map_filter_def split: option.splits if_splits)

text \<open>Two copies in one layer: the first in the order of the roots stays effective.\<close>

lemma scanRoot_entry: "z \<in> set (scanRoot h l d) \<Longrightarrow> sk_Layer z = l \<and> \<not> sk_Shadowed z"
  by (auto simp: scanRoot_def scan_entry_def List.map_filter_def split: option.splits if_splits)

lemma scanRoot_manifest [simp]: "scanRoot (h\<lparr>h_manifest := m\<rparr>) l d = scanRoot h l d"
proof -
  have "readSkillMD (h\<lparr>h_manifest := m\<rparr>) p = readSkillMD h p" for p
    by (simp add: readSkillMD_def Let_def split: option.split)
  then have "scan_entry (h\<lparr>h_manifest := m\<rparr>) l d = scan_entry h l d"
    by (intro ext) (simp add: scan_entry_def entryIsDir_def)
  then show ?thesis by (simp add: scanRoot_def split: option.split)
qed

lemma resolve_pair:
  assumes "sk_Layer x = sk_Layer y" "scan_key ul x = scan_key ul y"
  shows "resolve_skills ul [x, y] = [x, y\<lparr>sk_Shadowed := True\<rparr>]"
  using assms by (simp add: resolve_skills_def scan_best_def raise_rank_def scan_order_def scan_key_def)

lemma scan_plugin_pair:
  assumes "scanRoot h ''plugin'' p = [x]" "scanRoot h ''plugin'' q = [y]" "scan_key (h_lower h) x = scan_key (h_lower h) y"
  shows "Scan h \<lparr>lr_Builtin = [], lr_Plugin = [p, q], lr_User = [], lr_Project = []\<rparr> = [x, y\<lparr>sk_Shadowed := True\<rparr>]"
    and "keep_first (scan_order (h_lower h)) [] [x, y\<lparr>sk_Shadowed := True\<rparr>] = [x]"
proof -
  have lay: "sk_Layer x = ''plugin''" "sk_Layer y = ''plugin''"
    using assms scanRoot_entry [of x h "''plugin''" p] scanRoot_entry [of y h "''plugin''" q] by auto
  show "Scan h \<lparr>lr_Builtin = [], lr_Plugin = [p, q], lr_User = [], lr_Project = []\<rparr> = [x, y\<lparr>sk_Shadowed := True\<rparr>]"
    using resolve_pair [of x y "h_lower h"] assms lay by (simp add: Scan_def scan_layers_def orderedLayers_def rootsFor_def)
  show "keep_first (scan_order (h_lower h)) [] [x, y\<lparr>sk_Shadowed := True\<rparr>] = [x]"
    using assms(3) lay by (simp add: scan_order_def scan_key_def)
qed

end
