(* ===== verification/Skill_Report.thy ===== *)
theory Skill_Report
  imports Skill_Scan Agent_Properties
begin

section \<open>Reporting the skills to the center (internal/agentruntime/installed\_skills\_report.go)\<close>

text \<open>
  The tick that scans, compares the fingerprint and posts the set, composed with the endpoint
  and the table of the center.  A history is a sequence of ticks, each against the disk of its
  moment, and restarts of the runtime, which forget the fingerprint.  The lemmas show that the
  center keeps of a scan exactly the first copy of each name and layer with the flags the
  runtime computed, and that the fingerprint the runtime holds stands for what the center
  lists as long as every post that the center applied was also acknowledged.
\<close>

subsection \<open>The runtime\<close>

record skill_cfg =
  sc_AgentID :: gostring
  sc_WorkerID :: gostring
  sc_AgentHomeBase :: gostring
  sc_Roots :: "(gostring \<Rightarrow> gostring \<Rightarrow> layer_roots) option"

record skill_runtime =
  lastSkillFingerprint :: gostring
  lastSkillScanAt :: time

definition skillReportScanInterval :: duration where
  "skillReportScanInterval = 30 * 1000000000"

definition agentPaths :: "skill_cfg \<Rightarrow> (gostring \<times> gostring) option" where
  "agentPaths c =
     (if blank (sc_AgentHomeBase c) \<or> blank (sc_WorkerID c) \<or> blank (sc_AgentID c) then None
      else let home = path_Join [sc_AgentHomeBase c, ''agents'', sc_AgentID c] in
        Some (home, path_Join [home, ''tasks'']))"

definition resolveSkillRoots :: "host \<Rightarrow> skill_cfg \<Rightarrow> gostring \<Rightarrow> gostring \<Rightarrow> layer_roots" where
  "resolveSkillRoots h c home tasksDir =
     (case sc_Roots c of Some f \<Rightarrow> f home tasksDir | None \<Rightarrow> defaultSkillLayerRoots h home tasksDir)"

record report_body =
  rb_agent_id :: gostring
  rb_collected_at :: time
  rb_skills :: "report_entry list"

definition report_entry_of :: "skill \<Rightarrow> report_entry" where
  "report_entry_of s =
     \<lparr>re_Layer = sk_Layer s, re_Name = sk_Name s, re_Description = sk_Description s, re_Shadowed = sk_Shadowed s\<rparr>"

definition skillReportEntries :: "skill list \<Rightarrow> report_entry list" where
  "skillReportEntries xs = map report_entry_of xs"

definition scan_due :: "time \<Rightarrow> bool \<Rightarrow> skill_runtime \<Rightarrow> bool" where
  "scan_due now force r \<longleftrightarrow> \<not> (\<not> force \<and> \<not> is_zero_time (lastSkillScanAt r) \<and>
     now - lastSkillScanAt r < skillReportScanInterval)"

text \<open>\<open>call\<close> is \<open>CallAgentTool\<close>: whether it returned without an error, and the center after it.\<close>

definition reportInstalledSkillsIfChanged :: "host \<Rightarrow> skill_cfg \<Rightarrow> (report_body \<Rightarrow> 'c \<Rightarrow> bool \<times> 'c) option \<Rightarrow> time \<Rightarrow>
    bool \<Rightarrow> skill_runtime \<times> 'c \<Rightarrow> skill_runtime \<times> 'c" where
  "reportInstalledSkillsIfChanged h c tc now force st =
     (case tc of
        None \<Rightarrow> st
      | Some call \<Rightarrow>
          (case st of (r, w) \<Rightarrow>
             if \<not> scan_due now force r then st
             else let r1 = r\<lparr>lastSkillScanAt := now\<rparr> in
               (case agentPaths c of
                  None \<Rightarrow> (r1, w)
                | Some (home, tasksDir) \<Rightarrow>
                    let skills = Scan h (resolveSkillRoots h c home tasksDir); fp = Fingerprint h skills in
                    if fp = lastSkillFingerprint r then (r1, w)
                    else (case call \<lparr>rb_agent_id = sc_AgentID c, rb_collected_at = now,
                            rb_skills = skillReportEntries skills\<rparr> w of
                            (True, w') \<Rightarrow> (r1\<lparr>lastSkillFingerprint := fp\<rparr>, w')
                          | (False, w') \<Rightarrow> (r1, w')))))"

subsection \<open>The channel and a history of reports\<close>

text \<open>
  A post reaches the center or not, and its answer may be lost after the center applied it.
  \<open>wire\<close> is what encoding a string as JSON and decoding it makes of it.
\<close>

datatype channel = Delivered | Unreached | AnswerLost

definition wire_entry :: "(gostring \<Rightarrow> gostring) \<Rightarrow> report_entry \<Rightarrow> report_entry" where
  "wire_entry wire e = e\<lparr>re_Layer := wire (re_Layer e), re_Name := wire (re_Name e),
     re_Description := wire (re_Description e)\<rparr>"

definition center_call :: "(gostring \<Rightarrow> gostring) \<Rightarrow> agent_env \<Rightarrow> gostring \<Rightarrow> 'w agent_db \<Rightarrow> channel \<Rightarrow> time \<Rightarrow> report_body \<Rightarrow>
    skill_row list option \<Rightarrow> bool \<times> skill_row list option" where
  "center_call wire en worker db ch cnow b w =
     (case ch of
        Unreached \<Rightarrow> (False, w)
      | _ \<Rightarrow>
          (case reportInstalledSkillsHandler en cnow True worker (wire (rb_agent_id b))
                  (map (wire_entry wire) (rb_skills b)) (rb_collected_at b) db w of
             Err _ \<Rightarrow> (False, w)
           | Ok (_, w') \<Rightarrow> (ch = Delivered, w')))"

datatype report_step =
    Restarted
  | Ticked (st_host: host) (st_now: time) (st_force: bool) (st_channel: channel) (st_center_now: time)

definition boot_runtime :: skill_runtime where
  "boot_runtime = \<lparr>lastSkillFingerprint = [], lastSkillScanAt = zero_time\<rparr>"

fun report_exec :: "(gostring \<Rightarrow> gostring) \<Rightarrow> skill_cfg \<Rightarrow> agent_env \<Rightarrow> 'w agent_db \<Rightarrow> report_step \<Rightarrow>
    skill_runtime \<times> skill_row list option \<Rightarrow> skill_runtime \<times> skill_row list option" where
  "report_exec wire c en db Restarted (r, w) = (boot_runtime, w)"
| "report_exec wire c en db (Ticked h now force ch cnow) (r, w) =
     reportInstalledSkillsIfChanged h c (Some (center_call wire en (sc_WorkerID c) db ch cnow)) now force (r, w)"

definition report_run :: "(gostring \<Rightarrow> gostring) \<Rightarrow> skill_cfg \<Rightarrow> agent_env \<Rightarrow> 'w agent_db \<Rightarrow> report_step list \<Rightarrow>
    skill_runtime \<times> skill_row list option \<Rightarrow> skill_runtime \<times> skill_row list option" where
  "report_run wire c en db steps st = fold (report_exec wire c en db) steps st"

lemma report_run_snoc: "report_run wire c en db (steps @ [x]) st = report_exec wire c en db x (report_run wire c en db steps st)"
  by (simp add: report_run_def)

lemma restarted_runtime: "fst (report_exec wire c en db Restarted st) = boot_runtime"
  by (cases st) simp

subsection \<open>The center keeps the scan\<close>

abbreviation posted :: "skill \<Rightarrow> installed_skill" where
  "posted s \<equiv> entry_skill (report_entry_of s)"

text \<open>A skill whose strings the center stores as they are.\<close>

definition tidy :: "skill \<Rightarrow> bool" where
  "tidy s \<longleftrightarrow> sk_Layer s \<in> set orderedLayers \<and> sk_Name s \<noteq> [] \<and> TrimSpace (sk_Name s) = sk_Name s \<and>
     TrimSpace (sk_Description s) = sk_Description s"

lemma posted_simps [simp]:
  "is_Layer (posted s) = sk_Layer s" "is_Name (posted s) = sk_Name s" "is_Description (posted s) = sk_Description s"
  "is_Shadowed (posted s) = sk_Shadowed s"
  by (simp_all add: entry_skill_def report_entry_of_def)

lemma layer_valid: "l \<in> set orderedLayers \<longleftrightarrow> skill_IsValid l"
  by (auto simp: orderedLayers_def skill_IsValid_iff)

lemma layerRank_valid: "skill_IsValid l \<Longrightarrow> layerRank l = skill_Rank l"
  by (auto simp: skill_IsValid_iff layerRank_def skill_Rank_def skillLayerRank_def)

lemma tidy_canonical: "tidy s \<Longrightarrow> canonical_entry (posted s) \<and> skill_order ul (posted s) = scan_order ul s"
  by (simp add: tidy_def canonical_entry_def trim_skill_fixed layer_valid skill_order_def scan_order_def scan_key_def layerRank_valid)

lemma tidy_rank: "tidy s \<Longrightarrow> skill_Rank (sk_Layer s) = layerRank (sk_Layer s)"
  by (simp add: tidy_def layer_valid layerRank_valid)

lemma tidy_lk: "tidy s \<Longrightarrow> tidy t \<Longrightarrow> skill_lk ul (posted s) = skill_lk ul (posted t) \<longleftrightarrow> scan_order ul s = scan_order ul t"
  using tidy_canonical [of s ul] tidy_canonical [of t ul] by (simp add: skill_lk_inj canonical_entry_def)

lemma collapse_posted:
  "\<forall>s \<in> set (xs @ zs). tidy s \<Longrightarrow>
     collapse_skills ul (map (\<lambda>s. skill_lk ul (posted s)) zs) (map posted xs) =
       Ok (map posted (keep_first (scan_order ul) (map (scan_order ul) zs) xs))"
proof (induction xs arbitrary: zs)
  case (Cons x xs)
  have canon: "trim_skill (posted x) = posted x" "is_Name (posted x) \<noteq> []" "skill_IsValid (is_Layer (posted x))"
    using Cons.prems tidy_canonical [of x] by (simp_all add: canonical_entry_def)
  have seen: "skill_lk ul (posted x) \<in> set (map (\<lambda>s. skill_lk ul (posted s)) zs) \<longleftrightarrow> scan_order ul x \<in> set (map (scan_order ul) zs)"
    using Cons.prems tidy_lk [of x _ ul] by (auto simp: image_iff)
  show ?case
  proof (cases "scan_order ul x \<in> set (map (scan_order ul) zs)")
    case True
    then show ?thesis
      using Cons.IH [of zs] Cons.prems canon seen by (simp add: collapse_skills_step(1))
  next
    case False
    then show ?thesis
      using Cons.IH [of "x # zs"] Cons.prems canon seen by (simp add: collapse_skills_step(2))
  qed
qed simp

lemma keep_first_sorted: "sorted (map f xs) \<Longrightarrow> sorted (map f (keep_first f seen xs))"
  by (induction f seen xs rule: keep_first.induct) (use keep_first_subset in \<open>fastforce+\<close>)

lemma resolved_canonical:
  assumes t: "\<forall>s \<in> set (resolve_skills ul out). tidy s" and fr: "fresh out"
  shows "canonical_skills ul (map posted (keep_first (scan_order ul) [] (resolve_skills ul out)))"
proof -
  let ?xs = "resolve_skills ul out" and ?f = "scan_order ul"
  let ?ks = "keep_first ?f [] ?xs"
  have tk: "\<forall>s \<in> set ?ks. tidy s" using t keep_first_subset [of ?f "[]" ?xs] by blast
  have keys: "map (skill_order ul) (map posted ?ks) = map ?f ?ks" using tk by (simp add: tidy_canonical)
  have "sorted (map ?f ?ks)" by (rule keep_first_sorted [OF resolve_sorted])
  moreover have "distinct (map ?f ?ks)" using keep_first_distinct [of ?f "[]"] by simp
  moreover have "sk_Shadowed s \<longleftrightarrow> (\<exists>u \<in> set ?ks. ToLower ul (sk_Name u) = ToLower ul (sk_Name s) \<and>
      skill_Rank (sk_Layer s) < skill_Rank (sk_Layer u))" if s: "s \<in> set ?ks" for s
  proof -
    have same: "?f ` set ?ks = ?f ` set ?xs" using keep_first_keys [of ?f "[]" ?xs] by simp
    have "sk_Shadowed s \<longleftrightarrow> outranked ul ?xs s" by (rule resolve_first [OF fr s])
    also have "\<dots> \<longleftrightarrow> (\<exists>p \<in> ?f ` set ?xs. snd p = scan_key ul s \<and> layerRank (sk_Layer s) < fst p)"
      by (auto simp: outranked_def scan_order_def)
    also have "\<dots> \<longleftrightarrow> (\<exists>u \<in> set ?ks. scan_key ul u = scan_key ul s \<and> layerRank (sk_Layer s) < layerRank (sk_Layer u))"
      unfolding same [symmetric] by (auto simp: scan_order_def)
    finally show ?thesis using tk s by (auto simp: scan_key_def tidy_rank)
  qed
  ultimately show ?thesis
    unfolding canonical_skills_def keys using tk by (auto simp: tidy_canonical)
qed

lemma normalize_posted:
  assumes "\<forall>s \<in> set (resolve_skills ul out). tidy s" "fresh out"
  shows "NormalizeInstalledSkills ul (map posted (resolve_skills ul out)) =
     Ok (map posted (keep_first (scan_order ul) [] (resolve_skills ul out)))"
proof -
  let ?ks = "map posted (keep_first (scan_order ul) [] (resolve_skills ul out))"
  have c: "canonical_skills ul ?ks" by (rule resolved_canonical [OF assms])
  have "collapse_skills ul [] (map posted (resolve_skills ul out)) = Ok ?ks"
    using collapse_posted [of "resolve_skills ul out" "[]" ul] assms(1) by simp
  moreover have "collapse_skills ul [] ?ks = Ok ?ks" by (rule canonical_collapse [OF c])
  ultimately show ?thesis using normalize_fixed [OF c] by (simp add: NormalizeInstalledSkills_def)
qed

subsection \<open>Storing a report\<close>

lemma report_stored:
  assumes a: "CHR 0x1F \<notin> set a" and t: "skill_table_ok db" and n: "NormalizeInstalledSkills ul xs = Ok ys"
  obtains db' where "ReportInstalledSkills ul now a xs tm (Some db) = Ok (Some db')" "skill_table_ok db'"
    "ListInstalledSkills a (Some db') = map (\<lambda>s. s\<lparr>is_AgentRef := a, is_CollectedAt := stamp now tm\<rparr>)
       (sort_key (\<lambda>s. (sql_layer_case (is_Layer s), is_Name s)) ys)"
    "\<forall>b. b \<noteq> a \<longrightarrow> ListInstalledSkills b (Some db') = ListInstalledSkills b (Some db)"
proof -
  note c = normalize_canonical [OF n]
  let ?tm = "stamp now tm"
  let ?db' = "filter (\<lambda>r. sr_agent_ref r \<noteq> a) db @ map (\<lambda>s. skill_insert a (s\<lparr>is_CollectedAt := ?tm\<rparr>)) ys"
  note R = ReplaceForAgent_ok [OF a c t, where tm = ?tm]
  have "ReportInstalledSkills ul now a xs tm (Some db) = Ok (Some ?db')"
    using R(1) by (simp add: ReportInstalledSkills_def n stamp_def Let_def split: if_splits)
  moreover have "ListInstalledSkills a (Some ?db') = map (\<lambda>s. s\<lparr>is_AgentRef := a, is_CollectedAt := ?tm\<rparr>)
       (sort_key (\<lambda>s. (sql_layer_case (is_Layer s), is_Name s)) ys)"
    by (simp add: ListInstalledSkills_def ListByAgent_new)
  moreover have "\<forall>b. b \<noteq> a \<longrightarrow> ListInstalledSkills b (Some ?db') = ListInstalledSkills b (Some db)"
    by (simp add: ListInstalledSkills_def ListByAgent_other)
  ultimately show ?thesis using that R(2) by blast
qed

lemma sql_order_lower:
  assumes "canonical_skills ul ys" "\<forall>s \<in> set ys. ToLower ul (is_Name s) = is_Name s"
  shows "sort_key (\<lambda>s. (sql_layer_case (is_Layer s), is_Name s)) ys = ys"
proof (rule sort_key_id_if_sorted)
  have m: "map (\<lambda>s. (sql_layer_case (is_Layer s), is_Name s)) ys = map (skill_order ul) ys"
    using assms by (auto simp: skill_order_def canonical_skills_def canonical_entry_def skill_Rank_valid)
  show "sorted (map (\<lambda>s. (sql_layer_case (is_Layer s), is_Name s)) ys)"
    unfolding m using assms(1) by (simp add: canonical_skills_def)
qed

subsection \<open>What the center lists\<close>

definition installed :: "gostring \<Rightarrow> time \<Rightarrow> skill \<Rightarrow> installed_skill" where
  "installed a tm s = (posted s)\<lparr>is_AgentRef := a, is_CollectedAt := tm\<rparr>"

text \<open>The center lists the first copy of each key of a scan, all collected at one time.\<close>

definition reflects :: "(gostring \<Rightarrow> gostring) \<Rightarrow> gostring \<Rightarrow> skill list \<Rightarrow> skill_row list option \<Rightarrow> bool" where
  "reflects ul a xs w \<longleftrightarrow>
     (\<exists>tm. mset (ListInstalledSkills a w) = mset (map (installed a tm) (keep_first (scan_order ul) [] xs)))"

definition scan_of :: "host \<Rightarrow> skill_cfg \<Rightarrow> skill list" where
  "scan_of h c =
     (case agentPaths c of None \<Rightarrow> [] | Some (home, tasksDir) \<Rightarrow> Scan h (resolveSkillRoots h c home tasksDir))"

definition clean_disk :: "(gostring \<Rightarrow> gostring) \<Rightarrow> skill_cfg \<Rightarrow> agent_env \<Rightarrow> host \<Rightarrow> bool" where
  "clean_disk wire c en h \<longleftrightarrow> h_lower h = ae_lower en \<and>
     (\<forall>s \<in> set (scan_of h c). tidy s \<and> separable s \<and> wire_entry wire (report_entry_of s) = report_entry_of s)"

lemma scan_of_cases: obtains out where "scan_of h c = resolve_skills (h_lower h) out" "fresh out"
proof (cases "agentPaths c")
  case None
  then show ?thesis by (intro that [of "[]"]) (simp_all add: scan_of_def resolve_skills_def fresh_def)
next
  case (Some p)
  obtain home tasksDir where "p = (home, tasksDir)" by (cases p)
  with Some show ?thesis
    by (intro that [of "scan_layers h (resolveSkillRoots h c home tasksDir)"]) (simp_all add: scan_of_def Scan_def fresh_layers)
qed

abbreviation body_of :: "skill_cfg \<Rightarrow> time \<Rightarrow> skill list \<Rightarrow> report_body" where
  "body_of c now xs \<equiv> \<lparr>rb_agent_id = sc_AgentID c, rb_collected_at = now, rb_skills = skillReportEntries xs\<rparr>"

lemma center_stores:
  assumes ag: "requireAgentOnWorker en True worker (wire (sc_AgentID c)) db = Ok ag" "CHR 0x1F \<notin> set (ag_id ag)"
    and t: "skill_table_ok sdb" and h: "clean_disk wire c en h" and ch: "ch \<noteq> Unreached"
  obtains sdb' where
    "center_call wire en worker db ch cnow (body_of c now (scan_of h c)) (Some sdb) = (ch = Delivered, Some sdb')"
    "skill_table_ok sdb'" "reflects (ae_lower en) (ag_id ag) (scan_of h c) (Some sdb')"
proof -
  obtain out where out: "scan_of h c = resolve_skills (ae_lower en) out" "fresh out"
    using scan_of_cases [of h c] h by (metis clean_disk_def)
  have tidy: "\<forall>s \<in> set (resolve_skills (ae_lower en) out). tidy s"
    using h unfolding out(1) [symmetric] by (simp add: clean_disk_def)
  have wires: "map entry_skill (map (wire_entry wire) (skillReportEntries (scan_of h c))) = map posted (resolve_skills (ae_lower en) out)"
    unfolding out(1) [symmetric] skillReportEntries_def map_map
  proof (rule map_cong [OF refl])
    fix s assume "s \<in> set (scan_of h c)"
    then have "wire_entry wire (report_entry_of s) = report_entry_of s" using h by (simp add: clean_disk_def)
    then show "(entry_skill \<circ> (wire_entry wire \<circ> report_entry_of)) s = posted s" by simp
  qed
  obtain sdb' where R: "ReportInstalledSkills (ae_lower en) cnow (ag_id ag) (map posted (resolve_skills (ae_lower en) out)) now (Some sdb) = Ok (Some sdb')"
      "skill_table_ok sdb'"
      "ListInstalledSkills (ag_id ag) (Some sdb') = map (\<lambda>s. s\<lparr>is_AgentRef := ag_id ag, is_CollectedAt := stamp cnow now\<rparr>)
         (sort_key (\<lambda>s. (sql_layer_case (is_Layer s), is_Name s)) (map posted (keep_first (scan_order (ae_lower en)) [] (resolve_skills (ae_lower en) out))))"
    by (rule report_stored [OF ag(2) t normalize_posted [OF tidy out(2)], of cnow now])
  have "reflects (ae_lower en) (ag_id ag) (scan_of h c) (Some sdb')"
    unfolding reflects_def R(3) out(1) by (rule exI [of _ "stamp cnow now"]) (simp add: installed_def [abs_def] comp_def image_mset.compositionality)
  moreover have "center_call wire en worker db ch cnow (body_of c now (scan_of h c)) (Some sdb) = (ch = Delivered, Some sdb')"
    using ch ag(1) R(1) wires by (cases ch) (simp_all add: center_call_def reportInstalledSkillsHandler_def)
  ultimately show ?thesis using that R(2) by blast
qed

lemma center_unreached: "center_call wire en worker db Unreached cnow b w = (False, w)"
  by (simp add: center_call_def)

lemma report_exec_tick:
  "report_exec wire c en db (Ticked h now force ch cnow) (r, w) =
     (if \<not> scan_due now force r then (r, w)
      else if agentPaths c = None \<or> Fingerprint h (scan_of h c) = lastSkillFingerprint r then (r\<lparr>lastSkillScanAt := now\<rparr>, w)
      else case center_call wire en (sc_WorkerID c) db ch cnow (body_of c now (scan_of h c)) w of
             (b, w') \<Rightarrow> (r\<lparr>lastSkillScanAt := now,
                 lastSkillFingerprint := (if b then Fingerprint h (scan_of h c) else lastSkillFingerprint r)\<rparr>, w'))"
  by (auto simp: reportInstalledSkillsIfChanged_def scan_of_def Let_def split: option.splits prod.splits bool.splits)

subsection \<open>Histories\<close>

fun disks :: "report_step list \<Rightarrow> host list" where
  "disks [] = []"
| "disks (Restarted # xs) = disks xs"
| "disks (Ticked h now force ch cnow # xs) = h # disks xs"

lemma disks_append: "disks (xs @ ys) = disks xs @ disks ys"
  by (induction xs rule: disks.induct) simp_all

definition no_collision :: "skill_cfg \<Rightarrow> host set \<Rightarrow> bool" where
  "no_collision c H \<longleftrightarrow>
     (\<forall>h \<in> H. Fingerprint h (scan_of h c) \<noteq> [] \<and>
        (\<forall>h' \<in> H. Fingerprint h (scan_of h c) = Fingerprint h' (scan_of h' c) \<longrightarrow>
           concat (map fp_record (scan_of h c)) = concat (map fp_record (scan_of h' c))))"

definition answered :: "report_step \<Rightarrow> bool" where
  "answered st \<longleftrightarrow> (case st of Restarted \<Rightarrow> True | Ticked _ _ _ ch _ \<Rightarrow> ch \<noteq> AnswerLost)"

text \<open>The fingerprint the runtime holds is that of a disk whose skills the center lists.\<close>

definition in_step :: "(gostring \<Rightarrow> gostring) \<Rightarrow> skill_cfg \<Rightarrow> gostring \<Rightarrow> host set \<Rightarrow>
    skill_runtime \<times> skill_row list option \<Rightarrow> bool" where
  "in_step ul c a H st \<longleftrightarrow>
     (\<exists>sdb. snd st = Some sdb \<and> skill_table_ok sdb) \<and>
     (lastSkillFingerprint (fst st) = [] \<or>
      (\<exists>h \<in> H. lastSkillFingerprint (fst st) = Fingerprint h (scan_of h c) \<and> reflects ul a (scan_of h c) (snd st)))"

lemma same_fingerprint_same_scan:
  assumes "no_collision c H" "\<forall>h \<in> H. clean_disk wire c en h" "h \<in> H" "h' \<in> H"
    "Fingerprint h (scan_of h c) = Fingerprint h' (scan_of h' c)"
  shows "scan_of h c = scan_of h' c"
proof (rule fp_records_inj)
  show "\<forall>s \<in> set (scan_of h c). separable s" "\<forall>s \<in> set (scan_of h' c). separable s"
    using assms(2-4) unfolding clean_disk_def by blast+
  show "concat (map fp_record (scan_of h c)) = concat (map fp_record (scan_of h' c))"
    using assms(1,3-5) unfolding no_collision_def by blast
qed

lemma in_step_exec:
  assumes ag: "requireAgentOnWorker en True (sc_WorkerID c) (wire (sc_AgentID c)) db = Ok ag" "CHR 0x1F \<notin> set (ag_id ag)"
    and clean: "\<forall>h \<in> H. clean_disk wire c en h"
    and st: "set (disks [x]) \<subseteq> H" "answered x" and inv: "in_step (ae_lower en) c (ag_id ag) H (r, w)"
  shows "in_step (ae_lower en) c (ag_id ag) H (report_exec wire c en db x (r, w))"
proof (cases x)
  case Restarted
  with inv show ?thesis by (simp add: in_step_def boot_runtime_def)
next
  case (Ticked h now force ch cnow)
  from inv obtain sdb where sdb: "w = Some sdb" "skill_table_ok sdb" by (auto simp: in_step_def)
  have h: "h \<in> H" and ch: "ch \<noteq> AnswerLost" using st Ticked by (auto simp: answered_def)
  show ?thesis
  proof (cases "scan_due now force r \<and> agentPaths c \<noteq> None \<and> Fingerprint h (scan_of h c) \<noteq> lastSkillFingerprint r \<and> ch = Delivered")
    case True
    obtain sdb' where "center_call wire en (sc_WorkerID c) db Delivered cnow (body_of c now (scan_of h c)) (Some sdb) = (True, Some sdb')"
        "skill_table_ok sdb'" "reflects (ae_lower en) (ag_id ag) (scan_of h c) (Some sdb')"
      using center_stores [where wire = wire and c = c and h = h and ch = Delivered and cnow = cnow and now = now, OF ag sdb(2)]
        clean h by auto
    with True h show ?thesis
      unfolding Ticked report_exec_tick by (auto simp: in_step_def sdb(1))
  next
    case False
    then show ?thesis
      using inv ch unfolding Ticked report_exec_tick by (cases ch) (auto simp: in_step_def center_unreached)
  qed
qed

lemma in_step_run:
  assumes ag: "requireAgentOnWorker en True (sc_WorkerID c) (wire (sc_AgentID c)) db = Ok ag" "CHR 0x1F \<notin> set (ag_id ag)"
    and clean: "\<forall>h \<in> H. clean_disk wire c en h"
    and steps: "set (disks steps) \<subseteq> H" "list_all answered steps" and inv: "in_step (ae_lower en) c (ag_id ag) H st"
  shows "in_step (ae_lower en) c (ag_id ag) H (report_run wire c en db steps st)"
  using steps inv
proof (induction steps arbitrary: st)
  case (Cons x xs)
  have d: "set (disks [x]) \<subseteq> H" "set (disks xs) \<subseteq> H" using Cons.prems(1) by (cases x; simp)+
  obtain r w where rw: "st = (r, w)" by (cases st)
  have "in_step (ae_lower en) c (ag_id ag) H (report_exec wire c en db x st)"
    unfolding rw by (rule in_step_exec [OF ag clean d(1)]) (use Cons.prems rw in simp_all)
  with Cons.IH [OF d(2)] Cons.prems(2) show ?case by (simp add: report_run_def)
qed (simp add: report_run_def)

lemma in_step_boot: "skill_table_ok sdb \<Longrightarrow> in_step ul c a H (boot_runtime, Some sdb)"
  by (simp add: in_step_def boot_runtime_def)

text \<open>A tick that scans and reaches the center leaves the center listing the disk.\<close>

lemma due_tick_reflects:
  assumes ag: "requireAgentOnWorker en True (sc_WorkerID c) (wire (sc_AgentID c)) db = Ok ag" "CHR 0x1F \<notin> set (ag_id ag)"
    and clean: "\<forall>h \<in> H. clean_disk wire c en h" and coll: "no_collision c H" and h: "h \<in> H"
    and inv: "in_step (ae_lower en) c (ag_id ag) H (r, w)"
    and due: "scan_due now force r" and paths: "agentPaths c \<noteq> None" and ch: "ch \<noteq> Unreached"
  shows "reflects (ae_lower en) (ag_id ag) (scan_of h c) (snd (report_exec wire c en db (Ticked h now force ch cnow) (r, w)))"
proof (cases "Fingerprint h (scan_of h c) = lastSkillFingerprint r")
  case True
  moreover have "Fingerprint h (scan_of h c) \<noteq> []" using coll h by (simp add: no_collision_def)
  ultimately obtain h' where h': "h' \<in> H" "Fingerprint h (scan_of h c) = Fingerprint h' (scan_of h' c)"
      "reflects (ae_lower en) (ag_id ag) (scan_of h' c) w"
    using inv by (auto simp: in_step_def)
  have "scan_of h c = scan_of h' c" by (rule same_fingerprint_same_scan [OF coll clean h h'(1,2)])
  with h'(3) True due show ?thesis unfolding report_exec_tick by simp
next
  case False
  from inv obtain sdb where sdb: "w = Some sdb" "skill_table_ok sdb" by (auto simp: in_step_def)
  obtain sdb' where "center_call wire en (sc_WorkerID c) db ch cnow (body_of c now (scan_of h c)) (Some sdb) = (ch = Delivered, Some sdb')"
      "reflects (ae_lower en) (ag_id ag) (scan_of h c) (Some sdb')"
    using center_stores [where wire = wire and c = c and h = h and ch = ch and cnow = cnow and now = now, OF ag sdb(2)]
      clean h ch by auto
  with False due paths show ?thesis unfolding report_exec_tick by (auto simp: sdb(1))
qed

text \<open>As long as the disk has the fingerprint the runtime holds, ticks leave the center alone.\<close>

lemma same_fingerprint_quiet:
  assumes "lastSkillFingerprint (fst st) = Fingerprint h (scan_of h c)"
  shows "snd (report_run wire c en db (map (\<lambda>(now, force, ch, cnow). Ticked h now force ch cnow) ticks) st) = snd st"
  using assms
proof (induction ticks arbitrary: st)
  case (Cons t ts)
  obtain now force ch cnow where t: "t = (now, force, ch, cnow)" by (cases t)
  obtain r w where st: "st = (r, w)" by (cases st)
  let ?st = "report_exec wire c en db (Ticked h now force ch cnow) (r, w)"
  have "lastSkillFingerprint (fst ?st) = Fingerprint h (scan_of h c)" "snd ?st = w"
    using Cons.prems unfolding st report_exec_tick by (simp_all add: st)
  with Cons.IH [of ?st] show ?case by (simp add: report_run_def t st)
qed (simp add: report_run_def)

end
