(* ===== verification/Skill_Properties.thy ===== *)
theory Skill_Properties
  imports Skill_Report
begin

section \<open>Properties of the skill reports\<close>

text \<open>
  The contract of a report at the center, the agreement of the two resolutions of shadowing,
  the convergence of a history of reports, and two ways in which the list of the center
  departs from the disk.
\<close>

text \<open>
  C28: A report whose entries carry valid layers is stored whatever the table holds: the list
  read back is the canonical set, with the agent and the collection time stamped, in the same
  order when names are lower case; no other agent's list changes; and each name in the list
  has exactly one effective copy.
\<close>

theorem report_then_list:
  assumes "CHR 0x1F \<notin> set a" "skill_table_ok db" "NormalizeInstalledSkills ul xs = Ok ys"
  shows "\<exists>db'. ReportInstalledSkills ul now a xs tm (Some db) = Ok (Some db') \<and> skill_table_ok db' \<and>
     mset (ListInstalledSkills a (Some db')) =
       mset (map (\<lambda>s. s\<lparr>is_AgentRef := a, is_CollectedAt := stamp now tm\<rparr>) ys) \<and>
     ((\<forall>s \<in> set ys. ToLower ul (is_Name s) = is_Name s) \<longrightarrow>
       ListInstalledSkills a (Some db') = map (\<lambda>s. s\<lparr>is_AgentRef := a, is_CollectedAt := stamp now tm\<rparr>) ys) \<and>
     (\<forall>b. b \<noteq> a \<longrightarrow> ListInstalledSkills b (Some db') = ListInstalledSkills b (Some db)) \<and>
     (\<forall>u \<in> set ys. \<exists>!s. s \<in> set ys \<and> ToLower ul (is_Name s) = ToLower ul (is_Name u) \<and> \<not> is_Shadowed s)"
proof -
  note c = normalize_canonical [OF assms(3)]
  obtain db' where R: "ReportInstalledSkills ul now a xs tm (Some db) = Ok (Some db')" "skill_table_ok db'"
    "ListInstalledSkills a (Some db') = map (\<lambda>s. s\<lparr>is_AgentRef := a, is_CollectedAt := stamp now tm\<rparr>)
       (sort_key (\<lambda>s. (sql_layer_case (is_Layer s), is_Name s)) ys)"
    "\<forall>b. b \<noteq> a \<longrightarrow> ListInstalledSkills b (Some db') = ListInstalledSkills b (Some db)"
    by (rule report_stored [OF assms])
  have "\<forall>u \<in> set ys. \<exists>!s. s \<in> set ys \<and> ToLower ul (is_Name s) = ToLower ul (is_Name u) \<and> \<not> is_Shadowed s"
    using effective_unique [OF c] by blast
  with R sql_order_lower [OF c] show ?thesis by (intro exI [of _ db']) simp
qed

text \<open>
  C27: Of a posted scan whose names and descriptions are trimmed, the center keeps the first
  copy of each name in each layer with exactly the shadowing flags that the runtime computed,
  and drops no effective copy.  \<open>untrimmed_names_collapse\<close> shows what the condition excludes.
\<close>

theorem center_keeps_scan:
  assumes "\<forall>s \<in> set (Scan h lr). tidy s"
  shows "NormalizeInstalledSkills (h_lower h) (map entry_skill (skillReportEntries (Scan h lr))) =
       Ok (map posted (keep_first (scan_order (h_lower h)) [] (Scan h lr))) \<and>
     (\<forall>s \<in> set (Scan h lr). \<not> sk_Shadowed s \<longrightarrow> s \<in> set (keep_first (scan_order (h_lower h)) [] (Scan h lr)))"
  using assms normalize_posted [OF _ fresh_layers, of "h_lower h" h lr] effective_kept [of _ "h_lower h" "scan_layers h lr"]
  by (simp add: Scan_def skillReportEntries_def comp_def)

text \<open>
  Where no two skills of a layer share a name, the scan does not depend on the order of
  the roots.
\<close>

theorem scan_order_free:
  assumes "\<forall>l \<in> set orderedLayers. mset (rootsFor lr l) = mset (rootsFor lr' l)"
    and "distinct (map (scan_order (h_lower h)) (scan_layers h lr))"
  shows "Scan h lr = Scan h lr' \<and> Fingerprint h (Scan h lr) = Fingerprint h (Scan h lr')"
  using resolve_order [OF mset_layers [OF assms(1)] assms(2) fresh_layers] by (simp add: Scan_def)

text \<open>
  C29: Two installed plugins that bring the same skill make the report depend on the order in
  which the manifest's map is walked, which Go leaves open: the two orders scan the same disk
  to different sets, and of each scan the copy that came first is kept; when the names and
  descriptions are trimmed, that is the copy the center stores.
\<close>

theorem plugin_order_flaps:
  assumes m: "h_ReadFile h (path_Join [d, ''installed_plugins.json'']) = Some b"
      "h_manifest h b = Some [[i], [j]]" "i \<noteq> []" "j \<noteq> []" "path_Join [i, ''skills''] \<noteq> path_Join [j, ''skills'']"
    and r: "scanRoot h ''plugin'' (path_Join [i, ''skills'']) = [s]" "scanRoot h ''plugin'' (path_Join [j, ''skills'']) = [t]"
      "scan_key (h_lower h) s = scan_key (h_lower h) t" "s \<noteq> t"
    and h': "h' = h\<lparr>h_manifest := (\<lambda>_. Some [[j], [i]])\<rparr>"
    and lr: "lr = \<lparr>lr_Builtin = [], lr_Plugin = pluginSkillRoots h d, lr_User = [], lr_Project = []\<rparr>"
      "lr' = lr\<lparr>lr_Plugin := pluginSkillRoots h' d\<rparr>"
  shows "Scan h lr = [s, t\<lparr>sk_Shadowed := True\<rparr>] \<and> Scan h' lr' = [t, s\<lparr>sk_Shadowed := True\<rparr>] \<and>
     keep_first (scan_order (h_lower h)) [] (Scan h lr) = [s] \<and> keep_first (scan_order (h_lower h)) [] (Scan h' lr') = [t] \<and>
     (tidy s \<and> tidy t \<longrightarrow>
        NormalizeInstalledSkills (h_lower h) (map entry_skill (skillReportEntries (Scan h lr))) = Ok [posted s] \<and>
        NormalizeInstalledSkills (h_lower h) (map entry_skill (skillReportEntries (Scan h' lr'))) = Ok [posted t])"
proof -
  have roots: "pluginSkillRoots h d = [path_Join [i, ''skills''], path_Join [j, ''skills'']]"
      "pluginSkillRoots h' d = [path_Join [j, ''skills''], path_Join [i, ''skills'']]"
    using m by (simp_all add: pluginSkillRoots_def h' Let_def)
  have lower: "h_lower h' = h_lower h" and scans: "scanRoot h' = scanRoot h" by (simp_all add: h' fun_eq_iff)
  have scan: "Scan h lr = [s, t\<lparr>sk_Shadowed := True\<rparr>]" "Scan h' lr' = [t, s\<lparr>sk_Shadowed := True\<rparr>]"
      "keep_first (scan_order (h_lower h)) [] (Scan h lr) = [s]" "keep_first (scan_order (h_lower h)) [] (Scan h' lr') = [t]"
    using scan_plugin_pair [OF r(1,2,3)] scan_plugin_pair [of h' "path_Join [j, ''skills'']" t "path_Join [i, ''skills'']" s] r
    unfolding lr roots lower scans by simp_all
  have kept: "NormalizeInstalledSkills (h_lower h) (map entry_skill (skillReportEntries (Scan k x))) =
      Ok (map posted (keep_first (scan_order (h_lower h)) [] (Scan k x)))"
    if "h_lower k = h_lower h" "\<forall>s \<in> set (Scan k x). tidy s" for k x
    using normalize_posted [OF _ fresh_layers, of "h_lower k" k x] that by (simp add: Scan_def skillReportEntries_def comp_def)
  have "tidy s \<and> tidy t \<longrightarrow>
        NormalizeInstalledSkills (h_lower h) (map entry_skill (skillReportEntries (Scan h lr))) = Ok [posted s] \<and>
        NormalizeInstalledSkills (h_lower h) (map entry_skill (skillReportEntries (Scan h' lr'))) = Ok [posted t]"
  proof
    assume tidy: "tidy s \<and> tidy t"
    then have "\<forall>x \<in> set (Scan h lr). tidy x" "\<forall>x \<in> set (Scan h' lr'). tidy x"
      unfolding scan(1,2) by (simp_all add: tidy_def)
    from kept [OF refl this(1)] kept [OF lower this(2)]
    show "NormalizeInstalledSkills (h_lower h) (map entry_skill (skillReportEntries (Scan h lr))) = Ok [posted s] \<and>
        NormalizeInstalledSkills (h_lower h) (map entry_skill (skillReportEntries (Scan h' lr'))) = Ok [posted t]"
      unfolding scan(3,4) by simp
  qed
  with scan show ?thesis by blast
qed

text \<open>
  C26: Take any history of restarts and ticks against changing disks, in which a post that the
  center applied is always acknowledged.  If on each of these disks the names and descriptions
  are trimmed, hold no byte 0x1f and pass JSON unchanged, and if disks with different skills have
  different fingerprints, then a tick that is due and reaches the center leaves the center
  listing exactly what is on the disk: the first copy of each skill of each layer.  The lemmas
  \<open>fp_records_collide\<close> and \<open>untrimmed_names_collapse\<close> show what the conditions exclude.
\<close>

theorem due_tick_lists_disk:
  assumes ag: "requireAgentOnWorker en True (sc_WorkerID c) (wire (sc_AgentID c)) db = Ok ag" "CHR 0x1F \<notin> set (ag_id ag)"
    and table: "skill_table_ok sdb" and paths: "agentPaths c \<noteq> None"
    and disks: "\<forall>d \<in> set (disks (steps @ [Ticked h now force Delivered cnow])). clean_disk wire c en d"
      "no_collision c (set (disks (steps @ [Ticked h now force Delivered cnow])))"
    and steps: "list_all answered steps"
    and due: "scan_due now force (fst (report_run wire c en db steps (boot_runtime, Some sdb)))"
  shows "reflects (ae_lower en) (ag_id ag) (scan_of h c)
     (snd (report_run wire c en db (steps @ [Ticked h now force Delivered cnow]) (boot_runtime, Some sdb)))"
proof -
  let ?H = "set (disks (steps @ [Ticked h now force Delivered cnow]))"
  have d: "set (disks steps) \<subseteq> ?H" "h \<in> ?H" by (auto simp: disks_append)
  obtain r w where rw: "report_run wire c en db steps (boot_runtime, Some sdb) = (r, w)" by fastforce
  have "in_step (ae_lower en) c (ag_id ag) ?H (r, w)"
    using in_step_run [OF ag disks(1) d(1) steps in_step_boot [OF table]] by (simp add: rw)
  from due_tick_reflects [OF ag disks d(2) this _ paths, of now force Delivered cnow] due
  show ?thesis by (simp only: rw report_run_snoc fst_conv) simp
qed

text \<open>
  When the answer to a post is lost after the center applied it, the runtime still holds the
  fingerprint of the earlier disk.  If the disk then goes back, no later tick posts, and the
  center keeps listing the set that is gone until the runtime restarts or the disk changes.
\<close>

theorem lost_answer_hides_disk:
  assumes ag: "requireAgentOnWorker en True (sc_WorkerID c) (wire (sc_AgentID c)) db = Ok ag" "CHR 0x1F \<notin> set (ag_id ag)"
    and table: "skill_table_ok sdb" and paths: "agentPaths c \<noteq> None" and b: "clean_disk wire c en hb"
    and differ: "Fingerprint hb (scan_of hb c) \<noteq> Fingerprint ha (scan_of ha c)"
    and held: "lastSkillFingerprint r = Fingerprint ha (scan_of ha c)" and due: "scan_due now force r"
  shows "reflects (ae_lower en) (ag_id ag) (scan_of hb c)
     (snd (report_run wire c en db (Ticked hb now force AnswerLost cnow #
        map (\<lambda>(now, force, ch, cnow). Ticked ha now force ch cnow) ticks) (r, Some sdb)))"
proof -
  let ?st = "report_exec wire c en db (Ticked hb now force AnswerLost cnow) (r, Some sdb)"
  obtain sdb' where C: "center_call wire en (sc_WorkerID c) db AnswerLost cnow (body_of c now (scan_of hb c)) (Some sdb) = (False, Some sdb')"
      "reflects (ae_lower en) (ag_id ag) (scan_of hb c) (Some sdb')"
    using center_stores [where wire = wire and c = c and h = hb and ch = AnswerLost and cnow = cnow and now = now, OF ag table] b
    by auto
  have "?st = (r\<lparr>lastSkillScanAt := now\<rparr>, Some sdb')"
    using C(1) paths differ held due unfolding report_exec_tick by auto
  with same_fingerprint_quiet [of ?st ha c wire en db ticks] C(2) held show ?thesis by (simp add: report_run_def)
qed

text \<open>The table sorts names as they are, the canonical set in lower case: the two orders differ.\<close>

lemma list_order_differs:
  "map_sum id (\<lambda>w. map is_Name (ListInstalledSkills ''A'' w)) (ReportInstalledSkills id 5 ''A''
     (map entry_skill (skillReportEntries [\<lparr>sk_Layer = ''user'', sk_Name = ''a'', sk_Description = [], sk_Shadowed = False\<rparr>,
        \<lparr>sk_Layer = ''user'', sk_Name = ''B'', sk_Description = [], sk_Shadowed = False\<rparr>])) 0 (Some [])) =
     (Ok [''B'', ''a''] :: agent_error + gostring list)"
  by code_simp

subsection \<open>Witnesses\<close>

text \<open>A disk with two user roots, each holding the skills of the given names without front matter.\<close>

definition sample_disk :: "gostring list \<Rightarrow> gostring list \<Rightarrow> host" where
  "sample_disk us vs =
     \<lparr>h_ReadDir = (\<lambda>d. map_option (map (\<lambda>n. \<lparr>de_Name = n, de_IsDir = True, de_Symlink = False\<rparr>))
        (if d = ''/u'' then Some us else if d = ''/v'' then Some vs else None)),
      h_Stat_IsDir = (\<lambda>_. None), h_ReadFile = (\<lambda>_. Some []), h_yaml = (\<lambda>_. None), h_manifest = (\<lambda>_. None),
      h_sha256hex = (\<lambda>s. ''h'' @ s), h_lower = id, h_Getenv = (\<lambda>_. []), h_UserHomeDir = None\<rparr>"

definition user_roots :: "gostring list \<Rightarrow> layer_roots" where
  "user_roots ds = \<lparr>lr_Builtin = [], lr_Plugin = [], lr_User = ds, lr_Project = []\<rparr>"

definition sample_cfg :: skill_cfg where
  "sample_cfg = \<lparr>sc_AgentID = ''A'', sc_WorkerID = ''w'', sc_AgentHomeBase = ''/b'',
     sc_Roots = Some (\<lambda>_ _. user_roots [''/u'', ''/v''])\<rparr>"

definition sample_report :: "installed_skill list" where
  "sample_report =
     [\<lparr>is_AgentRef = [], is_Layer = ''user'', is_Name = '' Plan '', is_Description = [], is_Shadowed = True, is_CollectedAt = 0\<rparr>,
      \<lparr>is_AgentRef = [], is_Layer = ''user'', is_Name = ''plan'', is_Description = [], is_Shadowed = False, is_CollectedAt = 0\<rparr>,
      \<lparr>is_AgentRef = [], is_Layer = ''built-in'', is_Name = ''plan'', is_Description = [], is_Shadowed = False, is_CollectedAt = 0\<rparr>]"

theorem report_then_list_witness:
  "\<exists>db'. ReportInstalledSkills id 5 ''A'' sample_report 0 (Some []) = Ok (Some db') \<and>
     length (ListInstalledSkills ''A'' (Some db')) = 2"
proof -
  have n: "map_sum id length (NormalizeInstalledSkills id sample_report) = (Ok 2 :: agent_error + nat)" by code_simp
  then obtain ys where ys: "NormalizeInstalledSkills id sample_report = Ok ys" "length ys = 2"
    by (cases "NormalizeInstalledSkills id sample_report") auto
  have "CHR 0x1F \<notin> set ''A''" "skill_table_ok []" by (simp_all add: skill_table_ok_def)
  from report_then_list [OF this ys(1), of 5 0] ys(2) show ?thesis by (metis length_map size_mset)
qed

theorem center_keeps_scan_witness:
  "NormalizeInstalledSkills id (map entry_skill (skillReportEntries (Scan (sample_disk [''a'', ''b''] [''A'']) (user_roots [''/u'', ''/v''])))) =
     Ok (map posted (keep_first (scan_order id) [] (Scan (sample_disk [''a'', ''b''] [''A'']) (user_roots [''/u'', ''/v'']))))"
proof -
  let ?h = "sample_disk [''a'', ''b''] [''A'']"
  have "list_all tidy (Scan ?h (user_roots [''/u'', ''/v'']))" by code_simp
  then have "\<forall>s \<in> set (Scan ?h (user_roots [''/u'', ''/v''])). tidy s" by (simp add: list_all_iff)
  moreover have "h_lower ?h = id" by (simp add: sample_disk_def)
  ultimately show ?thesis using center_keeps_scan [of ?h "user_roots [''/u'', ''/v'']"] by simp
qed

text \<open>
  Two directories whose names differ by a trailing space are two skills to the runtime, both
  effective, and one to the center.
\<close>

lemma untrimmed_names_collapse:
  "map (\<lambda>s. (sk_Name s, sk_Shadowed s)) (Scan (sample_disk [''a'', ''a ''] []) (user_roots [''/u''])) = [(''a'', False), (''a '', False)] \<and>
   map_sum id (map is_Name) (NormalizeInstalledSkills id (map entry_skill (skillReportEntries
     (Scan (sample_disk [''a'', ''a ''] []) (user_roots [''/u'']))))) = (Ok [''a''] :: agent_error + gostring list)"
  by code_simp

theorem scan_order_free_witness:
  "Scan (sample_disk [''a''] [''b'']) (user_roots [''/u'', ''/v'']) = Scan (sample_disk [''a''] [''b'']) (user_roots [''/v'', ''/u''])"
proof -
  let ?h = "sample_disk [''a''] [''b'']"
  have "\<forall>l \<in> set orderedLayers. mset (rootsFor (user_roots [''/u'', ''/v'']) l) = mset (rootsFor (user_roots [''/v'', ''/u'']) l)"
    by (simp add: orderedLayers_def rootsFor_def user_roots_def)
  moreover have "distinct (map (scan_order (h_lower ?h)) (scan_layers ?h (user_roots [''/u'', ''/v''])))" by code_simp
  ultimately show ?thesis using scan_order_free [of _ _ ?h] by blast
qed

text \<open>Two versions of one plugin, each with the same skill under a directory of another case.\<close>

definition plugin_disk :: host where
  "plugin_disk = (sample_disk [] [])\<lparr>
     h_ReadDir := (\<lambda>d. map_option (\<lambda>n. [\<lparr>de_Name = n, de_IsDir = True, de_Symlink = False\<rparr>])
        (if d = ''/i/skills'' then Some ''x'' else if d = ''/j/skills'' then Some ''X'' else None)),
     h_manifest := (\<lambda>_. Some [[''/i''], [''/j'']])\<rparr>"

abbreviation plugin_skill :: "gostring \<Rightarrow> bool \<Rightarrow> skill" where
  "plugin_skill n b \<equiv> \<lparr>sk_Layer = ''plugin'', sk_Name = n, sk_Description = [], sk_Shadowed = b\<rparr>"

theorem plugin_order_flaps_witness:
  "Scan (plugin_disk\<lparr>h_manifest := (\<lambda>_. Some [[''/j''], [''/i'']])\<rparr>)
     \<lparr>lr_Builtin = [], lr_Plugin = pluginSkillRoots (plugin_disk\<lparr>h_manifest := (\<lambda>_. Some [[''/j''], [''/i'']])\<rparr>) ''/p'',
      lr_User = [], lr_Project = []\<rparr> = [plugin_skill ''X'' False, plugin_skill ''x'' True]"
proof -
  have paths: "path_Join [''/i'', ''skills''] = ''/i/skills''" "path_Join [''/j'', ''skills''] = ''/j/skills''" by code_simp+
  have m: "h_ReadFile plugin_disk (path_Join [''/p'', ''installed_plugins.json'']) = Some []"
      "h_manifest plugin_disk [] = Some [[''/i''], [''/j'']]"
    by (simp_all add: plugin_disk_def sample_disk_def)
  have r: "scanRoot plugin_disk ''plugin'' (path_Join [''/i'', ''skills'']) = [plugin_skill ''x'' False]"
      "scanRoot plugin_disk ''plugin'' (path_Join [''/j'', ''skills'']) = [plugin_skill ''X'' False]"
      "scan_key (h_lower plugin_disk) (plugin_skill ''x'' False) = scan_key (h_lower plugin_disk) (plugin_skill ''X'' False)"
    by code_simp+
  from plugin_order_flaps [OF m _ _ _ r _ refl refl refl] show ?thesis by (simp add: paths)
qed

definition sample_history :: "report_step list" where
  "sample_history =
     [Ticked (sample_disk [''a''] []) 100 True Delivered 100, Ticked (sample_disk [''a''] [''b'']) (40 * 1000000000) False Unreached 100,
      Restarted]"

theorem due_tick_lists_disk_witness:
  "reflects id ''A'' (scan_of (sample_disk [''a''] [''b'']) sample_cfg)
     (snd (report_run id sample_cfg sample_env (run_ops (agent_exec sample_env) stopping_ops (no_agents () 1))
        (sample_history @ [Ticked (sample_disk [''a''] [''b'']) (80 * 1000000000) False Delivered 100]) (boot_runtime, Some [])))"
proof -
  let ?db = "run_ops (agent_exec sample_env) stopping_ops (no_agents () 1)"
  let ?steps = "sample_history @ [Ticked (sample_disk [''a''] [''b'']) (80 * 1000000000) False Delivered 100]"
  have "map_sum id ag_id (requireAgentOnWorker sample_env True (sc_WorkerID sample_cfg) (id (sc_AgentID sample_cfg)) ?db) =
      (Ok ''A'' :: agent_error + gostring)" by code_simp
  then obtain ag where ag: "requireAgentOnWorker sample_env True (sc_WorkerID sample_cfg) (id (sc_AgentID sample_cfg)) ?db = Ok ag" "ag_id ag = ''A''"
    by (cases "requireAgentOnWorker sample_env True (sc_WorkerID sample_cfg) (id (sc_AgentID sample_cfg)) ?db") auto
  have sep: "CHR 0x1F \<notin> set (ag_id ag)" by (simp add: ag(2))
  have table: "skill_table_ok []" by (simp add: skill_table_ok_def)
  have paths: "agentPaths sample_cfg \<noteq> None" by code_simp
  have low: "ae_lower sample_env = id" by (simp add: sample_env_def)
  have scans: "scan_of (sample_disk [''a''] []) sample_cfg = [\<lparr>sk_Layer = ''user'', sk_Name = ''a'', sk_Description = [], sk_Shadowed = False\<rparr>]"
      "scan_of (sample_disk [''a''] [''b'']) sample_cfg = [\<lparr>sk_Layer = ''user'', sk_Name = ''a'', sk_Description = [], sk_Shadowed = False\<rparr>,
         \<lparr>sk_Layer = ''user'', sk_Name = ''b'', sk_Description = [], sk_Shadowed = False\<rparr>]"
    by code_simp+
  have trims: "TrimSpace ''a'' = ''a''" "TrimSpace ''b'' = ''b''" by code_simp+
  have clean: "\<forall>d \<in> set (disks ?steps). clean_disk id sample_cfg sample_env d"
    by (simp add: sample_history_def clean_disk_def scans tidy_def separable_def wire_entry_def report_entry_of_def
        orderedLayers_def trims low) (simp add: sample_disk_def)
  have coll: "no_collision sample_cfg (set (disks ?steps))"
    by (simp add: sample_history_def no_collision_def scans Fingerprint_def fp_record_def) (simp add: sample_disk_def)
  have due: "scan_due (80 * 1000000000) False (fst (report_run id sample_cfg sample_env ?db sample_history (boot_runtime, Some [])))"
    by (simp only: sample_history_def report_run_snoc [of _ _ _ _ "[_, _]", simplified append.simps] restarted_runtime)
       (simp add: boot_runtime_def scan_due_def is_zero_time_def)
  have "list_all answered sample_history" by (simp add: sample_history_def answered_def)
  from due_tick_lists_disk [OF ag(1) sep table paths clean coll this due] show ?thesis by (simp only: low ag(2))
qed

end
