(* ===== verification/Spec2Isabelle.thy ===== *)
theory Spec2Isabelle
  imports Task_Properties Plan Plan_DAG Plan_Topology Plan_View Plan_Wait Stage Orch_Properties
    Orch_Refinement Remediation Reminder Wake_Guard Outbox Control_Loop Authz_Properties Authz_Access
    Agent_Properties Agent_Delivery Skill_Properties
begin

text \<open>
  A verification development for agent-center, a Go service that plans work as graphs of tasks
  and dispatches them to agents.  The core logic is the domain under
  \<open>src/internal/projectmanager\<close>; the other packages named below are its siblings under
  \<open>src/internal\<close>, and a path without a package is relative to \<open>projectmanager\<close>.

  \<^bold>\<open>The program.\<close>  A task (\<open>task.go\<close>) is the unit of work: open, running, then completed,
  failed or discarded, with an assignee, a lease that its agent renews, a delivery that gates its
  completion, and an orthogonal archive lock.  A plan (\<open>plan.go\<close>) selects tasks and joins
  them by dependency, conditional and loopback edges (\<open>plan_dag.go\<close>), stored behind a guard
  (\<open>sqlite/plan_repo.go\<close>) and edited in batches (\<open>service/plan_topology_edit.go\<close>).  What a
  plan looks like to its reader and its dispatcher is derived on each read: the pruned branches,
  the status of each node, the ready set, progress (\<open>plan_view.go\<close>), what it waits for and
  until when (\<open>plan_frontier.go\<close>, \<open>plan_deadline.go\<close>).  Stages (\<open>stage.go\<close>,
  \<open>stage_dag.go\<close>, \<open>stage_projection.go\<close>) group the tasks behind gates.  A running plan is
  mirrored into an orchestration graph (\<open>orchestration/\<close>), whose nodes start, complete, reopen
  and are discarded, and whose condition nodes loop work back.  When an acceptance gate rejects,
  a continuation (\<open>remediation.go\<close>) compiles a proposal into further tasks, within a budget.

  Services append events to an outbox in the transaction of their change, and a relay
  (\<open>outbox/\<close>) hands each event to every projector, whose effects reach the agents as commands
  in the control log of their worker (\<open>environment/\<close>).  The center pushes the commands over a
  stream (\<open>environment/controlstream/\<close>, \<open>admin/api/environment_stream.go\<close>), and the worker
  daemon applies and acknowledges them (\<open>workerdaemon/control_loop.go\<close>).  Reminders
  (\<open>cognition/reminder/\<close>) wake agents by schedule or event, and the wake guard
  (\<open>cognition/wakeguard/\<close>) stops agents from waking each other without end.

  Who may do any of this is decided by one service (\<open>authorization/\<close>).  It resolves the resource of
  a request to its organization and project, derives what the subject holds there from the membership
  tables (or, in enforce mode, from the rows of the built-in roles), from the roles of its teams and
  from its assignments, and caches the answer under a version of the tables.  Roles and assignments
  change in batches (\<open>ApplyBatch\<close>): each operation asks the same service whether its actor may make
  it, and a batch is one transaction with an idempotency key.

  An agent (\<open>agent/\<close>) is bound to a worker and has a lifecycle that operators intend: the service
  changes it and emits an event in the same transaction, while the worker's reports of what became
  of the process are stored without an event.  The runtime of an agent also reports which skills it
  finds on its disk (\<open>agentruntime/\<close>), and the center keeps the last report for its readers.

  \<^bold>\<open>Theories, from the leaves.\<close>
  \<^item> \<open>AC_Prelude\<close>: results as sums, time and the clock fallback, deduplication, Go maps of
    slices; \<open>Go_Strings\<close>: the functions of package strings on byte strings.
  \<^item> \<open>Lifecycle\<close>: the interfaces.  \<open>status_machine\<close> is a transition table with its validity
    and terminal tests; \<open>history\<close>, \<open>aggregate\<close> and \<open>sealed_aggregate\<close> are sequences of
    mutator calls with a relation, an invariant and a version, and a set of sealed states.  They
    are interpreted on tasks (\<open>task_done\<close>, \<open>task_locked\<close>, \<open>task_ident\<close>), plans
    (\<open>plan_sm\<close>, \<open>plan_hist\<close>), the edge table (\<open>edge_hist\<close>), orchestration nodes and graphs
    (\<open>orch_node_sm\<close>, \<open>orch_graph_sm\<close>, \<open>orch_graph\<close>), condition rounds
    (\<open>condition_rounds\<close>), continuations, reminders (\<open>reminders\<close>), the outbox (\<open>outbox\<close>) and
    the control log (\<open>control_log\<close>).
  \<^item> \<open>Three_Color_DFS\<close>, \<open>Worklist\<close>, \<open>Queue_Search\<close>: the graph searches that the Go code
    writes out again and again, each with its correctness; the locale \<open>dfs_graph\<close> is what a
    caller of the cycle check owes, interpreted by \<open>plan_dag\<close>, \<open>stage_dag\<close> and
    \<open>orch_dag\<close>.
  \<^item> \<open>PM_Types\<close>, \<open>Task\<close>, \<open>Task_Lifecycle\<close>, \<open>Task_Properties\<close>: the task aggregate (record
    \<open>t_x\<close>, method \<open>M\<close> as \<open>task_M\<close>), its histories and their theorems.
  \<^item> \<open>Plan\<close>, \<open>Plan_DAG\<close>, \<open>Plan_Topology\<close>, \<open>Plan_View\<close>, \<open>Plan_Wait\<close>: plans (\<open>p_x\<close>,
    \<open>plan_M\<close>), their edges (\<open>dep_x\<close>), the batch edit over the tables of tasks and edges
    (its edges are compared by the text of \<open>edgeFullSig\<close>), the derived view, waits and
    deadlines.
  \<^item> \<open>Stage\<close>: stages (\<open>s_x\<close>, \<open>stage_M\<close>) and their projection.
  \<^item> \<open>Orch_Node\<close>, \<open>Orch_Graph\<close>, \<open>Orch_Condition\<close>, \<open>Orch_Lifecycle\<close>, \<open>Orch_Properties\<close>:
    orchestration nodes (\<open>n_x\<close>, \<open>node_M\<close>), graphs (\<open>g_x\<close>, \<open>graph_M\<close>), conditions,
    histories and theorems; \<open>Row_Time\<close>, \<open>Orch_Service\<close>: the three tables, their repositories
    and the service over them (\<open>svc_M\<close>), each call a read phase and a transaction;
    \<open>Orch_Refinement\<close>: the tables refine the aggregate while calls run one after another.
  \<^item> \<open>Topo_Sort\<close>, \<open>Remediation\<close>: the topological sort of the proposal compiler, the
    continuation (\<open>pc_x\<close>, \<open>cont_M\<close>) and the compiler.
  \<^item> \<open>Reminder\<close> (\<open>r_x\<close>, \<open>rem_M\<close>) and \<open>Wake_Guard\<close> (\<open>g_x\<close>, \<open>EvaluateHop\<close>).
  \<^item> \<open>Outbox\<close>: the two tables, one pass of the relay, the drain and the pump.
  \<^item> \<open>Control_Log\<close>, \<open>Control_Stream\<close>, \<open>Control_Loop\<close>: the tables of workers and
    commands with the services over them, the ring and bus of the push channel with the frames
    of one connection, and the daemon's cursor, batch and parking logic.
  \<^item> \<open>Authz_Registry\<close> (\<open>types.go\<close>, \<open>registry.go\<close>): subjects, resources, the permissions;
    \<open>Authz_Store\<close>: the tables (\<open>auth_db\<close>) and the reads of one row; \<open>Authz_Derive\<close>,
    \<open>Authz_Service\<close>: the functions \<open>addXEffective\<close> and \<open>addXEquivalent\<close> that collect effective
    permissions; \<open>Authz_Resolve\<close>: resources, the cache, the shadow comparison, the decision
    (\<open>ResolveEffective\<close>, \<open>Check\<close>) and the check of the role tables.
  \<^item> \<open>Authz_Grants\<close>: the locale \<open>grant_adder\<close>, what a callback that receives a permission owes,
    interpreted on the callbacks of the code (\<open>plain\<close>, \<open>child\<close>, \<open>bridge\<close>, \<open>owned\<close>);
    \<open>Authz_Equivalence\<close>: both derivations agree on seeded roles; \<open>Authz_Policy\<close>: the policy, an
    inductive relation over the tables, and \<open>Authz_Properties\<close>: decisions are the policy, and where the
    cache departs from it.
  \<^item> \<open>Authz_Batch\<close> (\<open>store.go\<close>), \<open>Authz_Operations\<close>: the writes of roles, permissions and
    assignments, the five operations, the batch and its idempotency rows; \<open>Authz_Changes\<close>: every
    operation refines three kinds of change (\<open>access_change\<close>); \<open>Authz_History\<close>,
    \<open>Authz_Access\<close>: the invariants of those changes and the theorems over histories of batches;
    \<open>Authz_Delegation\<close>: off files the derivation neither reads nor writes the cache, so a check of
    the guards is a statement about the tables.

  \<^item> \<open>Agent\<close> (record \<open>ag_x\<close>, method \<open>M\<close> as \<open>agent_M\<close>), \<open>Agent_Service\<close>: the aggregate, its
    table, the service and the worker's report; \<open>Agent_History\<close>: how every call moves the rows
    (\<open>row_step\<close>); \<open>Agent_Properties\<close>: histories in which some calls do not occur, as
    interpretations \<open>table\<close>, \<open>asleep\<close> and \<open>archived\<close> of \<open>history\<close>, and the theorems.
  \<^item> \<open>Agent_Control\<close> (\<open>environment/service/agent_control_projector.go\<close>): the projector that turns
    the agents' events into commands, and the events that it can never take; \<open>Agent_Delivery\<close>: the
    service, the relay and the projector composed (interpretation \<open>intents\<close>).
  \<^item> \<open>Agent_Skills\<close> (\<open>agent/installed_skill.go\<close>, its table and calls), \<open>Skill_Scan\<close>
    (\<open>agentruntime/skillscan\<close>), \<open>Skill_Report\<close>: what the center makes of a report (\<open>is_x\<close>,
    \<open>sr_x\<close>), the scan of a disk (\<open>sk_x\<close>; the host is the record \<open>h_x\<close>), the tick of the
    runtime and histories of ticks; \<open>Skill_Properties\<close>: their theorems.

  \<^bold>\<open>Conventions.\<close>  A mutator takes the clock reading \<open>now\<close> that Go falls back to when its
  \<open>at\<close> is the zero time, and returns an error or the new aggregate; a call that fails leaves
  the aggregate as it was.  String enumerations are datatypes whose last constructor holds any
  other string, so the validity tests mean something.  A Go map is an association list, and where
  the code ranges over one the model takes the order as a parameter (\<open>range_order ord\<close>), so the
  theorems hold for every order the runtime may choose.  The input of a \<open>Rehydrate\<close> function is
  the record of the row.  Tables are lists of rows, and a statement that can fail for reasons of
  its own asks an oracle (\<open>io\<close>, \<open>handles\<close>, \<open>acks\<close>) at its position in the run, so a
  theorem over all oracles covers every pattern of failures.  What other clients commit between two
  reads of a call is a function argument (\<open>others\<close>).  The cron library, the projectors other
  than agent control (each says whether a failed projection rolls back or leaves what it wrote), the fields of JSON payloads, the hashes and digests of ids and requests, and lower-casing of Unicode are
  parameters too.  An error of the authorization service is the sentinel that it wraps; its cache version is
  the list of columns that the code concatenates; a JSON column is its decoded value, and a placement of a
  file asks the service again through a parameter (\<open>reach\<close>) that is tied at the end.

  \<^bold>\<open>Termination.\<close>  No fuel is used.  Every search is a total function with a measure: the
  nodes not yet seen, then the stack or queue; the pruning fixed point of \<open>plan_view.go\<close>
  decreases the set of nodes that are not pruned.

  \<^bold>\<open>What the theorems show.\<close>  Tasks: well-formedness over every history, permanence of
  completed and discarded, the archive lock, the completion gate, lease protection and nudge
  rate, the version counter.  Plans: the life cycle, soundness of the stored edges, the exact
  verdict of the guards, the exact effect of a batch edit and the ways it can
  fail (the validation of the final graph, an archived task that it would move), exact characterisations of pruning, of
  the ready set and of all-done, progress, and independence from map order.  Stages: the DAG
  check, entries, and the projection.  Orchestration: soundness of a graph over every history,
  the exact ready set, progress, the exact nodes that a failed condition reopens, the
  bound on its rounds, and the refinement of the aggregate by the service, with the schedule of two
  concurrent calls that breaks it.  Authorization: a decision is the policy for every
  request (the system subject and malformed requests included), enforce mode agrees with the
  membership tables on seeded roles, assignments are only added and revoked once over every history,
  owners remain, permissions stay registered, an assignment gives away only what its actor may delegate, a
  batch runs once; and the schedules in which the cache, the replay, the derived ids and the list of
  permissions forbidden to agents do not do what they are for.  Agents: only a start or an error report
  wakes an agent, archiving is final, and two reports of a worker revive an agent that was stopped.
  Across the service, the relay and the control log: every change of intent becomes one command, in
  order, and restarts of an agent that lost its worker stop all delivery.  Skills: a report is stored
  and read back as its canonical set, center and runtime agree on which copy of a skill is effective
  and every due tick leaves the center listing the disk as long as its strings are
  trimmed, survive JSON and hold no separator 0x1f, and digests do not collide; other names, the
  order of a Go map or a lost answer undo this.

  \<^bold>\<open>Not modelled.\<close>  SQL, JSON, HTTP, processes and digests are outside; so are, for now, the
  application services (but for the batch edit), the
  assignment pool, issues, plan generations, the other projectors, the other parts of agent processes, and the workforce,
  identity and conversation domains; of the authorization service, the audit listing, the previews of a
  batch and the readiness window.  Of the daemon, the goroutines and timers that call
  the modelled steps are outside.
\<close>

end
